(* ===== verification/Py_Prelude.thy ===== *)
theory Py_Prelude
  imports Complex_Main "HOL-Library.AList" "HOL-Library.Sublist" "HOL-Library.Monad_Syntax"
begin

text \<open>
  What every component of the development shares: the Python values that the governance
  code keeps in its dictionaries, the comparison of Python floats, insertion-ordered
  dictionaries, the string operations the code uses, and the environment a call reads
  (the clock, fresh identifiers, hashing and JSON encoding), passed explicitly.
\<close>

named_theorems env_simps
named_theorems dict_simps

section \<open>Python floats as the code compares them\<close>

text \<open>
  A float is a finite value (every finite double is a rational), an infinity or NaN. Every
  comparison with NaN is false. The two zeros are one value here: no operation of the
  modelled code can tell them apart.
\<close>

datatype pyfloat = Fin rat | PosInf | NegInf | NaN

fun fle :: "pyfloat \<Rightarrow> pyfloat \<Rightarrow> bool" where
  "fle NaN y = False"
| "fle x NaN = False"
| "fle NegInf y = True"
| "fle x PosInf = True"
| "fle (Fin a) (Fin b) = (a \<le> b)"
| "fle x y = False"

fun flt :: "pyfloat \<Rightarrow> pyfloat \<Rightarrow> bool" where
  "flt NaN y = False"
| "flt x NaN = False"
| "flt (Fin a) (Fin b) = (a < b)"
| "flt NegInf y = (y \<noteq> NegInf)"
| "flt x PosInf = (x \<noteq> PosInf)"
| "flt x y = False"

definition is_nan :: "pyfloat \<Rightarrow> bool" where
  "is_nan x \<longleftrightarrow> x = NaN"

definition is_inf :: "pyfloat \<Rightarrow> bool" where
  "is_inf x \<longleftrightarrow> x = PosInf \<or> x = NegInf"

lemma fle_trans: "fle x y \<Longrightarrow> fle y z \<Longrightarrow> fle x z"
  by (cases x; cases y; cases z) auto

lemma flt_imp_fle: "flt x y \<Longrightarrow> fle x y"
  by (cases x; cases y) auto

lemma not_fle_not_nan: "\<not> fle x y \<Longrightarrow> x \<noteq> NaN \<Longrightarrow> y \<noteq> NaN \<Longrightarrow> flt y x"
  by (cases x; cases y) auto

section \<open>Python values\<close>

text \<open>
  The values that appear in the code's untyped dictionaries. Strings are byte strings
  (UTF-8): no modelled operation depends on the number of code points.
\<close>

datatype pyval =
    PNone
  | PBool bool
  | PInt int
  | PFloat pyfloat
  | PStr string
  | PList "pyval list"
  | PDict "(string \<times> pyval) list"

type_synonym pydict = "(string \<times> pyval) list"

text \<open>Python's truth value of an object (\<open>if x:\<close>).\<close>

fun truthy :: "pyval \<Rightarrow> bool" where
  "truthy PNone = False"
| "truthy (PBool b) = b"
| "truthy (PInt i) = (i \<noteq> 0)"
| "truthy (PFloat x) = (x \<noteq> Fin 0)"
| "truthy (PStr s) = (s \<noteq> [])"
| "truthy (PList xs) = (xs \<noteq> [])"
| "truthy (PDict d) = (d \<noteq> [])"

text \<open>The truth value of an optional string and of an optional integer.\<close>

definition str_given :: "string option \<Rightarrow> bool" where
  "str_given s \<longleftrightarrow> s \<noteq> None \<and> s \<noteq> Some []"

definition opt_str :: "string option \<Rightarrow> pyval" where
  "opt_str s = (case s of None \<Rightarrow> PNone | Some x \<Rightarrow> PStr x)"

definition opt_int :: "int option \<Rightarrow> pyval" where
  "opt_int i = (case i of None \<Rightarrow> PNone | Some x \<Rightarrow> PInt x)"

definition opt_float :: "pyfloat option \<Rightarrow> pyval" where
  "opt_float x = (case x of None \<Rightarrow> PNone | Some y \<Rightarrow> PFloat y)"

lemma str_given_simps [simp]:
  "\<not> str_given None" "str_given (Some s) \<longleftrightarrow> s \<noteq> []"
  by (simp_all add: str_given_def)

lemma str_given_iff: "str_given s \<longleftrightarrow> (\<exists>x. s = Some x \<and> x \<noteq> [])"
  by (cases s) simp_all

section \<open>Insertion-ordered dictionaries\<close>

text \<open>
  A Python dict keeps insertion order; assigning to a present key keeps its place.
  \<^const>\<open>AList.update\<close> is that assignment, \<^const>\<open>AList.delete\<close> is \<open>pop\<close>,
  \<^const>\<open>map_of\<close> is \<open>get\<close>. The laws a client may use are the interface below.
\<close>

locale dict_store =
  fixes empty :: "'d"
    and get :: "'d \<Rightarrow> 'k \<Rightarrow> 'v option"
    and put :: "'k \<Rightarrow> 'v \<Rightarrow> 'd \<Rightarrow> 'd"
    and pop :: "'k \<Rightarrow> 'd \<Rightarrow> 'd"
  assumes get_empty: "get empty k = None"
    and get_put: "get (put k v d) j = (if j = k then Some v else get d j)"
    and get_pop: "get (pop k d) j = (if j = k then None else get d j)"
begin

lemma get_put_same: "get (put k v d) k = Some v"
  by (simp add: get_put)

lemma get_put_other: "j \<noteq> k \<Longrightarrow> get (put k v d) j = get d j"
  by (simp add: get_put)

lemma put_put_get: "get (put k v (put k u d)) = get (put k v d)"
  by (rule ext) (simp add: get_put)

lemma get_pop_put: "get (pop k (put k v d)) = get (pop k d)"
  by (rule ext) (simp add: get_put get_pop)

lemma put_present_dom: "get d k = Some u \<Longrightarrow> get (put k v d) j = None \<longleftrightarrow> get d j = None"
  by (simp add: get_put)

end

interpretation pd: dict_store "[]" map_of AList.update AList.delete
proof unfold_locales
  show "map_of [] k = None" for k :: 'a
    by simp
  show "map_of (AList.update k v d) j = (if j = k then Some v else map_of d j)"
    for k j :: 'a and v :: 'b and d
    by (simp add: update_conv')
  show "map_of (AList.delete k d) j = (if j = k then None else map_of d j)"
    for k j :: 'a and d :: "('a \<times> 'b) list"
    by (simp add: delete_conv')
qed

lemmas dict_laws = pd.get_put pd.get_pop

declare pd.get_put [dict_simps] pd.get_pop [dict_simps]

lemma update_absent: "map_of d k = None \<Longrightarrow> AList.update k v d = d @ [(k, v)]"
  by (induction d) auto

lemma update_keys_present: "map_of d k = Some u \<Longrightarrow> map fst (AList.update k v d) = map fst d"
  by (induction d) (auto split: if_splits)

lemma distinct_keys_update: "distinct (map fst d) \<Longrightarrow> distinct (map fst (AList.update k v d))"
  by (rule distinct_update)

text \<open>A table built from rows: looking up a row and completing it.\<close>

lemma map_of_rows:
  "map_of (map (\<lambda>(k, x). (k, mk k x)) rows) k = map_option (mk k) (map_of rows k)"
  by (induction rows) auto

lemma map_of_some_in: "map_of d k = Some v \<Longrightarrow> (k, v) \<in> set d"
  by (rule map_of_SomeD)

lemma in_map_of: "distinct (map fst d) \<Longrightarrow> (k, v) \<in> set d \<longleftrightarrow> map_of d k = Some v"
  by (simp add: map_of_eq_Some_iff)

text \<open>\<open>d.get(k, default)\<close>, and \<open>d[new] = d.pop(old)\<close>: the entry moves to the end.\<close>

definition dict_get :: "pydict \<Rightarrow> string \<Rightarrow> pyval \<Rightarrow> pyval" where
  "dict_get d k dflt = (case map_of d k of None \<Rightarrow> dflt | Some v \<Rightarrow> v)"

definition dict_rename :: "string \<Rightarrow> string \<Rightarrow> pydict \<Rightarrow> pydict" where
  "dict_rename old new d =
     (case map_of d old of None \<Rightarrow> d | Some v \<Rightarrow> AList.update new v (AList.delete old d))"

fun dict_update :: "pydict \<Rightarrow> pydict \<Rightarrow> pydict" where
  "dict_update d [] = d"
| "dict_update d ((k, v) # e) = dict_update (AList.update k v d) e"

lemma dict_rename_get:
  "map_of d old = Some v \<Longrightarrow> new \<noteq> old \<Longrightarrow>
   map_of (dict_rename old new d) j =
     (if j = new then Some v else if j = old then None else map_of d j)"
  by (simp add: dict_rename_def pd.get_put pd.get_pop)

lemma dict_rename_lookup:
  "map_of (dict_rename old new d) j =
     (case map_of d old of None \<Rightarrow> map_of d j
      | Some v \<Rightarrow> if j = new then Some v else if j = old then None else map_of d j)"
  by (simp add: dict_rename_def pd.get_put pd.get_pop split: option.splits)

lemma dict_update_get:
  "k \<notin> set (map fst e) \<Longrightarrow> map_of (dict_update d e) k = map_of d k"
  by (induction d e rule: dict_update.induct) (auto simp: pd.get_put)

text \<open>Reading an entry at the type the code gives it.\<close>

definition as_str :: "pyval \<Rightarrow> string option" where
  "as_str v = (case v of PStr s \<Rightarrow> Some s | _ \<Rightarrow> None)"

definition as_int :: "pyval \<Rightarrow> int option" where
  "as_int v = (case v of PInt i \<Rightarrow> Some i | _ \<Rightarrow> None)"

definition as_bool :: "pyval \<Rightarrow> bool option" where
  "as_bool v = (case v of PBool b \<Rightarrow> Some b | _ \<Rightarrow> None)"

definition as_opt_str :: "pyval \<Rightarrow> string option option" where
  "as_opt_str v = (case v of PNone \<Rightarrow> Some None | PStr s \<Rightarrow> Some (Some s) | _ \<Rightarrow> None)"

definition as_opt_int :: "pyval \<Rightarrow> int option option" where
  "as_opt_int v = (case v of PNone \<Rightarrow> Some None | PInt i \<Rightarrow> Some (Some i) | _ \<Rightarrow> None)"

definition as_opt_float :: "pyval \<Rightarrow> pyfloat option option" where
  "as_opt_float v = (case v of PNone \<Rightarrow> Some None | PFloat x \<Rightarrow> Some (Some x) | _ \<Rightarrow> None)"

definition as_dict :: "pyval \<Rightarrow> pydict option" where
  "as_dict v = (case v of PDict d \<Rightarrow> Some d | _ \<Rightarrow> None)"

definition as_list :: "(pyval \<Rightarrow> 'a option) \<Rightarrow> pyval \<Rightarrow> 'a list option" where
  "as_list f v = (case v of PList xs \<Rightarrow> those (map f xs) | _ \<Rightarrow> None)"

definition as_dicts :: "pyval \<Rightarrow> pydict list option" where
  "as_dicts = as_list as_dict"

lemma as_simps [simp]:
  "as_str (PStr s) = Some s" "as_int (PInt i) = Some i" "as_bool (PBool b) = Some b"
  "as_opt_str (opt_str os) = Some os" "as_opt_int (opt_int oi) = Some oi"
  "as_opt_str PNone = Some None" "as_opt_int PNone = Some None"
  "as_dict (PDict d) = Some d"
  by (simp_all add: as_str_def as_int_def as_bool_def as_opt_str_def as_opt_int_def as_dict_def
      opt_str_def opt_int_def split: option.splits)

lemma as_opt_float_opt [simp]: "as_opt_float (opt_float x) = Some x"
  by (simp add: as_opt_float_def opt_float_def split: option.splits)

lemma as_list_map:
  assumes "\<And>x. f (g x) = Some x"
  shows "as_list f (PList (map g xs)) = Some xs"
proof -
  have "those (map f (map g xs)) = Some xs"
    by (induction xs) (simp_all add: assms)
  then show ?thesis by (simp add: as_list_def)
qed

lemma as_dicts_map [simp]: "as_dicts (PList (map PDict ds)) = Some ds"
  by (simp add: as_dicts_def as_list_map)

lemma as_strs_map [simp]: "as_list as_str (PList (map PStr ss)) = Some ss"
  by (simp add: as_list_map)

section \<open>Strings\<close>

text \<open>
  \<open>str.lower\<close> on ASCII letters. The code looks for ASCII words only, and no other
  character has one of their letters as its lower case.
\<close>

definition lower_char :: "char \<Rightarrow> char" where
  "lower_char c = (let n = (of_char c :: nat) in
     if 65 \<le> n \<and> n \<le> 90 then char_of (n + 32) else c)"

definition str_lower :: "string \<Rightarrow> string" where
  "str_lower s = map lower_char s"

definition str_contains :: "string \<Rightarrow> string \<Rightarrow> bool" where
  "str_contains sub s \<longleftrightarrow> sublist sub s"

text \<open>\<open>sep.join(xs)\<close>.\<close>

fun join :: "string \<Rightarrow> string list \<Rightarrow> string" where
  "join sep [] = []"
| "join sep [x] = x"
| "join sep (x # xs) = x @ sep @ join sep xs"

text \<open>Decimal rendering of a natural number, as \<open>str(n)\<close> and \<open>f"{n:08d}"\<close>.\<close>

definition digit :: "nat \<Rightarrow> char" where
  "digit n = char_of (48 + n mod 10)"

fun nat_str :: "nat \<Rightarrow> string" where
  "nat_str n = (if n < 10 then [digit n] else nat_str (n div 10) @ [digit n])"

declare nat_str.simps [simp del]

definition int_str :: "int \<Rightarrow> string" where
  "int_str i = (if i < 0 then ''-'' @ nat_str (nat (- i)) else nat_str (nat i))"

definition pad8 :: "nat \<Rightarrow> string" where
  "pad8 n = (let s = nat_str n in replicate (8 - length s) (digit 0) @ s)"

text \<open>Reading the digits back, so that rendered counters are seen to be distinct.\<close>

definition digit_val :: "char \<Rightarrow> nat" where
  "digit_val c = of_char c - 48"

definition str_nat :: "string \<Rightarrow> nat" where
  "str_nat s = foldl (\<lambda>acc c. 10 * acc + digit_val c) 0 s"

lemma digit_val_digit: "n < 10 \<Longrightarrow> digit_val (digit n) = n"
  by (simp add: digit_val_def digit_def)

lemma digit_val_digit_mod: "digit_val (digit n) = n mod 10"
  by (simp add: digit_val_def digit_def)

lemma str_nat_append: "str_nat (s @ [c]) = 10 * str_nat s + digit_val c"
  by (simp add: str_nat_def)

lemma str_nat_nat_str: "str_nat (nat_str n) = n"
proof (induction n rule: nat_str.induct)
  case (1 n)
  show ?case
  proof (cases "n < 10")
    case True
    then show ?thesis
      by (subst nat_str.simps) (simp add: str_nat_def digit_val_digit)
  next
    case False
    with "1.IH" have "str_nat (nat_str (n div 10)) = n div 10" by simp
    with False show ?thesis
      by (subst nat_str.simps) (simp add: str_nat_append digit_val_digit_mod)
  qed
qed

lemma str_nat_zeros: "str_nat (replicate k (digit 0) @ s) = str_nat s"
proof -
  have "foldl (\<lambda>acc c. 10 * acc + digit_val c) 0 (replicate k (digit 0)) = 0"
    by (induction k) (simp_all add: digit_val_digit)
  then show ?thesis by (simp add: str_nat_def)
qed

lemma str_nat_pad8: "str_nat (pad8 n) = n"
  by (simp add: pad8_def Let_def str_nat_zeros str_nat_nat_str)

lemma pad8_inj: "pad8 m = pad8 n \<longleftrightarrow> m = n"
  by (metis str_nat_pad8)

lemma nat_str_nonempty: "nat_str n \<noteq> []"
  by (subst nat_str.simps) simp

text \<open>Text outside ASCII, as its UTF-8 bytes.\<close>

definition utf8 :: "nat list \<Rightarrow> string" where
  "utf8 = map char_of"

text \<open>\<open>xs[-n:]\<close>: for n = 0 it is the whole list.\<close>

definition last_n :: "int \<Rightarrow> 'a list \<Rightarrow> 'a list" where
  "last_n n xs = (if 0 < n then drop (length xs - nat n) xs else drop (nat (- n)) xs)"

text \<open>A bounded log keeps its last entries.\<close>

definition keep_last :: "nat \<Rightarrow> 'a list \<Rightarrow> 'a list" where
  "keep_last n xs = (if n < length xs then drop (length xs - n) xs else xs)"

lemma drop_drop_last:
  fixes xs :: "'a list"
  shows "drop (length (drop (length xs - n) xs @ [x]) - n) (drop (length xs - n) xs @ [x]) =
    drop (length (xs @ [x]) - n) (xs @ [x])"
  by (cases "n \<le> length xs") (simp_all add: Suc_diff_le split: nat_diff_split)

lemma trim_eq: "(if n < length xs then drop (length xs - n) xs else xs) = drop (length xs - n) xs"
  by simp

lemma keep_last_drop: "keep_last n xs = drop (length xs - n) xs"
  by (simp add: keep_last_def)

lemma keep_last_snoc: "keep_last n (keep_last n xs @ [x]) = keep_last n (xs @ [x])"
  by (simp only: keep_last_drop drop_drop_last)

lemma keep_last_map: "map f (keep_last n xs) = keep_last n (map f xs)"
  by (simp add: keep_last_def drop_map)

lemma keep_last_length [simp]: "length (keep_last n xs) = min n (length xs)"
  by (simp add: keep_last_def)

lemma keep_last_set: "set (keep_last n xs) \<subseteq> set xs"
  by (auto simp: keep_last_def dest: in_set_dropD)

section \<open>The environment of a call\<close>

text \<open>
  What a call reads from outside: \<open>time.time()\<close> (each reading gives the float in seconds
  and the integer \<open>int(t * 1000)\<close> the code takes from it), \<open>uuid4().hex\<close>,
  \<open>sha256(...).hexdigest()\<close>, \<open>json.dumps\<close> and the \<open>str\<close> of a float. Readings are consumed in the order the
  code makes them, so two reads of one call may differ.
\<close>

record reading =
  secs :: rat
  millis :: int

record env =
  clock :: "nat \<Rightarrow> reading"
  ticks :: nat
  uuids :: "nat \<Rightarrow> string"
  draws :: nat
  sha256_hex :: "string \<Rightarrow> string"
  json_dumps :: "pyval \<Rightarrow> string"
  float_repr :: "pyfloat \<Rightarrow> string"

definition read_clock :: "'z env_scheme \<Rightarrow> reading \<times> 'z env_scheme" where
  "read_clock w = (clock w (ticks w), w\<lparr>ticks := Suc (ticks w)\<rparr>)"

definition now_ms :: "'z env_scheme \<Rightarrow> int \<times> 'z env_scheme" where
  "now_ms w = (millis (clock w (ticks w)), w\<lparr>ticks := Suc (ticks w)\<rparr>)"

definition fresh_hex :: "'z env_scheme \<Rightarrow> string \<times> 'z env_scheme" where
  "fresh_hex w = (uuids w (draws w), w\<lparr>draws := Suc (draws w)\<rparr>)"

text \<open>\<open>str(uuid4())\<close>: the hexadecimal digits in groups.\<close>

definition uuid_str :: "string \<Rightarrow> string" where
  "uuid_str h = take 8 h @ ''-'' @ take 4 (drop 8 h) @ ''-'' @ take 4 (drop 12 h) @ ''-'' @
     take 4 (drop 16 h) @ ''-'' @ take 12 (drop 20 h)"

text \<open>The clock never runs backwards: the assumption some timing properties name.\<close>

definition clock_mono :: "'z env_scheme \<Rightarrow> bool" where
  "clock_mono w \<longleftrightarrow> (\<forall>i j. i \<le> j \<longrightarrow> millis (clock w i) \<le> millis (clock w j))"

text \<open>
  A concrete environment for the witnesses: the clock advances by one second per reading,
  starting at \<open>t0\<close> seconds, and identifiers are numbered.
\<close>

definition sample_clock :: "nat \<Rightarrow> nat \<Rightarrow> reading" where
  "sample_clock t0 i = \<lparr>secs = of_nat (t0 + i), millis = int (t0 + i) * 1000\<rparr>"

definition sample_env :: "nat \<Rightarrow> env" where
  "sample_env t0 =
     \<lparr>clock = sample_clock t0, ticks = 0,
      uuids = pad8, draws = 0, sha256_hex = (\<lambda>s. s), json_dumps = (\<lambda>v. ''v''),
      float_repr = (\<lambda>x. ''x'')\<rparr>"

lemma now_ms_frame [env_simps]:
  "clock (snd (now_ms w)) = clock w" "ticks (snd (now_ms w)) = Suc (ticks w)"
  "uuids (snd (now_ms w)) = uuids w" "draws (snd (now_ms w)) = draws w"
  by (simp_all add: now_ms_def)

lemma fresh_hex_frame [env_simps]:
  "clock (snd (fresh_hex w)) = clock w" "ticks (snd (fresh_hex w)) = ticks w"
  "uuids (snd (fresh_hex w)) = uuids w" "draws (snd (fresh_hex w)) = Suc (draws w)"
  by (simp_all add: fresh_hex_def)

end
