(* ===== verification/Py_Float.thy ===== *)
theory Py_Float
  imports Py_Prelude
begin

text \<open>
  Python's float arithmetic, to the extent the governance code uses it: IEEE 754 binary64
  with rounding to nearest, ties to even, on the values of \<^typ>\<open>pyfloat\<close>. A literal such as
  \<open>0.7\<close> is \<^term>\<open>flit (7/10)\<close>, the nearest double; one that is a double itself, such as
  \<open>0.5\<close>, is written exactly. Overflow gives an infinity. The sign of
  zero is not kept; the code uses it nowhere.
\<close>

section \<open>Rounding\<close>

fun bit_len :: "nat \<Rightarrow> nat" where
  "bit_len n = (if n = 0 then 0 else Suc (bit_len (n div 2)))"

declare bit_len.simps [simp del]

definition pow2 :: "int \<Rightarrow> rat" where
  "pow2 e = (if 0 \<le> e then 2 ^ nat e else 1 / 2 ^ nat (- e))"

definition half_even :: "rat \<Rightarrow> int" where
  "half_even x =
     (let f = \<lfloor>x\<rfloor>; r = x - of_int f
      in if r < 1/2 then f else if 1/2 < r then f + 1 else if even f then f else f + 1)"

text \<open>The exponent of the last of the 53 bits of \<open>a > 0\<close>, not below that of the subnormals.\<close>

definition ulp_exp :: "rat \<Rightarrow> int" where
  "ulp_exp a =
     (let (n, d) = quotient_of a;
          e = int (bit_len (nat n)) - int (bit_len (nat d)) - 53
      in max (if pow2 (e + 53) \<le> a then e + 1 else e) (- 1074))"

definition fl_round :: "rat \<Rightarrow> pyfloat" where
  "fl_round x =
     (if x = 0 then Fin 0
      else
        (let a = \<bar>x\<bar>; e = ulp_exp a; v = of_int (half_even (a / pow2 e)) * pow2 e
         in if pow2 1024 \<le> v then (if 0 < x then PosInf else NegInf)
            else Fin (if 0 < x then v else - v)))"

abbreviation flit :: "rat \<Rightarrow> pyfloat" where
  "flit \<equiv> fl_round"

section \<open>Arithmetic\<close>

fun fneg :: "pyfloat \<Rightarrow> pyfloat" where
  "fneg (Fin a) = Fin (- a)"
| "fneg PosInf = NegInf"
| "fneg NegInf = PosInf"
| "fneg NaN = NaN"

fun fabs :: "pyfloat \<Rightarrow> pyfloat" where
  "fabs (Fin a) = Fin \<bar>a\<bar>"
| "fabs NaN = NaN"
| "fabs x = PosInf"

fun fadd :: "pyfloat \<Rightarrow> pyfloat \<Rightarrow> pyfloat" where
  "fadd (Fin a) (Fin b) = fl_round (a + b)"
| "fadd NaN y = NaN"
| "fadd x NaN = NaN"
| "fadd PosInf NegInf = NaN"
| "fadd NegInf PosInf = NaN"
| "fadd PosInf y = PosInf"
| "fadd NegInf y = NegInf"
| "fadd x y = y"

definition fsub :: "pyfloat \<Rightarrow> pyfloat \<Rightarrow> pyfloat" where
  "fsub x y = fadd x (fneg y)"

fun fsign :: "pyfloat \<Rightarrow> int" where
  "fsign (Fin a) = (if 0 < a then 1 else if a < 0 then -1 else 0)"
| "fsign PosInf = 1"
| "fsign NegInf = -1"
| "fsign NaN = 0"

definition finf :: "int \<Rightarrow> pyfloat" where
  "finf s = (if 0 < s then PosInf else if s < 0 then NegInf else NaN)"

fun fmul :: "pyfloat \<Rightarrow> pyfloat \<Rightarrow> pyfloat" where
  "fmul (Fin a) (Fin b) = fl_round (a * b)"
| "fmul NaN y = NaN"
| "fmul x NaN = NaN"
| "fmul x y = finf (fsign x * fsign y)"

text \<open>Division raises \<open>ZeroDivisionError\<close> (None) on a zero divisor.\<close>

fun fdiv :: "pyfloat \<Rightarrow> pyfloat \<Rightarrow> pyfloat option" where
  "fdiv x (Fin b) =
     (if b = 0 then None
      else Some (case x of Fin a \<Rightarrow> fl_round (a / b) | NaN \<Rightarrow> NaN
                 | _ \<Rightarrow> finf (fsign x * fsign (Fin b))))"
| "fdiv NaN y = Some NaN"
| "fdiv x NaN = Some NaN"
| "fdiv (Fin a) y = Some (Fin 0)"
| "fdiv x y = Some NaN"

text \<open>\<open>int(x)\<close> truncates towards zero and raises on NaN and the infinities.\<close>

fun int_of_float :: "pyfloat \<Rightarrow> int option" where
  "int_of_float (Fin a) = Some (if 0 \<le> a then \<lfloor>a\<rfloor> else \<lceil>a\<rceil>)"
| "int_of_float x = None"

text \<open>Two-argument \<open>max\<close> and \<open>min\<close> keep the first argument unless the second beats it.\<close>

definition fmax :: "pyfloat \<Rightarrow> pyfloat \<Rightarrow> pyfloat" where
  "fmax x y = (if flt x y then y else x)"

definition fmin :: "pyfloat \<Rightarrow> pyfloat \<Rightarrow> pyfloat" where
  "fmin x y = (if flt y x then y else x)"

text \<open>Numbers of mixed type compare by their exact values (\<open>True\<close> is 1).\<close>

fun as_num :: "pyval \<Rightarrow> pyfloat option" where
  "as_num (PFloat x) = Some x"
| "as_num (PInt i) = Some (Fin (of_int i))"
| "as_num (PBool b) = Some (Fin (if b then 1 else 0))"
| "as_num _ = None"

definition as_float :: "pyval \<Rightarrow> pyfloat option" where
  "as_float v = (case v of PFloat x \<Rightarrow> Some x | _ \<Rightarrow> None)"

lemma as_float_float [simp]: "as_float (PFloat x) = Some x"
  by (simp add: as_float_def)

text \<open>\<open>round(x, d)\<close>: the exact value to \<open>d\<close> decimals, ties to even, then the nearest double.\<close>

fun py_round :: "nat \<Rightarrow> pyfloat \<Rightarrow> pyfloat" where
  "py_round d (Fin a) = fl_round (of_int (half_even (a * 10 ^ d)) / 10 ^ d)"
| "py_round d x = x"

text \<open>\<open>m / n\<close> on integers: the quotient correctly rounded; an overflow raises (None).\<close>

definition int_div :: "int \<Rightarrow> int \<Rightarrow> pyfloat option" where
  "int_div m n =
     (if n = 0 then None
      else (case fl_round (of_int m / of_int n) of Fin q \<Rightarrow> Some (Fin q) | _ \<Rightarrow> None))"

text \<open>\<open>f"{x:.<d>f}"\<close>: exactly rounded decimals, ties to even.\<close>

definition frac_str :: "nat \<Rightarrow> nat \<Rightarrow> string" where
  "frac_str d n = (let s = nat_str n in replicate (d - length s) (digit 0) @ s)"

fun fmt_fixed :: "nat \<Rightarrow> pyfloat \<Rightarrow> string" where
  "fmt_fixed d (Fin a) =
     (let m = nat (half_even (\<bar>a\<bar> * 10 ^ d))
      in (if a < 0 then ''-'' else []) @
         (if d = 0 then nat_str m
          else nat_str (m div 10 ^ d) @ ''.'' @ frac_str d (m mod 10 ^ d)))"
| "fmt_fixed d PosInf = ''inf''"
| "fmt_fixed d NegInf = ''-inf''"
| "fmt_fixed d NaN = ''nan''"

section \<open>Facts about rounding\<close>

lemma half_even_of_int [simp]: "half_even (of_int n) = n"
  by (simp add: half_even_def)

text \<open>A number with an integral number of units in the last place is representable.\<close>

lemma fl_round_exact:
  assumes "x \<noteq> 0" "\<bar>x\<bar> / pow2 (ulp_exp \<bar>x\<bar>) = of_int m" "\<bar>x\<bar> < pow2 1024"
  shows "fl_round x = Fin x"
proof -
  have p: "pow2 (ulp_exp \<bar>x\<bar>) \<noteq> 0" by (simp add: pow2_def)
  have v: "of_int (half_even (\<bar>x\<bar> / pow2 (ulp_exp \<bar>x\<bar>))) * pow2 (ulp_exp \<bar>x\<bar>) = \<bar>x\<bar>"
    using assms(2) p by (simp only: half_even_of_int) (simp add: field_simps)
  have "\<not> pow2 1024 \<le> \<bar>x\<bar>" using assms(3) by (simp only: not_le)
  then have "fl_round x = Fin (if 0 < x then \<bar>x\<bar> else - \<bar>x\<bar>)"
    using assms(1) by (simp only: fl_round_def Let_def v if_False)
  then show ?thesis by (cases "0 < x") simp_all
qed

lemma bit_len_eval [simp]:
  "bit_len 0 = 0" "bit_len (Suc 0) = 1" "bit_len (numeral n) = Suc (bit_len (numeral n div 2))"
  by (subst bit_len.simps, simp)+

lemma bit_len_bound: "n < 2 ^ k \<Longrightarrow> bit_len n \<le> k"
proof (induction n arbitrary: k rule: bit_len.induct)
  case (1 n)
  show ?case
  proof (cases "n = 0")
    case False
    with 1(2) obtain j where k: "k = Suc j" by (cases k) auto
    with 1(2) have "n div 2 < 2 ^ j" by simp
    with 1(1)[OF False] k False show ?thesis by (simp add: bit_len.simps[of n])
  qed (simp add: bit_len.simps)
qed

text \<open>Every integer below 2 to the 53 is a float: arithmetic on such integers is exact.\<close>

lemma fl_round_of_int:
  assumes "\<bar>n\<bar> < 2 ^ 53"
  shows "fl_round (of_int n) = Fin (of_int n)"
proof (cases "n = 0")
  case True
  then show ?thesis by (simp add: fl_round_def)
next
  case False
  let ?e = "ulp_exp \<bar>of_int n :: rat\<bar>"
  have q: "quotient_of \<bar>of_int n :: rat\<bar> = (\<bar>n\<bar>, 1)"
  proof -
    have "\<bar>of_int n :: rat\<bar> = Fract \<bar>n\<bar> 1" by (simp add: Fract_of_int_eq)
    then show ?thesis by (simp only: quotient_of_Fract) (simp add: Rat.normalize_def)
  qed
  have "nat \<bar>n\<bar> < 2 ^ 53" using assms by (simp add: nat_less_iff)
  then have b: "bit_len (nat \<bar>n\<bar>) \<le> 53" by (rule bit_len_bound)
  have "(of_int \<bar>n\<bar> :: rat) < of_int (2 ^ 53)" using assms by (simp only: of_int_less_iff)
  then have lt: "\<bar>of_int n :: rat\<bar> < 2 ^ 53" by simp
  have e: "?e \<le> 0"
  proof (cases "bit_len (nat \<bar>n\<bar>) = 53")
    case True
    with q lt show ?thesis by (simp add: ulp_exp_def Let_def pow2_def)
  next
    case False
    with b q show ?thesis by (simp add: ulp_exp_def Let_def)
  qed
  then have "\<bar>of_int n :: rat\<bar> / pow2 ?e = of_int (\<bar>n\<bar> * 2 ^ nat (- ?e))"
    by (cases "?e = 0") (simp_all add: pow2_def)
  moreover have "\<bar>of_int n :: rat\<bar> < pow2 1024"
  proof -
    have "(2 ^ 53 :: rat) \<le> 2 ^ 1024" by (rule power_increasing) simp_all
    with lt show ?thesis by (simp add: pow2_def)
  qed
  moreover have "(of_int n :: rat) \<noteq> 0" using False by simp
  ultimately show ?thesis by (intro fl_round_exact)
qed


text \<open>Evaluating a literal: its exponent, its integral significand, its value.\<close>

lemma quotient_of_numeral_div [simp]:
  "quotient_of (numeral a / numeral b) = Rat.normalize (numeral a, numeral b)"
proof -
  have "(numeral a / numeral b :: rat) = Fract (numeral a) (numeral b)"
    by (simp add: Fract_of_int_quotient)
  then show ?thesis by (simp only: quotient_of_Fract)
qed

lemma gcd_numeral_eval: "gcd (numeral a) (numeral b :: int) = gcd (numeral b) (numeral a mod numeral b)"
  by (metis gcd.commute gcd_red_int)

lemma floor_rat_numeral [simp]: "\<lfloor>numeral a / numeral b :: rat\<rfloor> = numeral a div numeral b"
  using floor_divide_of_int_eq[of "numeral a" "numeral b", where ?'a = rat] by simp

lemma fl_round_eval:
  assumes "0 < x" "ulp_exp x = e" "half_even (x / pow2 e) = m" "of_int m * pow2 e = v" "v < pow2 1024"
  shows "fl_round x = Fin v"
  using assms by (simp add: fl_round_def Let_def not_le)

lemmas float_eval = ulp_exp_def pow2_def half_even_def Let_def Rat.normalize_def gcd_numeral_eval

lemma flit_tenths:
  "flit (3/10) = Fin (5404319552844595 / 18014398509481984)"
  "flit (7/10) = Fin (6305039478318694 / 9007199254740992)"
  "flit (9/10) = Fin (8106479329266893 / 9007199254740992)"
proof -
  show "flit (3/10) = Fin (5404319552844595 / 18014398509481984)"
    by (rule fl_round_eval[where e = "-54" and m = 5404319552844595]) (simp_all add: float_eval)
  show "flit (7/10) = Fin (6305039478318694 / 9007199254740992)"
    by (rule fl_round_eval[where e = "-53" and m = 6305039478318694]) (simp_all add: float_eval)
  show "flit (9/10) = Fin (8106479329266893 / 9007199254740992)"
    by (rule fl_round_eval[where e = "-53" and m = 8106479329266893]) (simp_all add: float_eval)
qed

end
