(* ===== verification/Change_Log.thy ===== *)
theory Change_Log
  imports Py_Prelude
begin

text \<open>
  The change audit log (\<open>app/change_audit_log.py\<close>): who changed what, when, and whether an
  operator approved it. Every state machine and the hub write to one shared log. The lemmas
  state what "append-only" means for the code: entries are never dropped or reordered, the
  description of a change never changes, and a decision once taken is final.
\<close>

section \<open>Records\<close>

datatype ChangeType = CONFIG_CHANGE | PARAMETER_CHANGE | STATE_CHANGE | PERMISSION_CHANGE
  | CODE_DEPLOYMENT | ROLLBACK | EMERGENCY_CHANGE

datatype ChangeApprovalStatus = CS_PENDING | CS_APPROVED | CS_REJECTED | CS_AUTO_APPROVED
  | CS_EMERGENCY_BYPASSED

record ChangeRecord =
  change_id :: string
  change_type :: ChangeType
  cr_who :: string
  cr_when :: rat
  when_ms :: int
  cr_what :: string
  cr_reason :: string
  old_value :: "string option"
  new_value :: "string option"
  affected_components :: "string list"
  approval_status :: ChangeApprovalStatus
  cr_approved_by :: "string option"
  approval_timestamp :: "rat option"
  cr_approval_reason :: "string option"
  rollback_info :: "pydict option"
  recorded_at_ms :: int

text \<open>
  The log. \<open>cal_callback\<close> says whether an \<open>audit_callback\<close> was given; the records handed
  to it are kept in order in \<open>cal_notified\<close> (its exceptions are caught and change nothing).
\<close>

record cal =
  changes :: "ChangeRecord list"
  change_counter :: nat
  cal_callback :: bool
  cal_notified :: "ChangeRecord list"

definition new_cal :: "bool \<Rightarrow> cal" where
  "new_cal cb = \<lparr>changes = [], change_counter = 0, cal_callback = cb, cal_notified = []\<rparr>"

section \<open>Operations\<close>

definition chg_id :: "nat \<Rightarrow> string" where
  "chg_id n = ''chg:'' @ pad8 n"

definition notify :: "ChangeRecord \<Rightarrow> cal \<Rightarrow> cal" where
  "notify r c = (if cal_callback c then c\<lparr>cal_notified := cal_notified c @ [r]\<rparr> else c)"

definition dumps_opt :: "'z env_scheme \<Rightarrow> pyval \<Rightarrow> string option" where
  "dumps_opt w v = (if v = PNone then None else Some (json_dumps w v))"

definition record_change ::
  "ChangeType \<Rightarrow> string \<Rightarrow> string \<Rightarrow> string \<Rightarrow> pyval \<Rightarrow> pyval \<Rightarrow> string list option \<Rightarrow> bool \<Rightarrow>
   cal \<Rightarrow> 'z env_scheme \<Rightarrow> ChangeRecord \<times> cal \<times> 'z env_scheme" where
  "record_change ct who what reason oldv newv comps auto_approve c w =
     (let (now, w1) = read_clock w;
          n = Suc (change_counter c);
          r = \<lparr>change_id = chg_id n, change_type = ct, cr_who = who,
               cr_when = secs now, when_ms = millis now, cr_what = what, cr_reason = reason,
               old_value = dumps_opt w oldv, new_value = dumps_opt w newv,
               affected_components = (case comps of None \<Rightarrow> [] | Some xs \<Rightarrow> xs),
               approval_status = (if auto_approve then CS_AUTO_APPROVED else CS_PENDING),
               cr_approved_by = (if auto_approve then Some ''system'' else None),
               approval_timestamp = (if auto_approve then Some (secs now) else None),
               cr_approval_reason = None, rollback_info = None,
               recorded_at_ms = millis now\<rparr>
      in (r, notify r (c\<lparr>changes := changes c @ [r], change_counter := n\<rparr>), w1))"

definition record_emergency_change ::
  "ChangeType \<Rightarrow> string \<Rightarrow> string \<Rightarrow> string \<Rightarrow> pyval \<Rightarrow> pyval \<Rightarrow> string list option \<Rightarrow>
   cal \<Rightarrow> 'z env_scheme \<Rightarrow> ChangeRecord \<times> cal \<times> 'z env_scheme" where
  "record_emergency_change ct who what reason oldv newv comps c w =
     (let (now, w1) = read_clock w;
          n = Suc (change_counter c);
          r = \<lparr>change_id = chg_id n, change_type = ct, cr_who = who,
               cr_when = secs now, when_ms = millis now, cr_what = what, cr_reason = reason,
               old_value = dumps_opt w oldv, new_value = dumps_opt w newv,
               affected_components = (case comps of None \<Rightarrow> [] | Some xs \<Rightarrow> xs),
               approval_status = CS_EMERGENCY_BYPASSED,
               cr_approved_by = None, approval_timestamp = None,
               cr_approval_reason =
                 Some ''Emergency bypass - post-review required within 24h'',
               rollback_info = Some [(''requires_post_review'', PBool True),
                                     (''bypass_time'', PInt (millis now))],
               recorded_at_ms = millis now\<rparr>
      in (r, notify r (c\<lparr>changes := changes c @ [r], change_counter := n\<rparr>), w1))"

text \<open>
  \<open>list.index\<close>: the position of the first equal element (the length if there is none;
  the code only asks for elements it has just found).
\<close>

fun list_index :: "'a \<Rightarrow> 'a list \<Rightarrow> nat" where
  "list_index x [] = 0"
| "list_index x (y # ys) = (if y = x then 0 else Suc (list_index x ys))"

definition find_change :: "string \<Rightarrow> ChangeRecord list \<Rightarrow> ChangeRecord option" where
  "find_change cid rs = find (\<lambda>r. change_id r = cid) rs"

text \<open>
  The common body of \<open>approve_change\<close> and \<open>reject_change\<close>: find the record, refuse to
  touch a decided one, otherwise put a decided copy in its place.
\<close>

definition decided_copy ::
  "ChangeApprovalStatus \<Rightarrow> string \<Rightarrow> string option \<Rightarrow> reading \<Rightarrow> ChangeRecord \<Rightarrow> ChangeRecord" where
  "decided_copy status by_whom why now original =
     original\<lparr>approval_status := status, cr_approved_by := Some by_whom,
       approval_timestamp := Some (secs now), cr_approval_reason := why,
       recorded_at_ms := millis now\<rparr>"

definition settle_change ::
  "ChangeApprovalStatus \<Rightarrow> string \<Rightarrow> string \<Rightarrow> string option \<Rightarrow>
   cal \<Rightarrow> 'z env_scheme \<Rightarrow> ChangeRecord option \<times> cal \<times> 'z env_scheme" where
  "settle_change status cid by_whom why c w =
     (case find_change cid (changes c) of
        None \<Rightarrow> (None, c, w)
      | Some original \<Rightarrow>
          (if approval_status original = CS_APPROVED then (Some original, c, w)
           else if approval_status original = CS_REJECTED then (Some original, c, w)
           else
             (let (now, w1) = read_clock w;
                  r = decided_copy status by_whom why now original;
                  idx = list_index original (changes c)
              in (Some r, notify r (c\<lparr>changes := (changes c)[idx := r]\<rparr>), w1))))"

definition approve_change ::
  "string \<Rightarrow> string \<Rightarrow> string option \<Rightarrow> cal \<Rightarrow> 'z env_scheme \<Rightarrow>
   ChangeRecord option \<times> cal \<times> 'z env_scheme" where
  "approve_change cid approved_by why = settle_change CS_APPROVED cid approved_by why"

definition reject_change ::
  "string \<Rightarrow> string \<Rightarrow> string \<Rightarrow> cal \<Rightarrow> 'z env_scheme \<Rightarrow>
   ChangeRecord option \<times> cal \<times> 'z env_scheme" where
  "reject_change cid rejected_by why = settle_change CS_REJECTED cid rejected_by (Some why)"

section \<open>Queries\<close>

definition get_change_history ::
  "rat option \<Rightarrow> rat option \<Rightarrow> ChangeType option \<Rightarrow> string option \<Rightarrow>
   ChangeApprovalStatus option \<Rightarrow> cal \<Rightarrow> ChangeRecord list" where
  "get_change_history start_time end_time ct initiator status c =
     (let r0 = changes c;
          r1 = (case start_time of None \<Rightarrow> r0 | Some t \<Rightarrow> filter (\<lambda>r. t \<le> cr_when r) r0);
          r2 = (case end_time of None \<Rightarrow> r1 | Some t \<Rightarrow> filter (\<lambda>r. cr_when r \<le> t) r1);
          r3 = (case ct of None \<Rightarrow> r2 | Some t \<Rightarrow> filter (\<lambda>r. change_type r = t) r2);
          r4 = (case initiator of None \<Rightarrow> r3 | Some i \<Rightarrow> filter (\<lambda>r. cr_who r = i) r3)
      in (case status of None \<Rightarrow> r4 | Some s \<Rightarrow> filter (\<lambda>r. approval_status r = s) r4))"

definition get_pending_approvals :: "cal \<Rightarrow> ChangeRecord list" where
  "get_pending_approvals c =
     filter (\<lambda>r. approval_status r \<in> {CS_PENDING, CS_EMERGENCY_BYPASSED}) (changes c)"

definition get_emergency_changes_pending_review ::
  "cal \<Rightarrow> 'z env_scheme \<Rightarrow> ChangeRecord list \<times> 'z env_scheme" where
  "get_emergency_changes_pending_review c w =
     (let (now, w1) = read_clock w in
      (filter (\<lambda>r. approval_status r = CS_EMERGENCY_BYPASSED \<and>
                   secs now - cr_when r \<ge> 24 * 3600) (changes c), w1))"

definition get_change_by_id :: "string \<Rightarrow> cal \<Rightarrow> ChangeRecord option" where
  "get_change_by_id cid c = find_change cid (changes c)"

definition clear_changes :: "cal \<Rightarrow> cal" where
  "clear_changes c = c\<lparr>changes := [], change_counter := 0\<rparr>"

definition record_count :: "cal \<Rightarrow> nat" where
  "record_count c = length (changes c)"

section \<open>Histories of operations\<close>

datatype cal_op =
    OpRecord ChangeType string string string pyval pyval "string list option" bool
  | OpEmergency ChangeType string string string pyval pyval "string list option"
  | OpApprove string string "string option"
  | OpReject string string string

fun cal_exec :: "cal_op \<Rightarrow> cal \<times> 'z env_scheme \<Rightarrow> cal \<times> 'z env_scheme" where
  "cal_exec (OpRecord ct who what rs ov nv cs auto) (c, w) =
     snd (record_change ct who what rs ov nv cs auto c w)"
| "cal_exec (OpEmergency ct who what rs ov nv cs) (c, w) =
     snd (record_emergency_change ct who what rs ov nv cs c w)"
| "cal_exec (OpApprove cid by_whom why) (c, w) = snd (approve_change cid by_whom why c w)"
| "cal_exec (OpReject cid by_whom why) (c, w) = snd (reject_change cid by_whom why c w)"

fun cal_run :: "cal_op list \<Rightarrow> cal \<times> 'z env_scheme \<Rightarrow> cal \<times> 'z env_scheme" where
  "cal_run [] s = s"
| "cal_run (x # xs) s = cal_run xs (cal_exec x s)"

section \<open>Appending and deciding: the shape of every operation\<close>

text \<open>What never changes about an entry: everything but the approval fields.\<close>

definition same_change :: "ChangeRecord \<Rightarrow> ChangeRecord \<Rightarrow> bool" where
  "same_change r s \<longleftrightarrow>
     change_id r = change_id s \<and> change_type r = change_type s \<and> cr_who r = cr_who s \<and>
     cr_when r = cr_when s \<and> when_ms r = when_ms s \<and> cr_what r = cr_what s \<and>
     cr_reason r = cr_reason s \<and> old_value r = old_value s \<and> new_value r = new_value s \<and>
     affected_components r = affected_components s \<and> rollback_info r = rollback_info s"

definition decided :: "ChangeRecord \<Rightarrow> bool" where
  "decided r \<longleftrightarrow> approval_status r = CS_APPROVED \<or> approval_status r = CS_REJECTED"

lemma same_change_refl [simp]: "same_change r r"
  by (simp add: same_change_def)

lemma same_change_trans: "same_change r s \<Longrightarrow> same_change s t \<Longrightarrow> same_change r t"
  by (simp add: same_change_def)

lemma changes_notify [simp]:
  "changes (notify r c) = changes c" "change_counter (notify r c) = change_counter c"
  "cal_callback (notify r c) = cal_callback c"
  by (simp_all add: notify_def)

lemma decided_copy_simps [simp]:
  "same_change r (decided_copy st b why now r)"
  "approval_status (decided_copy st b why now r) = st"
  "change_id (decided_copy st b why now r) = change_id r"
  "cr_approved_by (decided_copy st b why now r) = Some b"
  by (simp_all add: decided_copy_def same_change_def)

lemma list_index_nth: "x \<in> set xs \<Longrightarrow> list_index x xs < length xs \<and> xs ! list_index x xs = x"
  by (induction xs) auto

lemma find_Some_in: "find P xs = Some x \<Longrightarrow> x \<in> set xs \<and> P x"
  by (metis find_Some_iff nth_mem)

lemma find_change_index:
  assumes "find_change cid (changes c) = Some r"
  shows "list_index r (changes c) < length (changes c)"
    and "changes c ! list_index r (changes c) = r"
    and "change_id r = cid"
  using assms list_index_nth[of r "changes c"] find_Some_in[of "\<lambda>r. change_id r = cid" "changes c" r]
  by (auto simp: find_change_def)

lemma record_change_log:
  assumes "record_change ct who what rs ov nv cs auto c w = (r, c', w')"
  shows "changes c' = changes c @ [r]" "change_counter c' = Suc (change_counter c)"
    and "change_id r = chg_id (Suc (change_counter c))" "cr_who r = who" "cr_what r = what"
    and "approval_status r = (if auto then CS_AUTO_APPROVED else CS_PENDING)"
    and "cr_reason r = rs" "change_type r = ct"
  using assms by (auto simp: record_change_def Let_def read_clock_def)

lemma record_emergency_log:
  assumes "record_emergency_change ct who what rs ov nv cs c w = (r, c', w')"
  shows "changes c' = changes c @ [r]" "change_counter c' = Suc (change_counter c)"
    and "change_id r = chg_id (Suc (change_counter c))"
    and "approval_status r = CS_EMERGENCY_BYPASSED"
  using assms by (auto simp: record_emergency_change_def Let_def read_clock_def)

text \<open>Deciding a change either leaves the log alone or replaces one undecided entry.\<close>

lemma settle_change_log:
  assumes "settle_change st cid by_whom why c w = (res, c', w')"
  obtains (untouched) "c' = c"
  | (decided_now) i r where
      "i < length (changes c)" "changes c' = (changes c)[i := r]" "res = Some r"
      "\<not> decided (changes c ! i)" "same_change (changes c ! i) r"
      "approval_status r = st" "change_id r = cid" "change_counter c' = change_counter c"
proof (cases "find_change cid (changes c)")
  case None
  with assms show ?thesis by (auto simp: settle_change_def intro: untouched)
next
  case (Some original)
  show ?thesis
  proof (cases "decided original")
    case True
    with assms Some show ?thesis
      by (auto simp: settle_change_def decided_def split: if_splits intro: untouched)
  next
    case False
    let ?i = "list_index original (changes c)"
    note ix = find_change_index[OF Some]
    let ?r = "decided_copy st by_whom why (clock w (ticks w)) original"
    have r: "changes c' = (changes c)[?i := ?r]" "res = Some ?r" "change_counter c' = change_counter c"
      using assms Some False
      by (auto simp: settle_change_def Let_def read_clock_def decided_def)
    show ?thesis
      by (rule decided_now[of ?i ?r]) (use ix False r in simp_all)
  qed
qed

section \<open>Append-only logs\<close>

text \<open>
  The contract of a log whose entries are only ever added or settled: every operation keeps
  the entries in place, keeps what they describe, and leaves final entries untouched.
\<close>

locale append_only_log =
  fixes entries :: "'l \<Rightarrow> 'r list"
    and kept :: "'r \<Rightarrow> 'r \<Rightarrow> bool"
    and final :: "'r \<Rightarrow> bool"
    and exec :: "'op \<Rightarrow> 'l \<Rightarrow> 'l"
  assumes kept_refl: "kept r r"
    and kept_trans: "kept r s \<Longrightarrow> kept s t \<Longrightarrow> kept r t"
    and exec_grows: "length (entries l) \<le> length (entries (exec x l))"
    and exec_kept: "i < length (entries l) \<Longrightarrow> kept (entries l ! i) (entries (exec x l) ! i)"
    and exec_final: "i < length (entries l) \<Longrightarrow> final (entries l ! i) \<Longrightarrow>
      entries (exec x l) ! i = entries l ! i"
begin

lemma run_grows: "length (entries l) \<le> length (entries (fold exec xs l))"
proof (induction xs arbitrary: l)
  case (Cons x xs)
  then show ?case using exec_grows[of l x] by (simp add: le_trans)
qed simp

lemma run_kept: "i < length (entries l) \<Longrightarrow> kept (entries l ! i) (entries (fold exec xs l) ! i)"
proof (induction xs arbitrary: l)
  case Nil
  then show ?case by (simp add: kept_refl)
next
  case (Cons x xs)
  then have "i < length (entries (exec x l))"
    using exec_grows[of l x] by simp
  with Cons show ?case by (auto intro: kept_trans exec_kept)
qed

lemma run_final:
  "i < length (entries l) \<Longrightarrow> final (entries l ! i) \<Longrightarrow>
   entries (fold exec xs l) ! i = entries l ! i"
proof (induction xs arbitrary: l)
  case (Cons x xs)
  then have "i < length (entries (exec x l))"
    using exec_grows[of l x] by simp
  with Cons show ?case by (simp add: exec_final)
qed simp

end

lemma cal_run_fold: "cal_run xs s = fold cal_exec xs s"
  by (induction xs s rule: cal_run.induct) simp_all

lemma snd_record_change:
  "changes (fst (snd (record_change ct who what rs ov nv cs auto c w))) =
     changes c @ [fst (record_change ct who what rs ov nv cs auto c w)]"
  by (metis prod.collapse record_change_log(1))

lemma snd_record_emergency:
  "changes (fst (snd (record_emergency_change ct who what rs ov nv cs c w))) =
     changes c @ [fst (record_emergency_change ct who what rs ov nv cs c w)]"
  by (metis prod.collapse record_emergency_log(1))

lemma settle_entries:
  assumes "i < length (changes c)"
  shows "length (changes (fst (snd (settle_change st cid b why c w)))) = length (changes c)"
      (is "length (changes ?c') = _")
    and "same_change (changes c ! i) (changes (fst (snd (settle_change st cid b why c w))) ! i)"
    and "decided (changes c ! i) \<Longrightarrow>
      changes (fst (snd (settle_change st cid b why c w))) ! i = changes c ! i"
proof -
  obtain res c' w' where s: "settle_change st cid b why c w = (res, c', w')"
    by (metis prod_cases3)
  then have c': "?c' = c'" by simp
  have "length (changes c') = length (changes c) \<and> same_change (changes c ! i) (changes c' ! i)
    \<and> (decided (changes c ! i) \<longrightarrow> changes c' ! i = changes c ! i)"
    using s
  proof (cases rule: settle_change_log)
    case untouched
    then show ?thesis by simp
  next
    case (decided_now j r)
    then show ?thesis by (cases "i = j") simp_all
  qed
  then show "length (changes ?c') = length (changes c)"
    and "same_change (changes c ! i) (changes ?c' ! i)"
    and "decided (changes c ! i) \<Longrightarrow> changes ?c' ! i = changes c ! i"
    unfolding c' by simp_all
qed

lemma append_entries:
  assumes "i < length xs" "ys = xs @ [r]"
  shows "i < length ys" "same_change (xs ! i) (ys ! i)" "ys ! i = xs ! i"
  using assms by (simp_all add: nth_append)

lemma cal_exec_log:
  assumes "i < length (changes (fst s))"
  shows "i < length (changes (fst (cal_exec x s))) \<and>
    same_change (changes (fst s) ! i) (changes (fst (cal_exec x s)) ! i) \<and>
    (decided (changes (fst s) ! i) \<longrightarrow> changes (fst (cal_exec x s)) ! i = changes (fst s) ! i)"
proof (cases x)
  case (OpRecord ct who what rs ov nv cs auto)
  then show ?thesis
    using append_entries[OF assms snd_record_change[of ct who what rs ov nv cs auto "fst s" "snd s"]]
    by (cases s) simp
next
  case (OpEmergency ct who what rs ov nv cs)
  then show ?thesis
    using append_entries[OF assms snd_record_emergency[of ct who what rs ov nv cs "fst s" "snd s"]]
    by (cases s) simp
next
  case (OpApprove cid b why)
  then show ?thesis using settle_entries[OF assms, of CS_APPROVED cid b why "snd s"] assms
    by (cases s) (simp add: approve_change_def)
next
  case (OpReject cid b why)
  then show ?thesis using settle_entries[OF assms, of CS_REJECTED cid b "Some why" "snd s"] assms
    by (cases s) (simp add: reject_change_def)
qed

interpretation cal_log: append_only_log "\<lambda>s. changes (fst s)" same_change decided cal_exec
proof unfold_locales
  show "same_change r r" for r
    by simp
next
  show "length (changes (fst l)) \<le> length (changes (fst (cal_exec x l)))" for l x
    using cal_exec_log[of _ l x] by (meson leI less_irrefl)
next
  show "same_change r t" if "same_change r s" "same_change s t" for r s t
    using that by (rule same_change_trans)
next
  show "same_change (changes (fst l) ! i) (changes (fst (cal_exec x l)) ! i)"
    if "i < length (changes (fst l))" for i l x
    using cal_exec_log[OF that] by blast
next
  show "changes (fst (cal_exec x l)) ! i = changes (fst l) ! i"
    if "i < length (changes (fst l))" "decided (changes (fst l) ! i)" for i l x
    using cal_exec_log[OF that(1), of x] that(2) by simp
qed

section \<open>Identifiers\<close>

text \<open>Every record carries the counter value of its position.\<close>

definition cal_ok :: "cal \<Rightarrow> bool" where
  "cal_ok c \<longleftrightarrow> map change_id (changes c) = map (\<lambda>i. chg_id (Suc i)) [0..<change_counter c]"

lemma cal_ok_new: "cal_ok (new_cal cb)"
  by (simp add: cal_ok_def new_cal_def)

lemma cal_ok_length:
  assumes "cal_ok c"
  shows "length (changes c) = change_counter c"
proof -
  have "length (map change_id (changes c)) = change_counter c"
    using assms unfolding cal_ok_def by simp
  then show ?thesis by simp
qed

lemma cal_ok_id:
  assumes "cal_ok c" "i < length (changes c)"
  shows "change_id (changes c ! i) = chg_id (Suc i)"
proof -
  have "map change_id (changes c) ! i = map (\<lambda>i. chg_id (Suc i)) [0..<change_counter c] ! i"
    using assms(1) unfolding cal_ok_def by simp
  with assms cal_ok_length[OF assms(1)] show ?thesis by simp
qed

lemma chg_id_inj: "chg_id m = chg_id n \<longleftrightarrow> m = n"
  by (simp add: chg_id_def pad8_inj)

lemma cal_ok_settle: "cal_ok c \<Longrightarrow> cal_ok (fst (snd (settle_change st cid b why c w)))"
proof -
  assume ok: "cal_ok c"
  obtain res c' w' where s: "settle_change st cid b why c w = (res, c', w')"
    by (metis prod_cases3)
  from s show ?thesis
  proof (cases rule: settle_change_log)
    case untouched
    with ok s show ?thesis by simp
  next
    case (decided_now i r)
    then have "map change_id (changes c') = map change_id (changes c)"
      by (simp add: map_update same_change_def list_update_same_conv)
    with ok s decided_now show ?thesis by (simp add: cal_ok_def)
  qed
qed

lemma cal_ok_append:
  assumes "cal_ok c" "changes c' = changes c @ [r]" "change_counter c' = Suc (change_counter c)"
    and "change_id r = chg_id (Suc (change_counter c))"
  shows "cal_ok c'"
  using assms by (simp add: cal_ok_def)

lemma cal_ok_record:
  assumes "cal_ok c"
  shows "cal_ok (fst (snd (record_change ct who what rs ov nv cs auto c w)))"
proof -
  obtain r c' w' where e: "record_change ct who what rs ov nv cs auto c w = (r, c', w')"
    by (metis prod_cases3)
  then show ?thesis using cal_ok_append[OF assms record_change_log(1,2,3)[OF e]] by simp
qed

lemma cal_ok_emergency:
  assumes "cal_ok c"
  shows "cal_ok (fst (snd (record_emergency_change ct who what rs ov nv cs c w)))"
proof -
  obtain r c' w' where e: "record_emergency_change ct who what rs ov nv cs c w = (r, c', w')"
    by (metis prod_cases3)
  then show ?thesis using cal_ok_append[OF assms record_emergency_log(1,2,3)[OF e]] by simp
qed

lemma cal_ok_exec: "cal_ok (fst s) \<Longrightarrow> cal_ok (fst (cal_exec x s))"
  by (cases x; cases s)
    (simp_all add: approve_change_def reject_change_def cal_ok_settle cal_ok_record cal_ok_emergency)

lemma cal_ok_run: "cal_ok (fst s) \<Longrightarrow> cal_ok (fst (cal_run xs s))"
  by (induction xs s rule: cal_run.induct) (simp_all add: cal_ok_exec)

lemma cal_ok_distinct: "cal_ok c \<Longrightarrow> distinct (map change_id (changes c))"
  by (simp add: cal_ok_def distinct_map inj_on_def chg_id_inj)

lemma cal_ok_find:
  assumes "cal_ok c" "i < length (changes c)"
  shows "find_change (chg_id (Suc i)) (changes c) = Some (changes c ! i)"
    and "list_index (changes c ! i) (changes c) = i"
proof -
  show "find_change (chg_id (Suc i)) (changes c) = Some (changes c ! i)"
    unfolding find_change_def find_Some_iff
    using assms by (auto simp: cal_ok_id chg_id_inj intro!: exI[of _ i])
  have "distinct (changes c)"
    using cal_ok_distinct[OF assms(1)] distinct_map by blast
  then show "list_index (changes c ! i) (changes c) = i"
    using assms(2) list_index_nth[of "changes c ! i" "changes c"] nth_eq_iff_index_eq
    by (metis nth_mem)
qed


section \<open>Properties\<close>

text \<open>C35: The log is append-only over any history of recordings, emergency recordings, approvals
  and rejections: it never shrinks, an entry stays at its position and keeps everything that
  describes the change, and once approved or rejected it never changes again.\<close>

theorem cal_append_only:
  assumes "i < length (changes c)"
  shows "i < length (changes (fst (cal_run ops (c, w)))) \<and>
    same_change (changes c ! i) (changes (fst (cal_run ops (c, w))) ! i) \<and>
    (decided (changes c ! i) \<longrightarrow> changes (fst (cal_run ops (c, w))) ! i = changes c ! i)"
  using assms cal_log.run_grows[of "(c, w)" ops] cal_log.run_kept[of i "(c, w)" ops]
    cal_log.run_final[of i "(c, w)" ops]
  by (simp add: cal_run_fold)

definition demo_cal :: cal where
  "demo_cal = fst (cal_run [OpRecord STATE_CHANGE ''a'' ''x'' ''r'' PNone (PInt 1) None False,
     OpApprove (chg_id 1) ''op'' None] (new_cal False, sample_env 1))"

lemma demo_cal_eval:
  "map (\<lambda>r. (change_id r, approval_status r)) (changes demo_cal) = [(''chg:00000001'', CS_APPROVED)]"
  by code_simp

lemma cal_append_only_witness:
  "changes (fst (cal_run [OpReject (chg_id 1) ''op2'' ''no''] (demo_cal, sample_env 9))) ! 0 =
     changes demo_cal ! 0"
proof -
  obtain r where r: "changes demo_cal = [r]" "approval_status r = CS_APPROVED"
    using demo_cal_eval by (cases "changes demo_cal") auto
  then show ?thesis
    using cal_append_only[of 0 demo_cal "[OpReject (chg_id 1) ''op2'' ''no'']" "sample_env 9"]
    by (simp add: decided_def)
qed

text \<open>Identifiers are positions: after any history from an empty log the entry at index i has
  the id with counter i+1, so ids are pairwise distinct and the counter is the log's length.\<close>

theorem cal_ids_are_positions:
  "let c = fst (cal_run ops (new_cal cb, w)) in
     map change_id (changes c) = map (\<lambda>i. chg_id (Suc i)) [0..<length (changes c)] \<and>
     distinct (map change_id (changes c)) \<and> change_counter c = length (changes c)"
proof -
  let ?c = "fst (cal_run ops (new_cal cb, w))"
  have ok: "cal_ok ?c" using cal_ok_run[of "(new_cal cb, w)" ops] by (simp add: cal_ok_new)
  show ?thesis
    using ok cal_ok_distinct[OF ok] cal_ok_length[OF ok] by (simp add: Let_def cal_ok_def)
qed

text \<open>A decision hits exactly the change it names: in a log built by the operations,
  approving or rejecting the id of entry i decides entry i if it was undecided (an
  auto-approved or emergency-bypassed entry counts as undecided) and leaves every other entry
  and the length alone; an unknown id returns None and changes nothing.\<close>

theorem cal_decision_exact:
  assumes "cal_ok c" "settle_change st cid who why c w = (res, c', w')"
  shows "(\<forall>i < length (changes c). cid = chg_id (Suc i) \<longrightarrow>
      (if decided (changes c ! i) then c' = c \<and> res = Some (changes c ! i)
       else \<exists>r. res = Some r \<and> changes c' = (changes c)[i := r] \<and> approval_status r = st \<and>
              cr_approved_by r = Some who \<and> same_change (changes c ! i) r)) \<and>
    ((\<forall>i < length (changes c). cid \<noteq> chg_id (Suc i)) \<longrightarrow> res = None \<and> c' = c \<and> w' = w)"
proof (intro conjI allI impI)
  fix i assume i: "i < length (changes c)" "cid = chg_id (Suc i)"
  note f = cal_ok_find[OF assms(1) i(1)]
  show "if decided (changes c ! i) then c' = c \<and> res = Some (changes c ! i)
       else \<exists>r. res = Some r \<and> changes c' = (changes c)[i := r] \<and> approval_status r = st \<and>
              cr_approved_by r = Some who \<and> same_change (changes c ! i) r"
  proof (cases "decided (changes c ! i)")
    case True
    with assms(2) f i show ?thesis
      by (auto simp: settle_change_def decided_def split: if_splits)
  next
    case False
    with assms(2) f i show ?thesis
      by (auto simp: settle_change_def decided_def Let_def read_clock_def)
  qed
next
  assume n: "\<forall>i < length (changes c). cid \<noteq> chg_id (Suc i)"
  have "find_change cid (changes c) = None"
    unfolding find_change_def find_None_iff in_set_conv_nth
    using n by (auto simp: cal_ok_id[OF assms(1)])
  with assms(2) show "res = None" "c' = c" "w' = w" by (auto simp: settle_change_def)
qed

lemma cal_decision_exact_witness:
  "fst (settle_change CS_REJECTED (chg_id 7) ''op'' None (new_cal False) (sample_env 1)) = None \<and>
   changes (fst (snd (settle_change CS_REJECTED (chg_id 7) ''op'' None (new_cal False) (sample_env 1)))) = []"
proof -
  obtain res c' w' where s: "settle_change CS_REJECTED (chg_id 7) ''op'' None (new_cal False)
     (sample_env 1) = (res, c', w')" by (metis prod_cases3)
  from cal_decision_exact[OF cal_ok_new s] s show ?thesis by (simp add: new_cal_def)
qed

end
