(* ===== verification/SM_Base.thy ===== *)
theory SM_Base
  imports Change_Log
begin

text \<open>
  The shared engine of the three state machines (\<open>app/state_machine_base.py\<close>): the guard
  chain of \<open>_validate_transition\<close>, the audit record of \<open>_build_transition_record\<close>, the
  change-log and callback plumbing, and the multi-object store with its expiry sweep. The
  locale \<open>object_machine\<close> is the contract that the authorization and the lease machine
  offer their clients; its lemmas hold for both.
\<close>

section \<open>The world a machine acts on\<close>

text \<open>
  The environment, the change audit log shared by all components (if one was created), and
  the audit records handed to the audit callbacks, each with the name of its emitter.
\<close>

record world = env +
  w_cal :: "cal option"
  w_out :: "(string \<times> pydict) list"

definition sample_world :: "nat \<Rightarrow> world" where
  "sample_world t0 = env.extend (sample_env t0) \<lparr>w_cal = Some (new_cal False), w_out = []\<rparr>"

lemma sample_clock_mono: "clock_mono (sample_world t)"
  by (simp add: clock_mono_def sample_world_def sample_env_def env.defs sample_clock_def)

lemma sample_world_now: "millis (clock (sample_world t) (ticks (sample_world t))) = int t * 1000"
  by (simp add: sample_world_def sample_env_def env.defs sample_clock_def)

section \<open>Rules and guards\<close>

record ('s, 'i) transition_rule =
  rule_from :: 's
  rule_to :: 's
  requires_approval :: bool
  allowed_initiators :: "'i list"

text \<open>
  The class attributes a subclass provides. \<open>state_value\<close> is the label the records use
  (\<open>.value\<close> of the state enum).
\<close>

record ('s, 'r) sm_class =
  tx_prefix :: string
  ev_prefix :: string
  aud_prefix :: string
  change_label :: string
  terminal_states :: "'s list"
  forbidden_transitions :: "('s \<times> 's) list"
  transition_rules :: "(('s \<times> 's) \<times> 'r) list"
  state_value :: "'s \<Rightarrow> string"

text \<open>
  The errors raised through \<open>ERROR_CLS\<close>, one constructor for each guard; the
  \<open>AttributeError\<close> of reading \<open>.value\<close> of something that is no enum member; and the error of
  a value that is no number (or not one that has an integer part).
\<close>

datatype ('s, 'i) sm_error =
    ObjectNotFound string
  | FromTerminal 's
  | ForbiddenEdge 's 's
  | NotInTable 's 's
  | InitiatorDenied 'i 's 's
  | ApprovalMissing 's 's
  | HoldTime int
  | NoValueAttribute string
  | BadNumber

definition lookup_requires_approval ::
  "('s, ('s, 'i, 'z) transition_rule_scheme) sm_class \<Rightarrow> 's \<Rightarrow> 's \<Rightarrow> bool" where
  "lookup_requires_approval cls from_s to_s =
     (case map_of (transition_rules cls) (from_s, to_s) of
        None \<Rightarrow> False | Some rule \<Rightarrow> requires_approval rule)"

text \<open>
  Guards 1 to 5 in the code's order, then the subclass hook (guard 6), which may read the
  clock and so takes the world.
\<close>

definition validate_transition ::
  "('s, ('s, 'i, 'z) transition_rule_scheme) sm_class \<Rightarrow>
   ('s \<Rightarrow> 's \<Rightarrow> ('s, 'i, 'z) transition_rule_scheme \<Rightarrow> 'w \<Rightarrow> ('s, 'i) sm_error option \<times> 'w) \<Rightarrow>
   's \<Rightarrow> 's \<Rightarrow> 'i \<Rightarrow> string option \<Rightarrow> 'w \<Rightarrow>
   (('s, 'i) sm_error + ('s, 'i, 'z) transition_rule_scheme) \<times> 'w" where
  "validate_transition cls extra_validate from_s to_s initiator approved_by w =
     (if from_s \<in> set (terminal_states cls) then (Inl (FromTerminal from_s), w)
      else if (from_s, to_s) \<in> set (forbidden_transitions cls)
        then (Inl (ForbiddenEdge from_s to_s), w)
      else (case map_of (transition_rules cls) (from_s, to_s) of
          None \<Rightarrow> (Inl (NotInTable from_s to_s), w)
        | Some rule \<Rightarrow>
            (if initiator \<notin> set (allowed_initiators rule)
               then (Inl (InitiatorDenied initiator from_s to_s), w)
             else if requires_approval rule \<and> \<not> str_given approved_by
               then (Inl (ApprovalMissing from_s to_s), w)
             else (case extra_validate from_s to_s rule w of
                 (Some e, w1) \<Rightarrow> (Inl e, w1)
               | (None, w1) \<Rightarrow> (Inr rule, w1)))))"

definition no_extra :: "'s \<Rightarrow> 's \<Rightarrow> 'r \<Rightarrow> 'w \<Rightarrow> ('s, 'i) sm_error option \<times> 'w" where
  "no_extra from_s to_s rule w = (None, w)"

text \<open>What the guards accept, as one predicate.\<close>

definition permitted ::
  "('s, ('s, 'i, 'z) transition_rule_scheme) sm_class \<Rightarrow> 's \<Rightarrow> 's \<Rightarrow> 'i \<Rightarrow> string option \<Rightarrow> bool" where
  "permitted cls from_s to_s initiator approved_by \<longleftrightarrow>
     from_s \<notin> set (terminal_states cls) \<and> (from_s, to_s) \<notin> set (forbidden_transitions cls) \<and>
     (case map_of (transition_rules cls) (from_s, to_s) of
        None \<Rightarrow> False
      | Some rule \<Rightarrow> initiator \<in> set (allowed_initiators rule) \<and>
                    (requires_approval rule \<longrightarrow> str_given approved_by))"

lemma validate_ok_iff:
  "(\<exists>rule w'. validate_transition cls no_extra f t i a w = (Inr rule, w')) \<longleftrightarrow> permitted cls f t i a"
  by (auto simp: validate_transition_def permitted_def no_extra_def split: option.splits if_splits)

lemma validate_ok:
  assumes "validate_transition cls ex f t i a w = (Inr rule, w')"
  shows "permitted cls f t i a" "map_of (transition_rules cls) (f, t) = Some rule"
    "ex f t rule w = (None, w')"
  using assms
  by (auto simp: validate_transition_def permitted_def split: option.splits if_splits prod.splits)

lemma validate_no_extra_world:
  "snd (validate_transition cls no_extra f t i a w) = w"
  by (simp add: validate_transition_def no_extra_def split: option.splits)

section \<open>Audit records\<close>

text \<open>
  \<open>_build_transition_record\<close>: one clock reading and two identifiers per record. The object
  id goes under the subclass's key when it has one; extra fields are merged last.
\<close>

definition build_transition_record ::
  "('s, ('s, 'i, 'z) transition_rule_scheme) sm_class \<Rightarrow> 's \<Rightarrow> 's \<Rightarrow> string option \<Rightarrow>
   string option \<Rightarrow> string \<Rightarrow> string \<Rightarrow> int \<Rightarrow> string list option \<Rightarrow> string option \<Rightarrow>
   string option \<Rightarrow> string option \<Rightarrow> pydict \<Rightarrow> 'w env_scheme \<Rightarrow> pydict \<times> 'w env_scheme" where
  "build_transition_record cls from_s to_s object_id object_id_key event_value initiator_value
       version_before reason_codes approved_by previous_value next_value extra w =
     (let (now, w1) = now_ms w;
          (h1, w2) = fresh_hex w1;
          tid = tx_prefix cls @ '':'' @ take 12 h1;
          prev_label = (case previous_value of Some s \<Rightarrow> s | None \<Rightarrow> state_value cls from_s);
          next_label = (case next_value of Some s \<Rightarrow> s | None \<Rightarrow> state_value cls to_s);
          (h2, w3) = fresh_hex w2;
          record = [(''transition_id'', PStr tid),
                    (''previous_status'', PStr prev_label),
                    (''next_status'', PStr next_label),
                    (''trigger_event_id'', PStr (ev_prefix cls @ '':'' @ take 8 h2)),
                    (''initiated_by'', PStr initiator_value),
                    (''transition_reason_codes'',
                       PList (map PStr (case reason_codes of None \<Rightarrow> [] | Some xs \<Rightarrow> xs))),
                    (''approval_required'', PBool (lookup_requires_approval cls from_s to_s)),
                    (''approved_by'', opt_str approved_by),
                    (''effective_at_ms'', PInt now),
                    (''audit_event_ref'',
                       PStr (aud_prefix cls @ '':'' @ take 16 (sha256_hex w tid))),
                    (''version_before'', PInt version_before),
                    (''version_after'', PInt (version_before + 1)),
                    (''trigger_event_type'', PStr event_value)];
          with_id = (case (object_id, object_id_key) of
              (Some oid, Some key) \<Rightarrow> AList.update key (PStr oid) record
            | _ \<Rightarrow> record)
      in (dict_update with_id extra, w3))"

section \<open>Callbacks and the change log\<close>

definition arrow :: string where
  "arrow = map char_of [0x20::nat, 0xE2, 0x86, 0x92, 0x20]"

text \<open>\<open>_emit_audit\<close>: a raising callback is caught, so only the hand-over is visible.\<close>

definition emit_audit :: "string \<Rightarrow> bool \<Rightarrow> pydict \<Rightarrow> world \<Rightarrow> world" where
  "emit_audit emitter has_callback rec w =
     (if has_callback then w\<lparr>w_out := w_out w @ [(emitter, rec)]\<rparr> else w)"

text \<open>Handing one change to the shared log, if there is one (\<open>record_change(**kwargs)\<close>).\<close>

definition cal_write ::
  "string \<Rightarrow> string \<Rightarrow> string \<Rightarrow> pyval \<Rightarrow> pyval \<Rightarrow> bool \<Rightarrow> world \<Rightarrow> world" where
  "cal_write who what reason oldv newv auto_approve w =
     (case w_cal w of
        None \<Rightarrow> w
      | Some c \<Rightarrow>
          (let (r, c', w') = record_change STATE_CHANGE who what reason oldv newv None auto_approve c w
           in w'\<lparr>w_cal := Some c'\<rparr>))"

definition record_change_audit ::
  "string \<Rightarrow> bool \<Rightarrow> string \<Rightarrow> string \<Rightarrow> string \<Rightarrow> string option \<Rightarrow> string \<Rightarrow> bool option \<Rightarrow>
   world \<Rightarrow> world" where
  "record_change_audit label injected from_label to_label initiator_value approved_by reason
       auto_approve w =
     (if \<not> injected then w
      else
        (let who = (if str_given approved_by then the approved_by else initiator_value)
         in cal_write who (label @ '': '' @ from_label @ arrow @ to_label) reason
              (PStr from_label) (PStr to_label)
              (case auto_approve of None \<Rightarrow> False | Some b \<Rightarrow> b) w))"

text \<open>Writing to a connected change log appends one entry.\<close>

lemma cal_write_logs:
  assumes "w_cal w = Some c"
  shows "\<exists>c' r. w_cal (cal_write who what rs ov nv auto w) = Some c' \<and> changes c' = changes c @ [r] \<and>
    cr_who r = who \<and> cr_what r = what \<and>
    approval_status r = (if auto then CS_AUTO_APPROVED else CS_PENDING)"
proof -
  obtain r c' w' where e: "record_change STATE_CHANGE who what rs ov nv None auto c w = (r, c', w')"
    by (metis prod_cases3)
  show ?thesis
    using assms e record_change_log[OF e] by (intro exI[of _ c'] exI[of _ r]) (simp add: cal_write_def)
qed

section \<open>Time only moves forward\<close>

text \<open>What every operation does to the environment: consume readings, nothing else.\<close>

definition later :: "'z env_scheme \<Rightarrow> 'z env_scheme \<Rightarrow> bool" where
  "later w w' \<longleftrightarrow> clock w' = clock w \<and> uuids w' = uuids w \<and> sha256_hex w' = sha256_hex w \<and>
     json_dumps w' = json_dumps w \<and> float_repr w' = float_repr w \<and> ticks w \<le> ticks w' \<and> draws w \<le> draws w'"

lemma later_refl [simp]: "later w w"
  by (simp add: later_def)

lemma later_trans: "later u v \<Longrightarrow> later v w \<Longrightarrow> later u w"
  by (simp add: later_def)

lemma later_now_ms [simp]: "later w (snd (now_ms w))"
  by (simp add: later_def now_ms_def)

lemma later_build [simp]:
  "later w (snd (build_transition_record cls f t oid k ev ini vb rc ap p n ex w))"
  by (simp add: build_transition_record_def Let_def later_def now_ms_def fresh_hex_def)

lemma later_record_change: "later w (snd (snd (record_change ct who what rs ov nv cs auto c w)))"
  by (simp add: record_change_def Let_def read_clock_def later_def)

lemma later_cal_field: "later w w' \<Longrightarrow> later w (w'\<lparr>w_cal := x\<rparr>)"
  by (simp add: later_def)

lemma later_cal_write [simp]: "later w (cal_write who what rs ov nv auto w)"
proof (cases "w_cal w")
  case None
  then show ?thesis by (simp add: cal_write_def)
next
  case (Some c)
  obtain r c' w' where e: "record_change STATE_CHANGE who what rs ov nv None auto c w = (r, c', w')"
    by (metis prod_cases3)
  have "later w w'"
    using later_record_change[of w STATE_CHANGE who what rs ov nv None auto c] e by simp
  with Some e show ?thesis by (simp add: cal_write_def later_cal_field)
qed

lemma later_record_change_audit [simp]:
  "later w (record_change_audit lab ij f t ini ap rs auto w)"
  by (simp add: record_change_audit_def Let_def)

lemma later_emit_audit [simp]: "later w (emit_audit name cb rec w)"
  by (simp add: emit_audit_def later_def)

lemma w_out_cal_write [simp]: "w_out (cal_write who what rs ov nv auto w) = w_out w"
  by (simp add: cal_write_def record_change_def Let_def read_clock_def split: option.splits)

lemma w_out_record_change_audit [simp]:
  "w_out (record_change_audit lab ij f t ini ap rs auto w) = w_out w"
  by (simp add: record_change_audit_def Let_def)

section \<open>The multi-object store\<close>

text \<open>
  \<open>MultiObjectStoreMixin\<close>: the objects by id in insertion order, whether an audit callback
  was given, and whether the change audit log was injected. Values are immutable here, so a
  clone is the value itself; handing out a clone cannot alias the store.
\<close>

record 'o object_store =
  objects :: "(string \<times> 'o) list"
  audit_cb :: bool
  cal_injected :: bool

definition new_store :: "bool \<Rightarrow> 'o object_store" where
  "new_store cb = \<lparr>objects = [], audit_cb = cb, cal_injected = False\<rparr>"

definition set_change_audit_log :: "'o object_store \<Rightarrow> 'o object_store" where
  "set_change_audit_log s = s\<lparr>cal_injected := True\<rparr>"

fun clone_jsonish :: "pyval \<Rightarrow> pyval" where
  "clone_jsonish (PDict d) = PDict (map (\<lambda>(k, v). (k, clone_jsonish v)) d)"
| "clone_jsonish (PList xs) = PList (map clone_jsonish xs)"
| "clone_jsonish v = v"

lemma clone_jsonish_id: "clone_jsonish v = v"
proof (induction v rule: clone_jsonish.induct)
  case (1 d)
  then have "map (\<lambda>(k, v). (k, clone_jsonish v)) d = d"
    by (induction d) auto
  then show ?case by simp
next
  case (2 xs)
  then have "map clone_jsonish xs = xs"
    by (induction xs) auto
  then show ?case by simp
qed simp_all

definition store_get :: "string \<Rightarrow> 'o object_store \<Rightarrow> 'o option" where
  "store_get oid s = map_of (objects s) oid"

definition store_get_all :: "'o object_store \<Rightarrow> 'o list" where
  "store_get_all s = map snd (objects s)"

fun count_states :: "('o \<Rightarrow> string) \<Rightarrow> 'o list \<Rightarrow> (string \<times> nat) list \<Rightarrow> (string \<times> nat) list" where
  "count_states key [] summary = summary"
| "count_states key (x # xs) summary =
     count_states key xs
       (AList.update (key x)
          ((case map_of summary (key x) of None \<Rightarrow> 0 | Some n \<Rightarrow> n) + 1) summary)"

definition get_status_summary :: "('o \<Rightarrow> string) \<Rightarrow> 'o object_store \<Rightarrow> (string \<times> nat) list" where
  "get_status_summary key s = count_states key (store_get_all s) []"

definition store_put :: "string \<Rightarrow> 'o \<Rightarrow> 'o object_store \<Rightarrow> 'o object_store" where
  "store_put oid x s = s\<lparr>objects := AList.update oid x (objects s)\<rparr>"

lemma store_get_put: "store_get j (store_put oid x s) = (if j = oid then Some x else store_get j s)"
  by (simp add: store_get_def store_put_def pd.get_put)

lemma store_put_frame [simp]:
  "audit_cb (store_put oid x s) = audit_cb s" "cal_injected (store_put oid x s) = cal_injected s"
  by (simp_all add: store_put_def)

lemma count_states_get:
  "(case map_of (count_states key xs m) k of None \<Rightarrow> 0 | Some n \<Rightarrow> n) =
   (case map_of m k of None \<Rightarrow> 0 | Some n \<Rightarrow> n) + length (filter (\<lambda>x. key x = k) xs)"
  by (induction key xs m rule: count_states.induct) (auto simp: pd.get_put split: option.splits)

lemma status_summary_counts:
  "(case map_of (get_status_summary key s) k of None \<Rightarrow> 0 | Some n \<Rightarrow> n) =
   length (filter (\<lambda>x. key x = k) (store_get_all s))"
  by (simp add: get_status_summary_def count_states_get)

text \<open>One object in one store: what the evaluated listing says about a lookup.\<close>

lemma single_object:
  assumes "map (\<lambda>(k, x). (k, f x)) (objects sm) = [(i, v)]"
  shows "\<exists>x. store_get i sm = Some x \<and> store_get_all sm = [x] \<and> f x = v"
  using assms by (cases "objects sm") (auto simp: store_get_def store_get_all_def)

section \<open>The expiry sweep\<close>

text \<open>
  \<open>is_expired_by_time\<close> reads the clock only when there is an expiry time. The sweep first
  collects the candidates, then tries one transition for each and skips those that raise.
\<close>

definition expired_by_time :: "int option \<Rightarrow> 'w env_scheme \<Rightarrow> bool \<times> 'w env_scheme" where
  "expired_by_time expires_at w =
     (case expires_at of
        None \<Rightarrow> (False, w)
      | Some t \<Rightarrow> (let (now, w1) = now_ms w in (t < now, w1)))"

fun expiry_candidates ::
  "('o \<Rightarrow> bool) \<Rightarrow> ('o \<Rightarrow> int option) \<Rightarrow> ('o \<Rightarrow> string) \<Rightarrow> 'o list \<Rightarrow>
   'w env_scheme \<Rightarrow> string list \<times> 'w env_scheme" where
  "expiry_candidates terminal expires oid [] w = ([], w)"
| "expiry_candidates terminal expires oid (x # xs) w =
     (if terminal x then expiry_candidates terminal expires oid xs w
      else
        (let (b, w1) = expired_by_time (expires x) w;
             (ids, w2) = expiry_candidates terminal expires oid xs w1
         in (if b then oid x # ids else ids, w2)))"

fun expire_each ::
  "(string \<Rightarrow> 'sm \<Rightarrow> 'w \<Rightarrow> ('e + 'o) \<times> 'sm \<times> 'w) \<Rightarrow> string list \<Rightarrow> 'sm \<Rightarrow> 'w \<Rightarrow>
   string list \<times> 'sm \<times> 'w" where
  "expire_each to_expired [] sm w = ([], sm, w)"
| "expire_each to_expired (i # is) sm w =
     (case to_expired i sm w of
        (Inl e, sm1, w1) \<Rightarrow> expire_each to_expired is sm1 w1
      | (Inr obj, sm1, w1) \<Rightarrow>
          (let (done, sm2, w2) = expire_each to_expired is sm1 w1 in (i # done, sm2, w2)))"

definition check_expiry ::
  "('o \<Rightarrow> bool) \<Rightarrow> ('o \<Rightarrow> int option) \<Rightarrow> ('o \<Rightarrow> string) \<Rightarrow>
   (string \<Rightarrow> 'o object_store \<Rightarrow> world \<Rightarrow> ('e + 'o) \<times> 'o object_store \<times> world) \<Rightarrow>
   'o object_store \<Rightarrow> world \<Rightarrow> string list \<times> 'o object_store \<times> world" where
  "check_expiry terminal expires oid to_expired sm w =
     (let (ids, w1) = expiry_candidates terminal expires oid (store_get_all sm) w
      in expire_each to_expired ids sm w1)"

lemma later_expired_by_time [simp]: "later w (snd (expired_by_time e w))"
  by (simp add: expired_by_time_def now_ms_def later_def split: option.splits)

lemma later_expiry_candidates: "later w (snd (expiry_candidates T E I xs w))"
proof (induction xs arbitrary: w)
  case (Cons x xs)
  show ?case
  proof (cases "T x")
    case False
    obtain b w1 where e: "expired_by_time (E x) w = (b, w1)" by fastforce
    then have "later w w1" by (metis later_expired_by_time snd_conv)
    with False e Cons[of w1] show ?thesis
      by (auto simp: Let_def split: prod.splits intro: later_trans)
  qed (simp add: Cons)
qed simp

text \<open>
  Which ids the sweep collects, given the interval of clock readings it made: everything that
  was past its expiry at every reading, and nothing that was not past it at any.
\<close>

lemma expired_by_time_reads:
  assumes "expired_by_time e w = (b, w1)"
  shows "b \<Longrightarrow> \<exists>t. e = Some t \<and> t < millis (clock w (ticks w)) \<and> ticks w1 = Suc (ticks w)"
    and "e = Some t \<Longrightarrow> t < millis (clock w (ticks w)) \<Longrightarrow> b" and "clock w1 = clock w"
    and "ticks w \<le> ticks w1"
  using assms by (auto simp: expired_by_time_def now_ms_def split: option.splits)

lemma expiry_candidates_sound:
  assumes "expiry_candidates T E I xs w = (ids, w1)" "i \<in> set ids"
  shows "\<exists>x\<in>set xs. I x = i \<and> \<not> T x \<and>
    (\<exists>t n. E x = Some t \<and> n < ticks w1 \<and> t < millis (clock w n))"
  using assms
proof (induction xs arbitrary: w ids w1)
  case (Cons x xs)
  show ?case
  proof (cases "T x")
    case True
    with Cons show ?thesis by auto
  next
    case False
    obtain b v where b: "expired_by_time (E x) w = (b, v)" by fastforce
    obtain js u where r: "expiry_candidates T E I xs v = (js, u)" by fastforce
    note br = expired_by_time_reads[OF b]
    have tu: "ticks v \<le> ticks u"
      using later_expiry_candidates[of v T E I xs] r by (simp add: later_def)
    have ids: "ids = (if b then I x # js else js)" "w1 = u"
      using Cons.prems(1) False b r by simp_all
    show ?thesis
    proof (cases "b \<and> i = I x")
      case True
      then show ?thesis using False br ids tu by fastforce
    next
      case no: False
      with Cons.prems ids have "i \<in> set js" by (auto split: if_splits)
      from Cons.IH[OF r this] br ids show ?thesis by auto
    qed
  qed
qed simp

lemma expiry_candidates_complete:
  assumes "expiry_candidates T E I xs w = (ids, w1)" "x \<in> set xs" "\<not> T x" "E x = Some t"
    and "\<And>n. ticks w \<le> n \<Longrightarrow> n < ticks w1 \<Longrightarrow> t < millis (clock w n)"
  shows "I x \<in> set ids"
  using assms
proof (induction xs arbitrary: w ids w1)
  case (Cons y xs)
  show ?case
  proof (cases "T y")
    case True
    with Cons show ?thesis by auto
  next
    case False
    obtain b v where b: "expired_by_time (E y) w = (b, v)" by fastforce
    obtain js u where r: "expiry_candidates T E I xs v = (js, u)" by fastforce
    note br = expired_by_time_reads[OF b]
    have tu: "ticks v \<le> ticks u"
      using later_expiry_candidates[of v T E I xs] r by (simp add: later_def)
    have ids: "ids = (if b then I y # js else js)" "w1 = u"
      using Cons.prems(1) False b r by simp_all
    show ?thesis
    proof (cases "x = y")
      case True
      have "ticks v = Suc (ticks w)"
        using b True Cons.prems(4) by (auto simp: expired_by_time_def now_ms_def)
      with Cons.prems(5)[of "ticks w"] tu ids have "t < millis (clock w (ticks w))" by simp
      with br(2) True Cons.prems(4) have b by blast
      with ids True show ?thesis by simp
    next
      case False
      with Cons.prems(2) have "x \<in> set xs" by simp
      moreover have "t < millis (clock v n)" if "ticks v \<le> n" "n < ticks u" for n
        using Cons.prems(5)[of n] that br ids by simp
      ultimately have "I x \<in> set js"
        using Cons.IH[OF r] Cons.prems(3,4) by blast
      with ids show ?thesis by simp
    qed
  qed
qed simp

lemma expiry_candidates_distinct:
  assumes "expiry_candidates T E I xs w = (ids, w1)" "distinct (map I xs)"
  shows "distinct ids"
  using assms
proof (induction xs arbitrary: w ids w1)
  case (Cons x xs)
  show ?case
  proof (cases "T x")
    case True
    with Cons show ?thesis by auto
  next
    case False
    obtain b v where b: "expired_by_time (E x) w = (b, v)" by fastforce
    obtain js u where r: "expiry_candidates T E I xs v = (js, u)" by fastforce
    have "I x \<notin> set js"
    proof
      assume "I x \<in> set js"
      then obtain y where "y \<in> set xs" "I y = I x"
        using expiry_candidates_sound[OF r] by blast
      then have "I x \<in> set (map I xs)" by (metis image_eqI list.set_map)
      with Cons.prems(2) show False by simp
    qed
    with Cons False b r show ?thesis by auto
  qed
qed simp

lemma expire_each_inv:
  assumes "\<And>i sm w r sm' w'. P sm \<Longrightarrow> f i sm w = (r, sm', w') \<Longrightarrow> P sm'"
    and "P sm" "expire_each f ids sm w = (dn, sm', w')"
  shows "P sm'"
  using assms(2,3)
proof (induction ids arbitrary: sm w dn sm' w')
  case (Cons i ids)
  obtain r sm1 w1 where t: "f i sm w = (r, sm1, w1)" by (metis prod_cases3)
  obtain dn1 sm2 w2 where u: "expire_each f ids sm1 w1 = (dn1, sm2, w2)" by (metis prod_cases3)
  have "sm' = sm2 \<and> w' = w2" using Cons.prems(2) t u by (cases r) auto
  with u have "expire_each f ids sm1 w1 = (dn1, sm', w')" by simp
  from Cons.IH[OF assms(1)[OF Cons.prems(1) t] this] show ?case .
qed simp

lemma check_expiry_inv:
  assumes "\<And>i sm w r sm' w'. P sm \<Longrightarrow> f i sm w = (r, sm', w') \<Longrightarrow> P sm'"
    and "P sm" "check_expiry T E I f sm w = (dn, sm', w')"
  shows "P sm'"
  using expire_each_inv[of P f, OF assms(1,2)] assms(3)
  by (auto simp: check_expiry_def split: prod.splits)

text \<open>Stores in which every object sits under its own id, once.\<close>

definition keyed :: "('o \<Rightarrow> string) \<Rightarrow> 'o object_store \<Rightarrow> bool" where
  "keyed oid sm \<longleftrightarrow> distinct (map fst (objects sm)) \<and> (\<forall>(k, x) \<in> set (objects sm). oid x = k)"

lemma keyed_new: "keyed oid (new_store cb)"
  by (simp add: keyed_def new_store_def)

lemma update_set_subset: "set (AList.update k x d) \<subseteq> insert (k, x) (set d)"
  by (induction d) auto

lemma keyed_put:
  assumes "keyed oid sm" "oid x = k"
  shows "keyed oid (store_put k x sm)"
proof -
  have "set (AList.update k x (objects sm)) \<subseteq> insert (k, x) (set (objects sm))"
    by (rule update_set_subset)
  with assms show ?thesis
    by (auto simp: keyed_def store_put_def distinct_update)
qed

lemma keyed_get: "keyed oid sm \<Longrightarrow> store_get k sm = Some x \<Longrightarrow> oid x = k"
  by (auto simp: keyed_def store_get_def dest!: map_of_SomeD)

lemma keyed_all:
  assumes "keyed oid sm"
  shows "map oid (store_get_all sm) = map fst (objects sm)"
    and "x \<in> set (store_get_all sm) \<longleftrightarrow> store_get (oid x) sm = Some x"
proof -
  show "map oid (store_get_all sm) = map fst (objects sm)"
    using assms by (auto simp: keyed_def store_get_all_def)
  show "x \<in> set (store_get_all sm) \<longleftrightarrow> store_get (oid x) sm = Some x"
    using assms by (force simp: keyed_def store_get_all_def store_get_def dest: map_of_SomeD)
qed

lemma keyed_distinct: "keyed oid sm \<Longrightarrow> distinct (map oid (store_get_all sm))"
  using keyed_all(1)[of oid sm] unfolding keyed_def by simp

section \<open>Audit trails\<close>

text \<open>
  A trail links two state labels when each record starts where the one before it ended.
\<close>

fun linked :: "string \<Rightarrow> pydict list \<Rightarrow> string \<Rightarrow> bool" where
  "linked a [] b = (a = b)"
| "linked a (r # rs) b =
     (map_of r ''previous_status'' = Some (PStr a) \<and>
      (case map_of r ''next_status'' of Some (PStr m) \<Rightarrow> linked m rs b | _ \<Rightarrow> False))"

text \<open>
  A record is lawful when it documents an edge of the rule table, taken by an allowed
  initiator, and names an approver where the rule asks for one.
\<close>

definition lawful_record ::
  "('s, ('s, 'i, 'z) transition_rule_scheme) sm_class \<Rightarrow> ('i \<Rightarrow> string) \<Rightarrow> pydict \<Rightarrow> bool" where
  "lawful_record cls initiator_value r \<longleftrightarrow>
     (\<exists>f t rule i a. map_of (transition_rules cls) (f, t) = Some rule \<and>
        f \<notin> set (terminal_states cls) \<and>
        map_of r ''previous_status'' = Some (PStr (state_value cls f)) \<and>
        map_of r ''next_status'' = Some (PStr (state_value cls t)) \<and>
        i \<in> set (allowed_initiators rule) \<and>
        map_of r ''initiated_by'' = Some (PStr (initiator_value i)) \<and>
        map_of r ''approval_required'' = Some (PBool (requires_approval rule)) \<and>
        map_of r ''approved_by'' = Some a \<and> (requires_approval rule \<longrightarrow> truthy a))"

definition trail_ok ::
  "('s, ('s, 'i, 'z) transition_rule_scheme) sm_class \<Rightarrow> ('i \<Rightarrow> string) \<Rightarrow>
   ('o \<Rightarrow> 's) \<Rightarrow> ('o \<Rightarrow> int) \<Rightarrow> ('o \<Rightarrow> pydict list) \<Rightarrow> 'o \<Rightarrow> bool" where
  "trail_ok cls initiator_value st ver trail x \<longleftrightarrow>
     linked ''NONE'' (trail x) (state_value cls (st x)) \<and>
     ver x = int (length (trail x)) \<and>
     (\<forall>r \<in> set (tl (trail x)). lawful_record cls initiator_value r)"

lemma linked_append: "linked a (rs @ ss) c \<longleftrightarrow> (\<exists>b. linked a rs b \<and> linked b ss c)"
proof (induction rs arbitrary: a)
  case (Cons r rs)
  then show ?case by (auto split: option.splits pyval.splits)
qed simp

lemma truthy_opt_str [simp]: "truthy (opt_str s) \<longleftrightarrow> str_given s"
  by (cases s) (simp_all add: opt_str_def)

definition record_keys :: "string list" where
  "record_keys = [''transition_id'', ''previous_status'', ''next_status'', ''trigger_event_id'',
     ''initiated_by'', ''transition_reason_codes'', ''approval_required'', ''approved_by'',
     ''effective_at_ms'', ''audit_event_ref'', ''version_before'', ''version_after'',
     ''trigger_event_type'']"

lemma build_record_fields:
  assumes "key \<notin> set record_keys"
    and "build_transition_record cls f t (Some oid) (Some key) ev ini vb rc ap p n [] w = (r, w')"
  shows "map_of r ''previous_status'' =
           Some (PStr (case p of Some s \<Rightarrow> s | None \<Rightarrow> state_value cls f))"
    and "map_of r ''next_status'' =
           Some (PStr (case n of Some s \<Rightarrow> s | None \<Rightarrow> state_value cls t))"
    and "map_of r ''initiated_by'' = Some (PStr ini)"
    and "map_of r ''approval_required'' = Some (PBool (lookup_requires_approval cls f t))"
    and "map_of r ''approved_by'' = Some (opt_str ap)"
    and "map_of r key = Some (PStr oid)"
    and "map_of r ''trigger_event_type'' = Some (PStr ev)"
    and "map_of r ''version_after'' = Some (PInt (vb + 1))"
  using assms
  by (auto simp: build_transition_record_def Let_def record_keys_def now_ms_def fresh_hex_def
      pd.get_put)

section \<open>Calls of the core transition\<close>

record ('s, 'e, 'i) call =
  c_id :: string
  c_to :: 's
  c_event :: 'e
  c_initiator :: 'i
  c_reason_codes :: "string list option"
  c_approved_by :: "string option"
  c_reason :: string

fun run_calls ::
  "('c \<Rightarrow> 'sm \<Rightarrow> 'w \<Rightarrow> 'r \<times> 'sm \<times> 'w) \<Rightarrow> 'c list \<Rightarrow> 'sm \<times> 'w \<Rightarrow> 'sm \<times> 'w" where
  "run_calls f [] s = s"
| "run_calls f (c # cs) s = run_calls f cs (snd (f c (fst s) (snd s)))"

text \<open>
  The abstract machine: only the state of each object, changed when the guards permit it. It has
  no records, clock, identifiers, versions or change log.
\<close>

definition lifecycle ::
  "('s, ('s, 'i, 'z) transition_rule_scheme) sm_class \<Rightarrow> ('s, 'e, 'i) call \<Rightarrow> (string \<Rightarrow> 's option) \<Rightarrow>
   (string \<Rightarrow> 's option)" where
  "lifecycle cls c m =
     (case m (c_id c) of
        None \<Rightarrow> m
      | Some s \<Rightarrow> if permitted cls s (c_to c) (c_initiator c) (c_approved_by c) then m(c_id c \<mapsto> c_to c) else m)"

definition states_of :: "('o \<Rightarrow> 's) \<Rightarrow> 'o object_store \<Rightarrow> (string \<Rightarrow> 's option)" where
  "states_of st sm = (\<lambda>k. map_option st (store_get k sm))"

lemma states_of_put: "states_of st (store_put k x sm) = (states_of st sm)(k \<mapsto> st x)"
  by (auto simp: states_of_def store_get_put)

text \<open>
  The contract of a machine over stored objects. A refused call changes nothing at all; an
  accepted call was permitted by the guards, replaces exactly the addressed object, bumps its
  version by one and appends one lawful record that documents the step; and the guards are
  the only reason to refuse.
\<close>

locale object_machine =
  fixes cls :: "('s, ('s, 'i, 'z) transition_rule_scheme) sm_class"
    and ival :: "'i \<Rightarrow> string"
    and st :: "'o \<Rightarrow> 's"
    and ver :: "'o \<Rightarrow> int"
    and trail :: "'o \<Rightarrow> pydict list"
    and transition :: "('s, 'e, 'i) call \<Rightarrow> 'o object_store \<Rightarrow> world \<Rightarrow>
      (('s, 'i) sm_error + 'o) \<times> 'o object_store \<times> world"
  assumes refused: "transition c sm w = (Inl e, sm', w') \<Longrightarrow> sm' = sm \<and> w' = w"
    and accepted: "transition c sm w = (Inr x, sm', w') \<Longrightarrow>
      \<exists>x0 r. store_get (c_id c) sm = Some x0 \<and>
        permitted cls (st x0) (c_to c) (c_initiator c) (c_approved_by c) \<and>
        st x = c_to c \<and> ver x = ver x0 + 1 \<and> trail x = trail x0 @ [r] \<and>
        lawful_record cls ival r \<and>
        linked (state_value cls (st x0)) [r] (state_value cls (st x)) \<and>
        sm' = store_put (c_id c) x sm \<and> later w w'"
    and complete: "store_get (c_id c) sm = Some x0 \<Longrightarrow>
      permitted cls (st x0) (c_to c) (c_initiator c) (c_approved_by c) \<Longrightarrow>
      \<exists>x sm' w'. transition c sm w = (Inr x, sm', w')"
begin

lemma terminal_refused:
  "store_get (c_id c) sm = Some x \<Longrightarrow> st x \<in> set (terminal_states cls) \<Longrightarrow>
   \<exists>e. transition c sm w = (Inl e, sm, w)"
proof -
  assume x: "store_get (c_id c) sm = Some x" "st x \<in> set (terminal_states cls)"
  obtain r sm' w' where t: "transition c sm w = (r, sm', w')" by (metis prod_cases3)
  show ?thesis
  proof (cases r)
    case (Inl e)
    with t refused[of c sm w e sm' w'] show ?thesis by auto
  next
    case (Inr y)
    with t x accepted[of c sm w y sm' w'] show ?thesis by (auto simp: permitted_def)
  qed
qed

lemma other_objects:
  "transition c sm w = (r, sm', w') \<Longrightarrow> j \<noteq> c_id c \<Longrightarrow> store_get j sm' = store_get j sm"
  by (cases r) (auto dest: refused accepted simp: store_get_put)

lemma terminal_object_fixed:
  assumes "store_get j sm = Some x" "st x \<in> set (terminal_states cls)"
    and "transition c sm w = (r, sm', w')"
  shows "store_get j sm' = Some x"
  using assms terminal_refused[of c sm x w] other_objects[of c sm w r sm' w' j]
  by (cases "j = c_id c") auto

lemma versions_grow:
  assumes "store_get j sm = Some x" "transition c sm w = (r, sm', w')"
  shows "\<exists>y. store_get j sm' = Some y \<and> ver x \<le> ver y"
proof (cases r)
  case (Inl e)
  with assms refused[of c sm w e sm' w'] show ?thesis by auto
next
  case (Inr y)
  with assms accepted[of c sm w y sm' w'] show ?thesis by (auto simp: store_get_put)
qed

lemma trail_ok_step:
  assumes "\<And>j x. store_get j sm = Some x \<Longrightarrow> trail x \<noteq> [] \<and> trail_ok cls ival st ver trail x"
    and "transition c sm w = (r, sm', w')" and "store_get j sm' = Some y"
  shows "trail y \<noteq> [] \<and> trail_ok cls ival st ver trail y"
proof (cases r)
  case (Inl e)
  with assms refused[of c sm w e sm' w'] show ?thesis by auto
next
  case (Inr x)
  with assms(2) accepted[of c sm w x sm' w'] obtain x0 rec where
    x0: "store_get (c_id c) sm = Some x0" and sm': "sm' = store_put (c_id c) x sm"
    and x: "ver x = ver x0 + 1" "trail x = trail x0 @ [rec]" "lawful_record cls ival rec"
      "linked (state_value cls (st x0)) [rec] (state_value cls (st x))"
    by blast
  from assms(1)[OF x0] x have "trail x \<noteq> [] \<and> trail_ok cls ival st ver trail x"
    by (auto simp: trail_ok_def linked_append)
  with assms(1,3) sm' show ?thesis by (auto simp: store_get_put split: if_splits)
qed

lemma run_terminal_fixed:
  "store_get j (fst s) = Some x \<Longrightarrow> st x \<in> set (terminal_states cls) \<Longrightarrow>
   store_get j (fst (run_calls transition cs s)) = Some x"
proof (induction cs arbitrary: s)
  case (Cons c cs)
  obtain r sm' w' where t: "transition c (fst s) (snd s) = (r, sm', w')" by (metis prod_cases3)
  with Cons.prems have "store_get j sm' = Some x"
    by (auto intro: terminal_object_fixed)
  with Cons t show ?case by simp
qed simp

lemma run_trail_ok:
  assumes "\<And>j x. store_get j (fst s) = Some x \<Longrightarrow> trail x \<noteq> [] \<and> trail_ok cls ival st ver trail x"
    and "store_get j (fst (run_calls transition cs s)) = Some y"
  shows "trail y \<noteq> [] \<and> trail_ok cls ival st ver trail y"
  using assms
proof (induction cs arbitrary: s)
  case (Cons c cs)
  obtain r sm' w' where t: "transition c (fst s) (snd s) = (r, sm', w')" by (metis prod_cases3)
  have "trail x \<noteq> [] \<and> trail_ok cls ival st ver trail x" if "store_get i sm' = Some x" for i x
    using trail_ok_step[OF Cons.prems(1) t that] .
  with Cons.IH[of "(sm', w')"] Cons.prems(2) t show ?case by simp
qed simp

text \<open>The machine refines the abstract one, call by call and over any sequence of calls.\<close>

lemma refines_step: "states_of st (fst (snd (transition c sm w))) = lifecycle cls c (states_of st sm)"
proof -
  obtain r sm' w' where t: "transition c sm w = (r, sm', w')" by (metis prod_cases3)
  show ?thesis
  proof (cases r)
    case (Inl e)
    with t refused[of c sm w e sm' w'] have "sm' = sm" by simp
    moreover have "\<not> permitted cls (st x) (c_to c) (c_initiator c) (c_approved_by c)"
      if "store_get (c_id c) sm = Some x" for x
      using complete[OF that, of w] t Inl by auto
    ultimately show ?thesis using t by (auto simp: lifecycle_def states_of_def split: option.split)
  next
    case (Inr x)
    with t accepted[of c sm w x sm' w'] show ?thesis
      by (auto simp: lifecycle_def states_of_put) (auto simp: states_of_def)
  qed
qed

lemma refines_run:
  "states_of st (fst (run_calls transition cs s)) = fold (lifecycle cls) cs (states_of st (fst s))"
  by (induction cs arbitrary: s) (simp_all add: refines_step)

lemma run_states:
  assumes "fold (lifecycle cls) cs (states_of st sm) j = Some t"
  shows "\<exists>x. store_get j (fst (run_calls transition cs (sm, w))) = Some x \<and> st x = t"
proof -
  have "states_of st (fst (run_calls transition cs (sm, w))) j = Some t"
    using assms by (simp add: refines_run)
  then show ?thesis by (auto simp: states_of_def)
qed

text \<open>A permitted step into a terminal state ends the object for good.\<close>

lemma end_for_good:
  assumes "store_get (c_id c) sm = Some x0" "permitted cls (st x0) (c_to c) (c_initiator c) (c_approved_by c)"
    and "c_to c \<in> set (terminal_states cls)"
  shows "\<exists>x sm' w'. transition c sm w = (Inr x, sm', w') \<and> st x = c_to c \<and>
    (\<forall>cs. store_get (c_id c) (fst (run_calls transition cs (sm', w'))) = Some x)"
proof -
  obtain x sm' w' where t: "transition c sm w = (Inr x, sm', w')" using complete[OF assms(1,2)] by blast
  from accepted[OF t] have x: "st x = c_to c" "store_get (c_id c) sm' = Some x"
    by (auto simp: store_get_put)
  have "store_get (c_id c) (fst (run_calls transition cs (sm', w'))) = Some x" for cs
    by (rule run_terminal_fixed) (use x assms(3) in simp_all)
  with t x(1) show ?thesis by blast
qed

text \<open>The sweep over a list of distinct ids.\<close>

lemma expire_each_spec:
  assumes "distinct ids" and "\<And>i. c_id (mk i) = i" "\<And>i. c_to (mk i) = target"
    and "\<And>i. c_initiator (mk i) = ini" "\<And>i. c_approved_by (mk i) = None"
    and "expire_each (\<lambda>i. transition (mk i)) ids sm w = (dn, sm', w')"
  shows "dn = filter (\<lambda>i. case store_get i sm of None \<Rightarrow> False
                          | Some x \<Rightarrow> permitted cls (st x) target ini None) ids \<and>
    (\<forall>i \<in> set dn. \<exists>x0 x. store_get i sm = Some x0 \<and> store_get i sm' = Some x \<and>
        st x = target \<and> ver x = ver x0 + 1) \<and>
    (\<forall>j. j \<notin> set dn \<longrightarrow> store_get j sm' = store_get j sm) \<and> later w w'"
  using assms(1,6)
proof (induction ids arbitrary: sm w dn sm' w')
  case Nil
  then show ?case by simp
next
  case (Cons i ids)
  note mk = assms(2-5)
  obtain r sm1 w1 where t: "transition (mk i) sm w = (r, sm1, w1)" by (metis prod_cases3)
  show ?case
  proof (cases r)
    case (Inl e)
    with t refused[of "mk i" sm w e sm1 w1] have eq: "sm1 = sm" "w1 = w" by auto
    have no: "\<not> (case store_get i sm of None \<Rightarrow> False | Some x \<Rightarrow> permitted cls (st x) target ini None)"
      using complete[of "mk i" sm _ w] t Inl mk by (auto split: option.splits)
    from Cons.prems t Inl eq have "expire_each (\<lambda>i. transition (mk i)) ids sm w = (dn, sm', w')"
      by simp
    from Cons.IH[OF _ this] Cons.prems(1) no show ?thesis by simp
  next
    case (Inr x)
    with t accepted[of "mk i" sm w x sm1 w1] mk obtain x0 where
      x0: "store_get i sm = Some x0" "permitted cls (st x0) target ini None"
        "st x = target" "ver x = ver x0 + 1" "sm1 = store_put i x sm" "later w w1"
      by auto
    obtain dn1 where rest: "expire_each (\<lambda>i. transition (mk i)) ids sm1 w1 = (dn1, sm', w')"
      and dn: "dn = i # dn1"
      using Cons.prems(2) t Inr by (auto simp: Let_def split: prod.splits)
    have ni: "i \<notin> set ids" using Cons.prems(1) by simp
    note ih = Cons.IH[OF _ rest]
    have same: "store_get j sm1 = store_get j sm" if "j \<noteq> i" for j
      using that x0 by (simp add: store_get_put)
    have flt: "filter (\<lambda>i. case store_get i sm1 of None \<Rightarrow> False
        | Some x \<Rightarrow> permitted cls (st x) target ini None) ids =
      filter (\<lambda>i. case store_get i sm of None \<Rightarrow> False
        | Some x \<Rightarrow> permitted cls (st x) target ini None) ids"
    proof (intro filter_cong refl)
      fix k assume "k \<in> set ids"
      with ni have "k \<noteq> i" by auto
      then show "(case store_get k sm1 of None \<Rightarrow> False
          | Some x \<Rightarrow> permitted cls (st x) target ini None) =
        (case store_get k sm of None \<Rightarrow> False | Some x \<Rightarrow> permitted cls (st x) target ini None)"
        by (simp add: same)
    qed
    have ih': "dn1 = filter (\<lambda>i. case store_get i sm of None \<Rightarrow> False
        | Some x \<Rightarrow> permitted cls (st x) target ini None) ids"
      "\<forall>i\<in>set dn1. \<exists>x0 x. store_get i sm1 = Some x0 \<and> store_get i sm' = Some x \<and>
        st x = target \<and> ver x = ver x0 + 1"
      "\<forall>j. j \<notin> set dn1 \<longrightarrow> store_get j sm' = store_get j sm1" "later w1 w'"
      using ih Cons.prems(1) flt by simp_all
    then have sub: "i \<notin> set dn1" using ni by auto
    have at_i: "store_get i sm' = Some x"
      using ih'(3) sub x0 by (simp add: store_get_put)
    have "\<forall>k\<in>set dn. \<exists>x0 x. store_get k sm = Some x0 \<and> store_get k sm' = Some x \<and>
        st x = target \<and> ver x = ver x0 + 1"
    proof
      fix k assume k: "k \<in> set dn"
      show "\<exists>x0 x. store_get k sm = Some x0 \<and> store_get k sm' = Some x \<and>
        st x = target \<and> ver x = ver x0 + 1"
      proof (cases "k = i")
        case True
        with at_i x0 show ?thesis by blast
      next
        case False
        then have "store_get k sm1 = store_get k sm" by (rule same)
        moreover from False k dn have "k \<in> set dn1" by simp
        ultimately show ?thesis using ih'(2) by metis
      qed
    qed
    moreover have "\<forall>j. j \<notin> set dn \<longrightarrow> store_get j sm' = store_get j sm"
      using ih'(3) same dn by simp
    moreover have "dn = filter (\<lambda>i. case store_get i sm of None \<Rightarrow> False
        | Some x \<Rightarrow> permitted cls (st x) target ini None) (i # ids)"
      using ih'(1) dn x0 by simp
    moreover have "later w w'"
      using ih'(4) x0 later_trans by blast
    ultimately show ?thesis by blast
  qed
qed


text \<open>
  The whole sweep: it moves exactly the objects that were past their expiry and may take the
  step to the target without an approver.
\<close>

lemma check_expiry_spec:
  assumes "keyed I sm" and "\<And>i. c_id (mk i) = i" "\<And>i. c_to (mk i) = target"
    and "\<And>i. c_initiator (mk i) = ini" "\<And>i. c_approved_by (mk i) = None"
    and sweep: "check_expiry T E I (\<lambda>i. transition (mk i)) sm w = (dn, sm', w')"
  shows "i \<in> set dn \<Longrightarrow> \<exists>x0 x t n. store_get i sm = Some x0 \<and> store_get i sm' = Some x \<and>
        permitted cls (st x0) target ini None \<and> st x = target \<and> ver x = ver x0 + 1 \<and>
        \<not> T x0 \<and> E x0 = Some t \<and> n < ticks w' \<and> t < millis (clock w n)"
    and "i \<notin> set dn \<Longrightarrow> store_get i sm' = store_get i sm"
    and "store_get i sm = Some x0 \<Longrightarrow> permitted cls (st x0) target ini None \<Longrightarrow> \<not> T x0 \<Longrightarrow>
      E x0 = Some t \<Longrightarrow> (\<And>n. ticks w \<le> n \<Longrightarrow> n < ticks w' \<Longrightarrow> t < millis (clock w n)) \<Longrightarrow>
      i \<in> set dn"
proof -
  obtain ids w1 where c: "expiry_candidates T E I (store_get_all sm) w = (ids, w1)" by fastforce
  with sweep have e: "expire_each (\<lambda>i. transition (mk i)) ids sm w1 = (dn, sm', w')"
    by (simp add: check_expiry_def)
  have "distinct ids"
    using expiry_candidates_distinct[OF c] keyed_distinct[OF assms(1)] by blast
  note spec = expire_each_spec[OF this assms(2-5) e]
  have w1: "clock w1 = clock w" "ticks w1 \<le> ticks w'"
    using conjunct2[OF conjunct2[OF conjunct2[OF spec]]]
      later_expiry_candidates[of w T E I "store_get_all sm"] c by (simp_all add: later_def)
  show "i \<notin> set dn \<Longrightarrow> store_get i sm' = store_get i sm" using spec by blast
  show "\<exists>x0 x t n. store_get i sm = Some x0 \<and> store_get i sm' = Some x \<and>
        permitted cls (st x0) target ini None \<and> st x = target \<and> ver x = ver x0 + 1 \<and>
        \<not> T x0 \<and> E x0 = Some t \<and> n < ticks w' \<and> t < millis (clock w n)"
    if i: "i \<in> set dn"
  proof -
    from i spec have "i \<in> set ids" by auto
    from expiry_candidates_sound[OF c this] obtain y t n where y: "y \<in> set (store_get_all sm)"
      "I y = i" "\<not> T y" "E y = Some t" "n < ticks w1" "t < millis (clock w n)" by blast
    then have "store_get i sm = Some y" using keyed_all(2)[OF assms(1), of y] by simp
    moreover from i spec obtain x0 x where "store_get i sm = Some x0" "store_get i sm' = Some x"
      "st x = target" "ver x = ver x0 + 1" by blast
    moreover from i spec this(1) have "permitted cls (st x0) target ini None" by simp
    moreover have "n < ticks w'" using y(5) w1(2) by simp
    ultimately show ?thesis using y(3,4,6) by auto
  qed
  show "i \<in> set dn" if x0: "store_get i sm = Some x0" "permitted cls (st x0) target ini None"
      "\<not> T x0" "E x0 = Some t" "\<And>n. ticks w \<le> n \<Longrightarrow> n < ticks w' \<Longrightarrow> t < millis (clock w n)"
  proof -
    have i: "I x0 = i" using keyed_get[OF assms(1) x0(1)] .
    then have "x0 \<in> set (store_get_all sm)" using keyed_all(2)[OF assms(1), of x0] x0 by simp
    from expiry_candidates_complete[OF c this x0(3,4)] x0(5) w1 i have "i \<in> set ids" by simp
    with spec x0 show ?thesis by auto
  qed
qed

end

end
