(* ===== verification/Py_Coerce.thy ===== *)
theory Py_Coerce
  imports SM_Base Py_Float
begin

text \<open>
  What Python does with a value of unknown type, as far as the reconciliation engine and its
  callers rely on it: \<open>len\<close>, iteration, \<open>.get\<close>, \<open>.lower()\<close>, \<open>float(...)\<close> and
  \<open>str(...)\<close>, each with the exception it raises on the wrong type (None, or a
  \<open>conv_error\<close> where the code tells the exceptions apart).
\<close>

section \<open>Containers\<close>

definition py_len :: "pyval \<Rightarrow> nat option" where
  "py_len v = (case v of PList xs \<Rightarrow> Some (length xs) | PDict d \<Rightarrow> Some (length d)
     | PStr s \<Rightarrow> Some (length s) | _ \<Rightarrow> None)"

text \<open>\<open>for x in v\<close>: a dictionary yields its keys, a string its characters.\<close>

definition py_iter :: "pyval \<Rightarrow> pyval list option" where
  "py_iter v = (case v of PList xs \<Rightarrow> Some xs | PDict d \<Rightarrow> Some (map (PStr \<circ> fst) d)
     | PStr s \<Rightarrow> Some (map (\<lambda>c. PStr [c]) s) | _ \<Rightarrow> None)"

text \<open>\<open>v.get(key, default)\<close>: only a dictionary has it.\<close>

definition py_get :: "pyval \<Rightarrow> string \<Rightarrow> pyval \<Rightarrow> pyval option" where
  "py_get v key dflt = map_option (\<lambda>d. dict_get d key dflt) (as_dict v)"

text \<open>\<open>key in v\<close>: a substring of a string, an element of a list.\<close>

definition py_has :: "string \<Rightarrow> pyval \<Rightarrow> bool option" where
  "py_has key v = (case v of PDict d \<Rightarrow> Some (map_of d key \<noteq> None) | PStr s \<Rightarrow> Some (str_contains key s)
     | PList xs \<Rightarrow> Some (PStr key \<in> set xs) | _ \<Rightarrow> None)"

text \<open>Lists, dictionaries and sets cannot be dictionary keys.\<close>

definition hashable :: "pyval \<Rightarrow> bool" where
  "hashable v = (case v of PList _ \<Rightarrow> False | PDict _ \<Rightarrow> False | _ \<Rightarrow> True)"

section \<open>Strings\<close>

definition upper_char :: "char \<Rightarrow> char" where
  "upper_char c = (let n = (of_char c :: nat) in
     if 97 \<le> n \<and> n \<le> 122 then char_of (n - 32) else c)"

definition str_upper :: "string \<Rightarrow> string" where
  "str_upper s = map upper_char s"

text \<open>\<open>s.replace(sub, "")\<close> for a non-empty \<open>sub\<close>.\<close>

fun str_remove :: "string \<Rightarrow> string \<Rightarrow> string" where
  "str_remove sub [] = []"
| "str_remove sub (c # cs) =
     (if sub \<noteq> [] \<and> prefix sub (c # cs) then str_remove sub (drop (length sub - 1) cs)
      else c # str_remove sub cs)"

text \<open>Comparison of strings by code points.\<close>

fun str_less :: "string \<Rightarrow> string \<Rightarrow> bool" where
  "str_less s [] = False"
| "str_less [] (d # ds) = True"
| "str_less (c # cs) (d # ds) =
     ((of_char c :: nat) < of_char d \<or> c = d \<and> str_less cs ds)"

text \<open>
  \<open>str(v)\<close>. How a float or a container prints is a parameter: the code only puts the text
  into messages and labels.
\<close>

definition py_str :: "(pyval \<Rightarrow> string) \<Rightarrow> pyval \<Rightarrow> string" where
  "py_str other v = (case v of PStr s \<Rightarrow> s | PInt i \<Rightarrow> int_str i | PNone \<Rightarrow> ''None''
     | PBool b \<Rightarrow> (if b then ''True'' else ''False'') | _ \<Rightarrow> other v)"

section \<open>\<open>float(v)\<close>\<close>

text \<open>\<open>ValueError\<close> and \<open>TypeError\<close> are caught together in one place, \<open>OverflowError\<close> is not.\<close>

datatype conv_error = ConvInvalid | ConvOverflow

definition is_digit :: "char \<Rightarrow> bool" where
  "is_digit c \<longleftrightarrow> 48 \<le> (of_char c :: nat) \<and> (of_char c :: nat) \<le> 57"

definition is_space :: "char \<Rightarrow> bool" where
  "is_space c \<longleftrightarrow> (of_char c :: nat) = 32 \<or> 9 \<le> (of_char c :: nat) \<and> (of_char c :: nat) \<le> 13"

definition str_strip :: "string \<Rightarrow> string" where
  "str_strip s = rev (dropWhile is_space (rev (dropWhile is_space s)))"

text \<open>\<open>s.strip()\<close> also removes the separators 28 to 31, which \<open>float\<close> does not.\<close>

definition is_strip_space :: "char \<Rightarrow> bool" where
  "is_strip_space c \<longleftrightarrow> is_space c \<or> 28 \<le> (of_char c :: nat) \<and> (of_char c :: nat) \<le> 31"

definition text_strip :: "string \<Rightarrow> string" where
  "text_strip s = rev (dropWhile is_strip_space (rev (dropWhile is_strip_space s)))"

text \<open>An underscore stands between two digits.\<close>

fun underscores_ok :: "bool \<Rightarrow> string \<Rightarrow> bool" where
  "underscores_ok after_digit [] = True"
| "underscores_ok after_digit (c # cs) =
     (if c = CHR ''_'' then after_digit \<and> cs \<noteq> [] \<and> is_digit (hd cs) \<and> underscores_ok False cs
      else underscores_ok (is_digit c) cs)"

text \<open>An unsigned decimal number: digits, a fraction, an exponent.\<close>

definition parse_sign :: "string \<Rightarrow> rat \<times> string" where
  "parse_sign s = (case s of [] \<Rightarrow> (1, s)
     | c # cs \<Rightarrow> if c = CHR ''-'' then (-1, cs) else if c = CHR ''+'' then (1, cs) else (1, s))"

definition parse_exponent :: "string \<Rightarrow> int option" where
  "parse_exponent s = (case s of [] \<Rightarrow> Some 0
     | c # cs \<Rightarrow>
         if c \<noteq> CHR ''e'' then None
         else (let (sg, ds) = parse_sign cs in
               if ds \<noteq> [] \<and> list_all is_digit ds then Some (\<lfloor>sg\<rfloor> * int (str_nat ds)) else None))"

definition parse_decimal :: "string \<Rightarrow> rat option" where
  "parse_decimal s =
     (let whole = takeWhile is_digit s; r = dropWhile is_digit s;
          (frac, r2) = (case r of [] \<Rightarrow> ([], [])
             | c # cs \<Rightarrow> if c = CHR ''.'' then (takeWhile is_digit cs, dropWhile is_digit cs) else ([], r))
      in if whole = [] \<and> frac = [] then None
         else map_option (\<lambda>e. of_nat (str_nat (whole @ frac)) * (if 0 \<le> e - int (length frac)
                then 10 ^ nat (e - int (length frac)) else 1 / 10 ^ nat (int (length frac) - e)))
              (parse_exponent r2))"

definition parse_float :: "string \<Rightarrow> pyfloat option" where
  "parse_float text =
     (let t = str_lower (str_strip text) in
      if \<not> underscores_ok False t then None
      else
        (let (sg, r) = parse_sign (filter (\<lambda>c. c \<noteq> CHR ''_'') t) in
         if r = ''inf'' \<or> r = ''infinity'' then Some (if sg < 0 then NegInf else PosInf)
         else if r = ''nan'' then Some NaN
         else map_option (\<lambda>x. fl_round (sg * x)) (parse_decimal r)))"

definition py_float :: "pyval \<Rightarrow> conv_error + pyfloat" where
  "py_float v = (case v of
       PFloat x \<Rightarrow> Inr x
     | PInt i \<Rightarrow> (case fl_round (of_int i) of Fin a \<Rightarrow> Inr (Fin a) | _ \<Rightarrow> Inl ConvOverflow)
     | PBool b \<Rightarrow> Inr (Fin (if b then 1 else 0))
     | PStr s \<Rightarrow> (case parse_float s of None \<Rightarrow> Inl ConvInvalid | Some x \<Rightarrow> Inr x)
     | _ \<Rightarrow> Inl ConvInvalid)"

text \<open>\<open>int(x)\<close> of a float: NaN is a \<open>ValueError\<close>, an infinity an \<open>OverflowError\<close>.\<close>

definition py_int :: "pyfloat \<Rightarrow> conv_error + int" where
  "py_int x = (case int_of_float x of Some i \<Rightarrow> Inr i
     | None \<Rightarrow> Inl (if is_nan x then ConvInvalid else ConvOverflow))"

text \<open>Where any exception ends the computation alike.\<close>

definition to_float :: "pyval \<Rightarrow> pyfloat option" where
  "to_float v = (case py_float v of Inl e \<Rightarrow> None | Inr x \<Rightarrow> Some x)"

text \<open>\<open>a - b\<close> on numbers: exact on integers, rounded on floats.\<close>

definition int_like :: "pyval \<Rightarrow> int option" where
  "int_like v = (case v of PInt i \<Rightarrow> Some i | PBool b \<Rightarrow> Some (if b then 1 else 0) | _ \<Rightarrow> None)"

definition py_sub :: "pyval \<Rightarrow> pyval \<Rightarrow> pyval option" where
  "py_sub a b =
     (case (int_like a, int_like b) of
        (Some i, Some j) \<Rightarrow> Some (PInt (i - j))
      | _ \<Rightarrow> (case (as_num a, as_num b) of
                (Some _, Some _) \<Rightarrow> do { x \<leftarrow> to_float a; y \<leftarrow> to_float b; Some (PFloat (fsub x y)) }
              | _ \<Rightarrow> None))"

section \<open>Lemmas\<close>

lemma py_get_dict [simp]: "py_get (PDict d) k x = Some (dict_get d k x)"
  by (simp add: py_get_def)

lemma to_float_float [simp]: "to_float (PFloat x) = Some x"
  by (simp add: to_float_def py_float_def)

lemma parse_decimal_examples:
  "parse_decimal ''0.5'' = Some (1/2)" "parse_decimal ''12.25e1'' = Some (245/2)"
  "parse_decimal ''.'' = None" "parse_decimal ''1e'' = None" "parse_decimal ''7x'' = None"
  "underscores_ok False ''1_0''" "\<not> underscores_ok False ''1__0''"
  by (simp_all add: parse_decimal_def parse_exponent_def parse_sign_def is_digit_def str_nat_def digit_val_def)

lemma str_less_irrefl [simp]: "\<not> str_less s s"
  by (induction s) auto

end
