(* ===== verification/Auth_SM.thy ===== *)
theory Auth_SM
  imports SM_Base
begin

text \<open>
  The authorization state machine SM-01 (\<open>app/authorization_state_machine.py\<close>): its states,
  rule table, object, operations and persistence. The properties state when an authorization
  may be effective, that terminal states are final, that the audit trail replays to the
  current state, and what the expiry sweep does.
\<close>

section \<open>States, events, initiators\<close>

datatype AuthState = A_DRAFT | A_PENDING_APPROVAL | A_ACTIVE | A_RESTRICTED | A_FROZEN
  | A_REVOKED | A_EXPIRED | A_REJECTED

fun auth_state_value :: "AuthState \<Rightarrow> string" where
  "auth_state_value A_DRAFT = ''DRAFT''"
| "auth_state_value A_PENDING_APPROVAL = ''PENDING_APPROVAL''"
| "auth_state_value A_ACTIVE = ''ACTIVE''"
| "auth_state_value A_RESTRICTED = ''RESTRICTED''"
| "auth_state_value A_FROZEN = ''FROZEN''"
| "auth_state_value A_REVOKED = ''REVOKED''"
| "auth_state_value A_EXPIRED = ''EXPIRED''"
| "auth_state_value A_REJECTED = ''REJECTED''"

definition auth_states :: "AuthState list" where
  "auth_states = [A_DRAFT, A_PENDING_APPROVAL, A_ACTIVE, A_RESTRICTED, A_FROZEN, A_REVOKED,
     A_EXPIRED, A_REJECTED]"

text \<open>\<open>AuthState(s)\<close>: None is the \<open>ValueError\<close>.\<close>

definition auth_state_of :: "string \<Rightarrow> AuthState option" where
  "auth_state_of s = find (\<lambda>x. auth_state_value x = s) auth_states"

definition auth_terminal_states :: "AuthState list" where
  "auth_terminal_states = [A_REVOKED, A_EXPIRED, A_REJECTED]"

definition auth_effective_states :: "AuthState list" where
  "auth_effective_states = [A_ACTIVE, A_RESTRICTED]"

datatype AuthEvent = AE_DRAFT_CREATED | AE_SUBMITTED_FOR_APPROVAL | AE_APPROVED | AE_REJECTED
  | AE_ACTIVATED | AE_RESTRICTED | AE_FREEZE_APPLIED | AE_REVOKED | AE_EXPIRED
  | AE_RECOVERY_APPROVED | AE_INCIDENT_FREEZE | AE_OBSERVATION_RESTRICTION

fun auth_event_value :: "AuthEvent \<Rightarrow> string" where
  "auth_event_value AE_DRAFT_CREATED = ''authorization_draft_created''"
| "auth_event_value AE_SUBMITTED_FOR_APPROVAL = ''authorization_submitted_for_approval''"
| "auth_event_value AE_APPROVED = ''authorization_approved''"
| "auth_event_value AE_REJECTED = ''authorization_rejected''"
| "auth_event_value AE_ACTIVATED = ''authorization_activated''"
| "auth_event_value AE_RESTRICTED = ''authorization_restricted''"
| "auth_event_value AE_FREEZE_APPLIED = ''authorization_freeze_applied''"
| "auth_event_value AE_REVOKED = ''authorization_revoked''"
| "auth_event_value AE_EXPIRED = ''authorization_expired''"
| "auth_event_value AE_RECOVERY_APPROVED = ''authorization_recovery_approved''"
| "auth_event_value AE_INCIDENT_FREEZE = ''incident_requires_freeze''"
| "auth_event_value AE_OBSERVATION_RESTRICTION = ''observation_window_restriction_applied''"

datatype AuthInitiator = AI_AUTHORIZATION_GOVERNANCE | AI_OPERATOR | AI_INCIDENT_POLICY
  | AI_RECOVERY_APPROVAL_FLOW | AI_EXPIRY_GUARDIAN

fun auth_initiator_value :: "AuthInitiator \<Rightarrow> string" where
  "auth_initiator_value AI_AUTHORIZATION_GOVERNANCE = ''AuthorizationGovernance''"
| "auth_initiator_value AI_OPERATOR = ''Operator''"
| "auth_initiator_value AI_INCIDENT_POLICY = ''IncidentPolicy''"
| "auth_initiator_value AI_RECOVERY_APPROVAL_FLOW = ''RecoveryApprovalFlow''"
| "auth_initiator_value AI_EXPIRY_GUARDIAN = ''ExpiryGuardian''"

section \<open>The transition table\<close>

type_synonym auth_rule = "(AuthState, AuthInitiator) transition_rule"

definition auth_register ::
  "AuthState \<Rightarrow> AuthState \<Rightarrow> bool \<Rightarrow> AuthInitiator list \<Rightarrow>
   ((AuthState \<times> AuthState) \<times> auth_rule) list \<Rightarrow> ((AuthState \<times> AuthState) \<times> auth_rule) list" where
  "auth_register from_s to_s approval initiators table =
     AList.update (from_s, to_s)
       \<lparr>rule_from = from_s, rule_to = to_s, requires_approval = approval,
        allowed_initiators = initiators\<rparr> table"

definition AG_OPERATOR_GOV :: "AuthInitiator list" where
  "AG_OPERATOR_GOV = [AI_AUTHORIZATION_GOVERNANCE, AI_OPERATOR]"

definition AG_INCIDENT :: "AuthInitiator list" where
  "AG_INCIDENT = [AI_INCIDENT_POLICY, AI_AUTHORIZATION_GOVERNANCE, AI_OPERATOR]"

definition AG_RECOVERY :: "AuthInitiator list" where
  "AG_RECOVERY = [AI_RECOVERY_APPROVAL_FLOW, AI_OPERATOR]"

definition AG_EXPIRY :: "AuthInitiator list" where
  "AG_EXPIRY = [AI_EXPIRY_GUARDIAN, AI_AUTHORIZATION_GOVERNANCE]"

definition auth_rules :: "((AuthState \<times> AuthState) \<times> auth_rule) list" where
  "auth_rules = fold (\<lambda>(f, t, a, is). auth_register f t a is)
    [(A_DRAFT, A_PENDING_APPROVAL, False, AG_OPERATOR_GOV),
     (A_DRAFT, A_REJECTED, False, AG_OPERATOR_GOV),
     (A_PENDING_APPROVAL, A_ACTIVE, True, AG_OPERATOR_GOV),
     (A_PENDING_APPROVAL, A_REJECTED, False, AG_OPERATOR_GOV),
     (A_ACTIVE, A_RESTRICTED, False, AG_INCIDENT),
     (A_ACTIVE, A_FROZEN, False, AG_INCIDENT),
     (A_ACTIVE, A_REVOKED, True, AG_OPERATOR_GOV),
     (A_ACTIVE, A_EXPIRED, False, AG_EXPIRY),
     (A_RESTRICTED, A_ACTIVE, True, AG_RECOVERY),
     (A_RESTRICTED, A_FROZEN, False, AG_INCIDENT),
     (A_RESTRICTED, A_REVOKED, True, AG_OPERATOR_GOV),
     (A_RESTRICTED, A_EXPIRED, False, AG_EXPIRY),
     (A_FROZEN, A_RESTRICTED, True, AG_RECOVERY),
     (A_FROZEN, A_ACTIVE, True, AG_RECOVERY),
     (A_FROZEN, A_REVOKED, True, AG_OPERATOR_GOV),
     (A_FROZEN, A_EXPIRED, False, AG_EXPIRY)] []"

definition auth_forbidden :: "(AuthState \<times> AuthState) list" where
  "auth_forbidden =
    [(A_REVOKED, A_ACTIVE), (A_REVOKED, A_RESTRICTED), (A_EXPIRED, A_ACTIVE),
     (A_EXPIRED, A_RESTRICTED), (A_REJECTED, A_ACTIVE), (A_REJECTED, A_PENDING_APPROVAL),
     (A_DRAFT, A_ACTIVE)]"

definition auth_class :: "(AuthState, auth_rule) sm_class" where
  "auth_class = \<lparr>tx_prefix = ''atx'', ev_prefix = ''evt'', aud_prefix = ''aud'',
     change_label = ''Authorization'', terminal_states = auth_terminal_states,
     forbidden_transitions = auth_forbidden, transition_rules = auth_rules,
     state_value = auth_state_value\<rparr>"

section \<open>Authorization objects\<close>

record AuthorizationObject =
  authorization_id :: string
  a_state :: AuthState
  a_version :: int
  a_created_at_ms :: int
  a_updated_at_ms :: int
  a_expires_at_ms :: "int option"
  a_scope :: pydict
  a_title :: string
  a_description :: string
  a_created_by :: string
  a_approved_by :: "string option"
  a_approval_reason :: string
  a_restriction_reason :: string
  a_freeze_reason :: string
  a_revoke_reason :: string
  a_transitions :: "pydict list"

type_synonym auth_sm = "AuthorizationObject object_store"
type_synonym auth_error = "(AuthState, AuthInitiator) sm_error"
type_synonym auth_call = "(AuthState, AuthEvent, AuthInitiator) call"

text \<open>\<open>__post_init__\<close>: a missing id is drawn, a missing creation time is read.\<close>

definition auth_post_init :: "AuthorizationObject \<Rightarrow> 'z env_scheme \<Rightarrow>
    AuthorizationObject \<times> 'z env_scheme" where
  "auth_post_init a w =
     (let (a1, w1) = (if authorization_id a = [] then
            (let (h, w') = fresh_hex w
             in (a\<lparr>authorization_id := ''auth:'' @ take 12 h\<rparr>, w')) else (a, w))
      in if a_created_at_ms a1 = 0 then
           (let (t, w2) = now_ms w1
            in (a1\<lparr>a_created_at_ms := t, a_updated_at_ms := t\<rparr>, w2))
         else (a1, w1))"

definition auth_is_effective :: "AuthorizationObject \<Rightarrow> bool" where
  "auth_is_effective a \<longleftrightarrow> a_state a \<in> set auth_effective_states"

definition auth_is_terminal :: "AuthorizationObject \<Rightarrow> bool" where
  "auth_is_terminal a \<longleftrightarrow> a_state a \<in> set auth_terminal_states"

definition auth_to_dict :: "AuthorizationObject \<Rightarrow> pydict" where
  "auth_to_dict a =
    [(''authorization_id'', PStr (authorization_id a)),
     (''state'', PStr (auth_state_value (a_state a))),
     (''version'', PInt (a_version a)),
     (''created_at_ms'', PInt (a_created_at_ms a)),
     (''updated_at_ms'', PInt (a_updated_at_ms a)),
     (''expires_at_ms'', opt_int (a_expires_at_ms a)),
     (''scope'', PDict (a_scope a)),
     (''title'', PStr (a_title a)),
     (''description'', PStr (a_description a)),
     (''created_by'', PStr (a_created_by a)),
     (''approved_by'', opt_str (a_approved_by a)),
     (''is_effective'', PBool (auth_is_effective a)),
     (''is_terminal'', PBool (auth_is_terminal a)),
     (''transition_count'', PInt (int (length (a_transitions a))))]"

section \<open>Operations\<close>

definition auth_create_draft ::
  "string \<Rightarrow> pydict \<Rightarrow> string \<Rightarrow> string \<Rightarrow> int option \<Rightarrow> auth_sm \<Rightarrow> world \<Rightarrow>
   AuthorizationObject \<times> auth_sm \<times> world" where
  "auth_create_draft title scope created_by description expires_at sm w =
     (let (a, w1) = auth_post_init
            \<lparr>authorization_id = [], a_state = A_DRAFT, a_version = 1, a_created_at_ms = 0,
             a_updated_at_ms = 0, a_expires_at_ms = expires_at, a_scope = scope,
             a_title = title, a_description = description, a_created_by = created_by,
             a_approved_by = None, a_approval_reason = [], a_restriction_reason = [],
             a_freeze_reason = [], a_revoke_reason = [], a_transitions = []\<rparr> w;
          (rec, w2) = build_transition_record auth_class A_DRAFT A_DRAFT
            (Some (authorization_id a)) (Some ''authorization_id'')
            (auth_event_value AE_DRAFT_CREATED) (auth_initiator_value AI_OPERATOR)
            (a_version a) (Some [''initial_draft'']) None
            (Some ''NONE'') (Some (auth_state_value A_DRAFT)) [] w1;
          a' = a\<lparr>a_transitions := a_transitions a @ [rec]\<rparr>
      in (a', store_put (authorization_id a') a' sm,
          emit_audit ''authorization'' (audit_cb sm) rec w2))"

text \<open>The metadata written after a step, by target state.\<close>

definition auth_update_meta ::
  "AuthState \<Rightarrow> string option \<Rightarrow> string \<Rightarrow> AuthorizationObject \<Rightarrow> AuthorizationObject" where
  "auth_update_meta to_s approved_by reason a =
     (if to_s = A_ACTIVE \<and> str_given approved_by
        then a\<lparr>a_approved_by := approved_by, a_approval_reason := reason\<rparr>
      else if to_s = A_RESTRICTED then a\<lparr>a_restriction_reason := reason\<rparr>
      else if to_s = A_FROZEN then a\<lparr>a_freeze_reason := reason\<rparr>
      else if to_s = A_REVOKED then a\<lparr>a_revoke_reason := reason\<rparr>
      else a)"

text \<open>Which steps the change log books as auto-approved.\<close>

definition auth_is_auto :: "string option \<Rightarrow> AuthInitiator \<Rightarrow> bool" where
  "auth_is_auto approved_by initiator =
     (let who = (if str_given approved_by then the approved_by else auth_initiator_value initiator)
      in str_contains ''auto'' (str_lower who) \<or> str_contains ''system'' (str_lower who) \<or>
         initiator = AI_AUTHORIZATION_GOVERNANCE)"

definition auth_transition ::
  "auth_call \<Rightarrow> auth_sm \<Rightarrow> world \<Rightarrow> (auth_error + AuthorizationObject) \<times> auth_sm \<times> world" where
  "auth_transition c sm w =
     (case map_of (objects sm) (c_id c) of
        None \<Rightarrow> (Inl (ObjectNotFound (c_id c)), sm, w)
      | Some auth \<Rightarrow>
          (case validate_transition auth_class no_extra (a_state auth) (c_to c)
                  (c_initiator c) (c_approved_by c) w of
             (Inl e, w1) \<Rightarrow> (Inl e, sm, w1)
           | (Inr rule, w1) \<Rightarrow>
               (let (rec, w2) = build_transition_record auth_class (a_state auth) (c_to c)
                      (Some (authorization_id auth)) (Some ''authorization_id'')
                      (auth_event_value (c_event c)) (auth_initiator_value (c_initiator c))
                      (a_version auth) (c_reason_codes c) (c_approved_by c) None None [] w1;
                    (upd, w3) = now_ms w2;
                    auth1 = auth\<lparr>a_state := c_to c, a_version := a_version auth + 1,
                              a_updated_at_ms := upd, a_transitions := a_transitions auth @ [rec]\<rparr>;
                    auth2 = auth_update_meta (c_to c) (c_approved_by c) (c_reason c) auth1;
                    w4 = record_change_audit (change_label auth_class) (cal_injected sm)
                           (auth_state_value (a_state auth)) (auth_state_value (c_to c))
                           (auth_initiator_value (c_initiator c)) (c_approved_by c) (c_reason c)
                           (Some (auth_is_auto (c_approved_by c) (c_initiator c))) w3
                in (Inr auth2, store_put (c_id c) auth2 sm,
                    emit_audit ''authorization'' (audit_cb sm) rec w4))))"


text \<open>The convenience methods: one call of \<open>transition\<close> each, with fixed arguments.\<close>

type_synonym auth_op =
  "auth_sm \<Rightarrow> world \<Rightarrow> (auth_error + AuthorizationObject) \<times> auth_sm \<times> world"

definition auth_submit_for_approval :: "string \<Rightarrow> AuthInitiator \<Rightarrow> auth_op" where
  "auth_submit_for_approval aid initiator = auth_transition
     \<lparr>c_id = aid, c_to = A_PENDING_APPROVAL, c_event = AE_SUBMITTED_FOR_APPROVAL,
      c_initiator = initiator, c_reason_codes = Some [''submitted_for_review''],
      c_approved_by = None, c_reason = []\<rparr>"

definition auth_approve :: "string \<Rightarrow> string \<Rightarrow> string \<Rightarrow> auth_op" where
  "auth_approve aid approved_by reason = auth_transition
     \<lparr>c_id = aid, c_to = A_ACTIVE, c_event = AE_APPROVED, c_initiator = AI_OPERATOR,
      c_reason_codes = Some [''approved''], c_approved_by = Some approved_by,
      c_reason = reason\<rparr>"

definition auth_reject :: "string \<Rightarrow> string \<Rightarrow> auth_op" where
  "auth_reject aid reason = auth_transition
     \<lparr>c_id = aid, c_to = A_REJECTED, c_event = AE_REJECTED, c_initiator = AI_OPERATOR,
      c_reason_codes = Some [''rejected''], c_approved_by = None, c_reason = reason\<rparr>"

definition auth_restrict :: "string \<Rightarrow> string \<Rightarrow> AuthInitiator \<Rightarrow> auth_op" where
  "auth_restrict aid reason initiator = auth_transition
     \<lparr>c_id = aid, c_to = A_RESTRICTED, c_event = AE_RESTRICTED, c_initiator = initiator,
      c_reason_codes = Some [''scope_restricted''], c_approved_by = None, c_reason = reason\<rparr>"

definition auth_freeze :: "string \<Rightarrow> string \<Rightarrow> AuthInitiator \<Rightarrow> auth_op" where
  "auth_freeze aid reason initiator = auth_transition
     \<lparr>c_id = aid, c_to = A_FROZEN, c_event = AE_FREEZE_APPLIED, c_initiator = initiator,
      c_reason_codes = Some [''frozen''], c_approved_by = None, c_reason = reason\<rparr>"

definition auth_revoke :: "string \<Rightarrow> string \<Rightarrow> string \<Rightarrow> auth_op" where
  "auth_revoke aid approved_by reason = auth_transition
     \<lparr>c_id = aid, c_to = A_REVOKED, c_event = AE_REVOKED, c_initiator = AI_OPERATOR,
      c_reason_codes = Some [''revoked''], c_approved_by = Some approved_by,
      c_reason = reason\<rparr>"

definition auth_recover_to_restricted :: "string \<Rightarrow> string \<Rightarrow> string \<Rightarrow> auth_op" where
  "auth_recover_to_restricted aid approved_by reason = auth_transition
     \<lparr>c_id = aid, c_to = A_RESTRICTED, c_event = AE_RECOVERY_APPROVED,
      c_initiator = AI_RECOVERY_APPROVAL_FLOW,
      c_reason_codes = Some [''conservative_recovery''], c_approved_by = Some approved_by,
      c_reason = reason\<rparr>"

definition auth_recover_to_active :: "string \<Rightarrow> string \<Rightarrow> string \<Rightarrow> auth_op" where
  "auth_recover_to_active aid approved_by reason = auth_transition
     \<lparr>c_id = aid, c_to = A_ACTIVE, c_event = AE_RECOVERY_APPROVED,
      c_initiator = AI_RECOVERY_APPROVAL_FLOW,
      c_reason_codes = Some [''full_recovery''], c_approved_by = Some approved_by,
      c_reason = reason\<rparr>"

definition auth_get_effective :: "auth_sm \<Rightarrow> AuthorizationObject list" where
  "auth_get_effective sm = filter auth_is_effective (store_get_all sm)"

text \<open>The sweep of the mixin with this class's expiry attributes.\<close>

definition auth_expiry_call :: "string \<Rightarrow> auth_call" where
  "auth_expiry_call aid =
     \<lparr>c_id = aid, c_to = A_EXPIRED, c_event = AE_EXPIRED, c_initiator = AI_EXPIRY_GUARDIAN,
      c_reason_codes = Some [''time_expiry''], c_approved_by = None, c_reason = []\<rparr>"

definition auth_check_expiry :: "auth_sm \<Rightarrow> world \<Rightarrow> string list \<times> auth_sm \<times> world" where
  "auth_check_expiry = check_expiry auth_is_terminal a_expires_at_ms authorization_id
     (\<lambda>aid. auth_transition (auth_expiry_call aid))"

section \<open>Persistence\<close>

text \<open>
  \<open>export_state\<close> adds to each \<open>to_dict\<close> the fields it lacks; the others are assigned the
  values they have. \<open>from_dict\<close> reads a dictionary whose present entries have the types that
  \<open>export_state\<close> writes; None stands for the \<open>ValueError\<close> of an unknown state, and for an
  entry of another type, which is outside this model. \<open>import_state\<close> skips what raises.
\<close>

definition auth_export :: "AuthorizationObject \<Rightarrow> pydict" where
  "auth_export a = dict_update (auth_to_dict a)
     [(''transitions'', PList (map PDict (a_transitions a))),
      (''restriction_reason'', PStr (a_restriction_reason a)),
      (''freeze_reason'', PStr (a_freeze_reason a)),
      (''revoke_reason'', PStr (a_revoke_reason a)),
      (''approval_reason'', PStr (a_approval_reason a)),
      (''scope'', PDict (a_scope a)), (''title'', PStr (a_title a)),
      (''description'', PStr (a_description a)), (''created_by'', PStr (a_created_by a)),
      (''approved_by'', opt_str (a_approved_by a)),
      (''expires_at_ms'', opt_int (a_expires_at_ms a))]"

definition auth_export_state :: "auth_sm \<Rightarrow> pydict list" where
  "auth_export_state sm = map auth_export (store_get_all sm)"

definition auth_from_dict :: "pydict \<Rightarrow> 'z env_scheme \<Rightarrow> (AuthorizationObject \<times> 'z env_scheme) option" where
  "auth_from_dict d w = do {
     aid \<leftarrow> as_str (dict_get d ''authorization_id'' (PStr []));
     s \<leftarrow> as_str (dict_get d ''state'' (PStr ''DRAFT''));
     state \<leftarrow> auth_state_of s;
     ver \<leftarrow> as_int (dict_get d ''version'' (PInt 1));
     created \<leftarrow> as_int (dict_get d ''created_at_ms'' (PInt 0));
     updated \<leftarrow> as_int (dict_get d ''updated_at_ms'' (PInt 0));
     expires \<leftarrow> as_opt_int (dict_get d ''expires_at_ms'' PNone);
     scope \<leftarrow> as_dict (dict_get d ''scope'' (PDict []));
     title \<leftarrow> as_str (dict_get d ''title'' (PStr []));
     descr \<leftarrow> as_str (dict_get d ''description'' (PStr []));
     creator \<leftarrow> as_str (dict_get d ''created_by'' (PStr []));
     approver \<leftarrow> as_opt_str (dict_get d ''approved_by'' PNone);
     areason \<leftarrow> as_str (dict_get d ''approval_reason'' (PStr []));
     rreason \<leftarrow> as_str (dict_get d ''restriction_reason'' (PStr []));
     freason \<leftarrow> as_str (dict_get d ''freeze_reason'' (PStr []));
     vreason \<leftarrow> as_str (dict_get d ''revoke_reason'' (PStr []));
     trail \<leftarrow> as_dicts (dict_get d ''transitions'' (PList []));
     Some (auth_post_init
       \<lparr>authorization_id = aid, a_state = state, a_version = ver, a_created_at_ms = created,
        a_updated_at_ms = updated, a_expires_at_ms = expires, a_scope = scope, a_title = title,
        a_description = descr, a_created_by = creator, a_approved_by = approver,
        a_approval_reason = areason, a_restriction_reason = rreason, a_freeze_reason = freason,
        a_revoke_reason = vreason, a_transitions = trail\<rparr> w)
   }"

fun auth_import_state :: "pydict list \<Rightarrow> auth_sm \<Rightarrow> 'z env_scheme \<Rightarrow> nat \<times> auth_sm \<times> 'z env_scheme" where
  "auth_import_state [] sm w = (0, sm, w)"
| "auth_import_state (d # ds) sm w =
     (case auth_from_dict d w of
        None \<Rightarrow> auth_import_state ds sm w
      | Some (a, w1) \<Rightarrow>
          (let (n, sm', w') = auth_import_state ds (store_put (authorization_id a) a sm) w1
           in (Suc n, sm', w')))"

section \<open>The machine keeps its contract\<close>

lemma auth_update_meta_frame [simp]:
  "a_state (auth_update_meta t ap rs a) = a_state a"
  "a_version (auth_update_meta t ap rs a) = a_version a"
  "a_transitions (auth_update_meta t ap rs a) = a_transitions a"
  "authorization_id (auth_update_meta t ap rs a) = authorization_id a"
  "a_expires_at_ms (auth_update_meta t ap rs a) = a_expires_at_ms a"
  "a_scope (auth_update_meta t ap rs a) = a_scope a"
  by (simp_all add: auth_update_meta_def)

lemma auth_update_meta_approved:
  "a_approved_by (auth_update_meta t ap rs a) =
     (if t = A_ACTIVE \<and> str_given ap then ap else a_approved_by a)"
  by (simp add: auth_update_meta_def)

lemma auth_class_simps [simp]:
  "state_value auth_class = auth_state_value" "terminal_states auth_class = auth_terminal_states"
  "forbidden_transitions auth_class = auth_forbidden" "transition_rules auth_class = auth_rules"
  by (simp_all add: auth_class_def)

lemma auth_transition_cases:
  assumes "auth_transition c sm w = (res, sm', w')"
  obtains (refused) e where "res = Inl e" "sm' = sm" "w' = w"
  | (accepted) a x r where
      "res = Inr x" "store_get (c_id c) sm = Some a"
      "permitted auth_class (a_state a) (c_to c) (c_initiator c) (c_approved_by c)"
      "a_state x = c_to c" "a_version x = a_version a + 1" "a_transitions x = a_transitions a @ [r]"
      "authorization_id x = authorization_id a" "a_expires_at_ms x = a_expires_at_ms a"
      "a_approved_by x =
         (if c_to c = A_ACTIVE \<and> str_given (c_approved_by c) then c_approved_by c else a_approved_by a)"
      "\<exists>(w1 :: world) w2. build_transition_record auth_class (a_state a) (c_to c)
                      (Some (authorization_id a)) (Some ''authorization_id'')
                      (auth_event_value (c_event c)) (auth_initiator_value (c_initiator c))
                      (a_version a) (c_reason_codes c) (c_approved_by c) None None [] w1 = (r, w2)"
      "sm' = store_put (c_id c) x sm" "later w w'"
proof (cases "map_of (objects sm) (c_id c)")
  case None
  with assms show ?thesis by (auto simp: auth_transition_def intro: refused)
next
  case (Some a)
  let ?v = "validate_transition auth_class no_extra (a_state a) (c_to c) (c_initiator c) (c_approved_by c) w"
  obtain vr w1 where v: "?v = (vr, w1)" by fastforce
  then have w1: "w1 = w" using validate_no_extra_world by (metis snd_conv)
  show ?thesis
  proof (cases vr)
    case (Inl e)
    with assms Some v w1 show ?thesis by (auto simp: auth_transition_def intro: refused)
  next
    case (Inr rule)
    obtain r w2 where b: "build_transition_record auth_class (a_state a) (c_to c)
                      (Some (authorization_id a)) (Some ''authorization_id'')
                      (auth_event_value (c_event c)) (auth_initiator_value (c_initiator c))
                      (a_version a) (c_reason_codes c) (c_approved_by c) None None [] w = (r, w2)"
      by fastforce
    obtain u w3 where u: "now_ms w2 = (u, w3)" by fastforce
    have l: "later w w2" "later w2 w3"
      using b u later_build later_now_ms by (metis snd_conv)+
    let ?x = "auth_update_meta (c_to c) (c_approved_by c) (c_reason c)
      (a\<lparr>a_state := c_to c, a_version := a_version a + 1,
         a_updated_at_ms := u, a_transitions := a_transitions a @ [r]\<rparr>)"
    have "(res, sm', w') = (Inr ?x, store_put (c_id c) ?x sm,
      emit_audit ''authorization'' (audit_cb sm) r
       (record_change_audit (change_label auth_class) (cal_injected sm)
                           (auth_state_value (a_state a)) (auth_state_value (c_to c))
                           (auth_initiator_value (c_initiator c)) (c_approved_by c) (c_reason c)
                           (Some (auth_is_auto (c_approved_by c) (c_initiator c))) w3))"
      using v Inr w1 b u Some assms[symmetric] by (simp add: auth_transition_def Let_def)
    then have res: "res = Inr ?x" "sm' = store_put (c_id c) ?x sm" and w': "later w3 w'"
      by (auto intro: later_trans[OF later_record_change_audit later_emit_audit])
    have "later w w'" using l w' by (blast intro: later_trans)
    moreover have "permitted auth_class (a_state a) (c_to c) (c_initiator c) (c_approved_by c)"
      using v Inr by (auto dest: validate_ok(1))
    moreover have "store_get (c_id c) sm = Some a" using Some by (simp add: store_get_def)
    ultimately show ?thesis using res b
      by (intro accepted[of ?x a r]) (simp_all add: auth_update_meta_approved, blast)
  qed
qed


lemma auth_record_lawful:
  assumes b: "build_transition_record auth_class f t (Some oid) (Some ''authorization_id'')
      ev (auth_initiator_value i) vb rc ap None None [] w1 = (r, w2)"
    and p: "permitted auth_class f t i ap"
  shows "lawful_record auth_class auth_initiator_value r"
    and "linked (auth_state_value f) [r] (auth_state_value t)"
proof -
  from p obtain rule where rule: "map_of auth_rules (f, t) = Some rule"
    "i \<in> set (allowed_initiators rule)" "requires_approval rule \<longrightarrow> str_given ap"
    "f \<notin> set auth_terminal_states"
    by (auto simp: permitted_def split: option.splits)
  have "''authorization_id'' \<notin> set record_keys" by (simp add: record_keys_def)
  note fields = build_record_fields[OF this b]
  show "linked (auth_state_value f) [r] (auth_state_value t)"
    using fields by simp
  have "lookup_requires_approval auth_class f t = requires_approval rule"
    using rule by (simp add: lookup_requires_approval_def)
  with fields rule show "lawful_record auth_class auth_initiator_value r"
    unfolding lawful_record_def auth_class_simps
    by (intro exI[of _ f] exI[of _ t] exI[of _ rule] exI[of _ i] exI[of _ "opt_str ap"]) simp
qed

interpretation auth: object_machine auth_class auth_initiator_value a_state a_version a_transitions
  auth_transition
proof unfold_locales
  show "sm' = sm \<and> w' = w" if "auth_transition c sm w = (Inl e, sm', w')" for c sm w e sm' w'
    using that by (cases rule: auth_transition_cases) auto
next
  show "\<exists>x0 r. store_get (c_id c) sm = Some x0 \<and>
        permitted auth_class (a_state x0) (c_to c) (c_initiator c) (c_approved_by c) \<and>
        a_state x = c_to c \<and> a_version x = a_version x0 + 1 \<and> a_transitions x = a_transitions x0 @ [r] \<and>
        lawful_record auth_class auth_initiator_value r \<and>
        linked (state_value auth_class (a_state x0)) [r] (state_value auth_class (a_state x)) \<and>
        sm' = store_put (c_id c) x sm \<and> later w w'"
    if "auth_transition c sm w = (Inr x, sm', w')" for c sm w x sm' w'
    using that
  proof (cases rule: auth_transition_cases)
    case (accepted a y r)
    then obtain w1 w2 :: world where b: "build_transition_record auth_class (a_state a) (c_to c)
      (Some (authorization_id a)) (Some ''authorization_id'')
      (auth_event_value (c_event c)) (auth_initiator_value (c_initiator c))
      (a_version a) (c_reason_codes c) (c_approved_by c) None None [] w1 = (r, w2)" by blast
    note law = auth_record_lawful[OF b accepted(3)]
    show ?thesis
      using accepted(1-6,11,12) law by (intro exI[of _ a] exI[of _ r]) simp
  qed simp
next
  show "\<exists>x sm' w'. auth_transition c sm w = (Inr x, sm', w')"
    if "store_get (c_id c) sm = Some x0"
      "permitted auth_class (a_state x0) (c_to c) (c_initiator c) (c_approved_by c)" for c sm w x0
  proof -
    from that(2) obtain rule w1 where "validate_transition auth_class no_extra (a_state x0)
        (c_to c) (c_initiator c) (c_approved_by c) w = (Inr rule, w1)"
      unfolding validate_ok_iff[symmetric, where w = w] by blast
    with that(1) show ?thesis
      by (simp add: auth_transition_def store_get_def Let_def split: prod.splits)
  qed
qed


section \<open>What the rule table allows\<close>

text \<open>The table as rows, in registration order.\<close>

definition auth_rows :: "((AuthState \<times> AuthState) \<times> bool \<times> AuthInitiator list) list" where
  "auth_rows =
    [((A_DRAFT, A_PENDING_APPROVAL), False, AG_OPERATOR_GOV),
     ((A_DRAFT, A_REJECTED), False, AG_OPERATOR_GOV),
     ((A_PENDING_APPROVAL, A_ACTIVE), True, AG_OPERATOR_GOV),
     ((A_PENDING_APPROVAL, A_REJECTED), False, AG_OPERATOR_GOV),
     ((A_ACTIVE, A_RESTRICTED), False, AG_INCIDENT),
     ((A_ACTIVE, A_FROZEN), False, AG_INCIDENT),
     ((A_ACTIVE, A_REVOKED), True, AG_OPERATOR_GOV),
     ((A_ACTIVE, A_EXPIRED), False, AG_EXPIRY),
     ((A_RESTRICTED, A_ACTIVE), True, AG_RECOVERY),
     ((A_RESTRICTED, A_FROZEN), False, AG_INCIDENT),
     ((A_RESTRICTED, A_REVOKED), True, AG_OPERATOR_GOV),
     ((A_RESTRICTED, A_EXPIRED), False, AG_EXPIRY),
     ((A_FROZEN, A_RESTRICTED), True, AG_RECOVERY),
     ((A_FROZEN, A_ACTIVE), True, AG_RECOVERY),
     ((A_FROZEN, A_REVOKED), True, AG_OPERATOR_GOV),
     ((A_FROZEN, A_EXPIRED), False, AG_EXPIRY)]"

lemma auth_rules_rows:
  "auth_rules = map (\<lambda>(k, x). (k, case (k, x) of ((f, t), a, is) \<Rightarrow>
     \<lparr>rule_from = f, rule_to = t, requires_approval = a, allowed_initiators = is\<rparr>)) auth_rows"
  by (simp add: auth_rules_def auth_register_def auth_rows_def)

lemma auth_rows_get:
  "map_of auth_rows (f, t) =
      (case (f, t) of
         (A_DRAFT, A_PENDING_APPROVAL) \<Rightarrow> Some (False, AG_OPERATOR_GOV)
       | (A_DRAFT, A_REJECTED) \<Rightarrow> Some (False, AG_OPERATOR_GOV)
       | (A_PENDING_APPROVAL, A_ACTIVE) \<Rightarrow> Some (True, AG_OPERATOR_GOV)
       | (A_PENDING_APPROVAL, A_REJECTED) \<Rightarrow> Some (False, AG_OPERATOR_GOV)
       | (A_ACTIVE, A_RESTRICTED) \<Rightarrow> Some (False, AG_INCIDENT)
       | (A_ACTIVE, A_FROZEN) \<Rightarrow> Some (False, AG_INCIDENT)
       | (A_ACTIVE, A_REVOKED) \<Rightarrow> Some (True, AG_OPERATOR_GOV)
       | (A_ACTIVE, A_EXPIRED) \<Rightarrow> Some (False, AG_EXPIRY)
       | (A_RESTRICTED, A_ACTIVE) \<Rightarrow> Some (True, AG_RECOVERY)
       | (A_RESTRICTED, A_FROZEN) \<Rightarrow> Some (False, AG_INCIDENT)
       | (A_RESTRICTED, A_REVOKED) \<Rightarrow> Some (True, AG_OPERATOR_GOV)
       | (A_RESTRICTED, A_EXPIRED) \<Rightarrow> Some (False, AG_EXPIRY)
       | (A_FROZEN, A_RESTRICTED) \<Rightarrow> Some (True, AG_RECOVERY)
       | (A_FROZEN, A_ACTIVE) \<Rightarrow> Some (True, AG_RECOVERY)
       | (A_FROZEN, A_REVOKED) \<Rightarrow> Some (True, AG_OPERATOR_GOV)
       | (A_FROZEN, A_EXPIRED) \<Rightarrow> Some (False, AG_EXPIRY)
       | _ \<Rightarrow> None)"
  unfolding auth_rows_def by (cases f; cases t; simp)

lemma auth_rules_get:
  "map_of auth_rules =
    (\<lambda>(f, t). map_option (\<lambda>(a, is). \<lparr>rule_from = f, rule_to = t, requires_approval = a,
                                   allowed_initiators = is\<rparr>)
      (case (f, t) of
         (A_DRAFT, A_PENDING_APPROVAL) \<Rightarrow> Some (False, AG_OPERATOR_GOV)
       | (A_DRAFT, A_REJECTED) \<Rightarrow> Some (False, AG_OPERATOR_GOV)
       | (A_PENDING_APPROVAL, A_ACTIVE) \<Rightarrow> Some (True, AG_OPERATOR_GOV)
       | (A_PENDING_APPROVAL, A_REJECTED) \<Rightarrow> Some (False, AG_OPERATOR_GOV)
       | (A_ACTIVE, A_RESTRICTED) \<Rightarrow> Some (False, AG_INCIDENT)
       | (A_ACTIVE, A_FROZEN) \<Rightarrow> Some (False, AG_INCIDENT)
       | (A_ACTIVE, A_REVOKED) \<Rightarrow> Some (True, AG_OPERATOR_GOV)
       | (A_ACTIVE, A_EXPIRED) \<Rightarrow> Some (False, AG_EXPIRY)
       | (A_RESTRICTED, A_ACTIVE) \<Rightarrow> Some (True, AG_RECOVERY)
       | (A_RESTRICTED, A_FROZEN) \<Rightarrow> Some (False, AG_INCIDENT)
       | (A_RESTRICTED, A_REVOKED) \<Rightarrow> Some (True, AG_OPERATOR_GOV)
       | (A_RESTRICTED, A_EXPIRED) \<Rightarrow> Some (False, AG_EXPIRY)
       | (A_FROZEN, A_RESTRICTED) \<Rightarrow> Some (True, AG_RECOVERY)
       | (A_FROZEN, A_ACTIVE) \<Rightarrow> Some (True, AG_RECOVERY)
       | (A_FROZEN, A_REVOKED) \<Rightarrow> Some (True, AG_OPERATOR_GOV)
       | (A_FROZEN, A_EXPIRED) \<Rightarrow> Some (False, AG_EXPIRY)
       | _ \<Rightarrow> None))"
  by (rule ext, clarify) (simp only: auth_rules_rows map_of_rows auth_rows_get prod.case)

lemmas auth_groups = AG_OPERATOR_GOV_def AG_INCIDENT_def AG_RECOVERY_def AG_EXPIRY_def

lemmas auth_permitted = permitted_def auth_rules_get auth_terminal_states_def auth_forbidden_def
  auth_groups

text \<open>Every edge into an effective state from outside needs a named approver.\<close>

lemma auth_permitted_active:
  assumes "permitted auth_class f A_ACTIVE i ap"
  shows "str_given ap \<and>
    (f = A_PENDING_APPROVAL \<and> i \<in> {AI_AUTHORIZATION_GOVERNANCE, AI_OPERATOR} \<or>
     f \<in> {A_RESTRICTED, A_FROZEN} \<and> i \<in> {AI_RECOVERY_APPROVAL_FLOW, AI_OPERATOR})"
  using assms by (cases f; simp add: auth_permitted)

lemma auth_permitted_from:
  assumes "permitted auth_class f t i ap" "t \<in> {A_RESTRICTED, A_FROZEN, A_REVOKED, A_EXPIRED}"
  shows "f \<in> {A_ACTIVE, A_RESTRICTED, A_FROZEN}"
  using assms by (cases f; cases t; simp add: auth_permitted)

lemma auth_permitted_expiry:
  "permitted auth_class f A_EXPIRED AI_EXPIRY_GUARDIAN None \<longleftrightarrow>
   f \<in> {A_ACTIVE, A_RESTRICTED, A_FROZEN}"
  by (cases f; simp add: auth_permitted)

text \<open>Guard 2 forbids no edge that the rule table has: it only chooses the message.\<close>

lemma auth_forbidden_redundant:
  "(f, t) \<in> set auth_forbidden \<Longrightarrow> map_of auth_rules (f, t) = None"
  by (auto simp: auth_forbidden_def auth_rules_get)

lemma auth_terminal_no_rule:
  "f \<in> set auth_terminal_states \<Longrightarrow> map_of auth_rules (f, t) = None"
  by (cases f; cases t; simp add: auth_terminal_states_def auth_rules_get)

section \<open>Histories\<close>

text \<open>
  One step of the machine, in any environment: between two steps other components may run,
  read the clock and draw identifiers. A new draft's id is assumed unused (\<open>uuid4\<close>).
\<close>

inductive auth_step :: "auth_sm \<Rightarrow> auth_sm \<Rightarrow> bool" where
  created: "auth_create_draft title scope creator descr expires sm w = (a, sm', w') \<Longrightarrow>
    store_get (authorization_id a) sm = None \<Longrightarrow> auth_step sm sm'"
| called: "auth_transition c sm w = (res, sm', w') \<Longrightarrow> auth_step sm sm'"
| swept: "auth_check_expiry sm w = (ids, sm', w') \<Longrightarrow> auth_step sm sm'"
| connected: "auth_step sm (set_change_audit_log sm)"

inductive auth_reachable :: "auth_sm \<Rightarrow> bool" where
  start: "auth_reachable (new_store cb)"
| step: "auth_reachable sm \<Longrightarrow> auth_step sm sm' \<Longrightarrow> auth_reachable sm'"

text \<open>An approval on the record: the step out of the approval queue with its approver.\<close>

definition approval_record :: "pydict \<Rightarrow> bool" where
  "approval_record r \<longleftrightarrow>
     map_of r ''previous_status'' = Some (PStr ''PENDING_APPROVAL'') \<and>
     map_of r ''next_status'' = Some (PStr ''ACTIVE'') \<and>
     (\<exists>who. who \<noteq> [] \<and> map_of r ''approved_by'' = Some (PStr who)) \<and>
     map_of r ''initiated_by'' \<in> {Some (PStr ''AuthorizationGovernance''), Some (PStr ''Operator'')}"

definition was_approved :: "AuthorizationObject \<Rightarrow> bool" where
  "was_approved a \<longleftrightarrow> str_given (a_approved_by a) \<and> (\<exists>r\<in>set (a_transitions a). approval_record r)"

definition auth_sound :: "AuthorizationObject \<Rightarrow> bool" where
  "auth_sound a \<longleftrightarrow> authorization_id a \<noteq> [] \<and> a_transitions a \<noteq> [] \<and>
     trail_ok auth_class auth_initiator_value a_state a_version a_transitions a \<and>
     (a_state a \<in> {A_ACTIVE, A_RESTRICTED, A_FROZEN, A_REVOKED, A_EXPIRED} \<longrightarrow> was_approved a)"

definition auth_inv :: "auth_sm \<Rightarrow> bool" where
  "auth_inv sm \<longleftrightarrow> keyed authorization_id sm \<and> (\<forall>k a. store_get k sm = Some a \<longrightarrow> auth_sound a)"

lemma auth_inv_new: "auth_inv (new_store cb)"
  by (simp add: auth_inv_def keyed_new) (simp add: new_store_def store_get_def)

lemma auth_inv_put: "auth_inv sm \<Longrightarrow> auth_sound a \<Longrightarrow> authorization_id a = k \<Longrightarrow> auth_inv (store_put k a sm)"
  by (simp add: auth_inv_def keyed_put store_get_put)

lemma auth_create_draft_shape:
  assumes "auth_create_draft title scope creator descr expires sm w = (a, sm', w')"
  shows "sm' = store_put (authorization_id a) a sm" "auth_sound a" "a_state a = A_DRAFT"
    "a_approved_by a = None" "a_expires_at_ms a = expires" "a_scope a = scope" "later w w'"
proof -
  obtain h w1 where h: "fresh_hex w = (h, w1)" by fastforce
  obtain n w2 where n: "now_ms w1 = (n, w2)" by fastforce
  let ?id = "''auth:'' @ take 12 h"
  obtain r w3 where b: "build_transition_record auth_class A_DRAFT A_DRAFT (Some ?id)
     (Some ''authorization_id'') (auth_event_value AE_DRAFT_CREATED)
     (auth_initiator_value AI_OPERATOR) 1 (Some [''initial_draft'']) None
     (Some ''NONE'') (Some (auth_state_value A_DRAFT)) [] w2 = (r, w3)" by fastforce
  have "''authorization_id'' \<notin> set record_keys" by (simp add: record_keys_def)
  note rec = build_record_fields[OF this b]
  have post: "auth_post_init
            \<lparr>authorization_id = [], a_state = A_DRAFT, a_version = 1, a_created_at_ms = 0,
             a_updated_at_ms = 0, a_expires_at_ms = expires, a_scope = scope,
             a_title = title, a_description = descr, a_created_by = creator,
             a_approved_by = None, a_approval_reason = [], a_restriction_reason = [],
             a_freeze_reason = [], a_revoke_reason = [], a_transitions = []\<rparr> w =
     (\<lparr>authorization_id = ?id, a_state = A_DRAFT, a_version = 1, a_created_at_ms = n,
             a_updated_at_ms = n, a_expires_at_ms = expires, a_scope = scope,
             a_title = title, a_description = descr, a_created_by = creator,
             a_approved_by = None, a_approval_reason = [], a_restriction_reason = [],
             a_freeze_reason = [], a_revoke_reason = [], a_transitions = []\<rparr>, w2)"
    using h n by (simp add: auth_post_init_def)
  note a = assms[unfolded auth_create_draft_def post Let_def prod.case, simplified, unfolded b[simplified], simplified]
  show "sm' = store_put (authorization_id a) a sm" "a_state a = A_DRAFT"
    "a_approved_by a = None" "a_expires_at_ms a = expires" "a_scope a = scope"
    using a by auto
  show "auth_sound a"
    using a rec by (auto simp: auth_sound_def trail_ok_def)
  have "later w w1" "later w1 w2" "later w2 w3"
    using h n b by (auto simp: fresh_hex_def now_ms_def later_def build_transition_record_def Let_def)
  moreover have "later w3 w'" using a by auto
  ultimately show "later w w'" by (blast intro: later_trans)
qed

lemma auth_inv_transition:
  assumes "auth_inv sm" "auth_transition c sm w = (res, sm', w')"
  shows "auth_inv sm'"
  using assms(2)
proof (cases rule: auth_transition_cases)
  case refused
  with assms show ?thesis by simp
next
  case (accepted a x r)
  from assms(1) accepted have a: "auth_sound a" "authorization_id a = c_id c"
    by (auto simp: auth_inv_def dest: keyed_get)
  from accepted(10) obtain w1 w2 :: world where b: "build_transition_record auth_class (a_state a) (c_to c)
      (Some (authorization_id a)) (Some ''authorization_id'')
      (auth_event_value (c_event c)) (auth_initiator_value (c_initiator c))
      (a_version a) (c_reason_codes c) (c_approved_by c) None None [] w1 = (r, w2)" by blast
  have "''authorization_id'' \<notin> set record_keys" by (simp add: record_keys_def)
  note rec = build_record_fields[OF this b]
  have app: "was_approved x" if "a_state x \<in> {A_ACTIVE, A_RESTRICTED, A_FROZEN, A_REVOKED, A_EXPIRED}"
  proof (cases "a_state a = A_PENDING_APPROVAL")
    case True
    with that accepted have "c_to c = A_ACTIVE"
      using auth_permitted_from[OF accepted(3)] by auto
    with accepted True show ?thesis
      using auth_permitted_active[of "a_state a" "c_initiator c" "c_approved_by c"] rec
      by (auto simp: was_approved_def approval_record_def str_given_iff opt_str_def)
  next
    case False
    with that accepted have "a_state a \<in> {A_ACTIVE, A_RESTRICTED, A_FROZEN}"
      using auth_permitted_from[OF accepted(3)]
        auth_permitted_active[of "a_state a" "c_initiator c" "c_approved_by c"] by auto
    with a have "was_approved a" by (auto simp: auth_sound_def)
    with accepted show ?thesis by (auto simp: was_approved_def)
  qed
  have "a_transitions x \<noteq> [] \<and> trail_ok auth_class auth_initiator_value a_state a_version a_transitions x"
  proof (rule auth.trail_ok_step[OF _ assms(2)])
    show "a_transitions y \<noteq> [] \<and> trail_ok auth_class auth_initiator_value a_state a_version a_transitions y"
      if "store_get j sm = Some y" for j y
      using assms(1) that by (auto simp: auth_inv_def auth_sound_def)
    show "store_get (c_id c) sm' = Some x" using accepted by (simp add: store_get_put)
  qed
  with app a accepted have "auth_sound x" by (simp add: auth_sound_def)
  with auth_inv_put[OF assms(1) this] accepted a show ?thesis by simp
qed

lemma auth_check_expiry_inv:
  assumes "\<And>c sm w r sm' w'. P sm \<Longrightarrow> auth_transition c sm w = (r, sm', w') \<Longrightarrow> P sm'"
    and "P sm" "auth_check_expiry sm w = (ids, sm', w')"
  shows "P sm'"
  using assms(3) unfolding auth_check_expiry_def
  by (rule check_expiry_inv[of P, rotated 2]) (use assms(1,2) in blast)+

lemma auth_inv_step:
  assumes "auth_step sm sm'" "auth_inv sm"
  shows "auth_inv sm'"
  using assms
proof (induction rule: auth_step.induct)
  case (created title scope creator descr expires sm w a sm' w')
  then show ?case using auth_create_draft_shape[OF created(1)] by (simp add: auth_inv_put)
next
  case (called c sm w res sm' w')
  then show ?case by (rule auth_inv_transition[rotated])
next
  case (swept sm w ids sm' w')
  then show ?case
    by (blast intro: auth_check_expiry_inv[of auth_inv] auth_inv_transition)
next
  case (connected sm)
  then show ?case
    by (simp add: auth_inv_def keyed_def store_get_def set_change_audit_log_def)
qed

lemma auth_reachable_inv: "auth_reachable sm \<Longrightarrow> auth_inv sm"
  by (induction rule: auth_reachable.induct) (auto intro: auth_inv_new auth_inv_step)


lemma auth_step_terminal:
  assumes "auth_step sm sm'" "store_get k sm = Some a" "auth_is_terminal a"
  shows "store_get k sm' = Some a"
  using assms
proof (induction rule: auth_step.induct)
  case (created title scope creator descr expires sm w b sm' w')
  then show ?case using auth_create_draft_shape(1)[OF created(1)] by (auto simp: store_get_put)
next
  case (called c sm w res sm' w')
  then show ?case by (intro auth.terminal_object_fixed[OF _ _ called(1)]) (simp_all add: auth_is_terminal_def)
next
  case (swept sm w ids sm' w')
  have keep: "store_get k sm2 = Some a"
    if "store_get k sm1 = Some a" "auth_transition c sm1 w1 = (r, sm2, w2)"
    for c sm1 w1 r sm2 w2
    using auth.terminal_object_fixed[OF that(1) _ that(2)] swept(3) by (simp add: auth_is_terminal_def)
  show ?case
    by (rule auth_check_expiry_inv[of "\<lambda>s. store_get k s = Some a", OF keep swept(2,1)])
next
  case (connected sm)
  then show ?case by (simp add: store_get_def set_change_audit_log_def)
qed

lemma auth_export_fields [simp]:
  "dict_get (auth_export a) ''authorization_id'' v = PStr (authorization_id a)"
  "dict_get (auth_export a) ''state'' v = PStr (auth_state_value (a_state a))"
  "dict_get (auth_export a) ''version'' v = PInt (a_version a)"
  "dict_get (auth_export a) ''created_at_ms'' v = PInt (a_created_at_ms a)"
  "dict_get (auth_export a) ''updated_at_ms'' v = PInt (a_updated_at_ms a)"
  "dict_get (auth_export a) ''expires_at_ms'' v = opt_int (a_expires_at_ms a)"
  "dict_get (auth_export a) ''scope'' v = PDict (a_scope a)"
  "dict_get (auth_export a) ''title'' v = PStr (a_title a)"
  "dict_get (auth_export a) ''description'' v = PStr (a_description a)"
  "dict_get (auth_export a) ''created_by'' v = PStr (a_created_by a)"
  "dict_get (auth_export a) ''approved_by'' v = opt_str (a_approved_by a)"
  "dict_get (auth_export a) ''approval_reason'' v = PStr (a_approval_reason a)"
  "dict_get (auth_export a) ''restriction_reason'' v = PStr (a_restriction_reason a)"
  "dict_get (auth_export a) ''freeze_reason'' v = PStr (a_freeze_reason a)"
  "dict_get (auth_export a) ''revoke_reason'' v = PStr (a_revoke_reason a)"
  "dict_get (auth_export a) ''transitions'' v = PList (map PDict (a_transitions a))"
  by (simp_all add: dict_get_def auth_export_def auth_to_dict_def)

lemma auth_state_of_value [simp]: "auth_state_of (auth_state_value s) = Some s"
  by (cases s) (simp_all add: auth_state_of_def auth_states_def)

lemma auth_from_export:
  assumes "authorization_id a \<noteq> []" "a_created_at_ms a \<noteq> 0"
  shows "auth_from_dict (auth_export a) w = Some (a, w)"
  using assms by (simp add: auth_from_dict_def auth_post_init_def)

lemma auth_import_step:
  "authorization_id a \<noteq> [] \<Longrightarrow> a_created_at_ms a \<noteq> 0 \<Longrightarrow>
   auth_import_state (auth_export a # ds) sm w =
     (let (n, sm', w') = auth_import_state ds (store_put (authorization_id a) a sm) w
      in (Suc n, sm', w'))"
  by (simp add: auth_import_state.simps auth_from_export)

declare auth_import_state.simps [simp del]

lemma auth_import_exports:
  assumes "\<And>k a. (k, a) \<in> set d \<Longrightarrow> authorization_id a = k \<and> k \<noteq> [] \<and> a_created_at_ms a \<noteq> 0"
    and "distinct (map fst (pre @ d))" "objects sm = pre"
  shows "auth_import_state (map auth_export (map snd d)) sm w = (length d, sm\<lparr>objects := pre @ d\<rparr>, w)"
  using assms
proof (induction d arbitrary: pre sm)
  case Nil
  then show ?case by (simp add: auth_import_state.simps)
next
  case (Cons p d)
  obtain k a where p: "p = (k, a)" by fastforce
  have a: "authorization_id a = k" "k \<noteq> []" "a_created_at_ms a \<noteq> 0"
    using Cons.prems(1)[of k a] p by auto
  have "map_of pre k = None"
    using Cons.prems(2) p by (auto simp: map_of_eq_None_iff)
  then have put: "store_put k a sm = sm\<lparr>objects := pre @ [(k, a)]\<rparr>"
    using Cons.prems(3) by (simp add: store_put_def update_absent)
  have "auth_import_state (map auth_export (map snd d)) (store_put k a sm) w =
     (length d, (store_put k a sm)\<lparr>objects := (pre @ [(k, a)]) @ d\<rparr>, w)"
  proof (rule Cons.IH)
    show "authorization_id b = i \<and> i \<noteq> [] \<and> a_created_at_ms b \<noteq> 0" if "(i, b) \<in> set d" for i b
      using Cons.prems(1)[of i b] that by simp
    show "distinct (map fst ((pre @ [(k, a)]) @ d))"
      using Cons.prems(2) p by simp
    show "objects (store_put k a sm) = pre @ [(k, a)]"
      using put by simp
  qed
  then have "auth_import_state (map auth_export (map snd d)) (store_put k a sm) w =
     (length d, sm\<lparr>objects := pre @ p # d\<rparr>, w)"
    using put p by simp
  then show ?case
    using p a auth_import_step[of a "map auth_export (map snd d)" sm w] by simp
qed

lemma auth_transition_world:
  assumes "auth_transition c sm w = (Inr x, sm', w')" "store_get (c_id c) sm = Some a"
  shows "\<exists>r v. w' = emit_audit ''authorization'' (audit_cb sm) r
       (record_change_audit ''Authorization'' (cal_injected sm)
                           (auth_state_value (a_state a)) (auth_state_value (c_to c))
                           (auth_initiator_value (c_initiator c)) (c_approved_by c) (c_reason c)
                           (Some (auth_is_auto (c_approved_by c) (c_initiator c))) v) \<and>
       w_cal v = w_cal w \<and> w_out v = w_out w \<and> a_transitions x = a_transitions a @ [r]"
proof -
  obtain rule w1 where v: "validate_transition auth_class no_extra (a_state a) (c_to c)
      (c_initiator c) (c_approved_by c) w = (Inr rule, w1)"
    using assms by (auto simp: auth_transition_def store_get_def split: prod.splits sum.splits)
  then have w1: "w1 = w" using validate_no_extra_world by (metis snd_conv)
  obtain r w2 where b: "build_transition_record auth_class (a_state a) (c_to c)
                      (Some (authorization_id a)) (Some ''authorization_id'')
                      (auth_event_value (c_event c)) (auth_initiator_value (c_initiator c))
                      (a_version a) (c_reason_codes c) (c_approved_by c) None None [] w = (r, w2)"
    by fastforce
  obtain u w3 where u: "now_ms w2 = (u, w3)" by fastforce
  have frame: "w_cal w3 = w_cal w" "w_out w3 = w_out w"
    using b u by (auto simp: build_transition_record_def Let_def now_ms_def fresh_hex_def)
  show ?thesis
    using v w1 b u frame assms
    by (intro exI[of _ r] exI[of _ w3])
      (auto simp: auth_transition_def store_get_def Let_def auth_class_def)
qed

section \<open>Properties\<close>

text \<open>A concrete history for the witnesses: one authorization is drafted, submitted and
  approved; its expiry lies at five seconds, and each clock reading advances by one second.\<close>

definition demo_auth_id :: string where
  "demo_auth_id = ''auth:00000000''"

definition demo_auth_draft :: "auth_sm" where
  "demo_auth_draft = fst (snd (auth_create_draft ''paper'' [] ''op'' [] (Some 5000)
     (new_store True) (sample_world 1)))"

definition demo_auth_pending :: "auth_sm" where
  "demo_auth_pending = fst (snd (auth_submit_for_approval demo_auth_id AI_OPERATOR demo_auth_draft
     (sample_world 2)))"

definition demo_auth :: "auth_sm" where
  "demo_auth = fst (snd (auth_approve demo_auth_id ''op'' ''ok'' demo_auth_pending
     (sample_world 3)))"

definition demo_auth_object :: "AuthorizationObject" where
  "demo_auth_object = the (store_get demo_auth_id demo_auth)"

lemma auth_step_transition: "auth_step sm (fst (snd (auth_transition c sm w)))"
  by (metis auth_step.called prod.collapse)

lemma demo_auth_reachable: "auth_reachable demo_auth"
proof -
  obtain a sm w where d: "auth_create_draft ''paper'' [] ''op'' [] (Some 5000)
     (new_store True) (sample_world 1) = (a, sm, w)" by (metis prod_cases3)
  have "auth_step (new_store True) sm"
    using d by (rule auth_step.created) (simp add: store_get_def new_store_def)
  then have "auth_reachable demo_auth_draft"
    using auth_reachable.start auth_reachable.step d by (auto simp: demo_auth_draft_def)
  then show ?thesis
    unfolding demo_auth_def demo_auth_pending_def auth_submit_for_approval_def auth_approve_def
    by (intro auth_reachable.step[OF _ auth_step_transition])
qed

lemma demo_auth_eval:
  "map (\<lambda>(k, a). (k, a_state a, a_expires_at_ms a, a_created_at_ms a)) (objects demo_auth) =
     [(demo_auth_id, A_ACTIVE, Some 5000, 1000)]"
  by code_simp

lemma demo_auth_get:
  "store_get demo_auth_id demo_auth = Some demo_auth_object"
  "store_get_all demo_auth = [demo_auth_object]"
  "a_state demo_auth_object = A_ACTIVE" "a_expires_at_ms demo_auth_object = Some 5000"
  "a_created_at_ms demo_auth_object = 1000"
proof -
  obtain a where a: "objects demo_auth = [(demo_auth_id, a)]" "a_state a = A_ACTIVE"
    "a_expires_at_ms a = Some 5000" "a_created_at_ms a = 1000"
    using demo_auth_eval by (cases "objects demo_auth") auto
  then have "demo_auth_object = a"
    by (simp add: demo_auth_object_def store_get_def)
  with a show "store_get demo_auth_id demo_auth = Some demo_auth_object"
    "store_get_all demo_auth = [demo_auth_object]"
    "a_state demo_auth_object = A_ACTIVE" "a_expires_at_ms demo_auth_object = Some 5000"
    "a_created_at_ms demo_auth_object = 1000"
    by (simp_all add: store_get_def store_get_all_def)
qed

text \<open>C5: However the authorization machine is used (drafts, transitions by anyone, expiry
  sweeps, in any order and interleaving; imports of saved state apart), every authorization it reports as effective has a
  non-empty approver on file, and its audit trail holds the step from PENDING_APPROVAL to
  ACTIVE with a named approver and an initiator that the rule table allows.\<close>

theorem auth_effective_approved:
  assumes "auth_reachable sm" "a \<in> set (auth_get_effective sm)"
  shows "was_approved a"
proof -
  have "auth_inv sm" using assms(1) by (rule auth_reachable_inv)
  with assms(2) show ?thesis
    by (auto simp: auth_inv_def auth_get_effective_def auth_is_effective_def auth_sound_def
        auth_effective_states_def keyed_all(2))
qed

lemma auth_effective_approved_witness: "was_approved demo_auth_object"
  by (rule auth_effective_approved[OF demo_auth_reachable])
    (simp add: auth_get_effective_def demo_auth_get auth_is_effective_def auth_effective_states_def)

text \<open>In every reachable store an authorization sits under its own id, its version is the
  length of its audit trail, the trail leads from NONE through linked states to the current
  state, and every record after the creation documents an edge of the rule table taken by an
  allowed initiator, with an approver wherever the rule demands one.\<close>

theorem auth_trail_replays:
  assumes "auth_reachable sm" "store_get k sm = Some a"
  shows "authorization_id a = k \<and> a_version a = int (length (a_transitions a)) \<and>
    linked ''NONE'' (a_transitions a) (auth_state_value (a_state a)) \<and>
    (\<forall>r \<in> set (tl (a_transitions a)). lawful_record auth_class auth_initiator_value r)"
proof -
  have "auth_inv sm" using assms(1) by (rule auth_reachable_inv)
  with assms(2) show ?thesis
    by (auto simp: auth_inv_def auth_sound_def trail_ok_def dest: keyed_get)
qed

lemma auth_trail_replays_witness:
  "linked ''NONE'' (a_transitions demo_auth_object) ''ACTIVE''"
  using auth_trail_replays[OF demo_auth_reachable demo_auth_get(1)] by (simp add: demo_auth_get)

text \<open>A revoked, expired or rejected authorization is final: no sequence of operations of
  the machine changes anything about it.\<close>

theorem auth_terminal_final:
  assumes "auth_step\<^sup>*\<^sup>* sm sm'" "store_get k sm = Some a" "auth_is_terminal a"
  shows "store_get k sm' = Some a"
  using assms by (induction rule: rtranclp_induct) (auto intro: auth_step_terminal)

definition demo_auth_revoked :: "auth_sm" where
  "demo_auth_revoked = fst (snd (auth_revoke demo_auth_id ''op'' [] demo_auth (sample_world 4)))"

lemma demo_auth_revoked_get:
  "\<exists>a. store_get demo_auth_id demo_auth_revoked = Some a \<and> a_state a = A_REVOKED"
proof -
  have "map (\<lambda>(k, a). (k, a_state a)) (objects demo_auth_revoked) = [(demo_auth_id, A_REVOKED)]"
    by code_simp
  then show ?thesis by (cases "objects demo_auth_revoked") (auto simp: store_get_def)
qed

lemma auth_terminal_final_witness:
  "store_get demo_auth_id (fst (snd (auth_recover_to_active demo_auth_id ''op'' [] demo_auth_revoked
     (sample_world 9)))) = store_get demo_auth_id demo_auth_revoked"
proof -
  obtain a where a: "store_get demo_auth_id demo_auth_revoked = Some a" "a_state a = A_REVOKED"
    using demo_auth_revoked_get by blast
  show ?thesis
    unfolding auth_recover_to_active_def a(1)
    by (rule auth_terminal_final[OF r_into_rtranclp[where r = auth_step, OF auth_step_transition] a(1)])
      (simp add: auth_is_terminal_def auth_terminal_states_def a)
qed

text \<open>C28: \<open>transition\<close> succeeds exactly when the authorization exists and the guards permit
  the step; a refused call leaves the store and the world (clock, log, audit output) as they
  were.\<close>

theorem auth_transition_exact:
  "case auth_transition c sm w of
     (Inr x, sm', w') \<Rightarrow>
       (\<exists>a. store_get (c_id c) sm = Some a \<and>
          permitted auth_class (a_state a) (c_to c) (c_initiator c) (c_approved_by c) \<and>
          a_state x = c_to c \<and> a_version x = a_version a + 1 \<and> sm' = store_put (c_id c) x sm)
   | (Inl e, sm', w') \<Rightarrow> sm' = sm \<and> w' = w \<and>
       (case store_get (c_id c) sm of None \<Rightarrow> e = ObjectNotFound (c_id c)
        | Some a \<Rightarrow> \<not> permitted auth_class (a_state a) (c_to c) (c_initiator c) (c_approved_by c))"
proof -
  obtain res sm' w' where t: "auth_transition c sm w = (res, sm', w')" by (metis prod_cases3)
  show ?thesis
  proof (cases res)
    case (Inr x)
    then show ?thesis
      using t auth.accepted[of c sm w x sm' w'] by auto
  next
    case (Inl e)
    have "\<not> permitted auth_class (a_state a) (c_to c) (c_initiator c) (c_approved_by c)"
      if "store_get (c_id c) sm = Some a" for a
      using auth.complete[OF that, of w] t Inl by auto
    moreover have "e = ObjectNotFound (c_id c)" if "store_get (c_id c) sm = None"
      using that t Inl by (simp add: auth_transition_def store_get_def)
    ultimately show ?thesis
      using t Inl auth.refused[of c sm w e sm' w'] by (auto split: option.splits)
  qed
qed

text \<open>One expiry sweep, on a clock that does not run backwards. An authorization that is
  ACTIVE, RESTRICTED or FROZEN and past its expiry when the sweep starts becomes EXPIRED, with
  its version raised by one; a terminal one, a DRAFT or PENDING_APPROVAL one, one without an expiry,
  and one whose expiry has not passed when the sweep ends, is left as it was.\<close>

theorem auth_expiry_exact:
  assumes "auth_reachable sm" "clock_mono w" "store_get k sm = Some a"
    and "auth_check_expiry sm w = (ids, sm', w')"
  shows "(a_state a \<in> {A_ACTIVE, A_RESTRICTED, A_FROZEN} \<and>
       (\<exists>t. a_expires_at_ms a = Some t \<and> t < millis (clock w (ticks w))) \<longrightarrow>
         k \<in> set ids \<and> (\<exists>b. store_get k sm' = Some b \<and> a_state b = A_EXPIRED \<and>
                                 a_version b = a_version a + 1)) \<and>
    (a_state a \<notin> {A_ACTIVE, A_RESTRICTED, A_FROZEN} \<or> a_expires_at_ms a = None \<or>
       millis (clock w (ticks w')) \<le> the (a_expires_at_ms a) \<longrightarrow>
         k \<notin> set ids \<and> store_get k sm' = Some a)"
proof -
  have keyed: "keyed authorization_id sm"
    using auth_reachable_inv[OF assms(1)] by (simp add: auth_inv_def)
  have mk: "c_id (auth_expiry_call i) = i" "c_to (auth_expiry_call i) = A_EXPIRED"
    "c_initiator (auth_expiry_call i) = AI_EXPIRY_GUARDIAN" "c_approved_by (auth_expiry_call i) = None"
    for i by (simp_all add: auth_expiry_call_def)
  note spec = auth.check_expiry_spec[OF keyed mk assms(4)[unfolded auth_check_expiry_def],
      unfolded auth_permitted_expiry]
  have mono: "i \<le> j \<Longrightarrow> millis (clock w i) \<le> millis (clock w j)" for i j
    using assms(2) by (simp add: clock_mono_def)
  have in_ids: "k \<in> set ids" if "a_state a \<in> {A_ACTIVE, A_RESTRICTED, A_FROZEN}"
    "a_expires_at_ms a = Some t" "t < millis (clock w (ticks w))" for t
  proof (rule spec(3)[OF assms(3) that(1) _ that(2)])
    show "\<not> auth_is_terminal a"
      using that(1) by (auto simp: auth_is_terminal_def auth_terminal_states_def)
    show "t < millis (clock w n)" if "ticks w \<le> n" "n < ticks w'" for n
      using mono[of "ticks w" n] that \<open>t < _\<close> by simp
  qed
  have out: "k \<notin> set ids" if "a_state a \<notin> {A_ACTIVE, A_RESTRICTED, A_FROZEN} \<or>
      a_expires_at_ms a = None \<or> millis (clock w (ticks w')) \<le> the (a_expires_at_ms a)"
  proof
    assume "k \<in> set ids"
    from spec(1)[OF this] assms(3) obtain t n where
      "a_state a \<in> {A_ACTIVE, A_RESTRICTED, A_FROZEN}" "a_expires_at_ms a = Some t" "n < ticks w'"
      "t < millis (clock w n)" by auto
    with that mono[of n "ticks w'"] show False by auto
  qed
  have moved: "\<exists>b. store_get k sm' = Some b \<and> a_state b = A_EXPIRED \<and> a_version b = a_version a + 1"
    if "k \<in> set ids"
    using spec(1)[OF that] assms(3) by auto
  have kept: "store_get k sm' = Some a" if "k \<notin> set ids"
    using spec(2)[OF that] assms(3) by simp
  from in_ids out moved kept show ?thesis by blast
qed

lemma auth_expiry_exact_witness:
  "demo_auth_id \<in> set (fst (auth_check_expiry demo_auth (sample_world 6)))"
proof -
  obtain ids sm' w' where e: "auth_check_expiry demo_auth (sample_world 6) = (ids, sm', w')"
    by (metis prod_cases3)
  show ?thesis
    using auth_expiry_exact[OF demo_auth_reachable sample_clock_mono demo_auth_get(1) e] e
    by (simp add: demo_auth_get sample_world_now)
qed

text \<open>Persistence is a round trip: importing into a fresh machine what a reachable machine
  exported restores exactly its authorizations, in order, and counts them (the creation time
  must not be 0, which the constructor takes as missing).\<close>

theorem auth_roundtrip:
  assumes "auth_reachable sm" "\<forall>a \<in> set (store_get_all sm). a_created_at_ms a \<noteq> 0"
  shows "auth_import_state (auth_export_state sm) (new_store cb) w =
    (length (objects sm), (new_store cb)\<lparr>objects := objects sm\<rparr>, w)"
proof -
  have inv: "auth_inv sm" using assms(1) by (rule auth_reachable_inv)
  then have d: "distinct (map fst (objects sm))"
    and k: "(k, a) \<in> set (objects sm) \<Longrightarrow> authorization_id a = k" for k a
    by (auto simp: auth_inv_def keyed_def)
  have "authorization_id a = k \<and> k \<noteq> [] \<and> a_created_at_ms a \<noteq> 0" if "(k, a) \<in> set (objects sm)" for k a
  proof -
    have "store_get k sm = Some a" using that d by (simp add: store_get_def)
    with inv have "authorization_id a \<noteq> []" by (auto simp: auth_inv_def auth_sound_def)
    with k[OF that] that assms(2) show ?thesis by (force simp: store_get_all_def)
  qed
  from auth_import_exports[where d = "objects sm" and pre = "[]" and sm = "new_store cb", OF this] d show ?thesis
    by (simp add: auth_export_state_def store_get_all_def new_store_def)
qed

lemma auth_roundtrip_witness:
  "fst (auth_import_state (auth_export_state demo_auth) (new_store False) (sample_world 9)) =
     length (objects demo_auth)"
  by (subst auth_roundtrip[OF demo_auth_reachable]) (simp_all add: demo_auth_get)

text \<open>Every accepted transition is visible: with a callback it hands over exactly the record
  it appended to the trail, and with a connected change log it books exactly one change, under
  the approver's name or else the initiator's, auto-approved precisely when that name contains
  "auto" or "system" or the initiator is the authorization governance itself.\<close>

theorem auth_transition_visible:
  assumes "auth_transition c sm w = (Inr x, sm', w')" "w_cal w = Some cal" "cal_injected sm"
  shows "\<exists>r who cal' e. last (a_transitions x) = r \<and>
     w_out w' = w_out w @ (if audit_cb sm then [(''authorization'', r)] else []) \<and>
     who = (if str_given (c_approved_by c) then the (c_approved_by c)
            else auth_initiator_value (c_initiator c)) \<and>
     w_cal w' = Some cal' \<and> changes cal' = changes cal @ [e] \<and> cr_who e = who \<and>
     (approval_status e = CS_AUTO_APPROVED \<longleftrightarrow>
        str_contains ''auto'' (str_lower who) \<or> str_contains ''system'' (str_lower who) \<or>
        c_initiator c = AI_AUTHORIZATION_GOVERNANCE)"
proof -
  obtain a where a: "store_get (c_id c) sm = Some a"
    using auth.accepted[OF assms(1)] by blast
  let ?who = "if str_given (c_approved_by c) then the (c_approved_by c)
      else auth_initiator_value (c_initiator c)"
  let ?auto = "auth_is_auto (c_approved_by c) (c_initiator c)"
  obtain r v where w': "w' = emit_audit ''authorization'' (audit_cb sm) r
       (cal_write ?who (''Authorization: '' @ auth_state_value (a_state a) @ arrow @
          auth_state_value (c_to c)) (c_reason c) (PStr (auth_state_value (a_state a)))
          (PStr (auth_state_value (c_to c))) ?auto v)"
    and v: "w_cal v = w_cal w" "w_out v = w_out w" and r: "a_transitions x = a_transitions a @ [r]"
    using auth_transition_world[OF assms(1) a] assms(3)
    by (auto simp: record_change_audit_def Let_def)
  from cal_write_logs[of v cal ?who] v assms(2) obtain cal' e where
    "w_cal (cal_write ?who (''Authorization: '' @ auth_state_value (a_state a) @ arrow @
          auth_state_value (c_to c)) (c_reason c) (PStr (auth_state_value (a_state a)))
          (PStr (auth_state_value (c_to c))) ?auto v) = Some cal'" "changes cal' = changes cal @ [e]"
    "cr_who e = ?who" "approval_status e = (if ?auto then CS_AUTO_APPROVED else CS_PENDING)"
    by metis
  with w' v r show ?thesis
    by (intro exI[of _ r] exI[of _ ?who] exI[of _ cal'] exI[of _ e])
      (simp add: emit_audit_def auth_is_auto_def Let_def)
qed

lemma auth_transition_visible_witness:
  "\<exists>cal e. w_cal (snd (snd (auth_freeze demo_auth_id ''incident'' AI_INCIDENT_POLICY
       (set_change_audit_log demo_auth) (sample_world 4)))) = Some cal \<and>
     changes cal = [e] \<and> cr_who e = ''IncidentPolicy'' \<and> approval_status e \<noteq> CS_AUTO_APPROVED"
proof -
  let ?c = "\<lparr>c_id = demo_auth_id, c_to = A_FROZEN, c_event = AE_FREEZE_APPLIED,
    c_initiator = AI_INCIDENT_POLICY, c_reason_codes = Some [''frozen''], c_approved_by = None,
    c_reason = ''incident''\<rparr>"
  let ?sm = "set_change_audit_log demo_auth"
  have "store_get (c_id ?c) ?sm = Some demo_auth_object"
    using demo_auth_get(1) by (simp add: store_get_def set_change_audit_log_def)
  then obtain x sm' w' where t: "auth_transition ?c ?sm (sample_world 4) = (Inr x, sm', w')"
    using auth.complete[of ?c ?sm demo_auth_object "sample_world 4"]
    by (auto simp: demo_auth_get auth_permitted)
  have cal: "w_cal (sample_world 4) = Some (new_cal False)" "cal_injected ?sm"
    by (simp_all add: sample_world_def env.defs set_change_audit_log_def)
  have no: "\<not> str_contains ''auto'' (str_lower ''IncidentPolicy'')"
    "\<not> str_contains ''system'' (str_lower ''IncidentPolicy'')"
    by code_simp+
  from auth_transition_visible[OF t cal] no show ?thesis
    unfolding auth_freeze_def by (auto simp: t new_cal_def)
qed

text \<open>Over any sequence of calls the authorization machine behaves as the abstract machine that
  keeps nothing but the state of each authorization and moves it when the guards permit: clocks,
  identifiers, versions, approvals stored, audit and change log never influence a state.\<close>

theorem auth_refines_lifecycle:
  "states_of a_state (fst (run_calls auth_transition cs (sm, w))) =
     fold (lifecycle auth_class) cs (states_of a_state sm)"
  by (simp add: auth.refines_run)

text \<open>No authorization is ever beyond the operator's reach: from every state that is not
  terminal one call in the operator's name, with a named approver, ends it, and no call made
  afterwards changes it again.\<close>

theorem auth_operator_can_end:
  assumes "store_get k sm = Some a" "a_state a \<notin> set auth_terminal_states" "who \<noteq> []"
  shows "\<exists>t x sm' w'. t \<in> set auth_terminal_states \<and>
    auth_transition \<lparr>c_id = k, c_to = t, c_event = ev, c_initiator = AI_OPERATOR, c_reason_codes = rc,
      c_approved_by = Some who, c_reason = why\<rparr> sm w = (Inr x, sm', w') \<and> a_state x = t \<and>
    (\<forall>cs. store_get k (fst (run_calls auth_transition cs (sm', w'))) = Some x)"
proof -
  define t where "t = (if a_state a \<in> {A_DRAFT, A_PENDING_APPROVAL} then A_REJECTED else A_REVOKED)"
  have "permitted auth_class (a_state a) t AI_OPERATOR (Some who)"
    using assms(2,3) by (cases "a_state a") (auto simp: t_def auth_permitted str_given_def)
  moreover have "t \<in> set auth_terminal_states" by (simp add: t_def auth_terminal_states_def)
  ultimately show ?thesis
    using auth.end_for_good[of "\<lparr>c_id = k, c_to = t, c_event = ev, c_initiator = AI_OPERATOR,
      c_reason_codes = rc, c_approved_by = Some who, c_reason = why\<rparr>" sm a w] assms(1)
    by (auto simp: auth_class_def)
qed

lemma auth_operator_can_end_witness:
  "\<exists>t x (sm :: auth_sm). t \<in> set auth_terminal_states \<and> store_get demo_auth_id sm = Some x \<and> a_state x = t"
proof -
  have "a_state demo_auth_object \<notin> set auth_terminal_states"
    by (simp add: demo_auth_get auth_terminal_states_def)
  from auth_operator_can_end[OF _ this, of demo_auth_id demo_auth "''op''"] demo_auth_get obtain t x sm' w' where
    "t \<in> set auth_terminal_states" "a_state x = t"
    "\<forall>cs. store_get demo_auth_id (fst (run_calls auth_transition cs (sm', w'))) = Some x" by blast
  from this(1,2) this(3)[THEN spec, of "[]"] show ?thesis by (metis run_calls.simps(1))
qed

end
