(* ===== verification/Lease_SM.thy ===== *)
theory Lease_SM
  imports SM_Base
begin

text \<open>
  The decision lease state machine SM-02 (\<open>app/decision_lease_state_machine.py\<close>): the permits
  under which a trading intent may be handed on. The properties state that a lease is handed
  on only after registration and activation, that closed leases stay closed, and which leases
  the expiry sweep closes.
\<close>

section \<open>States, events, initiators\<close>

datatype LeaseState = L_DRAFT | L_REGISTERED | L_ACTIVE | L_BRIDGED | L_FROZEN | L_REVOKED
  | L_EXPIRED | L_REJECTED | L_CONSUMED

fun lease_state_value :: "LeaseState \<Rightarrow> string" where
  "lease_state_value L_DRAFT = ''DRAFT''"
| "lease_state_value L_REGISTERED = ''REGISTERED''"
| "lease_state_value L_ACTIVE = ''ACTIVE''"
| "lease_state_value L_BRIDGED = ''BRIDGED''"
| "lease_state_value L_FROZEN = ''FROZEN''"
| "lease_state_value L_REVOKED = ''REVOKED''"
| "lease_state_value L_EXPIRED = ''EXPIRED''"
| "lease_state_value L_REJECTED = ''REJECTED''"
| "lease_state_value L_CONSUMED = ''CONSUMED''"

definition lease_states :: "LeaseState list" where
  "lease_states = [L_DRAFT, L_REGISTERED, L_ACTIVE, L_BRIDGED, L_FROZEN, L_REVOKED, L_EXPIRED,
     L_REJECTED, L_CONSUMED]"

definition lease_state_of :: "string \<Rightarrow> LeaseState option" where
  "lease_state_of s = find (\<lambda>x. lease_state_value x = s) lease_states"

definition lease_terminal_states :: "LeaseState list" where
  "lease_terminal_states = [L_REVOKED, L_EXPIRED, L_REJECTED, L_CONSUMED]"

definition lease_live_states :: "LeaseState list" where
  "lease_live_states = [L_REGISTERED, L_ACTIVE, L_BRIDGED]"

definition lease_bridgeable_states :: "LeaseState list" where
  "lease_bridgeable_states = [L_ACTIVE]"

datatype LeaseEvent = LE_DRAFT_CREATED | LE_REGISTRATION_ACCEPTED | LE_REGISTRATION_REJECTED
  | LE_ACTIVATION_WINDOW_OPEN | LE_BRIDGE_APPROVED | LE_BRIDGE_REJECTED | LE_FREEZE_REQUESTED
  | LE_REVOKE_REQUESTED | LE_INVALIDATED | LE_EXPIRED_BY_TIME | LE_CONSUMED_BY_EXECUTION
  | LE_AUTHORIZATION_REVOKED | LE_INCIDENT_FREEZE | LE_RECOVERY_APPROVED

fun lease_event_value :: "LeaseEvent \<Rightarrow> string" where
  "lease_event_value LE_DRAFT_CREATED = ''lease_draft_created''"
| "lease_event_value LE_REGISTRATION_ACCEPTED = ''lease_registration_accepted''"
| "lease_event_value LE_REGISTRATION_REJECTED = ''lease_registration_rejected''"
| "lease_event_value LE_ACTIVATION_WINDOW_OPEN = ''lease_activation_window_open''"
| "lease_event_value LE_BRIDGE_APPROVED = ''lease_bridge_approved''"
| "lease_event_value LE_BRIDGE_REJECTED = ''lease_bridge_rejected''"
| "lease_event_value LE_FREEZE_REQUESTED = ''lease_freeze_requested''"
| "lease_event_value LE_REVOKE_REQUESTED = ''lease_revoke_requested''"
| "lease_event_value LE_INVALIDATED = ''lease_invalidated''"
| "lease_event_value LE_EXPIRED_BY_TIME = ''lease_expired_by_time''"
| "lease_event_value LE_CONSUMED_BY_EXECUTION = ''lease_consumed_by_execution_flow''"
| "lease_event_value LE_AUTHORIZATION_REVOKED = ''authorization_scope_revoked''"
| "lease_event_value LE_INCIDENT_FREEZE = ''incident_freeze_applied''"
| "lease_event_value LE_RECOVERY_APPROVED = ''lease_recovery_approved''"

datatype LeaseInitiator = LI_I_CONTROL_PLANE | LI_OPERATOR | LI_AUTHORIZATION_GOVERNANCE
  | LI_INCIDENT_POLICY | LI_EXECUTION_CLOSURE_FLOW | LI_EXPIRY_GUARDIAN | LI_RISK_GOVERNOR

fun lease_initiator_value :: "LeaseInitiator \<Rightarrow> string" where
  "lease_initiator_value LI_I_CONTROL_PLANE = ''I''"
| "lease_initiator_value LI_OPERATOR = ''Operator''"
| "lease_initiator_value LI_AUTHORIZATION_GOVERNANCE = ''AuthorizationGovernance''"
| "lease_initiator_value LI_INCIDENT_POLICY = ''IncidentPolicy''"
| "lease_initiator_value LI_EXECUTION_CLOSURE_FLOW = ''ExecutionClosureFlow''"
| "lease_initiator_value LI_EXPIRY_GUARDIAN = ''ExpiryGuardian''"
| "lease_initiator_value LI_RISK_GOVERNOR = ''RiskGovernor''"

section \<open>The transition table\<close>

type_synonym lease_rule = "(LeaseState, LeaseInitiator) transition_rule"

definition lease_reg ::
  "LeaseState \<Rightarrow> LeaseState \<Rightarrow> bool \<Rightarrow> LeaseInitiator list \<Rightarrow>
   ((LeaseState \<times> LeaseState) \<times> lease_rule) list \<Rightarrow> ((LeaseState \<times> LeaseState) \<times> lease_rule) list" where
  "lease_reg from_s to_s approval initiators table =
     AList.update (from_s, to_s)
       \<lparr>rule_from = from_s, rule_to = to_s, requires_approval = approval,
        allowed_initiators = initiators\<rparr> table"

definition LG_I_OP :: "LeaseInitiator list" where
  "LG_I_OP = [LI_I_CONTROL_PLANE, LI_OPERATOR]"

definition LG_GOV :: "LeaseInitiator list" where
  "LG_GOV = [LI_I_CONTROL_PLANE, LI_OPERATOR, LI_AUTHORIZATION_GOVERNANCE, LI_INCIDENT_POLICY]"

definition LG_FREEZE :: "LeaseInitiator list" where
  "LG_FREEZE = [LI_OPERATOR, LI_INCIDENT_POLICY, LI_AUTHORIZATION_GOVERNANCE, LI_I_CONTROL_PLANE]"

definition LG_REVOKE :: "LeaseInitiator list" where
  "LG_REVOKE = [LI_OPERATOR, LI_AUTHORIZATION_GOVERNANCE, LI_INCIDENT_POLICY, LI_I_CONTROL_PLANE]"

definition LG_EXPIRY :: "LeaseInitiator list" where
  "LG_EXPIRY = [LI_EXPIRY_GUARDIAN, LI_I_CONTROL_PLANE]"

definition LG_RECOVERY :: "LeaseInitiator list" where
  "LG_RECOVERY = [LI_OPERATOR, LI_I_CONTROL_PLANE]"

definition LG_EXECUTION :: "LeaseInitiator list" where
  "LG_EXECUTION = [LI_EXECUTION_CLOSURE_FLOW, LI_I_CONTROL_PLANE]"

definition LG_RISK_GOV :: "LeaseInitiator list" where
  "LG_RISK_GOV = [LI_RISK_GOVERNOR, LI_I_CONTROL_PLANE, LI_OPERATOR]"

definition lease_rules :: "((LeaseState \<times> LeaseState) \<times> lease_rule) list" where
  "lease_rules = fold (\<lambda>(f, t, a, is). lease_reg f t a is)
    [(L_DRAFT, L_REGISTERED, False, LG_I_OP),
     (L_DRAFT, L_REJECTED, False, LG_I_OP),
     (L_REGISTERED, L_ACTIVE, False, LG_I_OP),
     (L_REGISTERED, L_FROZEN, False, LG_FREEZE),
     (L_REGISTERED, L_REVOKED, True, LG_REVOKE),
     (L_REGISTERED, L_EXPIRED, False, LG_EXPIRY),
     (L_REGISTERED, L_REJECTED, False, LG_GOV),
     (L_ACTIVE, L_BRIDGED, False, LG_RISK_GOV),
     (L_ACTIVE, L_FROZEN, False, LG_FREEZE),
     (L_ACTIVE, L_REVOKED, True, LG_REVOKE),
     (L_ACTIVE, L_EXPIRED, False, LG_EXPIRY),
     (L_ACTIVE, L_REJECTED, False, LG_GOV),
     (L_FROZEN, L_REGISTERED, True, LG_RECOVERY),
     (L_FROZEN, L_ACTIVE, True, LG_RECOVERY),
     (L_FROZEN, L_REVOKED, True, LG_REVOKE),
     (L_FROZEN, L_EXPIRED, False, LG_EXPIRY),
     (L_BRIDGED, L_CONSUMED, False, LG_EXECUTION),
     (L_BRIDGED, L_REVOKED, True, LG_REVOKE)] []"

definition lease_forbidden :: "(LeaseState \<times> LeaseState) list" where
  "lease_forbidden =
    [(L_REVOKED, L_ACTIVE), (L_REVOKED, L_BRIDGED), (L_EXPIRED, L_ACTIVE), (L_EXPIRED, L_BRIDGED),
     (L_REJECTED, L_REGISTERED), (L_REJECTED, L_ACTIVE), (L_CONSUMED, L_ACTIVE),
     (L_CONSUMED, L_BRIDGED), (L_DRAFT, L_ACTIVE), (L_DRAFT, L_BRIDGED), (L_DRAFT, L_CONSUMED),
     (L_REGISTERED, L_BRIDGED)]"

definition lease_class :: "(LeaseState, lease_rule) sm_class" where
  "lease_class = \<lparr>tx_prefix = ''ltx'', ev_prefix = ''levt'', aud_prefix = ''laud'',
     change_label = ''DecisionLease'', terminal_states = lease_terminal_states,
     forbidden_transitions = lease_forbidden, transition_rules = lease_rules,
     state_value = lease_state_value\<rparr>"

section \<open>Lease objects\<close>

record DecisionLeaseObject =
  lease_id :: string
  l_state :: LeaseState
  l_version :: int
  l_created_at_ms :: int
  l_updated_at_ms :: int
  l_valid_from_ms :: "int option"
  l_expires_at_ms :: "int option"
  l_intent :: pydict
  l_source_pipeline_stage :: string
  l_source_deliberation_id :: string
  l_created_by :: string
  l_registered_by :: "string option"
  l_activated_by :: "string option"
  l_bridged_by :: "string option"
  l_consumed_by :: "string option"
  l_freeze_reason :: string
  l_revoke_reason :: string
  l_rejection_reason :: string
  l_risk_decision_ref :: "string option"
  l_transitions :: "pydict list"

type_synonym lease_sm = "DecisionLeaseObject object_store"
type_synonym lease_error = "(LeaseState, LeaseInitiator) sm_error"
type_synonym lease_call = "(LeaseState, LeaseEvent, LeaseInitiator) call"
type_synonym lease_op =
  "lease_sm \<Rightarrow> world \<Rightarrow> (lease_error + DecisionLeaseObject) \<times> lease_sm \<times> world"

definition lease_post_init :: "DecisionLeaseObject \<Rightarrow> 'z env_scheme \<Rightarrow>
    DecisionLeaseObject \<times> 'z env_scheme" where
  "lease_post_init l w =
     (let (l1, w1) = (if lease_id l = [] then
            (let (h, w') = fresh_hex w in (l\<lparr>lease_id := ''lease:'' @ take 12 h\<rparr>, w')) else (l, w))
      in if l_created_at_ms l1 = 0 then
           (let (t, w2) = now_ms w1
            in (l1\<lparr>l_created_at_ms := t, l_updated_at_ms := t\<rparr>, w2))
         else (l1, w1))"

definition lease_is_terminal :: "DecisionLeaseObject \<Rightarrow> bool" where
  "lease_is_terminal l \<longleftrightarrow> l_state l \<in> set lease_terminal_states"

definition lease_is_live :: "DecisionLeaseObject \<Rightarrow> bool" where
  "lease_is_live l \<longleftrightarrow> l_state l \<in> set lease_live_states"

definition lease_is_bridgeable :: "DecisionLeaseObject \<Rightarrow> bool" where
  "lease_is_bridgeable l \<longleftrightarrow> l_state l \<in> set lease_bridgeable_states"

text \<open>A bound of None or 0 is no bound (the code tests the truth value).\<close>

definition lease_is_within_valid_window ::
  "DecisionLeaseObject \<Rightarrow> 'z env_scheme \<Rightarrow> bool \<times> 'z env_scheme" where
  "lease_is_within_valid_window l w =
     (let (now, w1) = now_ms w;
          too_early = (case l_valid_from_ms l of None \<Rightarrow> False | Some t \<Rightarrow> t \<noteq> 0 \<and> now < t);
          too_late = (case l_expires_at_ms l of None \<Rightarrow> False | Some t \<Rightarrow> t \<noteq> 0 \<and> t < now)
      in (\<not> too_early \<and> \<not> too_late, w1))"

definition lease_to_dict :: "DecisionLeaseObject \<Rightarrow> pydict" where
  "lease_to_dict l =
    [(''lease_id'', PStr (lease_id l)),
     (''state'', PStr (lease_state_value (l_state l))),
     (''version'', PInt (l_version l)),
     (''created_at_ms'', PInt (l_created_at_ms l)),
     (''updated_at_ms'', PInt (l_updated_at_ms l)),
     (''valid_from_ms'', opt_int (l_valid_from_ms l)),
     (''expires_at_ms'', opt_int (l_expires_at_ms l)),
     (''intent'', PDict (l_intent l)),
     (''source_pipeline_stage'', PStr (l_source_pipeline_stage l)),
     (''created_by'', PStr (l_created_by l)),
     (''is_terminal'', PBool (lease_is_terminal l)),
     (''is_live'', PBool (lease_is_live l)),
     (''is_bridgeable'', PBool (lease_is_bridgeable l)),
     (''transition_count'', PInt (int (length (l_transitions l))))]"

section \<open>Operations\<close>

definition lease_create_draft ::
  "pydict \<Rightarrow> string \<Rightarrow> string \<Rightarrow> string \<Rightarrow> int option \<Rightarrow> int option \<Rightarrow> lease_sm \<Rightarrow> world \<Rightarrow>
   DecisionLeaseObject \<times> lease_sm \<times> world" where
  "lease_create_draft intent created_by stage deliberation valid_from expires_at sm w =
     (let (l, w1) = lease_post_init
            \<lparr>lease_id = [], l_state = L_DRAFT, l_version = 1, l_created_at_ms = 0,
             l_updated_at_ms = 0, l_valid_from_ms = valid_from, l_expires_at_ms = expires_at,
             l_intent = intent, l_source_pipeline_stage = stage,
             l_source_deliberation_id = deliberation, l_created_by = created_by,
             l_registered_by = None, l_activated_by = None, l_bridged_by = None,
             l_consumed_by = None, l_freeze_reason = [], l_revoke_reason = [],
             l_rejection_reason = [], l_risk_decision_ref = None, l_transitions = []\<rparr> w;
          (rec, w2) = build_transition_record lease_class L_DRAFT L_DRAFT
            (Some (lease_id l)) (Some ''lease_id'')
            (lease_event_value LE_DRAFT_CREATED) (lease_initiator_value LI_I_CONTROL_PLANE)
            (l_version l) (Some [''initial_draft'']) None
            (Some ''NONE'') (Some (lease_state_value L_DRAFT)) [] w1;
          l' = l\<lparr>l_transitions := l_transitions l @ [rec]\<rparr>
      in (l', store_put (lease_id l') l' sm, emit_audit ''decision_lease'' (audit_cb sm) rec w2))"

definition lease_update_meta ::
  "LeaseState \<Rightarrow> LeaseInitiator \<Rightarrow> string \<Rightarrow> DecisionLeaseObject \<Rightarrow> DecisionLeaseObject" where
  "lease_update_meta to_s initiator reason l =
     (if to_s = L_REGISTERED then l\<lparr>l_registered_by := Some (lease_initiator_value initiator)\<rparr>
      else if to_s = L_ACTIVE then l\<lparr>l_activated_by := Some (lease_initiator_value initiator)\<rparr>
      else if to_s = L_BRIDGED then l\<lparr>l_bridged_by := Some (lease_initiator_value initiator)\<rparr>
      else if to_s = L_CONSUMED then l\<lparr>l_consumed_by := Some (lease_initiator_value initiator)\<rparr>
      else if to_s = L_FROZEN then l\<lparr>l_freeze_reason := reason\<rparr>
      else if to_s = L_REVOKED then l\<lparr>l_revoke_reason := reason\<rparr>
      else if to_s = L_REJECTED then l\<lparr>l_rejection_reason := reason\<rparr>
      else l)"

definition lease_transition :: "lease_call \<Rightarrow> lease_op" where
  "lease_transition c sm w =
     (case map_of (objects sm) (c_id c) of
        None \<Rightarrow> (Inl (ObjectNotFound (c_id c)), sm, w)
      | Some lease \<Rightarrow>
          (case validate_transition lease_class no_extra (l_state lease) (c_to c)
                  (c_initiator c) (c_approved_by c) w of
             (Inl e, w1) \<Rightarrow> (Inl e, sm, w1)
           | (Inr rule, w1) \<Rightarrow>
               (let (rec, w2) = build_transition_record lease_class (l_state lease) (c_to c)
                      (Some (lease_id lease)) (Some ''lease_id'')
                      (lease_event_value (c_event c)) (lease_initiator_value (c_initiator c))
                      (l_version lease) (c_reason_codes c) (c_approved_by c) None None [] w1;
                    (upd, w3) = now_ms w2;
                    lease1 = lease\<lparr>l_state := c_to c, l_version := l_version lease + 1,
                              l_updated_at_ms := upd, l_transitions := l_transitions lease @ [rec]\<rparr>;
                    lease2 = lease_update_meta (c_to c) (c_initiator c) (c_reason c) lease1;
                    w4 = record_change_audit (change_label lease_class) (cal_injected sm)
                           (lease_state_value (l_state lease)) (lease_state_value (c_to c))
                           (lease_initiator_value (c_initiator c)) (c_approved_by c) (c_reason c)
                           None w3
                in (Inr lease2, store_put (c_id c) lease2 sm,
                    emit_audit ''decision_lease'' (audit_cb sm) rec w4))))"

definition lease_register :: "string \<Rightarrow> lease_op" where
  "lease_register lid = lease_transition
     \<lparr>c_id = lid, c_to = L_REGISTERED, c_event = LE_REGISTRATION_ACCEPTED,
      c_initiator = LI_I_CONTROL_PLANE, c_reason_codes = Some [''registration_accepted''],
      c_approved_by = None, c_reason = []\<rparr>"

definition lease_reject :: "string \<Rightarrow> string \<Rightarrow> lease_op" where
  "lease_reject lid reason = lease_transition
     \<lparr>c_id = lid, c_to = L_REJECTED, c_event = LE_REGISTRATION_REJECTED,
      c_initiator = LI_I_CONTROL_PLANE, c_reason_codes = Some [''rejected''],
      c_approved_by = None, c_reason = reason\<rparr>"

definition lease_activate :: "string \<Rightarrow> lease_op" where
  "lease_activate lid = lease_transition
     \<lparr>c_id = lid, c_to = L_ACTIVE, c_event = LE_ACTIVATION_WINDOW_OPEN,
      c_initiator = LI_I_CONTROL_PLANE, c_reason_codes = Some [''activation_window_open''],
      c_approved_by = None, c_reason = []\<rparr>"

definition lease_bridge_call :: "string \<Rightarrow> lease_call" where
  "lease_bridge_call lid =
     \<lparr>c_id = lid, c_to = L_BRIDGED, c_event = LE_BRIDGE_APPROVED,
      c_initiator = LI_RISK_GOVERNOR, c_reason_codes = Some [''bridge_approved''],
      c_approved_by = None, c_reason = []\<rparr>"

text \<open>The reference is stored after the transition; the returned copy does not have it.\<close>

definition lease_bridge :: "string \<Rightarrow> string \<Rightarrow> lease_op" where
  "lease_bridge lid risk_ref sm w =
     (case lease_transition (lease_bridge_call lid) sm w of
        (Inl e, sm1, w1) \<Rightarrow> (Inl e, sm1, w1)
      | (Inr l, sm1, w1) \<Rightarrow>
          (Inr l,
           (if risk_ref = [] then sm1
            else (case store_get lid sm1 of
                    None \<Rightarrow> sm1
                  | Some x \<Rightarrow> store_put lid (x\<lparr>l_risk_decision_ref := Some risk_ref\<rparr>) sm1)),
           w1))"

definition lease_consume :: "string \<Rightarrow> lease_op" where
  "lease_consume lid = lease_transition
     \<lparr>c_id = lid, c_to = L_CONSUMED, c_event = LE_CONSUMED_BY_EXECUTION,
      c_initiator = LI_EXECUTION_CLOSURE_FLOW, c_reason_codes = Some [''execution_closure''],
      c_approved_by = None, c_reason = []\<rparr>"

definition lease_freeze :: "string \<Rightarrow> string \<Rightarrow> LeaseInitiator \<Rightarrow> lease_op" where
  "lease_freeze lid reason initiator = lease_transition
     \<lparr>c_id = lid, c_to = L_FROZEN, c_event = LE_FREEZE_REQUESTED, c_initiator = initiator,
      c_reason_codes = Some [''frozen''], c_approved_by = None, c_reason = reason\<rparr>"

definition lease_revoke :: "string \<Rightarrow> string \<Rightarrow> string \<Rightarrow> LeaseInitiator \<Rightarrow> lease_op" where
  "lease_revoke lid approved_by reason initiator = lease_transition
     \<lparr>c_id = lid, c_to = L_REVOKED, c_event = LE_REVOKE_REQUESTED, c_initiator = initiator,
      c_reason_codes = Some [''revoked''], c_approved_by = Some approved_by, c_reason = reason\<rparr>"

definition lease_unfreeze_to_registered :: "string \<Rightarrow> string \<Rightarrow> string \<Rightarrow> lease_op" where
  "lease_unfreeze_to_registered lid approved_by reason = lease_transition
     \<lparr>c_id = lid, c_to = L_REGISTERED, c_event = LE_RECOVERY_APPROVED, c_initiator = LI_OPERATOR,
      c_reason_codes = Some [''unfrozen_to_registered''], c_approved_by = Some approved_by,
      c_reason = reason\<rparr>"

definition lease_unfreeze_to_active :: "string \<Rightarrow> string \<Rightarrow> string \<Rightarrow> lease_op" where
  "lease_unfreeze_to_active lid approved_by reason = lease_transition
     \<lparr>c_id = lid, c_to = L_ACTIVE, c_event = LE_RECOVERY_APPROVED, c_initiator = LI_OPERATOR,
      c_reason_codes = Some [''unfrozen_to_active''], c_approved_by = Some approved_by,
      c_reason = reason\<rparr>"

definition lease_get_live :: "lease_sm \<Rightarrow> DecisionLeaseObject list" where
  "lease_get_live sm = filter lease_is_live (store_get_all sm)"

definition lease_get_bridgeable :: "lease_sm \<Rightarrow> DecisionLeaseObject list" where
  "lease_get_bridgeable sm = filter lease_is_bridgeable (store_get_all sm)"

definition lease_expiry_call :: "string \<Rightarrow> lease_call" where
  "lease_expiry_call lid =
     \<lparr>c_id = lid, c_to = L_EXPIRED, c_event = LE_EXPIRED_BY_TIME, c_initiator = LI_EXPIRY_GUARDIAN,
      c_reason_codes = Some [''time_expiry''], c_approved_by = None, c_reason = []\<rparr>"

definition lease_check_expiry :: "lease_sm \<Rightarrow> world \<Rightarrow> string list \<times> lease_sm \<times> world" where
  "lease_check_expiry = check_expiry lease_is_terminal l_expires_at_ms lease_id
     (\<lambda>lid. lease_transition (lease_expiry_call lid))"

section \<open>Persistence\<close>

definition lease_export :: "DecisionLeaseObject \<Rightarrow> pydict" where
  "lease_export l = dict_update (lease_to_dict l)
     [(''transitions'', PList (map PDict (l_transitions l))),
      (''source_deliberation_id'', PStr (l_source_deliberation_id l)),
      (''registered_by'', opt_str (l_registered_by l)),
      (''activated_by'', opt_str (l_activated_by l)),
      (''bridged_by'', opt_str (l_bridged_by l)),
      (''consumed_by'', opt_str (l_consumed_by l)),
      (''freeze_reason'', PStr (l_freeze_reason l)),
      (''revoke_reason'', PStr (l_revoke_reason l)),
      (''rejection_reason'', PStr (l_rejection_reason l)),
      (''risk_decision_ref'', opt_str (l_risk_decision_ref l)),
      (''valid_from_ms'', opt_int (l_valid_from_ms l)),
      (''expires_at_ms'', opt_int (l_expires_at_ms l))]"

definition lease_export_state :: "lease_sm \<Rightarrow> pydict list" where
  "lease_export_state sm = map lease_export (store_get_all sm)"

definition lease_from_dict :: "pydict \<Rightarrow> 'z env_scheme \<Rightarrow>
    (DecisionLeaseObject \<times> 'z env_scheme) option" where
  "lease_from_dict d w = do {
     lid \<leftarrow> as_str (dict_get d ''lease_id'' (PStr []));
     s \<leftarrow> as_str (dict_get d ''state'' (PStr ''DRAFT''));
     state \<leftarrow> lease_state_of s;
     ver \<leftarrow> as_int (dict_get d ''version'' (PInt 1));
     created \<leftarrow> as_int (dict_get d ''created_at_ms'' (PInt 0));
     updated \<leftarrow> as_int (dict_get d ''updated_at_ms'' (PInt 0));
     valid_from \<leftarrow> as_opt_int (dict_get d ''valid_from_ms'' PNone);
     expires \<leftarrow> as_opt_int (dict_get d ''expires_at_ms'' PNone);
     intent \<leftarrow> as_dict (dict_get d ''intent'' (PDict []));
     stage \<leftarrow> as_str (dict_get d ''source_pipeline_stage'' (PStr []));
     deliberation \<leftarrow> as_str (dict_get d ''source_deliberation_id'' (PStr []));
     creator \<leftarrow> as_str (dict_get d ''created_by'' (PStr []));
     registered \<leftarrow> as_opt_str (dict_get d ''registered_by'' PNone);
     activated \<leftarrow> as_opt_str (dict_get d ''activated_by'' PNone);
     bridged \<leftarrow> as_opt_str (dict_get d ''bridged_by'' PNone);
     consumed \<leftarrow> as_opt_str (dict_get d ''consumed_by'' PNone);
     freason \<leftarrow> as_str (dict_get d ''freeze_reason'' (PStr []));
     vreason \<leftarrow> as_str (dict_get d ''revoke_reason'' (PStr []));
     jreason \<leftarrow> as_str (dict_get d ''rejection_reason'' (PStr []));
     risk_ref \<leftarrow> as_opt_str (dict_get d ''risk_decision_ref'' PNone);
     trail \<leftarrow> as_dicts (dict_get d ''transitions'' (PList []));
     Some (lease_post_init
       \<lparr>lease_id = lid, l_state = state, l_version = ver, l_created_at_ms = created,
        l_updated_at_ms = updated, l_valid_from_ms = valid_from, l_expires_at_ms = expires,
        l_intent = intent, l_source_pipeline_stage = stage,
        l_source_deliberation_id = deliberation, l_created_by = creator,
        l_registered_by = registered, l_activated_by = activated, l_bridged_by = bridged,
        l_consumed_by = consumed, l_freeze_reason = freason, l_revoke_reason = vreason,
        l_rejection_reason = jreason, l_risk_decision_ref = risk_ref, l_transitions = trail\<rparr> w)
   }"

fun lease_import_state :: "pydict list \<Rightarrow> lease_sm \<Rightarrow> 'z env_scheme \<Rightarrow>
    nat \<times> lease_sm \<times> 'z env_scheme" where
  "lease_import_state [] sm w = (0, sm, w)"
| "lease_import_state (d # ds) sm w =
     (case lease_from_dict d w of
        None \<Rightarrow> lease_import_state ds sm w
      | Some (l, w1) \<Rightarrow>
          (let (n, sm', w') = lease_import_state ds (store_put (lease_id l) l sm) w1
           in (Suc n, sm', w')))"


section \<open>The machine keeps its contract\<close>

lemma lease_update_meta_frame [simp]:
  "l_state (lease_update_meta t i rs l) = l_state l"
  "l_version (lease_update_meta t i rs l) = l_version l"
  "l_transitions (lease_update_meta t i rs l) = l_transitions l"
  "lease_id (lease_update_meta t i rs l) = lease_id l"
  "l_expires_at_ms (lease_update_meta t i rs l) = l_expires_at_ms l"
  "l_created_at_ms (lease_update_meta t i rs l) = l_created_at_ms l"
  by (simp_all add: lease_update_meta_def)

lemma lease_class_simps [simp]:
  "state_value lease_class = lease_state_value" "terminal_states lease_class = lease_terminal_states"
  "forbidden_transitions lease_class = lease_forbidden" "transition_rules lease_class = lease_rules"
  by (simp_all add: lease_class_def)

lemma lease_transition_cases:
  assumes "lease_transition c sm w = (res, sm', w')"
  obtains (refused) e where "res = Inl e" "sm' = sm" "w' = w"
  | (accepted) l x r where
      "res = Inr x" "store_get (c_id c) sm = Some l"
      "permitted lease_class (l_state l) (c_to c) (c_initiator c) (c_approved_by c)"
      "l_state x = c_to c" "l_version x = l_version l + 1" "l_transitions x = l_transitions l @ [r]"
      "lease_id x = lease_id l" "l_expires_at_ms x = l_expires_at_ms l"
      "\<exists>(w1 :: world) w2. build_transition_record lease_class (l_state l) (c_to c)
                      (Some (lease_id l)) (Some ''lease_id'')
                      (lease_event_value (c_event c)) (lease_initiator_value (c_initiator c))
                      (l_version l) (c_reason_codes c) (c_approved_by c) None None [] w1 = (r, w2)"
      "sm' = store_put (c_id c) x sm" "later w w'"
proof (cases "map_of (objects sm) (c_id c)")
  case None
  with assms show ?thesis by (auto simp: lease_transition_def intro: refused)
next
  case (Some l)
  let ?v = "validate_transition lease_class no_extra (l_state l) (c_to c) (c_initiator c) (c_approved_by c) w"
  obtain vr w1 where v: "?v = (vr, w1)" by fastforce
  then have w1: "w1 = w" using validate_no_extra_world by (metis snd_conv)
  show ?thesis
  proof (cases vr)
    case (Inl e)
    with assms Some v w1 show ?thesis by (auto simp: lease_transition_def intro: refused)
  next
    case (Inr rule)
    obtain r w2 where b: "build_transition_record lease_class (l_state l) (c_to c)
                      (Some (lease_id l)) (Some ''lease_id'')
                      (lease_event_value (c_event c)) (lease_initiator_value (c_initiator c))
                      (l_version l) (c_reason_codes c) (c_approved_by c) None None [] w = (r, w2)"
      by fastforce
    obtain u w3 where u: "now_ms w2 = (u, w3)" by fastforce
    have l: "later w w2" "later w2 w3"
      using b u later_build later_now_ms by (metis snd_conv)+
    let ?x = "lease_update_meta (c_to c) (c_initiator c) (c_reason c)
      (l\<lparr>l_state := c_to c, l_version := l_version l + 1,
         l_updated_at_ms := u, l_transitions := l_transitions l @ [r]\<rparr>)"
    have "(res, sm', w') = (Inr ?x, store_put (c_id c) ?x sm,
      emit_audit ''decision_lease'' (audit_cb sm) r
       (record_change_audit (change_label lease_class) (cal_injected sm)
                           (lease_state_value (l_state l)) (lease_state_value (c_to c))
                           (lease_initiator_value (c_initiator c)) (c_approved_by c) (c_reason c)
                           None w3))"
      using v Inr w1 b u Some assms[symmetric] by (simp add: lease_transition_def Let_def)
    then have res: "res = Inr ?x" "sm' = store_put (c_id c) ?x sm" and w': "later w3 w'"
      by (auto intro: later_trans[OF later_record_change_audit later_emit_audit])
    have "later w w'" using l w' by (blast intro: later_trans)
    moreover have "permitted lease_class (l_state l) (c_to c) (c_initiator c) (c_approved_by c)"
      using v Inr by (auto dest: validate_ok(1))
    moreover have "store_get (c_id c) sm = Some l" using Some by (simp add: store_get_def)
    ultimately show ?thesis using res b
      by (intro accepted[of ?x l r]) (simp_all, blast)
  qed
qed

lemma lease_record_lawful:
  assumes b: "build_transition_record lease_class f t (Some oid) (Some ''lease_id'')
      ev (lease_initiator_value i) vb rc ap None None [] w1 = (r, w2)"
    and p: "permitted lease_class f t i ap"
  shows "lawful_record lease_class lease_initiator_value r"
    and "linked (lease_state_value f) [r] (lease_state_value t)"
proof -
  from p obtain rule where rule: "map_of lease_rules (f, t) = Some rule"
    "i \<in> set (allowed_initiators rule)" "requires_approval rule \<longrightarrow> str_given ap"
    "f \<notin> set lease_terminal_states"
    by (auto simp: permitted_def split: option.splits)
  have "''lease_id'' \<notin> set record_keys" by (simp add: record_keys_def)
  note fields = build_record_fields[OF this b]
  show "linked (lease_state_value f) [r] (lease_state_value t)"
    using fields by simp
  have "lookup_requires_approval lease_class f t = requires_approval rule"
    using rule by (simp add: lookup_requires_approval_def)
  with fields rule show "lawful_record lease_class lease_initiator_value r"
    unfolding lawful_record_def lease_class_simps
    by (intro exI[of _ f] exI[of _ t] exI[of _ rule] exI[of _ i] exI[of _ "opt_str ap"]) simp
qed

interpretation lease: object_machine lease_class lease_initiator_value l_state l_version
  l_transitions lease_transition
proof unfold_locales
  show "sm' = sm \<and> w' = w" if "lease_transition c sm w = (Inl e, sm', w')" for c sm w e sm' w'
    using that by (cases rule: lease_transition_cases) auto
next
  show "\<exists>x0 r. store_get (c_id c) sm = Some x0 \<and>
        permitted lease_class (l_state x0) (c_to c) (c_initiator c) (c_approved_by c) \<and>
        l_state x = c_to c \<and> l_version x = l_version x0 + 1 \<and> l_transitions x = l_transitions x0 @ [r] \<and>
        lawful_record lease_class lease_initiator_value r \<and>
        linked (state_value lease_class (l_state x0)) [r] (state_value lease_class (l_state x)) \<and>
        sm' = store_put (c_id c) x sm \<and> later w w'"
    if "lease_transition c sm w = (Inr x, sm', w')" for c sm w x sm' w'
    using that
  proof (cases rule: lease_transition_cases)
    case (accepted l y r)
    then obtain w1 w2 :: world where b: "build_transition_record lease_class (l_state l) (c_to c)
      (Some (lease_id l)) (Some ''lease_id'')
      (lease_event_value (c_event c)) (lease_initiator_value (c_initiator c))
      (l_version l) (c_reason_codes c) (c_approved_by c) None None [] w1 = (r, w2)" by blast
    note law = lease_record_lawful[OF b accepted(3)]
    show ?thesis
      using accepted(1-6,10,11) law by (intro exI[of _ l] exI[of _ r]) simp
  qed simp
next
  show "\<exists>x sm' w'. lease_transition c sm w = (Inr x, sm', w')"
    if "store_get (c_id c) sm = Some x0"
      "permitted lease_class (l_state x0) (c_to c) (c_initiator c) (c_approved_by c)" for c sm w x0
  proof -
    from that(2) obtain rule w1 where "validate_transition lease_class no_extra (l_state x0)
        (c_to c) (c_initiator c) (c_approved_by c) w = (Inr rule, w1)"
      unfolding validate_ok_iff[symmetric, where w = w] by blast
    with that(1) show ?thesis
      by (simp add: lease_transition_def store_get_def Let_def split: prod.splits)
  qed
qed

section \<open>What the rule table allows\<close>

text \<open>The table as rows, in registration order.\<close>

definition lease_rows :: "((LeaseState \<times> LeaseState) \<times> bool \<times> LeaseInitiator list) list" where
  "lease_rows =
    [((L_DRAFT, L_REGISTERED), False, LG_I_OP),
     ((L_DRAFT, L_REJECTED), False, LG_I_OP),
     ((L_REGISTERED, L_ACTIVE), False, LG_I_OP),
     ((L_REGISTERED, L_FROZEN), False, LG_FREEZE),
     ((L_REGISTERED, L_REVOKED), True, LG_REVOKE),
     ((L_REGISTERED, L_EXPIRED), False, LG_EXPIRY),
     ((L_REGISTERED, L_REJECTED), False, LG_GOV),
     ((L_ACTIVE, L_BRIDGED), False, LG_RISK_GOV),
     ((L_ACTIVE, L_FROZEN), False, LG_FREEZE),
     ((L_ACTIVE, L_REVOKED), True, LG_REVOKE),
     ((L_ACTIVE, L_EXPIRED), False, LG_EXPIRY),
     ((L_ACTIVE, L_REJECTED), False, LG_GOV),
     ((L_FROZEN, L_REGISTERED), True, LG_RECOVERY),
     ((L_FROZEN, L_ACTIVE), True, LG_RECOVERY),
     ((L_FROZEN, L_REVOKED), True, LG_REVOKE),
     ((L_FROZEN, L_EXPIRED), False, LG_EXPIRY),
     ((L_BRIDGED, L_CONSUMED), False, LG_EXECUTION),
     ((L_BRIDGED, L_REVOKED), True, LG_REVOKE)]"

lemma lease_rules_rows:
  "lease_rules = map (\<lambda>(k, x). (k, case (k, x) of ((f, t), a, is) \<Rightarrow>
     \<lparr>rule_from = f, rule_to = t, requires_approval = a, allowed_initiators = is\<rparr>)) lease_rows"
  by (simp add: lease_rules_def lease_reg_def lease_rows_def)

lemma lease_rows_get:
  "map_of lease_rows (f, t) =
      (case (f, t) of
         (L_DRAFT, L_REGISTERED) \<Rightarrow> Some (False, LG_I_OP)
       | (L_DRAFT, L_REJECTED) \<Rightarrow> Some (False, LG_I_OP)
       | (L_REGISTERED, L_ACTIVE) \<Rightarrow> Some (False, LG_I_OP)
       | (L_REGISTERED, L_FROZEN) \<Rightarrow> Some (False, LG_FREEZE)
       | (L_REGISTERED, L_REVOKED) \<Rightarrow> Some (True, LG_REVOKE)
       | (L_REGISTERED, L_EXPIRED) \<Rightarrow> Some (False, LG_EXPIRY)
       | (L_REGISTERED, L_REJECTED) \<Rightarrow> Some (False, LG_GOV)
       | (L_ACTIVE, L_BRIDGED) \<Rightarrow> Some (False, LG_RISK_GOV)
       | (L_ACTIVE, L_FROZEN) \<Rightarrow> Some (False, LG_FREEZE)
       | (L_ACTIVE, L_REVOKED) \<Rightarrow> Some (True, LG_REVOKE)
       | (L_ACTIVE, L_EXPIRED) \<Rightarrow> Some (False, LG_EXPIRY)
       | (L_ACTIVE, L_REJECTED) \<Rightarrow> Some (False, LG_GOV)
       | (L_FROZEN, L_REGISTERED) \<Rightarrow> Some (True, LG_RECOVERY)
       | (L_FROZEN, L_ACTIVE) \<Rightarrow> Some (True, LG_RECOVERY)
       | (L_FROZEN, L_REVOKED) \<Rightarrow> Some (True, LG_REVOKE)
       | (L_FROZEN, L_EXPIRED) \<Rightarrow> Some (False, LG_EXPIRY)
       | (L_BRIDGED, L_CONSUMED) \<Rightarrow> Some (False, LG_EXECUTION)
       | (L_BRIDGED, L_REVOKED) \<Rightarrow> Some (True, LG_REVOKE)
       | _ \<Rightarrow> None)"
  unfolding lease_rows_def by (cases f; cases t; simp)

lemma lease_rules_fun:
  "map_of lease_rules =
    (\<lambda>(f, t). map_option (\<lambda>(a, is). \<lparr>rule_from = f, rule_to = t, requires_approval = a,
                                   allowed_initiators = is\<rparr>)
      (case (f, t) of
         (L_DRAFT, L_REGISTERED) \<Rightarrow> Some (False, LG_I_OP)
       | (L_DRAFT, L_REJECTED) \<Rightarrow> Some (False, LG_I_OP)
       | (L_REGISTERED, L_ACTIVE) \<Rightarrow> Some (False, LG_I_OP)
       | (L_REGISTERED, L_FROZEN) \<Rightarrow> Some (False, LG_FREEZE)
       | (L_REGISTERED, L_REVOKED) \<Rightarrow> Some (True, LG_REVOKE)
       | (L_REGISTERED, L_EXPIRED) \<Rightarrow> Some (False, LG_EXPIRY)
       | (L_REGISTERED, L_REJECTED) \<Rightarrow> Some (False, LG_GOV)
       | (L_ACTIVE, L_BRIDGED) \<Rightarrow> Some (False, LG_RISK_GOV)
       | (L_ACTIVE, L_FROZEN) \<Rightarrow> Some (False, LG_FREEZE)
       | (L_ACTIVE, L_REVOKED) \<Rightarrow> Some (True, LG_REVOKE)
       | (L_ACTIVE, L_EXPIRED) \<Rightarrow> Some (False, LG_EXPIRY)
       | (L_ACTIVE, L_REJECTED) \<Rightarrow> Some (False, LG_GOV)
       | (L_FROZEN, L_REGISTERED) \<Rightarrow> Some (True, LG_RECOVERY)
       | (L_FROZEN, L_ACTIVE) \<Rightarrow> Some (True, LG_RECOVERY)
       | (L_FROZEN, L_REVOKED) \<Rightarrow> Some (True, LG_REVOKE)
       | (L_FROZEN, L_EXPIRED) \<Rightarrow> Some (False, LG_EXPIRY)
       | (L_BRIDGED, L_CONSUMED) \<Rightarrow> Some (False, LG_EXECUTION)
       | (L_BRIDGED, L_REVOKED) \<Rightarrow> Some (True, LG_REVOKE)
       | _ \<Rightarrow> None))"
  by (rule ext, clarify) (simp only: lease_rules_rows map_of_rows lease_rows_get prod.case)

lemmas lease_groups = LG_I_OP_def LG_GOV_def LG_FREEZE_def LG_REVOKE_def LG_EXPIRY_def
  LG_RECOVERY_def LG_EXECUTION_def LG_RISK_GOV_def

lemmas lease_permitted = permitted_def lease_rules_fun lease_terminal_states_def
  lease_forbidden_def lease_groups

lemma lease_permitted_bridged:
  "permitted lease_class f L_BRIDGED i ap \<longleftrightarrow>
   f = L_ACTIVE \<and> i \<in> {LI_RISK_GOVERNOR, LI_I_CONTROL_PLANE, LI_OPERATOR}"
  by (cases f; simp add: lease_permitted)

lemma lease_permitted_consumed:
  "permitted lease_class f L_CONSUMED i ap \<longleftrightarrow>
   f = L_BRIDGED \<and> i \<in> {LI_EXECUTION_CLOSURE_FLOW, LI_I_CONTROL_PLANE}"
  by (cases f; simp add: lease_permitted)

lemma lease_permitted_expiry:
  "permitted lease_class f L_EXPIRED LI_EXPIRY_GUARDIAN None \<longleftrightarrow>
   f \<in> {L_REGISTERED, L_ACTIVE, L_FROZEN}"
  by (cases f; simp add: lease_permitted)

lemma lease_permitted_from_draft:
  assumes "permitted lease_class f t i ap"
  shows "f = L_DRAFT \<and> t \<notin> {L_DRAFT, L_REJECTED} \<Longrightarrow>
      t = L_REGISTERED \<and> i \<in> {LI_I_CONTROL_PLANE, LI_OPERATOR}"
    and "t \<notin> {L_DRAFT, L_REJECTED} \<Longrightarrow> f \<noteq> L_REJECTED"
    and "t \<noteq> L_DRAFT"
  using assms by (cases f; cases t; simp add: lease_permitted)+

lemma lease_forbidden_redundant:
  "(f, t) \<in> set lease_forbidden \<Longrightarrow> map_of lease_rules (f, t) = None"
  by (auto simp: lease_forbidden_def lease_rules_fun)

section \<open>Histories\<close>

inductive lease_step :: "lease_sm \<Rightarrow> lease_sm \<Rightarrow> bool" where
  created: "lease_create_draft intent creator stage dlb vfrom expires sm w = (l, sm', w') \<Longrightarrow>
    store_get (lease_id l) sm = None \<Longrightarrow> lease_step sm sm'"
| called: "lease_transition c sm w = (res, sm', w') \<Longrightarrow> lease_step sm sm'"
| bridged: "lease_bridge lid risk_ref sm w = (res, sm', w') \<Longrightarrow> lease_step sm sm'"
| swept: "lease_check_expiry sm w = (ids, sm', w') \<Longrightarrow> lease_step sm sm'"
| connected: "lease_step sm (set_change_audit_log sm)"

inductive lease_reachable :: "lease_sm \<Rightarrow> bool" where
  start: "lease_reachable (new_store cb)"
| step: "lease_reachable sm \<Longrightarrow> lease_step sm sm' \<Longrightarrow> lease_reachable sm'"

text \<open>A step on the record, by its two labels and the initiators that may have taken it.\<close>

definition step_record :: "string \<Rightarrow> string \<Rightarrow> LeaseInitiator list \<Rightarrow> pydict \<Rightarrow> bool" where
  "step_record f t initiators r \<longleftrightarrow>
     map_of r ''previous_status'' = Some (PStr f) \<and> map_of r ''next_status'' = Some (PStr t) \<and>
     (\<exists>i\<in>set initiators. map_of r ''initiated_by'' = Some (PStr (lease_initiator_value i)))"

definition was_registered :: "DecisionLeaseObject \<Rightarrow> bool" where
  "was_registered l \<longleftrightarrow> (\<exists>r\<in>set (l_transitions l). step_record ''DRAFT'' ''REGISTERED'' LG_I_OP r)"

definition was_bridged :: "DecisionLeaseObject \<Rightarrow> bool" where
  "was_bridged l \<longleftrightarrow> (\<exists>r\<in>set (l_transitions l). step_record ''ACTIVE'' ''BRIDGED'' LG_RISK_GOV r)"

definition was_closed :: "DecisionLeaseObject \<Rightarrow> bool" where
  "was_closed l \<longleftrightarrow>
     step_record ''BRIDGED'' ''CONSUMED'' LG_EXECUTION (last (l_transitions l))"

definition lease_sound :: "DecisionLeaseObject \<Rightarrow> bool" where
  "lease_sound l \<longleftrightarrow> lease_id l \<noteq> [] \<and> l_transitions l \<noteq> [] \<and>
     trail_ok lease_class lease_initiator_value l_state l_version l_transitions l \<and>
     (l_state l \<notin> {L_DRAFT, L_REJECTED} \<longrightarrow> was_registered l) \<and>
     (l_state l \<in> {L_BRIDGED, L_CONSUMED} \<longrightarrow> was_bridged l) \<and>
     (l_state l = L_CONSUMED \<longrightarrow> was_closed l)"

definition lease_inv :: "lease_sm \<Rightarrow> bool" where
  "lease_inv sm \<longleftrightarrow> keyed lease_id sm \<and> (\<forall>k l. store_get k sm = Some l \<longrightarrow> lease_sound l)"

lemma lease_inv_new: "lease_inv (new_store cb)"
  by (simp add: lease_inv_def keyed_new) (simp add: new_store_def store_get_def)

lemma lease_inv_put:
  "lease_inv sm \<Longrightarrow> lease_sound l \<Longrightarrow> lease_id l = k \<Longrightarrow> lease_inv (store_put k l sm)"
  by (simp add: lease_inv_def keyed_put store_get_put)

lemma lease_create_draft_shape:
  assumes "lease_create_draft intent creator stage dlb vfrom expires sm w = (l, sm', w')"
  shows "sm' = store_put (lease_id l) l sm" "lease_sound l" "l_state l = L_DRAFT"
    "l_expires_at_ms l = expires" "later w w'" "\<exists>h. lease_id l = ''lease:'' @ take 12 h"
proof -
  obtain h w1 where h: "fresh_hex w = (h, w1)" by fastforce
  obtain n w2 where n: "now_ms w1 = (n, w2)" by fastforce
  let ?id = "''lease:'' @ take 12 h"
  obtain r w3 where b: "build_transition_record lease_class L_DRAFT L_DRAFT (Some ?id)
     (Some ''lease_id'') (lease_event_value LE_DRAFT_CREATED)
     (lease_initiator_value LI_I_CONTROL_PLANE) 1 (Some [''initial_draft'']) None
     (Some ''NONE'') (Some (lease_state_value L_DRAFT)) [] w2 = (r, w3)" by fastforce
  have "''lease_id'' \<notin> set record_keys" by (simp add: record_keys_def)
  note rec = build_record_fields[OF this b]
  let ?l = "\<lparr>lease_id = [], l_state = L_DRAFT, l_version = 1, l_created_at_ms = 0,
             l_updated_at_ms = 0, l_valid_from_ms = vfrom, l_expires_at_ms = expires,
             l_intent = intent, l_source_pipeline_stage = stage,
             l_source_deliberation_id = dlb, l_created_by = creator,
             l_registered_by = None, l_activated_by = None, l_bridged_by = None,
             l_consumed_by = None, l_freeze_reason = [], l_revoke_reason = [],
             l_rejection_reason = [], l_risk_decision_ref = None, l_transitions = []\<rparr>"
  have post: "lease_post_init ?l w =
     (?l\<lparr>lease_id := ?id, l_created_at_ms := n, l_updated_at_ms := n\<rparr>, w2)"
    using h n by (simp add: lease_post_init_def)
  note l = assms[unfolded lease_create_draft_def post Let_def prod.case, simplified, unfolded b[simplified], simplified]
  show "sm' = store_put (lease_id l) l sm" "l_state l = L_DRAFT" "l_expires_at_ms l = expires"
    "\<exists>h. lease_id l = ''lease:'' @ take 12 h"
    using l by auto
  show "lease_sound l"
    using l rec by (auto simp: lease_sound_def trail_ok_def)
  have "later w w1" "later w1 w2" "later w2 w3"
    using h n b by (auto simp: fresh_hex_def now_ms_def later_def build_transition_record_def Let_def)
  moreover have "later w3 w'" using l by auto
  ultimately show "later w w'" by (blast intro: later_trans)
qed

lemma lease_record_step:
  assumes "build_transition_record lease_class f t (Some oid) (Some ''lease_id'')
      ev (lease_initiator_value i) vb rc ap None None [] w1 = (r, w2)" "i \<in> set is"
  shows "step_record (lease_state_value f) (lease_state_value t) is r"
proof -
  have "''lease_id'' \<notin> set record_keys" by (simp add: record_keys_def)
  from build_record_fields[OF this assms(1)] assms(2) show ?thesis by (auto simp: step_record_def)
qed

lemma lease_inv_transition:
  assumes "lease_inv sm" "lease_transition c sm w = (res, sm', w')"
  shows "lease_inv sm'"
  using assms(2)
proof (cases rule: lease_transition_cases)
  case refused
  with assms show ?thesis by simp
next
  case (accepted l x r)
  from assms(1) accepted have l: "lease_sound l" "lease_id l = c_id c"
    by (auto simp: lease_inv_def dest: keyed_get)
  from accepted(9) obtain w1 w2 :: world where b: "build_transition_record lease_class (l_state l) (c_to c)
      (Some (lease_id l)) (Some ''lease_id'')
      (lease_event_value (c_event c)) (lease_initiator_value (c_initiator c))
      (l_version l) (c_reason_codes c) (c_approved_by c) None None [] w1 = (r, w2)" by blast
  note step = lease_record_step[OF b]
  note from_draft = lease_permitted_from_draft[OF accepted(3)]
  have reg: "was_registered x" if "l_state x \<notin> {L_DRAFT, L_REJECTED}"
  proof (cases "l_state l = L_DRAFT")
    case True
    with from_draft that accepted(4) have "c_to c = L_REGISTERED" "c_initiator c \<in> set LG_I_OP"
      by (auto simp: LG_I_OP_def)
    with step[of LG_I_OP] True accepted(6) show ?thesis by (auto simp: was_registered_def)
  next
    case False
    with from_draft that accepted(4) l have "was_registered l" by (auto simp: lease_sound_def)
    with accepted(6) show ?thesis by (auto simp: was_registered_def)
  qed
  have brd: "was_bridged x" if "l_state x \<in> {L_BRIDGED, L_CONSUMED}"
  proof (cases "c_to c = L_BRIDGED")
    case True
    with accepted(3) have "l_state l = L_ACTIVE" "c_initiator c \<in> set LG_RISK_GOV"
      by (auto simp: lease_permitted_bridged LG_RISK_GOV_def)
    with step[of LG_RISK_GOV] True accepted(6) show ?thesis by (auto simp: was_bridged_def)
  next
    case False
    with that accepted(3,4) have "l_state l = L_BRIDGED" by (auto simp: lease_permitted_consumed)
    with l have "was_bridged l" by (auto simp: lease_sound_def)
    with accepted(6) show ?thesis by (auto simp: was_bridged_def)
  qed
  have cls: "was_closed x" if "l_state x = L_CONSUMED"
  proof -
    from that accepted(3,4) have "l_state l = L_BRIDGED" "c_initiator c \<in> set LG_EXECUTION"
      by (auto simp: lease_permitted_consumed LG_EXECUTION_def)
    with step[of LG_EXECUTION] that accepted(4,6) show ?thesis by (simp add: was_closed_def)
  qed
  have "l_transitions x \<noteq> [] \<and> trail_ok lease_class lease_initiator_value l_state l_version l_transitions x"
  proof (rule lease.trail_ok_step[OF _ assms(2)])
    show "l_transitions y \<noteq> [] \<and> trail_ok lease_class lease_initiator_value l_state l_version l_transitions y"
      if "store_get j sm = Some y" for j y
      using assms(1) that by (auto simp: lease_inv_def lease_sound_def)
    show "store_get (c_id c) sm' = Some x" using accepted by (simp add: store_get_put)
  qed
  with reg brd cls l accepted(7) have "lease_sound x" by (simp add: lease_sound_def)
  with lease_inv_put[OF assms(1) this] accepted l show ?thesis by simp
qed

text \<open>Bridging is the transition, and at most a note of the risk decision afterwards.\<close>

lemma lease_bridge_cases:
  assumes "lease_bridge lid risk_ref sm w = (res, sm', w')"
  obtains sm1 where "lease_transition (lease_bridge_call lid) sm w = (res, sm1, w')"
    "sm' = sm1 \<or> (\<exists>x y. store_get lid sm1 = Some x \<and> res = Inr y \<and>
       sm' = store_put lid (x\<lparr>l_risk_decision_ref := Some risk_ref\<rparr>) sm1)"
proof -
  obtain r sm1 w1 where t: "lease_transition (lease_bridge_call lid) sm w = (r, sm1, w1)"
    by (metis prod_cases3)
  show ?thesis
    by (rule that[of sm1])
      (use assms t in \<open>auto simp: lease_bridge_def split: sum.splits if_splits option.splits\<close>)
qed

lemma lease_sound_ref:
  "lease_sound (x\<lparr>l_risk_decision_ref := v\<rparr>) \<longleftrightarrow> lease_sound x"
  by (simp add: lease_sound_def trail_ok_def was_registered_def was_bridged_def was_closed_def)

lemma lease_inv_bridge:
  assumes "lease_inv sm" "lease_bridge lid risk_ref sm w = (res, sm', w')"
  shows "lease_inv sm'"
proof -
  from assms(2) obtain sm1 where t: "lease_transition (lease_bridge_call lid) sm w = (res, sm1, w')"
    and sm': "sm' = sm1 \<or> (\<exists>x y. store_get lid sm1 = Some x \<and> res = Inr y \<and>
       sm' = store_put lid (x\<lparr>l_risk_decision_ref := Some risk_ref\<rparr>) sm1)"
    by (rule lease_bridge_cases)
  have inv: "lease_inv sm1" using lease_inv_transition[OF assms(1) t] .
  from sm' show ?thesis
  proof
    assume "\<exists>x y. store_get lid sm1 = Some x \<and> res = Inr y \<and>
       sm' = store_put lid (x\<lparr>l_risk_decision_ref := Some risk_ref\<rparr>) sm1"
    then obtain x where x: "store_get lid sm1 = Some x"
      "sm' = store_put lid (x\<lparr>l_risk_decision_ref := Some risk_ref\<rparr>) sm1" by blast
    from inv x(1) have "lease_sound x" "lease_id x = lid"
      by (auto simp: lease_inv_def dest: keyed_get)
    then show ?thesis unfolding x(2) by (intro lease_inv_put[OF inv]) (simp_all add: lease_sound_ref)
  qed (simp add: inv)
qed

lemma lease_check_expiry_inv:
  assumes "\<And>c sm w r sm' w'. P sm \<Longrightarrow> lease_transition c sm w = (r, sm', w') \<Longrightarrow> P sm'"
    and "P sm" "lease_check_expiry sm w = (ids, sm', w')"
  shows "P sm'"
  using assms(3) unfolding lease_check_expiry_def
  by (rule check_expiry_inv[of P, rotated 2]) (use assms(1,2) in blast)+

lemma lease_inv_step:
  assumes "lease_step sm sm'" "lease_inv sm"
  shows "lease_inv sm'"
  using assms
proof (induction rule: lease_step.induct)
  case (created intent creator stage dlb vfrom expires sm w l sm' w')
  then show ?case using lease_create_draft_shape[OF created(1)] by (simp add: lease_inv_put)
next
  case (called c sm w res sm' w')
  then show ?case by (rule lease_inv_transition[rotated])
next
  case (bridged lid risk_ref sm w res sm' w')
  then show ?case by (rule lease_inv_bridge[rotated])
next
  case (swept sm w ids sm' w')
  then show ?case
    by (blast intro: lease_check_expiry_inv[of lease_inv] lease_inv_transition)
next
  case (connected sm)
  then show ?case
    by (simp add: lease_inv_def keyed_def store_get_def set_change_audit_log_def)
qed

lemma lease_reachable_inv: "lease_reachable sm \<Longrightarrow> lease_inv sm"
  by (induction rule: lease_reachable.induct) (auto intro: lease_inv_new lease_inv_step)


lemma lease_step_terminal:
  assumes "lease_step sm sm'" "store_get k sm = Some l" "lease_is_terminal l"
  shows "store_get k sm' = Some l"
  using assms
proof (induction rule: lease_step.induct)
  case (created intent creator stage dlb vfrom expires sm w b sm' w')
  then show ?case using lease_create_draft_shape(1)[OF created(1)] by (auto simp: store_get_put)
next
  case (called c sm w res sm' w')
  then show ?case by (intro lease.terminal_object_fixed[OF _ _ called(1)]) (simp_all add: lease_is_terminal_def)
next
  case (bridged lid risk_ref sm w res sm' w')
  then have trm: "l_state l \<in> set (terminal_states lease_class)" by (simp add: lease_is_terminal_def)
  from bridged(1) obtain sm1 where t: "lease_transition (lease_bridge_call lid) sm w = (res, sm1, w')"
    and sm': "sm' = sm1 \<or> (\<exists>x y. store_get lid sm1 = Some x \<and> res = Inr y \<and>
       sm' = store_put lid (x\<lparr>l_risk_decision_ref := Some risk_ref\<rparr>) sm1)"
    by (rule lease_bridge_cases)
  have keep: "store_get k sm1 = Some l"
    using lease.terminal_object_fixed[OF bridged(2) trm t] .
  have "k \<noteq> lid" if "res = Inr y" for y
    using lease.terminal_refused[of "lease_bridge_call lid" sm l w] bridged(2) trm t that
    by (auto simp: lease_bridge_call_def)
  with sm' keep show ?case by (auto simp: store_get_put)
next
  case (swept sm w ids sm' w')
  have keep: "store_get k sm2 = Some l"
    if "store_get k sm1 = Some l" "lease_transition c sm1 w1 = (r, sm2, w2)" for c sm1 w1 r sm2 w2
    using lease.terminal_object_fixed[OF that(1) _ that(2)] swept(3) by (simp add: lease_is_terminal_def)
  show ?case
    by (rule lease_check_expiry_inv[of "\<lambda>s. store_get k s = Some l", OF keep swept(2,1)])
next
  case (connected sm)
  then show ?case by (simp add: store_get_def set_change_audit_log_def)
qed

lemma lease_export_fields [simp]:
  "dict_get (lease_export l) ''lease_id'' v = PStr (lease_id l)"
  "dict_get (lease_export l) ''state'' v = PStr (lease_state_value (l_state l))"
  "dict_get (lease_export l) ''version'' v = PInt (l_version l)"
  "dict_get (lease_export l) ''created_at_ms'' v = PInt (l_created_at_ms l)"
  "dict_get (lease_export l) ''updated_at_ms'' v = PInt (l_updated_at_ms l)"
  "dict_get (lease_export l) ''valid_from_ms'' v = opt_int (l_valid_from_ms l)"
  "dict_get (lease_export l) ''expires_at_ms'' v = opt_int (l_expires_at_ms l)"
  "dict_get (lease_export l) ''intent'' v = PDict (l_intent l)"
  "dict_get (lease_export l) ''source_pipeline_stage'' v = PStr (l_source_pipeline_stage l)"
  "dict_get (lease_export l) ''source_deliberation_id'' v = PStr (l_source_deliberation_id l)"
  "dict_get (lease_export l) ''created_by'' v = PStr (l_created_by l)"
  "dict_get (lease_export l) ''registered_by'' v = opt_str (l_registered_by l)"
  "dict_get (lease_export l) ''activated_by'' v = opt_str (l_activated_by l)"
  "dict_get (lease_export l) ''bridged_by'' v = opt_str (l_bridged_by l)"
  "dict_get (lease_export l) ''consumed_by'' v = opt_str (l_consumed_by l)"
  "dict_get (lease_export l) ''freeze_reason'' v = PStr (l_freeze_reason l)"
  "dict_get (lease_export l) ''revoke_reason'' v = PStr (l_revoke_reason l)"
  "dict_get (lease_export l) ''rejection_reason'' v = PStr (l_rejection_reason l)"
  "dict_get (lease_export l) ''risk_decision_ref'' v = opt_str (l_risk_decision_ref l)"
  "dict_get (lease_export l) ''transitions'' v = PList (map PDict (l_transitions l))"
  by (simp_all add: dict_get_def lease_export_def lease_to_dict_def)

lemma lease_state_of_value [simp]: "lease_state_of (lease_state_value s) = Some s"
  by (cases s) (simp_all add: lease_state_of_def lease_states_def)

lemma lease_from_export:
  assumes "lease_id l \<noteq> []" "l_created_at_ms l \<noteq> 0"
  shows "lease_from_dict (lease_export l) w = Some (l, w)"
  using assms by (simp add: lease_from_dict_def lease_post_init_def)

lemma lease_import_step:
  "lease_id l \<noteq> [] \<Longrightarrow> l_created_at_ms l \<noteq> 0 \<Longrightarrow>
   lease_import_state (lease_export l # ds) sm w =
     (let (n, sm', w') = lease_import_state ds (store_put (lease_id l) l sm) w
      in (Suc n, sm', w'))"
  by (simp add: lease_import_state.simps lease_from_export)

declare lease_import_state.simps [simp del]

lemma lease_import_exports:
  assumes "\<And>k l. (k, l) \<in> set d \<Longrightarrow> lease_id l = k \<and> k \<noteq> [] \<and> l_created_at_ms l \<noteq> 0"
    and "distinct (map fst (pre @ d))" "objects sm = pre"
  shows "lease_import_state (map lease_export (map snd d)) sm w = (length d, sm\<lparr>objects := pre @ d\<rparr>, w)"
  using assms
proof (induction d arbitrary: pre sm)
  case Nil
  then show ?case by (simp add: lease_import_state.simps)
next
  case (Cons p d)
  obtain k l where p: "p = (k, l)" by fastforce
  have l: "lease_id l = k" "k \<noteq> []" "l_created_at_ms l \<noteq> 0"
    using Cons.prems(1)[of k l] p by auto
  have "map_of pre k = None"
    using Cons.prems(2) p by (auto simp: map_of_eq_None_iff)
  then have put: "store_put k l sm = sm\<lparr>objects := pre @ [(k, l)]\<rparr>"
    using Cons.prems(3) by (simp add: store_put_def update_absent)
  have "lease_import_state (map lease_export (map snd d)) (store_put k l sm) w =
     (length d, (store_put k l sm)\<lparr>objects := (pre @ [(k, l)]) @ d\<rparr>, w)"
  proof (rule Cons.IH)
    show "lease_id b = i \<and> i \<noteq> [] \<and> l_created_at_ms b \<noteq> 0" if "(i, b) \<in> set d" for i b
      using Cons.prems(1)[of i b] that by simp
    show "distinct (map fst ((pre @ [(k, l)]) @ d))"
      using Cons.prems(2) p by simp
    show "objects (store_put k l sm) = pre @ [(k, l)]"
      using put by simp
  qed
  then have "lease_import_state (map lease_export (map snd d)) (store_put k l sm) w =
     (length d, sm\<lparr>objects := pre @ p # d\<rparr>, w)"
    using put p by simp
  then show ?case
    using p l lease_import_step[of l "map lease_export (map snd d)" sm w] by simp
qed

section \<open>Properties\<close>

text \<open>The history of the witnesses: a lease is drafted, registered, activated, bridged with a
  risk reference and consumed, each in its own environment.\<close>

definition demo_lease_id :: string where
  "demo_lease_id = ''lease:00000000''"

definition demo_lease_draft :: "lease_sm" where
  "demo_lease_draft = fst (snd (lease_create_draft [] ''h5'' ''H5'' [] None (Some 5000)
     (new_store False) (sample_world 1)))"

definition demo_lease_active :: "lease_sm" where
  "demo_lease_active = fst (snd (lease_activate demo_lease_id
     (fst (snd (lease_register demo_lease_id demo_lease_draft (sample_world 2))))
     (sample_world 3)))"

definition demo_lease_bridged :: "lease_sm" where
  "demo_lease_bridged = fst (snd (lease_bridge demo_lease_id ''risk-1'' demo_lease_active
     (sample_world 4)))"

definition demo_lease_consumed :: "lease_sm" where
  "demo_lease_consumed = fst (snd (lease_consume demo_lease_id demo_lease_bridged (sample_world 5)))"

lemma lease_step_transition: "lease_step sm (fst (snd (lease_transition c sm w)))"
  by (metis lease_step.called prod.collapse)

lemma lease_step_bridge: "lease_step sm (fst (snd (lease_bridge lid rr sm w)))"
  by (metis lease_step.bridged prod.collapse)

lemma demo_lease_active_reachable: "lease_reachable demo_lease_active"
proof -
  obtain l sm w where d: "lease_create_draft [] ''h5'' ''H5'' [] None (Some 5000)
     (new_store False) (sample_world 1) = (l, sm, w)" by (metis prod_cases3)
  have "lease_step (new_store False) sm"
    using d by (rule lease_step.created) (simp add: store_get_def new_store_def)
  then have "lease_reachable demo_lease_draft"
    using lease_reachable.start lease_reachable.step d by (auto simp: demo_lease_draft_def)
  then show ?thesis
    unfolding demo_lease_active_def lease_register_def lease_activate_def
    by (intro lease_reachable.step[OF _ lease_step_transition])
qed

lemma demo_lease_reachable:
  "lease_reachable demo_lease_bridged" "lease_reachable demo_lease_consumed"
  unfolding demo_lease_consumed_def demo_lease_bridged_def lease_consume_def
  by (intro lease_reachable.step[OF _ lease_step_transition]
      lease_reachable.step[OF _ lease_step_bridge] demo_lease_active_reachable)+

lemma demo_lease_eval:
  "map (\<lambda>(k, l). (k, l_state l, l_expires_at_ms l, l_created_at_ms l)) (objects demo_lease_active) =
     [(demo_lease_id, L_ACTIVE, Some 5000, 1000)]"
  by code_simp

lemma demo_lease_get:
  "\<exists>l. store_get demo_lease_id demo_lease_active = Some l \<and> store_get_all demo_lease_active = [l] \<and>
     (l_state l, l_expires_at_ms l, l_created_at_ms l) = (L_ACTIVE, Some 5000, 1000)"
  using single_object[OF demo_lease_eval] .

lemma demo_lease_later_eval:
  "\<exists>l. store_get demo_lease_id demo_lease_bridged = Some l \<and>
     store_get_all demo_lease_bridged = [l] \<and> l_state l = L_BRIDGED"
  "\<exists>l. store_get demo_lease_id demo_lease_consumed = Some l \<and>
     store_get_all demo_lease_consumed = [l] \<and> l_state l = L_CONSUMED"
proof -
  show "\<exists>l. store_get demo_lease_id demo_lease_bridged = Some l \<and>
     store_get_all demo_lease_bridged = [l] \<and> l_state l = L_BRIDGED"
    by (rule single_object) code_simp
  show "\<exists>l. store_get demo_lease_id demo_lease_consumed = Some l \<and>
     store_get_all demo_lease_consumed = [l] \<and> l_state l = L_CONSUMED"
    by (rule single_object) code_simp
qed


text \<open>C6: However the lease machine is used (imports of saved state apart), a lease past DRAFT that was not rejected has the
  registration by the control plane or an operator on its trail; a BRIDGED or CONSUMED lease
  has the step from ACTIVE to BRIDGED; and a CONSUMED lease was closed last, out of BRIDGED,
  by the execution flow or the control plane. No lease skips registration or activation.\<close>

theorem lease_chain_of_custody:
  assumes "lease_reachable sm" "store_get k sm = Some l"
  shows "(l_state l \<notin> {L_DRAFT, L_REJECTED} \<longrightarrow> was_registered l) \<and>
    (l_state l \<in> {L_BRIDGED, L_CONSUMED} \<longrightarrow> was_bridged l) \<and>
    (l_state l = L_CONSUMED \<longrightarrow> was_closed l) \<and>
    linked ''NONE'' (l_transitions l) (lease_state_value (l_state l)) \<and>
    l_version l = int (length (l_transitions l))"
proof -
  have "lease_inv sm" using assms(1) by (rule lease_reachable_inv)
  with assms(2) have "lease_sound l" by (auto simp: lease_inv_def)
  then show ?thesis by (simp add: lease_sound_def trail_ok_def)
qed

lemma lease_chain_of_custody_witness:
  "\<exists>l. store_get demo_lease_id demo_lease_consumed = Some l \<and>
     was_registered l \<and> was_bridged l \<and> was_closed l"
proof -
  obtain l where l: "store_get demo_lease_id demo_lease_consumed = Some l" "l_state l = L_CONSUMED"
    using demo_lease_later_eval(2) by blast
  from lease_chain_of_custody[OF demo_lease_reachable(2) l(1)] l show ?thesis by simp
qed

text \<open>A revoked, expired, rejected or consumed lease is final: nothing the machine does
  afterwards changes it, not even the note of a risk decision by a later bridging attempt.\<close>

theorem lease_terminal_final:
  assumes "lease_step\<^sup>*\<^sup>* sm sm'" "store_get k sm = Some l" "lease_is_terminal l"
  shows "store_get k sm' = Some l"
  using assms by (induction rule: rtranclp_induct) (auto intro: lease_step_terminal)

lemma lease_terminal_final_witness:
  "store_get demo_lease_id (fst (snd (lease_bridge demo_lease_id ''r'' demo_lease_consumed
     (sample_world 7)))) = store_get demo_lease_id demo_lease_consumed"
proof -
  obtain l where l: "store_get demo_lease_id demo_lease_consumed = Some l" "l_state l = L_CONSUMED"
    using demo_lease_later_eval(2) by blast
  show ?thesis
    unfolding l(1)
    by (rule lease_terminal_final[OF r_into_rtranclp[where r = lease_step, OF lease_step_bridge] l(1)])
      (simp add: lease_is_terminal_def lease_terminal_states_def l)
qed

text \<open>One expiry sweep over leases, on a clock that does not run backwards: a REGISTERED,
  ACTIVE or FROZEN lease past its expiry becomes EXPIRED; everything else is left as it was.
  In particular a BRIDGED lease is never closed by the sweep, however long it lingers.\<close>

theorem lease_expiry_exact:
  assumes "lease_reachable sm" "clock_mono w" "store_get k sm = Some l"
    and "lease_check_expiry sm w = (ids, sm', w')"
  shows "(l_state l \<in> {L_REGISTERED, L_ACTIVE, L_FROZEN} \<and>
       (\<exists>t. l_expires_at_ms l = Some t \<and> t < millis (clock w (ticks w))) \<longrightarrow>
         k \<in> set ids \<and> (\<exists>x. store_get k sm' = Some x \<and> l_state x = L_EXPIRED \<and>
                                 l_version x = l_version l + 1)) \<and>
    (l_state l \<notin> {L_REGISTERED, L_ACTIVE, L_FROZEN} \<or> l_expires_at_ms l = None \<or>
       millis (clock w (ticks w')) \<le> the (l_expires_at_ms l) \<longrightarrow>
         k \<notin> set ids \<and> store_get k sm' = Some l)"
proof -
  have keyed: "keyed lease_id sm"
    using lease_reachable_inv[OF assms(1)] by (simp add: lease_inv_def)
  have mk: "c_id (lease_expiry_call i) = i" "c_to (lease_expiry_call i) = L_EXPIRED"
    "c_initiator (lease_expiry_call i) = LI_EXPIRY_GUARDIAN" "c_approved_by (lease_expiry_call i) = None"
    for i by (simp_all add: lease_expiry_call_def)
  note spec = lease.check_expiry_spec[OF keyed mk assms(4)[unfolded lease_check_expiry_def],
      unfolded lease_permitted_expiry]
  have mono: "i \<le> j \<Longrightarrow> millis (clock w i) \<le> millis (clock w j)" for i j
    using assms(2) by (simp add: clock_mono_def)
  have in_ids: "k \<in> set ids" if "l_state l \<in> {L_REGISTERED, L_ACTIVE, L_FROZEN}"
    "l_expires_at_ms l = Some t" "t < millis (clock w (ticks w))" for t
  proof (rule spec(3)[OF assms(3) that(1) _ that(2)])
    show "\<not> lease_is_terminal l"
      using that(1) by (auto simp: lease_is_terminal_def lease_terminal_states_def)
    show "t < millis (clock w n)" if "ticks w \<le> n" "n < ticks w'" for n
      using mono[of "ticks w" n] that \<open>t < _\<close> by simp
  qed
  have out: "k \<notin> set ids" if "l_state l \<notin> {L_REGISTERED, L_ACTIVE, L_FROZEN} \<or>
      l_expires_at_ms l = None \<or> millis (clock w (ticks w')) \<le> the (l_expires_at_ms l)"
  proof
    assume "k \<in> set ids"
    from spec(1)[OF this] assms(3) obtain t n where
      "l_state l \<in> {L_REGISTERED, L_ACTIVE, L_FROZEN}" "l_expires_at_ms l = Some t" "n < ticks w'"
      "t < millis (clock w n)" by auto
    with that mono[of n "ticks w'"] show False by auto
  qed
  have moved: "\<exists>x. store_get k sm' = Some x \<and> l_state x = L_EXPIRED \<and> l_version x = l_version l + 1"
    if "k \<in> set ids"
    using spec(1)[OF that] assms(3) by auto
  have kept: "store_get k sm' = Some l" if "k \<notin> set ids"
    using spec(2)[OF that] assms(3) by simp
  from in_ids out moved kept show ?thesis by blast
qed

lemma lease_expiry_exact_witness:
  "demo_lease_id \<in> set (fst (lease_check_expiry demo_lease_active (sample_world 6))) \<and>
   demo_lease_id \<notin> set (fst (lease_check_expiry demo_lease_bridged (sample_world 6)))"
proof -
  obtain ids sm' w' where e: "lease_check_expiry demo_lease_active (sample_world 6) = (ids, sm', w')"
    by (metis prod_cases3)
  obtain js sm2 w2 where f: "lease_check_expiry demo_lease_bridged (sample_world 6) = (js, sm2, w2)"
    by (metis prod_cases3)
  obtain l where l: "store_get demo_lease_id demo_lease_active = Some l" "l_state l = L_ACTIVE"
    "l_expires_at_ms l = Some 5000" using demo_lease_get by auto
  obtain x where x: "store_get demo_lease_id demo_lease_bridged = Some x" "l_state x = L_BRIDGED"
    using demo_lease_later_eval(1) by blast
  show ?thesis
    using lease_expiry_exact[OF demo_lease_active_reachable sample_clock_mono l(1) e]
      lease_expiry_exact[OF demo_lease_reachable(1) sample_clock_mono x(1) f] e f
    by (simp add: l x sample_world_now)
qed

text \<open>Bridging depends on the state alone: \<open>bridge\<close> succeeds exactly on an existing ACTIVE
  lease, whatever the clock says. The lease's validity window and expiry are not consulted.\<close>

theorem lease_bridge_exact:
  "(\<exists>x. fst (lease_bridge lid risk_ref sm w) = Inr x) \<longleftrightarrow>
   (\<exists>l. store_get lid sm = Some l \<and> lease_is_bridgeable l)"
proof -
  let ?c = "lease_bridge_call lid"
  have c: "c_id ?c = lid" "c_to ?c = L_BRIDGED" "c_initiator ?c = LI_RISK_GOVERNOR"
    by (simp_all add: lease_bridge_call_def)
  obtain res sm' w' where t: "lease_transition ?c sm w = (res, sm', w')" by (metis prod_cases3)
  have "(\<exists>x. res = Inr x) \<longleftrightarrow> (\<exists>l. store_get lid sm = Some l \<and> lease_is_bridgeable l)"
  proof
    assume "\<exists>x. res = Inr x"
    then obtain x where "res = Inr x" by blast
    with t lease.accepted[of ?c sm w x sm' w'] c
    show "\<exists>l. store_get lid sm = Some l \<and> lease_is_bridgeable l"
      by (auto simp: lease_permitted_bridged lease_is_bridgeable_def lease_bridgeable_states_def)
  next
    assume "\<exists>l. store_get lid sm = Some l \<and> lease_is_bridgeable l"
    then obtain l where "store_get lid sm = Some l" "l_state l = L_ACTIVE"
      by (auto simp: lease_is_bridgeable_def lease_bridgeable_states_def)
    with lease.complete[of ?c sm l w] c t show "\<exists>x. res = Inr x"
      by (auto simp: lease_permitted_bridged)
  qed
  with t show ?thesis by (cases res) (simp_all add: lease_bridge_def)
qed

text \<open>Persistence is a round trip for leases too: importing what a reachable machine exported
  into a fresh one restores exactly its leases, in order.\<close>

theorem lease_roundtrip:
  assumes "lease_reachable sm" "\<forall>l \<in> set (store_get_all sm). l_created_at_ms l \<noteq> 0"
  shows "lease_import_state (lease_export_state sm) (new_store cb) w =
    (length (objects sm), (new_store cb)\<lparr>objects := objects sm\<rparr>, w)"
proof -
  have inv: "lease_inv sm" using assms(1) by (rule lease_reachable_inv)
  then have d: "distinct (map fst (objects sm))"
    and k: "(k, l) \<in> set (objects sm) \<Longrightarrow> lease_id l = k" for k l
    by (auto simp: lease_inv_def keyed_def)
  have "lease_id l = k \<and> k \<noteq> [] \<and> l_created_at_ms l \<noteq> 0" if "(k, l) \<in> set (objects sm)" for k l
  proof -
    have "store_get k sm = Some l" using that d by (simp add: store_get_def)
    with inv have "lease_id l \<noteq> []" by (auto simp: lease_inv_def lease_sound_def)
    with k[OF that] that assms(2) show ?thesis by (force simp: store_get_all_def)
  qed
  from lease_import_exports[where d = "objects sm" and pre = "[]" and sm = "new_store cb", OF this] d
  show ?thesis
    by (simp add: lease_export_state_def store_get_all_def new_store_def)
qed

lemma lease_roundtrip_witness:
  "fst (lease_import_state (lease_export_state demo_lease_active) (new_store False) (sample_world 9)) =
     length (objects demo_lease_active)"
  by (subst lease_roundtrip[OF demo_lease_active_reachable]) (use demo_lease_get in auto)

text \<open>Over any sequence of calls the lease machine behaves as the abstract machine that keeps
  nothing but the state of each lease and moves it when the guards permit.\<close>

theorem lease_refines_lifecycle:
  "states_of l_state (fst (run_calls lease_transition cs (sm, w))) =
     fold (lifecycle lease_class) cs (states_of l_state sm)"
  by (simp add: lease.refines_run)

text \<open>No lease is ever beyond the operator's reach: from every state that is not terminal one
  call in the operator's name, with a named approver, ends it, and no call made afterwards
  changes it again.\<close>

theorem lease_operator_can_end:
  assumes "store_get k sm = Some l" "l_state l \<notin> set lease_terminal_states" "who \<noteq> []"
  shows "\<exists>t x sm' w'. t \<in> set lease_terminal_states \<and>
    lease_transition \<lparr>c_id = k, c_to = t, c_event = ev, c_initiator = LI_OPERATOR, c_reason_codes = rc,
      c_approved_by = Some who, c_reason = why\<rparr> sm w = (Inr x, sm', w') \<and> l_state x = t \<and>
    (\<forall>cs. store_get k (fst (run_calls lease_transition cs (sm', w'))) = Some x)"
proof -
  define t where "t = (if l_state l = L_DRAFT then L_REJECTED else L_REVOKED)"
  have "permitted lease_class (l_state l) t LI_OPERATOR (Some who)"
    using assms(2,3) by (cases "l_state l") (auto simp: t_def lease_permitted str_given_def)
  moreover have "t \<in> set lease_terminal_states" by (simp add: t_def lease_terminal_states_def)
  ultimately show ?thesis
    using lease.end_for_good[of "\<lparr>c_id = k, c_to = t, c_event = ev, c_initiator = LI_OPERATOR,
      c_reason_codes = rc, c_approved_by = Some who, c_reason = why\<rparr>" sm l w] assms(1)
    by (auto simp: lease_class_def)
qed

lemma lease_operator_can_end_witness:
  "\<exists>t x (sm :: lease_sm). t \<in> set lease_terminal_states \<and> store_get demo_lease_id sm = Some x \<and> l_state x = t"
proof -
  obtain l where l: "store_get demo_lease_id demo_lease_active = Some l" "l_state l \<notin> set lease_terminal_states"
    using demo_lease_get by (auto simp: lease_terminal_states_def)
  from lease_operator_can_end[OF l, of "''op''"] obtain t x sm' w' where
    "t \<in> set lease_terminal_states" "l_state x = t"
    "\<forall>cs. store_get demo_lease_id (fst (run_calls lease_transition cs (sm', w'))) = Some x" by blast
  from this(1,2) this(3)[THEN spec, of "[]"] show ?thesis by (metis run_calls.simps(1))
qed

end
