(* ===== verification/Risk_SM.thy ===== *)
theory Risk_SM
  imports SM_Base Py_Float
begin

text \<open>
  The risk governor SM-04 (\<open>app/risk_governor_state_machine.py\<close>): one six-level state,
  escalated automatically by metrics and health events and lowered only under governance. The
  properties state what lowering the level takes, that automatic evaluation never lowers it
  and reaches the level the metrics ask for, and what each level lets through.
\<close>

section \<open>Levels, events, initiators\<close>

datatype RiskLevel = R_NORMAL | R_CAUTIOUS | R_REDUCED | R_DEFENSIVE | R_CIRCUIT_BREAKER
  | R_MANUAL_REVIEW

fun level_value :: "RiskLevel \<Rightarrow> int" where
  "level_value R_NORMAL = 0"
| "level_value R_CAUTIOUS = 1"
| "level_value R_REDUCED = 2"
| "level_value R_DEFENSIVE = 3"
| "level_value R_CIRCUIT_BREAKER = 4"
| "level_value R_MANUAL_REVIEW = 5"

fun level_name :: "RiskLevel \<Rightarrow> string" where
  "level_name R_NORMAL = ''NORMAL''"
| "level_name R_CAUTIOUS = ''CAUTIOUS''"
| "level_name R_REDUCED = ''REDUCED''"
| "level_name R_DEFENSIVE = ''DEFENSIVE''"
| "level_name R_CIRCUIT_BREAKER = ''CIRCUIT_BREAKER''"
| "level_name R_MANUAL_REVIEW = ''MANUAL_REVIEW''"

text \<open>An \<open>IntEnum\<close> compares by its values.\<close>

instantiation RiskLevel :: linorder
begin

definition less_eq_RiskLevel :: "RiskLevel \<Rightarrow> RiskLevel \<Rightarrow> bool" where
  "less_eq_RiskLevel a b \<longleftrightarrow> level_value a \<le> level_value b"

definition less_RiskLevel :: "RiskLevel \<Rightarrow> RiskLevel \<Rightarrow> bool" where
  "less_RiskLevel a b \<longleftrightarrow> level_value a < level_value b"

instance
proof
  fix a b c :: RiskLevel
  show "(a < b) = (a \<le> b \<and> \<not> b \<le> a)"
    by (auto simp: less_eq_RiskLevel_def less_RiskLevel_def)
  show "a \<le> a" by (simp add: less_eq_RiskLevel_def)
  show "a \<le> c" if "a \<le> b" "b \<le> c" using that by (simp add: less_eq_RiskLevel_def)
  show "a = b" if "a \<le> b" "b \<le> a"
    using that by (cases a; cases b) (simp_all add: less_eq_RiskLevel_def)
  show "a \<le> b \<or> b \<le> a" by (auto simp: less_eq_RiskLevel_def)
qed

end

lemmas level_order = less_eq_RiskLevel_def less_RiskLevel_def

definition risk_levels :: "RiskLevel list" where
  "risk_levels = [R_NORMAL, R_CAUTIOUS, R_REDUCED, R_DEFENSIVE, R_CIRCUIT_BREAKER, R_MANUAL_REVIEW]"

text \<open>\<open>RiskLevel[name]\<close>; None is the \<open>KeyError\<close>.\<close>

definition level_of_name :: "string \<Rightarrow> RiskLevel option" where
  "level_of_name s = find (\<lambda>l. level_name l = s) risk_levels"

definition level_of_value :: "int \<Rightarrow> RiskLevel option" where
  "level_of_value i = find (\<lambda>l. level_value l = i) risk_levels"

datatype RiskEvent = RE_DRAWDOWN_WARNING | RE_DRAWDOWN_CRITICAL | RE_DAILY_LOSS_WARNING
  | RE_DAILY_LOSS_BREACH | RE_CONSECUTIVE_LOSSES | RE_CORRELATION_BREACH
  | RE_MARGIN_UTILIZATION_HIGH | RE_HEALTH_DEGRADED | RE_MARKET_DATA_STALE
  | RE_API_CONNECTIVITY_LOSS | RE_INCIDENT_TRIGGERED | RE_OPERATOR_ESCALATION
  | RE_CONDITIONS_IMPROVED | RE_OPERATOR_DE_ESCALATION | RE_RECOVERY_APPROVED
  | RE_MANUAL_REVIEW_COMPLETED | RE_OPERATOR_CIRCUIT_BREAK | RE_OPERATOR_MANUAL_REVIEW
  | RE_OPERATOR_RESET_NORMAL

fun risk_event_value :: "RiskEvent \<Rightarrow> string" where
  "risk_event_value RE_DRAWDOWN_WARNING = ''drawdown_warning''"
| "risk_event_value RE_DRAWDOWN_CRITICAL = ''drawdown_critical''"
| "risk_event_value RE_DAILY_LOSS_WARNING = ''daily_loss_warning''"
| "risk_event_value RE_DAILY_LOSS_BREACH = ''daily_loss_breach''"
| "risk_event_value RE_CONSECUTIVE_LOSSES = ''consecutive_loss_threshold''"
| "risk_event_value RE_CORRELATION_BREACH = ''correlation_breach''"
| "risk_event_value RE_MARGIN_UTILIZATION_HIGH = ''margin_utilization_high''"
| "risk_event_value RE_HEALTH_DEGRADED = ''health_degraded''"
| "risk_event_value RE_MARKET_DATA_STALE = ''market_data_stale''"
| "risk_event_value RE_API_CONNECTIVITY_LOSS = ''api_connectivity_loss''"
| "risk_event_value RE_INCIDENT_TRIGGERED = ''incident_triggered''"
| "risk_event_value RE_OPERATOR_ESCALATION = ''operator_escalation''"
| "risk_event_value RE_CONDITIONS_IMPROVED = ''conditions_improved''"
| "risk_event_value RE_OPERATOR_DE_ESCALATION = ''operator_de_escalation''"
| "risk_event_value RE_RECOVERY_APPROVED = ''recovery_approved''"
| "risk_event_value RE_MANUAL_REVIEW_COMPLETED = ''manual_review_completed''"
| "risk_event_value RE_OPERATOR_CIRCUIT_BREAK = ''operator_circuit_break''"
| "risk_event_value RE_OPERATOR_MANUAL_REVIEW = ''operator_manual_review''"
| "risk_event_value RE_OPERATOR_RESET_NORMAL = ''operator_reset_normal''"

datatype RiskInitiator = RI_RISK_GOVERNOR | RI_OPERATOR | RI_INCIDENT_POLICY | RI_HEALTH_MONITOR
  | RI_EXPIRY_GUARDIAN

fun risk_initiator_value :: "RiskInitiator \<Rightarrow> string" where
  "risk_initiator_value RI_RISK_GOVERNOR = ''RiskGovernor''"
| "risk_initiator_value RI_OPERATOR = ''Operator''"
| "risk_initiator_value RI_INCIDENT_POLICY = ''IncidentPolicy''"
| "risk_initiator_value RI_HEALTH_MONITOR = ''HealthMonitor''"
| "risk_initiator_value RI_EXPIRY_GUARDIAN = ''ExpiryGuardian''"

text \<open>
  What callers pass as the initiator: a member of the enum, or (one caller does) a plain
  string. A member is equal to the string that is its value, but a string has no \<open>value\<close>.
\<close>

datatype risk_init = RI RiskInitiator | RawStr string

definition risk_initiators :: "RiskInitiator list" where
  "risk_initiators = [RI_RISK_GOVERNOR, RI_OPERATOR, RI_INCIDENT_POLICY, RI_HEALTH_MONITOR,
     RI_EXPIRY_GUARDIAN]"

fun init_key :: "risk_init \<Rightarrow> risk_init" where
  "init_key (RI i) = RI i"
| "init_key (RawStr s) =
     (case find (\<lambda>i. risk_initiator_value i = s) risk_initiators of
        None \<Rightarrow> RawStr s | Some i \<Rightarrow> RI i)"

section \<open>The transition table\<close>

record risk_rule = "(RiskLevel, risk_init) transition_rule" +
  direction :: string

definition risk_reg ::
  "RiskLevel \<Rightarrow> RiskLevel \<Rightarrow> string \<Rightarrow> bool \<Rightarrow> RiskInitiator list \<Rightarrow>
   ((RiskLevel \<times> RiskLevel) \<times> risk_rule) list \<Rightarrow> ((RiskLevel \<times> RiskLevel) \<times> risk_rule) list" where
  "risk_reg from_l to_l dir approval initiators table =
     AList.update (from_l, to_l)
       \<lparr>rule_from = from_l, rule_to = to_l, requires_approval = approval,
        allowed_initiators = map RI initiators, direction = dir\<rparr> table"

definition RG_AUTO :: "RiskInitiator list" where
  "RG_AUTO = [RI_RISK_GOVERNOR, RI_OPERATOR, RI_INCIDENT_POLICY, RI_HEALTH_MONITOR]"

definition RG_OPERATOR_GOV :: "RiskInitiator list" where
  "RG_OPERATOR_GOV = [RI_OPERATOR, RI_RISK_GOVERNOR]"

definition RG_OPERATOR_ONLY :: "RiskInitiator list" where
  "RG_OPERATOR_ONLY = [RI_OPERATOR]"

definition risk_rules :: "((RiskLevel \<times> RiskLevel) \<times> risk_rule) list" where
  "risk_rules = fold (\<lambda>(f, t, d, a, is). risk_reg f t d a is)
    [(R_NORMAL, R_CAUTIOUS, ''escalation'', False, RG_AUTO),
     (R_NORMAL, R_REDUCED, ''escalation'', False, RG_AUTO),
     (R_NORMAL, R_DEFENSIVE, ''escalation'', False, RG_AUTO),
     (R_NORMAL, R_CIRCUIT_BREAKER, ''escalation'', False, RG_AUTO),
     (R_NORMAL, R_MANUAL_REVIEW, ''escalation'', False, RG_OPERATOR_GOV),
     (R_CAUTIOUS, R_REDUCED, ''escalation'', False, RG_AUTO),
     (R_CAUTIOUS, R_DEFENSIVE, ''escalation'', False, RG_AUTO),
     (R_CAUTIOUS, R_CIRCUIT_BREAKER, ''escalation'', False, RG_AUTO),
     (R_CAUTIOUS, R_MANUAL_REVIEW, ''escalation'', False, RG_OPERATOR_GOV),
     (R_REDUCED, R_DEFENSIVE, ''escalation'', False, RG_AUTO),
     (R_REDUCED, R_CIRCUIT_BREAKER, ''escalation'', False, RG_AUTO),
     (R_REDUCED, R_MANUAL_REVIEW, ''escalation'', False, RG_OPERATOR_GOV),
     (R_DEFENSIVE, R_CIRCUIT_BREAKER, ''escalation'', False, RG_AUTO),
     (R_DEFENSIVE, R_MANUAL_REVIEW, ''escalation'', False, RG_OPERATOR_GOV),
     (R_CIRCUIT_BREAKER, R_MANUAL_REVIEW, ''lateral'', False, RG_OPERATOR_GOV),
     (R_CAUTIOUS, R_NORMAL, ''de_escalation'', True, RG_OPERATOR_GOV),
     (R_REDUCED, R_CAUTIOUS, ''de_escalation'', True, RG_OPERATOR_GOV),
     (R_REDUCED, R_NORMAL, ''de_escalation'', True, RG_OPERATOR_ONLY),
     (R_DEFENSIVE, R_REDUCED, ''de_escalation'', True, RG_OPERATOR_GOV),
     (R_DEFENSIVE, R_CAUTIOUS, ''de_escalation'', True, RG_OPERATOR_ONLY),
     (R_CIRCUIT_BREAKER, R_DEFENSIVE, ''de_escalation'', True, RG_OPERATOR_ONLY),
     (R_CIRCUIT_BREAKER, R_MANUAL_REVIEW, ''lateral'', False, RG_OPERATOR_GOV),
     (R_MANUAL_REVIEW, R_DEFENSIVE, ''de_escalation'', True, RG_OPERATOR_ONLY),
     (R_MANUAL_REVIEW, R_REDUCED, ''de_escalation'', True, RG_OPERATOR_ONLY),
     (R_MANUAL_REVIEW, R_CAUTIOUS, ''de_escalation'', True, RG_OPERATOR_ONLY),
     (R_MANUAL_REVIEW, R_NORMAL, ''de_escalation'', True, RG_OPERATOR_ONLY)] []"

definition risk_class :: "(RiskLevel, risk_rule) sm_class" where
  "risk_class = \<lparr>tx_prefix = ''rgt'', ev_prefix = ''revt'', aud_prefix = ''raud'',
     change_label = ''RiskGovernor'', terminal_states = [], forbidden_transitions = [],
     transition_rules = risk_rules, state_value = level_name\<rparr>"

section \<open>Constraints and thresholds\<close>

record LevelConstraints =
  new_entries_allowed :: bool
  position_size_multiplier :: pyfloat
  reduce_only :: bool
  active_de_risking :: bool
  emergency_stops :: bool
  requires_operator :: bool

fun level_constraints :: "RiskLevel \<Rightarrow> LevelConstraints" where
  "level_constraints R_NORMAL =
     \<lparr>new_entries_allowed = True, position_size_multiplier = Fin 1, reduce_only = False,
      active_de_risking = False, emergency_stops = False, requires_operator = False\<rparr>"
| "level_constraints R_CAUTIOUS =
     \<lparr>new_entries_allowed = True, position_size_multiplier = flit (7/10), reduce_only = False,
      active_de_risking = False, emergency_stops = False, requires_operator = False\<rparr>"
| "level_constraints R_REDUCED =
     \<lparr>new_entries_allowed = False, position_size_multiplier = Fin (1/2), reduce_only = True,
      active_de_risking = False, emergency_stops = False, requires_operator = False\<rparr>"
| "level_constraints R_DEFENSIVE =
     \<lparr>new_entries_allowed = False, position_size_multiplier = Fin 0, reduce_only = True,
      active_de_risking = True, emergency_stops = False, requires_operator = False\<rparr>"
| "level_constraints R_CIRCUIT_BREAKER =
     \<lparr>new_entries_allowed = False, position_size_multiplier = Fin 0, reduce_only = True,
      active_de_risking = True, emergency_stops = True, requires_operator = True\<rparr>"
| "level_constraints R_MANUAL_REVIEW =
     \<lparr>new_entries_allowed = False, position_size_multiplier = Fin 0, reduce_only = True,
      active_de_risking = False, emergency_stops = True, requires_operator = True\<rparr>"

record EscalationThresholds =
  drawdown_cautious_pct :: pyfloat
  drawdown_reduced_pct :: pyfloat
  drawdown_defensive_pct :: pyfloat
  drawdown_circuit_breaker_pct :: pyfloat
  daily_loss_cautious_pct :: pyfloat
  daily_loss_reduced_pct :: pyfloat
  daily_loss_circuit_breaker_pct :: pyfloat
  consecutive_loss_cautious :: int
  consecutive_loss_reduced :: int
  consecutive_loss_circuit_breaker :: int
  pressure_cautious :: pyfloat
  pressure_reduced :: pyfloat
  pressure_defensive :: pyfloat
  pressure_circuit_breaker :: pyfloat
  health_degraded_triggers_level :: RiskLevel
  market_data_stale_triggers_level :: RiskLevel
  api_loss_triggers_level :: RiskLevel
  min_hold_time_seconds :: pyfloat

definition default_thresholds :: EscalationThresholds where
  "default_thresholds =
     \<lparr>drawdown_cautious_pct = Fin 5, drawdown_reduced_pct = Fin 8,
      drawdown_defensive_pct = Fin 12, drawdown_circuit_breaker_pct = Fin 15,
      daily_loss_cautious_pct = Fin 2, daily_loss_reduced_pct = Fin (7/2),
      daily_loss_circuit_breaker_pct = Fin 5,
      consecutive_loss_cautious = 3, consecutive_loss_reduced = 5,
      consecutive_loss_circuit_breaker = 10,
      pressure_cautious = flit (3/10), pressure_reduced = Fin (1/2),
      pressure_defensive = flit (7/10), pressure_circuit_breaker = flit (9/10),
      health_degraded_triggers_level = R_REDUCED,
      market_data_stale_triggers_level = R_CIRCUIT_BREAKER,
      api_loss_triggers_level = R_CIRCUIT_BREAKER,
      min_hold_time_seconds = Fin 300\<rparr>"

definition thresholds_to_dict :: "EscalationThresholds \<Rightarrow> pydict" where
  "thresholds_to_dict t =
     [(''drawdown_cautious_pct'', PFloat (drawdown_cautious_pct t)),
      (''drawdown_reduced_pct'', PFloat (drawdown_reduced_pct t)),
      (''drawdown_defensive_pct'', PFloat (drawdown_defensive_pct t)),
      (''drawdown_circuit_breaker_pct'', PFloat (drawdown_circuit_breaker_pct t)),
      (''daily_loss_cautious_pct'', PFloat (daily_loss_cautious_pct t)),
      (''daily_loss_reduced_pct'', PFloat (daily_loss_reduced_pct t)),
      (''daily_loss_circuit_breaker_pct'', PFloat (daily_loss_circuit_breaker_pct t)),
      (''consecutive_loss_cautious'', PInt (consecutive_loss_cautious t)),
      (''consecutive_loss_reduced'', PInt (consecutive_loss_reduced t)),
      (''consecutive_loss_circuit_breaker'', PInt (consecutive_loss_circuit_breaker t)),
      (''pressure_cautious'', PFloat (pressure_cautious t)),
      (''pressure_reduced'', PFloat (pressure_reduced t)),
      (''pressure_defensive'', PFloat (pressure_defensive t)),
      (''pressure_circuit_breaker'', PFloat (pressure_circuit_breaker t)),
      (''health_degraded_triggers_level'', PStr (level_name (health_degraded_triggers_level t))),
      (''market_data_stale_triggers_level'', PStr (level_name (market_data_stale_triggers_level t))),
      (''api_loss_triggers_level'', PStr (level_name (api_loss_triggers_level t))),
      (''min_hold_time_seconds'', PFloat (min_hold_time_seconds t))]"

section \<open>The governor\<close>

record GovernorState =
  g_level :: RiskLevel
  g_level_entered_at_ms :: int
  g_consecutive_escalations :: int
  g_last_event :: string
  g_last_initiator :: string
  g_last_reason :: string
  g_transitions :: "pydict list"
  g_version :: int

record risk_sm =
  r_state :: GovernorState
  r_thresholds :: EscalationThresholds
  r_audit_cb :: bool
  r_cal_injected :: bool

type_synonym risk_error = "(RiskLevel, risk_init) sm_error"

text \<open>The constructor reads the clock when it is given no entry time (0); so does a clone.\<close>

definition gov_post_init :: "GovernorState \<Rightarrow> 'z env_scheme \<Rightarrow> GovernorState \<times> 'z env_scheme" where
  "gov_post_init s w =
     (if g_level_entered_at_ms s = 0
      then (let (t, w1) = now_ms w in (s\<lparr>g_level_entered_at_ms := t\<rparr>, w1)) else (s, w))"

definition risk_new :: "EscalationThresholds option \<Rightarrow> bool \<Rightarrow> 'z env_scheme \<Rightarrow> risk_sm \<times> 'z env_scheme" where
  "risk_new thresholds cb w =
     (let (s, w1) = gov_post_init
            \<lparr>g_level = R_NORMAL, g_level_entered_at_ms = 0, g_consecutive_escalations = 0,
             g_last_event = [], g_last_initiator = [], g_last_reason = [], g_transitions = [],
             g_version = 1\<rparr> w
      in (\<lparr>r_state = s,
           r_thresholds = (case thresholds of None \<Rightarrow> default_thresholds | Some t \<Rightarrow> t),
           r_audit_cb = cb, r_cal_injected = False\<rparr>, w1))"

definition risk_set_change_audit_log :: "risk_sm \<Rightarrow> risk_sm" where
  "risk_set_change_audit_log sm = sm\<lparr>r_cal_injected := True\<rparr>"

definition risk_level :: "risk_sm \<Rightarrow> RiskLevel" where
  "risk_level sm = g_level (r_state sm)"

definition risk_constraints :: "risk_sm \<Rightarrow> LevelConstraints" where
  "risk_constraints sm = level_constraints (risk_level sm)"

text \<open>\<open>_extra_validate\<close>: a de-escalation must have held its level long enough.\<close>

definition risk_extra_validate ::
  "risk_sm \<Rightarrow> RiskLevel \<Rightarrow> RiskLevel \<Rightarrow> risk_rule \<Rightarrow> 'z env_scheme \<Rightarrow>
   risk_error option \<times> 'z env_scheme" where
  "risk_extra_validate sm from_l to_l rule w =
     (if direction rule = ''de_escalation'' then
        (let (now, w1) = now_ms w;
             held = now - g_level_entered_at_ms (r_state sm)
         in (case int_of_float (fmul (min_hold_time_seconds (r_thresholds sm)) (Fin 1000)) of
               None \<Rightarrow> (Some BadNumber, w1)
             | Some min_hold \<Rightarrow>
                 (if held < min_hold then (Some (HoldTime (min_hold - held)), w1) else (None, w1))))
      else (None, w))"

text \<open>
  The guard chain for an initiator that may be a plain string: the refusal message reads
  \<open>initiator.value\<close>, which a string does not have.
\<close>

definition risk_validate ::
  "risk_sm \<Rightarrow> RiskLevel \<Rightarrow> RiskLevel \<Rightarrow> risk_init \<Rightarrow> string option \<Rightarrow> 'z env_scheme \<Rightarrow>
   (risk_error + risk_rule) \<times> 'z env_scheme" where
  "risk_validate sm from_l to_l initiator approved_by w =
     (case validate_transition risk_class (risk_extra_validate sm) from_l to_l
            (init_key initiator) approved_by w of
        (Inl e, w1) \<Rightarrow>
          (Inl (case (e, initiator) of
                  (InitiatorDenied i f t, RawStr s) \<Rightarrow> NoValueAttribute s | _ \<Rightarrow> e), w1)
      | (Inr rule, w1) \<Rightarrow> (Inr rule, w1))"

record risk_call =
  rc_to :: RiskLevel
  rc_event :: RiskEvent
  rc_initiator :: risk_init
  rc_reason_codes :: "string list option"
  rc_approved_by :: "string option"
  rc_reason :: string
  rc_metrics :: "pydict option"

type_synonym risk_op = "risk_sm \<Rightarrow> world \<Rightarrow> (risk_error + GovernorState) \<times> risk_sm \<times> world"

definition level_direction :: "RiskLevel \<Rightarrow> RiskLevel \<Rightarrow> string" where
  "level_direction from_l to_l =
     (if from_l < to_l then ''escalation'' else if to_l < from_l then ''de_escalation''
      else ''lateral'')"

definition risk_rename :: "pydict \<Rightarrow> pydict" where
  "risk_rename r =
     dict_rename ''transition_reason_codes'' ''reason_codes''
       (dict_rename ''trigger_event_type'' ''trigger_event''
         (dict_rename ''next_status'' ''next_level''
           (dict_rename ''previous_status'' ''previous_level'' r)))"

definition risk_record ::
  "risk_call \<Rightarrow> string \<Rightarrow> GovernorState \<Rightarrow> 'z env_scheme \<Rightarrow> pydict \<times> 'z env_scheme" where
  "risk_record c initiator_value s w =
     (let from_l = g_level s;
          (now, w1) = now_ms w;
          extra = [(''direction'', PStr (level_direction from_l (rc_to c))),
                   (''level_held_ms'', PInt (now - g_level_entered_at_ms s)),
                   (''metrics_snapshot'',
                     PDict (case rc_metrics c of None \<Rightarrow> [] | Some d \<Rightarrow> d))];
          (record, w2) = build_transition_record risk_class from_l (rc_to c) None None
             (risk_event_value (rc_event c)) initiator_value (g_version s) (rc_reason_codes c)
             (rc_approved_by c) (Some (level_name from_l)) (Some (level_name (rc_to c))) extra w1
      in (risk_rename record, w2))"

definition risk_apply :: "risk_call \<Rightarrow> string \<Rightarrow> pydict \<Rightarrow> int \<Rightarrow> GovernorState \<Rightarrow> GovernorState" where
  "risk_apply c initiator_value record entered s =
     s\<lparr>g_level := rc_to c, g_level_entered_at_ms := entered, g_version := g_version s + 1,
       g_last_event := risk_event_value (rc_event c), g_last_initiator := initiator_value,
       g_last_reason := rc_reason c, g_transitions := g_transitions s @ [record],
       g_consecutive_escalations :=
         (if g_level s < rc_to c then g_consecutive_escalations s + 1 else 0)\<rparr>"

definition risk_transition :: "risk_call \<Rightarrow> risk_op" where
  "risk_transition c sm w =
     (let s = r_state sm; from_l = g_level s
      in if from_l = rc_to c then
           (let (copy, w1) = gov_post_init s w in (Inr copy, sm, w1))
         else
           (case risk_validate sm from_l (rc_to c) (rc_initiator c) (rc_approved_by c) w of
              (Inl e, w1) \<Rightarrow> (Inl e, sm, w1)
            | (Inr rule, w1) \<Rightarrow>
                (case rc_initiator c of
                   RawStr str \<Rightarrow> (Inl (NoValueAttribute str), sm, snd (now_ms w1))
                 | RI i \<Rightarrow>
                     (let iv = risk_initiator_value i;
                          (record, w2) = risk_record c iv s w1;
                          (entered, w3) = now_ms w2;
                          s' = risk_apply c iv record entered s;
                          w4 = record_change_audit (change_label risk_class) (r_cal_injected sm)
                                 (level_name from_l) (level_name (rc_to c)) iv
                                 (rc_approved_by c) (rc_reason c) None w3;
                          (copy, w5) = gov_post_init s' w4
                      in (Inr copy, sm\<lparr>r_state := s'\<rparr>,
                          emit_audit ''risk_governor'' (r_audit_cb sm) record w5)))))"


section \<open>Escalation and de-escalation\<close>

definition risk_escalate_to ::
  "RiskLevel \<Rightarrow> string \<Rightarrow> RiskEvent \<Rightarrow> risk_init \<Rightarrow> pydict option \<Rightarrow> risk_op" where
  "risk_escalate_to level reason event initiator metrics = risk_transition
     \<lparr>rc_to = level, rc_event = event, rc_initiator = initiator,
      rc_reason_codes = Some [''escalation''], rc_approved_by = None, rc_reason = reason,
      rc_metrics = metrics\<rparr>"

definition risk_de_escalate_to :: "RiskLevel \<Rightarrow> string \<Rightarrow> string \<Rightarrow> risk_init \<Rightarrow> risk_op" where
  "risk_de_escalate_to level approved_by reason initiator = risk_transition
     \<lparr>rc_to = level, rc_event = RE_RECOVERY_APPROVED, rc_initiator = initiator,
      rc_reason_codes = Some [''de_escalation_approved''], rc_approved_by = Some approved_by,
      rc_reason = reason, rc_metrics = None\<rparr>"

definition risk_circuit_break :: "string \<Rightarrow> risk_init \<Rightarrow> pydict option \<Rightarrow> risk_op" where
  "risk_circuit_break reason initiator metrics = risk_transition
     \<lparr>rc_to = R_CIRCUIT_BREAKER,
      rc_event = (if init_key initiator = RI RI_OPERATOR then RE_OPERATOR_CIRCUIT_BREAK
                  else RE_INCIDENT_TRIGGERED),
      rc_initiator = initiator, rc_reason_codes = Some [''circuit_breaker''],
      rc_approved_by = None, rc_reason = reason, rc_metrics = metrics\<rparr>"

definition risk_request_manual_review :: "string \<Rightarrow> risk_init \<Rightarrow> risk_op" where
  "risk_request_manual_review reason initiator = risk_transition
     \<lparr>rc_to = R_MANUAL_REVIEW, rc_event = RE_OPERATOR_MANUAL_REVIEW, rc_initiator = initiator,
      rc_reason_codes = Some [''manual_review_requested''], rc_approved_by = None,
      rc_reason = reason, rc_metrics = None\<rparr>"

definition risk_complete_manual_review :: "string \<Rightarrow> RiskLevel \<Rightarrow> string \<Rightarrow> risk_op" where
  "risk_complete_manual_review approved_by resume_to reason = risk_transition
     \<lparr>rc_to = resume_to, rc_event = RE_MANUAL_REVIEW_COMPLETED, rc_initiator = RI RI_OPERATOR,
      rc_reason_codes = Some [''manual_review_completed''], rc_approved_by = Some approved_by,
      rc_reason = reason, rc_metrics = None\<rparr>"

section \<open>Automatic evaluation\<close>

text \<open>
  One metric against its thresholds, strictest first: the level and the reason of the first
  threshold that is reached (the \<open>if/elif\<close> chains of the code).
\<close>

fun first_reached :: "(pyfloat \<times> RiskLevel \<times> string) list \<Rightarrow> pyfloat \<Rightarrow> (RiskLevel \<times> string) option" where
  "first_reached [] x = None"
| "first_reached ((threshold, level, tag) # rest) x =
     (if fle threshold x then Some (level, tag) else first_reached rest x)"

definition pressure_chain :: "EscalationThresholds \<Rightarrow> (pyfloat \<times> RiskLevel \<times> string) list" where
  "pressure_chain t = [(pressure_circuit_breaker t, R_CIRCUIT_BREAKER, ''CB''),
     (pressure_defensive t, R_DEFENSIVE, ''DEF''), (pressure_reduced t, R_REDUCED, ''RED''),
     (pressure_cautious t, R_CAUTIOUS, ''CAU'')]"

definition drawdown_chain :: "EscalationThresholds \<Rightarrow> (pyfloat \<times> RiskLevel \<times> string) list" where
  "drawdown_chain t = [(drawdown_circuit_breaker_pct t, R_CIRCUIT_BREAKER, ''CB''),
     (drawdown_defensive_pct t, R_DEFENSIVE, ''DEF''), (drawdown_reduced_pct t, R_REDUCED, ''RED''),
     (drawdown_cautious_pct t, R_CAUTIOUS, ''CAU'')]"

definition daily_loss_chain :: "EscalationThresholds \<Rightarrow> (pyfloat \<times> RiskLevel \<times> string) list" where
  "daily_loss_chain t = [(daily_loss_circuit_breaker_pct t, R_CIRCUIT_BREAKER, ''CB''),
     (daily_loss_reduced_pct t, R_REDUCED, ''RED''), (daily_loss_cautious_pct t, R_CAUTIOUS, ''CAU'')]"

definition consecutive_chain :: "EscalationThresholds \<Rightarrow> (pyfloat \<times> RiskLevel \<times> string) list" where
  "consecutive_chain t = [(Fin (of_int (consecutive_loss_circuit_breaker t)), R_CIRCUIT_BREAKER, ''CB''),
     (Fin (of_int (consecutive_loss_reduced t)), R_REDUCED, ''RED''),
     (Fin (of_int (consecutive_loss_cautious t)), R_CAUTIOUS, ''CAU'')]"

text \<open>How the reason renders a number: with decimals, or as \<open>str\<close> does.\<close>

fun fmt_num :: "nat \<Rightarrow> pyval \<Rightarrow> string" where
  "fmt_num d (PInt i) = fmt_fixed d (fl_round (of_int i))"
| "fmt_num d (PBool b) = fmt_fixed d (Fin (if b then 1 else 0))"
| "fmt_num d (PFloat x) = fmt_fixed d x"
| "fmt_num d v = []"

fun str_num :: "'z env_scheme \<Rightarrow> pyval \<Rightarrow> string" where
  "str_num w (PInt i) = int_str i"
| "str_num w (PBool b) = (if b then ''True'' else ''False'')"
| "str_num w (PFloat x) = float_repr w x"
| "str_num w v = []"

definition graded :: "string \<Rightarrow> (RiskLevel \<times> string) option \<Rightarrow> (RiskLevel \<times> string) list" where
  "graded text r = (case r of None \<Rightarrow> [] | Some (level, tag) \<Rightarrow> [(level, text @ ''>='' @ tag)])"

text \<open>The four metrics of a context; None if one of them is no number (\<open>TypeError\<close>).\<close>

definition risk_metrics :: "pydict \<Rightarrow> (pyfloat \<times> pyfloat \<times> pyfloat \<times> pyfloat) option" where
  "risk_metrics ctx = do {
     p \<leftarrow> as_num (dict_get ctx ''risk_pressure'' (PFloat (Fin 0)));
     dd \<leftarrow> as_num (dict_get ctx ''drawdown_pct'' (PFloat (Fin 0)));
     dl \<leftarrow> as_num (dict_get ctx ''daily_loss_pct'' (PFloat (Fin 0)));
     cl \<leftarrow> as_num (dict_get ctx ''consecutive_losses'' (PInt 0));
     Some (p, dd, dl, cl)
   }"

text \<open>The findings in the code's order, each with the level it asks for and its reason.\<close>

definition risk_findings ::
  "EscalationThresholds \<Rightarrow> pydict \<Rightarrow> pyfloat \<times> pyfloat \<times> pyfloat \<times> pyfloat \<Rightarrow> 'z env_scheme \<Rightarrow>
   (RiskLevel \<times> string) list" where
  "risk_findings t ctx m w =
     (case m of (p, dd, dl, cl) \<Rightarrow>
        graded (''pressure='' @ fmt_num 2 (dict_get ctx ''risk_pressure'' (PFloat (Fin 0))))
          (first_reached (pressure_chain t) p) @
        graded (''dd='' @ fmt_num 1 (dict_get ctx ''drawdown_pct'' (PFloat (Fin 0))) @ ''%'')
          (first_reached (drawdown_chain t) dd) @
        graded (''daily_loss='' @ fmt_num 1 (dict_get ctx ''daily_loss_pct'' (PFloat (Fin 0))) @ ''%'')
          (first_reached (daily_loss_chain t) dl) @
        graded (''consec_loss='' @ str_num w (dict_get ctx ''consecutive_losses'' (PInt 0)))
          (first_reached (consecutive_chain t) cl) @
        (if truthy (dict_get ctx ''session_halted'' PNone)
           then [(R_CIRCUIT_BREAKER, ''session_halted'')] else []) @
        (if truthy (dict_get ctx ''cooldown_active'' PNone)
           then [(R_REDUCED, ''cooldown_active'')] else []))"

definition risk_target :: "(RiskLevel \<times> string) list \<Rightarrow> RiskLevel" where
  "risk_target fs = foldl (\<lambda>target (level, _). max target level) R_NORMAL fs"

definition risk_evaluate_context ::
  "pydict \<Rightarrow> risk_sm \<Rightarrow> world \<Rightarrow> (risk_error + GovernorState option) \<times> risk_sm \<times> world" where
  "risk_evaluate_context ctx sm w =
     (case risk_metrics ctx of
        None \<Rightarrow> (Inl BadNumber, sm, w)
      | Some (p, dd, dl, cl) \<Rightarrow>
          (let t = r_thresholds sm;
               fs = risk_findings t ctx (p, dd, dl, cl) w;
               target = risk_target fs
           in if risk_level sm < target then
                (let event =
                   (if fle (drawdown_defensive_pct t) dd then RE_DRAWDOWN_CRITICAL
                    else if fle (daily_loss_reduced_pct t) dl then RE_DAILY_LOSS_BREACH
                    else if fle (Fin (of_int (consecutive_loss_reduced t))) cl
                      then RE_CONSECUTIVE_LOSSES
                    else RE_DRAWDOWN_WARNING)
                 in (case risk_escalate_to target (join ''; '' (map snd fs)) event
                            (RI RI_RISK_GOVERNOR) (Some ctx) sm w of
                       (Inl e, sm1, w1) \<Rightarrow>
                         ((case e of NoValueAttribute _ \<Rightarrow> Inl e | BadNumber \<Rightarrow> Inl e
                                   | _ \<Rightarrow> Inr None), sm1, w1)
                     | (Inr s, sm1, w1) \<Rightarrow> (Inr (Some s), sm1, w1)))
              else (Inr None, sm, w)))"

text \<open>The three health handlers share one body: escalate if the configured level is higher.\<close>

definition risk_on_health_event ::
  "(EscalationThresholds \<Rightarrow> RiskLevel) \<Rightarrow> RiskEvent \<Rightarrow> string \<Rightarrow> risk_sm \<Rightarrow> world \<Rightarrow>
   (risk_error + GovernorState option) \<times> risk_sm \<times> world" where
  "risk_on_health_event select event reason sm w =
     (let target = select (r_thresholds sm)
      in if risk_level sm < target then
           (case risk_escalate_to target reason event (RI RI_HEALTH_MONITOR) None sm w of
              (Inl e, sm1, w1) \<Rightarrow> (Inl e, sm1, w1)
            | (Inr s, sm1, w1) \<Rightarrow> (Inr (Some s), sm1, w1))
         else (Inr None, sm, w))"

definition risk_on_health_degraded where
  "risk_on_health_degraded =
     risk_on_health_event health_degraded_triggers_level RE_HEALTH_DEGRADED"

definition risk_on_market_data_stale where
  "risk_on_market_data_stale =
     risk_on_health_event market_data_stale_triggers_level RE_MARKET_DATA_STALE"

definition risk_on_api_connectivity_loss where
  "risk_on_api_connectivity_loss =
     risk_on_health_event api_loss_triggers_level RE_API_CONNECTIVITY_LOSS"

section \<open>Queries\<close>

definition risk_get_state :: "risk_sm \<Rightarrow> 'z env_scheme \<Rightarrow> GovernorState \<times> 'z env_scheme" where
  "risk_get_state sm w = gov_post_init (r_state sm) w"

definition risk_get_status :: "risk_sm \<Rightarrow> 'z env_scheme \<Rightarrow> pydict \<times> 'z env_scheme" where
  "risk_get_status sm w =
     (let (now, w1) = now_ms w; s = r_state sm; k = level_constraints (g_level s)
      in ([(''level'', PStr (level_name (g_level s))),
           (''level_value'', PInt (level_value (g_level s))),
           (''level_entered_at_ms'', PInt (g_level_entered_at_ms s)),
           (''level_held_seconds'', PFloat (fl_round (of_int (now - g_level_entered_at_ms s) / 1000))),
           (''consecutive_escalations'', PInt (g_consecutive_escalations s)),
           (''last_event'', PStr (g_last_event s)),
           (''last_initiator'', PStr (g_last_initiator s)),
           (''last_reason'', PStr (g_last_reason s)),
           (''version'', PInt (g_version s)),
           (''transition_count'', PInt (int (length (g_transitions s)))),
           (''constraints'', PDict
             [(''new_entries_allowed'', PBool (new_entries_allowed k)),
              (''position_size_multiplier'', PFloat (position_size_multiplier k)),
              (''reduce_only'', PBool (reduce_only k)),
              (''active_de_risking'', PBool (active_de_risking k)),
              (''emergency_stops'', PBool (emergency_stops k)),
              (''requires_operator'', PBool (requires_operator k))])], w1))"

definition risk_is_order_allowed :: "bool \<Rightarrow> risk_sm \<Rightarrow> bool \<times> string" where
  "risk_is_order_allowed is_reducing sm =
     (let c = risk_constraints sm; name = level_name (risk_level sm)
      in if requires_operator c
           then (False, ''risk_level_'' @ name @ ''_requires_operator_intervention'')
         else if \<not> is_reducing \<and> \<not> new_entries_allowed c
           then (False, ''risk_level_'' @ name @ ''_no_new_entries'')
         else (True, ''ok''))"

section \<open>Persistence\<close>

definition risk_export_state :: "risk_sm \<Rightarrow> pydict" where
  "risk_export_state sm =
     (let s = r_state sm
      in [(''level'', PStr (level_name (g_level s))),
          (''level_entered_at_ms'', PInt (g_level_entered_at_ms s)),
          (''consecutive_escalations'', PInt (g_consecutive_escalations s)),
          (''last_event'', PStr (g_last_event s)),
          (''last_initiator'', PStr (g_last_initiator s)),
          (''last_reason'', PStr (g_last_reason s)),
          (''transitions'', PList (map PDict (g_transitions s))),
          (''version'', PInt (g_version s)),
          (''thresholds'', PDict (thresholds_to_dict (r_thresholds sm)))])"

text \<open>
  \<open>import_state\<close>: an unknown level name becomes NORMAL. The default entry time is evaluated
  whether it is needed or not. The thresholds of the data are not read. None stands for data
  with an entry of another type than the code writes, outside this model.
\<close>

definition risk_import_state :: "pydict \<Rightarrow> risk_sm \<Rightarrow> 'z env_scheme \<Rightarrow> (risk_sm \<times> 'z env_scheme) option" where
  "risk_import_state d sm w = do {
     name \<leftarrow> as_str (dict_get d ''level'' (PStr ''NORMAL''));
     let level = (case level_of_name name of None \<Rightarrow> R_NORMAL | Some l \<Rightarrow> l);
     let (now, w1) = now_ms w;
     entered \<leftarrow> as_int (dict_get d ''level_entered_at_ms'' (PInt now));
     esc \<leftarrow> as_int (dict_get d ''consecutive_escalations'' (PInt 0));
     event \<leftarrow> as_str (dict_get d ''last_event'' (PStr []));
     initiator \<leftarrow> as_str (dict_get d ''last_initiator'' (PStr []));
     reason \<leftarrow> as_str (dict_get d ''last_reason'' (PStr []));
     trail \<leftarrow> as_dicts (dict_get d ''transitions'' (PList []));
     ver \<leftarrow> as_int (dict_get d ''version'' (PInt 1));
     Some (sm\<lparr>r_state := \<lparr>g_level = level, g_level_entered_at_ms = entered,
            g_consecutive_escalations = esc, g_last_event = event,
            g_last_initiator = initiator, g_last_reason = reason, g_transitions = trail,
            g_version = ver\<rparr>\<rparr>, w1)
   }"


section \<open>What the rule table allows\<close>

text \<open>The table as rows, in registration order.\<close>

definition risk_rows :: "((RiskLevel \<times> RiskLevel) \<times> string \<times> bool \<times> RiskInitiator list) list" where
  "risk_rows =
    [((R_NORMAL, R_CAUTIOUS), ''escalation'', False, RG_AUTO),
     ((R_NORMAL, R_REDUCED), ''escalation'', False, RG_AUTO),
     ((R_NORMAL, R_DEFENSIVE), ''escalation'', False, RG_AUTO),
     ((R_NORMAL, R_CIRCUIT_BREAKER), ''escalation'', False, RG_AUTO),
     ((R_NORMAL, R_MANUAL_REVIEW), ''escalation'', False, RG_OPERATOR_GOV),
     ((R_CAUTIOUS, R_REDUCED), ''escalation'', False, RG_AUTO),
     ((R_CAUTIOUS, R_DEFENSIVE), ''escalation'', False, RG_AUTO),
     ((R_CAUTIOUS, R_CIRCUIT_BREAKER), ''escalation'', False, RG_AUTO),
     ((R_CAUTIOUS, R_MANUAL_REVIEW), ''escalation'', False, RG_OPERATOR_GOV),
     ((R_REDUCED, R_DEFENSIVE), ''escalation'', False, RG_AUTO),
     ((R_REDUCED, R_CIRCUIT_BREAKER), ''escalation'', False, RG_AUTO),
     ((R_REDUCED, R_MANUAL_REVIEW), ''escalation'', False, RG_OPERATOR_GOV),
     ((R_DEFENSIVE, R_CIRCUIT_BREAKER), ''escalation'', False, RG_AUTO),
     ((R_DEFENSIVE, R_MANUAL_REVIEW), ''escalation'', False, RG_OPERATOR_GOV),
     ((R_CIRCUIT_BREAKER, R_MANUAL_REVIEW), ''lateral'', False, RG_OPERATOR_GOV),
     ((R_CAUTIOUS, R_NORMAL), ''de_escalation'', True, RG_OPERATOR_GOV),
     ((R_REDUCED, R_CAUTIOUS), ''de_escalation'', True, RG_OPERATOR_GOV),
     ((R_REDUCED, R_NORMAL), ''de_escalation'', True, RG_OPERATOR_ONLY),
     ((R_DEFENSIVE, R_REDUCED), ''de_escalation'', True, RG_OPERATOR_GOV),
     ((R_DEFENSIVE, R_CAUTIOUS), ''de_escalation'', True, RG_OPERATOR_ONLY),
     ((R_CIRCUIT_BREAKER, R_DEFENSIVE), ''de_escalation'', True, RG_OPERATOR_ONLY),
     ((R_MANUAL_REVIEW, R_DEFENSIVE), ''de_escalation'', True, RG_OPERATOR_ONLY),
     ((R_MANUAL_REVIEW, R_REDUCED), ''de_escalation'', True, RG_OPERATOR_ONLY),
     ((R_MANUAL_REVIEW, R_CAUTIOUS), ''de_escalation'', True, RG_OPERATOR_ONLY),
     ((R_MANUAL_REVIEW, R_NORMAL), ''de_escalation'', True, RG_OPERATOR_ONLY)]"

lemma risk_rules_rows:
  "risk_rules = map (\<lambda>(k, x). (k, case (k, x) of ((f, t), d, a, is) \<Rightarrow>
     \<lparr>rule_from = f, rule_to = t, requires_approval = a, allowed_initiators = map RI is,
      direction = d\<rparr>)) risk_rows"
  by (simp add: risk_rules_def risk_reg_def risk_rows_def)

lemma risk_rows_get:
  "map_of risk_rows (f, t) =
      (if f < t then
         Some (if f = R_CIRCUIT_BREAKER then ''lateral'' else ''escalation'', False,
               if t = R_MANUAL_REVIEW then RG_OPERATOR_GOV else RG_AUTO)
       else if f = R_MANUAL_REVIEW \<and> t \<le> R_DEFENSIVE then Some (''de_escalation'', True, RG_OPERATOR_ONLY)
       else if (f, t) \<in> {(R_CIRCUIT_BREAKER, R_DEFENSIVE), (R_DEFENSIVE, R_CAUTIOUS), (R_REDUCED, R_NORMAL)}
         then Some (''de_escalation'', True, RG_OPERATOR_ONLY)
       else if (f, t) \<in> {(R_CAUTIOUS, R_NORMAL), (R_REDUCED, R_CAUTIOUS), (R_DEFENSIVE, R_REDUCED)}
         then Some (''de_escalation'', True, RG_OPERATOR_GOV)
       else None)"
  unfolding risk_rows_def by (cases f; cases t; simp add: level_order)

lemma risk_rules_fun:
  "map_of risk_rules =
    (\<lambda>(f, t). map_option (\<lambda>(d, a, is). \<lparr>rule_from = f, rule_to = t, requires_approval = a,
                                      allowed_initiators = map RI is, direction = d\<rparr>)
      (if f < t then
         Some (if f = R_CIRCUIT_BREAKER then ''lateral'' else ''escalation'', False,
               if t = R_MANUAL_REVIEW then RG_OPERATOR_GOV else RG_AUTO)
       else if f = R_MANUAL_REVIEW \<and> t \<le> R_DEFENSIVE then Some (''de_escalation'', True, RG_OPERATOR_ONLY)
       else if (f, t) \<in> {(R_CIRCUIT_BREAKER, R_DEFENSIVE), (R_DEFENSIVE, R_CAUTIOUS), (R_REDUCED, R_NORMAL)}
         then Some (''de_escalation'', True, RG_OPERATOR_ONLY)
       else if (f, t) \<in> {(R_CAUTIOUS, R_NORMAL), (R_REDUCED, R_CAUTIOUS), (R_DEFENSIVE, R_REDUCED)}
         then Some (''de_escalation'', True, RG_OPERATOR_GOV)
       else None))"
  by (rule ext, clarify) (simp only: risk_rules_rows map_of_rows risk_rows_get prod.case)

lemmas risk_groups = RG_AUTO_def RG_OPERATOR_GOV_def RG_OPERATOR_ONLY_def

lemma risk_class_simps [simp]:
  "terminal_states risk_class = []" "forbidden_transitions risk_class = []"
  "transition_rules risk_class = risk_rules" "state_value risk_class = level_name"
  by (simp_all add: risk_class_def)

text \<open>Up: always a rule, never an approval; only the manual review is closed to monitors.\<close>

lemma risk_rule_up:
  assumes "f < t" "map_of risk_rules (f, t) = Some rule"
  shows "\<not> requires_approval rule" "direction rule \<noteq> ''de_escalation''"
    "allowed_initiators rule = map RI (if t = R_MANUAL_REVIEW then RG_OPERATOR_GOV else RG_AUTO)"
  using assms by (auto simp: risk_rules_fun split: if_splits)

text \<open>Down: always an approval and the hold time, by the operator or, one level at a time below
  CIRCUIT_BREAKER, the governor.\<close>

lemma risk_rule_down:
  assumes "t < f" "map_of risk_rules (f, t) = Some rule"
  shows "requires_approval rule" "direction rule = ''de_escalation''"
    "set (allowed_initiators rule) \<subseteq> {RI RI_OPERATOR, RI RI_RISK_GOVERNOR}"
    "R_CIRCUIT_BREAKER \<le> f \<or> level_value t + 1 < level_value f \<Longrightarrow>
       allowed_initiators rule = [RI RI_OPERATOR]"
proof -
  have "\<not> f < t" using assms(1) by simp
  then show "requires_approval rule" "direction rule = ''de_escalation''"
    "set (allowed_initiators rule) \<subseteq> {RI RI_OPERATOR, RI RI_RISK_GOVERNOR}"
    "R_CIRCUIT_BREAKER \<le> f \<or> level_value t + 1 < level_value f \<Longrightarrow>
       allowed_initiators rule = [RI RI_OPERATOR]"
    using assms by (auto simp: risk_rules_fun risk_groups level_order split: if_splits)
qed

section \<open>The shape of a transition\<close>

text \<open>Before the renaming: the record of the base class with the three extra fields.\<close>

lemma risk_record_base:
  fixes c :: risk_call
  assumes "build_transition_record risk_class f t None None ev iv vb rc ap (Some p) (Some n)
      [(''direction'', d), (''level_held_ms'', h), (''metrics_snapshot'', m)] w = (r, w')"
  shows "map_of r ''previous_status'' = Some (PStr p)" "map_of r ''next_status'' = Some (PStr n)"
    "map_of r ''trigger_event_type'' = Some (PStr ev)" "map_of r ''initiated_by'' = Some (PStr iv)"
    "map_of r ''approved_by'' = Some (opt_str ap)" "map_of r ''direction'' = Some d"
    "\<exists>v. map_of r ''transition_reason_codes'' = Some v"
  using assms
  by (auto simp: build_transition_record_def Let_def now_ms_def fresh_hex_def pd.get_put)

lemma risk_record_fields:
  assumes "risk_record c iv s w = (r, w')"
  shows "map_of r ''previous_level'' = Some (PStr (level_name (g_level s)))"
    and "map_of r ''next_level'' = Some (PStr (level_name (rc_to c)))"
    and "map_of r ''direction'' = Some (PStr (level_direction (g_level s) (rc_to c)))"
    and "map_of r ''initiated_by'' = Some (PStr iv)"
    and "map_of r ''approved_by'' = Some (opt_str (rc_approved_by c))"
proof -
  obtain now w1 where n: "now_ms w = (now, w1)" by fastforce
  obtain r0 w2 where b: "build_transition_record risk_class (g_level s) (rc_to c) None None
       (risk_event_value (rc_event c)) iv (g_version s) (rc_reason_codes c) (rc_approved_by c)
       (Some (level_name (g_level s))) (Some (level_name (rc_to c)))
       [(''direction'', PStr (level_direction (g_level s) (rc_to c))),
        (''level_held_ms'', PInt (now - g_level_entered_at_ms s)),
        (''metrics_snapshot'', PDict (case rc_metrics c of None \<Rightarrow> [] | Some d \<Rightarrow> d))] w1 = (r0, w2)"
    by fastforce
  have r: "r = risk_rename r0"
    using assms n b by (simp add: risk_record_def Let_def)
  obtain v where v: "map_of r0 ''transition_reason_codes'' = Some v"
    using risk_record_base(7)[OF b] by blast
  note f = risk_record_base(1-6)[OF b]
  show "map_of r ''previous_level'' = Some (PStr (level_name (g_level s)))"
    "map_of r ''next_level'' = Some (PStr (level_name (rc_to c)))"
    "map_of r ''direction'' = Some (PStr (level_direction (g_level s) (rc_to c)))"
    "map_of r ''initiated_by'' = Some (PStr iv)"
    "map_of r ''approved_by'' = Some (opt_str (rc_approved_by c))"
    unfolding r risk_rename_def by (simp_all add: dict_rename_lookup f v)
qed

lemma later_gov_post_init [simp]: "later w (snd (gov_post_init s w))"
  by (simp add: gov_post_init_def now_ms_def later_def)

lemma gov_post_init_same:
  "gov_post_init s w = (t, w') \<Longrightarrow> g_level t = g_level s \<and> g_version t = g_version s \<and>
     g_transitions t = g_transitions s"
  by (auto simp: gov_post_init_def now_ms_def split: if_splits)

lemma risk_transition_cases:
  assumes "risk_transition c sm w = (res, sm', w')"
  obtains (refused) e where "res = Inl e" "sm' = sm"
  | (same) copy where "rc_to c = risk_level sm" "res = Inr copy" "sm' = sm"
      "g_level copy = risk_level sm"
  | (moved) i rule w1 r entered copy where "rc_to c \<noteq> risk_level sm" "rc_initiator c = RI i"
      "risk_validate sm (risk_level sm) (rc_to c) (RI i) (rc_approved_by c) w = (Inr rule, w1)"
      "\<exists>w2 :: world. risk_record c (risk_initiator_value i) (r_state sm) w1 = (r, w2)"
      "sm' = sm\<lparr>r_state := risk_apply c (risk_initiator_value i) r entered (r_state sm)\<rparr>"
      "res = Inr copy" "g_level copy = rc_to c"
proof (cases "g_level (r_state sm) = rc_to c")
  case True
  obtain copy w1 where k: "gov_post_init (r_state sm) w = (copy, w1)" by fastforce
  with True assms gov_post_init_same[OF k] show ?thesis
    by (intro same[of copy]) (auto simp: risk_transition_def risk_level_def)
next
  case False
  obtain vr w1 where v: "risk_validate sm (g_level (r_state sm)) (rc_to c) (rc_initiator c)
     (rc_approved_by c) w = (vr, w1)" by fastforce
  show ?thesis
  proof (cases vr)
    case (Inl e)
    with v False assms show ?thesis by (intro refused[of e]) (auto simp: risk_transition_def)
  next
    case (Inr rule)
    show ?thesis
    proof (cases "rc_initiator c")
      case (RawStr str)
      with v Inr False assms show ?thesis
        by (intro refused[of "NoValueAttribute str"]) (auto simp: risk_transition_def Let_def)
    next
      case (RI i)
      obtain r w2 where r: "risk_record c (risk_initiator_value i) (r_state sm) w1 = (r, w2)" by fastforce
      obtain t w3 where t: "now_ms w2 = (t, w3)" by fastforce
      let ?s = "risk_apply c (risk_initiator_value i) r t (r_state sm)"
      let ?w4 = "record_change_audit (change_label risk_class) (r_cal_injected sm)
         (level_name (g_level (r_state sm))) (level_name (rc_to c)) (risk_initiator_value i)
         (rc_approved_by c) (rc_reason c) None w3"
      obtain copy w5 where k: "gov_post_init ?s ?w4 = (copy, w5)" by fastforce
      have "(res, sm', w') = (Inr copy, sm\<lparr>r_state := ?s\<rparr>,
          emit_audit ''risk_governor'' (r_audit_cb sm) r w5)"
        using v Inr RI False r t k assms[symmetric] by (simp add: risk_transition_def Let_def)
      then show ?thesis
        using False RI v Inr r gov_post_init_same[OF k]
        by (intro moved[of i rule w1 r t copy]) (auto simp: risk_level_def risk_apply_def)
    qed
  qed
qed

text \<open>What an accepted guard chain says.\<close>

lemma risk_validate_ok:
  assumes "risk_validate sm f t (RI i) ap w = (Inr rule, w1)"
  shows "map_of risk_rules (f, t) = Some rule" "RI i \<in> set (allowed_initiators rule)"
    "requires_approval rule \<longrightarrow> str_given ap" "risk_extra_validate sm f t rule w = (None, w1)"
proof -
  have v: "validate_transition risk_class (risk_extra_validate sm) f t (RI i) ap w = (Inr rule, w1)"
    using assms by (auto simp: risk_validate_def split: prod.splits sum.splits)
  note ok = validate_ok[OF v]
  show "map_of risk_rules (f, t) = Some rule" "risk_extra_validate sm f t rule w = (None, w1)"
    using ok(2,3) by simp_all
  then show "RI i \<in> set (allowed_initiators rule)" "requires_approval rule \<longrightarrow> str_given ap"
    using ok(1) by (auto simp: permitted_def)
qed

text \<open>Escalation by a member of the enum that may take it never fails.\<close>

lemma risk_escalation_succeeds:
  assumes "risk_level sm < rc_to c" "rc_initiator c = RI i"
    and "i \<in> set (if rc_to c = R_MANUAL_REVIEW then RG_OPERATOR_GOV else RG_AUTO)"
  shows "\<exists>copy sm' w'. risk_transition c sm w = (Inr copy, sm', w') \<and> g_level copy = rc_to c \<and>
    risk_level sm' = rc_to c \<and> r_thresholds sm' = r_thresholds sm"
proof -
  obtain res sm' w' where t: "risk_transition c sm w = (res, sm', w')" by (metis prod_cases3)
  let ?f = "risk_level sm" and ?t = "rc_to c"
  obtain rule where rule: "map_of risk_rules (?f, ?t) = Some rule"
    using assms(1) by (simp add: risk_rules_fun)
  note up = risk_rule_up[OF assms(1) rule]
  have "validate_transition risk_class (risk_extra_validate sm) ?f ?t (RI i) (rc_approved_by c) w =
     (Inr rule, w)"
    using assms rule up by (simp add: validate_transition_def risk_extra_validate_def)
  then have v: "risk_validate sm ?f ?t (rc_initiator c) (rc_approved_by c) w = (Inr rule, w)"
    using assms(2) by (simp add: risk_validate_def)
  have ne: "?f \<noteq> ?t" using assms(1) by auto
  have "\<exists>copy. res = Inr copy"
    using t v ne assms(2)
    by (auto simp: risk_transition_def risk_level_def Let_def split: prod.splits)
  with t show ?thesis
  proof (cases rule: risk_transition_cases)
    case (moved i rule w1 r entered copy)
    then have "risk_level sm' = rc_to c \<and> r_thresholds sm' = r_thresholds sm"
      by (simp add: risk_level_def risk_apply_def)
    with moved t show ?thesis by blast
  qed (use ne in auto)
qed

section \<open>Histories\<close>

inductive risk_step :: "risk_sm \<Rightarrow> risk_sm \<Rightarrow> bool" where
  called: "risk_transition c sm w = (res, sm', w') \<Longrightarrow> risk_step sm sm'"
| evaluated: "risk_evaluate_context ctx sm w = (out, sm', w') \<Longrightarrow> risk_step sm sm'"
| health: "risk_on_health_event select event reason sm w = (out, sm', w') \<Longrightarrow> risk_step sm sm'"
| connected: "risk_step sm (risk_set_change_audit_log sm)"

inductive risk_reachable :: "risk_sm \<Rightarrow> bool" where
  start: "risk_new thresholds cb (w :: world) = (sm, w') \<Longrightarrow> risk_reachable sm"
| step: "risk_reachable sm \<Longrightarrow> risk_step sm sm' \<Longrightarrow> risk_reachable sm'"

text \<open>Every step is a transition, or leaves the state of the governor alone.\<close>

lemma risk_step_transition:
  assumes "risk_step sm sm'"
  obtains (state) "r_state sm' = r_state sm"
  | (transition) c res and w w' :: world where "risk_transition c sm w = (res, sm', w')"
  using assms
proof (cases rule: risk_step.cases)
  case (called c w res w')
  then show ?thesis by (rule transition)
next
  case (evaluated ctx w out w')
  show ?thesis
  proof (cases "sm' = sm")
    case False
    then obtain level reason event res v where
      "risk_escalate_to level reason event (RI RI_RISK_GOVERNOR) (Some ctx) sm w = (res, sm', v)"
      using evaluated
      by (auto simp: risk_evaluate_context_def Let_def split: option.splits prod.splits if_splits sum.splits)
    then show ?thesis unfolding risk_escalate_to_def by (rule transition)
  qed (simp add: state)
next
  case (health select event reason w out w')
  show ?thesis
  proof (cases "sm' = sm")
    case False
    then obtain res v where
      "risk_escalate_to (select (r_thresholds sm)) reason event (RI RI_HEALTH_MONITOR) None sm w = (res, sm', v)"
      using health
      by (auto simp: risk_on_health_event_def Let_def split: prod.splits if_splits sum.splits)
    then show ?thesis unfolding risk_escalate_to_def by (rule transition)
  qed (simp add: state)
next
  case connected
  then show ?thesis by (intro state) (simp add: risk_set_change_audit_log_def)
qed

text \<open>
  The audit trail as a walk over the levels, and the run of escalations at its end.
\<close>

fun level_walk :: "string \<Rightarrow> pydict list \<Rightarrow> string \<Rightarrow> bool" where
  "level_walk a [] b = (a = b)"
| "level_walk a (r # rs) b =
     (map_of r ''previous_level'' = Some (PStr a) \<and>
      (case map_of r ''next_level'' of Some (PStr m) \<Rightarrow> level_walk m rs b | _ \<Rightarrow> False))"

definition is_escalation :: "pydict \<Rightarrow> bool" where
  "is_escalation r \<longleftrightarrow> map_of r ''direction'' = Some (PStr ''escalation'')"

definition trailing_escalations :: "pydict list \<Rightarrow> nat" where
  "trailing_escalations rs = length (takeWhile is_escalation (rev rs))"

definition lowering_approved :: "pydict \<Rightarrow> bool" where
  "lowering_approved r \<longleftrightarrow>
     (is_escalation r \<or>
      (\<exists>who. who \<noteq> [] \<and> map_of r ''approved_by'' = Some (PStr who)) \<and>
      map_of r ''initiated_by'' \<in> {Some (PStr ''Operator''), Some (PStr ''RiskGovernor'')})"

definition risk_sound :: "GovernorState \<Rightarrow> bool" where
  "risk_sound s \<longleftrightarrow>
     g_version s = 1 + int (length (g_transitions s)) \<and>
     level_walk ''NORMAL'' (g_transitions s) (level_name (g_level s)) \<and>
     g_consecutive_escalations s = int (trailing_escalations (g_transitions s)) \<and>
     (\<forall>r\<in>set (g_transitions s). lowering_approved r)"

lemma level_walk_append:
  "level_walk a (rs @ ss) c \<longleftrightarrow> (\<exists>b. level_walk a rs b \<and> level_walk b ss c)"
proof (induction rs arbitrary: a)
  case (Cons r rs)
  then show ?case by (auto split: option.splits pyval.splits)
qed simp

lemma trailing_escalations_snoc:
  "trailing_escalations (rs @ [r]) = (if is_escalation r then Suc (trailing_escalations rs) else 0)"
  by (simp add: trailing_escalations_def)

text \<open>What moving the level takes, read off the accepted guard chain.\<close>

lemma risk_moved:
  assumes "risk_validate sm f t (RI i) ap w = (Inr rule, w1)" "f \<noteq> t"
  shows "f < t \<or> (t < f \<and> str_given ap \<and> i \<in> {RI_OPERATOR, RI_RISK_GOVERNOR} \<and>
     (R_CIRCUIT_BREAKER \<le> f \<or> level_value t + 1 < level_value f \<longrightarrow> i = RI_OPERATOR) \<and>
     (\<exists>m. int_of_float (fmul (min_hold_time_seconds (r_thresholds sm)) (Fin 1000)) = Some m \<and>
          m \<le> millis (clock w (ticks w)) - g_level_entered_at_ms (r_state sm)))"
proof (cases "f < t")
  case False
  with assms(2) have lt: "t < f" by simp
  note ok = risk_validate_ok[OF assms(1)]
  note down = risk_rule_down[OF lt ok(1)]
  have "str_given ap" "i \<in> {RI_OPERATOR, RI_RISK_GOVERNOR}"
    "R_CIRCUIT_BREAKER \<le> f \<or> level_value t + 1 < level_value f \<longrightarrow> i = RI_OPERATOR"
    using ok(2,3) down by auto
  moreover have "\<exists>m. int_of_float (fmul (min_hold_time_seconds (r_thresholds sm)) (Fin 1000)) = Some m \<and>
          m \<le> millis (clock w (ticks w)) - g_level_entered_at_ms (r_state sm)"
    using ok(4) down(2)
    by (auto simp: risk_extra_validate_def now_ms_def Let_def split: option.splits if_splits)
  ultimately show ?thesis using lt by blast
qed simp

lemma risk_sound_transition:
  assumes "risk_sound (r_state sm)" "risk_transition c sm w = (res, sm', w')"
  shows "risk_sound (r_state sm')"
  using assms(2)
proof (cases rule: risk_transition_cases)
  case (moved i rule w1 r entered copy)
  then obtain w2 :: world where r: "risk_record c (risk_initiator_value i) (r_state sm) w1 = (r, w2)" by blast
  note f = risk_record_fields[OF r]
  have ne: "g_level (r_state sm) \<noteq> rc_to c" using moved(1) by (simp add: risk_level_def)
  have esc: "is_escalation r \<longleftrightarrow> g_level (r_state sm) < rc_to c"
    using f(3) ne by (auto simp: is_escalation_def level_direction_def)
  have "lowering_approved r"
    using risk_moved[OF moved(3)] moved(1) f(4,5) esc
    by (auto simp: lowering_approved_def risk_level_def str_given_iff opt_str_def)
  with assms(1) moved(5) f(1,2) esc show ?thesis
    by (auto simp: risk_sound_def risk_apply_def level_walk_append trailing_escalations_snoc)
qed (use assms in simp_all)

lemma risk_reachable_sound: "risk_reachable sm \<Longrightarrow> risk_sound (r_state sm)"
proof (induction rule: risk_reachable.induct)
  case (start thresholds cb w sm w')
  then show ?case
    by (auto simp: risk_new_def gov_post_init_def now_ms_def risk_sound_def trailing_escalations_def)
next
  case (step sm sm')
  from step.hyps(2) show ?case
    by (cases rule: risk_step_transition) (use step.IH risk_sound_transition in auto)
qed








section \<open>Lowering the level, exactly\<close>

text \<open>Who may lower which level to which: the operator leaves MANUAL_REVIEW and
  CIRCUIT_BREAKER (the latter only to DEFENSIVE) and may skip one level below; the governor
  lowers one level at a time.\<close>

definition lowering_edge :: "RiskLevel \<Rightarrow> RiskLevel \<Rightarrow> RiskInitiator \<Rightarrow> bool" where
  "lowering_edge f t i \<longleftrightarrow>
     (if f = R_MANUAL_REVIEW then t \<le> R_DEFENSIVE \<and> i = RI_OPERATOR
      else if f = R_CIRCUIT_BREAKER then t = R_DEFENSIVE \<and> i = RI_OPERATOR
      else if level_value f = level_value t + 1 then i \<in> {RI_OPERATOR, RI_RISK_GOVERNOR}
      else level_value f = level_value t + 2 \<and> i = RI_OPERATOR)"

definition min_hold_ms :: "risk_sm \<Rightarrow> int option" where
  "min_hold_ms sm = int_of_float (fmul (min_hold_time_seconds (r_thresholds sm)) (Fin 1000))"

definition held_long_enough :: "risk_sm \<Rightarrow> 'z env_scheme \<Rightarrow> bool" where
  "held_long_enough sm w \<longleftrightarrow>
     (case min_hold_ms sm of None \<Rightarrow> False
      | Some m \<Rightarrow> m \<le> fst (now_ms w) - g_level_entered_at_ms (r_state sm))"

lemma lowering_edge_rule:
  assumes "t < f"
  shows "lowering_edge f t i \<longleftrightarrow>
    (\<exists>rule. map_of risk_rules (f, t) = Some rule \<and> RI i \<in> set (allowed_initiators rule))"
  using assms
  by (cases f; cases t; simp add: lowering_edge_def risk_rules_fun risk_groups level_order)

lemma risk_validate_lowering:
  assumes "t < f"
  shows "(\<exists>rule w1. risk_validate sm f t (RI i) ap w = (Inr rule, w1)) \<longleftrightarrow>
    lowering_edge f t i \<and> str_given ap \<and> held_long_enough sm w"
proof
  assume "\<exists>rule w1. risk_validate sm f t (RI i) ap w = (Inr rule, w1)"
  then obtain rule w1 where v: "risk_validate sm f t (RI i) ap w = (Inr rule, w1)" by blast
  note ok = risk_validate_ok[OF v]
  note down = risk_rule_down[OF assms ok(1)]
  from ok(4) down(2) have "held_long_enough sm w"
    by (auto simp: risk_extra_validate_def held_long_enough_def min_hold_ms_def Let_def
        split: option.splits if_splits prod.splits)
  with ok down assms show "lowering_edge f t i \<and> str_given ap \<and> held_long_enough sm w"
    by (auto simp: lowering_edge_rule)
next
  assume a: "lowering_edge f t i \<and> str_given ap \<and> held_long_enough sm w"
  then obtain rule where rule: "map_of risk_rules (f, t) = Some rule" "RI i \<in> set (allowed_initiators rule)"
    using lowering_edge_rule[OF assms] by blast
  note down = risk_rule_down[OF assms rule(1)]
  have "risk_extra_validate sm f t rule w = (None, snd (now_ms w))"
    using a down(2)
    by (auto simp: risk_extra_validate_def held_long_enough_def min_hold_ms_def Let_def
        split: option.splits prod.splits)
  with rule a have "validate_transition risk_class (risk_extra_validate sm) f t (RI i) ap w =
      (Inr rule, snd (now_ms w))"
    by (simp add: validate_transition_def)
  then show "\<exists>rule w1. risk_validate sm f t (RI i) ap w = (Inr rule, w1)"
    by (simp add: risk_validate_def)
qed

lemma risk_transition_success:
  assumes "rc_to c \<noteq> risk_level sm"
  shows "(\<exists>s sm' w'. risk_transition c sm w = (Inr s, sm', w')) \<longleftrightarrow>
    (\<exists>i rule w1. rc_initiator c = RI i \<and>
       risk_validate sm (risk_level sm) (rc_to c) (RI i) (rc_approved_by c) w = (Inr rule, w1))"
proof
  assume "\<exists>s sm' w'. risk_transition c sm w = (Inr s, sm', w')"
  then obtain s sm' w' where "risk_transition c sm w = (Inr s, sm', w')" by blast
  then show "\<exists>i rule w1. rc_initiator c = RI i \<and>
       risk_validate sm (risk_level sm) (rc_to c) (RI i) (rc_approved_by c) w = (Inr rule, w1)"
    by (cases rule: risk_transition_cases) (use assms in auto)
next
  assume "\<exists>i rule w1. rc_initiator c = RI i \<and>
       risk_validate sm (risk_level sm) (rc_to c) (RI i) (rc_approved_by c) w = (Inr rule, w1)"
  then show "\<exists>s sm' w'. risk_transition c sm w = (Inr s, sm', w')"
    using assms by (auto simp: risk_transition_def risk_level_def Let_def split: prod.splits)
qed

lemma risk_health_level:
  assumes "risk_on_health_event select event reason sm w = (out, sm', w')"
  shows "risk_level sm' =
      (if select (r_thresholds sm) = R_MANUAL_REVIEW then risk_level sm
       else max (risk_level sm) (select (r_thresholds sm)))"
    and "(\<exists>e. out = Inl e) \<longleftrightarrow>
      select (r_thresholds sm) = R_MANUAL_REVIEW \<and> risk_level sm < R_MANUAL_REVIEW"
proof -
  let ?t = "select (r_thresholds sm)"
  let ?c = "\<lparr>rc_to = ?t, rc_event = event, rc_initiator = RI RI_HEALTH_MONITOR,
    rc_reason_codes = Some [''escalation''], rc_approved_by = None, rc_reason = reason, rc_metrics = None\<rparr>"
  have "risk_level sm' = (if ?t = R_MANUAL_REVIEW then risk_level sm else max (risk_level sm) ?t) \<and>
    ((\<exists>e. out = Inl e) \<longleftrightarrow> ?t = R_MANUAL_REVIEW \<and> risk_level sm < R_MANUAL_REVIEW)"
  proof (cases "risk_level sm < ?t")
    case False
    with assms show ?thesis by (auto simp: risk_on_health_event_def Let_def max_def)
  next
    case lt: True
    obtain res s1 w1 where t: "risk_transition ?c sm w = (res, s1, w1)" by (metis prod_cases3)
    show ?thesis
    proof (cases "?t = R_MANUAL_REVIEW")
      case False
      then have "RI_HEALTH_MONITOR \<in> set (if rc_to ?c = R_MANUAL_REVIEW then RG_OPERATOR_GOV else RG_AUTO)"
        by (simp add: RG_AUTO_def)
      from risk_escalation_succeeds[of sm ?c, OF _ _ this, of w] lt t obtain copy where
        "res = Inr copy" "risk_level s1 = ?t" by auto
      with assms t lt False show ?thesis
        by (auto simp: risk_on_health_event_def risk_escalate_to_def Let_def max_def)
    next
      case True
      have "\<not> (\<exists>s sm' w'. risk_transition ?c sm w = (Inr s, sm', w'))"
      proof
        assume "\<exists>s sm' w'. risk_transition ?c sm w = (Inr s, sm', w')"
        then obtain i rule v where "RI RI_HEALTH_MONITOR = RI i"
          "risk_validate sm (risk_level sm) ?t (RI i) None w = (Inr rule, v)"
          using risk_transition_success[of ?c sm w] lt by auto
        with risk_validate_ok[of sm "risk_level sm" ?t i None w rule v]
          risk_rule_up(3)[OF lt, of rule] True
        show False by (auto simp: RG_OPERATOR_GOV_def)
      qed
      with t obtain e where "res = Inl e" by (cases res) auto
      with t have "s1 = sm" by (auto elim: risk_transition_cases)
      with \<open>res = Inl e\<close> assms t lt True show ?thesis
        by (auto simp: risk_on_health_event_def risk_escalate_to_def Let_def)
    qed
  qed
  then show "risk_level sm' = (if ?t = R_MANUAL_REVIEW then risk_level sm else max (risk_level sm) ?t)"
    "(\<exists>e. out = Inl e) \<longleftrightarrow> ?t = R_MANUAL_REVIEW \<and> risk_level sm < R_MANUAL_REVIEW"
    by blast+
qed

lemma level_of_name_name [simp]: "level_of_name (level_name l) = Some l"
  by (cases l) (simp_all add: level_of_name_def risk_levels_def)

section \<open>Properties\<close>

text \<open>The state of the witnesses: the governor at a level since one second, with the default
  thresholds (a hold time of 300 seconds).\<close>

definition demo_risk :: "RiskLevel \<Rightarrow> risk_sm" where
  "demo_risk level =
     \<lparr>r_state = \<lparr>g_level = level, g_level_entered_at_ms = 1000, g_consecutive_escalations = 0,
         g_last_event = [], g_last_initiator = [], g_last_reason = [], g_transitions = [],
         g_version = 1\<rparr>,
      r_thresholds = default_thresholds, r_audit_cb = False, r_cal_injected = False\<rparr>"

lemma demo_hold: "held_long_enough (demo_risk level) (sample_world t) \<longleftrightarrow> 301 \<le> t"
proof -
  have "fl_round (of_int 300000) = Fin (of_int 300000)" by (rule fl_round_of_int) simp
  then show ?thesis
    by (simp add: held_long_enough_def min_hold_ms_def demo_risk_def default_thresholds_def
        now_ms_def sample_world_now)
qed

definition lower_to :: "RiskLevel \<Rightarrow> risk_call" where
  "lower_to level = \<lparr>rc_to = level, rc_event = RE_RECOVERY_APPROVED, rc_initiator = RI RI_OPERATOR,
     rc_reason_codes = Some [''de_escalation_approved''], rc_approved_by = Some ''op'',
     rc_reason = [], rc_metrics = None\<rparr>"

text \<open>C19: Lowering the risk level succeeds exactly when a member of the initiator enum that may
  take the edge asks for it (MANUAL_REVIEW and CIRCUIT_BREAKER only by the operator, the
  latter only to DEFENSIVE; below, the governor one level at a time, the operator also two),
  an approver is named, and the level has been held for the minimum time. This is the rule table of the code, which is
  not the specification's everywhere: SM-04 section 7.1 forbids REDUCED to NORMAL and its section 6.2 has
  neither DEFENSIVE to CAUTIOUS nor MANUAL_REVIEW to NORMAL, all of which the table allows the operator; and the
  header of the module sends CIRCUIT_BREAKER to MANUAL_REVIEW or NORMAL, where the table has MANUAL_REVIEW or
  DEFENSIVE.\<close>

theorem risk_lowering_exact:
  assumes "rc_to c < risk_level sm"
  shows "(\<exists>s sm' w'. risk_transition c sm w = (Inr s, sm', w')) \<longleftrightarrow>
    (\<exists>i. rc_initiator c = RI i \<and> lowering_edge (risk_level sm) (rc_to c) i) \<and>
    str_given (rc_approved_by c) \<and> held_long_enough sm w"
proof -
  have "rc_to c \<noteq> risk_level sm" using assms by simp
  show ?thesis
    by (simp only: risk_transition_success[OF \<open>rc_to c \<noteq> _\<close>] ex_simps
        risk_validate_lowering[OF assms]) blast
qed

lemma risk_lowering_exact_witness:
  "(\<exists>s sm' w'. risk_transition (lower_to R_REDUCED) (demo_risk R_DEFENSIVE) (sample_world 400) =
      (Inr s, sm', w')) \<and>
   \<not> (\<exists>s sm' w'. risk_transition (lower_to R_REDUCED) (demo_risk R_DEFENSIVE) (sample_world 300) =
      (Inr s, sm', w'))"
proof -
  have "rc_to (lower_to R_REDUCED) < risk_level (demo_risk R_DEFENSIVE)"
    by (simp add: lower_to_def demo_risk_def risk_level_def level_order)
  note iff = risk_lowering_exact[OF this]
  show ?thesis
    unfolding iff
    by (simp add: demo_hold) (simp add: lower_to_def demo_risk_def risk_level_def lowering_edge_def)
qed

text \<open>CIRCUIT_BREAKER cannot be bypassed: any successful transition out of it goes to
  MANUAL_REVIEW, by the operator or the governor, or to DEFENSIVE, by the operator with an
  approver named. It never leads to NORMAL.\<close>

theorem risk_circuit_breaker_exits:
  assumes "risk_transition c sm w = (Inr s, sm', w')" "risk_level sm = R_CIRCUIT_BREAKER"
    and "rc_to c \<noteq> R_CIRCUIT_BREAKER"
  shows "(rc_to c = R_MANUAL_REVIEW \<and> rc_initiator c \<in> {RI RI_OPERATOR, RI RI_RISK_GOVERNOR} \<or>
     rc_to c = R_DEFENSIVE \<and> rc_initiator c = RI RI_OPERATOR \<and> str_given (rc_approved_by c)) \<and>
    risk_level sm' = rc_to c"
  using assms(1)
proof (cases rule: risk_transition_cases)
  case (moved i rule w1 r entered copy)
  note ok = risk_validate_ok[OF moved(3)]
  have lvl: "risk_level sm' = rc_to c" using moved(5) by (simp add: risk_level_def risk_apply_def)
  show ?thesis
  proof (cases "rc_to c = R_MANUAL_REVIEW")
    case True
    with ok assms(2) moved(2) lvl show ?thesis
      by (auto simp: risk_rules_fun level_order risk_groups)
  next
    case False
    with assms(3) have lt: "rc_to c < risk_level sm"
      unfolding assms(2) by (cases "rc_to c") (simp_all add: level_order)
    from risk_lowering_exact[OF this, of w] assms(1) have
      "\<exists>i. rc_initiator c = RI i \<and> lowering_edge (risk_level sm) (rc_to c) i" "str_given (rc_approved_by c)"
      by blast+
    with lvl assms(2) show ?thesis by (auto simp: lowering_edge_def)
  qed
qed (use assms in auto)

definition demo_review :: risk_call where
  "demo_review = \<lparr>rc_to = R_MANUAL_REVIEW, rc_event = RE_OPERATOR_MANUAL_REVIEW,
     rc_initiator = RI RI_OPERATOR, rc_reason_codes = None, rc_approved_by = None, rc_reason = [],
     rc_metrics = None\<rparr>"

lemma risk_circuit_breaker_exits_witness:
  "risk_level (fst (snd (risk_transition demo_review (demo_risk R_CIRCUIT_BREAKER)
     (sample_world 2)))) = R_MANUAL_REVIEW"
proof -
  let ?sm = "demo_risk R_CIRCUIT_BREAKER"
  have "risk_level ?sm < rc_to demo_review"
    by (simp add: demo_risk_def risk_level_def demo_review_def level_order)
  from risk_escalation_succeeds[OF this, of RI_OPERATOR "sample_world 2"] obtain s sm' w' where
    t: "risk_transition demo_review ?sm (sample_world 2) = (Inr s, sm', w')"
    by (auto simp: demo_review_def RG_OPERATOR_GOV_def)
  have "risk_level sm' = rc_to demo_review"
    using risk_circuit_breaker_exits[OF t]
    by (simp add: demo_risk_def risk_level_def demo_review_def)
  with t show ?thesis by (simp add: demo_review_def)
qed

text \<open>C29: In every reachable governor the version is one more than the length of the audit
  trail, the trail is a walk over the levels from NORMAL to the current one, the counter of
  consecutive escalations is the length of the run of escalations at the trail's end, and
  every lowering on record was taken by the operator or the governor with an approver named.\<close>

theorem risk_trail_sound:
  assumes "risk_reachable sm"
  shows "risk_sound (r_state sm)"
  using assms by (rule risk_reachable_sound)

definition demo_escalated :: risk_sm where
  "demo_escalated = fst (snd (risk_on_market_data_stale ''stale''
     (fst (risk_new None True (sample_world 1))) (sample_world 2)))"

lemma risk_trail_sound_witness:
  "risk_level demo_escalated = R_CIRCUIT_BREAKER \<and> risk_sound (r_state demo_escalated)"
proof
  obtain sm w where n: "risk_new None True (sample_world 1) = (sm, w)" by fastforce
  obtain out sm' w' where h: "risk_on_market_data_stale ''stale'' sm (sample_world 2) = (out, sm', w')"
    by (metis prod_cases3)
  have "risk_reachable sm'"
    using risk_reachable.start[OF n] h unfolding risk_on_market_data_stale_def
    by (blast intro: risk_reachable.step risk_step.health)
  then show "risk_sound (r_state demo_escalated)"
    unfolding demo_escalated_def n fst_conv h snd_conv by (rule risk_trail_sound)
  have new: "risk_level sm = R_NORMAL" "r_thresholds sm = default_thresholds"
    using n by (auto simp: risk_new_def gov_post_init_def now_ms_def risk_level_def)
  have "risk_level sm' = R_CIRCUIT_BREAKER"
    using risk_health_level[OF h[unfolded risk_on_market_data_stale_def]] new
    by (simp add: default_thresholds_def level_order max_def)
  with n h show "risk_level demo_escalated = R_CIRCUIT_BREAKER"
    by (simp add: demo_escalated_def)
qed



text \<open>The order gate: an order passes exactly at NORMAL and CAUTIOUS, or, if it reduces a
  position, also at REDUCED and DEFENSIVE; at CIRCUIT_BREAKER and MANUAL_REVIEW nothing passes.
  A higher level never lets through what a lower one stops.\<close>

theorem risk_order_gate:
  "(fst (risk_is_order_allowed is_reducing sm) \<longleftrightarrow>
      risk_level sm \<le> R_CAUTIOUS \<or> is_reducing \<and> risk_level sm \<le> R_DEFENSIVE) \<and>
   (risk_level sm \<le> risk_level sm2 \<longrightarrow> fst (risk_is_order_allowed is_reducing sm2) \<longrightarrow>
      fst (risk_is_order_allowed is_reducing sm))"
proof -
  have gate: "fst (risk_is_order_allowed is_reducing sm) \<longleftrightarrow>
      risk_level sm \<le> R_CAUTIOUS \<or> is_reducing \<and> risk_level sm \<le> R_DEFENSIVE" for sm
    by (cases "risk_level sm")
      (simp_all add: risk_is_order_allowed_def risk_constraints_def Let_def level_order)
  show ?thesis unfolding gate by (auto intro: order_trans)
qed

lemma risk_order_gate_witness:
  "fst (risk_is_order_allowed True (demo_risk R_CAUTIOUS)) \<and>
   \<not> fst (risk_is_order_allowed True (demo_risk R_MANUAL_REVIEW))"
  using risk_order_gate[of True "demo_risk R_CAUTIOUS" "demo_risk R_DEFENSIVE"]
    risk_order_gate[of True "demo_risk R_MANUAL_REVIEW" "demo_risk R_DEFENSIVE"]
  by (simp add: demo_risk_def risk_level_def level_order)

text \<open>Persistence of the governor: importing what was exported restores the state exactly,
  into any governor; the thresholds of the importing governor stay. The clock is read once.\<close>

theorem risk_roundtrip:
  "risk_import_state (risk_export_state sm) sm0 w =
     Some (sm0\<lparr>r_state := r_state sm\<rparr>, snd (now_ms w))"
  by (simp add: risk_import_state_def risk_export_state_def dict_get_def Let_def now_ms_def)

text \<open>Import fails open on the level: whatever level the governor is at, data whose level
  name is unknown (or missing) resets it to NORMAL.\<close>

theorem risk_import_unknown_level:
  assumes "dict_get d ''level'' (PStr ''NORMAL'') = PStr name"
    and "level_of_name name \<in> {None, Some R_NORMAL}"
    and "risk_import_state d sm w = Some (sm', w')"
  shows "risk_level sm' = R_NORMAL"
  using assms
  by (auto simp: risk_import_state_def Let_def now_ms_def risk_level_def split: Option.bind_splits)

lemma risk_import_unknown_level_witness:
  "map_option (\<lambda>(sm, w). risk_level sm)
     (risk_import_state [(''level'', PStr ''HALTED'')] (demo_risk R_MANUAL_REVIEW) (sample_world 2)) =
   Some R_NORMAL"
proof -
  have "level_of_name ''HALTED'' = None" by (simp add: level_of_name_def risk_levels_def)
  moreover obtain sm' w' where i: "risk_import_state [(''level'', PStr ''HALTED'')]
      (demo_risk R_MANUAL_REVIEW) (sample_world 2) = Some (sm', w')"
    by (simp add: risk_import_state_def dict_get_def now_ms_def Let_def as_dicts_def as_list_def
        as_int_def)
  ultimately have "risk_level sm' = R_NORMAL"
    using risk_import_unknown_level[OF _ _ i, of "''HALTED''"] by (simp add: dict_get_def)
  with i show ?thesis by simp
qed

text \<open>The health handlers raise the level to the configured one and never lower it. The one
  exception is a handler configured to MANUAL_REVIEW, which the monitor may not enter: then
  the call raises (unless the governor is there already) and the level stays.\<close>

theorem risk_health_exact:
  assumes "risk_on_health_event select event reason sm w = (out, sm', w')"
  shows "risk_level sm' =
      (if select (r_thresholds sm) = R_MANUAL_REVIEW then risk_level sm
       else max (risk_level sm) (select (r_thresholds sm))) \<and>
    ((\<exists>e. out = Inl e) \<longleftrightarrow>
      select (r_thresholds sm) = R_MANUAL_REVIEW \<and> risk_level sm < R_MANUAL_REVIEW)"
  using risk_health_level[OF assms] by blast

lemma risk_health_exact_witness:
  "risk_level (fst (snd (risk_on_health_degraded ''slow'' (demo_risk R_NORMAL) (sample_world 2)))) =
     R_REDUCED"
proof -
  obtain out sm' w' where h: "risk_on_health_degraded ''slow'' (demo_risk R_NORMAL) (sample_world 2) =
     (out, sm', w')" by (metis prod_cases3)
  from risk_health_exact[OF h[unfolded risk_on_health_degraded_def]] h show ?thesis
    by (simp add: demo_risk_def default_thresholds_def risk_level_def level_order max_def)
qed

text \<open>An initiator given as a plain string, even one that spells an allowed initiator, never
  moves the governor: the call raises and the state stays.\<close>

theorem risk_string_initiator_refused:
  assumes "rc_initiator c = RawStr s" "rc_to c \<noteq> risk_level sm"
  shows "\<exists>e w'. risk_transition c sm w = (Inl e, sm, w')"
proof -
  obtain res sm' w' where t: "risk_transition c sm w = (res, sm', w')" by (metis prod_cases3)
  from t show ?thesis by (cases rule: risk_transition_cases) (use assms t in auto)
qed

lemma risk_string_initiator_refused_witness:
  "\<exists>e w'. risk_transition (lower_to R_NORMAL \<lparr>rc_initiator := RawStr ''Operator''\<rparr>)
      (demo_risk R_CAUTIOUS) (sample_world 900) = (Inl e, demo_risk R_CAUTIOUS, w')"
  by (rule risk_string_initiator_refused[where s = "''Operator''"])
    (simp_all add: lower_to_def demo_risk_def risk_level_def)

end
