(* ===== verification/Recovery_Gate.thy ===== *)
theory Recovery_Gate
  imports SM_Base
begin

text \<open>
  The recovery approval gate (\<open>app/recovery_approval_gate.py\<close>): requests to return to a
  less conservative state, the operator's decision on each, and the observation period an
  approval may carry. Requests and approvals live in two dictionaries under the request id.
\<close>

section \<open>Data\<close>

datatype RecoveryType = AUTH_UNFREEZE | AUTH_RESTORE | RISK_DEESCALATE | RISK_UNFREEZE
  | INCIDENT_RESOLVE | TRADING_RESUME

fun recovery_type_value :: "RecoveryType \<Rightarrow> string" where
  "recovery_type_value AUTH_UNFREEZE = ''auth_unfreeze''"
| "recovery_type_value AUTH_RESTORE = ''auth_restore''"
| "recovery_type_value RISK_DEESCALATE = ''risk_deescalate''"
| "recovery_type_value RISK_UNFREEZE = ''risk_unfreeze''"
| "recovery_type_value INCIDENT_RESOLVE = ''incident_resolve''"
| "recovery_type_value TRADING_RESUME = ''trading_resume''"

datatype ApprovalStatus = AS_PENDING | AS_APPROVED | AS_REJECTED | AS_CANCELLED

fun approval_status_value :: "ApprovalStatus \<Rightarrow> string" where
  "approval_status_value AS_PENDING = ''pending''"
| "approval_status_value AS_APPROVED = ''approved''"
| "approval_status_value AS_REJECTED = ''rejected''"
| "approval_status_value AS_CANCELLED = ''cancelled''"

datatype ObservationPeriodStatus = OB_NOT_REQUIRED | OB_PENDING | OB_COMPLETED | OB_FAILED

record RecoveryRequest =
  rq_id :: string
  rq_type :: RecoveryType
  rq_from :: string
  rq_to :: string
  rq_by :: string
  rq_at_ms :: int
  rq_reason :: string
  rq_hours :: int
  rq_evidence :: pydict
  rq_status :: ApprovalStatus

definition request_post_init :: "RecoveryRequest \<Rightarrow> 'z env_scheme \<Rightarrow> RecoveryRequest \<times> 'z env_scheme" where
  "request_post_init r w =
     (let (r1, w1) = (if rq_id r = [] then
            (let (h, w') = fresh_hex w in (r\<lparr>rq_id := ''rec_req:'' @ take 12 h\<rparr>, w')) else (r, w))
      in if rq_at_ms r1 = 0 then (let (t, w2) = now_ms w1 in (r1\<lparr>rq_at_ms := t\<rparr>, w2)) else (r1, w1))"

definition request_to_dict :: "RecoveryRequest \<Rightarrow> pydict" where
  "request_to_dict r =
     [(''request_id'', PStr (rq_id r)), (''recovery_type'', PStr (recovery_type_value (rq_type r))),
      (''from_state'', PStr (rq_from r)), (''to_state'', PStr (rq_to r)),
      (''requested_by'', PStr (rq_by r)), (''requested_at_ms'', PInt (rq_at_ms r)),
      (''reason'', PStr (rq_reason r)), (''observation_period_hours'', PInt (rq_hours r)),
      (''evidence'', PDict (rq_evidence r)), (''status'', PStr (approval_status_value (rq_status r)))]"

record RecoveryApproval =
  ra_request_id :: string
  ra_by :: string
  ra_at_ms :: int
  ra_conditions :: "string list"
  ra_start_ms :: int
  ra_end_ms :: int
  ra_notes :: string
  ra_id :: string

definition approval_post_init ::
  "RecoveryApproval \<Rightarrow> 'z env_scheme \<Rightarrow> RecoveryApproval \<times> 'z env_scheme" where
  "approval_post_init a w =
     (let (a1, w1) = (if ra_id a = [] then
            (let (h, w') = fresh_hex w in (a\<lparr>ra_id := ''rec_app:'' @ take 12 h\<rparr>, w')) else (a, w));
          (a2, w2) = (if ra_at_ms a1 = 0 then
            (let (t, w') = now_ms w1 in (a1\<lparr>ra_at_ms := t\<rparr>, w')) else (a1, w1))
      in (if ra_start_ms a2 = 0 \<and> 0 < ra_end_ms a2 then a2\<lparr>ra_start_ms := ra_at_ms a2\<rparr> else a2, w2))"

definition has_observation_period :: "RecoveryApproval \<Rightarrow> bool" where
  "has_observation_period a \<longleftrightarrow> 0 < ra_end_ms a"

definition is_observation_complete :: "RecoveryApproval \<Rightarrow> 'z env_scheme \<Rightarrow> bool \<times> 'z env_scheme" where
  "is_observation_complete a w =
     (if \<not> has_observation_period a then (True, w)
      else (let (now, w1) = now_ms w in (ra_end_ms a \<le> now, w1)))"

definition approval_to_dict :: "RecoveryApproval \<Rightarrow> 'z env_scheme \<Rightarrow> pydict \<times> 'z env_scheme" where
  "approval_to_dict a w =
     (let (complete, w1) = is_observation_complete a w in
      ([(''approval_id'', PStr (ra_id a)), (''request_id'', PStr (ra_request_id a)),
        (''approved_by'', PStr (ra_by a)), (''approved_at_ms'', PInt (ra_at_ms a)),
        (''conditions'', PList (map PStr (ra_conditions a))),
        (''observation_start_ms'', PInt (ra_start_ms a)),
        (''observation_end_ms'', PInt (ra_end_ms a)),
        (''has_observation_period'', PBool (has_observation_period a)),
        (''is_observation_complete'', PBool complete), (''notes'', PStr (ra_notes a))], w1))"

section \<open>The gate\<close>

text \<open>The counters of \<open>_stats\<close> are fields.\<close>

record recovery_gate =
  gate_cb :: bool
  gate_requests :: "(string \<times> RecoveryRequest) list"
  gate_approvals :: "(string \<times> RecoveryApproval) list"
  st_submitted :: nat
  st_approved :: nat
  st_rejected :: nat
  st_obs_completed :: nat
  st_obs_failed :: nat

definition gate_new :: "bool \<Rightarrow> recovery_gate" where
  "gate_new cb = \<lparr>gate_cb = cb, gate_requests = [], gate_approvals = [], st_submitted = 0,
     st_approved = 0, st_rejected = 0, st_obs_completed = 0, st_obs_failed = 0\<rparr>"

definition gate_audit :: "recovery_gate \<Rightarrow> pydict \<Rightarrow> world \<Rightarrow> world" where
  "gate_audit g = emit_audit ''recovery_gate'' (gate_cb g)"

definition submit_recovery_request ::
  "RecoveryType \<Rightarrow> string \<Rightarrow> string \<Rightarrow> string \<Rightarrow> string \<Rightarrow> int \<Rightarrow> pydict option \<Rightarrow>
   recovery_gate \<Rightarrow> world \<Rightarrow> RecoveryRequest \<times> recovery_gate \<times> world" where
  "submit_recovery_request rtype from_s to_s by_whom reason hours evidence g w =
     (let (req, w1) = request_post_init
            \<lparr>rq_id = [], rq_type = rtype, rq_from = from_s, rq_to = to_s, rq_by = by_whom,
             rq_at_ms = 0, rq_reason = reason, rq_hours = hours,
             rq_evidence = (case evidence of None \<Rightarrow> [] | Some d \<Rightarrow> d), rq_status = AS_PENDING\<rparr> w;
          g1 = g\<lparr>gate_requests := AList.update (rq_id req) req (gate_requests g),
                 st_submitted := Suc (st_submitted g)\<rparr>
      in (req, g1, gate_audit g1
           [(''event_type'', PStr ''recovery_request_submitted''), (''request_id'', PStr (rq_id req)),
            (''recovery_type'', PStr (recovery_type_value rtype)), (''from_state'', PStr from_s),
            (''to_state'', PStr to_s), (''requested_by'', PStr by_whom),
            (''observation_period_hours'', PInt hours), (''timestamp_ms'', PInt (rq_at_ms req))] w1))"

text \<open>\<open>req.status = ...\<close> on the stored request.\<close>

definition set_request_status :: "string \<Rightarrow> RecoveryRequest \<Rightarrow> ApprovalStatus \<Rightarrow> recovery_gate \<Rightarrow> recovery_gate" where
  "set_request_status rid req s g =
     g\<lparr>gate_requests := AList.update rid (req\<lparr>rq_status := s\<rparr>) (gate_requests g)\<rparr>"

text \<open>The approval object: its window starts now and lasts the given hours.\<close>

definition make_approval ::
  "string \<Rightarrow> string \<Rightarrow> string list \<Rightarrow> int \<Rightarrow> string \<Rightarrow> 'z env_scheme \<Rightarrow>
   (int \<times> RecoveryApproval) \<times> 'z env_scheme" where
  "make_approval rid by_whom conditions hours notes w =
     (let (now, w1) = now_ms w;
          (a, w2) = approval_post_init
             \<lparr>ra_request_id = rid, ra_by = by_whom, ra_at_ms = now, ra_conditions = conditions,
              ra_start_ms = (if 0 < hours then now else 0),
              ra_end_ms = (if 0 < hours then now + hours * 3600 * 1000 else 0),
              ra_notes = notes, ra_id = []\<rparr> w1
      in ((now, a), w2))"

definition approve_recovery ::
  "string \<Rightarrow> string \<Rightarrow> string list option \<Rightarrow> int option \<Rightarrow> string \<Rightarrow>
   recovery_gate \<Rightarrow> world \<Rightarrow> RecoveryApproval option \<times> recovery_gate \<times> world" where
  "approve_recovery rid by_whom conds override notes g w =
     (case map_of (gate_requests g) rid of
        None \<Rightarrow> (None, g, w)
      | Some req \<Rightarrow>
          (if rq_status req \<noteq> AS_PENDING then (None, g, w)
           else
             (let hours = (case override of None \<Rightarrow> rq_hours req | Some h \<Rightarrow> h);
                  conditions = (case conds of None \<Rightarrow> [] | Some cs \<Rightarrow> cs);
                  ((now, a), w2) = make_approval rid by_whom conditions hours notes w;
                  g1 = set_request_status rid req AS_APPROVED
                         (g\<lparr>gate_approvals := AList.update rid a (gate_approvals g),
                            st_approved := Suc (st_approved g)\<rparr>)
              in (Some a, g1, gate_audit g1
                   [(''event_type'', PStr ''recovery_approved''), (''request_id'', PStr rid),
                    (''approved_by'', PStr by_whom), (''approved_at_ms'', PInt now),
                    (''conditions'', PList (map PStr conditions)),
                    (''observation_period_hours'', PInt hours),
                    (''has_observation'', PBool (0 < hours)),
                    (''observation_end_ms'', PInt (ra_end_ms a)), (''notes'', PStr notes)] w2))))"

definition reject_recovery ::
  "string \<Rightarrow> string \<Rightarrow> string \<Rightarrow> recovery_gate \<Rightarrow> world \<Rightarrow> bool \<times> recovery_gate \<times> world" where
  "reject_recovery rid by_whom reason g w =
     (case map_of (gate_requests g) rid of
        None \<Rightarrow> (False, g, w)
      | Some req \<Rightarrow>
          (if rq_status req \<noteq> AS_PENDING then (False, g, w)
           else
             (let (now, w1) = now_ms w;
                  g1 = set_request_status rid req AS_REJECTED (g\<lparr>st_rejected := Suc (st_rejected g)\<rparr>)
              in (True, g1, gate_audit g1
                   [(''event_type'', PStr ''recovery_rejected''), (''request_id'', PStr rid),
                    (''rejected_by'', PStr by_whom), (''reason'', PStr reason),
                    (''timestamp_ms'', PInt now)] w1))))"

definition check_observation_period ::
  "string \<Rightarrow> recovery_gate \<Rightarrow> 'z env_scheme \<Rightarrow> ObservationPeriodStatus \<times> recovery_gate \<times> 'z env_scheme" where
  "check_observation_period rid g w =
     (case map_of (gate_approvals g) rid of
        None \<Rightarrow> (OB_NOT_REQUIRED, g, w)
      | Some a \<Rightarrow>
          (if \<not> has_observation_period a then (OB_NOT_REQUIRED, g, w)
           else
             (let (complete, w1) = is_observation_complete a w in
              if complete then (OB_COMPLETED, g\<lparr>st_obs_completed := Suc (st_obs_completed g)\<rparr>, w1)
              else (OB_PENDING, g, w1))))"

definition mark_observation_failed ::
  "string \<Rightarrow> string \<Rightarrow> recovery_gate \<Rightarrow> world \<Rightarrow> bool \<times> recovery_gate \<times> world" where
  "mark_observation_failed rid reason g w =
     (case map_of (gate_approvals g) rid of
        None \<Rightarrow> (False, g, w)
      | Some a \<Rightarrow>
          (let (now, w1) = now_ms w; g1 = g\<lparr>st_obs_failed := Suc (st_obs_failed g)\<rparr>
           in (True, g1, gate_audit g1
                [(''event_type'', PStr ''observation_period_failed''), (''request_id'', PStr rid),
                 (''reason'', PStr reason), (''timestamp_ms'', PInt now)] w1)))"

section \<open>Queries\<close>

definition requests_where :: "(RecoveryRequest \<Rightarrow> bool) \<Rightarrow> recovery_gate \<Rightarrow> pydict list" where
  "requests_where P g = map request_to_dict (filter P (map snd (gate_requests g)))"

definition get_pending_requests :: "recovery_gate \<Rightarrow> pydict list" where
  "get_pending_requests = requests_where (\<lambda>r. rq_status r = AS_PENDING)"

definition get_approved_requests :: "recovery_gate \<Rightarrow> pydict list" where
  "get_approved_requests = requests_where (\<lambda>r. rq_status r = AS_APPROVED)"

definition get_requests_by_type :: "RecoveryType \<Rightarrow> recovery_gate \<Rightarrow> pydict list" where
  "get_requests_by_type t = requests_where (\<lambda>r. rq_type r = t)"

definition get_request :: "string \<Rightarrow> recovery_gate \<Rightarrow> pydict option" where
  "get_request rid g = map_option request_to_dict (map_of (gate_requests g) rid)"

definition get_approval :: "string \<Rightarrow> recovery_gate \<Rightarrow> 'z env_scheme \<Rightarrow> pydict option \<times> 'z env_scheme" where
  "get_approval rid g w =
     (case map_of (gate_approvals g) rid of
        None \<Rightarrow> (None, w)
      | Some a \<Rightarrow> (let (d, w1) = approval_to_dict a w in (Some d, w1)))"

fun pending_observations ::
  "(string \<times> RecoveryApproval) list \<Rightarrow> recovery_gate \<Rightarrow> 'z env_scheme \<Rightarrow> pydict list \<times> 'z env_scheme" where
  "pending_observations [] g w = ([], w)"
| "pending_observations ((rid, a) # rest) g w =
     (if \<not> has_observation_period a then pending_observations rest g w
      else
        (let (complete, w1) = is_observation_complete a w in
         if complete then pending_observations rest g w1
         else
           (case map_of (gate_requests g) rid of
              None \<Rightarrow> pending_observations rest g w1
            | Some req \<Rightarrow>
                (let (d, w2) = approval_to_dict a w1;
                     (ds, w3) = pending_observations rest g w2
                 in (AList.update ''approval'' (PDict d) (request_to_dict req) # ds, w3)))))"

definition get_pending_observations :: "recovery_gate \<Rightarrow> 'z env_scheme \<Rightarrow> pydict list \<times> 'z env_scheme" where
  "get_pending_observations g w = pending_observations (gate_approvals g) g w"

definition gate_get_stats :: "recovery_gate \<Rightarrow> pydict" where
  "gate_get_stats g =
     [(''requests_submitted'', PInt (int (st_submitted g))),
      (''requests_approved'', PInt (int (st_approved g))),
      (''requests_rejected'', PInt (int (st_rejected g))),
      (''observations_completed'', PInt (int (st_obs_completed g))),
      (''observations_failed'', PInt (int (st_obs_failed g))),
      (''total_requests'', PInt (int (length (gate_requests g)))),
      (''pending_requests'',
        PInt (int (length (filter (\<lambda>r. rq_status r = AS_PENDING) (map snd (gate_requests g)))))),
      (''total_approvals'', PInt (int (length (gate_approvals g))))]"

section \<open>Histories of operations\<close>

datatype gate_op =
    GSubmit RecoveryType string string string string int "pydict option"
  | GApprove string string "string list option" "int option" string
  | GReject string string string
  | GCheck string
  | GFail string string

fun gate_exec :: "gate_op \<Rightarrow> recovery_gate \<times> world \<Rightarrow> recovery_gate \<times> world" where
  "gate_exec (GSubmit t f s b r h e) (g, w) = snd (submit_recovery_request t f s b r h e g w)"
| "gate_exec (GApprove k b cs h n) (g, w) = snd (approve_recovery k b cs h n g w)"
| "gate_exec (GReject k b r) (g, w) = snd (reject_recovery k b r g w)"
| "gate_exec (GCheck k) (g, w) = snd (check_observation_period k g w)"
| "gate_exec (GFail k r) (g, w) = snd (mark_observation_failed k r g w)"

definition gate_run :: "gate_op list \<Rightarrow> recovery_gate \<times> world \<Rightarrow> recovery_gate \<times> world" where
  "gate_run = fold gate_exec"

lemma gate_run_simps [simp]:
  "gate_run [] s = s" "gate_run (x # xs) s = gate_run xs (gate_exec x s)"
  by (simp_all add: gate_run_def)

section \<open>What each operation does\<close>

lemma approval_post_init_keeps:
  assumes "approval_post_init a w = (b, w')"
  shows "ra_request_id b = ra_request_id a" "ra_end_ms b = ra_end_ms a" "later w w'"
  using assms
  by (auto simp: approval_post_init_def fresh_hex_def now_ms_def Let_def later_def split: if_splits)

lemma later_gate_audit [simp]: "later w (gate_audit g d w)"
  by (simp add: gate_audit_def)

lemma make_approval_effect:
  assumes "make_approval k b cs hours n w = ((now, a), w')"
  shows "ra_request_id a = k" "later w w'"
    and "ra_end_ms a = (if 0 < hours then millis (clock w (ticks w)) + hours * 3600 * 1000 else 0)"
  using assms
  by (auto simp: make_approval_def now_ms_def later_def dest: approval_post_init_keeps split: prod.splits)

lemma approve_recovery_effect:
  assumes "map_of (gate_requests g) k = Some req" "rq_status req = AS_PENDING"
  obtains a w' where
    "approve_recovery k b cs h n g w = (Some a, set_request_status k req AS_APPROVED
       (g\<lparr>gate_approvals := AList.update k a (gate_approvals g), st_approved := Suc (st_approved g)\<rparr>), w')"
    and "ra_request_id a = k"
    and "ra_end_ms a = (let hours = (case h of None \<Rightarrow> rq_hours req | Some x \<Rightarrow> x)
           in if 0 < hours then millis (clock w (ticks w)) + hours * 3600 * 1000 else 0)"
    and "later w w'"
proof -
  obtain now a w2 where m: "make_approval k b (case cs of None \<Rightarrow> [] | Some cs \<Rightarrow> cs)
      (case h of None \<Rightarrow> rq_hours req | Some x \<Rightarrow> x) n w = ((now, a), w2)"
    by (metis prod.exhaust)
  obtain res g' w' where e: "approve_recovery k b cs h n g w = (res, g', w')"
    by (metis prod_cases3)
  note k = make_approval_effect[OF m]
  have "res = Some a" "g' = set_request_status k req AS_APPROVED
       (g\<lparr>gate_approvals := AList.update k a (gate_approvals g), st_approved := Suc (st_approved g)\<rparr>)"
    and "later w w'"
    using e assms m k(2) by (auto simp: approve_recovery_def Let_def intro: later_trans later_gate_audit)
  with e k show ?thesis by (intro that[of a w']) (simp_all add: Let_def)
qed

lemma approve_recovery_refused:
  assumes "\<not> (\<exists>req. map_of (gate_requests g) k = Some req \<and> rq_status req = AS_PENDING)"
  shows "approve_recovery k b cs h n g w = (None, g, w)"
  using assms by (auto simp: approve_recovery_def split: option.splits)

lemma reject_recovery_effect:
  assumes "map_of (gate_requests g) k = Some req" "rq_status req = AS_PENDING"
  obtains w' where "reject_recovery k b r g w =
    (True, set_request_status k req AS_REJECTED (g\<lparr>st_rejected := Suc (st_rejected g)\<rparr>), w')"
    "later w w'"
  using assms
  by (simp add: reject_recovery_def Let_def now_ms_def gate_audit_def emit_audit_def later_def
      split: if_splits)

lemma reject_recovery_refused:
  assumes "\<not> (\<exists>req. map_of (gate_requests g) k = Some req \<and> rq_status req = AS_PENDING)"
  shows "reject_recovery k b r g w = (False, g, w)"
  using assms by (auto simp: reject_recovery_def split: option.splits)

lemma submit_recovery_effect:
  obtains req w' where "submit_recovery_request t f s b r h e g w =
      (req, g\<lparr>gate_requests := AList.update (rq_id req) req (gate_requests g),
              st_submitted := Suc (st_submitted g)\<rparr>, w')"
    "rq_id req = ''rec_req:'' @ take 12 (uuids w (draws w))" "rq_status req = AS_PENDING"
    "rq_hours req = h" "rq_type req = t" "rq_by req = b"
    "uuids w' = uuids w" "draws w' = Suc (draws w)" "later w w'"
  by (simp add: submit_recovery_request_def Let_def request_post_init_def now_ms_def fresh_hex_def
      gate_audit_def emit_audit_def later_def split: if_splits)

text \<open>The check and the failure mark change counters only.\<close>

definition same_register :: "recovery_gate \<Rightarrow> recovery_gate \<Rightarrow> bool" where
  "same_register g g' \<longleftrightarrow> gate_requests g' = gate_requests g \<and> gate_approvals g' = gate_approvals g \<and>
     gate_cb g' = gate_cb g \<and> st_submitted g' = st_submitted g \<and> st_approved g' = st_approved g \<and>
     st_rejected g' = st_rejected g"

lemma check_observation_same: "same_register g (fst (snd (check_observation_period k g w)))"
  by (simp add: same_register_def check_observation_period_def Let_def split: option.splits prod.splits)

lemma mark_failed_same: "same_register g (fst (snd (mark_observation_failed k r g w)))"
  by (simp add: same_register_def mark_observation_failed_def Let_def split: option.splits prod.splits)

lemma check_observation_later: "later w (snd (snd (check_observation_period k g w)))"
  by (simp add: check_observation_period_def is_observation_complete_def now_ms_def Let_def later_def
      split: option.splits)

lemma mark_failed_later: "later w (snd (snd (mark_observation_failed k r g w)))"
  by (simp add: mark_observation_failed_def now_ms_def gate_audit_def emit_audit_def Let_def later_def
      split: option.splits)

section \<open>The invariant of the register\<close>

fun tally :: "('v \<Rightarrow> bool) \<Rightarrow> ('k \<times> 'v) list \<Rightarrow> nat" where
  "tally P [] = 0"
| "tally P ((k, v) # d) = of_bool (P v) + tally P d"

lemma tally_filter: "tally P d = length (filter P (map snd d))"
  by (induction P d rule: tally.induct) auto

lemma tally_update:
  "tally P (AList.update k v d) + (case map_of d k of None \<Rightarrow> 0 | Some u \<Rightarrow> of_bool (P u)) =
   tally P d + of_bool (P v)"
  by (induction P d rule: tally.induct) (auto split: option.splits)

definition pending_in :: "recovery_gate \<Rightarrow> nat" where
  "pending_in g = tally (\<lambda>r. rq_status r = AS_PENDING) (gate_requests g)"

definition gate_ok :: "recovery_gate \<Rightarrow> bool" where
  "gate_ok g \<longleftrightarrow>
     (\<forall>k r. map_of (gate_requests g) k = Some r \<longrightarrow> rq_id r = k \<and> rq_status r \<noteq> AS_CANCELLED \<and>
        (rq_status r = AS_APPROVED \<longrightarrow> (\<exists>a. map_of (gate_approvals g) k = Some a))) \<and>
     (\<forall>k a. map_of (gate_approvals g) k = Some a \<longrightarrow>
        ra_request_id a = k \<and> (\<exists>r. map_of (gate_requests g) k = Some r)) \<and>
     st_approved g + st_rejected g + pending_in g \<le> st_submitted g"

lemma gate_ok_new: "gate_ok (gate_new cb)"
  by (simp add: gate_ok_def gate_new_def pending_in_def)

lemma gate_ok_same: "gate_ok g \<Longrightarrow> same_register g g' \<Longrightarrow> gate_ok g'"
  by (simp add: gate_ok_def same_register_def pending_in_def)

lemma gate_ok_submit:
  assumes "gate_ok g" "rq_status req = AS_PENDING"
  shows "gate_ok (g\<lparr>gate_requests := AList.update (rq_id req) req (gate_requests g),
                    st_submitted := Suc (st_submitted g)\<rparr>)"
proof -
  have "tally (\<lambda>r. rq_status r = AS_PENDING) (AList.update (rq_id req) req (gate_requests g))
      \<le> pending_in g + 1"
    using tally_update[of "\<lambda>r. rq_status r = AS_PENDING" "rq_id req" req "gate_requests g"] assms(2)
    by (simp add: pending_in_def)
  with assms show ?thesis
    by (auto simp: gate_ok_def pending_in_def pd.get_put split: if_splits)
qed

lemma pending_decided:
  assumes "map_of (gate_requests g) k = Some req" "rq_status req = AS_PENDING" "s \<noteq> AS_PENDING"
  shows "Suc (tally (\<lambda>r. rq_status r = AS_PENDING)
           (AList.update k (req\<lparr>rq_status := s\<rparr>) (gate_requests g))) = pending_in g"
  using tally_update[of "\<lambda>r. rq_status r = AS_PENDING" k "req\<lparr>rq_status := s\<rparr>" "gate_requests g"] assms
  by (simp add: pending_in_def)

lemma gate_ok_approve:
  assumes "gate_ok g" "map_of (gate_requests g) k = Some req" "rq_status req = AS_PENDING"
    and "ra_request_id a = k"
  shows "gate_ok (set_request_status k req AS_APPROVED
     (g\<lparr>gate_approvals := AList.update k a (gate_approvals g), st_approved := Suc (st_approved g)\<rparr>))"
  using assms pending_decided[OF assms(2,3), of AS_APPROVED]
  by (auto simp: gate_ok_def set_request_status_def pending_in_def pd.get_put split: if_splits)

lemma gate_ok_reject:
  assumes "gate_ok g" "map_of (gate_requests g) k = Some req" "rq_status req = AS_PENDING"
  shows "gate_ok (set_request_status k req AS_REJECTED (g\<lparr>st_rejected := Suc (st_rejected g)\<rparr>))"
  using assms pending_decided[OF assms(2,3), of AS_REJECTED]
  by (auto simp: gate_ok_def set_request_status_def pending_in_def pd.get_put split: if_splits)

lemma gate_ok_exec: "gate_ok (fst s) \<Longrightarrow> gate_ok (fst (gate_exec x s))"
proof (induction x s rule: gate_exec.induct)
  case (1 t f s b r h e g w)
  then show ?case
    by (rule_tac submit_recovery_effect[of t f s b r h e g w]) (metis gate_ok_submit gate_exec.simps(1) fst_conv snd_conv)
next
  case (2 k b cs h n g w)
  then show ?case
  proof (cases "\<exists>req. map_of (gate_requests g) k = Some req \<and> rq_status req = AS_PENDING")
    case True
    then obtain req where "map_of (gate_requests g) k = Some req" "rq_status req = AS_PENDING" by blast
    with 2 show ?thesis
      by (rule_tac approve_recovery_effect[of g k req b cs h n w]) (simp_all add: gate_ok_approve)
  qed (simp add: approve_recovery_refused)
next
  case (3 k b r g w)
  then show ?case
  proof (cases "\<exists>req. map_of (gate_requests g) k = Some req \<and> rq_status req = AS_PENDING")
    case True
    then obtain req where "map_of (gate_requests g) k = Some req" "rq_status req = AS_PENDING" by blast
    with 3 show ?thesis
      by (rule_tac reject_recovery_effect[of g k req b r w]) (simp_all add: gate_ok_reject)
  qed (simp add: reject_recovery_refused)
next
  case (4 k g w)
  then show ?case using gate_ok_same[OF _ check_observation_same] by simp
next
  case (5 k r g w)
  then show ?case using gate_ok_same[OF _ mark_failed_same] by simp
qed

lemma gate_ok_run: "gate_ok (fst s) \<Longrightarrow> gate_ok (fst (gate_run xs s))"
  by (induction xs arbitrary: s) (simp_all add: gate_ok_exec)

section \<open>Decided requests stay decided\<close>

text \<open>What the register says about one id: its request and its approval.\<close>

definition register_at :: "recovery_gate \<Rightarrow> string \<Rightarrow> RecoveryRequest option \<times> RecoveryApproval option" where
  "register_at g k = (map_of (gate_requests g) k, map_of (gate_approvals g) k)"

definition decided_request :: "recovery_gate \<Rightarrow> string \<Rightarrow> bool" where
  "decided_request g k \<longleftrightarrow> (\<exists>r. map_of (gate_requests g) k = Some r \<and> rq_status r \<noteq> AS_PENDING)"

text \<open>The ids of the requests submitted between two worlds differ from \<open>k\<close>.\<close>

definition no_draw :: "string \<Rightarrow> world \<Rightarrow> world \<Rightarrow> bool" where
  "no_draw k w w' \<longleftrightarrow>
     (\<forall>n. draws w \<le> n \<and> n < draws w' \<longrightarrow> ''rec_req:'' @ take 12 (uuids w n) \<noteq> k)"

lemma no_draw_split:
  assumes "later u v" "later v w" "no_draw k u w"
  shows "no_draw k u v" "no_draw k v w"
  using assms by (auto simp: no_draw_def later_def)

lemma register_at_same: "same_register g g' \<Longrightarrow> register_at g' k = register_at g k"
  by (simp add: register_at_def same_register_def)

lemma decided_register: "register_at g' k = register_at g k \<Longrightarrow> decided_request g' k = decided_request g k"
  by (simp add: register_at_def decided_request_def)

lemma approve_other:
  assumes "decided_request g k \<or> j \<noteq> k"
  shows "register_at (fst (snd (approve_recovery j b cs h n g w))) k = register_at g k"
    and "later w (snd (snd (approve_recovery j b cs h n g w)))"
proof -
  have "register_at (fst (snd (approve_recovery j b cs h n g w))) k = register_at g k \<and>
      later w (snd (snd (approve_recovery j b cs h n g w)))"
  proof (cases "\<exists>req. map_of (gate_requests g) j = Some req \<and> rq_status req = AS_PENDING")
    case True
    then obtain req where r: "map_of (gate_requests g) j = Some req" "rq_status req = AS_PENDING" by blast
    with assms have "j \<noteq> k" by (auto simp: decided_request_def)
    with r show ?thesis
      by (rule_tac approve_recovery_effect[OF r, of b cs h n w])
        (simp add: register_at_def set_request_status_def pd.get_put)
  qed (simp add: approve_recovery_refused)
  then show "register_at (fst (snd (approve_recovery j b cs h n g w))) k = register_at g k"
    and "later w (snd (snd (approve_recovery j b cs h n g w)))" by simp_all
qed

lemma reject_other:
  assumes "decided_request g k \<or> j \<noteq> k"
  shows "register_at (fst (snd (reject_recovery j b r g w))) k = register_at g k"
    and "later w (snd (snd (reject_recovery j b r g w)))"
proof -
  have "register_at (fst (snd (reject_recovery j b r g w))) k = register_at g k \<and>
      later w (snd (snd (reject_recovery j b r g w)))"
  proof (cases "\<exists>req. map_of (gate_requests g) j = Some req \<and> rq_status req = AS_PENDING")
    case True
    then obtain req where req: "map_of (gate_requests g) j = Some req" "rq_status req = AS_PENDING" by blast
    with assms have "j \<noteq> k" by (auto simp: decided_request_def)
    with req show ?thesis
      by (rule_tac reject_recovery_effect[where b = b and r = r and w = w, OF req])
        (simp add: register_at_def set_request_status_def pd.get_put)
  qed (simp add: reject_recovery_refused)
  then show "register_at (fst (snd (reject_recovery j b r g w))) k = register_at g k"
    and "later w (snd (snd (reject_recovery j b r g w)))" by simp_all
qed

lemma gate_exec_keeps_decided:
  assumes "decided_request g k" "no_draw k w (snd (gate_exec x (g, w)))"
  shows "register_at (fst (gate_exec x (g, w))) k = register_at g k"
proof (cases x)
  case (GSubmit t f s b r h e)
  with assms show ?thesis
    by (rule_tac submit_recovery_effect[of t f s b r h e g w])
      (auto simp: register_at_def no_draw_def pd.get_put)
next
  case (GCheck j)
  then show ?thesis by (simp add: register_at_same[OF check_observation_same])
next
  case (GFail j r)
  then show ?thesis by (simp add: register_at_same[OF mark_failed_same])
qed (use assms in \<open>simp_all add: approve_other reject_other\<close>)

lemma gate_exec_later: "later (snd s) (snd (gate_exec x s))"
proof (induction x s rule: gate_exec.induct)
  case (1 t f s b r h e g w)
  show ?case by (rule submit_recovery_effect[of t f s b r h e g w]) simp
next
  case (2 k b cs h n g w)
  show ?case using approve_other(2)[where k = "CHR ''x'' # k"] by simp
next
  case (3 k b r g w)
  show ?case using reject_other(2)[where k = "CHR ''x'' # k"] by simp
qed (simp_all add: check_observation_later mark_failed_later)

lemma gate_run_later: "later (snd s) (snd (gate_run xs s))"
proof (induction xs arbitrary: s)
  case (Cons x xs)
  show ?case
    using later_trans[OF gate_exec_later Cons.IH] by simp
qed simp

lemma gate_run_keeps_decided:
  "decided_request (fst s) k \<Longrightarrow> no_draw k (snd s) (snd (gate_run xs s)) \<Longrightarrow>
   register_at (fst (gate_run xs s)) k = register_at (fst s) k"
proof (induction xs arbitrary: s)
  case (Cons x xs)
  obtain g w where s: "s = (g, w)" by (cases s)
  note d = no_draw_split[OF gate_exec_later gate_run_later Cons.prems(2)[unfolded gate_run_simps]]
  have keep: "register_at (fst (gate_exec x s)) k = register_at (fst s) k"
    using gate_exec_keeps_decided[of g k w x] Cons.prems(1) d(1) by (simp add: s)
  with Cons.IH[of "gate_exec x s"] d(2) Cons.prems(1) show ?case
    by (simp add: decided_register[OF keep])
qed simp

section \<open>The observation window\<close>

lemma check_observation_eq:
  "fst (check_observation_period k g w) =
     (case map_of (gate_approvals g) k of
        None \<Rightarrow> OB_NOT_REQUIRED
      | Some a \<Rightarrow> if ra_end_ms a \<le> 0 then OB_NOT_REQUIRED
                   else if ra_end_ms a \<le> millis (clock w (ticks w)) then OB_COMPLETED else OB_PENDING)"
  by (simp add: check_observation_period_def has_observation_period_def is_observation_complete_def
      now_ms_def Let_def split: option.splits)

section \<open>A concrete history\<close>

definition demo_gate :: "recovery_gate \<times> world" where
  "demo_gate = snd (submit_recovery_request RISK_DEESCALATE ''DEFENSIVE'' ''REDUCED'' ''op'' ''calm'' 2 None
     (gate_new True) (sample_world 100))"

definition demo_request_id :: string where
  "demo_request_id = ''rec_req:'' @ take 12 (pad8 0)"

definition demo_gate_approved :: "RecoveryApproval option \<times> recovery_gate \<times> world" where
  "demo_gate_approved = approve_recovery demo_request_id ''op'' None None [] (fst demo_gate) (snd demo_gate)"

lemma demo_pending:
  "\<exists>req. map_of (gate_requests (fst demo_gate)) demo_request_id = Some req \<and>
     rq_status req = AS_PENDING \<and> rq_hours req = 2"
proof -
  have "map_option (\<lambda>r. (rq_status r, rq_hours r)) (map_of (gate_requests (fst demo_gate)) demo_request_id)
      = Some (AS_PENDING, 2)"
    by code_simp
  then show ?thesis by auto
qed

lemma demo_approved:
  obtains a g' w' where "demo_gate_approved = (Some a, g', w')"
proof -
  have "fst demo_gate_approved \<noteq> None" by code_simp
  then show ?thesis using that by (metis option.exhaust prod.collapse)
qed

lemma demo_end:
  "\<exists>a. map_of (gate_approvals (fst (snd demo_gate_approved))) demo_request_id = Some a \<and> ra_end_ms a = 7301000"
proof -
  have "map_option ra_end_ms (map_of (gate_approvals (fst (snd demo_gate_approved))) demo_request_id) = Some 7301000"
    by code_simp
  then show ?thesis by auto
qed

lemma demo_decided:
  "map_option rq_status (map_of (gate_requests (fst (snd demo_gate_approved))) demo_request_id) = Some AS_APPROVED"
  by code_simp

lemma demo_draws:
  "draws (snd (snd demo_gate_approved)) = 2" "uuids (snd (snd demo_gate_approved)) = pad8"
  "draws (snd (gate_run [GSubmit AUTH_RESTORE ''RESTRICTED'' ''ACTIVE'' ''op'' ''x'' 0 None,
      GReject demo_request_id ''op'' ''late''] (snd demo_gate_approved))) = 3"
proof -
  show "draws (snd (snd demo_gate_approved)) = 2" by code_simp
  show "draws (snd (gate_run [GSubmit AUTH_RESTORE ''RESTRICTED'' ''ACTIVE'' ''op'' ''x'' 0 None,
      GReject demo_request_id ''op'' ''late''] (snd demo_gate_approved))) = 3" by code_simp
  have "later (snd demo_gate) (snd (snd demo_gate_approved))"
    using approve_other(2)[where k = "CHR ''x'' # demo_request_id" and j = demo_request_id]
    by (simp add: demo_gate_approved_def)
  moreover have "later (sample_world 100) (snd demo_gate)"
    using gate_exec_later[of "(gate_new True, sample_world 100)"
        "GSubmit RISK_DEESCALATE ''DEFENSIVE'' ''REDUCED'' ''op'' ''calm'' 2 None"]
    by (simp add: demo_gate_def)
  ultimately show "uuids (snd (snd demo_gate_approved)) = pad8"
    by (simp add: later_def sample_world_def sample_env_def env.defs)
qed

lemma demo_ids: "''rec_req:'' @ take 12 (pad8 2) \<noteq> demo_request_id"
  by code_simp

lemma demo_now: "millis (clock (snd demo_gate) (ticks (snd demo_gate))) = 101000"
  by code_simp

section \<open>Properties\<close>

text \<open>Over any history of submissions, approvals, rejections, checks and failure marks on a
  fresh recovery gate: every stored request sits under its own id and is never CANCELLED, an
  APPROVED request has an approval on record, every approval belongs to a stored request, and
  the counters account for each submission at most once (approved plus rejected plus still
  pending never exceeds submitted).\<close>

theorem recovery_register_sound:
  "gate_ok (fst (gate_run ops (gate_new cb, w)))"
  by (rule gate_ok_run) (simp add: gate_ok_new)

text \<open>C36: A recovery request is decided once. Approving succeeds exactly when the request exists
  and is PENDING; a refusal changes nothing; a success marks exactly that request APPROVED and
  files its approval, touching no other id, and no later approval or rejection of it succeeds.\<close>

theorem recovery_decision_exact:
  assumes "approve_recovery k b cs h n g w = (res, g', w')"
  shows "(res \<noteq> None \<longleftrightarrow> (\<exists>req. map_of (gate_requests g) k = Some req \<and> rq_status req = AS_PENDING)) \<and>
    (res = None \<longrightarrow> g' = g \<and> w' = w) \<and>
    (\<forall>a. res = Some a \<longrightarrow>
       map_of (gate_approvals g') k = Some a \<and>
       map_option rq_status (map_of (gate_requests g') k) = Some AS_APPROVED \<and>
       (\<forall>j. j \<noteq> k \<longrightarrow> register_at g' j = register_at g j) \<and>
       (\<forall>b2 cs2 h2 n2 (w2 :: world). approve_recovery k b2 cs2 h2 n2 g' w2 = (None, g', w2)) \<and>
       (\<forall>b2 r2 (w2 :: world). reject_recovery k b2 r2 g' w2 = (False, g', w2)))"
proof (cases "\<exists>req. map_of (gate_requests g) k = Some req \<and> rq_status req = AS_PENDING")
  case True
  then obtain req where r: "map_of (gate_requests g) k = Some req" "rq_status req = AS_PENDING" by blast
  have other: "register_at g' j = register_at g j" if "j \<noteq> k" for j
    using approve_other(1)[of g j k b cs h n w] that assms by simp
  obtain a w1 where "approve_recovery k b cs h n g w = (Some a, set_request_status k req AS_APPROVED
       (g\<lparr>gate_approvals := AList.update k a (gate_approvals g), st_approved := Suc (st_approved g)\<rparr>), w1)"
    by (rule approve_recovery_effect[OF r, of b cs h n w])
  with assms have res: "res = Some a" and g': "map_of (gate_approvals g') k = Some a"
      "map_of (gate_requests g') k = Some (req\<lparr>rq_status := AS_APPROVED\<rparr>)"
    by (auto simp: set_request_status_def pd.get_put)
  then have "\<not> (\<exists>req. map_of (gate_requests g') k = Some req \<and> rq_status req = AS_PENDING)" by simp
  with True res g' other show ?thesis
    by (simp add: approve_recovery_refused reject_recovery_refused)
next
  case False
  with assms show ?thesis by (simp add: approve_recovery_refused)
qed

lemma recovery_decision_exact_witness:
  "\<exists>a g' w'. demo_gate_approved = (Some a, g', w') \<and> map_of (gate_approvals g') demo_request_id = Some a \<and>
     reject_recovery demo_request_id ''op'' ''late'' g' (sample_world 500) = (False, g', sample_world 500)"
proof -
  obtain a g' w' where d: "demo_gate_approved = (Some a, g', w')"
    by (rule demo_approved)
  show ?thesis
    by (intro exI[of _ a] exI[of _ g'] exI[of _ w'])
      (use recovery_decision_exact[OF d[unfolded demo_gate_approved_def]] d in simp)
qed

text \<open>A decision is final: whatever is done to the gate afterwards, the decided request and
  its approval stay exactly as they are, as long as no later submission draws the same id.\<close>

theorem recovery_decision_final:
  assumes "decided_request g k" "no_draw k w (snd (gate_run ops (g, w)))"
  shows "register_at (fst (gate_run ops (g, w))) k = register_at g k"
  using gate_run_keeps_decided[of "(g, w)" k ops] assms by simp

lemma recovery_decision_final_witness:
  "register_at (fst (gate_run [GSubmit AUTH_RESTORE ''RESTRICTED'' ''ACTIVE'' ''op'' ''x'' 0 None,
      GReject demo_request_id ''op'' ''late''] (snd demo_gate_approved))) demo_request_id =
   register_at (fst (snd demo_gate_approved)) demo_request_id"
proof -
  let ?ops = "[GSubmit AUTH_RESTORE ''RESTRICTED'' ''ACTIVE'' ''op'' ''x'' 0 None,
      GReject demo_request_id ''op'' ''late'']"
  obtain g w where d: "snd demo_gate_approved = (g, w)" by (cases "snd demo_gate_approved") auto
  have "map_option rq_status (map_of (gate_requests g) demo_request_id) = Some AS_APPROVED"
    using d by (metis (no_types, lifting) fst_conv demo_decided)
  then have dec: "decided_request g demo_request_id" by (auto simp: decided_request_def)
  have n: "draws w = 2" "draws (snd (gate_run ?ops (g, w))) = 3" "uuids w = pad8"
    using demo_draws d by simp_all
  have "no_draw demo_request_id w (snd (gate_run ?ops (g, w)))"
    unfolding no_draw_def n
  proof (intro allI impI)
    fix n :: nat assume "2 \<le> n \<and> n < 3"
    then have "n = 2" by simp
    then show "''rec_req:'' @ take 12 (pad8 n) \<noteq> demo_request_id" using demo_ids by simp
  qed
  from recovery_decision_final[OF dec this] show ?thesis by (simp add: d)
qed

text \<open>The observation period of an approval with h hours (the operator's override, else
  the request's) ends h hours after the approval, to the millisecond: a later check answers
  NOT_REQUIRED when h is not positive, COMPLETED exactly from that instant on, and PENDING
  before it.\<close>

theorem recovery_observation_window:
  assumes "approve_recovery k b cs override n g w = (Some a, g', w')"
    and "map_of (gate_requests g) k = Some req"
    and "hours = (case override of None \<Rightarrow> rq_hours req | Some h \<Rightarrow> h)"
    and "start = millis (clock w (ticks w))" "0 \<le> start"
  shows "fst (check_observation_period k g' (v :: world)) =
    (if hours \<le> 0 then OB_NOT_REQUIRED
     else if start + hours * 3600000 \<le> millis (clock v (ticks v)) then OB_COMPLETED
     else OB_PENDING)"
proof -
  have p: "rq_status req = AS_PENDING"
    using assms(1,2) by (auto simp: approve_recovery_def split: if_splits)
  obtain a' w1 where e: "approve_recovery k b cs override n g w = (Some a', set_request_status k req AS_APPROVED
       (g\<lparr>gate_approvals := AList.update k a' (gate_approvals g), st_approved := Suc (st_approved g)\<rparr>), w1)"
    and end': "ra_end_ms a' = (let hours = (case override of None \<Rightarrow> rq_hours req | Some x \<Rightarrow> x)
           in if 0 < hours then millis (clock w (ticks w)) + hours * 3600 * 1000 else 0)"
    by (rule approve_recovery_effect[OF assms(2) p, of b cs override n w])
  have "map_of (gate_approvals g') k = Some a'"
    using e assms(1) by (auto simp: set_request_status_def pd.get_put)
  moreover have "ra_end_ms a' = (if 0 < hours then start + hours * 3600000 else 0)"
    using end' assms(3,4) by (simp add: Let_def)
  ultimately show ?thesis using \<open>0 \<le> start\<close> by (simp add: check_observation_eq)
qed

lemma recovery_observation_window_witness:
  "fst (check_observation_period demo_request_id (fst (snd demo_gate_approved)) (sample_world 7300)) = OB_PENDING \<and>
   fst (check_observation_period demo_request_id (fst (snd demo_gate_approved)) (sample_world 7301)) = OB_COMPLETED"
proof -
  obtain a g' w' where d: "demo_gate_approved = (Some a, g', w')"
    by (rule demo_approved)
  obtain req where q: "map_of (gate_requests (fst demo_gate)) demo_request_id = Some req" "rq_hours req = 2"
    using demo_pending by auto
  show ?thesis
    using recovery_observation_window[OF d[unfolded demo_gate_approved_def] q(1) refl refl, where v = "sample_world 7300"]
      recovery_observation_window[OF d[unfolded demo_gate_approved_def] q(1) refl refl, where v = "sample_world 7301"]
    by (simp add: d q(2) demo_now sample_world_now)
qed

text \<open>Marking an observation as failed has no effect on the observation: it reports success
  and counts the failure, but every later check gives the answer it would have given, and no
  check ever answers FAILED.\<close>

theorem recovery_failure_mark_ignored:
  assumes "mark_observation_failed k r g w = (marked, g', w')"
  shows "fst (check_observation_period j g' (v :: world)) = fst (check_observation_period j g v) \<and>
    fst (check_observation_period j g v) \<noteq> OB_FAILED \<and> register_at g' j = register_at g j"
  using mark_failed_same[of g k r w] assms
  by (auto simp: check_observation_eq same_register_def register_at_def split: option.splits)

lemma recovery_failure_mark_ignored_witness:
  "fst (mark_observation_failed demo_request_id ''breach'' (fst (snd demo_gate_approved)) (sample_world 200)) \<and>
   fst (check_observation_period demo_request_id
     (fst (snd (mark_observation_failed demo_request_id ''breach'' (fst (snd demo_gate_approved))
        (sample_world 200)))) (sample_world 7301)) = OB_COMPLETED"
proof -
  obtain marked g' w' where m: "mark_observation_failed demo_request_id ''breach''
      (fst (snd demo_gate_approved)) (sample_world 200) = (marked, g', w')"
    by (metis prod_cases3)
  have "fst (mark_observation_failed demo_request_id ''breach'' (fst (snd demo_gate_approved)) (sample_world 200))
      \<and> fst (check_observation_period demo_request_id (fst (snd demo_gate_approved)) (sample_world 7301)) = OB_COMPLETED"
    using demo_end by (auto simp: mark_observation_failed_def Let_def now_ms_def check_observation_eq sample_world_now)
  then show ?thesis
    using recovery_failure_mark_ignored[OF m, where j = demo_request_id and v = "sample_world 7301"]
    by (simp add: m)
qed

end
