(* ===== verification/Recon_Engine.thy ===== *)
theory Recon_Engine
  imports Py_Coerce
begin

text \<open>
  The reconciliation engine (\<open>app/reconciliation_engine.py\<close>): it compares a local snapshot
  with the exchange's, lists the discrepancies, grades the cycle, and triggers incident
  actions. Snapshots are JSON-like dictionaries of unknown shape; wherever the code would
  raise on a malformed one, the model does, and \<open>reconcile\<close> turns that into an ERROR report.

  A comparison is a list of findings and a flag: False when it raised after those findings.
  Findings get their id and time when they are made (\<open>stamp_all\<close>), in the code's order.
\<close>

section \<open>Data\<close>

datatype ReconciliationResult = RR_MATCH | RR_MISMATCH_MINOR | RR_MISMATCH_MAJOR | RR_MISSING_LOCAL
  | RR_MISSING_REMOTE | RR_STALE_DATA | RR_ERROR

fun recon_result_value :: "ReconciliationResult \<Rightarrow> string" where
  "recon_result_value RR_MATCH = ''MATCH''"
| "recon_result_value RR_MISMATCH_MINOR = ''MISMATCH_MINOR''"
| "recon_result_value RR_MISMATCH_MAJOR = ''MISMATCH_MAJOR''"
| "recon_result_value RR_MISSING_LOCAL = ''MISSING_LOCAL''"
| "recon_result_value RR_MISSING_REMOTE = ''MISSING_REMOTE''"
| "recon_result_value RR_STALE_DATA = ''STALE_DATA''"
| "recon_result_value RR_ERROR = ''ERROR''"

datatype DiscrepancyType = D_ORDER_STATE | D_ORDER_MISSING | D_POSITION_SIZE | D_POSITION_SIDE
  | D_POSITION_MISSING | D_FILL_COUNT | D_FILL_PRICE | D_FILL_QUANTITY | D_BALANCE_DRIFT | D_UNKNOWN

fun disc_type_value :: "DiscrepancyType \<Rightarrow> string" where
  "disc_type_value D_ORDER_STATE = ''ORDER_STATE''"
| "disc_type_value D_ORDER_MISSING = ''ORDER_MISSING''"
| "disc_type_value D_POSITION_SIZE = ''POSITION_SIZE''"
| "disc_type_value D_POSITION_SIDE = ''POSITION_SIDE''"
| "disc_type_value D_POSITION_MISSING = ''POSITION_MISSING''"
| "disc_type_value D_FILL_COUNT = ''FILL_COUNT''"
| "disc_type_value D_FILL_PRICE = ''FILL_PRICE''"
| "disc_type_value D_FILL_QUANTITY = ''FILL_QUANTITY''"
| "disc_type_value D_BALANCE_DRIFT = ''BALANCE_DRIFT''"
| "disc_type_value D_UNKNOWN = ''UNKNOWN''"

datatype Severity = S_INFO | S_WARNING | S_CRITICAL | S_FATAL

fun severity_value :: "Severity \<Rightarrow> string" where
  "severity_value S_INFO = ''INFO''"
| "severity_value S_WARNING = ''WARNING''"
| "severity_value S_CRITICAL = ''CRITICAL''"
| "severity_value S_FATAL = ''FATAL''"

datatype IncidentAction = IA_LOG_ONLY | IA_ALERT | IA_FREEZE_TRADING | IA_MANUAL_REVIEW | IA_AUTO_CORRECT

fun incident_action_value :: "IncidentAction \<Rightarrow> string" where
  "incident_action_value IA_LOG_ONLY = ''LOG_ONLY''"
| "incident_action_value IA_ALERT = ''ALERT''"
| "incident_action_value IA_FREEZE_TRADING = ''FREEZE_TRADING''"
| "incident_action_value IA_MANUAL_REVIEW = ''MANUAL_REVIEW''"
| "incident_action_value IA_AUTO_CORRECT = ''AUTO_CORRECT''"

record ReconciliationConfig =
  price_tolerance_pct :: pyfloat
  qty_tolerance_pct :: pyfloat
  balance_tolerance_abs :: pyfloat
  max_data_age_ms :: int
  auto_freeze_on_critical :: bool
  max_discrepancies_before_freeze :: int
  enable_auto_correct :: bool
  reconcile_orders :: bool

definition default_recon_config :: ReconciliationConfig where
  "default_recon_config =
     \<lparr>price_tolerance_pct = flit (5/1000), qty_tolerance_pct = flit (1/1000),
      balance_tolerance_abs = Fin 1, max_data_age_ms = 60000, auto_freeze_on_critical = True,
      max_discrepancies_before_freeze = 5, enable_auto_correct = False, reconcile_orders = False\<rparr>"

definition fill_window_epsilon_ms :: int where
  "fill_window_epsilon_ms = 5000"

record Discrepancy =
  d_id :: string
  d_type :: DiscrepancyType
  d_severity :: Severity
  d_symbol :: pyval
  d_description :: string
  d_local :: pyval
  d_remote :: pyval
  d_magnitude :: pyfloat
  d_action :: IncidentAction
  d_at_ms :: int

text \<open>The constructor call with the dataclass defaults for what it leaves out.\<close>

definition disc_default :: Discrepancy where
  "disc_default = \<lparr>d_id = [], d_type = D_UNKNOWN, d_severity = S_INFO, d_symbol = PStr [],
     d_description = [], d_local = PNone, d_remote = PNone, d_magnitude = Fin 0,
     d_action = IA_LOG_ONLY, d_at_ms = 0\<rparr>"

definition disc_post_init :: "Discrepancy \<Rightarrow> 'z env_scheme \<Rightarrow> Discrepancy \<times> 'z env_scheme" where
  "disc_post_init d w =
     (let (d1, w1) = (if d_id d = [] then
            (let (h, w') = fresh_hex w in (d\<lparr>d_id := ''disc:'' @ take 12 h\<rparr>, w')) else (d, w))
      in if d_at_ms d1 = 0 then (let (t, w2) = now_ms w1 in (d1\<lparr>d_at_ms := t\<rparr>, w2)) else (d1, w1))"

definition disc_to_dict :: "Discrepancy \<Rightarrow> pydict" where
  "disc_to_dict d =
     [(''discrepancy_id'', PStr (d_id d)), (''type'', PStr (disc_type_value (d_type d))),
      (''severity'', PStr (severity_value (d_severity d))), (''symbol'', d_symbol d),
      (''description'', PStr (d_description d)), (''local_value'', d_local d),
      (''remote_value'', d_remote d), (''magnitude'', PFloat (d_magnitude d)),
      (''recommended_action'', PStr (incident_action_value (d_action d))),
      (''detected_at_ms'', PInt (d_at_ms d))]"

record ReconciliationReport =
  p_id :: string
  p_started_ms :: int
  p_completed_ms :: int
  p_result :: ReconciliationResult
  p_discs :: "Discrepancy list"
  p_orders_checked :: nat
  p_orders_scope :: string
  p_remote_orders :: nat
  p_positions_checked :: nat
  p_fills_checked :: nat
  p_actions :: "string list"
  p_paper_ts :: pyval
  p_remote_ts :: pyval

definition report_post_init ::
  "ReconciliationReport \<Rightarrow> 'z env_scheme \<Rightarrow> ReconciliationReport \<times> 'z env_scheme" where
  "report_post_init p w =
     (let (p1, w1) = (if p_id p = [] then
            (let (h, w') = fresh_hex w in (p\<lparr>p_id := ''recon:'' @ take 12 h\<rparr>, w')) else (p, w))
      in if p_started_ms p1 = 0 then (let (t, w2) = now_ms w1 in (p1\<lparr>p_started_ms := t\<rparr>, w2))
         else (p1, w1))"

definition report_is_consistent :: "ReconciliationReport \<Rightarrow> bool" where
  "report_is_consistent p \<longleftrightarrow> p_result p \<in> {RR_MATCH, RR_MISMATCH_MINOR}"

definition critical_count :: "ReconciliationReport \<Rightarrow> nat" where
  "critical_count p = length (filter (\<lambda>d. d_severity d \<in> {S_CRITICAL, S_FATAL}) (p_discs p))"

definition report_to_dict :: "ReconciliationReport \<Rightarrow> pydict" where
  "report_to_dict p =
     [(''report_id'', PStr (p_id p)), (''started_at_ms'', PInt (p_started_ms p)),
      (''completed_at_ms'', PInt (p_completed_ms p)),
      (''overall_result'', PStr (recon_result_value (p_result p))),
      (''is_consistent'', PBool (report_is_consistent p)),
      (''discrepancies'', PList (map (PDict \<circ> disc_to_dict) (p_discs p))),
      (''discrepancy_count'', PInt (int (length (p_discs p)))),
      (''critical_count'', PInt (int (critical_count p))),
      (''orders_checked'', PInt (int (p_orders_checked p))),
      (''orders_scope'', PStr (p_orders_scope p)),
      (''remote_orders_observed'', PInt (int (p_remote_orders p))),
      (''positions_checked'', PInt (int (p_positions_checked p))),
      (''fills_checked'', PInt (int (p_fills_checked p))),
      (''actions_triggered'', PList (map PStr (p_actions p))),
      (''paper_snapshot_ts_ms'', p_paper_ts p), (''remote_snapshot_ts_ms'', p_remote_ts p)]"

text \<open>
  The runtime: the order in which a set of keys is iterated, which Python leaves open, and
  how floats and containers print. The engine's state follows its fields.
\<close>

record runtime =
  rt_names :: "string list \<Rightarrow> string list"
  rt_ids :: "pyval list \<Rightarrow> pyval list"
  rt_str :: "pyval \<Rightarrow> string"

definition lawful_runtime :: "runtime \<Rightarrow> bool" where
  "lawful_runtime rt \<longleftrightarrow> (\<forall>xs. set (rt_names rt xs) = set xs \<and> distinct (rt_names rt xs)) \<and>
     (\<forall>ys. set (rt_ids rt ys) = set ys \<and> distinct (rt_ids rt ys))"

record recon_engine =
  e_config :: ReconciliationConfig
  e_audit_cb :: bool
  e_incident_cb :: bool
  e_history :: "ReconciliationReport list"
  e_total_runs :: nat
  e_total_discs :: nat
  e_total_incidents :: nat
  e_closed :: bool

definition recon_new :: "ReconciliationConfig option \<Rightarrow> bool \<Rightarrow> bool \<Rightarrow> recon_engine" where
  "recon_new cfg audit incident =
     \<lparr>e_config = (case cfg of None \<Rightarrow> default_recon_config | Some c \<Rightarrow> c), e_audit_cb = audit,
      e_incident_cb = incident, e_history = [], e_total_runs = 0, e_total_discs = 0,
      e_total_incidents = 0, e_closed = False\<rparr>"

definition max_history :: nat where
  "max_history = 1000"

definition recon_close :: "recon_engine \<Rightarrow> recon_engine" where
  "recon_close e = e\<lparr>e_closed := True\<rparr>"

section \<open>Findings\<close>

type_synonym findings = "Discrepancy list \<times> bool"

text \<open>A loop body per item; the loop ends where a body raises.\<close>

fun scan :: "('a \<Rightarrow> findings) \<Rightarrow> 'a list \<Rightarrow> findings" where
  "scan f [] = ([], True)"
| "scan f (x # xs) =
     (case f x of
        (ds, False) \<Rightarrow> (ds, False)
      | (ds, True) \<Rightarrow> (let (es, ok) = scan f xs in (ds @ es, ok)))"

fun stamp_all :: "Discrepancy list \<Rightarrow> 'z env_scheme \<Rightarrow> Discrepancy list \<times> 'z env_scheme" where
  "stamp_all [] w = ([], w)"
| "stamp_all (d # ds) w =
     (let (d', w1) = disc_post_init d w; (ds', w2) = stamp_all ds w1 in (d' # ds', w2))"

section \<open>Tolerance\<close>

definition within_tolerance :: "pyfloat \<Rightarrow> pyfloat \<Rightarrow> pyfloat \<Rightarrow> bool" where
  "within_tolerance a b tol =
     (if a = Fin 0 \<and> b = Fin 0 then True
      else if a = Fin 0 \<or> b = Fin 0 then False
      else (case fdiv (fabs (fsub a b)) (fmax (fabs a) (fabs b)) of
              None \<Rightarrow> False
            | Some q \<Rightarrow> fle q tol))"

text \<open>The last case divides by a non-zero float, so it never raises.\<close>

lemma tolerance_divisor:
  assumes "a \<noteq> Fin 0" "b \<noteq> Fin 0"
  shows "fdiv x (fmax (fabs a) (fabs b)) \<noteq> None"
proof -
  have "fmax (fabs a) (fabs b) \<noteq> Fin 0"
    using assms by (cases a; cases b) (auto simp: fmax_def)
  then show ?thesis
    by (cases "fmax (fabs a) (fabs b)"; cases x) auto
qed

definition valid_size :: "pyfloat \<Rightarrow> bool" where
  "valid_size x \<longleftrightarrow> \<not> (is_nan x \<or> is_inf x \<or> flt x (Fin 0))"

section \<open>Orders\<close>

definition strip_paper :: "string \<Rightarrow> string" where
  "strip_paper s = str_remove ''paper_'' (str_remove ''paper_order_'' (str_lower s))"

definition order_terminal_states :: "string list" where
  "order_terminal_states = [''rejected'', ''canceled'', ''cancelled'', ''expired'']"

text \<open>The local orders that are still open, None when one has no text state.\<close>

fun open_orders :: "pyval list \<Rightarrow> pyval list option" where
  "open_orders [] = Some []"
| "open_orders (x # xs) = do {
     v \<leftarrow> py_get x ''state'' (PStr []);
     s \<leftarrow> as_str v;
     rest \<leftarrow> open_orders xs;
     Some (if strip_paper s \<in> set order_terminal_states then rest else x # rest)
   }"

definition local_order_key :: "pyval \<Rightarrow> pyval option" where
  "local_order_key x = py_get x ''order_id'' (PStr [])"

definition remote_order_key :: "pyval \<Rightarrow> pyval option" where
  "remote_order_key x = do { k \<leftarrow> py_get x ''orderId'' (PStr []); py_get x ''order_id'' k }"

fun index_orders ::
  "(pyval \<Rightarrow> pyval option) \<Rightarrow> pyval list \<Rightarrow> (pyval \<times> pyval) list \<Rightarrow> (pyval \<times> pyval) list option" where
  "index_orders key [] m = Some m"
| "index_orders key (x # xs) m =
     (case key x of
        None \<Rightarrow> None
      | Some k \<Rightarrow> if hashable k then index_orders key xs (AList.update k x m) else None)"

fun normalize_state :: "string \<Rightarrow> string" where
  "normalize_state s0 =
     (let s = strip_paper s0 in
      if s = ''new'' then ''working''
      else if s = ''partiallyfilled'' then ''partially_filled''
      else if s = ''partiallyfilledcanceled'' then ''canceled''
      else if s = ''deactivated'' then ''canceled''
      else if s = ''triggered'' then ''working''
      else if s = ''untriggered'' then ''submitted''
      else s)"

definition states_equivalent :: "string \<Rightarrow> string \<Rightarrow> bool" where
  "states_equivalent paper_state remote_state \<longleftrightarrow>
     normalize_state paper_state = normalize_state remote_state"

text \<open>What one order id yields; a side that has no order is \<open>None\<close> (\<open>PNone\<close>).\<close>

definition remote_order_state :: "pyval \<Rightarrow> pyval \<Rightarrow> pyval option" where
  "remote_order_state r dflt = do { s \<leftarrow> py_get r ''orderStatus'' dflt; py_get r ''state'' s }"

definition raised :: findings where
  "raised = ([], False)"

definition order_findings :: "runtime \<Rightarrow> pyval \<Rightarrow> pyval \<Rightarrow> pyval \<Rightarrow> findings" where
  "order_findings rt oid p r =
     (let name = py_str (rt_str rt) oid in
      if truthy p \<and> \<not> truthy r then
        (case (py_get p ''symbol'' (PStr []), py_get p ''state'' (PStr ''unknown'')) of
           (Some symb, Some st) \<Rightarrow>
             ([disc_default\<lparr>d_type := D_ORDER_MISSING, d_severity := S_WARNING, d_symbol := symb,
                 d_description := ''Order '' @ name @ '' exists locally but not on remote'',
                 d_local := st, d_action := IA_ALERT\<rparr>], True)
         | _ \<Rightarrow> raised)
      else if truthy r \<and> \<not> truthy p then
        (case (py_get r ''symbol'' (PStr []), remote_order_state r (PStr ''unknown'')) of
           (Some symb, Some st) \<Rightarrow>
             ([disc_default\<lparr>d_type := D_ORDER_MISSING, d_severity := S_CRITICAL, d_symbol := symb,
                 d_description := ''Order '' @ name @ '' exists on remote but not locally'',
                 d_remote := st, d_action := IA_MANUAL_REVIEW\<rparr>], True)
         | _ \<Rightarrow> raised)
      else
        (case (py_get p ''state'' (PStr []), remote_order_state r (PStr [])) of
           (Some (PStr ps), Some (PStr rs)) \<Rightarrow>
             if states_equivalent ps rs then ([], True)
             else
               ([disc_default\<lparr>d_type := D_ORDER_STATE, d_severity := S_CRITICAL,
                   d_symbol := the (py_get p ''symbol'' (PStr [])),
                   d_description := ''Order '' @ name @ '' state mismatch: local='' @ ps @ '', remote='' @ rs,
                   d_local := PStr ps, d_remote := PStr rs, d_action := IA_MANUAL_REVIEW\<rparr>], True)
         | _ \<Rightarrow> raised))"

definition or_none :: "pyval option \<Rightarrow> pyval" where
  "or_none v = (case v of None \<Rightarrow> PNone | Some x \<Rightarrow> x)"

definition reconcile_orders_of :: "runtime \<Rightarrow> pyval \<Rightarrow> pyval \<Rightarrow> findings" where
  "reconcile_orders_of rt paper_orders remote_orders =
     (case do {
        ps \<leftarrow> py_iter paper_orders;
        open_ps \<leftarrow> open_orders ps;
        p_ids \<leftarrow> index_orders local_order_key open_ps [];
        rs \<leftarrow> py_iter remote_orders;
        r_ids \<leftarrow> index_orders remote_order_key rs [];
        Some (p_ids, r_ids)
      } of
        None \<Rightarrow> raised
      | Some (p_ids, r_ids) \<Rightarrow>
          scan (\<lambda>oid. order_findings rt oid (or_none (map_of p_ids oid)) (or_none (map_of r_ids oid)))
            (rt_ids rt (map fst p_ids @ map fst r_ids)))"

section \<open>Positions\<close>

definition py_size :: "pyval \<Rightarrow> pyfloat option" where
  "py_size p = do { q \<leftarrow> py_get p ''qty'' (PInt 0); v \<leftarrow> py_get p ''size'' q; to_float v }"

definition py_side :: "pyval \<Rightarrow> string option" where
  "py_side p = do { v \<leftarrow> py_get p ''side'' (PStr []); as_str v }"

definition invalid_text :: "string \<Rightarrow> string \<Rightarrow> string" where
  "invalid_text subject value = subject @ '' is invalid ('' @ value @ ''); ''"

definition size_disc :: "runtime \<Rightarrow> string \<Rightarrow> pyfloat \<Rightarrow> pyfloat \<Rightarrow> Discrepancy" where
  "size_disc rt symb p r =
     (let m = fabs (fsub p r) in
      disc_default\<lparr>d_type := D_POSITION_SIZE,
        d_severity := (if flt (Fin 0) m then S_CRITICAL else S_WARNING), d_symbol := PStr symb,
        d_description := ''Position '' @ symb @ '' size mismatch: local='' @ rt_str rt (PFloat p) @
          '', remote='' @ rt_str rt (PFloat r),
        d_local := PFloat p, d_remote := PFloat r, d_magnitude := m, d_action := IA_MANUAL_REVIEW\<rparr>)"

definition side_disc :: "string \<Rightarrow> string \<Rightarrow> string \<Rightarrow> Discrepancy" where
  "side_disc symb p r =
     disc_default\<lparr>d_type := D_POSITION_SIDE, d_severity := S_FATAL, d_symbol := PStr symb,
       d_description := ''Position '' @ symb @ '' side mismatch: local='' @ p @ '', remote='' @ r,
       d_local := PStr p, d_remote := PStr r, d_action := IA_FREEZE_TRADING\<rparr>"

definition invalid_size_disc :: "runtime \<Rightarrow> string \<Rightarrow> string \<Rightarrow> pyfloat \<Rightarrow> pyfloat \<Rightarrow> pyfloat \<Rightarrow> Discrepancy" where
  "invalid_size_disc rt symb label x p r =
     disc_default\<lparr>d_type := D_POSITION_SIZE, d_severity := S_FATAL, d_symbol := PStr symb,
       d_description := invalid_text (''Position '' @ symb @ '' '' @ label @ '' size'') (rt_str rt (PFloat x)) @
         ''NaN/Inf/negative qty is a data integrity violation'',
       d_local := PFloat p, d_remote := PFloat r, d_action := IA_FREEZE_TRADING\<rparr>"

text \<open>Only the local side holds the symbol; only the remote side does; both do.\<close>

definition local_only_findings :: "runtime \<Rightarrow> string \<Rightarrow> pyval \<Rightarrow> findings" where
  "local_only_findings rt symb p =
     (case py_size p of
        None \<Rightarrow> raised
      | Some x \<Rightarrow>
          if \<not> valid_size x then
            ([disc_default\<lparr>d_type := D_POSITION_MISSING, d_severity := S_FATAL, d_symbol := PStr symb,
                d_description := invalid_text (''Position '' @ symb @ '' local size'') (rt_str rt (PFloat x)) @
                  ''NaN/Inf/negative qty is a data integrity violation'',
                d_local := PFloat x, d_remote := PInt 0, d_action := IA_FREEZE_TRADING\<rparr>], True)
          else if flt (Fin 0) x then
            ([disc_default\<lparr>d_type := D_POSITION_MISSING, d_severity := S_CRITICAL, d_symbol := PStr symb,
                d_description := ''Position '' @ symb @ '' exists locally (size='' @ rt_str rt (PFloat x) @
                  '') but not on remote'',
                d_local := PFloat x, d_remote := PInt 0, d_magnitude := x,
                d_action := IA_MANUAL_REVIEW\<rparr>], True)
          else ([], True))"

definition remote_only_findings :: "runtime \<Rightarrow> string \<Rightarrow> pyval \<Rightarrow> findings" where
  "remote_only_findings rt symb r =
     (case py_size r of
        None \<Rightarrow> raised
      | Some x \<Rightarrow>
          if flt (Fin 0) x then
            ([disc_default\<lparr>d_type := D_POSITION_MISSING, d_severity := S_FATAL, d_symbol := PStr symb,
                d_description := ''Position '' @ symb @ '' exists on remote (size='' @ rt_str rt (PFloat x) @
                  '') but not locally'',
                d_local := PInt 0, d_remote := PFloat x, d_magnitude := x,
                d_action := IA_FREEZE_TRADING\<rparr>], True)
          else ([], True))"

definition both_findings :: "ReconciliationConfig \<Rightarrow> runtime \<Rightarrow> string \<Rightarrow> pyval \<Rightarrow> pyval \<Rightarrow> findings" where
  "both_findings cfg rt symb p r =
     (case (py_size p, py_size r, py_get p ''side'' (PStr []), py_get r ''side'' (PStr [])) of
        (Some x, Some y, Some _, Some _) \<Rightarrow>
          if \<not> valid_size x then ([invalid_size_disc rt symb ''local'' x x y], True)
          else if \<not> valid_size y then ([invalid_size_disc rt symb ''remote'' y x y], True)
          else
            (case (py_side p, py_side r) of
               (Some ps, Some rs) \<Rightarrow>
                 ((if str_lower ps \<noteq> str_lower rs \<and> (flt (Fin 0) x \<or> flt (Fin 0) y)
                     then [side_disc symb ps rs] else []) @
                  (if \<not> within_tolerance x y (qty_tolerance_pct cfg) then [size_disc rt symb x y] else []), True)
             | _ \<Rightarrow> raised)
      | _ \<Rightarrow> raised)"

definition position_findings ::
  "ReconciliationConfig \<Rightarrow> runtime \<Rightarrow> string \<Rightarrow> pyval \<Rightarrow> pyval \<Rightarrow> findings" where
  "position_findings cfg rt symb p r =
     (if truthy p \<and> \<not> truthy r then local_only_findings rt symb p
      else if truthy r \<and> \<not> truthy p then remote_only_findings rt symb r
      else both_findings cfg rt symb p r)"

definition reconcile_positions ::
  "ReconciliationConfig \<Rightarrow> runtime \<Rightarrow> pyval \<Rightarrow> pyval \<Rightarrow> findings" where
  "reconcile_positions cfg rt paper_positions remote_positions =
     (case (as_dict paper_positions, as_dict remote_positions) of
        (Some ps, Some rs) \<Rightarrow>
          scan (\<lambda>symb. position_findings cfg rt symb (dict_get ps symb PNone) (dict_get rs symb PNone))
            (rt_names rt (map fst ps @ map fst rs))
      | _ \<Rightarrow> raised)"

section \<open>Fills\<close>

text \<open>
  \<open>_extract_fill_ts\<close>: the first key with a usable value wins; an unusable one is skipped,
  but an overflowing one raises.
\<close>

definition ts_of :: "pyval \<Rightarrow> conv_error + int" where
  "ts_of v = (case py_float v of Inl e \<Rightarrow> Inl e | Inr x \<Rightarrow> py_int x)"

fun first_ts :: "string list \<Rightarrow> pyval \<Rightarrow> int option" where
  "first_ts [] f = Some 0"
| "first_ts (key # keys) f =
     (case py_has key f of
        None \<Rightarrow> None
      | Some False \<Rightarrow> first_ts keys f
      | Some True \<Rightarrow>
          (case as_dict f of
             None \<Rightarrow> None
           | Some d \<Rightarrow>
               (let v = dict_get d key PNone in
                if v = PNone \<or> v = PStr [] then first_ts keys f
                else (case ts_of v of
                        Inr t \<Rightarrow> Some t
                      | Inl ConvInvalid \<Rightarrow> first_ts keys f
                      | Inl ConvOverflow \<Rightarrow> None))))"

definition extract_fill_ts :: "pyval \<Rightarrow> int option" where
  "extract_fill_ts = first_ts [''timestamp_ms'', ''execTime'', ''exec_time_ms'', ''time'']"

fun first_qty :: "string list \<Rightarrow> pyval \<Rightarrow> pyfloat option" where
  "first_qty [] f = Some (Fin 0)"
| "first_qty (key # keys) f =
     (case py_has key f of
        None \<Rightarrow> None
      | Some False \<Rightarrow> first_qty keys f
      | Some True \<Rightarrow> do { d \<leftarrow> as_dict f; to_float (dict_get d key PNone) })"

definition extract_fill_qty :: "pyval \<Rightarrow> pyfloat option" where
  "extract_fill_qty = first_qty [''qty'', ''fill_qty'', ''execQty'']"

text \<open>\<open>f.get(a, f.get(b, f.get(c, 0)))\<close> as a float.\<close>

definition get3 :: "pyval \<Rightarrow> string \<Rightarrow> string \<Rightarrow> string \<Rightarrow> pyfloat option" where
  "get3 f a b c = do {
     z \<leftarrow> py_get f c (PInt 0);
     y \<leftarrow> py_get f b z;
     x \<leftarrow> py_get f a y;
     to_float x
   }"

fun weighted_sums :: "pyval list \<Rightarrow> pyfloat \<Rightarrow> pyfloat \<Rightarrow> (pyfloat \<times> pyfloat) option" where
  "weighted_sums [] total_value total_qty = Some (total_value, total_qty)"
| "weighted_sums (f # fs) total_value total_qty = do {
     qty \<leftarrow> get3 f ''qty'' ''fill_qty'' ''execQty'';
     price \<leftarrow> get3 f ''price'' ''fill_price'' ''execPrice'';
     weighted_sums fs (fadd total_value (fmul qty price)) (fadd total_qty qty)
   }"

definition weighted_avg_price :: "pyval list \<Rightarrow> pyfloat option" where
  "weighted_avg_price fs = do {
     (total_value, total_qty) \<leftarrow> weighted_sums fs (Fin 0) (Fin 0);
     if flt (Fin 0) total_qty then fdiv total_value total_qty else Some (Fin 0)
   }"

text \<open>\<open>sum(...)\<close> from the left, as Python 3.11 adds floats; of no fills it is the integer 0.\<close>

definition total_qty_of :: "pyval list \<Rightarrow> pyfloat option" where
  "total_qty_of fs = map_option (foldl fadd (Fin 0)) (those (map extract_fill_qty fs))"

definition total_pyval :: "pyval list \<Rightarrow> pyfloat \<Rightarrow> pyval" where
  "total_pyval fs x = (if fs = [] then PInt 0 else PFloat x)"

definition fill_symbol :: "runtime \<Rightarrow> pyval \<Rightarrow> string option" where
  "fill_symbol rt f = do {
     b \<leftarrow> py_get f ''sym'' (PStr []);
     a \<leftarrow> py_get f ''symbol'' b;
     Some (if truthy a then py_str (rt_str rt) a else [])
   }"

fun group_fills ::
  "runtime \<Rightarrow> pyval list \<Rightarrow> (string \<times> pyval list) list \<Rightarrow> (string \<times> pyval list) list option" where
  "group_fills rt [] g = Some g"
| "group_fills rt (f # fs) g =
     (case fill_symbol rt f of
        None \<Rightarrow> None
      | Some symb \<Rightarrow>
          group_fills rt fs
            (AList.update symb ((case map_of g symb of None \<Rightarrow> [] | Some xs \<Rightarrow> xs) @ [f]) g))"

text \<open>The remote fills inside the window that the local time stamps span.\<close>

fun in_window :: "int \<Rightarrow> int \<Rightarrow> pyval list \<Rightarrow> pyval list option" where
  "in_window lo hi [] = Some []"
| "in_window lo hi (f # fs) = do {
     t \<leftarrow> extract_fill_ts f;
     rest \<leftarrow> in_window lo hi fs;
     Some (if lo \<le> t \<and> t \<le> hi then f # rest else rest)
   }"

definition windowed :: "pyval list \<Rightarrow> pyval \<Rightarrow> pyval option" where
  "windowed paper_fills remote_fills = do {
     ts \<leftarrow> those (map extract_fill_ts paper_fills);
     (case filter (\<lambda>t. 0 < t) ts of
        [] \<Rightarrow> Some remote_fills
      | t # local_ts \<Rightarrow> do {
          rs \<leftarrow> py_iter remote_fills;
          kept \<leftarrow> in_window (fold min local_ts t - fill_window_epsilon_ms)
                    (fold max local_ts t + fill_window_epsilon_ms) rs;
          Some (PList kept) })
   }"

definition fill_count_findings :: "nat \<Rightarrow> nat \<Rightarrow> Discrepancy list" where
  "fill_count_findings n_paper n_remote =
     (if n_paper = n_remote then []
      else
        (let diff = \<bar>int n_paper - int n_remote\<bar>;
             sev = (if 2 < diff then S_CRITICAL else S_WARNING)
         in [disc_default\<lparr>d_type := D_FILL_COUNT, d_severity := sev,
               d_description := ''Fill count mismatch (windowed): local='' @ nat_str n_paper @
                 '', remote='' @ nat_str n_remote,
               d_local := PInt (int n_paper), d_remote := PInt (int n_remote),
               d_magnitude := fl_round (of_int diff),
               d_action := (if sev = S_CRITICAL then IA_MANUAL_REVIEW else IA_ALERT)\<rparr>]))"

definition fill_price_findings ::
  "ReconciliationConfig \<Rightarrow> string \<Rightarrow> pyval list \<Rightarrow> pyval list \<Rightarrow> Discrepancy list option" where
  "fill_price_findings cfg symb ps rs =
     (if ps = [] \<or> rs = [] then Some []
      else do {
        p \<leftarrow> weighted_avg_price ps;
        r \<leftarrow> weighted_avg_price rs;
        Some (if flt (Fin 0) p \<and> flt (Fin 0) r \<and> \<not> within_tolerance p r (price_tolerance_pct cfg)
              then [disc_default\<lparr>d_type := D_FILL_PRICE, d_severity := S_WARNING, d_symbol := PStr symb,
                      d_description := ''Fill price deviation for symbol '' @ symb @ '': local='' @
                        fmt_fixed 4 p @ '', remote='' @ fmt_fixed 4 r,
                      d_local := PFloat p, d_remote := PFloat r, d_magnitude := fabs (fsub p r),
                      d_action := IA_LOG_ONLY\<rparr>]
              else [])
      })"

definition fill_findings ::
  "ReconciliationConfig \<Rightarrow> runtime \<Rightarrow> string \<Rightarrow> pyval list \<Rightarrow> pyval list \<Rightarrow> findings" where
  "fill_findings cfg rt symb ps rs =
     (case (total_qty_of ps, total_qty_of rs) of
        (Some p, Some r) \<Rightarrow>
          (let qty =
             (if within_tolerance p r (qty_tolerance_pct cfg) then []
              else [disc_default\<lparr>d_type := D_FILL_QUANTITY, d_severity := S_CRITICAL, d_symbol := PStr symb,
                      d_description := ''Fill quantity mismatch for symbol '' @ symb @ '': local='' @
                        py_str (rt_str rt) (total_pyval ps p) @ '', remote='' @
                        py_str (rt_str rt) (total_pyval rs r),
                      d_local := total_pyval ps p, d_remote := total_pyval rs r,
                      d_magnitude := fabs (fsub p r), d_action := IA_MANUAL_REVIEW\<rparr>])
           in (case fill_price_findings cfg symb ps rs of
                 None \<Rightarrow> (qty, False)
               | Some price \<Rightarrow> (qty @ price, True)))
      | _ \<Rightarrow> raised)"

definition fills_of :: "(string \<times> pyval list) list \<Rightarrow> string \<Rightarrow> pyval list" where
  "fills_of g symb = (case map_of g symb of None \<Rightarrow> [] | Some fs \<Rightarrow> fs)"

definition reconcile_fills ::
  "ReconciliationConfig \<Rightarrow> runtime \<Rightarrow> pyval \<Rightarrow> pyval \<Rightarrow> findings" where
  "reconcile_fills cfg rt paper_fills remote_fills =
     (if \<not> truthy paper_fills then ([], True)
      else
        (case do {
           pf \<leftarrow> py_iter paper_fills;
           remote \<leftarrow> windowed pf remote_fills;
           n \<leftarrow> py_len remote;
           Some (pf, remote, n)
         } of
           None \<Rightarrow> raised
         | Some (pf, remote, n) \<Rightarrow>
             (let counts = fill_count_findings (length pf) n in
              (case do {
                 p \<leftarrow> group_fills rt pf [];
                 rf \<leftarrow> py_iter remote;
                 r \<leftarrow> group_fills rt rf [];
                 Some (p, r)
               } of
                 None \<Rightarrow> (counts, False)
               | Some (p, r) \<Rightarrow>
                   (let (ds, ok) = scan (\<lambda>symb. fill_findings cfg rt symb (fills_of p symb) (fills_of r symb))
                                     (rt_names rt (map fst p @ map fst r))
                    in (counts @ ds, ok))))))"

section \<open>Balances\<close>

definition balance_findings ::
  "ReconciliationConfig \<Rightarrow> runtime \<Rightarrow> string \<Rightarrow> pyval \<Rightarrow> pyval \<Rightarrow> findings" where
  "balance_findings cfg rt coin pv rv =
     (case (to_float pv, to_float rv) of
        (Some p, Some r) \<Rightarrow>
          (let bad = (\<lambda>x. is_nan x \<or> is_inf x);
               base = disc_default\<lparr>d_type := D_BALANCE_DRIFT, d_symbol := PStr coin,
                        d_local := PFloat p, d_remote := PFloat r\<rparr>
           in if bad p \<or> bad r then
                ([base\<lparr>d_severity := S_CRITICAL, d_action := IA_MANUAL_REVIEW,
                    d_description := invalid_text (''Balance for '' @ coin @
                        (if bad p then '' local value'' else '' remote value''))
                        (rt_str rt (PFloat (if bad p then p else r))) @
                      ''NaN/Inf balance is a data integrity violation''\<rparr>], True)
              else
                (let diff = fabs (fsub p r) in
                 if flt (balance_tolerance_abs cfg) diff then
                   (let sev = (if flt (fmul (balance_tolerance_abs cfg) (Fin 10)) diff
                                 then S_CRITICAL else S_WARNING)
                    in ([base\<lparr>d_severity := sev, d_magnitude := diff,
                          d_description := ''Balance drift for '' @ coin @ '': local='' @ fmt_fixed 4 p @
                            '', remote='' @ fmt_fixed 4 r,
                          d_action := (if sev = S_WARNING then IA_ALERT else IA_MANUAL_REVIEW)\<rparr>], True))
                 else ([], True)))
      | _ \<Rightarrow> raised)"

definition reconcile_balances ::
  "ReconciliationConfig \<Rightarrow> runtime \<Rightarrow> pyval \<Rightarrow> pyval \<Rightarrow> findings" where
  "reconcile_balances cfg rt paper_balances remote_balances =
     (case (as_dict paper_balances, as_dict remote_balances) of
        (Some ps, Some rs) \<Rightarrow>
          scan (\<lambda>coin. balance_findings cfg rt coin (dict_get ps coin (PInt 0)) (dict_get rs coin (PInt 0)))
            (rt_names rt (map fst ps @ map fst rs))
      | _ \<Rightarrow> raised)"

section \<open>Freshness\<close>

text \<open>A zero or missing time stamp is never stale; one that is no number raises.\<close>

definition stale_findings ::
  "ReconciliationConfig \<Rightarrow> runtime \<Rightarrow> string \<Rightarrow> (pyval \<Rightarrow> Discrepancy) \<Rightarrow> int \<Rightarrow> pyval \<Rightarrow> findings" where
  "stale_findings cfg rt side base now ts =
     (if \<not> truthy ts then ([], True)
      else
        (case py_sub (PInt now) ts of
           None \<Rightarrow> raised
         | Some age \<Rightarrow>
             (case as_num age of
                None \<Rightarrow> raised
              | Some x \<Rightarrow>
                  if flt (Fin (of_int (max_data_age_ms cfg))) x then
                    ([(base ts)\<lparr>d_severity := S_WARNING, d_action := IA_ALERT,
                        d_description := side @ '' state snapshot is stale: age='' @
                          py_str (rt_str rt) age @ ''ms''\<rparr>], True)
                  else ([], True))))"

definition freshness_findings ::
  "ReconciliationConfig \<Rightarrow> runtime \<Rightarrow> int \<Rightarrow> pyval \<Rightarrow> pyval \<Rightarrow> findings" where
  "freshness_findings cfg rt now p_ts r_ts =
     scan (\<lambda>f. f)
       [stale_findings cfg rt ''Paper'' (\<lambda>t. disc_default\<lparr>d_local := t\<rparr>) now p_ts,
        stale_findings cfg rt ''Remote'' (\<lambda>t. disc_default\<lparr>d_remote := t\<rparr>) now r_ts]"

section \<open>Grading and actions\<close>

text \<open>\<open>max\<close> over a \<open>str\<close> enum compares the texts; the first of equals is kept.\<close>

fun max_severity :: "Severity \<Rightarrow> Severity list \<Rightarrow> Severity" where
  "max_severity s [] = s"
| "max_severity s (t # ts) =
     max_severity (if str_less (severity_value s) (severity_value t) then t else s) ts"

definition determine_overall_result :: "Discrepancy list \<Rightarrow> ReconciliationResult" where
  "determine_overall_result ds =
     (case map d_severity ds of
        [] \<Rightarrow> RR_MATCH
      | s # ss \<Rightarrow>
          (let m = max_severity s ss in
           if m = S_FATAL then RR_MISMATCH_MAJOR
           else if m = S_CRITICAL then RR_MISMATCH_MAJOR
           else if m = S_WARNING then RR_MISMATCH_MINOR
           else RR_MISMATCH_MINOR))"

definition determine_actions :: "ReconciliationConfig \<Rightarrow> ReconciliationReport \<Rightarrow> string list" where
  "determine_actions cfg p =
     (if p_result p = RR_MATCH then []
      else
        (let fatal_count = length (filter (\<lambda>d. d_severity d = S_FATAL) (p_discs p));
             crit = critical_count p;
             actions =
               (if 0 < fatal_count then [IA_FREEZE_TRADING, IA_MANUAL_REVIEW]
                else if 0 < crit \<and> auto_freeze_on_critical cfg then [IA_FREEZE_TRADING]
                else if max_discrepancies_before_freeze cfg \<le> int (length (p_discs p))
                  then [IA_FREEZE_TRADING] else []) @
               (if 0 < crit then [IA_ALERT] else [])
         in map incident_action_value (rev (remdups (rev actions)))))"

definition hand_incident :: "ReconciliationReport \<Rightarrow> string \<Rightarrow> world \<Rightarrow> world" where
  "hand_incident p action =
     emit_audit ''recon_incident'' True [(''action'', PStr action), (''report'', PDict (report_to_dict p))]"

definition execute_actions ::
  "string list \<Rightarrow> ReconciliationReport \<Rightarrow> recon_engine \<Rightarrow> world \<Rightarrow> recon_engine \<times> world" where
  "execute_actions actions p e w =
     (if actions = [] then (e, w)
      else (e\<lparr>e_total_incidents := Suc (e_total_incidents e)\<rparr>,
            if e_incident_cb e then fold (hand_incident p) actions w else w))"

section \<open>The cycle\<close>

definition recon_emit_audit :: "recon_engine \<Rightarrow> ReconciliationReport \<Rightarrow> world \<Rightarrow> world" where
  "recon_emit_audit e p =
     emit_audit ''reconciliation'' (e_audit_cb e)
       [(''event_type'', PStr ''reconciliation_completed''), (''report_id'', PStr (p_id p)),
        (''overall_result'', PStr (recon_result_value (p_result p))),
        (''discrepancy_count'', PInt (int (length (p_discs p)))),
        (''critical_count'', PInt (int (critical_count p))),
        (''actions_triggered'', PList (map PStr (p_actions p))),
        (''orders_checked'', PInt (int (p_orders_checked p))),
        (''positions_checked'', PInt (int (p_positions_checked p))),
        (''fills_checked'', PInt (int (p_fills_checked p))),
        (''duration_ms'', PInt (p_completed_ms p - p_started_ms p))]"

text \<open>
  A stage of the \<open>try\<close> body: findings are stamped as they are made, and filed in the report
  only when the comparison ends without raising. None: it raised; the report stays as it is.
\<close>

definition file_findings ::
  "findings \<Rightarrow> ReconciliationReport \<Rightarrow> world \<Rightarrow> bool \<times> ReconciliationReport \<times> world" where
  "file_findings f p w =
     (let (ds, w1) = stamp_all (fst f) w in
      if snd f then (True, p\<lparr>p_discs := p_discs p @ ds\<rparr>, w1) else (False, p, w1))"

type_synonym stage = "ReconciliationReport \<Rightarrow> world \<Rightarrow> bool \<times> ReconciliationReport \<times> world"

definition both_len :: "pyval \<Rightarrow> pyval \<Rightarrow> nat option" where
  "both_len a b = do { m \<leftarrow> py_len a; n \<leftarrow> py_len b; Some (max m n) }"

definition counted :: "nat option \<Rightarrow> (nat \<Rightarrow> ReconciliationReport \<Rightarrow> ReconciliationReport) \<Rightarrow> stage" where
  "counted n upd p w = (case n of None \<Rightarrow> (False, p, w) | Some k \<Rightarrow> (True, upd k p, w))"

definition freshness_stage :: "ReconciliationConfig \<Rightarrow> runtime \<Rightarrow> pydict \<Rightarrow> pydict \<Rightarrow> stage" where
  "freshness_stage cfg rt paper remote p w =
     (let (now, w1) = now_ms w in
      file_findings (freshness_findings cfg rt now (dict_get paper ''snapshot_ts_ms'' (PInt 0))
          (dict_get remote ''snapshot_ts_ms'' (PInt 0))) p w1)"

text \<open>\<open>len(remote_state.get("orders", []) or [])\<close>\<close>

definition observe_stage :: "pydict \<Rightarrow> stage" where
  "observe_stage remote =
     (let v = dict_get remote ''orders'' (PList []) in
      counted (if truthy v then py_len v else Some 0) (\<lambda>n p. p\<lparr>p_remote_orders := n\<rparr>))"

fun run_stages :: "stage list \<Rightarrow> stage" where
  "run_stages [] p w = (True, p, w)"
| "run_stages (f # fs) p w =
     (case f p w of
        (True, p1, w1) \<Rightarrow> run_stages fs p1 w1
      | (False, p1, w1) \<Rightarrow> (False, p1, w1))"

definition recon_stages :: "ReconciliationConfig \<Rightarrow> runtime \<Rightarrow> pydict \<Rightarrow> pydict \<Rightarrow> stage list" where
  "recon_stages cfg rt paper remote =
     (let po = dict_get paper ''orders'' (PList []); ro = dict_get remote ''orders'' (PList []);
          pp = dict_get paper ''positions'' (PDict []); rp = dict_get remote ''positions'' (PDict []);
          pf = dict_get paper ''fills'' (PList []); rf = dict_get remote ''fills'' (PList []);
          pb = dict_get paper ''balances'' (PDict []); rb = dict_get remote ''balances'' (PDict [])
      in [freshness_stage cfg rt paper remote, observe_stage remote] @
         (if reconcile_orders cfg then
            [\<lambda>p w. (True, p\<lparr>p_orders_scope := ''reconciled''\<rparr>, w),
             file_findings (reconcile_orders_of rt po ro),
             counted (both_len po ro) (\<lambda>n p. p\<lparr>p_orders_checked := n\<rparr>)]
          else [\<lambda>p w. (True, p\<lparr>p_orders_scope := ''excluded:exchange-authoritative''\<rparr>, w)]) @
         [file_findings (reconcile_positions cfg rt pp rp),
          counted (both_len pp rp) (\<lambda>n p. p\<lparr>p_positions_checked := n\<rparr>),
          file_findings (reconcile_fills cfg rt pf rf),
          counted (both_len pf rf) (\<lambda>n p. p\<lparr>p_fills_checked := n\<rparr>),
          file_findings (reconcile_balances cfg rt pb rb)])"

definition error_disc :: Discrepancy where
  "error_disc = disc_default\<lparr>d_severity := S_CRITICAL, d_action := IA_FREEZE_TRADING,
     d_description := ''Reconciliation engine error''\<rparr>"

text \<open>The \<open>try\<close> body and its handler.\<close>

definition recon_body ::
  "runtime \<Rightarrow> pydict \<Rightarrow> pydict \<Rightarrow> recon_engine \<Rightarrow> ReconciliationReport \<Rightarrow> world \<Rightarrow>
   ReconciliationReport \<times> recon_engine \<times> world" where
  "recon_body rt paper remote e p w =
     (case run_stages (recon_stages (e_config e) rt paper remote) p w of
        (True, p1, w1) \<Rightarrow>
          (let p2 = p1\<lparr>p_result := determine_overall_result (p_discs p1)\<rparr>;
               actions = determine_actions (e_config e) p2;
               p3 = p2\<lparr>p_actions := actions\<rparr>;
               (e1, w2) = execute_actions actions p3 e w1
           in (p3, e1, w2))
      | (False, p1, w1) \<Rightarrow>
          (let (d, w2) = disc_post_init error_disc w1
           in (p1\<lparr>p_result := RR_ERROR, p_discs := p_discs p1 @ [d]\<rparr>, e, w2)))"

text \<open>The report a cycle starts from, and filing it in the history when it ends.\<close>

definition fresh_report :: "pydict \<Rightarrow> pydict \<Rightarrow> ReconciliationReport" where
  "fresh_report paper remote =
     \<lparr>p_id = [], p_started_ms = 0, p_completed_ms = 0, p_result = RR_MATCH, p_discs = [],
      p_orders_checked = 0, p_orders_scope = ''excluded:exchange-authoritative'',
      p_remote_orders = 0, p_positions_checked = 0, p_fills_checked = 0, p_actions = [],
      p_paper_ts = dict_get paper ''snapshot_ts_ms'' (PInt 0),
      p_remote_ts = dict_get remote ''snapshot_ts_ms'' (PInt 0)\<rparr>"

definition file_report :: "ReconciliationReport \<Rightarrow> recon_engine \<Rightarrow> recon_engine" where
  "file_report p e =
     (let h = e_history e @ [p] in
      e\<lparr>e_total_runs := Suc (e_total_runs e), e_total_discs := e_total_discs e + length (p_discs p),
        e_history := (if max_history < length h then drop (length h - max_history) h else h)\<rparr>)"

text \<open>A closed engine raises (None).\<close>

definition reconcile ::
  "runtime \<Rightarrow> pydict \<Rightarrow> pydict \<Rightarrow> recon_engine \<Rightarrow> world \<Rightarrow>
   ReconciliationReport option \<times> recon_engine \<times> world" where
  "reconcile rt paper remote e w =
     (if e_closed e then (None, e, w)
      else
        (let (p0, w0) = report_post_init (fresh_report paper remote) w;
             (p1, e1, w1) = recon_body rt paper remote e p0 w0;
             (t, w2) = now_ms w1;
             p2 = p1\<lparr>p_completed_ms := t\<rparr>;
             e2 = file_report p2 e1
         in (Some p2, e2, recon_emit_audit e2 p2 w2)))"

section \<open>Queries\<close>

definition get_recent_reports :: "int \<Rightarrow> recon_engine \<Rightarrow> pydict list" where
  "get_recent_reports n e = map report_to_dict (last_n n (e_history e))"

definition recon_get_status :: "recon_engine \<Rightarrow> pydict" where
  "recon_get_status e =
     [(''total_runs'', PInt (int (e_total_runs e))),
      (''total_discrepancies'', PInt (int (e_total_discs e))),
      (''total_incidents'', PInt (int (e_total_incidents e))),
      (''history_size'', PInt (int (length (e_history e)))),
      (''last_report'', if e_history e = [] then PNone else PDict (report_to_dict (last (e_history e)))),
      (''config'', PDict
         [(''price_tolerance_pct'', PFloat (price_tolerance_pct (e_config e))),
          (''qty_tolerance_pct'', PFloat (qty_tolerance_pct (e_config e))),
          (''balance_tolerance_abs'', PFloat (balance_tolerance_abs (e_config e))),
          (''max_data_age_ms'', PInt (max_data_age_ms (e_config e))),
          (''auto_freeze_on_critical'', PBool (auto_freeze_on_critical (e_config e)))]),
      (''closed'', PBool (e_closed e))]"

section \<open>Escalation token\<close>

text \<open>\<open>map_report_to_escalation\<close> on a report's dictionary; None outside: it raised.\<close>

fun upper_severities :: "(pyval \<Rightarrow> string) \<Rightarrow> pyval list \<Rightarrow> string list option" where
  "upper_severities other [] = Some []"
| "upper_severities other (d # ds) = do {
     v \<leftarrow> py_get d ''severity'' (PStr []);
     rest \<leftarrow> upper_severities other ds;
     Some (str_upper (py_str other v) # rest)
   }"

definition map_report_to_escalation :: "(pyval \<Rightarrow> string) \<Rightarrow> pydict \<Rightarrow> string option option" where
  "map_report_to_escalation other d =
     (let overall = str_upper (py_str other (dict_get d ''overall_result'' (PStr ''MATCH''))) in
      if overall = ''MATCH'' then Some None
      else do {
        xs \<leftarrow> py_iter (dict_get d ''discrepancies'' (PList []));
        sev \<leftarrow> upper_severities other xs;
        Some (Some (if ''FATAL'' \<in> set sev then ''FATAL''
                    else if overall = ''MISMATCH_MAJOR'' \<or> ''CRITICAL'' \<in> set sev then ''MISMATCH_MAJOR''
                    else ''MISMATCH_MINOR''))
      })"

end
