(* ===== verification/Recon_Laws.thy ===== *)
theory Recon_Laws
  imports Recon_Engine
begin

text \<open>
  What the reconciliation engine guarantees: the grade and the actions of a cycle as functions
  of its discrepancies, the comparison of one position, the tolerance test as a symmetric
  relation, a snapshot compared with itself, the error path, and the bookkeeping of a history
  of cycles.
\<close>

section \<open>Grading\<close>

text \<open>The order of the severities as the code compares them: by their texts.\<close>

fun text_rank :: "Severity \<Rightarrow> nat" where
  "text_rank S_CRITICAL = 0" | "text_rank S_FATAL = 1" | "text_rank S_INFO = 2" | "text_rank S_WARNING = 3"

lemma severity_text_order:
  "str_less (severity_value s) (severity_value t) \<longleftrightarrow> text_rank s < text_rank t"
  by (cases s; cases t) simp_all

lemma max_severity_spec:
  "max_severity s ss \<in> set (s # ss) \<and> (\<forall>t \<in> set (s # ss). text_rank t \<le> text_rank (max_severity s ss))"
proof (induction ss arbitrary: s)
  case (Cons t ts)
  let ?m = "if text_rank s < text_rank t then t else s"
  have "max_severity ?m ts \<in> set (?m # ts)"
    and "\<forall>u \<in> set (?m # ts). text_rank u \<le> text_rank (max_severity ?m ts)"
    using Cons.IH[of ?m] by blast+
  then show ?case
    by (auto simp: severity_text_order split: if_splits)
qed simp

lemma overall_eq:
  "determine_overall_result ds =
     (if ds = [] then RR_MATCH
      else if \<exists>d \<in> set ds. d_severity d = S_WARNING \<or> d_severity d = S_INFO then RR_MISMATCH_MINOR
      else RR_MISMATCH_MAJOR)"
proof (cases ds)
  case (Cons d es)
  define m where "m = max_severity (d_severity d) (map d_severity es)"
  have m: "m \<in> d_severity ` set ds" "\<forall>x \<in> set ds. text_rank (d_severity x) \<le> text_rank m"
    using max_severity_spec[of "d_severity d" "map d_severity es"] Cons by (auto simp: m_def)
  have g: "determine_overall_result ds = (if m = S_FATAL \<or> m = S_CRITICAL then RR_MISMATCH_MAJOR else RR_MISMATCH_MINOR)"
    by (simp add: determine_overall_result_def Cons m_def Let_def)
  have k: "(\<exists>x \<in> set ds. d_severity x = S_WARNING \<or> d_severity x = S_INFO) \<longleftrightarrow> m = S_WARNING \<or> m = S_INFO"
  proof
    assume "\<exists>x \<in> set ds. d_severity x = S_WARNING \<or> d_severity x = S_INFO"
    then obtain x where "x \<in> set ds" "2 \<le> text_rank (d_severity x)" by fastforce
    with m(2) have "2 \<le> text_rank m" by fastforce
    then show "m = S_WARNING \<or> m = S_INFO" by (cases m) simp_all
  qed (use m(1) in auto)
  have "ds \<noteq> []" using Cons by simp
  then show ?thesis unfolding g k by (cases m) simp_all
qed (simp add: determine_overall_result_def)

section \<open>Actions\<close>

definition graded_as :: "Severity \<Rightarrow> ReconciliationReport \<Rightarrow> bool" where
  "graded_as s p \<longleftrightarrow> (\<exists>d \<in> set (p_discs p). d_severity d = s)"

lemma critical_count_pos: "0 < critical_count p \<longleftrightarrow> graded_as S_CRITICAL p \<or> graded_as S_FATAL p"
  by (auto simp: critical_count_def graded_as_def filter_empty_conv)

definition freezes :: "ReconciliationConfig \<Rightarrow> ReconciliationReport \<Rightarrow> bool" where
  "freezes cfg p \<longleftrightarrow> graded_as S_FATAL p \<or> graded_as S_CRITICAL p \<and> auto_freeze_on_critical cfg \<or>
     max_discrepancies_before_freeze cfg \<le> int (length (p_discs p))"

lemma determine_actions_eq:
  "determine_actions cfg p =
     (if p_result p = RR_MATCH then []
      else (if freezes cfg p then [''FREEZE_TRADING''] else []) @
           (if graded_as S_FATAL p then [''MANUAL_REVIEW''] else []) @
           (if graded_as S_FATAL p \<or> graded_as S_CRITICAL p then [''ALERT''] else []))"
proof -
  have "0 < length (filter (\<lambda>d. d_severity d = S_FATAL) (p_discs p)) \<longleftrightarrow> graded_as S_FATAL p"
    by (auto simp: graded_as_def filter_empty_conv)
  then show ?thesis
    by (simp add: determine_actions_def Let_def critical_count_pos freezes_def)
qed

section \<open>Escalation token\<close>

lemma disc_severity_entry:
  "py_get (PDict (disc_to_dict d)) ''severity'' x = Some (PStr (severity_value (d_severity d)))"
  by (simp add: disc_to_dict_def dict_get_def)

lemma upper_severities_report:
  "upper_severities other (map (PDict \<circ> disc_to_dict) ds) = Some (map (severity_value \<circ> d_severity) ds)"
proof (induction ds)
  case (Cons d ds)
  have "str_upper (severity_value s) = severity_value s" for s
    by (cases s) (simp_all add: str_upper_def upper_char_def)
  then show ?case
    using Cons by (simp add: disc_severity_entry py_str_def comp_def del: py_get_dict)
qed simp

lemma recon_result_upper: "str_upper (recon_result_value r) = recon_result_value r"
  by (cases r) (simp_all add: str_upper_def upper_char_def)

lemma recon_result_inj: "recon_result_value r = recon_result_value s \<longleftrightarrow> r = s"
  by (cases r; cases s) simp_all

lemma severity_value_mem: "severity_value s \<in> (\<lambda>d. severity_value (d_severity d)) ` A \<longleftrightarrow> (\<exists>d \<in> A. d_severity d = s)"
proof -
  have "severity_value a = severity_value b \<longleftrightarrow> a = b" for a b
    by (cases a; cases b) simp_all
  then show ?thesis by (auto simp: image_iff)
qed

lemma escalation_eq:
  "map_report_to_escalation other (report_to_dict p) =
     Some (if p_result p = RR_MATCH then None
           else Some (if graded_as S_FATAL p then ''FATAL''
                      else if p_result p = RR_MISMATCH_MAJOR \<or> graded_as S_CRITICAL p then ''MISMATCH_MAJOR''
                      else ''MISMATCH_MINOR''))"
proof -
  have o: "dict_get (report_to_dict p) ''overall_result'' (PStr ''MATCH'') = PStr (recon_result_value (p_result p))"
    and d: "dict_get (report_to_dict p) ''discrepancies'' (PList []) = PList (map (PDict \<circ> disc_to_dict) (p_discs p))"
    by (simp_all add: report_to_dict_def dict_get_def)
  have mem: "''FATAL'' \<in> (\<lambda>d. severity_value (d_severity d)) ` set (p_discs p) \<longleftrightarrow> graded_as S_FATAL p"
    "''CRITICAL'' \<in> (\<lambda>d. severity_value (d_severity d)) ` set (p_discs p) \<longleftrightarrow> graded_as S_CRITICAL p"
    using severity_value_mem[of S_FATAL] severity_value_mem[of S_CRITICAL] by (simp_all add: graded_as_def)
  have r: "recon_result_value (p_result p) = ''MATCH'' \<longleftrightarrow> p_result p = RR_MATCH"
    "recon_result_value (p_result p) = ''MISMATCH_MAJOR'' \<longleftrightarrow> p_result p = RR_MISMATCH_MAJOR"
    using recon_result_inj[of _ RR_MATCH] recon_result_inj[of _ RR_MISMATCH_MAJOR] by simp_all
  show ?thesis
    by (simp add: map_report_to_escalation_def o d py_str_def recon_result_upper py_iter_def
        upper_severities_report[unfolded comp_def] mem r Let_def comp_def)
qed

section \<open>The tolerance test\<close>

lemma fl_round_uminus: "fl_round (- x) = fneg (fl_round x)"
  by (cases "x = 0"; cases "0 < x") (simp_all add: fl_round_def Let_def)

lemma fl_round_minus_commute: "fl_round (b - a) = fneg (fl_round (a - b))"
  using fl_round_uminus[of "a - b"] by simp

lemma fabs_fneg [simp]: "fabs (fneg x) = fabs x"
  by (cases x) simp_all

lemma fabs_fsub_commute: "fabs (fsub a b) = fabs (fsub b a)"
proof (cases "\<exists>x y. a = Fin x \<and> b = Fin y")
  case True
  then obtain x y where "a = Fin x" "b = Fin y" by blast
  moreover have "fabs (fl_round (x - y)) = fabs (fl_round (y - x))"
    unfolding fl_round_minus_commute[of x y] by simp
  ultimately show ?thesis by (simp add: fsub_def)
next
  case False
  then show ?thesis by (cases a; cases b) (simp_all add: fsub_def)
qed

lemma fmax_abs_commute:
  assumes "\<not> is_nan a" "\<not> is_nan b"
  shows "fmax (fabs a) (fabs b) = fmax (fabs b) (fabs a)"
  using assms by (cases a; cases b) (auto simp: fmax_def is_nan_def)

lemma fdiv_nan: "x \<noteq> Fin 0 \<Longrightarrow> fdiv NaN x = Some NaN"
  by (cases x) auto

lemma fsub_nan: "is_nan a \<or> is_nan b \<Longrightarrow> fabs (fsub a b) = NaN"
  by (cases a; cases b) (simp_all add: fsub_def is_nan_def)

lemma fmax_abs_nonzero: "a \<noteq> Fin 0 \<Longrightarrow> b \<noteq> Fin 0 \<Longrightarrow> fmax (fabs a) (fabs b) \<noteq> Fin 0"
  by (cases a; cases b) (auto simp: fmax_def)

lemma within_tolerance_commute: "within_tolerance a b tol = within_tolerance b a tol"
proof (cases "a \<noteq> Fin 0 \<and> b \<noteq> Fin 0 \<and> (is_nan a \<or> is_nan b)")
  case True
  then have "fabs (fsub a b) = NaN" "fabs (fsub b a) = NaN"
    using fsub_nan by blast+
  with True have "fdiv (fabs (fsub a b)) (fmax (fabs a) (fabs b)) = Some NaN"
    "fdiv (fabs (fsub b a)) (fmax (fabs b) (fabs a)) = Some NaN"
    by (simp_all add: fdiv_nan fmax_abs_nonzero)
  with True show ?thesis by (simp add: within_tolerance_def)
next
  case False
  then show ?thesis
    using fmax_abs_commute[of a b] fabs_fsub_commute[of a b]
    by (cases "a = Fin 0 \<or> b = Fin 0") (auto simp: within_tolerance_def)
qed

lemma within_tolerance_self: "0 \<le> t \<Longrightarrow> within_tolerance (Fin x) (Fin x) (Fin t)"
  by (simp add: within_tolerance_def fsub_def fmax_def fl_round_def)

section \<open>One position\<close>

lemma valid_size_fin: "valid_size x \<longleftrightarrow> (\<exists>r. x = Fin r \<and> 0 \<le> r)"
  by (cases x) (auto simp: valid_size_def is_nan_def is_inf_def)

definition positions_agree :: "ReconciliationConfig \<Rightarrow> pyval \<Rightarrow> pyval \<Rightarrow> bool" where
  "positions_agree cfg p r \<longleftrightarrow>
     (\<exists>x y ps rs. py_size p = Some (Fin x) \<and> py_size r = Some (Fin y) \<and> py_side p = Some ps \<and>
        py_side r = Some rs \<and> 0 \<le> x \<and> 0 \<le> y \<and> (str_lower ps = str_lower rs \<or> x = 0 \<and> y = 0) \<and>
        within_tolerance (Fin x) (Fin y) (qty_tolerance_pct cfg))"

lemma py_size_dict: "py_size p = Some x \<Longrightarrow> \<exists>d. p = PDict d"
  by (cases p) (auto simp: py_size_def py_get_def as_dict_def)

lemma both_findings_silent:
  "both_findings cfg rt symb p r = ([], True) \<longleftrightarrow> positions_agree cfg p r"
proof (cases "py_size p"; cases "py_size r")
  fix x y assume xy: "py_size p = Some x" "py_size r = Some y"
  then obtain d e where "p = PDict d" "r = PDict e" using py_size_dict by metis
  then have "\<exists>v. py_get p ''side'' (PStr []) = Some v" "\<exists>v. py_get r ''side'' (PStr []) = Some v" by simp_all
  with xy show ?thesis
    by (cases "py_side p"; cases "py_side r"; cases x; cases y)
      (auto simp: both_findings_def positions_agree_def valid_size_def is_nan_def is_inf_def raised_def
        split: if_splits)
qed (auto simp: both_findings_def positions_agree_def raised_def split: option.splits)

section \<open>Silence of a loop\<close>

lemma scan_silent: "scan f xs = ([], True) \<longleftrightarrow> (\<forall>x \<in> set xs. f x = ([], True))"
  by (induction xs) (auto simp: Let_def split: prod.splits bool.splits)

section \<open>The outcome of a cycle\<close>

lemma disc_post_init_quiet:
  assumes "disc_post_init d w = (d', w')"
  shows "w_out w' = w_out w" "later w w'" "d_severity d' = d_severity d" "d_action d' = d_action d"
  using assms
  by (auto simp: disc_post_init_def fresh_hex_def now_ms_def Let_def later_def split: if_splits)

lemma stamp_all_quiet:
  "stamp_all ds (w :: world) = (ds', w') \<Longrightarrow>
     w_out w' = w_out w \<and> later w w' \<and> map d_severity ds' = map d_severity ds"
proof (induction ds arbitrary: w ds' w')
  case (Cons d ds)
  obtain d1 w1 where d: "disc_post_init d w = (d1, w1)" by (meson surj_pair)
  obtain es w2 where e: "stamp_all ds w1 = (es, w2)" by (meson surj_pair)
  have "ds' = d1 # es" "w' = w2" using Cons.prems d e by simp_all
  with disc_post_init_quiet[OF d] Cons.IH[OF e] show ?case
    by (auto intro: later_trans)
qed simp

text \<open>A stage fills in the report but does not grade it, act or emit.\<close>

definition quiet_stage :: "stage \<Rightarrow> bool" where
  "quiet_stage f \<longleftrightarrow> (\<forall>p w ok p1 w1. f p w = (ok, p1, w1) \<longrightarrow>
     p_id p1 = p_id p \<and> p_result p1 = p_result p \<and> p_actions p1 = p_actions p \<and> w_out w1 = w_out w \<and> later w w1)"

lemma quiet_stageD:
  assumes "quiet_stage f" "f p w = (ok, p1, w1)"
  shows "p_id p1 = p_id p \<and> p_result p1 = p_result p \<and> p_actions p1 = p_actions p \<and> w_out w1 = w_out w \<and> later w w1"
  using assms unfolding quiet_stage_def by blast

lemma quiet_file: "quiet_stage (file_findings fs)"
  unfolding quiet_stage_def
proof (intro allI impI)
  fix p w ok p1 w1 assume "file_findings fs p w = (ok, p1, w1)"
  then show "p_id p1 = p_id p \<and> p_result p1 = p_result p \<and> p_actions p1 = p_actions p \<and> w_out w1 = w_out w \<and> later w w1"
    using stamp_all_quiet[of "fst fs" w]
    by (cases "stamp_all (fst fs) w") (auto simp: file_findings_def split: if_splits)
qed

lemma quiet_counted:
  "(\<And>n p. p_id (upd n p) = p_id p \<and> p_result (upd n p) = p_result p \<and> p_actions (upd n p) = p_actions p) \<Longrightarrow> quiet_stage (counted n upd)"
  by (auto simp: quiet_stage_def counted_def split: option.splits)

lemma quiet_freshness: "quiet_stage (freshness_stage cfg rt paper remote)"
  unfolding quiet_stage_def
proof (intro allI impI)
  fix p w ok p1 w1 assume "freshness_stage cfg rt paper remote p w = (ok, p1, w1)"
  then obtain fs where "file_findings fs p (w\<lparr>ticks := Suc (ticks w)\<rparr>) = (ok, p1, w1)"
    by (auto simp: freshness_stage_def now_ms_def)
  with quiet_file[of fs] have "p_id p1 = p_id p \<and> p_result p1 = p_result p \<and> p_actions p1 = p_actions p \<and>
      w_out w1 = w_out (w\<lparr>ticks := Suc (ticks w)\<rparr>) \<and> later (w\<lparr>ticks := Suc (ticks w)\<rparr>) w1"
    unfolding quiet_stage_def by blast
  then show "p_id p1 = p_id p \<and> p_result p1 = p_result p \<and> p_actions p1 = p_actions p \<and> w_out w1 = w_out w \<and> later w w1"
    by (auto simp: later_def)
qed

lemma quiet_run: "\<forall>f \<in> set fs. quiet_stage f \<Longrightarrow> quiet_stage (run_stages fs)"
proof (induction fs)
  case (Cons f fs)
  show ?case
    unfolding quiet_stage_def
  proof (intro allI impI)
    fix p w ok p2 w2 assume r: "run_stages (f # fs) p w = (ok, p2, w2)"
    obtain b p1 w1 where f: "f p w = (b, p1, w1)" by (metis prod_cases3)
    then have 1: "p_id p1 = p_id p \<and> p_result p1 = p_result p \<and> p_actions p1 = p_actions p \<and> w_out w1 = w_out w \<and> later w w1"
      using Cons.prems by (intro quiet_stageD[of f]) simp_all
    show "p_id p2 = p_id p \<and> p_result p2 = p_result p \<and> p_actions p2 = p_actions p \<and> w_out w2 = w_out w \<and> later w w2"
    proof (cases b)
      case True
      with f r have "run_stages fs p1 w1 = (ok, p2, w2)" by simp
      then have "p_id p2 = p_id p1 \<and> p_result p2 = p_result p1 \<and> p_actions p2 = p_actions p1 \<and> w_out w2 = w_out w1 \<and> later w1 w2"
        using Cons by (intro quiet_stageD[of "run_stages fs"]) simp_all
      with 1 show ?thesis by (auto intro: later_trans)
    qed (use f r 1 in simp)
  qed
qed (simp add: quiet_stage_def)

lemma quiet_scope: "quiet_stage (\<lambda>p w. (True, p\<lparr>p_orders_scope := s\<rparr>, w))"
  by (simp add: quiet_stage_def)

lemma recon_stages_quiet: "quiet_stage (run_stages (recon_stages cfg rt paper remote))"
  by (rule quiet_run)
    (auto simp: recon_stages_def Let_def observe_stage_def quiet_file quiet_counted quiet_freshness quiet_scope)

lemma recon_body_id:
  assumes "recon_body rt paper remote e p w = (p1, e1, w1)"
  shows "p_id p1 = p_id p"
proof -
  obtain ok q v where r: "run_stages (recon_stages (e_config e) rt paper remote) p w = (ok, q, v)"
    by (metis prod_cases3)
  then have "p_id q = p_id p" using recon_stages_quiet unfolding quiet_stage_def by blast
  then show ?thesis
    using assms r by (cases ok) (auto simp: recon_body_def Let_def split: prod.splits)
qed

lemma report_post_init_quiet:
  assumes "report_post_init p (w :: world) = (p1, w1)"
  shows "p_result p1 = p_result p" "p_actions p1 = p_actions p" "p_discs p1 = p_discs p" "w_out w1 = w_out w"
  using assms
  by (auto simp: report_post_init_def fresh_hex_def now_ms_def Let_def split: if_splits)

text \<open>The incident hand-overs among what a run put out.\<close>

definition incidents_out :: "world \<Rightarrow> (string \<times> pydict) list" where
  "incidents_out w = filter (\<lambda>x. fst x = ''recon_incident'') (w_out w)"

lemma recon_audit_incidents: "incidents_out (recon_emit_audit e p w) = incidents_out w"
  by (simp add: incidents_out_def recon_emit_audit_def emit_audit_def)

lemma hand_incidents:
  "incidents_out (fold (hand_incident p) actions w) = incidents_out w @
     map (\<lambda>a. (''recon_incident'', [(''action'', PStr a), (''report'', PDict (report_to_dict p))])) actions"
  by (induction actions arbitrary: w) (simp_all add: incidents_out_def hand_incident_def emit_audit_def)

text \<open>
  The two outcomes of a cycle: it raised somewhere and is an ERROR without any action, or it
  is graded and its actions are handed over.
\<close>

lemma incidents_out_cong: "w_out w1 = w_out w \<Longrightarrow> incidents_out w1 = incidents_out w"
  by (simp add: incidents_out_def)

lemma recon_body_outcome:
  assumes "recon_body rt paper remote e p w = (p1, e1, w1)" "p_result p = RR_MATCH" "p_actions p = []"
  shows "(\<exists>ds d. p_result p1 = RR_ERROR \<and> p_actions p1 = [] \<and> p_discs p1 = ds @ [d] \<and>
       d_severity d = S_CRITICAL \<and> d_action d = IA_FREEZE_TRADING \<and> e1 = e \<and>
       incidents_out w1 = incidents_out w) \<or>
     (p_result p1 = determine_overall_result (p_discs p1) \<and> p_actions p1 = determine_actions (e_config e) p1 \<and>
       e1 = (if p_actions p1 = [] then e else e\<lparr>e_total_incidents := Suc (e_total_incidents e)\<rparr>) \<and>
       map (\<lambda>x. map_of (snd x) ''action'') (incidents_out w1) =
         map (\<lambda>x. map_of (snd x) ''action'') (incidents_out w) @
         (if e_incident_cb e then map (Some \<circ> PStr) (p_actions p1) else []))"
proof -
  obtain ok q v where r: "run_stages (recon_stages (e_config e) rt paper remote) p w = (ok, q, v)"
    by (metis prod_cases3)
  then have q: "p_result q = RR_MATCH" "p_actions q = []" "incidents_out v = incidents_out w"
    using recon_stages_quiet assms(2,3) unfolding quiet_stage_def by (auto intro: incidents_out_cong)
  show ?thesis
  proof (cases ok)
    case True
    define q2 where "q2 = q\<lparr>p_result := determine_overall_result (p_discs q)\<rparr>"
    have acts: "determine_actions (e_config e) (q2\<lparr>p_actions := as\<rparr>) = determine_actions (e_config e) q2" for as
      by (simp add: determine_actions_eq graded_as_def freezes_def)
    have "p1 = q2\<lparr>p_actions := determine_actions (e_config e) q2\<rparr>"
      and e1: "(e1, w1) = execute_actions (determine_actions (e_config e) q2) p1 e v"
      using assms(1) r True by (auto simp: recon_body_def q2_def Let_def split: prod.splits)
    then show ?thesis
      using acts q(3) e1
      by (auto simp: q2_def execute_actions_def hand_incidents comp_def split: if_splits)
  next
    case False
    obtain d v' where d: "disc_post_init error_disc v = (d, v')" by (meson surj_pair)
    have "p1 = q\<lparr>p_result := RR_ERROR, p_discs := p_discs q @ [d]\<rparr>" "e1 = e" "w1 = v'"
      using assms(1) r False d by (simp_all add: recon_body_def)
    moreover have "incidents_out v' = incidents_out v"
      using disc_post_init_quiet(1)[OF d] by (rule incidents_out_cong)
    ultimately show ?thesis
      using disc_post_init_quiet(3,4)[OF d] q by (simp add: error_disc_def)
  qed
qed

lemma reconcile_outcome:
  assumes "reconcile rt paper remote e w = (Some p, e', w')"
  obtains p0 w0 p1 e1 w1 t where
    "recon_body rt paper remote e p0 w0 = (p1, e1, w1)" "p_result p0 = RR_MATCH" "p_actions p0 = []"
    "p_discs p0 = []" "w_out w0 = w_out w" "p = p1\<lparr>p_completed_ms := t\<rparr>" "e' = file_report p e1"
    "incidents_out w' = incidents_out w1" "\<not> e_closed e"
proof -
  obtain p0 w0 where i: "report_post_init (fresh_report paper remote) w = (p0, w0)" by (meson surj_pair)
  obtain p1 e1 w1 where b: "recon_body rt paper remote e p0 w0 = (p1, e1, w1)" by (metis prod_cases3)
  obtain t w2 where n: "now_ms w1 = (t, w2)" by (meson surj_pair)
  have open_e: "\<not> e_closed e" using assms by (auto simp: reconcile_def)
  have r: "p = p1\<lparr>p_completed_ms := t\<rparr>" "e' = file_report p e1" "w' = recon_emit_audit e' p w2"
    using assms i b n open_e by (auto simp: reconcile_def Let_def)
  have "incidents_out w2 = incidents_out w1"
    using n by (auto simp: now_ms_def incidents_out_def)
  then have inc: "incidents_out w' = incidents_out w1" by (simp add: r(3) recon_audit_incidents)
  note q = report_post_init_quiet[OF i]
  show ?thesis
    by (rule that[OF b _ _ _ q(4) r(1,2) inc open_e]) (use q in \<open>simp_all add: fresh_report_def\<close>)
qed

lemma overall_not_error: "determine_overall_result ds \<noteq> RR_ERROR"
  by (simp add: overall_eq)

lemma actions_of_completed:
  "determine_actions cfg (p\<lparr>p_completed_ms := t\<rparr>) = determine_actions cfg p"
  by (simp add: determine_actions_eq graded_as_def freezes_def)

lemma reconcile_graded:
  assumes "reconcile rt paper remote e w = (Some p, e', w')" "p_result p \<noteq> RR_ERROR"
  shows "p_result p = determine_overall_result (p_discs p)"
    and "p_actions p = determine_actions (e_config e) p"
proof -
  obtain p0 w0 p1 e1 w1 t where b: "recon_body rt paper remote e p0 w0 = (p1, e1, w1)"
    and 0: "p_result p0 = RR_MATCH" "p_actions p0 = []" and r: "p = p1\<lparr>p_completed_ms := t\<rparr>"
    using reconcile_outcome[OF assms(1)] by metis
  have "p_result p1 \<noteq> RR_ERROR" using assms(2) r by simp
  with recon_body_outcome[OF b 0] have "p_result p1 = determine_overall_result (p_discs p1)"
    "p_actions p1 = determine_actions (e_config e) p1" by blast+
  then show "p_result p = determine_overall_result (p_discs p)"
    and "p_actions p = determine_actions (e_config e) p"
    by (simp_all add: r actions_of_completed)
qed

lemma reconcile_error:
  assumes "reconcile rt paper remote e w = (Some p, e', w')" "p_result p = RR_ERROR"
  shows "p_actions p = []" "incidents_out w' = incidents_out w"
    and "e_total_incidents e' = e_total_incidents e"
    and "\<exists>ds d. p_discs p = ds @ [d] \<and> d_severity d = S_CRITICAL \<and> d_action d = IA_FREEZE_TRADING"
proof -
  obtain p0 w0 p1 e1 w1 t where b: "recon_body rt paper remote e p0 w0 = (p1, e1, w1)"
    and 0: "p_result p0 = RR_MATCH" "p_actions p0 = []" "w_out w0 = w_out w"
    and r: "p = p1\<lparr>p_completed_ms := t\<rparr>" "e' = file_report p e1" "incidents_out w' = incidents_out w1"
    using reconcile_outcome[OF assms(1)] by metis
  have "\<not> p_result p1 = determine_overall_result (p_discs p1)"
    using assms(2) r(1) overall_not_error[of "p_discs p1"] by auto
  with recon_body_outcome[OF b 0(1,2)] obtain ds d where
    o: "p_actions p1 = []" "p_discs p1 = ds @ [d]" "d_severity d = S_CRITICAL"
      "d_action d = IA_FREEZE_TRADING" "e1 = e" "incidents_out w1 = incidents_out w0"
    by blast
  then show "p_actions p = []" "incidents_out w' = incidents_out w"
    and "e_total_incidents e' = e_total_incidents e"
    and "\<exists>ds d. p_discs p = ds @ [d] \<and> d_severity d = S_CRITICAL \<and> d_action d = IA_FREEZE_TRADING"
    using r 0(3) by (simp_all add: file_report_def Let_def incidents_out_def)
qed

section \<open>A history of cycles\<close>

fun cycles :: "runtime \<Rightarrow> (pydict \<times> pydict) list \<Rightarrow> recon_engine \<times> world \<Rightarrow> recon_engine \<times> world" where
  "cycles rt [] s = s"
| "cycles rt ((paper, remote) # xs) (e, w) = cycles rt xs (snd (reconcile rt paper remote e w))"

definition history_ok :: "recon_engine \<Rightarrow> bool" where
  "history_ok e \<longleftrightarrow> length (e_history e) = min (e_total_runs e) max_history \<and>
     (e_total_runs e \<le> max_history \<longrightarrow> e_total_discs e = sum_list (map (length \<circ> p_discs) (e_history e))) \<and>
     sum_list (map (length \<circ> p_discs) (e_history e)) \<le> e_total_discs e"

lemma history_ok_new: "history_ok (recon_new cfg a i)"
  by (simp add: history_ok_def recon_new_def)

lemma sum_list_drop_le: "sum_list (map f (drop n xs)) \<le> sum_list (map f xs)" for f :: "'a \<Rightarrow> nat"
  by (metis append_take_drop_id le_add2 map_append sum_list_append)

lemma file_report_fields:
  "e_history (file_report p e) = drop (Suc (length (e_history e)) - max_history) (e_history e @ [p])"
  "e_total_runs (file_report p e) = Suc (e_total_runs e)"
  "e_total_discs (file_report p e) = e_total_discs e + length (p_discs p)"
  by (auto simp: file_report_def Let_def)

lemma max_history_pos: "0 < max_history"
  by (simp add: max_history_def)

lemma file_report_history:
  assumes "history_ok e"
  shows "history_ok (file_report p e)" "last (e_history (file_report p e)) = p"
    and "e_total_runs (file_report p e) = Suc (e_total_runs e)"
proof -
  let ?n = "Suc (length (e_history e)) - max_history"
  have len: "length (e_history e) = min (e_total_runs e) max_history"
    and eq: "e_total_runs e \<le> max_history \<Longrightarrow> e_total_discs e = sum_list (map (length \<circ> p_discs) (e_history e))"
    and le: "sum_list (map (length \<circ> p_discs) (e_history e)) \<le> e_total_discs e"
    using assms by (simp_all add: history_ok_def)
  have "sum_list (map (length \<circ> p_discs) (drop ?n (e_history e @ [p])))
      \<le> e_total_discs e + length (p_discs p)"
    using sum_list_drop_le[of "length \<circ> p_discs" ?n "e_history e @ [p]"] le by simp
  moreover have "sum_list (map (length \<circ> p_discs) (drop ?n (e_history e @ [p])))
      = e_total_discs e + length (p_discs p)" if "Suc (e_total_runs e) \<le> max_history"
    using that len eq by simp
  ultimately show "history_ok (file_report p e)"
    using len max_history_pos unfolding history_ok_def file_report_fields by (simp add: min_def)
  show "last (e_history (file_report p e)) = p"
    using len by (simp add: file_report_fields max_history_def min_def)
  show "e_total_runs (file_report p e) = Suc (e_total_runs e)"
    by (simp add: file_report_fields)
qed

lemma body_counters:
  assumes "recon_body rt paper remote e p w = (p1, e1, w1)"
  shows "e_history e1 = e_history e" "e_total_runs e1 = e_total_runs e" "e_total_discs e1 = e_total_discs e"
    "e_config e1 = e_config e" "e_closed e1 = e_closed e"
  using assms
  by (auto simp: recon_body_def execute_actions_def Let_def split: prod.splits bool.splits if_splits)

lemma reconcile_history:
  assumes "history_ok e" "reconcile rt paper remote e w = (res, e', w')"
  shows "history_ok e'"
    and "res = Some p \<Longrightarrow> last (e_history e') = p \<and> e_total_runs e' = Suc (e_total_runs e)"
proof -
  have "history_ok e' \<and> (\<forall>p. res = Some p \<longrightarrow> last (e_history e') = p \<and> e_total_runs e' = Suc (e_total_runs e))"
  proof (cases res)
    case None
    with assms show ?thesis by (auto simp: reconcile_def Let_def split: if_splits prod.splits)
  next
    case (Some p)
    then obtain p0 w0 p1 e1 w1 where b: "recon_body rt paper remote e p0 w0 = (p1, e1, w1)"
      and e': "e' = file_report p e1"
      using reconcile_outcome assms(2) by metis
    have "history_ok e1" using assms(1) body_counters[OF b] by (simp add: history_ok_def)
    from file_report_history[OF this, of p] show ?thesis
      using Some e' body_counters(2)[OF b] by simp
  qed
  then show "history_ok e'"
    and "res = Some p \<Longrightarrow> last (e_history e') = p \<and> e_total_runs e' = Suc (e_total_runs e)" by blast+
qed

lemma cycles_history: "history_ok (fst s) \<Longrightarrow> history_ok (fst (cycles rt xs s))"
proof (induction rt xs s rule: cycles.induct)
  case (2 rt paper remote xs e w)
  obtain res e' w' where r: "reconcile rt paper remote e w = (res, e', w')" by (metis prod_cases3)
  with 2 reconcile_history(1)[OF _ r] show ?case by simp
qed simp

section \<open>A snapshot compared with itself\<close>

text \<open>
  The snapshots the comparison can make sense of: positions with a valid size and a side,
  finite balances, fills with positive time stamps and finite totals.
\<close>

definition finite_fills :: "runtime \<Rightarrow> pyval list \<Rightarrow> bool" where
  "finite_fills rt fs \<longleftrightarrow> (\<forall>f \<in> set fs. \<exists>t > 0. extract_fill_ts f = Some t) \<and>
     (\<exists>g. group_fills rt fs [] = Some g \<and> (\<forall>(k, xs) \<in> set g. \<exists>q v.
        total_qty_of xs = Some (Fin q) \<and> weighted_avg_price xs = Some (Fin v)))"

definition comparable :: "runtime \<Rightarrow> pydict \<Rightarrow> pydict \<Rightarrow> pyval list \<Rightarrow> bool" where
  "comparable rt ps bs fs \<longleftrightarrow>
     (\<forall>k. map_of ps k \<noteq> None \<longrightarrow> (\<exists>x s. py_size (dict_get ps k PNone) = Some (Fin x) \<and> 0 \<le> x \<and>
        py_side (dict_get ps k PNone) = Some s)) \<and>
     (\<forall>k. \<exists>x. to_float (dict_get bs k (PInt 0)) = Some (Fin x)) \<and> (fs = [] \<or> finite_fills rt fs)"

definition sane_config :: "ReconciliationConfig \<Rightarrow> bool" where
  "sane_config cfg \<longleftrightarrow> (\<exists>q p b. qty_tolerance_pct cfg = Fin q \<and> 0 \<le> q \<and> price_tolerance_pct cfg = Fin p \<and>
     0 \<le> p \<and> balance_tolerance_abs cfg = Fin b \<and> 0 \<le> b)"

lemma names_in:
  assumes "lawful_runtime rt" "k \<in> set (rt_names rt (map fst d @ map fst d))"
  shows "map_of d k \<noteq> None"
  using assms by (auto simp: lawful_runtime_def map_of_eq_None_iff)

lemma fsub_self: "fsub (Fin x) (Fin x) = Fin 0"
  by (simp add: fsub_def fl_round_def)

lemma positions_self:
  assumes "lawful_runtime rt" "sane_config cfg" "comparable rt ps bs fs"
  shows "reconcile_positions cfg rt (PDict ps) (PDict ps) = ([], True)"
proof -
  have "position_findings cfg rt k (dict_get ps k PNone) (dict_get ps k PNone) = ([], True)"
    if "k \<in> set (rt_names rt (map fst ps @ map fst ps))" for k
  proof -
    have "\<exists>x s. py_size (dict_get ps k PNone) = Some (Fin x) \<and> 0 \<le> x \<and> py_side (dict_get ps k PNone) = Some s"
      using assms(3) names_in[OF assms(1) that] unfolding comparable_def by blast
    then have "positions_agree cfg (dict_get ps k PNone) (dict_get ps k PNone)"
      using assms(2) within_tolerance_self by (auto simp: positions_agree_def sane_config_def)
    then show ?thesis by (simp add: position_findings_def both_findings_silent)
  qed
  then show ?thesis by (simp add: reconcile_positions_def scan_silent as_dict_def)
qed

lemma balances_self:
  assumes "sane_config cfg" "comparable rt ps bs fs"
  shows "reconcile_balances cfg rt (PDict bs) (PDict bs) = ([], True)"
proof -
  have "balance_findings cfg rt k (dict_get bs k (PInt 0)) (dict_get bs k (PInt 0)) = ([], True)" for k
  proof -
    obtain x where x: "to_float (dict_get bs k (PInt 0)) = Some (Fin x)"
      using assms(2) unfolding comparable_def by blast
    obtain b where "balance_tolerance_abs cfg = Fin b" "0 \<le> b"
      using assms(1) unfolding sane_config_def by blast
    with x show ?thesis
      by (simp add: balance_findings_def fsub_self is_nan_def is_inf_def Let_def)
  qed
  then show ?thesis by (simp add: reconcile_balances_def scan_silent as_dict_def)
qed

lemma in_window_all:
  assumes "\<forall>f \<in> set fs. \<exists>t. extract_fill_ts f = Some t \<and> lo \<le> t \<and> t \<le> hi"
  shows "in_window lo hi fs = Some fs"
  using assms by (induction fs) auto

lemma windowed_self:
  assumes "\<forall>f \<in> set fs. \<exists>t > 0. extract_fill_ts f = Some t" "fs \<noteq> []"
  shows "windowed fs (PList fs) = Some (PList fs)"
proof -
  define ts where "ts = map (\<lambda>f. the (extract_fill_ts f)) fs"
  have t: "those (map extract_fill_ts fs) = Some ts"
    using assms(1) unfolding ts_def by (induction fs) auto
  have pos: "\<forall>t \<in> set ts. 0 < t" using assms(1) unfolding ts_def by force
  then have f: "filter (\<lambda>t. 0 < t) ts = ts" by simp
  obtain u us where u: "ts = u # us" using assms(2) by (cases ts) (simp_all add: ts_def)
  have lo: "fold min us u \<le> t" and hi: "t \<le> fold max us u" if "t \<in> set ts" for t
    using that Min.set_eq_fold[of u us] Max.set_eq_fold[of u us]
      Min_le[of "set (u # us)" t] Max_ge[of "set (u # us)" t] by (simp_all add: u)
  have "in_window (fold min us u - fill_window_epsilon_ms) (fold max us u + fill_window_epsilon_ms) fs = Some fs"
  proof (rule in_window_all, rule ballI)
    fix f assume m: "f \<in> set fs"
    then obtain t where e: "extract_fill_ts f = Some t" using assms(1) by blast
    with m have "t \<in> set ts" by (force simp: ts_def)
    with e lo hi show "\<exists>t. extract_fill_ts f = Some t \<and> fold min us u - fill_window_epsilon_ms \<le> t \<and>
        t \<le> fold max us u + fill_window_epsilon_ms"
      by (force simp: fill_window_epsilon_ms_def)
  qed
  with t f u show ?thesis by (simp add: windowed_def py_iter_def)
qed

lemma fills_self:
  assumes "lawful_runtime rt" "sane_config cfg" "comparable rt ps bs fs"
  shows "reconcile_fills cfg rt (PList fs) (PList fs) = ([], True)"
proof (cases "fs = []")
  case False
  then have fin: "finite_fills rt fs" using assms(3) by (simp add: comparable_def)
  then obtain g where g: "group_fills rt fs [] = Some g" and q: "\<forall>(k, xs) \<in> set g. \<exists>q v.
        total_qty_of xs = Some (Fin q) \<and> weighted_avg_price xs = Some (Fin v)"
    unfolding finite_fills_def by blast
  have w: "windowed fs (PList fs) = Some (PList fs)"
    using fin False windowed_self unfolding finite_fills_def by blast
  have "fill_findings cfg rt k (fills_of g k) (fills_of g k) = ([], True)"
    if k: "k \<in> set (rt_names rt (map fst g @ map fst g))" for k
  proof -
    obtain xs where "map_of g k = Some xs" using names_in[OF assms(1) k] by blast
    moreover from this obtain y v where "total_qty_of xs = Some (Fin y)" "weighted_avg_price xs = Some (Fin v)"
      using q map_of_SomeD by fastforce
    ultimately show ?thesis
      using assms(2) within_tolerance_self
      by (auto simp: fill_findings_def fills_of_def fill_price_findings_def sane_config_def Let_def)
  qed
  with w g False show ?thesis
    by (simp add: reconcile_fills_def py_iter_def py_len_def fill_count_findings_def scan_silent)
qed (simp add: reconcile_fills_def)

lemma file_silent: "file_findings ([], True) p w = (True, p, w)"
  by (simp add: file_findings_def)

definition snapshot_of :: "pydict \<Rightarrow> pydict \<Rightarrow> pydict \<Rightarrow> pyval list \<Rightarrow> int \<Rightarrow> bool" where
  "snapshot_of snap ps bs fs ts \<longleftrightarrow> dict_get snap ''positions'' (PDict []) = PDict ps \<and>
     dict_get snap ''balances'' (PDict []) = PDict bs \<and> dict_get snap ''fills'' (PList []) = PList fs \<and>
     dict_get snap ''snapshot_ts_ms'' (PInt 0) = PInt ts \<and>
     (\<exists>os. dict_get snap ''orders'' (PList []) = PList os)"

lemma fresh_silent:
  assumes "ts = 0 \<or> now - ts \<le> max_data_age_ms cfg"
  shows "freshness_findings cfg rt now (PInt ts) (PInt ts) = ([], True)"
proof -
  have "stale_findings cfg rt side base now (PInt ts) = ([], True)" for side base
    using assms by (auto simp: stale_findings_def py_sub_def int_like_def)
  then show ?thesis by (simp add: freshness_findings_def)
qed

lemma recon_stages_self:
  assumes "lawful_runtime rt" "sane_config cfg" "comparable rt ps bs fs" "snapshot_of snap ps bs fs ts"
    and "\<not> reconcile_orders cfg" "ts = 0 \<or> millis (clock w (ticks w)) - ts \<le> max_data_age_ms cfg"
    and "run_stages (recon_stages cfg rt snap snap) p w = (ok, p1, w1)"
  shows "ok" "p_discs p1 = p_discs p"
proof -
  obtain os where v: "dict_get snap ''positions'' (PDict []) = PDict ps"
      "dict_get snap ''balances'' (PDict []) = PDict bs" "dict_get snap ''fills'' (PList []) = PList fs"
      "dict_get snap ''snapshot_ts_ms'' (PInt 0) = PInt ts" "dict_get snap ''orders'' (PList []) = PList os"
    using assms(4) unfolding snapshot_of_def by blast
  note silent = fresh_silent[OF assms(6)] positions_self[OF assms(1-3)] balances_self[OF assms(2,3)]
    fills_self[OF assms(1-3)]
  have "ok \<and> p_discs p1 = p_discs p"
    using assms(7) assms(5)
    by (auto simp: recon_stages_def v freshness_stage_def now_ms_def silent file_silent observe_stage_def
        counted_def both_len_def py_len_def split: if_splits)
  then show "ok" "p_discs p1 = p_discs p" by simp_all
qed

lemma report_post_init_ticks:
  assumes "report_post_init (fresh_report paper remote) (w :: world) = (p0, w0)"
  shows "ticks w0 = Suc (ticks w)" "clock w0 = clock w"
  using assms by (auto simp: report_post_init_def fresh_report_def fresh_hex_def now_ms_def Let_def split: if_splits)

section \<open>Concrete cycles\<close>

definition demo_rt :: runtime where
  "demo_rt = \<lparr>rt_names = remdups, rt_ids = remdups, rt_str = (\<lambda>v. ''x'')\<rparr>"

definition demo_recon_config :: ReconciliationConfig where
  "demo_recon_config = \<lparr>price_tolerance_pct = Fin 0, qty_tolerance_pct = Fin 0,
     balance_tolerance_abs = Fin 1, max_data_age_ms = 60000, auto_freeze_on_critical = True,
     max_discrepancies_before_freeze = 5, enable_auto_correct = False, reconcile_orders = False\<rparr>"

definition demo_engine :: recon_engine where
  "demo_engine = recon_new (Some demo_recon_config) True True"

definition demo_position :: pyval where
  "demo_position = PDict [(''size'', PFloat (Fin 1)), (''side'', PStr ''Buy'')]"

definition demo_snap :: pydict where
  "demo_snap = [(''positions'', PDict [(''BTC'', demo_position)]), (''balances'', PDict [(''USDT'', PFloat (Fin 10))])]"

text \<open>A stale local snapshot together with a position only the exchange knows.\<close>

definition demo_mixed :: "ReconciliationReport option \<times> recon_engine \<times> world" where
  "demo_mixed = reconcile demo_rt [(''snapshot_ts_ms'', PInt 1000)]
     [(''positions'', PDict [(''BTC'', demo_position)])] demo_engine (sample_world 1000)"

definition demo_broken :: "ReconciliationReport option \<times> recon_engine \<times> world" where
  "demo_broken = reconcile demo_rt [(''positions'', PInt 7)] [] demo_engine (sample_world 1000)"

lemma demo_rt_lawful: "lawful_runtime demo_rt"
  by (simp add: lawful_runtime_def demo_rt_def)

lemmas recon_demo_eval = reconcile_def recon_body_def demo_engine_def recon_new_def
  recon_stages_def demo_recon_config_def demo_rt_def freshness_stage_def freshness_findings_def
  stale_findings_def fresh_report_def report_post_init_def sample_world_def sample_env_def
  env.defs fresh_hex_def now_ms_def sample_clock_def dict_get_def py_sub_def int_like_def
  disc_default_def file_findings_def observe_stage_def counted_def both_len_def py_len_def
  disc_post_init_def reconcile_positions_def as_dict_def position_findings_def
  remote_only_findings_def demo_position_def py_size_def reconcile_fills_def
  reconcile_balances_def determine_overall_result_def determine_actions_def execute_actions_def
  hand_incident_def emit_audit_def pad8_def nat_str.simps digit_def raised_def error_disc_def

lemma demo_mixed_grade:
  "map_option (\<lambda>p. (p_result p, map d_severity (p_discs p))) (fst demo_mixed) =
     Some (RR_MISMATCH_MINOR, [S_WARNING, S_FATAL])"
  by (simp add: demo_mixed_def recon_demo_eval Let_def)

lemma demo_broken_result: "map_option p_result (fst demo_broken) = Some RR_ERROR"
  by (simp add: demo_broken_def recon_demo_eval Let_def)

lemma some_triple:
  assumes "map_option f (fst t) = Some x"
  obtains p e w where "t = (Some p, e, w)" "f p = x"
  using assms by (cases t) auto

section \<open>Properties\<close>

text \<open>C37: The grade of a cycle that did not fail, exactly: MATCH without discrepancies, otherwise
  MISMATCH_MINOR as soon as one discrepancy is only a WARNING or INFO, and MISMATCH_MAJOR only
  when all are CRITICAL or FATAL. The severities are compared as texts, so a FATAL discrepancy
  next to a WARNING yields a report that calls itself consistent.\<close>

theorem recon_grade_exact:
  assumes "reconcile rt paper remote e w = (Some p, e', w')" "p_result p \<noteq> RR_ERROR"
  shows "p_result p =
      (if p_discs p = [] then RR_MATCH
       else if graded_as S_WARNING p \<or> graded_as S_INFO p then RR_MISMATCH_MINOR
       else RR_MISMATCH_MAJOR) \<and>
    (report_is_consistent p \<longleftrightarrow> p_discs p = [] \<or> graded_as S_WARNING p \<or> graded_as S_INFO p)"
proof -
  have "p_result p =
      (if p_discs p = [] then RR_MATCH
       else if graded_as S_WARNING p \<or> graded_as S_INFO p then RR_MISMATCH_MINOR
       else RR_MISMATCH_MAJOR)"
    using reconcile_graded(1)[OF assms] by (auto simp: overall_eq graded_as_def)
  then show ?thesis by (simp add: report_is_consistent_def)
qed

lemma recon_grade_exact_witness:
  "\<exists>p e' w'. demo_mixed = (Some p, e', w') \<and> graded_as S_FATAL p \<and> report_is_consistent p"
proof -
  obtain p e' w' where d: "demo_mixed = (Some p, e', w')"
    and f: "(p_result p, map d_severity (p_discs p)) = (RR_MISMATCH_MINOR, [S_WARNING, S_FATAL])"
    by (rule some_triple[OF demo_mixed_grade])
  have "p_result p \<noteq> RR_ERROR" "graded_as S_WARNING p" "graded_as S_FATAL p"
    using f by (auto simp: graded_as_def map_eq_Cons_conv)
  with recon_grade_exact[OF d[unfolded demo_mixed_def]] d show ?thesis by blast
qed

text \<open>The actions of a cycle that did not fail, exactly and in order: trading is frozen iff
  some discrepancy is FATAL, or one is CRITICAL and auto-freeze is on, or there are at least
  the configured number of them; manual review iff one is FATAL; an alert iff one is FATAL or
  CRITICAL; and nothing at all for a MATCH.\<close>

theorem recon_actions_exact:
  assumes "reconcile rt paper remote e w = (Some p, e', w')" "p_result p \<noteq> RR_ERROR"
  shows "p_actions p =
    (if p_discs p = [] then []
     else (if graded_as S_FATAL p \<or> graded_as S_CRITICAL p \<and> auto_freeze_on_critical (e_config e) \<or>
              max_discrepancies_before_freeze (e_config e) \<le> int (length (p_discs p))
             then [''FREEZE_TRADING''] else []) @
          (if graded_as S_FATAL p then [''MANUAL_REVIEW''] else []) @
          (if graded_as S_FATAL p \<or> graded_as S_CRITICAL p then [''ALERT''] else []))"
proof -
  have "p_result p = RR_MATCH \<longleftrightarrow> p_discs p = []"
    using reconcile_graded(1)[OF assms] by (simp add: overall_eq)
  then show ?thesis
    unfolding reconcile_graded(2)[OF assms] determine_actions_eq freezes_def by simp
qed

lemma recon_actions_exact_witness:
  "\<exists>p e' w'. demo_mixed = (Some p, e', w') \<and> p_actions p = [''FREEZE_TRADING'', ''MANUAL_REVIEW'', ''ALERT'']"
proof -
  obtain p e' w' where d: "demo_mixed = (Some p, e', w')"
    and f: "(p_result p, map d_severity (p_discs p)) = (RR_MISMATCH_MINOR, [S_WARNING, S_FATAL])"
    by (rule some_triple[OF demo_mixed_grade])
  have "p_result p \<noteq> RR_ERROR" "graded_as S_FATAL p" "p_discs p \<noteq> []"
    using f by (auto simp: graded_as_def map_eq_Cons_conv)
  with recon_actions_exact[OF d[unfolded demo_mixed_def]] d show ?thesis by auto
qed

text \<open>The escalation token of any report, exactly: none for a MATCH, FATAL as soon as one
  discrepancy is FATAL whatever the overall grade says, MISMATCH_MAJOR for a MAJOR grade or a
  CRITICAL discrepancy, MISMATCH_MINOR otherwise. Building the token never raises.\<close>

theorem recon_escalation_exact:
  "map_report_to_escalation other (report_to_dict p) =
     Some (if p_result p = RR_MATCH then None
           else Some (if graded_as S_FATAL p then ''FATAL''
                      else if p_result p = RR_MISMATCH_MAJOR \<or> graded_as S_CRITICAL p then ''MISMATCH_MAJOR''
                      else ''MISMATCH_MINOR''))"
  by (rule escalation_eq)

text \<open>C38: A cycle that fails is inert: its report is an ERROR whose last discrepancy is CRITICAL
  and recommends freezing, but no action is triggered, no incident is handed over and no
  incident is counted.\<close>

theorem recon_error_inert:
  assumes "reconcile rt paper remote e w = (Some p, e', w')" "p_result p = RR_ERROR"
  shows "p_actions p = [] \<and> incidents_out w' = incidents_out w \<and>
    e_total_incidents e' = e_total_incidents e \<and> \<not> report_is_consistent p \<and>
    (\<exists>ds d. p_discs p = ds @ [d] \<and> d_severity d = S_CRITICAL \<and> d_action d = IA_FREEZE_TRADING)"
  using reconcile_error[OF assms] assms(2) by (simp add: report_is_consistent_def)

lemma recon_error_inert_witness:
  "\<exists>p e' w'. demo_broken = (Some p, e', w') \<and> p_actions p = [] \<and> \<not> report_is_consistent p"
proof -
  obtain p e' w' where d: "demo_broken = (Some p, e', w')" and f: "p_result p = RR_ERROR"
    by (rule some_triple[OF demo_broken_result])
  with recon_error_inert[OF d[unfolded demo_broken_def] f] show ?thesis by blast
qed

text \<open>A position held on both sides raises no discrepancy exactly when both sizes are finite
  and not negative, the sides agree up to case (or both sizes are zero), and the sizes are
  within the relative tolerance.\<close>

theorem recon_position_agreement:
  assumes "truthy p = truthy r"
  shows "position_findings cfg rt k p r = ([], True) \<longleftrightarrow> positions_agree cfg p r"
  using assms by (simp add: position_findings_def both_findings_silent)

lemma recon_position_agreement_witness:
  "position_findings demo_recon_config demo_rt ''BTC'' demo_position demo_position = ([], True)"
proof -
  have "positions_agree demo_recon_config demo_position demo_position"
    using within_tolerance_self[of 0 1]
    by (simp add: positions_agree_def demo_position_def demo_recon_config_def py_size_def py_side_def
        dict_get_def)
  then show ?thesis using recon_position_agreement[of demo_position demo_position] by simp
qed

text \<open>A position on one side only: the local side is silent exactly for size zero, but the
  remote side is silent for every size that is not positive, so a position the exchange
  reports with a NaN or negative size and that is missing locally goes unnoticed.\<close>

theorem recon_one_sided_position:
  assumes "truthy v" "py_size v = Some x"
  shows "(position_findings cfg rt k v PNone = ([], True) \<longleftrightarrow> x = Fin 0) \<and>
    (position_findings cfg rt k PNone v = ([], True) \<longleftrightarrow> \<not> flt (Fin 0) x)"
  using assms
  by (cases x) (auto simp: position_findings_def local_only_findings_def remote_only_findings_def valid_size_fin)

lemma recon_one_sided_position_witness:
  "position_findings demo_recon_config demo_rt ''BTC'' PNone (PDict [(''size'', PFloat NaN)]) = ([], True) \<and>
   position_findings demo_recon_config demo_rt ''BTC'' (PDict [(''size'', PFloat NaN)]) PNone \<noteq> ([], True)"
proof -
  have "py_size (PDict [(''size'', PFloat NaN)]) = Some NaN" by (simp add: py_size_def dict_get_def)
  from recon_one_sided_position[OF _ this] show ?thesis by simp
qed

text \<open>The tolerance test is symmetric: which snapshot is local and which is remote never
  changes its answer, for any floats including NaN and the infinities.\<close>

theorem recon_tolerance_symmetric:
  "within_tolerance a b tol = within_tolerance b a tol"
  by (rule within_tolerance_commute)

text \<open>A fresh, well-formed snapshot reconciled with itself is a MATCH: no discrepancy, no
  action, no incident, whatever order the runtime iterates its sets in.\<close>

theorem recon_self_match:
  assumes "lawful_runtime rt" "sane_config (e_config e)" "\<not> reconcile_orders (e_config e)" "\<not> e_closed e"
    and "comparable rt ps bs fs" "snapshot_of snap ps bs fs ts"
    and "ts = 0 \<or> millis (clock w (Suc (ticks w))) - ts \<le> max_data_age_ms (e_config e)"
  shows "\<exists>p e' w'. reconcile rt snap snap e w = (Some p, e', w') \<and> p_result p = RR_MATCH \<and>
    p_discs p = [] \<and> p_actions p = [] \<and> incidents_out w' = incidents_out w"
proof -
  obtain p0 w0 where i: "report_post_init (fresh_report snap snap) w = (p0, w0)" by (meson surj_pair)
  obtain ok q v where r: "run_stages (recon_stages (e_config e) rt snap snap) p0 w0 = (ok, q, v)"
    by (metis prod_cases3)
  have "ts = 0 \<or> millis (clock w0 (ticks w0)) - ts \<le> max_data_age_ms (e_config e)"
    using assms(7) report_post_init_ticks[OF i] by simp
  note s = recon_stages_self[OF assms(1,2,5,6,3) this r]
  have discs: "p_discs q = []"
    using s(2) report_post_init_quiet(3)[OF i] by (simp add: fresh_report_def)
  have out: "incidents_out v = incidents_out w"
    using quiet_stageD[OF recon_stages_quiet r] report_post_init_quiet(4)[OF i]
    by (intro incidents_out_cong) simp
  have b: "recon_body rt snap snap e p0 w0 = (q\<lparr>p_result := RR_MATCH, p_actions := []\<rparr>, e, v)"
    using s(1) r discs
    by (simp add: recon_body_def determine_overall_result_def determine_actions_def execute_actions_def Let_def)
  obtain t v2 where n: "now_ms v = (t, v2)" by (meson surj_pair)
  have "incidents_out v2 = incidents_out v" using n by (auto simp: now_ms_def incidents_out_def)
  with i b n discs out assms(4) show ?thesis
    by (simp add: reconcile_def recon_audit_incidents Let_def)
qed

lemma recon_self_match_witness:
  "\<exists>p e' w'. reconcile demo_rt demo_snap demo_snap demo_engine (sample_world 5) = (Some p, e', w') \<and>
     p_result p = RR_MATCH"
proof -
  have "comparable demo_rt [(''BTC'', demo_position)] [(''USDT'', PFloat (Fin 10))] []"
    by (auto simp: comparable_def demo_position_def py_size_def py_side_def dict_get_def to_float_def py_float_def
        fl_round_def)
  moreover have "snapshot_of demo_snap [(''BTC'', demo_position)] [(''USDT'', PFloat (Fin 10))] [] 0"
    by (simp add: snapshot_of_def demo_snap_def dict_get_def)
  moreover have "sane_config (e_config demo_engine)" "\<not> reconcile_orders (e_config demo_engine)"
    "\<not> e_closed demo_engine"
    by (simp_all add: sane_config_def demo_engine_def recon_new_def demo_recon_config_def)
  ultimately show ?thesis
    using recon_self_match[OF demo_rt_lawful, of demo_engine _ _ "[]" demo_snap 0] by blast
qed

text \<open>Over any sequence of cycles of a new engine the history holds the last 1000 reports at
  most and all of them before that, the run counter counts them, and the discrepancy counter is
  the sum over the history until the first report is dropped and never less afterwards.\<close>

theorem recon_history_bounded:
  "history_ok (fst (cycles rt xs (recon_new cfg audit incident, w)))"
  by (rule cycles_history) (simp add: history_ok_new)

end
