(* ===== verification/Lease_IPC.thy ===== *)
theory Lease_IPC
  imports SM_Base Py_Coerce
begin

text \<open>
  The lease bridge to the Rust core: the message schema (\<open>app/lease_ipc_schema.py\<close>), the bridge
  calls with their dual-write mirror (\<open>app/governance_lease_bridge.py\<close>) and the comparator of
  the two implementations' answers (\<open>app/governance_divergence.py\<close>). What crosses the wire is a
  parameter: a transport maps a method, its parameters and the world to the raw answer, or to
  None for an outage or a timeout.
\<close>

section \<open>Shadow sentinels\<close>

definition SHADOW_BYPASS_PREFIX :: string where
  "SHADOW_BYPASS_PREFIX = ''SHADOW_BYPASS:''"

definition make_shadow_bypass_lease_id :: "string \<Rightarrow> string" where
  "make_shadow_bypass_lease_id intent = SHADOW_BYPASS_PREFIX @ intent"

definition is_shadow_bypass_lease_id :: "string \<Rightarrow> bool" where
  "is_shadow_bypass_lease_id lid \<longleftrightarrow> prefix SHADOW_BYPASS_PREFIX lid"

text \<open>A provider that raises (None) does not short-circuit.\<close>

definition shadow_short_circuit_acquire :: "string \<Rightarrow> (world \<Rightarrow> bool option) option \<Rightarrow> world \<Rightarrow> string option" where
  "shadow_short_circuit_acquire intent provider w =
     (case provider of
        None \<Rightarrow> None
      | Some p \<Rightarrow> (if p w = Some True then Some (make_shadow_bypass_lease_id intent) else None))"

section \<open>Requests\<close>

definition METHOD_ACQUIRE_LEASE :: string where "METHOD_ACQUIRE_LEASE = ''governance.acquire_lease''"
definition METHOD_RELEASE_LEASE :: string where "METHOD_RELEASE_LEASE = ''governance.release_lease''"
definition METHOD_GET_LEASE :: string where "METHOD_GET_LEASE = ''governance.get_lease''"
definition METHOD_IS_AUTHORIZED :: string where "METHOD_IS_AUTHORIZED = ''governance.is_authorized''"

text \<open>The exceptions of the builders; the bridge catches the first two only.\<close>

datatype build_error = Build_TypeError | Build_ValueError | Build_OverflowError

definition ttl_positive :: "pyval \<Rightarrow> bool" where
  "ttl_positive v = (case v of PInt i \<Rightarrow> 0 < i | PBool b \<Rightarrow> b | PFloat x \<Rightarrow> \<not> fle x (Fin 0) | _ \<Rightarrow> False)"

text \<open>\<open>int(ttl_seconds * 1000)\<close>\<close>

definition ttl_millis :: "pyval \<Rightarrow> build_error + int" where
  "ttl_millis v =
     (case v of
        PInt i \<Rightarrow> Inr (i * 1000)
      | PBool b \<Rightarrow> Inr (if b then 1000 else 0)
      | PFloat x \<Rightarrow>
          (case py_int (fmul x (Fin 1000)) of
             Inr i \<Rightarrow> Inr i
           | Inl ConvInvalid \<Rightarrow> Inl Build_ValueError
           | Inl ConvOverflow \<Rightarrow> Inl Build_OverflowError)
      | _ \<Rightarrow> Inl Build_TypeError)"

definition build_acquire_request_params ::
  "string \<Rightarrow> string \<Rightarrow> pyval \<Rightarrow> string \<Rightarrow> string \<Rightarrow> build_error + pydict" where
  "build_acquire_request_params intent scope ttl profile source_stage =
     (if intent = [] \<or> scope = [] \<or> \<not> ttl_positive ttl \<or>
         profile \<notin> {''Production'', ''Validation'', ''Exploration''} then Inl Build_TypeError
      else
        (case ttl_millis ttl of
           Inl e \<Rightarrow> Inl e
         | Inr ms \<Rightarrow>
             Inr [(''intent_id'', PStr intent), (''scope'', PStr scope), (''ttl_ms'', PInt ms),
                  (''profile'', PStr profile), (''source_stage'', PStr source_stage)]))"

definition build_release_request_params :: "string \<Rightarrow> string \<Rightarrow> build_error + pydict" where
  "build_release_request_params lid outcome =
     (if lid = [] then Inl Build_TypeError
      else if is_shadow_bypass_lease_id lid then Inl Build_ValueError
      else if outcome \<notin> {''Consumed'', ''Failed'', ''Cancelled''} then Inl Build_TypeError
      else Inr [(''lease_id'', PStr lid), (''outcome'', PStr outcome)])"

definition build_get_request_params :: "string \<Rightarrow> build_error + pydict" where
  "build_get_request_params lid =
     (if lid = [] then Inl Build_TypeError
      else if is_shadow_bypass_lease_id lid then Inl Build_ValueError
      else Inr [(''lease_id'', PStr lid)])"

section \<open>Responses\<close>

text \<open>An answer may come wrapped as \<open>{"result": {...}}\<close>; the wrapper is opened when the inner
  dictionary passes the parser's test.\<close>

definition unwrap_result :: "(pydict \<Rightarrow> bool) \<Rightarrow> pydict \<Rightarrow> pydict" where
  "unwrap_result test d =
     (case map_of d ''result'' of
        Some (PDict inner) \<Rightarrow> if test inner then inner else d
      | _ \<Rightarrow> d)"

definition has_key :: "string \<Rightarrow> pydict \<Rightarrow> bool" where
  "has_key k d \<longleftrightarrow> map_of d k \<noteq> None"

definition parse_acquire_response :: "pyval \<Rightarrow> string option \<times> string" where
  "parse_acquire_response raw =
     (case raw of
        PDict d \<Rightarrow>
          (let payload = unwrap_result (has_key ''lease_id'') d in
           (case dict_get payload ''lease_id'' PNone of
              PStr lid \<Rightarrow>
                (if lid = [] then (None, [])
                 else (Some lid, case dict_get payload ''outcome'' (PStr []) of PStr s \<Rightarrow> s | _ \<Rightarrow> []))
            | _ \<Rightarrow> (None, [])))
      | _ \<Rightarrow> (None, []))"

definition parse_release_response :: "pyval \<Rightarrow> bool" where
  "parse_release_response raw =
     (case raw of
        PDict d \<Rightarrow> dict_get (unwrap_result (has_key ''ok'') d) ''ok'' PNone = PBool True
      | _ \<Rightarrow> False)"

definition parse_get_response :: "pyval \<Rightarrow> pydict option" where
  "parse_get_response raw =
     (case raw of
        PDict d \<Rightarrow>
          (let payload = unwrap_result (\<lambda>_. True) d
           in if payload = [] \<or> \<not> has_key ''lease_id'' payload then None else Some payload)
      | _ \<Rightarrow> None)"

definition parse_is_authorized_response :: "pyval \<Rightarrow> bool option" where
  "parse_is_authorized_response raw =
     (case raw of
        PDict d \<Rightarrow> as_bool (dict_get (unwrap_result (has_key ''authorized'') d) ''authorized'' PNone)
      | _ \<Rightarrow> None)"

text \<open>The status parser checks and copies the required keys, in order; any misfit is None.\<close>

definition status_bool :: "pyval \<Rightarrow> bool" where
  "status_bool v = (case v of PBool _ \<Rightarrow> True | _ \<Rightarrow> False)"

definition status_text :: "pyval \<Rightarrow> bool" where
  "status_text v = (case v of PStr s \<Rightarrow> s \<noteq> [] | _ \<Rightarrow> False)"

definition status_count :: "pyval \<Rightarrow> bool" where
  "status_count v = (case v of PInt i \<Rightarrow> 0 \<le> i | _ \<Rightarrow> False)"

definition status_keys :: "(string \<times> (pyval \<Rightarrow> bool)) list" where
  "status_keys =
     [(''enabled'', status_bool), (''mode'', status_text), (''risk_level'', status_text),
      (''auth_effective_count'', status_count), (''auth_pending_approval'', status_count),
      (''lease_live_count'', status_count), (''oms_active_count'', status_count)]"

fun checked_copy :: "(string \<times> (pyval \<Rightarrow> bool)) list \<Rightarrow> pydict \<Rightarrow> pydict option" where
  "checked_copy [] d = Some []"
| "checked_copy ((k, ok) # ks) d =
     (let v = dict_get d k PNone in
      if ok v then map_option (\<lambda>out. (k, v) # out) (checked_copy ks d) else None)"

definition parse_get_status_response :: "pyval \<Rightarrow> pydict option" where
  "parse_get_status_response raw =
     (case raw of PDict d \<Rightarrow> checked_copy status_keys (unwrap_result (has_key ''enabled'') d) | _ \<Rightarrow> None)"

section \<open>The dual-write mirror\<close>

record mirror_entry =
  me_intent_id :: string
  me_scope :: string
  me_ttl_seconds :: pyval
  me_source :: string
  me_acquired_at :: rat
  me_released_at :: "rat option"
  me_release_outcome :: "string option"

type_synonym mirror = "(string \<times> mirror_entry) list"

definition record_dual_write_acquire ::
  "string \<Rightarrow> string \<Rightarrow> string \<Rightarrow> pyval \<Rightarrow> string \<Rightarrow> mirror \<Rightarrow> world \<Rightarrow> mirror \<times> world" where
  "record_dual_write_acquire lid intent scope ttl source m w =
     (if is_shadow_bypass_lease_id lid then (m, w)
      else
        (let (t, w1) = read_clock w
         in (AList.update lid \<lparr>me_intent_id = intent, me_scope = scope, me_ttl_seconds = ttl,
               me_source = source, me_acquired_at = secs t, me_released_at = None,
               me_release_outcome = None\<rparr> m, w1)))"

definition record_dual_write_release :: "string \<Rightarrow> string \<Rightarrow> mirror \<Rightarrow> world \<Rightarrow> mirror \<times> world" where
  "record_dual_write_release lid outcome m w =
     (if is_shadow_bypass_lease_id lid then (m, w)
      else
        (case map_of m lid of
           None \<Rightarrow> (m, w)
         | Some entry \<Rightarrow>
             (let (t, w1) = read_clock w
              in (AList.update lid (entry\<lparr>me_released_at := Some (secs t),
                    me_release_outcome := Some outcome\<rparr>) m, w1))))"

section \<open>Bridge calls\<close>

type_synonym transport = "string \<Rightarrow> pydict \<Rightarrow> world \<Rightarrow> pyval option"

text \<open>
  \<open>Inl Build_OverflowError\<close> is the one exception the call lets out.
\<close>

definition acquire_lease_via_ipc ::
  "transport \<Rightarrow> string \<Rightarrow> string \<Rightarrow> pyval \<Rightarrow> string \<Rightarrow> string \<Rightarrow> mirror \<Rightarrow> world \<Rightarrow>
   (build_error + string option) \<times> mirror \<times> world" where
  "acquire_lease_via_ipc send intent scope ttl profile source_stage m w =
     (case build_acquire_request_params intent scope ttl profile source_stage of
        Inl Build_OverflowError \<Rightarrow> (Inl Build_OverflowError, m, w)
      | Inl _ \<Rightarrow> (Inr None, m, w)
      | Inr params \<Rightarrow>
          (case send METHOD_ACQUIRE_LEASE params w of
             None \<Rightarrow> (Inr None, m, w)
           | Some raw \<Rightarrow>
               (case parse_acquire_response raw of
                  (None, _) \<Rightarrow> (Inr None, m, w)
                | (Some lid, outcome) \<Rightarrow>
                    (if outcome \<notin> {''Active'', ''Bypass''} then (Inr None, m, w)
                     else
                       (let (m1, w1) = record_dual_write_acquire lid intent scope ttl ''rs'' m w
                        in (Inr (Some lid), m1, w1))))))"

definition release_lease_via_ipc ::
  "transport \<Rightarrow> string \<Rightarrow> bool \<Rightarrow> mirror \<Rightarrow> world \<Rightarrow> bool \<times> mirror \<times> world" where
  "release_lease_via_ipc send lid consumed m w =
     (if is_shadow_bypass_lease_id lid then (True, m, w)
      else
        (let outcome = (if consumed then ''Consumed'' else ''Failed'') in
         (case build_release_request_params lid outcome of
            Inl _ \<Rightarrow> (False, m, w)
          | Inr params \<Rightarrow>
              (let ok = (case send METHOD_RELEASE_LEASE params w of
                           None \<Rightarrow> False | Some raw \<Rightarrow> parse_release_response raw)
               in if ok then (let (m1, w1) = record_dual_write_release lid outcome m w in (True, m1, w1))
                  else (False, m, w)))))"

definition get_lease_via_ipc :: "transport \<Rightarrow> string \<Rightarrow> world \<Rightarrow> pydict option" where
  "get_lease_via_ipc send lid w =
     (if is_shadow_bypass_lease_id lid then None
      else
        (case build_get_request_params lid of
           Inl _ \<Rightarrow> None
         | Inr params \<Rightarrow> Option.bind (send METHOD_GET_LEASE params w) parse_get_response))"

definition is_authorized_via_ipc :: "transport \<Rightarrow> world \<Rightarrow> bool option" where
  "is_authorized_via_ipc send w = Option.bind (send METHOD_IS_AUTHORIZED [] w) parse_is_authorized_response"

section \<open>The comparator\<close>

definition OUTCOME_GRANTED :: string where "OUTCOME_GRANTED = ''granted''"
definition OUTCOME_DENIED :: string where "OUTCOME_DENIED = ''denied''"
definition OUTCOME_BYPASS :: string where "OUTCOME_BYPASS = ''bypass''"
definition OUTCOME_UNKNOWN :: string where "OUTCOME_UNKNOWN = ''unknown''"

text \<open>What a caller hands over, and the entry kept of it.\<close>

record comparison =
  cp_op :: string
  cp_intent_id :: "string option"
  cp_scope :: "string option"
  cp_profile :: "string option"
  cp_lease_id :: "string option"
  cp_rust :: string
  cp_python :: string
  cp_fields :: "string list option"

record div_entry =
  de_ts :: rat
  de_call :: comparison
  de_match :: bool
  de_no_opinion :: bool
  de_differing :: "string list"

record divergence_log =
  dv_ring :: "div_entry list"
  dv_total :: nat
  dv_matches :: nat
  dv_divergences :: nat

definition ring_cap :: nat where
  "ring_cap = 2048"

definition divergence_reset :: divergence_log where
  "divergence_reset = \<lparr>dv_ring = [], dv_total = 0, dv_matches = 0, dv_divergences = 0\<rparr>"

definition no_opinion :: "comparison \<Rightarrow> bool" where
  "no_opinion c \<longleftrightarrow> cp_rust c = OUTCOME_UNKNOWN \<or> cp_python c = OUTCOME_UNKNOWN"

definition record_divergence :: "comparison \<Rightarrow> divergence_log \<Rightarrow> world \<Rightarrow> bool \<times> divergence_log \<times> world" where
  "record_divergence c d w =
     (let matched = (no_opinion c \<or> cp_rust c = cp_python c);
          differing = (case cp_fields c of Some fs \<Rightarrow> fs | None \<Rightarrow> if matched then [] else [''outcome'']);
          (t, w1) = read_clock w;
          ring = dv_ring d @ [\<lparr>de_ts = secs t, de_call = c, de_match = matched,
                   de_no_opinion = no_opinion c, de_differing = differing\<rparr>]
      in (matched,
          \<lparr>dv_ring = (if ring_cap < length ring then drop (length ring - ring_cap) ring else ring),
           dv_total = Suc (dv_total d),
           dv_matches = (if matched then Suc (dv_matches d) else dv_matches d),
           dv_divergences = (if matched then dv_divergences d else Suc (dv_divergences d))\<rparr>, w1))"

definition get_divergence_snapshot :: "int option \<Rightarrow> divergence_log \<Rightarrow> div_entry list" where
  "get_divergence_snapshot limit d = (case limit of None \<Rightarrow> dv_ring d | Some n \<Rightarrow> last_n n (dv_ring d))"

definition get_mismatch_snapshot :: "int option \<Rightarrow> divergence_log \<Rightarrow> div_entry list" where
  "get_mismatch_snapshot limit d =
     (let rows = filter (\<lambda>e. \<not> de_match e) (dv_ring d)
      in case limit of None \<Rightarrow> rows | Some n \<Rightarrow> last_n n rows)"

definition compare_all :: "comparison list \<Rightarrow> divergence_log \<Rightarrow> world \<Rightarrow> divergence_log \<times> world" where
  "compare_all cs d w = fold (\<lambda>c (d, w). snd (record_divergence c d w)) cs (d, w)"

section \<open>Facts\<close>

definition disagrees :: "comparison \<Rightarrow> bool" where
  "disagrees c \<longleftrightarrow> OUTCOME_UNKNOWN \<notin> {cp_rust c, cp_python c} \<and> cp_rust c \<noteq> cp_python c"

lemma compare_all_snoc:
  "compare_all (cs @ [c]) d w = (case compare_all cs d w of (d1, w1) \<Rightarrow> snd (record_divergence c d1 w1))"
  by (simp add: compare_all_def)

lemma record_divergence_step:
  assumes "record_divergence c d w = (m, d', w')"
  shows "m \<longleftrightarrow> \<not> disagrees c" "dv_total d' = Suc (dv_total d)"
    "dv_matches d' + dv_divergences d' = Suc (dv_matches d + dv_divergences d)"
    "dv_divergences d' = dv_divergences d + (if disagrees c then 1 else 0)"
    "map de_call (dv_ring d') =
       drop (length (map de_call (dv_ring d) @ [c]) - ring_cap) (map de_call (dv_ring d) @ [c])"
    "\<forall>e \<in> set (dv_ring d). de_match e \<longleftrightarrow> \<not> disagrees (de_call e) \<Longrightarrow>
     \<forall>e \<in> set (dv_ring d'). de_match e \<longleftrightarrow> \<not> disagrees (de_call e)"
proof -
  obtain t w1 where t: "read_clock w = (t, w1)" by fastforce
  have m: "no_opinion c \<or> cp_rust c = cp_python c \<longleftrightarrow> \<not> disagrees c"
    by (auto simp: no_opinion_def disagrees_def)
  note d = assms[unfolded record_divergence_def Let_def m t prod.case trim_eq]
  show "m \<longleftrightarrow> \<not> disagrees c" "dv_total d' = Suc (dv_total d)"
    "dv_matches d' + dv_divergences d' = Suc (dv_matches d + dv_divergences d)"
    "dv_divergences d' = dv_divergences d + (if disagrees c then 1 else 0)"
    using d by auto
  define x where "x = \<lparr>de_ts = secs t, de_call = c, de_match = (\<not> disagrees c),
      de_no_opinion = no_opinion c,
      de_differing = (case cp_fields c of Some fs \<Rightarrow> fs | None \<Rightarrow> if \<not> disagrees c then [] else [''outcome''])\<rparr>"
  have x: "de_call x = c" "de_match x = (\<not> disagrees c)" by (simp_all add: x_def)
  have ring: "dv_ring d' = drop (length (dv_ring d @ [x]) - ring_cap) (dv_ring d @ [x])"
    using d[folded x_def] by (auto simp del: drop_append)
  show "map de_call (dv_ring d') =
       drop (length (map de_call (dv_ring d) @ [c]) - ring_cap) (map de_call (dv_ring d) @ [c])"
    unfolding ring by (simp add: x flip: drop_map del: drop_append)
  show "\<forall>e \<in> set (dv_ring d'). de_match e \<longleftrightarrow> \<not> disagrees (de_call e)"
    if "\<forall>e \<in> set (dv_ring d). de_match e \<longleftrightarrow> \<not> disagrees (de_call e)"
  proof
    fix e assume "e \<in> set (dv_ring d')"
    then have "e \<in> set (dv_ring d @ [x])" unfolding ring by (rule in_set_dropD)
    with that x show "de_match e \<longleftrightarrow> \<not> disagrees (de_call e)" by auto
  qed
qed

lemma compare_all_facts:
  assumes "compare_all cs divergence_reset w = (d, w')"
  shows "dv_total d = length cs \<and> dv_divergences d = length (filter disagrees cs) \<and>
    dv_matches d + dv_divergences d = dv_total d \<and>
    map de_call (dv_ring d) = drop (length cs - ring_cap) cs \<and>
    (\<forall>e \<in> set (dv_ring d). de_match e \<longleftrightarrow> \<not> disagrees (de_call e))"
  using assms
proof (induction cs arbitrary: d w' rule: rev_induct)
  case Nil
  then show ?case by (auto simp: compare_all_def divergence_reset_def)
next
  case (snoc c cs)
  obtain d1 w1 where 1: "compare_all cs divergence_reset w = (d1, w1)" by fastforce
  obtain m d2 w2 where r: "record_divergence c d1 w1 = (m, d2, w2)" by (metis prod_cases3)
  have d: "d = d2" using snoc.prems 1 r by (simp add: compare_all_snoc)
  note IH = snoc.IH[OF 1] and s = record_divergence_step[OF r]
  have "map de_call (dv_ring d2) = drop (length (cs @ [c]) - ring_cap) (cs @ [c])"
    using s(5) IH drop_drop_last[of cs ring_cap c] by simp
  then show ?case using IH s unfolding d by simp
qed

lemma unwrap_plain: "map_of d ''result'' = None \<Longrightarrow> unwrap_result t d = d"
  by (simp add: unwrap_result_def)

lemma checked_copy_keys: "checked_copy ks d = Some out \<Longrightarrow> map fst out = map fst ks"
  by (induction ks arbitrary: out) (auto simp: Let_def split: if_splits)

lemma checked_copy_get:
  "checked_copy ks d = Some out \<Longrightarrow> (k, v) \<in> set out \<Longrightarrow> dict_get d k PNone = v"
  by (induction ks arbitrary: out) (auto simp: Let_def split: if_splits)

lemma checked_copy_again:
  assumes "checked_copy ks d = Some out" "distinct (map fst ks)" "\<And>k v. (k, v) \<in> set out \<Longrightarrow> dict_get e k PNone = v"
  shows "checked_copy ks e = Some out"
  using assms
proof (induction ks arbitrary: out)
  case (Cons p ks)
  obtain k ok where p: "p = (k, ok)" by fastforce
  from Cons.prems(1) obtain out1 where o: "checked_copy ks d = Some out1" "out = (k, dict_get d k PNone) # out1"
    "ok (dict_get d k PNone)" by (auto simp: p Let_def split: if_splits)
  have "checked_copy ks e = Some out1" by (rule Cons.IH[OF o(1)]) (use Cons.prems(2,3) o in auto)
  moreover have "dict_get e k PNone = dict_get d k PNone" using Cons.prems(3) o by auto
  ultimately show ?case using o by (simp add: p)
qed simp

section \<open>Properties\<close>

text \<open>The comparator's counters are exact, whatever is compared and however often the ring
  has been trimmed: the total is the number of comparisons, the divergences are exactly those
  where both sides have an opinion and the opinions differ, everything else is a match, and
  the ring holds the last 2048 comparisons, each flagged as it should be.\<close>

theorem divergence_counters_exact:
  "case compare_all cs divergence_reset w of (d, w') \<Rightarrow>
     dv_total d = length cs \<and> dv_divergences d = length (filter disagrees cs) \<and>
     dv_matches d + dv_divergences d = dv_total d \<and>
     map de_call (dv_ring d) = drop (length cs - 2048) cs \<and>
     list_all (\<lambda>e. de_match e = (\<not> disagrees (de_call e))) (dv_ring d)"
proof -
  obtain d w' where c: "compare_all cs divergence_reset w = (d, w')" by fastforce
  from compare_all_facts[OF c] show ?thesis unfolding c by (simp add: ring_cap_def list_all_iff)
qed

text \<open>Acquiring over the bridge, exactly: with arguments the schema accepts (a time to live
  that is an exact number of milliseconds) and an answer that names a lease with outcome Active
  or Bypass, the call returns that lease and mirrors it (a shadow sentinel is not mirrored); in
  every other case it returns nothing and mirrors nothing.\<close>

theorem ipc_acquire_exact:
  assumes "intent \<noteq> []" "scope \<noteq> []" "ttl_positive ttl" "ttl_millis ttl = Inr ms"
    and "acquire_lease_via_ipc send intent scope ttl ''Production'' stage m w = (res, m', w')"
  shows "res = Inr (case send METHOD_ACQUIRE_LEASE
        [(''intent_id'', PStr intent), (''scope'', PStr scope), (''ttl_ms'', PInt ms),
         (''profile'', PStr ''Production''), (''source_stage'', PStr stage)] w of
       None \<Rightarrow> None
     | Some raw \<Rightarrow> (if snd (parse_acquire_response raw) \<in> {''Active'', ''Bypass''}
                    then fst (parse_acquire_response raw) else None)) \<and>
    (\<forall>j. map_of m' j \<noteq> map_of m j \<longrightarrow> res = Inr (Some j) \<and> \<not> is_shadow_bypass_lease_id j)"
proof -
  let ?params = "[(''intent_id'', PStr intent), (''scope'', PStr scope), (''ttl_ms'', PInt ms),
         (''profile'', PStr ''Production''), (''source_stage'', PStr stage)]"
  have b: "build_acquire_request_params intent scope ttl ''Production'' stage = Inr ?params"
    using assms(1-4) by (simp add: build_acquire_request_params_def)
  show ?thesis
  proof (cases "send METHOD_ACQUIRE_LEASE ?params w")
    case None
    then show ?thesis using assms(5) b by (simp add: acquire_lease_via_ipc_def)
  next
    case raw: (Some raw)
    obtain lid outcome where p: "parse_acquire_response raw = (lid, outcome)" by fastforce
    show ?thesis
    proof (cases lid)
      case None
      then show ?thesis using assms(5) b raw p by (simp add: acquire_lease_via_ipc_def)
    next
      case (Some l)
      then show ?thesis
        using assms(5) b raw p
        by (auto simp: acquire_lease_via_ipc_def record_dual_write_acquire_def pd.get_put read_clock_def
            split: if_splits)
    qed
  qed
qed

definition demo_transport :: transport where
  "demo_transport meth params w =
     Some (PDict [(''lease_id'', PStr ''rust:1''), (''outcome'', PStr ''Active''), (''ok'', PBool True),
       (''authorized'', PBool True)])"

lemma ipc_acquire_exact_witness:
  "fst (acquire_lease_via_ipc demo_transport ''i1'' ''TRADE_ENTRY'' (PFloat (Fin 30)) ''Production'' ''s'' [] (sample_world 9)) =
     Inr (Some ''rust:1'')"
proof -
  have "fl_round (of_int 30000) = Fin (of_int 30000)" by (rule fl_round_of_int) simp
  then have ms: "ttl_positive (PFloat (Fin 30))" "ttl_millis (PFloat (Fin 30)) = Inr 30000"
    by (simp_all add: ttl_positive_def ttl_millis_def py_int_def)
  obtain res m' w' where a: "acquire_lease_via_ipc demo_transport ''i1'' ''TRADE_ENTRY'' (PFloat (Fin 30))
     ''Production'' ''s'' [] (sample_world 9) = (res, m', w')" by (metis prod_cases3)
  from ipc_acquire_exact[OF _ _ ms a] have "res = Inr (Some ''rust:1'')"
    by (simp add: demo_transport_def parse_acquire_response_def unwrap_result_def dict_get_def)
  with a show ?thesis by simp
qed

text \<open>An infinite time to live is the one argument the bridge does not turn into a refusal:
  the builder's \<open>int(...)\<close> raises OverflowError, which the bridge does not catch, so the acquire
  call raises instead of failing closed.\<close>

theorem ipc_infinite_ttl_raises:
  assumes "intent \<noteq> []" "scope \<noteq> []"
  shows "acquire_lease_via_ipc send intent scope (PFloat PosInf) ''Production'' stage m w =
    (Inl Build_OverflowError, m, w)"
  using assms
  by (simp add: acquire_lease_via_ipc_def build_acquire_request_params_def ttl_positive_def ttl_millis_def
      py_int_def finf_def is_nan_def)

lemma ipc_infinite_ttl_raises_witness:
  "fst (acquire_lease_via_ipc demo_transport ''i1'' ''TRADE_ENTRY'' (PFloat PosInf) ''Production'' ''s'' [] (sample_world 9)) =
     Inl Build_OverflowError"
  using ipc_infinite_ttl_raises[of "''i1''" "''TRADE_ENTRY''" demo_transport "''s''" "[]" "sample_world 9"] by simp

lemma status_kinds:
  "status_bool v \<Longrightarrow> \<exists>b. v = PBool b" "status_text v \<Longrightarrow> \<exists>s. s \<noteq> [] \<and> v = PStr s"
  "status_count v \<Longrightarrow> \<exists>n. 0 \<le> n \<and> v = PInt n"
  by (cases v; simp add: status_bool_def status_text_def status_count_def)+

lemma checked_copy_status:
  assumes "checked_copy status_keys d = Some out"
  shows "\<exists>e mo rl a p l m. out = [(''enabled'', PBool e), (''mode'', PStr mo), (''risk_level'', PStr rl),
      (''auth_effective_count'', PInt a), (''auth_pending_approval'', PInt p),
      (''lease_live_count'', PInt l), (''oms_active_count'', PInt m)] \<and>
    mo \<noteq> [] \<and> rl \<noteq> [] \<and> 0 \<le> a \<and> 0 \<le> p \<and> 0 \<le> l \<and> 0 \<le> m"
  using assms
  by (auto simp: status_keys_def Let_def split: if_splits option.splits dest!: status_kinds)

text \<open>C40: A status answer is accepted in one shape only: exactly the seven entries, in the schema's
  order, a boolean, two texts that are not empty and four counts that are not negative; and
  parsing an accepted answer gives it back unchanged, whatever extra keys or wrapper the
  original had.\<close>

theorem ipc_status_idempotent:
  assumes "parse_get_status_response raw = Some out"
  shows "parse_get_status_response (PDict out) = Some out \<and>
    (\<exists>e mo rl a p l m. out = [(''enabled'', PBool e), (''mode'', PStr mo), (''risk_level'', PStr rl),
      (''auth_effective_count'', PInt a), (''auth_pending_approval'', PInt p),
      (''lease_live_count'', PInt l), (''oms_active_count'', PInt m)] \<and>
    mo \<noteq> [] \<and> rl \<noteq> [] \<and> 0 \<le> a \<and> 0 \<le> p \<and> 0 \<le> l \<and> 0 \<le> m)"
proof -
  obtain d where d: "checked_copy status_keys d = Some out"
    using assms by (auto simp: parse_get_status_response_def split: pyval.splits)
  have k: "map fst out = map fst status_keys" using checked_copy_keys[OF d] .
  then have "fst ` set out = set (map fst status_keys)" by (metis set_map)
  then have u: "map_of out ''result'' = None" by (simp add: map_of_eq_None_iff status_keys_def)
  have dis: "distinct (map fst status_keys)" by (simp add: status_keys_def)
  have "dict_get out k' PNone = v" if "(k', v) \<in> set out" for k' v
  proof -
    have "map_of out k' = Some v" using in_map_of[of out k' v] that dis unfolding k by blast
    then show ?thesis by (simp add: dict_get_def)
  qed
  then show ?thesis
    using checked_copy_again[OF d dis] u checked_copy_status[OF d]
    by (simp add: parse_get_status_response_def unwrap_plain)
qed

definition demo_status :: pydict where
  "demo_status =
     [(''enabled'', PBool True), (''mode'', PStr ''Normal''), (''risk_level'', PStr ''Normal''),
      (''auth_effective_count'', PInt 1), (''auth_pending_approval'', PInt 0),
      (''lease_live_count'', PInt 2), (''oms_active_count'', PInt 0)]"

lemma ipc_status_idempotent_witness: "parse_get_status_response (PDict demo_status) = Some demo_status"
proof (rule conjunct1[OF ipc_status_idempotent])
  show "parse_get_status_response (PDict [(''result'', PDict ((''extra'', PNone) # demo_status))]) = Some demo_status"
    by (simp add: parse_get_status_response_def unwrap_result_def has_key_def demo_status_def status_keys_def
        dict_get_def status_bool_def status_text_def status_count_def Let_def)
qed

text \<open>The mirror never holds a shadow sentinel, and a release only closes an entry that an
  acquire has opened: the set of mirrored leases grows by acquires alone.\<close>

theorem mirror_keys:
  "case record_dual_write_acquire lid intent scope ttl source m w of (m1, w1) \<Rightarrow>
     case record_dual_write_release i outcome m1 w1 of (m2, w2) \<Rightarrow>
       dom (map_of m2) = (if is_shadow_bypass_lease_id lid then dom (map_of m) else insert lid (dom (map_of m))) \<and>
       map_of m2 i = (if is_shadow_bypass_lease_id i then map_of m1 i
         else map_option (\<lambda>e. e\<lparr>me_released_at := Some (secs (clock w1 (ticks w1))),
                me_release_outcome := Some outcome\<rparr>) (map_of m1 i))"
  by (auto simp: record_dual_write_acquire_def record_dual_write_release_def read_clock_def pd.get_put
      split: option.splits if_splits)

end
