(* ===== verification/Learning_Gate.thy ===== *)
theory Learning_Gate
  imports SM_Base Py_Float
begin

text \<open>
  The learning tier gate (\<open>app/learning_tier_gate.py\<close>): the analyst's maturity level L1 to L5,
  what each level may do, the criteria of every promotion, the promotion itself with its audit
  record, and export and import. The audit callback is taken to return: this gate does not
  catch what it raises.
\<close>

section \<open>Tiers and what they may do\<close>

datatype LearningTier = LT_L1 | LT_L2 | LT_L3 | LT_L4 | LT_L5

fun tier_value :: "LearningTier \<Rightarrow> int" where
  "tier_value LT_L1 = 1"
| "tier_value LT_L2 = 2"
| "tier_value LT_L3 = 3"
| "tier_value LT_L4 = 4"
| "tier_value LT_L5 = 5"

fun tier_name :: "LearningTier \<Rightarrow> string" where
  "tier_name LT_L1 = ''L1''"
| "tier_name LT_L2 = ''L2''"
| "tier_name LT_L3 = ''L3''"
| "tier_name LT_L4 = ''L4''"
| "tier_name LT_L5 = ''L5''"

instantiation LearningTier :: linorder
begin

definition less_eq_LearningTier :: "LearningTier \<Rightarrow> LearningTier \<Rightarrow> bool" where
  "less_eq_LearningTier a b \<longleftrightarrow> tier_value a \<le> tier_value b"

definition less_LearningTier :: "LearningTier \<Rightarrow> LearningTier \<Rightarrow> bool" where
  "less_LearningTier a b \<longleftrightarrow> tier_value a < tier_value b"

instance
proof
  fix a b c :: LearningTier
  show "(a < b) = (a \<le> b \<and> \<not> b \<le> a)"
    by (auto simp: less_eq_LearningTier_def less_LearningTier_def)
  show "a \<le> a" by (simp add: less_eq_LearningTier_def)
  show "a \<le> c" if "a \<le> b" "b \<le> c" using that by (simp add: less_eq_LearningTier_def)
  show "a = b" if "a \<le> b" "b \<le> a"
    using that by (cases a; cases b) (simp_all add: less_eq_LearningTier_def)
  show "a \<le> b \<or> b \<le> a" by (auto simp: less_eq_LearningTier_def)
qed

end

lemmas tier_order = less_eq_LearningTier_def less_LearningTier_def

definition tiers :: "LearningTier list" where
  "tiers = [LT_L1, LT_L2, LT_L3, LT_L4, LT_L5]"

definition tier_of :: "string \<Rightarrow> LearningTier option" where
  "tier_of s = find (\<lambda>t. tier_name t = s) tiers"

datatype PromotionEvent = AUTO_PROMOTE_L1_TO_L2 | AUTO_PROMOTE_L2_TO_L3 | AUTO_PROMOTE_L3_TO_L4
  | OPERATOR_APPROVE_L4_TO_L5 | OPERATOR_PROMOTE_OVERRIDE

fun promotion_event_value :: "PromotionEvent \<Rightarrow> string" where
  "promotion_event_value AUTO_PROMOTE_L1_TO_L2 = ''auto_promote_l1_to_l2''"
| "promotion_event_value AUTO_PROMOTE_L2_TO_L3 = ''auto_promote_l2_to_l3''"
| "promotion_event_value AUTO_PROMOTE_L3_TO_L4 = ''auto_promote_l3_to_l4''"
| "promotion_event_value OPERATOR_APPROVE_L4_TO_L5 = ''operator_approve_l4_to_l5''"
| "promotion_event_value OPERATOR_PROMOTE_OVERRIDE = ''operator_promote_override''"

datatype PromotionInitiator = PI_LEARNING_GATE | PI_OPERATOR

fun promotion_initiator_value :: "PromotionInitiator \<Rightarrow> string" where
  "promotion_initiator_value PI_LEARNING_GATE = ''LearningGate''"
| "promotion_initiator_value PI_OPERATOR = ''Operator''"

record TierEligibilityCriteria =
  l2_min_observations :: int
  l2_min_win_rate :: pyfloat
  l3_min_l2_runtime_days :: int
  l3_min_confirmed_patterns :: int
  l4_min_validated_hypotheses :: int
  l4_min_experiment_roi :: pyfloat
  l5_min_operational_days :: int
  l5_requires_operator_approval :: bool
  l5_min_sustained_positive_days :: int

text \<open>The literal 0.20 is the float nearest to 1/5.\<close>

definition default_criteria :: TierEligibilityCriteria where
  "default_criteria =
     \<lparr>l2_min_observations = 500, l2_min_win_rate = flit (1/5), l3_min_l2_runtime_days = 14,
      l3_min_confirmed_patterns = 3, l4_min_validated_hypotheses = 3, l4_min_experiment_roi = Fin 0,
      l5_min_operational_days = 180, l5_requires_operator_approval = True,
      l5_min_sustained_positive_days = 30\<rparr>"

definition criteria_to_dict :: "TierEligibilityCriteria \<Rightarrow> pydict" where
  "criteria_to_dict c =
     [(''l2_min_observations'', PInt (l2_min_observations c)),
      (''l2_min_win_rate'', PFloat (l2_min_win_rate c)),
      (''l3_min_l2_runtime_days'', PInt (l3_min_l2_runtime_days c)),
      (''l3_min_confirmed_patterns'', PInt (l3_min_confirmed_patterns c)),
      (''l4_min_validated_hypotheses'', PInt (l4_min_validated_hypotheses c)),
      (''l4_min_experiment_roi'', PFloat (l4_min_experiment_roi c)),
      (''l5_min_operational_days'', PInt (l5_min_operational_days c)),
      (''l5_requires_operator_approval'', PBool (l5_requires_operator_approval c)),
      (''l5_min_sustained_positive_days'', PInt (l5_min_sustained_positive_days c))]"

text \<open>Capabilities; the descriptions carry UTF-8 text.\<close>

definition cap_text_L1 :: string where
  "cap_text_L1 =
     ''Post-Trade Review: passive observation recording, basic '' @
     ''metrics, paper trading / '' @
     utf8 [229, 164, 141, 231, 155, 152, 239, 188, 154, 232, 162, 171, 229, 138, 168, 232,
       174, 176, 229, 189, 149, 232, 167, 130, 229, 175, 159, 227, 128, 129, 232, 174, 161,
       231, 174, 151, 229, 159, 186, 231, 161, 128, 230, 140, 135, 230, 160, 135, 227, 128,
       129, 231, 186, 184, 231, 155, 152, 228, 186, 164, 230, 152, 147]"

definition cap_text_L2 :: string where
  "cap_text_L2 =
     ''Pattern Discovery: cross-strategy analysis, cost attribution, '' @
     ''anomaly detection, paper trading / '' @
     utf8 [230, 168, 161, 229, 188, 143, 229, 143, 145, 231, 142, 176, 239, 188, 154, 232,
       183, 168, 231, 173, 150, 231, 149, 165, 229, 136, 134, 230, 158, 144, 227, 128, 129,
       230, 136, 144, 230, 156, 172, 229, 189, 146, 229, 155, 160, 227, 128, 129, 229, 188,
       130, 229, 184, 184, 230, 163, 128, 230, 181, 139, 227, 128, 129, 231, 186, 184, 231,
       155, 152, 228, 186, 164, 230, 152, 147]"

definition cap_text_L3 :: string where
  "cap_text_L3 =
     ''Hypothesis & Experiment: generate hypotheses, design paper '' @
     ''experiments / '' @
     utf8 [229, 129, 135, 232, 175, 180, 229, 174, 158, 233, 170, 140, 239, 188, 154, 231,
       148, 159, 230, 136, 144, 229, 129, 135, 232, 175, 180, 227, 128, 129, 232, 174, 190,
       232, 174, 161, 231, 186, 184, 228, 184, 138, 229, 174, 158, 233, 170, 140]"

definition cap_text_L4 :: string where
  "cap_text_L4 =
     ''Strategy Evolution: parameter evolution, new variants, transfer '' @
     ''learning, regime prediction / '' @
     utf8 [231, 173, 150, 231, 149, 165, 232, 191, 155, 229, 140, 150, 239, 188, 154, 229,
       143, 130, 230, 149, 176, 230, 188, 148, 232, 191, 155, 227, 128, 129, 230, 150, 176,
       229, 143, 152, 228, 189, 147, 227, 128, 129, 232, 191, 129, 231, 167, 187, 229, 173,
       166, 228, 185, 160, 227, 128, 129, 229, 136, 182, 229, 186, 166, 232, 189, 172, 230,
       141, 162, 233, 162, 132, 230, 181, 139]"

definition cap_text_L5 :: string where
  "cap_text_L5 =
     ''Meta-Learning: optimize learning pipeline, identify blind '' @
     ''spots, self-calibrate / '' @
     utf8 [229, 133, 131, 229, 173, 166, 228, 185, 160, 239, 188, 154, 228, 188, 152, 229,
       140, 150, 229, 173, 166, 228, 185, 160, 231, 174, 161, 231, 186, 191, 227, 128, 129,
       229, 143, 145, 231, 142, 176, 231, 155, 178, 231, 130, 185, 227, 128, 129, 232, 135,
       170, 230, 136, 145, 230, 160, 161, 229, 135, 134]"

record TierCapabilities =
  can_record_observations :: bool
  can_discover_patterns :: bool
  can_generate_hypotheses :: bool
  can_design_experiments :: bool
  can_evolve_strategies :: bool
  can_propose_strategy_variants :: bool
  can_propose_transfers :: bool
  can_predict_regime_transition :: bool
  can_optimize_learning_pipeline :: bool
  can_auto_deploy_to_paper :: bool
  can_modify_live_config :: bool
  cap_description :: string

fun tier_capabilities :: "LearningTier \<Rightarrow> TierCapabilities" where
  "tier_capabilities LT_L1 =
     \<lparr>can_record_observations = True, can_discover_patterns = False,
       can_generate_hypotheses = False, can_design_experiments = False,
       can_evolve_strategies = False, can_propose_strategy_variants = False,
       can_propose_transfers = False, can_predict_regime_transition = False,
       can_optimize_learning_pipeline = False, can_auto_deploy_to_paper = True,
       can_modify_live_config = False,
       cap_description = cap_text_L1\<rparr>"
| "tier_capabilities LT_L2 =
     \<lparr>can_record_observations = True, can_discover_patterns = True,
       can_generate_hypotheses = False, can_design_experiments = False,
       can_evolve_strategies = False, can_propose_strategy_variants = False,
       can_propose_transfers = False, can_predict_regime_transition = False,
       can_optimize_learning_pipeline = False, can_auto_deploy_to_paper = True,
       can_modify_live_config = False,
       cap_description = cap_text_L2\<rparr>"
| "tier_capabilities LT_L3 =
     \<lparr>can_record_observations = True, can_discover_patterns = True,
       can_generate_hypotheses = True, can_design_experiments = True,
       can_evolve_strategies = False, can_propose_strategy_variants = False,
       can_propose_transfers = False, can_predict_regime_transition = False,
       can_optimize_learning_pipeline = False, can_auto_deploy_to_paper = True,
       can_modify_live_config = False,
       cap_description = cap_text_L3\<rparr>"
| "tier_capabilities LT_L4 =
     \<lparr>can_record_observations = True, can_discover_patterns = True,
       can_generate_hypotheses = True, can_design_experiments = True,
       can_evolve_strategies = True, can_propose_strategy_variants = True,
       can_propose_transfers = True, can_predict_regime_transition = True,
       can_optimize_learning_pipeline = False, can_auto_deploy_to_paper = True,
       can_modify_live_config = False,
       cap_description = cap_text_L4\<rparr>"
| "tier_capabilities LT_L5 =
     \<lparr>can_record_observations = True, can_discover_patterns = True,
       can_generate_hypotheses = True, can_design_experiments = True,
       can_evolve_strategies = True, can_propose_strategy_variants = True,
       can_propose_transfers = True, can_predict_regime_transition = True,
       can_optimize_learning_pipeline = True, can_auto_deploy_to_paper = True,
       can_modify_live_config = False,
       cap_description = cap_text_L5\<rparr>"

section \<open>State\<close>

record TierState =
  ts_current_tier :: LearningTier
  ts_tier_promoted_at_ms :: int
  ts_observation_count :: int
  ts_confirmed_patterns :: int
  ts_validated_hypotheses :: int
  ts_experiment_roi :: pyfloat
  ts_win_rate :: pyfloat
  ts_days_at_tier :: int
  ts_days_operational :: int
  ts_sustained_positive_live_days :: int
  ts_last_promotion_event :: string
  ts_last_promotion_initiator :: string
  ts_last_promotion_reason :: string
  ts_promotions :: "pydict list"
  ts_version :: int

record learning_gate =
  lg_state :: TierState
  lg_criteria :: TierEligibilityCriteria
  lg_audit_cb :: bool
  lg_l2_start_ms :: "int option"

text \<open>The constructor of a state reads the clock when the promotion time is 0; so does a clone.\<close>

definition tier_post_init :: "TierState \<Rightarrow> 'z env_scheme \<Rightarrow> TierState \<times> 'z env_scheme" where
  "tier_post_init s w =
     (if ts_tier_promoted_at_ms s = 0
      then (let (t, w1) = now_ms w in (s\<lparr>ts_tier_promoted_at_ms := t\<rparr>, w1)) else (s, w))"

definition initial_tier_state :: TierState where
  "initial_tier_state =
     \<lparr>ts_current_tier = LT_L1, ts_tier_promoted_at_ms = 0, ts_observation_count = 0,
      ts_confirmed_patterns = 0, ts_validated_hypotheses = 0, ts_experiment_roi = Fin 0,
      ts_win_rate = Fin 0, ts_days_at_tier = 0, ts_days_operational = 0,
      ts_sustained_positive_live_days = 0, ts_last_promotion_event = [],
      ts_last_promotion_initiator = [], ts_last_promotion_reason = [], ts_promotions = [],
      ts_version = 1\<rparr>"

definition learning_new ::
  "TierEligibilityCriteria option \<Rightarrow> bool \<Rightarrow> 'z env_scheme \<Rightarrow> learning_gate \<times> 'z env_scheme" where
  "learning_new criteria cb w =
     (let (s, w1) = tier_post_init initial_tier_state w
      in (\<lparr>lg_state = s, lg_criteria = (case criteria of None \<Rightarrow> default_criteria | Some c \<Rightarrow> c),
           lg_audit_cb = cb, lg_l2_start_ms = None\<rparr>, w1))"

definition current_tier :: "learning_gate \<Rightarrow> LearningTier" where
  "current_tier g = ts_current_tier (lg_state g)"

definition gate_capabilities :: "learning_gate \<Rightarrow> TierCapabilities" where
  "gate_capabilities g = tier_capabilities (current_tier g)"

definition learning_state :: "learning_gate \<Rightarrow> 'z env_scheme \<Rightarrow> TierState \<times> 'z env_scheme" where
  "learning_state g w = tier_post_init (lg_state g) w"




section \<open>Eligibility\<close>


text \<open>\<open>f"{x:.2%}"\<close>: the product with 100 is a float product.\<close>

definition percent :: "pyfloat \<Rightarrow> string" where
  "percent x = fmt_fixed 2 (fmul x (Fin 100)) @ ''%''"

definition of_total :: "string \<Rightarrow> string \<Rightarrow> string \<Rightarrow> string" where
  "of_total label have_s need_s = label @ '':'' @ have_s @ ''/'' @ need_s"

definition l2_reasons :: "TierState \<Rightarrow> TierEligibilityCriteria \<Rightarrow> string list" where
  "l2_reasons s c =
     (if ts_observation_count s < l2_min_observations c
      then [of_total ''insufficient_observations'' (int_str (ts_observation_count s))
              (int_str (l2_min_observations c))] else []) @
     (if flt (ts_win_rate s) (l2_min_win_rate c)
      then [of_total ''low_win_rate'' (percent (ts_win_rate s)) (percent (l2_min_win_rate c))] else [])"

definition l3_reasons :: "pyfloat \<Rightarrow> TierState \<Rightarrow> TierEligibilityCriteria \<Rightarrow> string list" where
  "l3_reasons age s c =
     (if flt age (Fin (of_int (l3_min_l2_runtime_days c)))
      then [of_total ''l2_too_new'' (fmt_fixed 1 age) (int_str (l3_min_l2_runtime_days c) @ '' days'')] else []) @
     (if ts_confirmed_patterns s < l3_min_confirmed_patterns c
      then [of_total ''insufficient_patterns'' (int_str (ts_confirmed_patterns s))
              (int_str (l3_min_confirmed_patterns c))] else [])"

definition l4_reasons :: "TierState \<Rightarrow> TierEligibilityCriteria \<Rightarrow> string list" where
  "l4_reasons s c =
     (if ts_validated_hypotheses s < l4_min_validated_hypotheses c
      then [of_total ''insufficient_hypotheses'' (int_str (ts_validated_hypotheses s))
              (int_str (l4_min_validated_hypotheses c))] else []) @
     (if flt (ts_experiment_roi s) (l4_min_experiment_roi c)
      then [of_total ''negative_roi'' (percent (ts_experiment_roi s)) (percent (l4_min_experiment_roi c))] else [])"

definition l5_reasons :: "TierState \<Rightarrow> TierEligibilityCriteria \<Rightarrow> string list" where
  "l5_reasons s c =
     (if ts_days_operational s < l5_min_operational_days c
      then [of_total ''insufficient_operational_time'' (int_str (ts_days_operational s))
              (int_str (l5_min_operational_days c) @ '' days'')] else []) @
     (if ts_sustained_positive_live_days s < l5_min_sustained_positive_days c
      then [of_total ''insufficient_positive_live_days'' (int_str (ts_sustained_positive_live_days s))
              (int_str (l5_min_sustained_positive_days c) @ '' days'')] else []) @
     (if l5_requires_operator_approval c then [''requires_operator_approval''] else [])"

text \<open>
  The age of L2 in days, as a float. The first check from L2 starts the clock of L2 if nothing
  has started it; the age is measured by a second reading.
\<close>

definition day_ms :: int where
  "day_ms = 1000 * 60 * 60 * 24"

definition l2_age :: "learning_gate \<Rightarrow> 'z env_scheme \<Rightarrow> pyfloat \<times> learning_gate \<times> 'z env_scheme" where
  "l2_age g w =
     (let (start, w1) = (case lg_l2_start_ms g of None \<Rightarrow> now_ms w | Some t \<Rightarrow> (t, w));
          (now, w2) = now_ms w1
      in (fl_round (of_int (now - start) / of_int day_ms), g\<lparr>lg_l2_start_ms := Some start\<rparr>, w2))"

definition check_eligibility ::
  "LearningTier \<Rightarrow> learning_gate \<Rightarrow> 'z env_scheme \<Rightarrow> (bool \<times> string list) \<times> learning_gate \<times> 'z env_scheme" where
  "check_eligibility target g w =
     (let s = lg_state g; c = lg_criteria g; current = ts_current_tier s in
      if target \<le> current then ((False, [''target_tier_not_higher_than_current'']), g, w)
      else
        (case (current, target) of
           (LT_L1, LT_L2) \<Rightarrow> (let rs = l2_reasons s c in ((rs = [], rs), g, w))
         | (LT_L2, LT_L3) \<Rightarrow>
             (let (age, g1, w1) = l2_age g w; rs = l3_reasons age s c in ((rs = [], rs), g1, w1))
         | (LT_L3, LT_L4) \<Rightarrow> (let rs = l4_reasons s c in ((rs = [], rs), g, w))
         | (LT_L4, LT_L5) \<Rightarrow> (let rs = l5_reasons s c in ((rs = [], rs), g, w))
         | _ \<Rightarrow> ((False, [''invalid_transition:'' @ tier_name current @ utf8 [226, 134, 146] @ tier_name target]), g, w)))"


section \<open>Promotion\<close>

definition build_promotion_record ::
  "TierState \<Rightarrow> LearningTier \<Rightarrow> PromotionEvent \<Rightarrow> PromotionInitiator \<Rightarrow> string list \<Rightarrow> string option \<Rightarrow>
   'z env_scheme \<Rightarrow> pydict \<times> 'z env_scheme" where
  "build_promotion_record s target event initiator reasons approved_by w =
     (let (now, w1) = now_ms w;
          (h1, w2) = fresh_hex w1;
          pid = ''ltp:'' @ take 12 h1;
          (h2, w3) = fresh_hex w2
      in ([(''promotion_id'', PStr pid),
           (''previous_tier'', PStr (tier_name (ts_current_tier s))),
           (''next_tier'', PStr (tier_name target)),
           (''trigger_event'', PStr (promotion_event_value event)),
           (''trigger_event_id'', PStr (''levt:'' @ take 8 h2)),
           (''initiated_by'', PStr (promotion_initiator_value initiator)),
           (''reason_codes'', PList (map PStr reasons)),
           (''approved_by'', opt_str approved_by),
           (''effective_at_ms'', PInt now),
           (''days_at_previous_tier'', PInt (ts_days_at_tier s)),
           (''metrics_snapshot'', PDict
             [(''observation_count'', PInt (ts_observation_count s)),
              (''win_rate'', PFloat (ts_win_rate s)),
              (''confirmed_patterns'', PInt (ts_confirmed_patterns s)),
              (''validated_hypotheses'', PInt (ts_validated_hypotheses s)),
              (''experiment_roi'', PFloat (ts_experiment_roi s)),
              (''days_operational'', PInt (ts_days_operational s)),
              (''sustained_positive_live_days'', PInt (ts_sustained_positive_live_days s))]),
           (''audit_event_ref'', PStr (''laud:'' @ take 16 (sha256_hex w pid))),
           (''version_before'', PInt (ts_version s)),
           (''version_after'', PInt (ts_version s + 1))], w3))"

definition promotion_event :: "LearningTier \<Rightarrow> PromotionEvent" where
  "promotion_event target =
     (case target of LT_L2 \<Rightarrow> AUTO_PROMOTE_L1_TO_L2 | LT_L3 \<Rightarrow> AUTO_PROMOTE_L2_TO_L3
      | LT_L4 \<Rightarrow> AUTO_PROMOTE_L3_TO_L4 | LT_L5 \<Rightarrow> OPERATOR_APPROVE_L4_TO_L5
      | _ \<Rightarrow> OPERATOR_PROMOTE_OVERRIDE)"

definition promote_tier ::
  "LearningTier \<Rightarrow> string \<Rightarrow> string \<Rightarrow> string option \<Rightarrow> learning_gate \<Rightarrow> world \<Rightarrow> bool \<times> learning_gate \<times> world" where
  "promote_tier target initiator reason approved_by g w =
     (let ((eligible, reasons), g1, w1) = check_eligibility target g w in
      if target = LT_L5 \<and> \<not> str_given approved_by then (False, g1, w1)
      else if \<not> eligible \<and> initiator \<noteq> ''Operator'' then (False, g1, w1)
      else
        (let (now, w2) = now_ms w1;
             event = promotion_event target;
             who = (if initiator = ''Operator'' then PI_OPERATOR else PI_LEARNING_GATE);
             s = lg_state g1;
             (record, w3) = build_promotion_record s target event who
                (if \<not> eligible then reasons else [''gate_met'']) approved_by w2;
             s1 = s\<lparr>ts_current_tier := target, ts_tier_promoted_at_ms := now, ts_days_at_tier := 0,
                    ts_version := ts_version s + 1, ts_promotions := ts_promotions s @ [record],
                    ts_last_promotion_event := promotion_event_value event,
                    ts_last_promotion_initiator := promotion_initiator_value who,
                    ts_last_promotion_reason := reason\<rparr>;
             g2 = g1\<lparr>lg_state := s1,
                     lg_l2_start_ms := (if target = LT_L2 then Some now else lg_l2_start_ms g1)\<rparr>
         in (True, g2, emit_audit ''learning_tier'' (lg_audit_cb g2) record w3)))"

section \<open>Capability checks\<close>

text \<open>The gate's predicates by name; the live configuration is never open.\<close>

definition gate_methods :: "(string \<times> (TierCapabilities \<Rightarrow> bool)) list" where
  "gate_methods =
     [(''can_record_observations'', can_record_observations), (''can_discover_patterns'', can_discover_patterns),
      (''can_generate_hypotheses'', can_generate_hypotheses), (''can_design_experiments'', can_design_experiments),
      (''can_evolve_strategies'', can_evolve_strategies),
      (''can_propose_strategy_variants'', can_propose_strategy_variants),
      (''can_propose_transfers'', can_propose_transfers),
      (''can_predict_regime_transition'', can_predict_regime_transition),
      (''can_optimize_learning_pipeline'', can_optimize_learning_pipeline),
      (''can_auto_deploy_to_paper'', can_auto_deploy_to_paper),
      (''can_modify_live_config'', (\<lambda>_. False))]"

definition gate_can :: "string \<Rightarrow> learning_gate \<Rightarrow> bool option" where
  "gate_can name g = map_option (\<lambda>f. f (gate_capabilities g)) (map_of gate_methods name)"

section \<open>Persistence\<close>

definition learning_export :: "learning_gate \<Rightarrow> pydict" where
  "learning_export g =
     (let s = lg_state g in
      [(''current_tier'', PStr (tier_name (ts_current_tier s))),
       (''tier_promoted_at_ms'', PInt (ts_tier_promoted_at_ms s)),
       (''observation_count'', PInt (ts_observation_count s)),
       (''confirmed_patterns'', PInt (ts_confirmed_patterns s)),
       (''validated_hypotheses'', PInt (ts_validated_hypotheses s)),
       (''experiment_roi'', PFloat (ts_experiment_roi s)),
       (''win_rate'', PFloat (ts_win_rate s)),
       (''days_at_tier'', PInt (ts_days_at_tier s)),
       (''days_operational'', PInt (ts_days_operational s)),
       (''sustained_positive_live_days'', PInt (ts_sustained_positive_live_days s)),
       (''last_promotion_event'', PStr (ts_last_promotion_event s)),
       (''last_promotion_initiator'', PStr (ts_last_promotion_initiator s)),
       (''last_promotion_reason'', PStr (ts_last_promotion_reason s)),
       (''promotions'', PList (map PDict (ts_promotions s))),
       (''version'', PInt (ts_version s)),
       (''criteria'', PDict (criteria_to_dict (lg_criteria g)))])"

text \<open>
  \<open>import_state\<close>: an unknown tier name raises KeyError before anything is stored and is
  reported as False. The outer None stands for data with an entry of another type than the
  code writes, outside this model. The criteria and the start of L2 are not read.
\<close>

definition learning_import ::
  "pydict \<Rightarrow> learning_gate \<Rightarrow> 'z env_scheme \<Rightarrow> (bool \<times> learning_gate \<times> 'z env_scheme) option" where
  "learning_import d g w =
     Option.bind (as_str (dict_get d ''current_tier'' (PStr ''L1''))) (\<lambda>name.
       (case tier_of name of
          None \<Rightarrow> Some (False, g, w)
        | Some tier \<Rightarrow> do {
            let (now, w1) = now_ms w;
            promoted \<leftarrow> as_int (dict_get d ''tier_promoted_at_ms'' (PInt now));
            obs \<leftarrow> as_int (dict_get d ''observation_count'' (PInt 0));
            pats \<leftarrow> as_int (dict_get d ''confirmed_patterns'' (PInt 0));
            hyps \<leftarrow> as_int (dict_get d ''validated_hypotheses'' (PInt 0));
            roi \<leftarrow> as_float (dict_get d ''experiment_roi'' (PFloat (Fin 0)));
            win \<leftarrow> as_float (dict_get d ''win_rate'' (PFloat (Fin 0)));
            days \<leftarrow> as_int (dict_get d ''days_at_tier'' (PInt 0));
            oper \<leftarrow> as_int (dict_get d ''days_operational'' (PInt 0));
            live \<leftarrow> as_int (dict_get d ''sustained_positive_live_days'' (PInt 0));
            event \<leftarrow> as_str (dict_get d ''last_promotion_event'' (PStr []));
            who \<leftarrow> as_str (dict_get d ''last_promotion_initiator'' (PStr []));
            why \<leftarrow> as_str (dict_get d ''last_promotion_reason'' (PStr []));
            trail \<leftarrow> as_dicts (dict_get d ''promotions'' (PList []));
            ver \<leftarrow> as_int (dict_get d ''version'' (PInt 1));
            Some (True, g\<lparr>lg_state := \<lparr>ts_current_tier = tier, ts_tier_promoted_at_ms = promoted,
               ts_observation_count = obs, ts_confirmed_patterns = pats, ts_validated_hypotheses = hyps,
               ts_experiment_roi = roi, ts_win_rate = win, ts_days_at_tier = days,
               ts_days_operational = oper, ts_sustained_positive_live_days = live,
               ts_last_promotion_event = event, ts_last_promotion_initiator = who,
               ts_last_promotion_reason = why, ts_promotions = trail, ts_version = ver\<rparr>\<rparr>, w1)
          }))"

section \<open>What a check and a promotion do\<close>

lemma check_eligibility_frame:
  assumes "check_eligibility target g w = (res, g', w')"
  shows "lg_state g' = lg_state g" "lg_criteria g' = lg_criteria g" "lg_audit_cb g' = lg_audit_cb g"
  using assms
  by (auto simp: check_eligibility_def l2_age_def Let_def split: if_splits LearningTier.splits prod.splits)






text \<open>What a promotion that went through leaves.\<close>

lemma promote_tier_cases:
  assumes "promote_tier target initiator reason approver g w = (res, g', w')"
  obtains (refused) e rs where "\<not> res" "check_eligibility target g w = ((e, rs), g', w')"
      "target = LT_L5 \<and> \<not> str_given approver \<or> \<not> e \<and> initiator \<noteq> ''Operator''"
  | (promoted) e rs g1 w1 now who r w2 w3 where "res" "check_eligibility target g w = ((e, rs), g1, w1)"
      "target = LT_L5 \<Longrightarrow> str_given approver" "e \<or> initiator = ''Operator''"
      "who = (if initiator = ''Operator'' then PI_OPERATOR else PI_LEARNING_GATE)"
      "build_promotion_record (lg_state g1) target (promotion_event target) who
         (if \<not> e then rs else [''gate_met'']) approver (w2 :: world) = (r, w3)"
      "current_tier g' = target" "ts_version (lg_state g') = ts_version (lg_state g) + 1"
      "ts_promotions (lg_state g') = ts_promotions (lg_state g) @ [r]" "lg_criteria g' = lg_criteria g"
      "lg_l2_start_ms g' = (if target = LT_L2 then Some now else lg_l2_start_ms g1)"
      "now = ts_tier_promoted_at_ms (lg_state g')"
proof -
  obtain e rs g1 w1 where c: "check_eligibility target g w = ((e, rs), g1, w1)" by (metis prod.collapse)
  note frame = check_eligibility_frame[OF c]
  show ?thesis
  proof (cases "target = LT_L5 \<and> \<not> str_given approver \<or> \<not> e \<and> initiator \<noteq> ''Operator''")
    case True
    have "promote_tier target initiator reason approver g w = (False, g1, w1)"
    proof (cases "target = LT_L5 \<and> \<not> str_given approver")
      case True
      then show ?thesis unfolding promote_tier_def c Let_def prod.case by (simp only: if_True simp_thms)
    next
      case False
      with True have "\<not> e \<and> initiator \<noteq> ''Operator''" by blast
      then show ?thesis
        unfolding promote_tier_def c Let_def prod.case by (simp only: False if_True if_False simp_thms)
    qed
    then have "(res, g', w') = (False, g1, w1)" using assms by simp
    with True c refused show ?thesis by blast
  next
    case False
    obtain now w2 where n: "now_ms w1 = (now, w2)" by fastforce
    define who where "who = (if initiator = ''Operator'' then PI_OPERATOR else PI_LEARNING_GATE)"
    obtain r w3 where b: "build_promotion_record (lg_state g1) target (promotion_event target) who
         (if \<not> e then rs else [''gate_met'']) approver w2 = (r, w3)" by fastforce
    have c1: "\<not> (target = LT_L5 \<and> \<not> str_given approver)" "\<not> (\<not> e \<and> initiator \<noteq> ''Operator'')"
      using False by blast+
    have p: "promote_tier target initiator reason approver g w = (True,
        g1\<lparr>lg_state := (lg_state g1)\<lparr>ts_current_tier := target, ts_tier_promoted_at_ms := now, ts_days_at_tier := 0,
             ts_version := ts_version (lg_state g1) + 1, ts_promotions := ts_promotions (lg_state g1) @ [r],
             ts_last_promotion_event := promotion_event_value (promotion_event target),
             ts_last_promotion_initiator := promotion_initiator_value who,
             ts_last_promotion_reason := reason\<rparr>,
           lg_l2_start_ms := (if target = LT_L2 then Some now else lg_l2_start_ms g1)\<rparr>,
        emit_audit ''learning_tier'' (lg_audit_cb g1) r w3)"
      unfolding promote_tier_def c Let_def prod.case n who_def[symmetric] b
      by (simp only: c1 if_False prod.case) simp
    with assms have "res" and g': "g' = g1\<lparr>lg_state := (lg_state g1)\<lparr>ts_current_tier := target,
             ts_tier_promoted_at_ms := now, ts_days_at_tier := 0,
             ts_version := ts_version (lg_state g1) + 1, ts_promotions := ts_promotions (lg_state g1) @ [r],
             ts_last_promotion_event := promotion_event_value (promotion_event target),
             ts_last_promotion_initiator := promotion_initiator_value who,
             ts_last_promotion_reason := reason\<rparr>,
           lg_l2_start_ms := (if target = LT_L2 then Some now else lg_l2_start_ms g1)\<rparr>" by simp_all
    have guard: "str_given approver" if "target = LT_L5" using c1(1) that by blast
    have ok: "e \<or> initiator = ''Operator''" using c1(2) by blast
    show ?thesis
      by (rule promoted[OF \<open>res\<close> c guard ok who_def b, where now = now])
        (simp_all add: g' current_tier_def frame)
  qed
qed



section \<open>Histories\<close>












section \<open>Properties\<close>

lemma tier_of_name [simp]: "tier_of (tier_name t) = Some t"
  by (cases t) (simp_all add: tier_of_def tiers_def)



lemma learning_import_export:
  "learning_import (learning_export g) g0 w = Some (True, g0\<lparr>lg_state := lg_state g\<rparr>, snd (now_ms w))"
  by (simp add: learning_import_def learning_export_def dict_get_def as_float_def Let_def split: prod.split)

text \<open>Export followed by import gives back the whole tier state, whatever gate it is read into.
  The criteria and the start of L2 are those of the gate that reads.\<close>

theorem learning_roundtrip:
  "learning_import (learning_export g) g0 w = Some (True, g0\<lparr>lg_state := lg_state g\<rparr>, snd (now_ms w))"
  by (rule learning_import_export)

text \<open>The start of L2 is kept only in memory. A gate read back from a file at L2, however long
  the exported gate had been there, refuses the automatic promotion to L3 on its first attempt, as
  long as that attempt's two clock readings lie less than the required days apart, and only then
  starts to count.\<close>

theorem learning_import_restarts_l2:
  fixes w :: world
  assumes "learning_new criteria cb v = (g0, v')" "current_tier g = LT_L2"
    and "learning_import (learning_export g) g0 v' = Some (ok, g1, v'')"
    and "flt (fst (l2_age g0 w)) (Fin (of_int (l3_min_l2_runtime_days (lg_criteria g0))))"
    and "initiator \<noteq> ''Operator''"
  shows "ok \<and> (\<exists>g2 w'. promote_tier LT_L3 initiator reason approver g1 w = (False, g2, w') \<and>
    current_tier g2 = LT_L2 \<and> lg_l2_start_ms g2 = Some (fst (now_ms w)))"
proof -
  have n0: "lg_l2_start_ms g0 = None" using assms(1) by (auto simp: learning_new_def Let_def split: prod.splits)
  have g1: "ok" "g1 = g0\<lparr>lg_state := lg_state g\<rparr>" using assms(3) by (simp_all add: learning_import_export)
  obtain t w1 where t: "now_ms w = (t, w1)" by fastforce
  obtain u w2 where u: "now_ms w1 = (u, w2)" by fastforce
  have age: "l2_age g1 w = (fst (l2_age g0 w), g1\<lparr>lg_l2_start_ms := Some t\<rparr>, w2)"
    using n0 t u by (simp add: l2_age_def g1(2))
  have tier: "ts_current_tier (lg_state g1) = LT_L2" using assms(2) by (simp add: g1(2) current_tier_def)
  have crit: "lg_criteria g1 = lg_criteria g0" by (simp add: g1(2))
  have "\<exists>rs. check_eligibility LT_L3 g1 w = ((False, rs), g1\<lparr>lg_l2_start_ms := Some t\<rparr>, w2)"
    using assms(4) crit by (simp add: check_eligibility_def tier tier_order age l3_reasons_def Let_def)
  then obtain rs where c: "check_eligibility LT_L3 g1 w = ((False, rs), g1\<lparr>lg_l2_start_ms := Some t\<rparr>, w2)" ..
  have "promote_tier LT_L3 initiator reason approver g1 w = (False, g1\<lparr>lg_l2_start_ms := Some t\<rparr>, w2)"
    using assms(5) by (simp add: promote_tier_def c)
  with g1 tier t show ?thesis by (simp add: current_tier_def)
qed

lemma learning_import_restarts_l2_witness:
  "\<exists>g1 g2 w'. promote_tier LT_L3 ''LearningGate'' [] None g1 ((sample_world 9)\<lparr>clock := \<lambda>_. \<lparr>secs = 0, millis = 5\<rparr>\<rparr>) =
     (False, g2, w') \<and> lg_l2_start_ms g2 = Some 5"
proof -
  let ?w = "(sample_world 9)\<lparr>clock := \<lambda>_. \<lparr>secs = 0, millis = 5\<rparr>\<rparr>"
  obtain g0 v' where n: "learning_new None True (sample_world 3) = (g0, v')" by fastforce
  let ?g = "g0\<lparr>lg_state := (lg_state g0)\<lparr>ts_current_tier := LT_L2\<rparr>\<rparr>"
  have crit: "lg_criteria g0 = default_criteria" "lg_l2_start_ms g0 = None"
    using n by (auto simp: learning_new_def Let_def split: prod.splits)
  have "flt (fst (l2_age g0 ?w)) (Fin (of_int (l3_min_l2_runtime_days (lg_criteria g0))))"
    by (simp add: crit l2_age_def now_ms_def default_criteria_def fl_round_def)
  from learning_import_restarts_l2[OF n _ learning_import_export[of ?g g0 v'] this, of "''LearningGate''" "[]" None]
  show ?thesis by (auto simp: current_tier_def now_ms_def)
qed

text \<open>The operator's name alone moves the gate to any tier, down as well as up and over several
  tiers at once, whatever the metrics are: the only bar is that L5 wants an approver's name.\<close>

theorem learning_operator_any_tier:
  assumes "target = LT_L5 \<Longrightarrow> str_given approver"
  shows "\<exists>g' w'. promote_tier target ''Operator'' reason approver g w = (True, g', w') \<and>
    current_tier g' = target"
proof -
  obtain ok g' w' where p: "promote_tier target ''Operator'' reason approver g w = (ok, g', w')"
    by (metis prod_cases3)
  from p show ?thesis by (cases rule: promote_tier_cases) (use p assms in auto)
qed

lemma learning_operator_any_tier_witness:
  "\<exists>g g' w'. current_tier g = LT_L4 \<and>
     promote_tier LT_L1 ''Operator'' [] None g (sample_world 3) = (True, g', w') \<and> current_tier g' = LT_L1"
proof -
  let ?g = "(fst (learning_new None True (sample_world 3)))
    \<lparr>lg_state := initial_tier_state\<lparr>ts_current_tier := LT_L4\<rparr>\<rparr>"
  have "current_tier ?g = LT_L4" by (simp add: current_tier_def)
  with learning_operator_any_tier[of LT_L1 None "[]" ?g "sample_world 3"] show ?thesis by blast
qed

text \<open>While the criteria require the operator, no call in another name reaches L5, with an
  approver's name or without: it is refused and changes nothing.\<close>

theorem learning_l5_needs_operator:
  assumes "l5_requires_operator_approval (lg_criteria g)" "initiator \<noteq> ''Operator''"
  shows "promote_tier LT_L5 initiator reason approver g w = (False, g, w)"
proof -
  have "\<exists>rs. check_eligibility LT_L5 g w = ((False, rs), g, w)"
    using assms(1) by (auto simp: check_eligibility_def l5_reasons_def Let_def split: LearningTier.splits)
  then obtain rs where "check_eligibility LT_L5 g w = ((False, rs), g, w)" ..
  with assms(2) show ?thesis by (simp add: promote_tier_def)
qed

lemma learning_l5_needs_operator_witness:
  "promote_tier LT_L5 ''LearningGate'' [] (Some ''ops'') (fst (learning_new None True (sample_world 3))) (sample_world 4) =
     (False, fst (learning_new None True (sample_world 3)), sample_world 4)"
  by (rule learning_l5_needs_operator)
    (simp_all add: learning_new_def default_criteria_def Let_def split: prod.split)

end
