(* ===== verification/Gov_Events.thy ===== *)
theory Gov_Events
  imports SM_Base
begin

text \<open>
  The unified governance event (\<open>app/governance_events.py\<close>): the taxonomy, the event record with
  its dictionary form, and the factories that classify the events of each component. The fields
  that the code passes through untouched are Python values; the three enum fields are typed.
\<close>

section \<open>Taxonomy\<close>

datatype EventCategory = EC_AUTHORIZATION | EC_RISK_GOVERNOR | EC_DECISION_LEASE
  | EC_ORDER_MANAGEMENT | EC_RECONCILIATION | EC_INCIDENT | EC_GOVERNANCE_HUB | EC_AUDIT

fun category_value :: "EventCategory \<Rightarrow> string" where
  "category_value EC_AUTHORIZATION = ''authorization''"
| "category_value EC_RISK_GOVERNOR = ''risk_governor''"
| "category_value EC_DECISION_LEASE = ''decision_lease''"
| "category_value EC_ORDER_MANAGEMENT = ''order_management''"
| "category_value EC_RECONCILIATION = ''reconciliation''"
| "category_value EC_INCIDENT = ''incident''"
| "category_value EC_GOVERNANCE_HUB = ''governance_hub''"
| "category_value EC_AUDIT = ''audit''"

datatype EventSeverity = ES_DEBUG | ES_INFO | ES_WARNING | ES_CRITICAL | ES_FATAL

fun ev_severity_value :: "EventSeverity \<Rightarrow> string" where
  "ev_severity_value ES_DEBUG = ''debug''"
| "ev_severity_value ES_INFO = ''info''"
| "ev_severity_value ES_WARNING = ''warning''"
| "ev_severity_value ES_CRITICAL = ''critical''"
| "ev_severity_value ES_FATAL = ''fatal''"

datatype EventDirection = ED_RESTRICT | ED_EXPAND | ED_NEUTRAL

fun direction_value :: "EventDirection \<Rightarrow> string" where
  "direction_value ED_RESTRICT = ''restrict''"
| "direction_value ED_EXPAND = ''expand''"
| "direction_value ED_NEUTRAL = ''neutral''"

text \<open>\<open>Enum(value)\<close>: the member with that value; None is the \<open>ValueError\<close>.\<close>

definition enum_of :: "('e \<Rightarrow> string) \<Rightarrow> 'e list \<Rightarrow> pyval \<Rightarrow> 'e option" where
  "enum_of value members v = find (\<lambda>e. PStr (value e) = v) members"

definition category_of :: "pyval \<Rightarrow> EventCategory option" where
  "category_of = enum_of category_value
     [EC_AUTHORIZATION, EC_RISK_GOVERNOR, EC_DECISION_LEASE, EC_ORDER_MANAGEMENT,
      EC_RECONCILIATION, EC_INCIDENT, EC_GOVERNANCE_HUB, EC_AUDIT]"

definition ev_severity_of :: "pyval \<Rightarrow> EventSeverity option" where
  "ev_severity_of = enum_of ev_severity_value [ES_DEBUG, ES_INFO, ES_WARNING, ES_CRITICAL, ES_FATAL]"

definition direction_of :: "pyval \<Rightarrow> EventDirection option" where
  "direction_of = enum_of direction_value [ED_RESTRICT, ED_EXPAND, ED_NEUTRAL]"

section \<open>The event\<close>

record GovernanceEvent =
  ge_id :: pyval
  ge_timestamp_ms :: pyval
  ge_category :: EventCategory
  ge_severity :: EventSeverity
  ge_direction :: EventDirection
  ge_source_sm :: pyval
  ge_source_module :: pyval
  ge_initiator :: pyval
  ge_state_from :: pyval
  ge_state_to :: pyval
  ge_message :: pyval
  ge_details :: pyval
  ge_correlation_id :: pyval
  ge_parent_event_id :: pyval

text \<open>\<open>str(uuid.uuid4())\<close> shows the 32 hexadecimal digits in groups of 8, 4, 4, 4 and 12.\<close>

definition uuid_text :: "string \<Rightarrow> string" where
  "uuid_text h = take 8 h @ ''-'' @ take 4 (drop 8 h) @ ''-'' @ take 4 (drop 12 h) @ ''-'' @
     take 4 (drop 16 h) @ ''-'' @ drop 20 h"

definition fresh_uuid :: "'z env_scheme \<Rightarrow> string \<times> 'z env_scheme" where
  "fresh_uuid w = (let (h, w1) = fresh_hex w in (uuid_text h, w1))"

definition event_to_dict :: "GovernanceEvent \<Rightarrow> pydict" where
  "event_to_dict e =
     [(''event_id'', ge_id e), (''timestamp_ms'', ge_timestamp_ms e),
      (''category'', PStr (category_value (ge_category e))),
      (''severity'', PStr (ev_severity_value (ge_severity e))),
      (''direction'', PStr (direction_value (ge_direction e))),
      (''source_sm'', ge_source_sm e), (''source_module'', ge_source_module e),
      (''initiator'', ge_initiator e), (''state_from'', ge_state_from e),
      (''state_to'', ge_state_to e), (''message'', ge_message e), (''details'', ge_details e),
      (''correlation_id'', ge_correlation_id e), (''parent_event_id'', ge_parent_event_id e)]"

text \<open>
  \<open>from_dict\<close> computes the default id and time whether they are used or not, so it always
  consumes one identifier and one clock reading. None: an unknown enum value.
\<close>

definition event_from_dict :: "pydict \<Rightarrow> 'z env_scheme \<Rightarrow> GovernanceEvent option \<times> 'z env_scheme" where
  "event_from_dict d w =
     (let (uid, w1) = fresh_uuid w;
          (now, w2) = now_ms w1
      in (do {
            c \<leftarrow> category_of (dict_get d ''category'' (PStr ''governance_hub''));
            s \<leftarrow> ev_severity_of (dict_get d ''severity'' (PStr ''info''));
            dir \<leftarrow> direction_of (dict_get d ''direction'' (PStr ''neutral''));
            Some \<lparr>ge_id = dict_get d ''event_id'' (PStr uid),
              ge_timestamp_ms = dict_get d ''timestamp_ms'' (PInt now),
              ge_category = c, ge_severity = s, ge_direction = dir,
              ge_source_sm = dict_get d ''source_sm'' (PStr []),
              ge_source_module = dict_get d ''source_module'' (PStr []),
              ge_initiator = dict_get d ''initiator'' (PStr []),
              ge_state_from = dict_get d ''state_from'' PNone,
              ge_state_to = dict_get d ''state_to'' PNone,
              ge_message = dict_get d ''message'' (PStr []),
              ge_details = dict_get d ''details'' (PDict []),
              ge_correlation_id = dict_get d ''correlation_id'' PNone,
              ge_parent_event_id = dict_get d ''parent_event_id'' PNone\<rparr>
          }, w2))"

definition is_critical :: "GovernanceEvent \<Rightarrow> bool" where
  "is_critical e \<longleftrightarrow> ge_severity e \<in> {ES_CRITICAL, ES_FATAL}"

definition is_restriction :: "GovernanceEvent \<Rightarrow> bool" where
  "is_restriction e \<longleftrightarrow> ge_direction e = ED_RESTRICT"

section \<open>Factories\<close>

text \<open>
  The constructor call of a factory: id and time come from the defaults, in that order. The
  argument \<open>details\<close> of a factory is what its keyword catch-all collects: no key of it is the
  name of one of the parameters.
\<close>

definition make_event ::
  "EventCategory \<Rightarrow> EventSeverity \<Rightarrow> EventDirection \<Rightarrow> string \<Rightarrow> string \<Rightarrow> string \<Rightarrow>
   string option \<Rightarrow> string option \<Rightarrow> string \<Rightarrow> pydict \<Rightarrow> string option \<Rightarrow> string option \<Rightarrow>
   'z env_scheme \<Rightarrow> GovernanceEvent \<times> 'z env_scheme" where
  "make_event cat sev dir sm modul initiator s_from s_to msg details corr parent w =
     (let (uid, w1) = fresh_uuid w;
          (now, w2) = now_ms w1
      in (\<lparr>ge_id = PStr uid, ge_timestamp_ms = PInt now, ge_category = cat, ge_severity = sev,
           ge_direction = dir, ge_source_sm = PStr sm, ge_source_module = PStr modul,
           ge_initiator = PStr initiator, ge_state_from = opt_str s_from, ge_state_to = opt_str s_to,
           ge_message = PStr msg, ge_details = PDict details,
           ge_correlation_id = opt_str corr, ge_parent_event_id = opt_str parent\<rparr>, w2))"

definition or_else :: "string \<Rightarrow> string \<Rightarrow> string" where
  "or_else s dflt = (if s = [] then dflt else s)"

definition auth_event ::
  "string \<Rightarrow> string \<Rightarrow> string \<Rightarrow> string \<Rightarrow> EventSeverity \<Rightarrow> string option \<Rightarrow> string option \<Rightarrow>
   pydict \<Rightarrow> 'z env_scheme \<Rightarrow> GovernanceEvent \<times> 'z env_scheme" where
  "auth_event s_from s_to initiator msg severity corr parent details =
     make_event EC_AUTHORIZATION severity
       (if s_to \<in> {''RESTRICTED'', ''FROZEN'', ''REVOKED''} then ED_RESTRICT
        else if s_to = ''ACTIVE'' then ED_EXPAND else ED_NEUTRAL)
       ''SM-01'' ''authorization_state_machine'' initiator (Some s_from) (Some s_to)
       (or_else msg (''Auth: '' @ s_from @ arrow @ s_to)) details corr parent"

definition level_names :: "string list" where
  "level_names = [''NORMAL'', ''CAUTIOUS'', ''REDUCED'', ''DEFENSIVE'', ''CIRCUIT_BREAKER'',
     ''MANUAL_REVIEW'']"

definition level_text :: "int \<Rightarrow> string" where
  "level_text l = (if 0 \<le> l \<and> l < int (length level_names) then level_names ! nat l else int_str l)"

definition risk_event ::
  "int \<Rightarrow> int \<Rightarrow> string \<Rightarrow> string \<Rightarrow> string option \<Rightarrow> string option \<Rightarrow> pydict \<Rightarrow>
   'z env_scheme \<Rightarrow> GovernanceEvent \<times> 'z env_scheme" where
  "risk_event l_from l_to initiator reason corr parent details =
     make_event EC_RISK_GOVERNOR
       (if 4 \<le> l_to then ES_CRITICAL else if 2 \<le> l_to then ES_WARNING else ES_INFO)
       (if l_from < l_to then ED_RESTRICT else if l_to < l_from then ED_EXPAND else ED_NEUTRAL)
       ''SM-04'' ''risk_governor_state_machine'' initiator
       (Some (level_text l_from)) (Some (level_text l_to))
       (or_else reason (''Risk: '' @ level_text l_from @ arrow @ level_text l_to))
       details corr parent"

definition lease_event ::
  "string \<Rightarrow> string \<Rightarrow> string \<Rightarrow> string \<Rightarrow> string \<Rightarrow> string option \<Rightarrow> string option \<Rightarrow> pydict \<Rightarrow>
   'z env_scheme \<Rightarrow> GovernanceEvent \<times> 'z env_scheme" where
  "lease_event s_from s_to initiator lid msg corr parent details =
     make_event EC_DECISION_LEASE ES_INFO
       (if s_to \<in> {''FROZEN'', ''REVOKED'', ''EXPIRED''} then ED_RESTRICT
        else if s_to = ''ACTIVE'' then ED_EXPAND else ED_NEUTRAL)
       ''SM-02'' ''decision_lease_state_machine'' initiator (Some s_from) (Some s_to)
       (or_else msg (''Lease '' @ lid @ '': '' @ s_from @ arrow @ s_to))
       ((''lease_id'', PStr lid) # details) corr parent"

definition oms_event ::
  "string \<Rightarrow> string \<Rightarrow> string \<Rightarrow> string \<Rightarrow> string \<Rightarrow> string option \<Rightarrow> string option \<Rightarrow> pydict \<Rightarrow>
   'z env_scheme \<Rightarrow> GovernanceEvent \<times> 'z env_scheme" where
  "oms_event oid s_from s_to initiator msg corr parent details =
     make_event EC_ORDER_MANAGEMENT
       (if s_to \<in> {''REJECTED'', ''ABORTED''} then ES_WARNING else ES_INFO)
       (if s_to \<in> {''REJECTED'', ''ABORTED'', ''CANCELLED''} then ED_RESTRICT else ED_NEUTRAL)
       ''EX-02'' ''oms_state_machine'' initiator (Some s_from) (Some s_to)
       (or_else msg (''Order '' @ oid @ '': '' @ s_from @ arrow @ s_to))
       ((''order_id'', PStr oid) # details) corr parent"

definition recon_event ::
  "string \<Rightarrow> string \<Rightarrow> string \<Rightarrow> EventSeverity \<Rightarrow> string option \<Rightarrow> string option \<Rightarrow> pydict \<Rightarrow>
   'z env_scheme \<Rightarrow> GovernanceEvent \<times> 'z env_scheme" where
  "recon_event result initiator msg severity corr parent details =
     make_event EC_RECONCILIATION severity
       (if result \<in> {''MISMATCH_MAJOR'', ''FATAL''} then ED_RESTRICT else ED_NEUTRAL)
       ''EX-04'' ''reconciliation_engine'' initiator None None
       (or_else msg (''Reconciliation: '' @ result))
       ((''result'', PStr result) # details) corr parent"

section \<open>Lemmas\<close>

lemma enum_roundtrips [simp]:
  "category_of (PStr (category_value c)) = Some c"
  "ev_severity_of (PStr (ev_severity_value s)) = Some s"
  "direction_of (PStr (direction_value d)) = Some d"
proof -
  show "category_of (PStr (category_value c)) = Some c"
    by (cases c) (simp_all add: category_of_def enum_of_def)
  show "ev_severity_of (PStr (ev_severity_value s)) = Some s"
    by (cases s) (simp_all add: ev_severity_of_def enum_of_def)
  show "direction_of (PStr (direction_value d)) = Some d"
    by (cases d) (simp_all add: direction_of_def enum_of_def)
qed

lemma later_fresh_uuid [simp]: "later w (snd (fresh_uuid w))"
  by (simp add: fresh_uuid_def fresh_hex_def later_def)

lemma later_make_event [simp]: "later w (snd (make_event c s d sm md i sf st m dt co pa w))"
  by (simp add: make_event_def fresh_uuid_def fresh_hex_def now_ms_def later_def)

text \<open>Making an event only consumes readings: the machines' outputs and the log stay.\<close>

lemma make_event_world [simp]:
  fixes w :: world
  shows "w_cal (snd (make_event c s d sm md i sf st m dt co pa w)) = w_cal w"
    and "w_out (snd (make_event c s d sm md i sf st m dt co pa w)) = w_out w"
  by (simp_all add: make_event_def fresh_uuid_def fresh_hex_def now_ms_def)

section \<open>Properties\<close>

text \<open>an event written as a dictionary and read back is the same event, whatever the clock
  and the identifier source yield in between; only the two default readings are consumed.\<close>

theorem event_roundtrip:
  fixes w :: world
  shows "event_from_dict (event_to_dict e) w = (Some e, snd (now_ms (snd (fresh_uuid w))))"
  by (simp add: event_from_dict_def event_to_dict_def dict_get_def split: prod.splits)

end
