(* ===== verification/Gov_Hub.thy ===== *)
theory Gov_Hub
  imports Auth_SM Lease_SM Risk_SM Recovery_Gate Recon_Engine Gov_Events Lease_IPC
begin

text \<open>
  The governance hub (\<open>app/governance_hub.py\<close>, \<open>governance_hub_cascades.py\<close> and
  \<open>governance_hub_event_handlers.py\<close>): one object that owns the three state machines and the
  reconciliation engine, answers whether trading is authorized, hands out leases, and carries
  a restriction of one machine over to the others. Every operation is a step on the pair of
  the hub and the world; an exception the code catches becomes what its handler does.

  What the hub is given from outside is a field holding a function: the shadow-mode provider,
  the learning gate and the answers of the Rust core over the lease bridge.
\<close>

section \<open>State\<close>

datatype GovernanceMode = GM_NORMAL | GM_RESTRICTED | GM_FROZEN | GM_MANUAL_REVIEW

fun mode_value :: "GovernanceMode \<Rightarrow> string" where
  "mode_value GM_NORMAL = ''NORMAL''"
| "mode_value GM_RESTRICTED = ''RESTRICTED''"
| "mode_value GM_FROZEN = ''FROZEN''"
| "mode_value GM_MANUAL_REVIEW = ''MANUAL_REVIEW''"

text \<open>
  The answers of the Rust core when the bridge is switched on: authorized or not (None: no
  answer), the lease id granted, whether a release was accepted, the lease as a dictionary.
\<close>

record lease_ipc =
  ipc_is_authorized :: "world \<Rightarrow> bool option"
  ipc_acquire :: "string \<Rightarrow> string \<Rightarrow> pyfloat \<Rightarrow> world \<Rightarrow> string option"
  ipc_release :: "string \<Rightarrow> bool \<Rightarrow> world \<Rightarrow> bool"
  ipc_get :: "string \<Rightarrow> world \<Rightarrow> pydict option"

text \<open>
  The same answers computed by the bridge over a transport. The mirror is left out here; an
  acquire whose time to live overflows raises inside the bridge and has no place in the hub's
  model, where it is read as no lease.
\<close>

definition bridge_ipc :: "transport \<Rightarrow> lease_ipc" where
  "bridge_ipc send =
     \<lparr>ipc_is_authorized = is_authorized_via_ipc send,
      ipc_acquire = (\<lambda>intent scope ttl w.
        (case fst (acquire_lease_via_ipc send intent scope (PFloat ttl) ''Production''
                     ''executor_agent_python'' [] w) of
           Inl _ \<Rightarrow> None | Inr lid \<Rightarrow> lid)),
      ipc_release = (\<lambda>lid consumed w. fst (release_lease_via_ipc send lid consumed [] w)),
      ipc_get = get_lease_via_ipc send\<rparr>"

text \<open>
  The shadow provider yields a flag or raises (None). The learning gate has no such method
  (None), or the method raises (Some None) or answers.
\<close>

record hub =
  h_enabled :: bool
  h_mode :: GovernanceMode
  h_auth :: "auth_sm option"
  h_risk :: "risk_sm option"
  h_lease :: "lease_sm option"
  h_recon :: "recon_engine option"
  h_callback_errors :: nat
  h_incident_count :: nat
  h_escalated :: "string list"
  h_initialized :: bool
  h_cache :: "(bool \<times> int) option"
  h_cal :: bool
  h_gate :: "recovery_gate option"
  h_learning :: "(string \<Rightarrow> bool option option) option"
  h_events :: "pydict list"
  h_shadow :: "(world \<Rightarrow> bool option) option"
  h_ipc :: "lease_ipc option"

definition hub_new :: "bool \<Rightarrow> hub" where
  "hub_new enabled =
     \<lparr>h_enabled = enabled, h_mode = GM_NORMAL, h_auth = None, h_risk = None, h_lease = None,
      h_recon = None, h_callback_errors = 0, h_incident_count = 0, h_escalated = [],
      h_initialized = False, h_cache = None, h_cal = False, h_gate = None, h_learning = None,
      h_events = [], h_shadow = None, h_ipc = None\<rparr>"

definition hub_set_shadow_mode_provider :: "(world \<Rightarrow> bool option) option \<Rightarrow> hub \<Rightarrow> hub" where
  "hub_set_shadow_mode_provider p h = h\<lparr>h_shadow := p\<rparr>"

definition hub_set_change_audit_log :: "hub \<Rightarrow> hub" where
  "hub_set_change_audit_log h = h\<lparr>h_cal := True\<rparr>"

definition hub_set_recovery_gate :: "recovery_gate \<Rightarrow> hub \<Rightarrow> hub" where
  "hub_set_recovery_gate g h = h\<lparr>h_gate := Some g\<rparr>"

definition hub_set_learning_tier_gate :: "(string \<Rightarrow> bool option option) \<Rightarrow> hub \<Rightarrow> hub" where
  "hub_set_learning_tier_gate g h = h\<lparr>h_learning := Some g\<rparr>"

definition hub_is_globally_enabled :: "hub \<Rightarrow> bool" where
  "hub_is_globally_enabled h = h_enabled h"

definition check_learning_tier_capability :: "string \<Rightarrow> hub \<Rightarrow> bool" where
  "check_learning_tier_capability capability h =
     (case h_learning h of
        None \<Rightarrow> True
      | Some gate \<Rightarrow>
          (case gate capability of
             None \<Rightarrow> True
           | Some None \<Rightarrow> False
           | Some (Some b) \<Rightarrow> b))"

text \<open>
  Lazy initialization: the machines are created with an audit callback; a change log that was
  set before is injected into them; the engine never freezes on critical findings by itself.
\<close>

definition hub_recon_config :: ReconciliationConfig where
  "hub_recon_config = default_recon_config\<lparr>auto_freeze_on_critical := False\<rparr>"

definition ensure_initialized :: "hub \<Rightarrow> world \<Rightarrow> hub \<times> world" where
  "ensure_initialized h w =
     (if h_initialized h then (h, w)
      else
        (let (r, w1) = risk_new None True w in
         (h\<lparr>h_auth := Some (if h_cal h then set_change_audit_log (new_store True) else new_store True),
            h_risk := Some (if h_cal h then risk_set_change_audit_log r else r),
            h_lease := Some (if h_cal h then set_change_audit_log (new_store True) else new_store True),
            h_recon := Some (recon_new (Some hub_recon_config) True True),
            h_initialized := True\<rparr>, w1)))"

section \<open>Shared steps\<close>

definition hub_error :: "hub \<Rightarrow> hub" where
  "hub_error h = h\<lparr>h_callback_errors := Suc (h_callback_errors h)\<rparr>"

definition hub_log ::
  "hub \<Rightarrow> string \<Rightarrow> string \<Rightarrow> string \<Rightarrow> pyval \<Rightarrow> pyval \<Rightarrow> world \<Rightarrow> world" where
  "hub_log h who what reason oldv newv w =
     (if h_cal h then cal_write who what reason oldv newv True w else w)"

definition max_events :: nat where
  "max_events = 1000"

definition append_governance_event :: "pydict \<Rightarrow> hub \<Rightarrow> hub" where
  "append_governance_event event h =
     (let es = h_events h @ [event] in
      h\<lparr>h_events := (if max_events < length es then drop (length es - max_events) es else es)\<rparr>)"

text \<open>One event for each id, in order.\<close>

fun emit_events ::
  "(string \<Rightarrow> world \<Rightarrow> GovernanceEvent \<times> world) \<Rightarrow> string list \<Rightarrow> hub \<Rightarrow> world \<Rightarrow> hub \<times> world" where
  "emit_events mk [] h w = (h, w)"
| "emit_events mk (i # is) h w =
     (let (ev, w1) = mk i w in
      emit_events mk is (append_governance_event (event_to_dict ev) h) w1)"

definition invalidate_auth_cache :: "hub \<Rightarrow> world \<Rightarrow> hub \<times> world" where
  "invalidate_auth_cache h w =
     (h\<lparr>h_cache := None\<rparr>,
      hub_log h ''GovernanceHub'' ''Authorization cache invalidated''
        ''State machine transition detected'' PNone PNone w)"

text \<open>A loop of machine calls, left by the first one that raises (False).\<close>

fun try_each ::
  "('i \<Rightarrow> 'sm \<Rightarrow> 'w \<Rightarrow> ('e + 'o) \<times> 'sm \<times> 'w) \<Rightarrow> 'i list \<Rightarrow> 'sm \<Rightarrow> 'w \<Rightarrow> bool \<times> 'sm \<times> 'w" where
  "try_each f [] sm w = (True, sm, w)"
| "try_each f (i # is) sm w =
     (case f i sm w of
        (Inl e, sm1, w1) \<Rightarrow> (False, sm1, w1)
      | (Inr x, sm1, w1) \<Rightarrow> try_each f is sm1 w1)"

definition auth_each :: "(string \<Rightarrow> auth_op) \<Rightarrow> string list \<Rightarrow> hub \<Rightarrow> world \<Rightarrow> bool \<times> hub \<times> world" where
  "auth_each f ids h w =
     (case h_auth h of
        None \<Rightarrow> (ids = [], h, w)
      | Some sm \<Rightarrow> (let (ok, sm1, w1) = try_each f ids sm w in (ok, h\<lparr>h_auth := Some sm1\<rparr>, w1)))"

definition effective_auths :: "hub \<Rightarrow> AuthorizationObject list" where
  "effective_auths h = (case h_auth h of None \<Rightarrow> [] | Some sm \<Rightarrow> auth_get_effective sm)"

definition active_auth_ids :: "hub \<Rightarrow> string list" where
  "active_auth_ids h = map authorization_id (filter (\<lambda>a. a_state a = A_ACTIVE) (effective_auths h))"

section \<open>The hot path\<close>

definition cache_ttl_ms :: int where
  "cache_ttl_ms = 100"

definition hub_is_authorized :: "hub \<Rightarrow> world \<Rightarrow> bool \<times> hub \<times> world" where
  "hub_is_authorized h w =
     (if \<not> h_enabled h \<or> h_mode h = GM_FROZEN then (False, h, w)
      else
        (let (now, w1) = now_ms w;
             fresh = (case h_cache h of None \<Rightarrow> None
                | Some (r, stamp) \<Rightarrow> if now - stamp < cache_ttl_ms then Some r else None)
         in (case fresh of
               Some r \<Rightarrow> (r, h, w1)
             | None \<Rightarrow>
                 (let (h1, w2) = ensure_initialized h w1;
                      result = (h_auth h1 \<noteq> None \<and> effective_auths h1 \<noteq> []);
                      (stamp, w3) = now_ms w2
                  in (result, h1\<lparr>h_cache := Some (result, stamp)\<rparr>, w3)))))"

text \<open>\<open>get_risk_level\<close> and \<open>check_risk_and_act\<close> (which ignores its metrics).\<close>

definition hub_get_risk_level :: "hub \<Rightarrow> world \<Rightarrow> int option \<times> world" where
  "hub_get_risk_level h w =
     (if \<not> h_enabled h \<or> \<not> h_initialized h then (None, w)
      else
        (case h_risk h of
           None \<Rightarrow> (None, w)
         | Some r \<Rightarrow> (let (s, w1) = risk_get_state r w in (Some (level_value (g_level s)), w1))))"

definition check_risk_and_act :: "pydict \<Rightarrow> hub \<Rightarrow> world \<Rightarrow> int option \<times> world" where
  "check_risk_and_act metrics h w =
     (if \<not> h_enabled h \<or> \<not> h_initialized h then (None, w)
      else
        (case h_risk h of
           None \<Rightarrow> (None, w)
         | Some r \<Rightarrow> (let (s, w1) = risk_get_state r w in (Some (level_value (g_level s)), w1))))"

section \<open>Cascades\<close>

text \<open>\<open>_on_auth_frozen\<close>: revoke every live lease, one call each, then report and log.\<close>

definition revoke_for_freeze :: "string \<Rightarrow> lease_op" where
  "revoke_for_freeze lid = lease_revoke lid ''GovernanceHub'' ''Authorization frozen'' LI_OPERATOR"

definition on_auth_frozen :: "string option \<Rightarrow> string option \<Rightarrow> hub \<Rightarrow> world \<Rightarrow> hub \<times> world" where
  "on_auth_frozen corr parent h w =
     (if \<not> h_enabled h \<or> \<not> h_initialized h then (h, w)
      else
        (case h_lease h of
           None \<Rightarrow> (h, w)
         | Some sm \<Rightarrow>
             (let ids = map lease_id (lease_get_live sm) in
              if ids = [] then (h, w)
              else
                (let (ok, sm1, w1) = try_each revoke_for_freeze ids sm w;
                     h1 = h\<lparr>h_lease := Some sm1\<rparr>
                 in if \<not> ok then (hub_error h1, w1)
                    else
                      (let (h2, w2) = emit_events
                             (\<lambda>i. lease_event ''ACTIVE'' ''REVOKED'' ''GovernanceHub'' i
                                (''Lease '' @ i @ '' revoked: authorization frozen cascade'') corr parent [])
                             ids h1 w1
                       in (h2, hub_log h2 ''GovernanceHub''
                             (''Authorization frozen: '' @ nat_str (length ids) @ '' active leases revoked'')
                             ''Authorization frozen cascade'' (PStr ''ACTIVE'') (PStr ''FROZEN'') w2))))))"

text \<open>\<open>_on_risk_escalation\<close>: the two halves of what happens outside the first lock.\<close>

definition cascade_mode :: "int \<Rightarrow> GovernanceMode" where
  "cascade_mode new_level =
     (if 5 \<le> new_level then GM_MANUAL_REVIEW
      else if 4 \<le> new_level then GM_FROZEN
      else if 2 \<le> new_level then GM_RESTRICTED
      else GM_NORMAL)"

definition cascade_restrict ::
  "int \<Rightarrow> string option \<Rightarrow> string option \<Rightarrow> string list \<Rightarrow> hub \<Rightarrow> world \<Rightarrow> hub \<times> world" where
  "cascade_restrict new_level corr parent ids h w =
     (if ids = [] then (h, w)
      else
        (let (ok, h1, w1) = auth_each (\<lambda>i. auth_restrict i
               (''Risk escalation to level '' @ int_str new_level) AI_INCIDENT_POLICY) ids h w
         in if \<not> ok then (hub_error h1, w1)
            else
              (let (h2, w2) = invalidate_auth_cache h1 w1
               in emit_events (\<lambda>i. auth_event ''ACTIVE'' ''RESTRICTED'' ''GovernanceHub''
                     (''Auth '' @ i @ '' restricted: risk escalation to level '' @ int_str new_level)
                     ES_INFO corr parent []) ids h2 w2)))"

definition cascade_freeze ::
  "int \<Rightarrow> string option \<Rightarrow> string option \<Rightarrow> string list \<Rightarrow> hub \<Rightarrow> world \<Rightarrow> hub \<times> world" where
  "cascade_freeze new_level corr parent ids h w =
     (if ids = [] then (h, w)
      else
        (let (ok, h1, w1) = auth_each (\<lambda>i. auth_freeze i
               (''Circuit breaker triggered at risk level '' @ int_str new_level) AI_INCIDENT_POLICY) ids h w
         in if \<not> ok then (hub_error h1, w1)
            else
              (let (h2, w2) = invalidate_auth_cache h1 w1;
                   (h3, w3) = emit_events (\<lambda>i. auth_event ''ACTIVE'' ''FROZEN'' ''GovernanceHub''
                     (''Auth '' @ i @ '' frozen: circuit breaker at risk level '' @ int_str new_level)
                     ES_INFO corr parent []) ids h2 w2
               in on_auth_frozen corr parent h3 w3)))"

definition on_risk_escalation :: "int \<Rightarrow> int \<Rightarrow> hub \<Rightarrow> world \<Rightarrow> hub \<times> world" where
  "on_risk_escalation old_level new_level h w =
     (if \<not> h_enabled h \<or> \<not> h_initialized h then (h, w)
      else
        (let (corr, w1) = fresh_uuid w;
             (ev, w2) = risk_event old_level new_level ''SYSTEM''
                ''Automatic risk escalation triggered'' (Some corr) None [] w1;
             h1 = append_governance_event (event_to_dict ev)
                    (h\<lparr>h_incident_count := Suc (h_incident_count h)\<rparr>);
             w3 = hub_log h1 ''GovernanceHub''
                    (''Risk level changed: '' @ int_str old_level @ arrow @ int_str new_level)
                    ''Automatic risk escalation'' (PInt old_level) (PInt new_level) w2;
             to_restrict = (if 2 \<le> new_level then active_auth_ids h1 else []);
             to_freeze = (if 4 \<le> new_level then map authorization_id (effective_auths h1) else []);
             parent = as_str (ge_id ev);
             (h2, w4) = cascade_restrict new_level (Some corr) parent to_restrict
                          (h1\<lparr>h_mode := cascade_mode new_level\<rparr>) w3
         in cascade_freeze new_level (Some corr) parent to_freeze h2 w4))"

text \<open>
  \<open>_on_reconciliation_mismatch\<close>. The report is splatted into the event factory: a key that the
  call names too makes it raise before anything happens; a \<open>severity\<close> key puts a plain text
  where the enum is expected, so the event gets its id but cannot be written out.
\<close>

definition recon_mismatch_event ::
  "string \<Rightarrow> pydict \<Rightarrow> string \<Rightarrow> hub \<Rightarrow> world \<Rightarrow> string option \<times> hub \<times> world" where
  "recon_mismatch_event severity details corr h w =
     (if \<exists>k \<in> set [''result'', ''initiator'', ''message'', ''correlation_id'']. map_of details k \<noteq> None
      then (None, h, w)
      else
        (let (ev, w1) = recon_event severity ''SYSTEM''
               (''Reconciliation mismatch detected: '' @ severity) ES_INFO (Some corr) None
               (AList.delete ''severity'' (AList.delete ''parent_event_id'' details)) w;
             ev1 = ev\<lparr>ge_parent_event_id := dict_get details ''parent_event_id'' PNone\<rparr>
         in (as_str (ge_id ev1),
             if map_of details ''severity'' = None then append_governance_event (event_to_dict ev1) h else h,
             w1)))"

definition hub_escalate :: "RiskLevel \<Rightarrow> string \<Rightarrow> hub \<Rightarrow> world \<Rightarrow> hub \<times> world" where
  "hub_escalate level reason h w =
     (case h_risk h of
        None \<Rightarrow> (h, w)
      | Some r \<Rightarrow>
          (case risk_escalate_to level reason RE_OPERATOR_ESCALATION (RI RI_RISK_GOVERNOR) None r w of
             (Inl e, r1, w1) \<Rightarrow> (hub_error (h\<lparr>h_risk := Some r1\<rparr>), w1)
           | (Inr s, r1, w1) \<Rightarrow> (h\<lparr>h_risk := Some r1\<rparr>, w1)))"

text \<open>The level a major mismatch asks for, read from a copy of the governor's state.\<close>

definition mismatch_target :: "string \<Rightarrow> hub \<Rightarrow> world \<Rightarrow> RiskLevel option \<times> world" where
  "mismatch_target severity h w =
     (case h_risk h of
        None \<Rightarrow> (None, w)
      | Some r \<Rightarrow>
          (if severity = ''MISMATCH_MAJOR'' then
             (let (s, w1) = risk_get_state r w
              in (Some (if g_level s < R_REDUCED then R_REDUCED else R_DEFENSIVE), w1))
           else if severity = ''FATAL'' then (Some R_CIRCUIT_BREAKER, w)
           else (None, w)))"

definition fatal_freeze :: "string option \<Rightarrow> string option \<Rightarrow> string list \<Rightarrow> hub \<Rightarrow> world \<Rightarrow> hub \<times> world" where
  "fatal_freeze corr parent ids h w =
     (if ids = [] then (h, w)
      else
        (let (ok, h1, w1) = auth_each (\<lambda>i. auth_freeze i ''Fatal reconciliation mismatch'' AI_INCIDENT_POLICY) ids h w
         in if \<not> ok then (hub_error h1, w1)
            else
              (let (h2, w2) = invalidate_auth_cache h1 w1;
                   (h3, w3) = on_auth_frozen corr parent h2 w2
               in emit_events (\<lambda>i. auth_event ''ACTIVE'' ''FROZEN'' ''GovernanceHub''
                     (''Auth '' @ i @ '' frozen: fatal reconciliation mismatch cascade'')
                     ES_INFO corr parent []) ids h3 w3)))"

definition log_mismatch :: "(pyval \<Rightarrow> string) \<Rightarrow> string \<Rightarrow> pydict \<Rightarrow> hub \<Rightarrow> world \<Rightarrow> world" where
  "log_mismatch other severity details h w =
     (let what = ''Reconciliation mismatch detected: '' @ severity;
          pending = (case w_cal w of None \<Rightarrow> False
             | Some c \<Rightarrow> \<exists>p \<in> set (get_pending_approvals c). cr_what p = what)
      in if pending then w
         else hub_log h ''GovernanceHub'' what
                (py_str other (dict_get details ''reason'' (PStr ''reconciliation_mismatch'')))
                (PStr ''consistent'') (PStr ''mismatch'') w)"

definition on_reconciliation_mismatch ::
  "(pyval \<Rightarrow> string) \<Rightarrow> string \<Rightarrow> pydict \<Rightarrow> hub \<Rightarrow> world \<Rightarrow> hub \<times> world" where
  "on_reconciliation_mismatch other severity details h w =
     (if \<not> h_enabled h \<or> \<not> h_initialized h then (h, w)
      else
        (let (corr, w1) = fresh_uuid w;
             (parent, h1, w2) = recon_mismatch_event severity details corr
                 (h\<lparr>h_incident_count := Suc (h_incident_count h)\<rparr>) w1
         in if severity = ''MISMATCH_MINOR'' then (h1, w2)
            else
              (let (target, w3) = mismatch_target severity h1 w2;
                   ids = (if severity = ''FATAL'' then map authorization_id (effective_auths h1) else []);
                   h2 = (if severity = ''FATAL'' then h1\<lparr>h_mode := GM_FROZEN\<rparr> else h1);
                   (h3, w4) = (case target of None \<Rightarrow> (h2, w3)
                      | Some level \<Rightarrow> hub_escalate level (''reconciliation_'' @ str_lower severity) h2 w3);
                   (h4, w5) = fatal_freeze (Some corr) parent ids h3 w4
               in (h4, log_mismatch other severity details h4 w5))))"

section \<open>Incident actions\<close>

definition incident_reason :: "(pyval \<Rightarrow> string) \<Rightarrow> string \<Rightarrow> pydict \<Rightarrow> string" where
  "incident_reason other action context =
     ''Incident '' @ action @ '': '' @ py_str other (dict_get context ''reason_code'' PNone)"

definition handle_incident_auth_action ::
  "(pyval \<Rightarrow> string) \<Rightarrow> string \<Rightarrow> pydict \<Rightarrow> hub \<Rightarrow> world \<Rightarrow> hub \<times> world" where
  "handle_incident_auth_action other action context h w =
     (if \<not> h_enabled h \<or> \<not> h_initialized h \<or> h_auth h = None then (h, w)
      else if action = ''AUTH_RESTRICT'' then
        (let (ok, h1, w1) = auth_each (\<lambda>i. auth_restrict i (incident_reason other action context)
               AI_INCIDENT_POLICY) (active_auth_ids h) h w
         in if ok then invalidate_auth_cache h1 w1 else (hub_error h1, w1))
      else if action = ''AUTH_FREEZE'' then
        (let (ok, h1, w1) = auth_each (\<lambda>i. auth_freeze i (incident_reason other action context)
               AI_INCIDENT_POLICY) (map authorization_id (effective_auths h)) h w
         in if ok then (let (h2, w2) = invalidate_auth_cache h1 w1 in on_auth_frozen None None h2 w2)
            else (hub_error h1, w1))
      else (h, w))"

definition action_to_level :: "(string \<times> RiskLevel) list" where
  "action_to_level =
     [(''RISK_ESCALATE_CAUTIOUS'', R_CAUTIOUS), (''RISK_ESCALATE_REDUCED'', R_REDUCED),
      (''RISK_ESCALATE_DEFENSIVE'', R_DEFENSIVE), (''RISK_CIRCUIT_BREAKER'', R_CIRCUIT_BREAKER)]"

definition handle_incident_risk_action ::
  "(pyval \<Rightarrow> string) \<Rightarrow> string \<Rightarrow> pydict \<Rightarrow> hub \<Rightarrow> world \<Rightarrow> hub \<times> world" where
  "handle_incident_risk_action other action context h w =
     (if \<not> h_enabled h \<or> \<not> h_initialized h then (h, w)
      else
        (case (h_risk h, map_of action_to_level action) of
           (Some r, Some target) \<Rightarrow>
             (let (s, w1) = risk_get_state r w in
              if g_level s < target then
                (case risk_escalate_to target (incident_reason other action context)
                        RE_OPERATOR_ESCALATION (RI RI_INCIDENT_POLICY) None r w1 of
                   (Inl e, r1, w2) \<Rightarrow> (hub_error (h\<lparr>h_risk := Some r1\<rparr>), w2)
                 | (Inr s1, r1, w2) \<Rightarrow> (h\<lparr>h_risk := Some r1\<rparr>, w2))
              else (h, w1))
         | _ \<Rightarrow> (h, w)))"

text \<open>
  \<open>trigger_risk_upgrade\<close>: the event names its severity; the initiator handed to the governor
  is the text \<open>"GuardianAgent"\<close>. An exception is only logged.
\<close>

definition upgrade_target :: "pyval \<Rightarrow> RiskLevel \<Rightarrow> RiskLevel option" where
  "upgrade_target severity current =
     (if severity = PStr ''critical'' then Some R_CIRCUIT_BREAKER
      else if severity = PStr ''high'' then
        (if level_value current < 2 then Some R_REDUCED
         else level_of_value (min (level_value current + 1) 4))
      else None)"

definition trigger_risk_upgrade :: "(pyval \<Rightarrow> string) \<Rightarrow> pydict \<Rightarrow> hub \<Rightarrow> world \<Rightarrow> hub \<times> world" where
  "trigger_risk_upgrade other event h w =
     (if \<not> h_enabled h \<or> \<not> h_initialized h then (h, w)
      else
        (let severity = dict_get event ''risk_level'' (PStr ''medium'');
             etype = dict_get event ''event_type'' (PStr ''unknown'')
         in (case h_risk h of
               None \<Rightarrow> (h, w)
             | Some r \<Rightarrow>
                 (let (s, w1) = risk_get_state r w in
                  (case upgrade_target severity (g_level s) of
                     None \<Rightarrow> (h, w1)
                   | Some target \<Rightarrow>
                       (if level_value target \<le> level_value (g_level s) then (h, w1)
                        else
                          (case risk_escalate_to target
                                  (''Guardian event: '' @ py_str other etype @ '' (risk='' @
                                     py_str other severity @ '')'')
                                  RE_OPERATOR_ESCALATION (RawStr ''GuardianAgent'') None r w1 of
                             (Inl e, r1, w2) \<Rightarrow> (h\<lparr>h_risk := Some r1\<rparr>, w2)
                           | (Inr s1, r1, w2) \<Rightarrow>
                               (let (ev, w3) = risk_event (level_value (g_level s)) (level_value target)
                                      ''GuardianAgent''
                                      (''Event: '' @ py_str other etype @ '', risk_level: '' @
                                         py_str other severity) None None [] w2
                                in (append_governance_event (event_to_dict ev) (h\<lparr>h_risk := Some r1\<rparr>),
                                    w3)))))))))"

section \<open>Reconciliation\<close>

definition RECONCILE_ADVISORY_FIRST_MAX_ESCALATION :: string where
  "RECONCILE_ADVISORY_FIRST_MAX_ESCALATION = ''MISMATCH_MAJOR''"

definition apply_reconcile_advisory_cap :: "string option \<Rightarrow> string option" where
  "apply_reconcile_advisory_cap token =
     (if token = Some ''FATAL'' then Some RECONCILE_ADVISORY_FIRST_MAX_ESCALATION else token)"

text \<open>The incident callback: at most one escalation for each of the last 512 report ids.\<close>

definition max_escalated :: nat where
  "max_escalated = 512"

definition remember_report :: "string \<Rightarrow> hub \<Rightarrow> hub" where
  "remember_report rid h =
     (let ids = h_escalated h @ [rid] in
      h\<lparr>h_escalated := (if max_escalated < length ids then drop (length ids - max_escalated) ids else ids)\<rparr>)"

definition incident_callback ::
  "(pyval \<Rightarrow> string) \<Rightarrow> pydict \<Rightarrow> string \<Rightarrow> hub \<times> world \<Rightarrow> hub \<times> world" where
  "incident_callback other report action hw =
     (let (h, w) = hw; rid = py_str other (dict_get report ''report_id'' (PStr [])) in
      if rid \<noteq> [] \<and> rid \<in> set (h_escalated h) then (h, w)
      else
        (let h1 = (if rid \<noteq> [] then remember_report rid h else h) in
         (case map_report_to_escalation other report of
            None \<Rightarrow> (hub_error h1, w)
          | Some esc \<Rightarrow>
              (case apply_reconcile_advisory_cap esc of
                 None \<Rightarrow> (h1, w)
               | Some token \<Rightarrow> on_reconciliation_mismatch other token report h1 w))))"

text \<open>
  One cycle of the engine with the hub as its incident callback: the engine's body decides the
  actions, each is handed to the hub, then the engine finishes the report. The engine without
  its callback makes the same decisions; it is put back with its callback afterwards.
\<close>

definition hub_recon_cycle ::
  "runtime \<Rightarrow> pydict \<Rightarrow> pydict \<Rightarrow> recon_engine \<Rightarrow> hub \<Rightarrow> world \<Rightarrow> ReconciliationReport \<times> hub \<times> world" where
  "hub_recon_cycle rt paper remote e h w =
     (let (p0, w0) = report_post_init (fresh_report paper remote) w;
          (p1, e1, w1) = recon_body rt paper remote (e\<lparr>e_incident_cb := False\<rparr>) p0 w0;
          (h1, w2) = (if e_incident_cb e
             then fold (incident_callback (rt_str rt) (report_to_dict p1)) (p_actions p1) (h, w1)
             else (h, w1));
          (t, w3) = now_ms w2;
          p2 = p1\<lparr>p_completed_ms := t\<rparr>;
          e2 = (file_report p2 e1)\<lparr>e_incident_cb := e_incident_cb e\<rparr>
      in (p2, h1\<lparr>h_recon := Some e2\<rparr>, recon_emit_audit e2 p2 w3))"

definition hub_refusal :: "string \<Rightarrow> pydict" where
  "hub_refusal reason = [(''ok'', PBool False), (''reason'', PStr reason)]"

definition hub_reconcile ::
  "runtime \<Rightarrow> pydict \<Rightarrow> pydict option \<Rightarrow> hub \<Rightarrow> world \<Rightarrow> pydict \<times> hub \<times> world" where
  "hub_reconcile rt paper demo h w =
     (if \<not> h_enabled h \<or> \<not> h_initialized h then (hub_refusal ''governance_disabled'', h, w)
      else
        (case h_recon h of
           None \<Rightarrow> (hub_refusal ''reconciliation_engine_unavailable'', h, w)
         | Some e \<Rightarrow>
             (case demo of
                None \<Rightarrow> (hub_refusal ''demo_state_required'', h, w)
              | Some remote \<Rightarrow>
                  (if e_closed e then
                     (hub_refusal ''reconciliation_error'' @ [(''error'', PStr ''Reconciliation error'')], h, w)
                   else
                     (let (p, h1, w1) = hub_recon_cycle rt paper remote e h w
                      in (report_to_dict p, h1, w1))))))"

section \<open>Authorization and leases\<close>

text \<open>The texts of the automatic grant, as their UTF-8 bytes.\<close>

definition paper_title :: string where
  "paper_title = ''Paper Trading Auto-Authorization / '' @
     utf8 [231, 186, 184, 231, 155, 152, 228, 186, 164, 230, 152, 147, 232, 135, 170, 229,
       138, 168, 230, 142, 136, 230, 157, 131]"

definition paper_description :: string where
  "paper_description = ''Auto-granted on paper session start. No real funds at risk. / '' @
     utf8 [231, 186, 184, 231, 155, 152, 32, 115, 101, 115, 115, 105, 111, 110, 32, 229, 144,
       175, 229, 138, 168, 230, 151, 182, 232, 135, 170, 229, 138, 168, 230, 142, 136, 230,
       157, 131, 239, 188, 140, 230, 151, 160, 231, 156, 159, 229, 174, 158, 232, 181, 132,
       233, 135, 145, 233, 163, 142, 233, 153, 169, 227, 128, 130]"

definition paper_reason :: string where
  "paper_reason = ''Paper trading carries zero real-funds risk; auto-approved by system. / '' @
     utf8 [231, 186, 184, 231, 155, 152, 230, 151, 160, 231, 156, 159, 229, 174, 158, 232,
       181, 132, 233, 135, 145, 233, 163, 142, 233, 153, 169, 239, 188, 140, 231, 179, 187,
       231, 187, 159, 232, 135, 170, 229, 138, 168, 230, 137, 185, 229, 135, 134, 227, 128,
       130]"

definition paper_scope :: "pyfloat \<Rightarrow> pydict" where
  "paper_scope max_usd =
     [(''mode'', PStr ''paper_only''), (''execution'', PList [PStr ''paper_submit'']),
      (''max_position_usd'', PFloat max_usd), (''auto_approved'', PBool True),
      (''risk_source_of_truth'', PStr ''gui_rust_risk_config_plus_equity'')]"

text \<open>
  \<open>int((time.time() + ttl_hours * 3600) * 1000)\<close>; None: not representable (\<open>OverflowError\<close>).
\<close>

definition paper_expiry :: "int \<Rightarrow> world \<Rightarrow> int option \<times> world" where
  "paper_expiry ttl_hours w =
     (let (t, w1) = read_clock w in
      (case fl_round (of_int (ttl_hours * 3600)) of
         Fin ttl \<Rightarrow> int_of_float (fmul (fadd (Fin (secs t)) (Fin ttl)) (Fin 1000))
       | _ \<Rightarrow> None, w1))"

text \<open>
  The three steps of the grant on the authorization machine. A raised error ends the steps
  (False) and leaves what was done.
\<close>

definition paper_grant_steps :: "pyfloat \<Rightarrow> int \<Rightarrow> auth_sm \<Rightarrow> world \<Rightarrow> bool \<times> auth_sm \<times> world" where
  "paper_grant_steps max_usd expires sm w =
     (let (a, sm1, w1) = auth_create_draft paper_title (paper_scope max_usd) ''system_paper_auto''
             paper_description (Some expires) sm w;
          aid = authorization_id a
      in (case auth_submit_for_approval aid AI_AUTHORIZATION_GOVERNANCE sm1 w1 of
            (Inl e, sm2, w2) \<Rightarrow> (False, sm2, w2)
          | (Inr x, sm2, w2) \<Rightarrow>
              (case auth_approve aid ''system_paper_auto'' paper_reason sm2 w2 of
                 (Inl e, sm3, w3) \<Rightarrow> (False, sm3, w3)
               | (Inr y, sm3, w3) \<Rightarrow> (True, sm3, w3))))"

text \<open>
  \<open>grant_paper_authorization\<close>; None: the exception of \<open>float(...)\<close> that is not caught.
\<close>

definition grant_paper_authorization ::
  "int \<Rightarrow> pyval \<Rightarrow> hub \<Rightarrow> world \<Rightarrow> bool option \<times> hub \<times> world" where
  "grant_paper_authorization ttl_hours max_position_usd h w =
     (case (h_auth h, h_initialized h) of
        (Some sm, True) \<Rightarrow>
          (case py_float max_position_usd of
             Inl ConvInvalid \<Rightarrow> (Some False, h, w)
           | Inl ConvOverflow \<Rightarrow> (None, h, w)
           | Inr usd \<Rightarrow>
               (if fle usd (Fin 0) then (Some False, h, w)
                else if auth_get_effective sm \<noteq> [] then (Some True, h, w)
                else
                  (case paper_expiry ttl_hours w of
                     (None, w1) \<Rightarrow> (Some False, h, w1)
                   | (Some expires, w1) \<Rightarrow>
                       (let (ok, sm1, w2) = paper_grant_steps usd expires sm w1;
                            h1 = h\<lparr>h_auth := Some sm1\<rparr>
                        in if \<not> ok then (Some False, h1, w2)
                           else (let (h2, w3) = invalidate_auth_cache h1 w2 in (Some True, h2, w3))))))
      | _ \<Rightarrow> (Some False, h, w))"

text \<open>
  \<open>_auth_permits_scope\<close> on an authorization's dictionary: an absent or empty list of lease
  scopes permits everything; a scope of another type raises and is refused.
\<close>

definition auth_permits_scope :: "pydict \<Rightarrow> string \<Rightarrow> bool" where
  "auth_permits_scope d scope \<longleftrightarrow>
     dict_get d ''state'' PNone \<in> {PStr ''ACTIVE'', PStr ''RESTRICTED''} \<and>
     (case py_get (dict_get d ''scope'' (PDict [])) ''lease_scopes'' (PList []) of
        None \<Rightarrow> False
      | Some scopes \<Rightarrow>
          if truthy scopes then (case py_has scope scopes of None \<Rightarrow> False | Some b \<Rightarrow> b) else True)"

text \<open>The local machine's own verdicts, for comparison with the Rust core's.\<close>

definition rust_acquire_outcome :: "string option \<Rightarrow> string" where
  "rust_acquire_outcome lid =
     (case lid of
        None \<Rightarrow> OUTCOME_DENIED
      | Some l \<Rightarrow> if l = ''bypass'' \<or> is_shadow_bypass_lease_id l then OUTCOME_BYPASS else OUTCOME_GRANTED)"

definition granted_or_denied :: "bool \<Rightarrow> string" where
  "granted_or_denied b = (if b then OUTCOME_GRANTED else OUTCOME_DENIED)"

definition first_auth_permits :: "string \<Rightarrow> hub \<Rightarrow> bool" where
  "first_auth_permits scope h =
     (case effective_auths h of [] \<Rightarrow> False | a # rest \<Rightarrow> auth_permits_scope (auth_to_dict a) scope)"

definition shadow_local_acquire_outcome :: "string \<Rightarrow> hub \<Rightarrow> world \<Rightarrow> string \<times> hub \<times> world" where
  "shadow_local_acquire_outcome scope h w =
     (case hub_is_authorized h w of
        (False, h1, w1) \<Rightarrow> (OUTCOME_DENIED, h1, w1)
      | (True, h1, w1) \<Rightarrow> (granted_or_denied (first_auth_permits scope h1), h1, w1))"

definition shadow_local_lease_presence :: "string \<Rightarrow> hub \<Rightarrow> string" where
  "shadow_local_lease_presence lid h =
     (case h_lease h of
        None \<Rightarrow> OUTCOME_UNKNOWN
      | Some sm \<Rightarrow>
          (case store_get lid sm of
             None \<Rightarrow> OUTCOME_UNKNOWN
           | Some l \<Rightarrow> granted_or_denied (l_state l \<notin> {L_REVOKED, L_EXPIRED, L_REJECTED, L_CONSUMED})))"

text \<open>What the comparator and the dual-write mirror (Lease_IPC) are handed. They are module
  state that no operation of the hub reads back, so the hand-over is recorded and nothing more.\<close>

definition hub_divergence :: "comparison \<Rightarrow> world \<Rightarrow> world" where
  "hub_divergence c =
     emit_audit ''lease_divergence'' True
       [(''op'', PStr (cp_op c)), (''rust'', PStr (cp_rust c)), (''python'', PStr (cp_python c)),
        (''intent_id'', opt_str (cp_intent_id c)), (''scope'', opt_str (cp_scope c)),
        (''lease_id'', opt_str (cp_lease_id c))]"

definition compared :: "string \<Rightarrow> string option \<Rightarrow> string option \<Rightarrow> string option \<Rightarrow> string \<Rightarrow> string \<Rightarrow> comparison" where
  "compared op_name intent scope lid rust python =
     \<lparr>cp_op = op_name, cp_intent_id = intent, cp_scope = scope, cp_profile = None, cp_lease_id = lid,
      cp_rust = rust, cp_python = python, cp_fields = None\<rparr>"

definition hub_mirror_acquire :: "string \<Rightarrow> string \<Rightarrow> string \<Rightarrow> pyfloat \<Rightarrow> world \<Rightarrow> world" where
  "hub_mirror_acquire lid intent scope ttl =
     emit_audit ''lease_mirror'' True
       [(''lease_id'', PStr lid), (''intent_id'', PStr intent), (''scope'', PStr scope),
        (''ttl_seconds'', PFloat ttl), (''source'', PStr ''py'')]"

definition hub_mirror_release :: "string \<Rightarrow> bool \<Rightarrow> world \<Rightarrow> world" where
  "hub_mirror_release lid consumed =
     emit_audit ''lease_mirror'' True
       [(''lease_id'', PStr lid), (''outcome'', PStr (if consumed then ''Consumed'' else ''Failed''))]"

definition compare_auth_axis :: "lease_ipc \<Rightarrow> string \<Rightarrow> string \<Rightarrow> hub \<Rightarrow> world \<Rightarrow> hub \<times> world" where
  "compare_auth_axis ipc intent scope h w =
     (case ipc_is_authorized ipc w of
        None \<Rightarrow> (h, w)
      | Some rust \<Rightarrow>
          (let (python, h1, w1) = hub_is_authorized h w
           in (h1, hub_divergence (compared ''is_authorized'' (Some intent) (Some scope) None
                   (granted_or_denied rust) (granted_or_denied python)) w1)))"

text \<open>
  The local path of \<open>acquire_lease\<close>: the first effective authorization must permit the scope;
  the lease is drafted with an expiry, registered and activated.
\<close>

definition lease_ttl_ms :: "pyfloat \<Rightarrow> int option" where
  "lease_ttl_ms ttl = int_of_float (fmul ttl (Fin 1000))"

definition lease_open_steps ::
  "string \<Rightarrow> string \<Rightarrow> int \<Rightarrow> lease_sm \<Rightarrow> world \<Rightarrow> string option \<times> lease_sm \<times> world" where
  "lease_open_steps intent scope expires sm w =
     (let (l, sm1, w1) = lease_create_draft [(''intent_id'', PStr intent), (''scope'', PStr scope)]
             ''GovernanceHub'' ''H5'' [] None (Some expires) sm w;
          lid = lease_id l
      in (case lease_register lid sm1 w1 of
            (Inl e, sm2, w2) \<Rightarrow> (None, sm2, w2)
          | (Inr x, sm2, w2) \<Rightarrow>
              (case lease_activate lid sm2 w2 of
                 (Inl e, sm3, w3) \<Rightarrow> (None, sm3, w3)
               | (Inr y, sm3, w3) \<Rightarrow> (Some lid, sm3, w3))))"

definition acquire_local :: "string \<Rightarrow> string \<Rightarrow> pyfloat \<Rightarrow> hub \<Rightarrow> world \<Rightarrow> string option \<times> hub \<times> world" where
  "acquire_local intent scope ttl h w =
     (case (h_lease h, h_auth h) of
        (Some sm, Some _) \<Rightarrow>
          (if \<not> first_auth_permits scope h then (None, h, w)
           else
             (let (now, w1) = now_ms w in
              (case lease_ttl_ms ttl of
                 None \<Rightarrow> (None, h, w1)
               | Some ms \<Rightarrow>
                   (let (lid, sm1, w2) = lease_open_steps intent scope (now + ms) sm w1
                    in (lid, h\<lparr>h_lease := Some sm1\<rparr>,
                       case lid of None \<Rightarrow> w2 | Some i \<Rightarrow> hub_mirror_acquire i intent scope ttl w2)))))
      | _ \<Rightarrow> (None, h, w))"

definition acquire_ipc ::
  "lease_ipc \<Rightarrow> string \<Rightarrow> string \<Rightarrow> pyfloat \<Rightarrow> hub \<Rightarrow> world \<Rightarrow> string option \<times> hub \<times> world" where
  "acquire_ipc ipc intent scope ttl h w =
     (let rust = ipc_acquire ipc intent scope ttl w;
          outcome = rust_acquire_outcome rust;
          (python, h1, w1) = shadow_local_acquire_outcome scope h w
      in (rust, h1, if outcome = OUTCOME_BYPASS then w1 else hub_divergence (compared ''acquire'' (Some intent) (Some scope) None outcome python) w1))"

definition acquire_lease :: "string \<Rightarrow> string \<Rightarrow> pyfloat \<Rightarrow> hub \<Rightarrow> world \<Rightarrow> string option \<times> hub \<times> world" where
  "acquire_lease intent scope ttl h w =
     (case shadow_short_circuit_acquire intent (h_shadow h) w of
        Some sentinel \<Rightarrow> (Some sentinel, h, w)
      | None \<Rightarrow>
          (let (h1, w1) = (case h_ipc h of None \<Rightarrow> (h, w) | Some ipc \<Rightarrow> compare_auth_axis ipc intent scope h w) in
           if \<not> h_enabled h1 \<or> \<not> h_initialized h1 then (None, h1, w1)
           else
             (case hub_is_authorized h1 w1 of
                (False, h2, w2) \<Rightarrow> (None, h2, w2)
              | (True, h2, w2) \<Rightarrow>
                  (case h_ipc h2 of
                     None \<Rightarrow> acquire_local intent scope ttl h2 w2
                   | Some ipc \<Rightarrow> acquire_ipc ipc intent scope ttl h2 w2))))"

definition release_op :: "bool \<Rightarrow> string \<Rightarrow> lease_op" where
  "release_op consumed lid =
     (if consumed then lease_consume lid else lease_revoke lid ''GovernanceHub'' [] LI_OPERATOR)"

definition release_lease :: "string \<Rightarrow> bool \<Rightarrow> hub \<Rightarrow> world \<Rightarrow> bool \<times> hub \<times> world" where
  "release_lease lid consumed h w =
     (if is_shadow_bypass_lease_id lid then (True, h, w)
      else if \<not> h_enabled h \<or> \<not> h_initialized h then (False, h, w)
      else
        (case h_ipc h of
           Some ipc \<Rightarrow>
             (let ok = ipc_release ipc lid consumed w
              in (ok, h, hub_divergence (compared ''release'' None None (Some lid)
                   (granted_or_denied ok) (shadow_local_lease_presence lid h)) w))
         | None \<Rightarrow>
             (case h_lease h of
                None \<Rightarrow> (False, h, w)
              | Some sm \<Rightarrow>
                  (case release_op consumed lid sm w of
                     (Inl e, sm1, w1) \<Rightarrow> (False, h\<lparr>h_lease := Some sm1\<rparr>, w1)
                   | (Inr x, sm1, w1) \<Rightarrow> (True, h\<lparr>h_lease := Some sm1\<rparr>, hub_mirror_release lid consumed w1)))))"

text \<open>A lease as the bridge returns it, or as the local object.\<close>

datatype lease_view = RustLease pydict | LocalLease DecisionLeaseObject

definition get_lease :: "string \<Rightarrow> hub \<Rightarrow> world \<Rightarrow> lease_view option \<times> world" where
  "get_lease lid h w =
     (if is_shadow_bypass_lease_id lid then (None, w)
      else
        (case h_ipc h of
           Some ipc \<Rightarrow>
             (let d = ipc_get ipc lid w
              in (map_option RustLease d,
                  hub_divergence (compared ''get'' None None (Some lid)
                    (granted_or_denied (d \<noteq> None)) (shadow_local_lease_presence lid h)) w))
         | None \<Rightarrow>
             (case h_lease h of
                None \<Rightarrow> (None, w)
              | Some sm \<Rightarrow> (map_option LocalLease (store_get lid sm), w))))"

definition drive_lease_expiry :: "hub \<Rightarrow> world \<Rightarrow> string list \<times> hub \<times> world" where
  "drive_lease_expiry h w =
     (case h_lease h of
        None \<Rightarrow> ([], h, w)
      | Some sm \<Rightarrow>
          (let (ids, sm1, w1) = lease_check_expiry sm w in (ids, h\<lparr>h_lease := Some sm1\<rparr>, w1)))"

section \<open>De-escalation\<close>

definition request_de_escalation ::
  "int \<Rightarrow> string \<Rightarrow> string \<Rightarrow> hub \<Rightarrow> world \<Rightarrow> string option \<times> hub \<times> world" where
  "request_de_escalation target_level requested_by reason h w =
     (case h_gate h of
        None \<Rightarrow> (None, h, w)
      | Some g \<Rightarrow>
          (if \<not> h_enabled h \<or> \<not> h_initialized h \<or>
              \<not> check_learning_tier_capability ''can_evolve_strategies'' h then (None, h, w)
           else
             (case h_risk h of
                None \<Rightarrow> (None, h, w)
              | Some r \<Rightarrow>
                  (let (s, w1) = risk_get_state r w in
                   if level_value (g_level s) \<le> target_level then (None, h, w1)
                   else
                     (case level_of_value target_level of
                        None \<Rightarrow> (None, h, w1)
                      | Some target \<Rightarrow>
                          (let (req, g1, w2) = submit_recovery_request RISK_DEESCALATE
                                 (level_name (g_level s)) (level_name target) requested_by reason 0 None g w1
                           in (Some (rq_id req), h\<lparr>h_gate := Some g1\<rparr>, w2)))))))"

text \<open>
  \<open>approve_de_escalation\<close>: the gate's decision comes first; what the governor then refuses
  (or a target that is no level) leaves the request decided.
\<close>

definition approve_de_escalation :: "string \<Rightarrow> string \<Rightarrow> hub \<Rightarrow> world \<Rightarrow> bool \<times> hub \<times> world" where
  "approve_de_escalation rid approved_by h w =
     (case (h_gate h, h_risk h) of
        (Some g, Some r) \<Rightarrow>
          (if \<not> h_enabled h \<or> \<not> h_initialized h then (False, h, w)
           else
             (case map_of (gate_requests g) rid of
                None \<Rightarrow> (False, h, w)
              | Some req \<Rightarrow>
                  (case approve_recovery rid approved_by None None [] g w of
                     (None, g1, w1) \<Rightarrow> (False, h\<lparr>h_gate := Some g1\<rparr>, w1)
                   | (Some a, g1, w1) \<Rightarrow>
                       (let h1 = h\<lparr>h_gate := Some g1\<rparr> in
                        (case level_of_name (rq_to req) of
                           None \<Rightarrow> (False, h1, w1)
                         | Some target \<Rightarrow>
                             (case risk_de_escalate_to target approved_by
                                     (''Approved via recovery gate: '' @ rq_reason req) (RI RI_OPERATOR) r w1 of
                                (Inl e, r1, w2) \<Rightarrow> (False, h1\<lparr>h_risk := Some r1\<rparr>, w2)
                              | (Inr s, r1, w2) \<Rightarrow>
                                  (True, h1\<lparr>h_risk := Some r1\<rparr>,
                                   hub_log h1 approved_by
                                     (''RiskGovernor de-escalation approved: '' @ rq_from req @ arrow @ rq_to req)
                                     (rq_reason req) (PStr (rq_from req)) (PStr (rq_to req)) w2)))))))
      | _ \<Rightarrow> (False, h, w))"

definition check_de_escalation_gate :: "string \<Rightarrow> string \<Rightarrow> string \<Rightarrow> hub \<Rightarrow> bool" where
  "check_de_escalation_gate from_state to_state reason h =
     (case h_gate h of
        None \<Rightarrow> True
      | Some g \<Rightarrow>
          \<not> (\<exists>d \<in> set (get_pending_requests g). dict_get d ''from_state'' PNone = PStr from_state \<and>
               dict_get d ''to_state'' PNone = PStr to_state))"

section \<open>Status\<close>

record GovernanceStatus =
  gs_timestamp_ms :: int
  gs_enabled :: bool
  gs_mode :: string
  gs_auth_state :: "string option"
  gs_auth_expires_at_ms :: "int option"
  gs_auth_scope :: pydict
  gs_auth_pending_approval :: bool
  gs_risk_level :: "int option"
  gs_risk_level_name :: "string option"
  gs_active_leases_count :: nat
  gs_total_leases_tracked :: nat
  gs_incident_count :: nat
  gs_callback_errors :: nat

text \<open>
  The fields the code never fills (the escalation reason and the last reconciliation) stay at
  their defaults.
\<close>

definition status_to_dict :: "GovernanceStatus \<Rightarrow> pydict" where
  "status_to_dict s =
     [(''timestamp_ms'', PInt (gs_timestamp_ms s)), (''enabled'', PBool (gs_enabled s)),
      (''mode'', PStr (gs_mode s)),
      (''authorization'', PDict
         [(''state'', opt_str (gs_auth_state s)), (''expires_at_ms'', opt_int (gs_auth_expires_at_ms s)),
          (''scope'', PDict (gs_auth_scope s)), (''pending_approval'', PBool (gs_auth_pending_approval s))]),
      (''risk'', PDict
         [(''level'', opt_int (gs_risk_level s)), (''level_name'', opt_str (gs_risk_level_name s)),
          (''escalation_reason'', PNone)]),
      (''leases'', PDict
         [(''active_count'', PInt (int (gs_active_leases_count s))),
          (''total_tracked'', PInt (int (gs_total_leases_tracked s)))]),
      (''reconciliation'', PDict
         [(''last_check_ms'', PNone), (''last_result'', PNone), (''is_consistent'', PNone)]),
      (''incidents'', PInt (int (gs_incident_count s))),
      (''callback_errors'', PInt (int (gs_callback_errors s)))]"

text \<open>A live-mode authorization is preferred over the first effective one.\<close>

definition shown_auth :: "AuthorizationObject list \<Rightarrow> AuthorizationObject option" where
  "shown_auth as =
     (case as of
        [] \<Rightarrow> None
      | a # rest \<Rightarrow>
          (case find (\<lambda>x. dict_get (a_scope x) ''mode'' PNone = PStr ''live'') as of
             None \<Rightarrow> Some a
           | Some x \<Rightarrow> Some x))"

text \<open>
  With no effective authorization the code asks the machine for \<open>list_all\<close>, which it does not
  have; the exception is swallowed, so the pending flag is always False.
\<close>

definition get_status :: "hub \<Rightarrow> world \<Rightarrow> GovernanceStatus \<times> hub \<times> world" where
  "get_status h0 w0 =
     (let (h, w) = ensure_initialized h0 w0;
          (now, w1) = now_ms w;
          auth = shown_auth (effective_auths h);
          (level, w2) = (case h_risk h of None \<Rightarrow> (None, w1)
             | Some r \<Rightarrow> (let (s, w') = risk_get_state r w1 in (Some (g_level s), w')))
      in (\<lparr>gs_timestamp_ms = now, gs_enabled = h_enabled h, gs_mode = mode_value (h_mode h),
           gs_auth_state = (case auth of
              None \<Rightarrow> (if h_auth h = None then None else Some ''NONE'')
            | Some a \<Rightarrow> Some (auth_state_value (a_state a))),
           gs_auth_expires_at_ms = (case auth of None \<Rightarrow> None | Some a \<Rightarrow> a_expires_at_ms a),
           gs_auth_scope = (case auth of None \<Rightarrow> [] | Some a \<Rightarrow> a_scope a),
           gs_auth_pending_approval = False,
           gs_risk_level = map_option level_value level,
           gs_risk_level_name = map_option level_name level,
           gs_active_leases_count = (case h_lease h of None \<Rightarrow> 0 | Some sm \<Rightarrow> length (lease_get_live sm)),
           gs_total_leases_tracked = (case h_lease h of None \<Rightarrow> 0 | Some sm \<Rightarrow> length (store_get_all sm)),
           gs_incident_count = h_incident_count h, gs_callback_errors = h_callback_errors h\<rparr>, h, w2))"

text \<open>\<open>list(reversed(filtered))[-min(limit, 1000):]\<close>\<close>

definition get_governance_events :: "int \<Rightarrow> string option \<Rightarrow> hub \<Rightarrow> pydict list" where
  "get_governance_events limit event_type h =
     (let filtered = (if str_given event_type
            then filter (\<lambda>e. dict_get e ''category'' PNone = opt_str event_type) (h_events h)
            else h_events h)
      in last_n (min limit 1000) (rev filtered))"

end
