(* ===== verification/Gov_Laws.thy ===== *)
theory Gov_Laws
  imports Gov_Hub
begin

text \<open>
  What the governance hub guarantees: the loops that carry a freeze to every authorization and
  lease, the cascades built from them, the hot path and the lease operations, de-escalation,
  the advisory cap on reconciliation, and the invariant of every history of hub operations.
\<close>

section \<open>Loops over a machine\<close>

lemma try_each_inv:
  assumes "\<And>i s w r s' w'. P s \<Longrightarrow> f i s w = (r, s', w') \<Longrightarrow> P s'"
    and "P s" "try_each f is s w = (ok, s', w')"
  shows "P s'"
  using assms(2,3)
proof (induction "is" arbitrary: s w)
  case (Cons i "is")
  obtain r s1 w1 where f: "f i s w = (r, s1, w1)" by (metis prod_cases3)
  with assms(1) Cons.prems have "P s1" by blast
  with Cons f show ?case by (cases r) auto
qed simp

context object_machine
begin

text \<open>A loop of permitted calls over distinct ids goes through and moves exactly these objects.\<close>

lemma try_each_spec:
  assumes "\<And>i. c_id (mk i) = i" "\<And>i. c_to (mk i) = target"
    and "\<And>i. c_initiator (mk i) = ini" "\<And>i. c_approved_by (mk i) = ap"
    and "distinct ids"
    and "\<forall>i \<in> set ids. \<exists>x. store_get i sm = Some x \<and> permitted cls (st x) target ini ap"
    and "try_each (\<lambda>i. transition (mk i)) ids sm w = (ok, sm', w')"
  shows "ok \<and> (\<forall>i \<in> set ids. \<exists>x. store_get i sm' = Some x \<and> st x = target) \<and>
    (\<forall>j. j \<notin> set ids \<longrightarrow> store_get j sm' = store_get j sm) \<and> later w w'"
  using assms(5-7)
proof (induction ids arbitrary: sm w)
  case (Cons i ids)
  note mk = assms(1-4)
  from Cons.prems(2) obtain x0 where x0: "store_get i sm = Some x0" "permitted cls (st x0) target ini ap"
    by auto
  with complete[of "mk i" sm x0 w] mk obtain x sm1 w1 where
    t: "transition (mk i) sm w = (Inr x, sm1, w1)" by auto
  with accepted[OF t] mk have x: "st x = target" "sm1 = store_put i x sm" "later w w1" by auto
  have rest: "try_each (\<lambda>i. transition (mk i)) ids sm1 w1 = (ok, sm', w')"
    using Cons.prems(3) t by simp
  have same: "store_get j sm1 = store_get j sm" if "j \<noteq> i" for j
    using that x by (simp add: store_get_put)
  have "\<forall>j \<in> set ids. \<exists>x. store_get j sm1 = Some x \<and> permitted cls (st x) target ini ap"
    using Cons.prems(1,2) same by (metis distinct.simps(2) list.set_intros(2))
  note ih = Cons.IH[OF _ this rest]
  have "store_get i sm' = Some x" using ih Cons.prems(1) x by (simp add: store_get_put)
  with ih Cons.prems(1) same x show ?case by (auto intro: later_trans)
qed simp

end

lemmas auth_op_defs = auth_restrict_def auth_freeze_def auth_submit_for_approval_def auth_approve_def

lemma auth_effective_iff:
  assumes "keyed authorization_id sm"
  shows "a \<in> set (auth_get_effective sm) \<longleftrightarrow>
     store_get (authorization_id a) sm = Some a \<and> a_state a \<in> {A_ACTIVE, A_RESTRICTED}"
  using keyed_all(2)[OF assms]
  by (auto simp: auth_get_effective_def auth_is_effective_def auth_effective_states_def)

lemma lease_live_iff:
  assumes "keyed lease_id sm"
  shows "l \<in> set (lease_get_live sm) \<longleftrightarrow>
     store_get (lease_id l) sm = Some l \<and> l_state l \<in> {L_REGISTERED, L_ACTIVE, L_BRIDGED}"
  using keyed_all(2)[OF assms]
  by (auto simp: lease_get_live_def lease_is_live_def lease_live_states_def)

lemma distinct_map_filter: "distinct (map f xs) \<Longrightarrow> distinct (map f (filter P xs))"
  by (induction xs) auto

lemma auth_ids_distinct:
  assumes "keyed authorization_id sm"
  shows "distinct (map authorization_id (filter P (auth_get_effective sm)))"
    and "distinct (map authorization_id (auth_get_effective sm))"
proof -
  show d: "distinct (map authorization_id (auth_get_effective sm))"
    unfolding auth_get_effective_def by (intro distinct_map_filter keyed_distinct assms)
  then show "distinct (map authorization_id (filter P (auth_get_effective sm)))"
    by (rule distinct_map_filter)
qed

lemma auth_permitted_restrict: "permitted auth_class A_ACTIVE A_RESTRICTED AI_INCIDENT_POLICY None"
  by (simp add: auth_permitted)

lemma auth_permitted_freeze:
  "s \<in> {A_ACTIVE, A_RESTRICTED} \<Longrightarrow> permitted auth_class s A_FROZEN AI_INCIDENT_POLICY None"
  by (auto simp: auth_permitted)

lemma lease_permitted_revoke:
  "permitted lease_class s L_REVOKED LI_OPERATOR (Some ''GovernanceHub'') \<longleftrightarrow>
   s \<in> {L_REGISTERED, L_ACTIVE, L_FROZEN, L_BRIDGED}"
  by (cases s; simp add: lease_permitted)

lemma auth_inv_keyed: "auth_inv sm \<Longrightarrow> keyed authorization_id sm"
  by (simp add: auth_inv_def)

lemma lease_inv_keyed: "lease_inv sm \<Longrightarrow> keyed lease_id sm"
  by (simp add: lease_inv_def)

text \<open>Freezing every effective authorization leaves none; restricting leaves no active one.\<close>

lemma freeze_all:
  assumes "auth_inv sm"
    and "distinct ids" "set ids = authorization_id ` set (auth_get_effective sm)"
    and "try_each (\<lambda>i. auth_freeze i reason AI_INCIDENT_POLICY) ids sm w = (ok, sm', w')"
  shows "ok" "auth_get_effective sm' = []" "auth_inv sm'" "later w w'"
proof -
  note key = auth_inv_keyed[OF assms(1)]
  have "\<forall>i \<in> set ids. \<exists>a. store_get i sm = Some a \<and> permitted auth_class (a_state a) A_FROZEN AI_INCIDENT_POLICY None"
    using auth_permitted_freeze unfolding assms(3) by (fastforce simp: auth_effective_iff[OF key])
  note spec = auth.try_each_spec[OF _ _ _ _ assms(2) this assms(4)[unfolded auth_freeze_def], simplified]
  show "ok" "later w w'" using spec by simp_all
  show inv: "auth_inv sm'"
    by (rule try_each_inv[of auth_inv, OF _ assms(1,4)]) (auto simp: auth_freeze_def intro: auth_inv_transition)
  have "\<not> (store_get (authorization_id a) sm' = Some a \<and> a_state a \<in> {A_ACTIVE, A_RESTRICTED})" for a
  proof
    assume a: "store_get (authorization_id a) sm' = Some a \<and> a_state a \<in> {A_ACTIVE, A_RESTRICTED}"
    show False
    proof (cases "authorization_id a \<in> set ids")
      case True
      with spec a show ?thesis by auto
    next
      case False
      with spec a have "a \<in> set (auth_get_effective sm)" by (simp add: auth_effective_iff[OF key])
      with False assms(3) show ?thesis by simp
    qed
  qed
  then have "a \<notin> set (auth_get_effective sm')" for a
    by (simp add: auth_effective_iff[OF auth_inv_keyed[OF inv]])
  then show "auth_get_effective sm' = []" by (meson last_in_set)
qed

lemma restrict_all:
  assumes "auth_inv sm"
    and "try_each (\<lambda>i. auth_restrict i reason AI_INCIDENT_POLICY)
           (map authorization_id (filter (\<lambda>a. a_state a = A_ACTIVE) (auth_get_effective sm))) sm w = (ok, sm', w')"
  shows "ok" "\<forall>a \<in> set (auth_get_effective sm'). a_state a = A_RESTRICTED" "auth_inv sm'" "later w w'"
    "authorization_id ` set (auth_get_effective sm') = authorization_id ` set (auth_get_effective sm)"
proof -
  let ?ids = "map authorization_id (filter (\<lambda>a. a_state a = A_ACTIVE) (auth_get_effective sm))"
  note key = auth_inv_keyed[OF assms(1)]
  have "\<forall>i \<in> set ?ids. \<exists>a. store_get i sm = Some a \<and> permitted auth_class (a_state a) A_RESTRICTED AI_INCIDENT_POLICY None"
    using auth_permitted_restrict by (fastforce simp: auth_effective_iff[OF key])
  note spec = auth.try_each_spec[OF _ _ _ _ auth_ids_distinct(1)[OF key] this assms(2)[unfolded auth_restrict_def], simplified]
  show "ok" "later w w'" using spec by simp_all
  show inv: "auth_inv sm'"
    by (rule try_each_inv[of auth_inv, OF _ assms(1,2)]) (auto simp: auth_restrict_def intro: auth_inv_transition)
  note key' = auth_inv_keyed[OF inv]
  have moved: "\<exists>x. store_get i sm' = Some x \<and> a_state x = A_RESTRICTED" if "i \<in> set ?ids" for i
    using spec that by auto
  have kept: "store_get i sm' = store_get i sm" if "i \<notin> set ?ids" for i
    using spec that by simp
  show "\<forall>a \<in> set (auth_get_effective sm'). a_state a = A_RESTRICTED"
  proof
    fix a assume "a \<in> set (auth_get_effective sm')"
    then have a: "store_get (authorization_id a) sm' = Some a" "a_state a \<in> {A_ACTIVE, A_RESTRICTED}"
      by (auto simp: auth_effective_iff[OF key'])
    show "a_state a = A_RESTRICTED"
    proof (cases "authorization_id a \<in> set ?ids")
      case True
      from moved[OF this] a(1) show ?thesis by simp
    next
      case False
      from kept[OF this] a have "store_get (authorization_id a) sm = Some a" by simp
      with a have "a \<in> set (auth_get_effective sm)" by (simp add: auth_effective_iff[OF key])
      with False a show ?thesis by auto
    qed
  qed
  have "authorization_id a \<in> authorization_id ` set (auth_get_effective sm')" if "a \<in> set (auth_get_effective sm)" for a
  proof -
    let ?i = "authorization_id a"
    from that have a: "store_get ?i sm = Some a" "a_state a \<in> {A_ACTIVE, A_RESTRICTED}"
      by (auto simp: auth_effective_iff[OF key])
    have "\<exists>x. store_get ?i sm' = Some x \<and> a_state x \<in> {A_ACTIVE, A_RESTRICTED}"
    proof (cases "?i \<in> set ?ids")
      case True
      with moved show ?thesis by blast
    next
      case False
      with kept a show ?thesis by simp
    qed
    then obtain x where x: "store_get ?i sm' = Some x" "a_state x \<in> {A_ACTIVE, A_RESTRICTED}" by blast
    then have i: "authorization_id x = ?i" using keyed_get[OF key'] by blast
    with x have "x \<in> set (auth_get_effective sm')" by (simp add: auth_effective_iff[OF key'])
    with i show ?thesis by (metis image_eqI)
  qed
  moreover have "authorization_id a \<in> authorization_id ` set (auth_get_effective sm)" if "a \<in> set (auth_get_effective sm')" for a
  proof (cases "authorization_id a \<in> set ?ids")
    case False
    have "store_get (authorization_id a) sm' = Some a" "a_state a \<in> {A_ACTIVE, A_RESTRICTED}"
      using that by (auto simp: auth_effective_iff[OF key'])
    with kept[OF False] have "a \<in> set (auth_get_effective sm)" by (simp add: auth_effective_iff[OF key])
    then show ?thesis by simp
  qed auto
  ultimately show "authorization_id ` set (auth_get_effective sm') = authorization_id ` set (auth_get_effective sm)"
    by blast
qed

text \<open>Revoking every live lease leaves none; every other lease is untouched.\<close>

lemma revoke_all:
  assumes "lease_inv sm"
    and "try_each revoke_for_freeze (map lease_id (lease_get_live sm)) sm w = (ok, sm', w')"
  shows "ok" "lease_get_live sm' = []" "lease_inv sm'" "later w w'"
    "j \<notin> lease_id ` set (lease_get_live sm) \<Longrightarrow> store_get j sm' = store_get j sm"
    "j \<in> lease_id ` set (lease_get_live sm) \<Longrightarrow> \<exists>l. store_get j sm' = Some l \<and> l_state l = L_REVOKED"
proof -
  let ?ids = "map lease_id (lease_get_live sm)"
  note key = lease_inv_keyed[OF assms(1)]
  have dist: "distinct ?ids"
    unfolding lease_get_live_def by (intro distinct_map_filter keyed_distinct key)
  have "\<forall>i \<in> set ?ids. \<exists>l. store_get i sm = Some l \<and>
      permitted lease_class (l_state l) L_REVOKED LI_OPERATOR (Some ''GovernanceHub'')"
    unfolding lease_permitted_revoke by (fastforce simp: lease_live_iff[OF key])
  note spec = lease.try_each_spec[OF _ _ _ _ dist this
      assms(2)[unfolded revoke_for_freeze_def lease_revoke_def], simplified]
  show "ok" "later w w'" using spec by simp_all
  show "j \<notin> lease_id ` set (lease_get_live sm) \<Longrightarrow> store_get j sm' = store_get j sm"
    "j \<in> lease_id ` set (lease_get_live sm) \<Longrightarrow> \<exists>l. store_get j sm' = Some l \<and> l_state l = L_REVOKED"
    using spec by auto
  show inv: "lease_inv sm'"
    by (rule try_each_inv[of lease_inv, OF _ assms])
      (auto simp: revoke_for_freeze_def lease_revoke_def intro: lease_inv_transition)
  have "\<not> (store_get (lease_id l) sm' = Some l \<and> l_state l \<in> {L_REGISTERED, L_ACTIVE, L_BRIDGED})" for l
  proof
    assume l: "store_get (lease_id l) sm' = Some l \<and> l_state l \<in> {L_REGISTERED, L_ACTIVE, L_BRIDGED}"
    show False
    proof (cases "lease_id l \<in> set ?ids")
      case True
      with spec l show ?thesis by auto
    next
      case False
      with spec l have "l \<in> set (lease_get_live sm)" by (simp add: lease_live_iff[OF key])
      with False show ?thesis by simp
    qed
  qed
  then have "l \<notin> set (lease_get_live sm')" for l by (simp add: lease_live_iff[OF lease_inv_keyed[OF inv]])
  then show "lease_get_live sm' = []" by (meson last_in_set)
qed


section \<open>Steps that only touch the event stream, the cache or the counters\<close>

lemma hub_error_frame [simp]:
  "h_auth (hub_error h) = h_auth h" "h_lease (hub_error h) = h_lease h" "h_risk (hub_error h) = h_risk h"
  "h_mode (hub_error h) = h_mode h" "h_enabled (hub_error h) = h_enabled h"
  "h_initialized (hub_error h) = h_initialized h" "h_gate (hub_error h) = h_gate h"
  "h_recon (hub_error h) = h_recon h" "h_events (hub_error h) = h_events h"
  "h_escalated (hub_error h) = h_escalated h" "h_incident_count (hub_error h) = h_incident_count h"
  by (simp_all add: hub_error_def)

lemma append_event_frame:
  "append_governance_event e h = h\<lparr>h_events := h_events (append_governance_event e h)\<rparr>"
  by (simp add: append_governance_event_def Let_def)

lemma append_event_bound:
  "length (h_events h) \<le> max_events \<Longrightarrow> length (h_events (append_governance_event e h)) \<le> max_events"
  by (simp add: append_governance_event_def Let_def max_events_def)

lemma append_event_fields [simp]:
  "h_auth (append_governance_event e h) = h_auth h" "h_lease (append_governance_event e h) = h_lease h"
  "h_risk (append_governance_event e h) = h_risk h" "h_mode (append_governance_event e h) = h_mode h"
  "h_enabled (append_governance_event e h) = h_enabled h" "h_cal (append_governance_event e h) = h_cal h"
  "h_initialized (append_governance_event e h) = h_initialized h"
  "h_gate (append_governance_event e h) = h_gate h" "h_recon (append_governance_event e h) = h_recon h"
  "h_escalated (append_governance_event e h) = h_escalated h"
  "h_incident_count (append_governance_event e h) = h_incident_count h"
  "h_callback_errors (append_governance_event e h) = h_callback_errors h"
  by (simp_all add: append_governance_event_def Let_def)

lemma later_hub_log [simp]: "later w (hub_log h who what rs ov nv w)"
  by (simp add: hub_log_def)

lemma emit_events_frame:
  assumes "emit_events mk is h w = (h', w')"
  obtains es where "h' = h\<lparr>h_events := es\<rparr>" "length (h_events h) \<le> max_events \<Longrightarrow> length es \<le> max_events"
proof -
  have "\<exists>es. h' = h\<lparr>h_events := es\<rparr> \<and> (length (h_events h) \<le> max_events \<longrightarrow> length es \<le> max_events)"
    using assms
  proof (induction "is" arbitrary: h w)
    case Nil
    then show ?case by (intro exI[of _ "h_events h"]) simp
  next
    case (Cons i "is")
    obtain ev w1 where m: "mk i w = (ev, w1)" by fastforce
    let ?h = "append_governance_event (event_to_dict ev) h"
    from Cons.prems m have "emit_events mk is ?h w1 = (h', w')" by simp
    from Cons.IH[OF this] obtain es where "h' = ?h\<lparr>h_events := es\<rparr>"
      "length (h_events ?h) \<le> max_events \<longrightarrow> length es \<le> max_events" by blast
    moreover have "?h\<lparr>h_events := es\<rparr> = h\<lparr>h_events := es\<rparr>" for es
      by (subst append_event_frame) simp
    ultimately show ?case using append_event_bound by auto
  qed
  with that show thesis by blast
qed

lemma emit_events_later:
  assumes "\<And>i w. later w (snd (mk i w))" "emit_events mk is h w = (h', w')"
  shows "later w w'"
  using assms(2)
proof (induction "is" arbitrary: h w)
  case (Cons i "is")
  obtain ev w1 where m: "mk i w = (ev, w1)" by fastforce
  with assms(1)[of w i] have "later w w1" by simp
  with Cons m show ?case by (auto intro: later_trans)
qed simp

lemma invalidate_frame:
  assumes "invalidate_auth_cache h w = (h', w')"
  shows "h' = h\<lparr>h_cache := None\<rparr>" "later w w'"
  using assms by (auto simp: invalidate_auth_cache_def)

section \<open>The freeze cascade\<close>

definition machines_ok :: "hub \<Rightarrow> bool" where
  "machines_ok h \<longleftrightarrow> (\<forall>sm. h_auth h = Some sm \<longrightarrow> auth_inv sm) \<and> (\<forall>sm. h_lease h = Some sm \<longrightarrow> lease_inv sm)"

definition live_leases :: "hub \<Rightarrow> DecisionLeaseObject list" where
  "live_leases h = (case h_lease h of None \<Rightarrow> [] | Some sm \<Rightarrow> lease_get_live sm)"

text \<open>Revoking: only the lease machine and the event stream change, and no live lease is left.\<close>

lemma on_auth_frozen_spec:
  assumes "machines_ok h" "h_enabled h" "h_initialized h" "on_auth_frozen c p h w = (h', w')"
  obtains L es where "h' = h\<lparr>h_lease := L, h_events := es\<rparr>" "live_leases h' = []" "machines_ok h'"
    "length (h_events h) \<le> max_events \<Longrightarrow> length es \<le> max_events"
proof (cases "live_leases h = []")
  case True
  then have "h' = h" using assms by (auto simp: on_auth_frozen_def live_leases_def split: option.splits)
  with True assms(1) that[of "h_events h" "h_lease h"] show ?thesis by simp
next
  case False
  then obtain sm where sm: "h_lease h = Some sm" "lease_get_live sm \<noteq> []"
    by (auto simp: live_leases_def split: option.splits)
  let ?ids = "map lease_id (lease_get_live sm)"
  obtain ok sm1 w1 where t: "try_each revoke_for_freeze ?ids sm w = (ok, sm1, w1)" by (metis prod_cases3)
  have inv: "lease_inv sm" using assms(1) sm by (simp add: machines_ok_def)
  note r = revoke_all[OF inv t]
  obtain h2 w2 where e: "emit_events (\<lambda>i. lease_event ''ACTIVE'' ''REVOKED'' ''GovernanceHub'' i
       (''Lease '' @ i @ '' revoked: authorization frozen cascade'') c p []) ?ids (h\<lparr>h_lease := Some sm1\<rparr>) w1 = (h2, w2)"
    by fastforce
  have h': "h' = h2"
    using assms(2-4) sm t r(1) e by (simp add: on_auth_frozen_def Let_def)
  from emit_events_frame[OF e] obtain es where es: "h2 = h\<lparr>h_lease := Some sm1, h_events := es\<rparr>"
    "length (h_events h) \<le> max_events \<Longrightarrow> length es \<le> max_events" by auto
  show ?thesis
    using that[of es "Some sm1"] es h' r assms(1) by (simp add: live_leases_def machines_ok_def)
qed

lemma auth_each_freeze:
  assumes "machines_ok h"
    and "distinct ids" "set ids = authorization_id ` set (effective_auths h)"
    and "auth_each (\<lambda>i. auth_freeze i reason AI_INCIDENT_POLICY) ids h w = (ok, h', w')"
  obtains A where "ok" "h' = h\<lparr>h_auth := A\<rparr>" "effective_auths h' = []" "machines_ok h'"
proof (cases "h_auth h")
  case None
  with assms that[of None] show ?thesis by (simp add: auth_each_def effective_auths_def)
next
  case (Some sm)
  obtain ok1 sm1 w1 where t: "try_each (\<lambda>i. auth_freeze i reason AI_INCIDENT_POLICY)
      ids sm w = (ok1, sm1, w1)" by (metis prod_cases3)
  from assms(1) Some have "auth_inv sm" by (simp add: machines_ok_def)
  moreover have "set ids = authorization_id ` set (auth_get_effective sm)"
    using assms(3) Some by (simp add: effective_auths_def)
  ultimately have f: "ok1" "auth_get_effective sm1 = []" "auth_inv sm1"
    using freeze_all[OF _ assms(2) _ t] by blast+
  show ?thesis
    using that[of "Some sm1"] assms Some t f
    by (simp add: auth_each_def effective_auths_def machines_ok_def)
qed

lemma auth_each_some:
  "auth_each f ids h w = (ok, h', w') \<Longrightarrow> h_auth h \<noteq> None \<Longrightarrow> h_auth h' \<noteq> None"
  by (auto simp: auth_each_def split: prod.splits)

lemma effective_ids_distinct: "machines_ok h \<Longrightarrow> distinct (map authorization_id (effective_auths h))"
  by (auto simp: machines_ok_def effective_auths_def intro: auth_ids_distinct auth_inv_keyed
      simp del: distinct_map split: option.splits)

lemma auth_each_restrict:
  assumes "machines_ok h"
    and "auth_each (\<lambda>i. auth_restrict i reason AI_INCIDENT_POLICY) (active_auth_ids h) h w = (ok, h', w')"
  obtains A where "ok" "h' = h\<lparr>h_auth := A\<rparr>" "\<forall>a \<in> set (effective_auths h'). a_state a = A_RESTRICTED"
    "machines_ok h'"
    "authorization_id ` set (effective_auths h') = authorization_id ` set (effective_auths h)"
proof (cases "h_auth h")
  case None
  with assms that[of None] show ?thesis by (simp add: auth_each_def effective_auths_def active_auth_ids_def)
next
  case (Some sm)
  obtain ok1 sm1 w1 where t: "try_each (\<lambda>i. auth_restrict i reason AI_INCIDENT_POLICY)
      (map authorization_id (filter (\<lambda>a. a_state a = A_ACTIVE) (auth_get_effective sm))) sm w = (ok1, sm1, w1)"
    by (metis prod_cases3)
  from assms(1) Some have "auth_inv sm" by (simp add: machines_ok_def)
  note f = restrict_all[OF this t]
  show ?thesis
    using that[of "Some sm1"] assms Some t f
    by (simp add: auth_each_def effective_auths_def active_auth_ids_def machines_ok_def)
qed

lemma machines_ok_cong:
  "h_auth h = h_auth g \<Longrightarrow> h_lease h = h_lease g \<Longrightarrow> machines_ok h = machines_ok g"
  by (simp add: machines_ok_def)


lemma cascade_freeze_spec:
  assumes "machines_ok h" "h_enabled h" "h_initialized h"
    and "distinct ids" "set ids = authorization_id ` set (effective_auths h)"
    and "cascade_freeze lvl c p ids h w = (h', w')"
  shows "effective_auths h' = []" "machines_ok h'" "h_mode h' = h_mode h"
    "live_leases h' = (if effective_auths h = [] then live_leases h else [])"
    "h_incident_count h' = h_incident_count h"
proof -
  have "effective_auths h' = [] \<and> machines_ok h' \<and> h_mode h' = h_mode h \<and>
    live_leases h' = (if effective_auths h = [] then live_leases h else []) \<and>
    h_incident_count h' = h_incident_count h"
  proof (cases "effective_auths h = []")
    case True
    with assms show ?thesis by (simp add: cascade_freeze_def)
  next
    case False
    with assms(5) have ne: "ids \<noteq> []" by auto
    obtain ok h1 w1 where a: "auth_each (\<lambda>i. auth_freeze i
        (''Circuit breaker triggered at risk level '' @ int_str lvl) AI_INCIDENT_POLICY) ids h w = (ok, h1, w1)"
      by (metis prod_cases3)
    obtain A where 1: "ok" "h1 = h\<lparr>h_auth := A\<rparr>" "effective_auths h1 = []" "machines_ok h1"
      using auth_each_freeze[OF assms(1,4,5) a] by metis
    obtain h2 w2 where b: "invalidate_auth_cache h1 w1 = (h2, w2)" by fastforce
    note 2 = invalidate_frame[OF b]
    obtain h3 w3 where e: "emit_events (\<lambda>i. auth_event ''ACTIVE'' ''FROZEN'' ''GovernanceHub''
         (''Auth '' @ i @ '' frozen: circuit breaker at risk level '' @ int_str lvl) ES_INFO c p [])
         ids h2 w2 = (h3, w3)" by fastforce
    from emit_events_frame[OF e] obtain es where 3: "h3 = h2\<lparr>h_events := es\<rparr>" by metis
    have f: "on_auth_frozen c p h3 w3 = (h', w')"
      using assms(6) ne a b e 1(1) by (simp add: cascade_freeze_def Let_def)
    have "machines_ok h3" "h_enabled h3" "h_initialized h3"
      using 1 2 3 assms by (simp_all add: machines_ok_def)
    from on_auth_frozen_spec[OF this f] obtain L fs where
      "h' = h3\<lparr>h_lease := L, h_events := fs\<rparr>" "live_leases h' = []" "machines_ok h'" by metis
    with 1 2 3 False show ?thesis by (simp add: effective_auths_def)
  qed
  then show "effective_auths h' = []" "machines_ok h'" "h_mode h' = h_mode h"
    "live_leases h' = (if effective_auths h = [] then live_leases h else [])"
    "h_incident_count h' = h_incident_count h" by simp_all
qed

lemma cascade_restrict_spec:
  assumes "machines_ok h" "cascade_restrict lvl c p (active_auth_ids h) h w = (h', w')"
  obtains A C es where "h' = h\<lparr>h_auth := A, h_cache := C, h_events := es\<rparr>"
    "\<forall>a \<in> set (effective_auths h'). a_state a = A_RESTRICTED" "machines_ok h'"
    "authorization_id ` set (effective_auths h') = authorization_id ` set (effective_auths h)"
proof (cases "active_auth_ids h = []")
  case True
  then have "\<forall>a \<in> set (effective_auths h). a_state a = A_RESTRICTED"
    by (auto simp: active_auth_ids_def effective_auths_def auth_get_effective_def auth_is_effective_def
        auth_effective_states_def filter_empty_conv split: option.splits)
  then show ?thesis
    using assms True that[of "h_events h" "h_cache h" "h_auth h"] by (simp add: cascade_restrict_def)
next
  case False
  let ?ids = "active_auth_ids h"
  obtain ok h1 w1 where a: "auth_each (\<lambda>i. auth_restrict i
      (''Risk escalation to level '' @ int_str lvl) AI_INCIDENT_POLICY) ?ids h w = (ok, h1, w1)"
    by (metis prod_cases3)
  obtain A where 1: "ok" "h1 = h\<lparr>h_auth := A\<rparr>" "\<forall>a \<in> set (effective_auths h1). a_state a = A_RESTRICTED"
    "machines_ok h1" "authorization_id ` set (effective_auths h1) = authorization_id ` set (effective_auths h)"
    using auth_each_restrict[OF assms(1) a] by metis
  obtain h2 w2 where b: "invalidate_auth_cache h1 w1 = (h2, w2)" by fastforce
  note 2 = invalidate_frame[OF b]
  have e: "emit_events (\<lambda>i. auth_event ''ACTIVE'' ''RESTRICTED'' ''GovernanceHub''
       (''Auth '' @ i @ '' restricted: risk escalation to level '' @ int_str lvl) ES_INFO c p [])
       ?ids h2 w2 = (h', w')"
    using assms(2) False a b 1(1) by (simp add: cascade_restrict_def Let_def)
  from emit_events_frame[OF e] obtain es where 3: "h' = h2\<lparr>h_events := es\<rparr>" by metis
  show ?thesis
    using that[of es None A] 1 2 3 by (simp add: effective_auths_def machines_ok_def)
qed

section \<open>A shut hub grants nothing\<close>

definition shut :: "hub \<Rightarrow> bool" where
  "shut h \<longleftrightarrow> effective_auths h = [] \<and> h_initialized h \<and> (h_cache h = None \<or> (\<exists>t. h_cache h = Some (False, t)))"

lemma shut_denies:
  assumes "shut h"
  shows "\<not> fst (hub_is_authorized h w)" "shut (fst (snd (hub_is_authorized h w)))"
    "h_shadow (fst (snd (hub_is_authorized h w))) = h_shadow h"
  using assms
  by (auto simp: shut_def hub_is_authorized_def ensure_initialized_def effective_auths_def Let_def
      split: prod.splits option.splits)

lemma shut_no_lease:
  assumes "shut h" "h_shadow h = None"
  shows "fst (acquire_lease intent scope ttl h w) = None"
proof -
  obtain h1 w1 where c: "(case h_ipc h of None \<Rightarrow> (h, w) | Some ipc \<Rightarrow> compare_auth_axis ipc intent scope h w) = (h1, w1)"
    by fastforce
  then have "shut h1"
    using assms shut_denies[OF assms(1)]
    by (auto simp: compare_auth_axis_def split: option.splits prod.splits) (metis fst_conv snd_conv)
  then have "\<not> fst (hub_is_authorized h1 w1)" by (rule shut_denies)
  then obtain h2 w2 where "hub_is_authorized h1 w1 = (False, h2, w2)" by (cases "hub_is_authorized h1 w1") auto
  then show ?thesis
    using assms(2) c by (simp add: acquire_lease_def shadow_short_circuit_acquire_def)
qed

lemma freeze_spec:
  assumes "machines_ok h" "h_enabled h" "h_initialized h" "h_auth h \<noteq> None"
    and "handle_incident_auth_action other ''AUTH_FREEZE'' ctx h w = (h', w')"
  obtains A L es where "h' = h\<lparr>h_auth := Some A, h_cache := None, h_lease := L, h_events := es\<rparr>"
    "shut h'" "live_leases h' = []" "machines_ok h'"
proof -
  obtain ok h1 w1 where a: "auth_each (\<lambda>i. auth_freeze i (incident_reason other ''AUTH_FREEZE'' ctx)
      AI_INCIDENT_POLICY) (map authorization_id (effective_auths h)) h w = (ok, h1, w1)"
    by (metis prod_cases3)
  obtain A where 1: "ok" "h1 = h\<lparr>h_auth := A\<rparr>" "effective_auths h1 = []" "machines_ok h1"
    using auth_each_freeze[OF assms(1) effective_ids_distinct[OF assms(1)] _ a] by auto
  have "A \<noteq> None" using auth_each_some[OF a assms(4)] 1(2) by simp
  obtain h2 w2 where b: "invalidate_auth_cache h1 w1 = (h2, w2)" by fastforce
  note 2 = invalidate_frame[OF b]
  have f: "on_auth_frozen None None h2 w2 = (h', w')"
    using assms a b 1(1) by (auto simp: handle_incident_auth_action_def Let_def)
  have "machines_ok h2" "h_enabled h2" "h_initialized h2"
    using 1 2 assms by (simp_all add: machines_ok_def)
  from on_auth_frozen_spec[OF this f] obtain L es where
    3: "h' = h2\<lparr>h_lease := L, h_events := es\<rparr>" "live_leases h' = []" "machines_ok h'" by metis
  with 1 2 \<open>A \<noteq> None\<close> obtain B where 4: "h' = h\<lparr>h_auth := Some B, h_cache := None, h_lease := L, h_events := es\<rparr>"
    by auto
  moreover have "effective_auths h' = []" using 1 2 3 by (simp add: effective_auths_def)
  then have "shut h'" using 4 assms(3) by (simp add: shut_def)
  ultimately show ?thesis using 3(2,3) that by blast
qed

section \<open>A hub for the witnesses\<close>

text \<open>Enabled and initialized, with one active authorization, one active lease and the governor
  at a given level.\<close>

definition demo_hub :: "RiskLevel \<Rightarrow> hub" where
  "demo_hub level = (hub_new True)\<lparr>h_auth := Some demo_auth, h_risk := Some (demo_risk level),
     h_lease := Some demo_lease_active, h_recon := Some (recon_new (Some hub_recon_config) True True),
     h_initialized := True\<rparr>"

lemma demo_hub_fields [simp]:
  "h_enabled (demo_hub l)" "h_initialized (demo_hub l)" "h_auth (demo_hub l) = Some demo_auth"
  "h_lease (demo_hub l) = Some demo_lease_active" "h_risk (demo_hub l) = Some (demo_risk l)"
  "h_mode (demo_hub l) = GM_NORMAL" "h_shadow (demo_hub l) = None" "h_ipc (demo_hub l) = None"
  "h_cache (demo_hub l) = None" "h_gate (demo_hub l) = None" "h_events (demo_hub l) = []"
  "h_recon (demo_hub l) = Some (recon_new (Some hub_recon_config) True True)" "h_learning (demo_hub l) = None"
  "h_escalated (demo_hub l) = []" "h_cal (demo_hub l) = False"
  by (simp_all add: demo_hub_def hub_new_def)

lemma demo_hub_ok: "machines_ok (demo_hub l)"
  by (simp add: machines_ok_def auth_reachable_inv demo_auth_reachable lease_reachable_inv
      demo_lease_active_reachable)

lemma demo_hub_effective [simp]: "effective_auths (demo_hub l) = [demo_auth_object]"
  by (simp add: effective_auths_def auth_get_effective_def demo_auth_get auth_is_effective_def
      auth_effective_states_def)

section \<open>Properties\<close>

text \<open>C2: An AUTH_FREEZE incident action on a hub that is enabled and initialized closes everything at once: no authorization is effective
  any more and no lease is live, the governance mode and the error count are as before, the
  hot-path gate answers False from the next call on (the cached answer is dropped), and,
  without the shadow provider, no lease is granted.\<close>

theorem hub_incident_freeze:
  assumes "machines_ok h" "h_enabled h" "h_initialized h" "h_auth h \<noteq> None"
    and "handle_incident_auth_action other ''AUTH_FREEZE'' ctx h w = (h', w')"
  shows "effective_auths h' = [] \<and> live_leases h' = [] \<and> h_mode h' = h_mode h \<and>
    h_callback_errors h' = h_callback_errors h \<and> \<not> fst (hub_is_authorized h' v) \<and>
    (h_shadow h = None \<longrightarrow> fst (acquire_lease intent scope ttl h' v) = None)"
proof -
  obtain A L es where h': "h' = h\<lparr>h_auth := Some A, h_cache := None, h_lease := L, h_events := es\<rparr>"
    "shut h'" "live_leases h' = []" using freeze_spec[OF assms] by metis
  then show ?thesis using shut_denies[of h' v] shut_no_lease[of h'] by (auto simp: shut_def)
qed

lemma hub_incident_freeze_witness:
  "effective_auths (demo_hub R_NORMAL) \<noteq> [] \<and> live_leases (demo_hub R_NORMAL) \<noteq> [] \<and>
   effective_auths (fst (handle_incident_auth_action (\<lambda>v. ''x'') ''AUTH_FREEZE'' [] (demo_hub R_NORMAL) (sample_world 9))) = []"
proof -
  obtain h' w' where e: "handle_incident_auth_action (\<lambda>v. ''x'') ''AUTH_FREEZE'' [] (demo_hub R_NORMAL)
     (sample_world 9) = (h', w')" by fastforce
  from hub_incident_freeze[OF demo_hub_ok _ _ _ this] have "effective_auths h' = []" by simp
  moreover have "live_leases (demo_hub R_NORMAL) \<noteq> []"
    using demo_lease_get by (auto simp: live_leases_def lease_get_live_def lease_is_live_def lease_live_states_def)
  ultimately show ?thesis using e by simp
qed

text \<open>C9: The risk cascade (\<open>_on_risk_escalation\<close>) of an enabled and initialized hub sets the governance mode by
  the new level alone and counts one incident more. From level 4 on it leaves no effective authorization, and no live
  lease if there was an effective authorization to freeze; with none to freeze, the leases are left as they were. At
  levels 2 and 3 exactly the authorizations that were effective are effective afterwards, all of them RESTRICTED, and
  besides the mode and the count only the authorizations, the gate's cache and the event stream change, so no lease is
  touched; below 2 only the mode, the count and the event stream change.\<close>

theorem hub_risk_cascade:
  assumes "machines_ok h" "h_enabled h" "h_initialized h"
    and "on_risk_escalation old new h w = (h', w')"
  shows "h_mode h' = cascade_mode new \<and> h_incident_count h' = Suc (h_incident_count h) \<and>
    (4 \<le> new \<longrightarrow> effective_auths h' = [] \<and>
       live_leases h' = (if effective_auths h = [] then live_leases h else [])) \<and>
    (2 \<le> new \<and> new < 4 \<longrightarrow> (\<forall>a \<in> set (effective_auths h'). a_state a = A_RESTRICTED) \<and>
       authorization_id ` set (effective_auths h') = authorization_id ` set (effective_auths h) \<and>
       distinct (map authorization_id (effective_auths h')) \<and> live_leases h' = live_leases h \<and>
       h' = h\<lparr>h_mode := cascade_mode new, h_incident_count := Suc (h_incident_count h),
         h_auth := h_auth h', h_cache := h_cache h', h_events := h_events h'\<rparr>) \<and>
    (new < 2 \<longrightarrow>
       h' = h\<lparr>h_mode := cascade_mode new, h_incident_count := Suc (h_incident_count h), h_events := h_events h'\<rparr>)"
proof -
  obtain corr w1 where u: "fresh_uuid w = (corr, w1)" by fastforce
  obtain ev w2 where e: "risk_event old new ''SYSTEM'' ''Automatic risk escalation triggered'' (Some corr) None [] w1 = (ev, w2)"
    by fastforce
  define h1 where "h1 = append_governance_event (event_to_dict ev) (h\<lparr>h_incident_count := Suc (h_incident_count h)\<rparr>)"
  define w3 where "w3 = hub_log h1 ''GovernanceHub''
     (''Risk level changed: '' @ int_str old @ arrow @ int_str new) ''Automatic risk escalation'' (PInt old) (PInt new) w2"
  let ?g = "h1\<lparr>h_mode := cascade_mode new\<rparr>"
  obtain es1 where h1e: "h1 = h\<lparr>h_incident_count := Suc (h_incident_count h), h_events := es1\<rparr>"
    using append_event_frame[of "event_to_dict ev" "h\<lparr>h_incident_count := Suc (h_incident_count h)\<rparr>"]
    unfolding h1_def by metis
  have g: "machines_ok ?g" "h_enabled ?g" "h_initialized ?g" "effective_auths ?g = effective_auths h"
    "live_leases ?g = live_leases h" "active_auth_ids ?g = active_auth_ids h1"
    "h_incident_count ?g = Suc (h_incident_count h)"
    using assms(1-3) by (simp_all add: h1_def machines_ok_def effective_auths_def live_leases_def active_auth_ids_def)
  obtain h2 w4 where r: "cascade_restrict new (Some corr) (as_str (ge_id ev))
      (if 2 \<le> new then active_auth_ids h1 else []) ?g w3 = (h2, w4)" by fastforce
  have f: "cascade_freeze new (Some corr) (as_str (ge_id ev))
      (if 4 \<le> new then map authorization_id (effective_auths h1) else []) h2 w4 = (h', w')"
    using assms(2-4) u e r unfolding on_risk_escalation_def h1_def w3_def Let_def by simp
  show ?thesis
  proof (cases "2 \<le> new")
    case False
    with r have "h2 = ?g" by (simp add: cascade_restrict_def)
    with f False have "h' = ?g" by (simp add: cascade_freeze_def)
    with False show ?thesis by (simp add: h1e)
  next
    case True
    with r g(6) have "cascade_restrict new (Some corr) (as_str (ge_id ev)) (active_auth_ids ?g) ?g w3 = (h2, w4)" by simp
    from cascade_restrict_spec[OF g(1) this] obtain A C es where
      2: "h2 = ?g\<lparr>h_auth := A, h_cache := C, h_events := es\<rparr>"
      "\<forall>a \<in> set (effective_auths h2). a_state a = A_RESTRICTED" "machines_ok h2"
      "authorization_id ` set (effective_auths h2) = authorization_id ` set (effective_auths h)" using g(4) by metis
    then have empty: "effective_auths h2 = [] \<longleftrightarrow> effective_auths h = []"
      by (metis image_is_empty set_empty)
    have l2: "live_leases h2 = live_leases h" using 2(1) g(5) by (simp add: live_leases_def)
    show ?thesis
    proof (cases "4 \<le> new")
      case False
      with f have h': "h' = h2" by (simp add: cascade_freeze_def)
      have "h2 = h\<lparr>h_mode := cascade_mode new, h_incident_count := Suc (h_incident_count h),
          h_auth := h_auth h2, h_cache := h_cache h2, h_events := h_events h2\<rparr>"
        by (simp add: 2(1) h1e)
      with True False 2(2-4) l2 h' effective_ids_distinct[OF 2(3)] show ?thesis
        by (simp add: 2(1) h1e)
    next
      case four: True
      let ?ids = "map authorization_id (effective_auths h1)"
      have h1: "effective_auths h1 = effective_auths h" by (simp add: h1_def effective_auths_def)
      have k: "h_enabled h2" "h_initialized h2" "h_mode h2 = cascade_mode new"
        "h_incident_count h2 = Suc (h_incident_count h)" using 2(1) g(2,3,7) by simp_all
      have "distinct ?ids" "set ?ids = authorization_id ` set (effective_auths h2)"
        using effective_ids_distinct[OF assms(1)] 2(4) h1 by simp_all
      from cascade_freeze_spec[OF 2(3) k(1,2) this] f four
      have "effective_auths h' = []" "h_mode h' = h_mode h2" "h_incident_count h' = h_incident_count h2"
        "live_leases h' = (if effective_auths h2 = [] then live_leases h2 else [])" by simp_all
      with four k(3,4) l2 empty show ?thesis by simp
    qed
  qed
qed


lemma hub_risk_cascade_witness:
  "effective_auths (demo_hub R_NORMAL) \<noteq> [] \<and>
   effective_auths (fst (on_risk_escalation 3 4 (demo_hub R_NORMAL) (sample_world 9))) = [] \<and>
   h_mode (fst (on_risk_escalation 3 4 (demo_hub R_NORMAL) (sample_world 9))) = GM_FROZEN"
proof -
  obtain h' w' where e: "on_risk_escalation 3 4 (demo_hub R_NORMAL) (sample_world 9) = (h', w')" by fastforce
  from hub_risk_cascade[OF demo_hub_ok _ _ this] have "effective_auths h' = [] \<and> h_mode h' = GM_FROZEN"
    by (simp add: cascade_mode_def)
  with e show ?thesis by simp
qed

lemma risk_transition_raw:
  assumes "risk_transition c r w = (res, r', w')" "rc_initiator c = RawStr s"
  shows "r' = r" "rc_to c \<noteq> risk_level r \<Longrightarrow> \<exists>e. res = Inl e"
  using assms(1) by (cases rule: risk_transition_cases; use assms(2) in auto)+

lemma risk_get_state_level [simp]: "g_level (fst (risk_get_state r w)) = risk_level r"
  using gov_post_init_same[of "r_state r" w] by (auto simp: risk_get_state_def risk_level_def) (metis fst_conv surj_pair)

text \<open>A Guardian event never moves the risk governor through the hub
  (\<open>trigger_risk_upgrade\<close>): whatever its severity and type, the whole hub stays as it was, event
  stream and counters included. The initiator is handed over as plain text, which the governor
  refuses, and the refusal is only written to the process log.\<close>

theorem hub_upgrade_inert: "fst (trigger_risk_upgrade other event h w) = h"
proof -
  let ?sev = "dict_get event ''risk_level'' (PStr ''medium'')"
  show ?thesis
  proof (cases "h_risk h")
    case None
    then show ?thesis by (simp add: trigger_risk_upgrade_def Let_def)
  next
    case (Some r)
    obtain s w1 where g: "risk_get_state r w = (s, w1)" by fastforce
    then have lev: "g_level s = risk_level r" using risk_get_state_level[of r w] by simp
    have "fst (case risk_escalate_to t why RE_OPERATOR_ESCALATION (RawStr ''GuardianAgent'') None r w1 of
        (Inl e, r1, w2) \<Rightarrow> (h\<lparr>h_risk := Some r1\<rparr>, w2)
      | (Inr s1, r1, w2) \<Rightarrow> (let (ev, w3) = mk w2 in (append_governance_event (event_to_dict ev) (h\<lparr>h_risk := Some r1\<rparr>), w3))) = h"
      if "\<not> level_value t \<le> level_value (g_level s)" for t why and mk :: "world \<Rightarrow> GovernanceEvent \<times> world"
    proof -
      obtain res r1 w2 where t: "risk_escalate_to t why RE_OPERATOR_ESCALATION (RawStr ''GuardianAgent'') None r w1 = (res, r1, w2)"
        by (metis prod_cases3)
      have "r1 = r" "\<exists>e. res = Inl e"
        using risk_transition_raw[OF t[unfolded risk_escalate_to_def], of "''GuardianAgent''"] that lev by auto
      moreover have "h\<lparr>h_risk := Some r\<rparr> = h" using Some by simp
      ultimately show ?thesis using t by auto
    qed
    then show ?thesis
      using Some g by (simp add: trigger_risk_upgrade_def Let_def split: option.splits)
  qed
qed

text \<open>What a call that decides leaves behind: its answer in the cache, stamped with its last reading, which
  later calls return.\<close>

definition caches :: "bool \<Rightarrow> hub \<Rightarrow> hub \<Rightarrow> world \<Rightarrow> bool" where
  "caches b h h' w' \<longleftrightarrow>
     (let stamp = millis (clock w' (ticks w' - 1)) in
      h_cache h' = Some (b, stamp) \<and> (h_initialized h \<longrightarrow> h' = h\<lparr>h_cache := Some (b, stamp)\<rparr>) \<and>
      (\<forall>k v. h_enabled k \<and> h_mode k \<noteq> GM_FROZEN \<and> h_cache k = h_cache h' \<and> millis (clock v (ticks v)) - stamp < 100 \<longrightarrow>
         fst (hub_is_authorized k v) = b))"

lemma cached_answer:
  assumes "h_enabled k" "h_mode k \<noteq> GM_FROZEN" "h_cache k = Some (b, t)" "millis (clock v (ticks v)) - t < 100"
  shows "fst (hub_is_authorized k v) = b"
  using assms by (simp add: hub_is_authorized_def cache_ttl_ms_def now_ms_def Let_def)

lemma gate_caches:
  assumes "hub_is_authorized h w = (b, h', w')" "h_enabled h" "h_mode h \<noteq> GM_FROZEN"
    and "\<And>r t. h_cache h = Some (r, t) \<Longrightarrow> \<not> millis (clock w (ticks w)) - t < 100"
  shows "caches b h h' w'"
proof -
  obtain h1 w2 where e: "ensure_initialized h (snd (now_ms w)) = (h1, w2)" by fastforce
  have f: "(case h_cache h of None \<Rightarrow> None
      | Some (r, stamp) \<Rightarrow> if fst (now_ms w) - stamp < cache_ttl_ms then Some r else None) = None"
    using assms(4) by (auto simp: cache_ttl_ms_def now_ms_def split: option.splits)
  have r: "h' = h1\<lparr>h_cache := Some (b, fst (now_ms w2))\<rparr>" "w' = snd (now_ms w2)"
    using assms(1-3) e f by (auto simp: hub_is_authorized_def Let_def split_beta)
  have i: "h1 = h" if "h_initialized h" using e that by (simp add: ensure_initialized_def)
  show ?thesis
    unfolding caches_def Let_def using r i by (auto simp: now_ms_def cached_answer)
qed

text \<open>C7: The hot-path gate. A disabled or FROZEN hub answers False and is left as it was. Otherwise a cached answer
  younger than 100 ms (measured at the first clock reading of the call) is returned as it is, and nothing changes;
  with no such answer the gate says True exactly when the initialized hub has an effective authorization, and it caches
  what it said with the last clock reading of the call: nothing but the cache changes if the hub was
  initialized, and any later call within 100 ms of that reading returns the same answer while the hub stays enabled
  and unfrozen with that cache.\<close>

theorem hub_gate_exact:
  assumes "hub_is_authorized h w = (b, h', w')"
  shows "(b \<longleftrightarrow> h_enabled h \<and> h_mode h \<noteq> GM_FROZEN \<and>
      (case h_cache h of
         Some (r, t) \<Rightarrow> if millis (clock w (ticks w)) - t < 100 then r else effective_auths h' \<noteq> []
       | None \<Rightarrow> effective_auths h' \<noteq> [])) \<and>
    (h_initialized h \<longrightarrow> effective_auths h' = effective_auths h) \<and>
    (if \<not> h_enabled h \<or> h_mode h = GM_FROZEN then h' = h \<and> w' = w
     else case h_cache h of
         Some (r, t) \<Rightarrow> if millis (clock w (ticks w)) - t < 100 then h' = h else caches b h h' w'
       | None \<Rightarrow> caches b h h' w')"
proof (intro conjI impI)
  have n: "now_ms w = (millis (clock w (ticks w)), snd (now_ms w))" by (simp add: now_ms_def)
  show "effective_auths h' = effective_auths h" if "h_initialized h"
    using assms that
    by (auto simp: hub_is_authorized_def ensure_initialized_def effective_auths_def Let_def
        split: if_splits option.splits prod.splits)
  show "b \<longleftrightarrow> h_enabled h \<and> h_mode h \<noteq> GM_FROZEN \<and>
      (case h_cache h of
         Some (r, t) \<Rightarrow> if millis (clock w (ticks w)) - t < 100 then r else effective_auths h' \<noteq> []
       | None \<Rightarrow> effective_auths h' \<noteq> [])"
    using assms n
    by (auto simp: hub_is_authorized_def effective_auths_def cache_ttl_ms_def Let_def
        split: if_splits option.splits prod.splits)
  show "if \<not> h_enabled h \<or> h_mode h = GM_FROZEN then h' = h \<and> w' = w
     else case h_cache h of
         Some (r, t) \<Rightarrow> if millis (clock w (ticks w)) - t < 100 then h' = h else caches b h h' w'
       | None \<Rightarrow> caches b h h' w'"
    using assms n gate_caches[of h w b h' w']
    by (auto simp: hub_is_authorized_def cache_ttl_ms_def Let_def split: if_splits option.splits prod.splits)
qed

lemma hub_gate_exact_witness: "fst (hub_is_authorized (demo_hub R_NORMAL) (sample_world 9))"
proof -
  obtain b h' w' where "hub_is_authorized (demo_hub R_NORMAL) (sample_world 9) = (b, h', w')"
    by (metis prod_cases3)
  with hub_gate_exact[OF this] show ?thesis by simp
qed

end
