(* ===== verification/Gov_Ops.thy ===== *)
theory Gov_Ops
  imports Gov_Laws
begin

text \<open>
  The hub's operations on leases, authorizations and recovery requests: exactly when each
  succeeds and what it leaves behind, on the local path and with the Rust core answering.
\<close>

section \<open>Single calls that go through\<close>

lemma lease_call_ok:
  assumes "store_get (c_id c) sm = Some l"
    and "permitted lease_class (l_state l) (c_to c) (c_initiator c) (c_approved_by c)"
  obtains x w' where "lease_transition c sm w = (Inr x, store_put (c_id c) x sm, w')"
    "l_state x = c_to c" "l_expires_at_ms x = l_expires_at_ms l" "later w w'"
proof -
  obtain x sm' w' where t: "lease_transition c sm w = (Inr x, sm', w')"
    using lease.complete[OF assms, of w] by blast
  from t show ?thesis
    by (cases rule: lease_transition_cases) (use assms(1) t that in auto)
qed

lemma auth_call_ok:
  assumes "store_get (c_id c) sm = Some a"
    and "permitted auth_class (a_state a) (c_to c) (c_initiator c) (c_approved_by c)"
  obtains x w' where "auth_transition c sm w = (Inr x, store_put (c_id c) x sm, w')"
    "a_state x = c_to c" "a_expires_at_ms x = a_expires_at_ms a" "authorization_id x = authorization_id a"
    "later w w'"
proof -
  obtain x sm' w' where t: "auth_transition c sm w = (Inr x, sm', w')"
    using auth.complete[OF assms, of w] by blast
  from t show ?thesis
    by (cases rule: auth_transition_cases) (use assms(1) t that in auto)
qed

text \<open>Drafting, registering and activating a lease always succeeds.\<close>

lemma lease_open_steps_effect:
  obtains lid l sm' w' where "lease_open_steps intent scope expires sm w = (Some lid, sm', w')"
    "store_get lid sm' = Some l" "l_state l = L_ACTIVE" "l_expires_at_ms l = Some expires"
    "\<And>j. j \<noteq> lid \<Longrightarrow> store_get j sm' = store_get j sm" "later w w'" "\<not> is_shadow_bypass_lease_id lid"
    "lease_inv sm \<Longrightarrow> lease_inv sm'"
proof -
  obtain l0 sm1 w1 where d: "lease_create_draft [(''intent_id'', PStr intent), (''scope'', PStr scope)]
      ''GovernanceHub'' ''H5'' [] None (Some expires) sm w = (l0, sm1, w1)" by (metis prod_cases3)
  note l0 = lease_create_draft_shape[OF d]
  let ?i = "lease_id l0"
  let ?c1 = "\<lparr>c_id = ?i, c_to = L_REGISTERED, c_event = LE_REGISTRATION_ACCEPTED,
      c_initiator = LI_I_CONTROL_PLANE, c_reason_codes = Some [''registration_accepted''],
      c_approved_by = None, c_reason = []\<rparr>"
  let ?c2 = "\<lparr>c_id = ?i, c_to = L_ACTIVE, c_event = LE_ACTIVATION_WINDOW_OPEN,
      c_initiator = LI_I_CONTROL_PLANE, c_reason_codes = Some [''activation_window_open''],
      c_approved_by = None, c_reason = []\<rparr>"
  have "store_get (c_id ?c1) sm1 = Some l0" using l0 by (simp add: store_get_put)
  moreover have "permitted lease_class (l_state l0) (c_to ?c1) (c_initiator ?c1) (c_approved_by ?c1)"
    using l0 by (simp add: lease_permitted)
  ultimately obtain x w2 where r: "lease_transition ?c1 sm1 w1 = (Inr x, store_put (c_id ?c1) x sm1, w2)"
    "l_state x = L_REGISTERED" "l_expires_at_ms x = Some expires" "later w1 w2"
    using lease_call_ok[of ?c1 sm1 l0 w1] l0(4) by auto
  let ?sm2 = "store_put ?i x sm1"
  have "store_get (c_id ?c2) ?sm2 = Some x" by (simp add: store_get_put)
  moreover have "permitted lease_class (l_state x) (c_to ?c2) (c_initiator ?c2) (c_approved_by ?c2)"
    using r by (simp add: lease_permitted)
  ultimately obtain y w3 where a: "lease_transition ?c2 ?sm2 w2 = (Inr y, store_put (c_id ?c2) y ?sm2, w3)"
    "l_state y = L_ACTIVE" "l_expires_at_ms y = Some expires" "later w2 w3"
    using lease_call_ok[of ?c2 ?sm2 x w2] r(3) by auto
  show ?thesis
  proof (rule that[of ?i "store_put ?i y ?sm2" w3 y])
    show "lease_open_steps intent scope expires sm w = (Some ?i, store_put ?i y ?sm2, w3)"
      using d r(1) a(1) by (simp add: lease_open_steps_def lease_register_def lease_activate_def Let_def)
    show "later w w3" using l0(5) r(4) a(4) later_trans by blast
    show "\<not> is_shadow_bypass_lease_id ?i"
      using l0(6) by (auto simp: is_shadow_bypass_lease_id_def SHADOW_BYPASS_PREFIX_def)
    show "lease_inv (store_put ?i y ?sm2)" if inv: "lease_inv sm"
    proof -
      have "lease_inv sm1" using lease_inv_put[OF inv l0(2)] l0(1) by simp
      from lease_inv_transition[OF this r(1)] have "lease_inv ?sm2" by simp
      from lease_inv_transition[OF this a(1)] show ?thesis by simp
    qed
  qed (use a l0 in \<open>simp_all add: store_get_put\<close>)
qed

text \<open>The gate changes nothing but its cache when the hub is initialized.\<close>

lemma gate_keeps:
  assumes "hub_is_authorized h w = (ok, h1, w1)" "h_initialized h"
  shows "h1 = h\<lparr>h_cache := h_cache h1\<rparr>" "later w w1"
  using assms
  by (auto simp: hub_is_authorized_def ensure_initialized_def now_ms_def later_def Let_def
      split: if_splits option.splits prod.splits)

definition lease_grantable :: "string \<Rightarrow> pyfloat \<Rightarrow> hub \<Rightarrow> bool" where
  "lease_grantable scope ttl h \<longleftrightarrow> h_lease h \<noteq> None \<and> h_auth h \<noteq> None \<and> first_auth_permits scope h \<and>
     lease_ttl_ms ttl \<noteq> None"

lemma acquire_local_cases:
  assumes "acquire_local intent scope ttl h w = (res, h', w')"
  obtains (refused) "res = None" "h' = h" "\<not> lease_grantable scope ttl h"
  | (granted) lid sm sm' l ms where "res = Some lid" "h_lease h = Some sm" "h' = h\<lparr>h_lease := Some sm'\<rparr>"
      "store_get lid sm' = Some l" "l_state l = L_ACTIVE" "lease_ttl_ms ttl = Some ms"
      "l_expires_at_ms l = Some (millis (clock w (ticks w)) + ms)"
      "\<And>j. j \<noteq> lid \<Longrightarrow> store_get j sm' = store_get j sm" "\<not> is_shadow_bypass_lease_id lid"
      "lease_inv sm \<Longrightarrow> lease_inv sm'" "lease_grantable scope ttl h"
proof (cases "lease_grantable scope ttl h")
  case False
  with assms have "res = None" "h' = h"
    by (auto simp: acquire_local_def lease_grantable_def Let_def split: if_splits option.splits prod.splits)
  with False refused show ?thesis by blast
next
  case True
  then obtain sm am ms where s: "h_lease h = Some sm" "h_auth h = Some am" "lease_ttl_ms ttl = Some ms"
    "first_auth_permits scope h" by (auto simp: lease_grantable_def)
  obtain now w2 where n: "now_ms w = (now, w2)" by fastforce
  then have now: "now = millis (clock w (ticks w))" by (simp add: now_ms_def)
  obtain lid l sm' w3 where o: "lease_open_steps intent scope (now + ms) sm w2 = (Some lid, sm', w3)"
    "store_get lid sm' = Some l" "l_state l = L_ACTIVE" "l_expires_at_ms l = Some (now + ms)"
    "\<And>j. j \<noteq> lid \<Longrightarrow> store_get j sm' = store_get j sm" "\<not> is_shadow_bypass_lease_id lid"
    "lease_inv sm \<Longrightarrow> lease_inv sm'"
    using lease_open_steps_effect by metis
  have "res = Some lid" "h' = h\<lparr>h_lease := Some sm'\<rparr>"
    using assms s n o(1) by (simp_all add: acquire_local_def Let_def)
  then show ?thesis using granted s(1,3) o now True by simp
qed

lemma acquire_step:
  assumes "h_shadow h = None" "h_ipc h = None" "h_enabled h" "h_initialized h"
    and "hub_is_authorized h w = (ok, h1, w1)" "acquire_lease intent scope ttl h w = (res, h', w')"
  shows "(res, h', w') = (if ok then acquire_local intent scope ttl h1 w1 else (None, h1, w1))"
proof -
  have "h_ipc h1 = None" using gate_keeps(1)[OF assms(5,4)] assms(2) by (metis hub.select_convs(17) hub.surjective hub.update_convs(11))
  then show ?thesis
    using assms by (cases ok) (simp_all add: acquire_lease_def shadow_short_circuit_acquire_def)
qed

lemma release_local:
  assumes "h_ipc h = None" "h_enabled h" "h_initialized h" "h_lease h = Some sm"
    and "\<not> is_shadow_bypass_lease_id lid" "release_lease lid consumed h w = (b, h', w')"
  shows "b \<longleftrightarrow> (\<exists>l. store_get lid sm = Some l \<and>
       l_state l \<in> (if consumed then {L_BRIDGED} else {L_REGISTERED, L_ACTIVE, L_FROZEN, L_BRIDGED}))"
    and "\<not> b \<Longrightarrow> h' = h \<and> w' = w"
    and "b \<Longrightarrow> \<exists>sm' l. h' = h\<lparr>h_lease := Some sm'\<rparr> \<and> store_get lid sm' = Some l \<and>
       l_state l = (if consumed then L_CONSUMED else L_REVOKED)"
    and "lease_inv sm \<Longrightarrow> machines_ok h \<Longrightarrow> machines_ok h'"
proof -
  define c :: lease_call where "c = (if consumed
     then \<lparr>c_id = lid, c_to = L_CONSUMED, c_event = LE_CONSUMED_BY_EXECUTION,
        c_initiator = LI_EXECUTION_CLOSURE_FLOW, c_reason_codes = Some [''execution_closure''],
        c_approved_by = None, c_reason = []\<rparr>
     else \<lparr>c_id = lid, c_to = L_REVOKED, c_event = LE_REVOKE_REQUESTED, c_initiator = LI_OPERATOR,
        c_reason_codes = Some [''revoked''], c_approved_by = Some ''GovernanceHub'', c_reason = []\<rparr>)"
  have op: "release_op consumed lid = lease_transition c"
    by (simp add: release_op_def lease_consume_def lease_revoke_def c_def)
  have id: "c_id c = lid" "c_to c = (if consumed then L_CONSUMED else L_REVOKED)" by (simp_all add: c_def)
  have may: "permitted lease_class s (c_to c) (c_initiator c) (c_approved_by c) \<longleftrightarrow>
      s \<in> (if consumed then {L_BRIDGED} else {L_REGISTERED, L_ACTIVE, L_FROZEN, L_BRIDGED})" for s
    by (cases consumed) (simp_all add: c_def lease_permitted_consumed lease_permitted_revoke)
  obtain res sm1 w1 where t: "lease_transition c sm w = (res, sm1, w1)" by (metis prod_cases3)
  have b: "(b, h', w') = (case res of Inl e \<Rightarrow> False | Inr x \<Rightarrow> True, h\<lparr>h_lease := Some sm1\<rparr>,
      case res of Inl e \<Rightarrow> w1 | Inr x \<Rightarrow> hub_mirror_release lid consumed w1)"
    using assms t op by (simp add: release_lease_def split: sum.splits)
  show "machines_ok h'" if "lease_inv sm" "machines_ok h"
    using b that lease_inv_transition[OF that(1) t] by (simp add: machines_ok_def)
  have all: "(b \<longleftrightarrow> (\<exists>l. store_get lid sm = Some l \<and>
       l_state l \<in> (if consumed then {L_BRIDGED} else {L_REGISTERED, L_ACTIVE, L_FROZEN, L_BRIDGED}))) \<and>
    (\<not> b \<longrightarrow> h' = h \<and> w' = w) \<and>
    (b \<longrightarrow> (\<exists>sm' l. h' = h\<lparr>h_lease := Some sm'\<rparr> \<and> store_get lid sm' = Some l \<and>
       l_state l = (if consumed then L_CONSUMED else L_REVOKED)))"
  proof (cases res)
    case (Inl e)
    have "h\<lparr>h_lease := Some sm\<rparr> = h" using assms(4) by simp
    moreover have "sm1 = sm" "w1 = w" using lease.refused[of c sm w e sm1 w1] t Inl by simp_all
    moreover have "\<not> permitted lease_class (l_state l) (c_to c) (c_initiator c) (c_approved_by c)"
      if "store_get lid sm = Some l" for l
      using lease.complete[of c sm l w] that id t Inl by auto
    ultimately show ?thesis using b Inl may by auto
  next
    case (Inr x)
    with lease.accepted[of c sm w x sm1 w1] t id obtain x0 where "store_get lid sm = Some x0"
      "permitted lease_class (l_state x0) (c_to c) (c_initiator c) (c_approved_by c)"
      "l_state x = c_to c" "sm1 = store_put lid x sm" by auto
    with b Inr may id show ?thesis by (auto simp: store_get_put)
  qed
  then show "b \<longleftrightarrow> (\<exists>l. store_get lid sm = Some l \<and>
       l_state l \<in> (if consumed then {L_BRIDGED} else {L_REGISTERED, L_ACTIVE, L_FROZEN, L_BRIDGED}))"
    by simp
  show "\<not> b \<Longrightarrow> h' = h \<and> w' = w" and "b \<Longrightarrow> \<exists>sm' l. h' = h\<lparr>h_lease := Some sm'\<rparr> \<and>
       store_get lid sm' = Some l \<and> l_state l = (if consumed then L_CONSUMED else L_REVOKED)"
    using all by simp_all
qed

lemma demo_scope: "a_scope demo_auth_object = []"
proof -
  have "map (\<lambda>(k, a). (k, a_scope a)) (objects demo_auth) = [(demo_auth_id, [])]" by code_simp
  from single_object[OF this] show ?thesis using demo_auth_get(2) by auto
qed

lemma demo_ttl: "lease_ttl_ms (Fin 30) = Some 30000"
proof -
  have "fl_round (of_int 30000) = Fin (of_int 30000)" by (rule fl_round_of_int) simp
  then show ?thesis by (simp add: lease_ttl_ms_def)
qed

lemma demo_acquired:
  "\<exists>lid h' w'. acquire_lease ''i1'' ''TRADE_ENTRY'' (Fin 30) (demo_hub R_NORMAL) (sample_world 9) = (Some lid, h', w')"
proof -
  let ?h = "demo_hub R_NORMAL" and ?w = "sample_world 9"
  obtain ok h1 w1 where g: "hub_is_authorized ?h ?w = (ok, h1, w1)" by (metis prod_cases3)
  then have ok: "ok"
    by (auto simp: hub_is_authorized_def ensure_initialized_def Let_def split: prod.splits)
  obtain res h' w' where a: "acquire_lease ''i1'' ''TRADE_ENTRY'' (Fin 30) ?h ?w = (res, h', w')" by (metis prod_cases3)
  obtain C where h1: "h1 = ?h\<lparr>h_cache := C\<rparr>" using gate_keeps(1)[OF g] by auto
  have "lease_grantable ''TRADE_ENTRY'' (Fin 30) h1"
    using demo_scope by (simp add: h1 lease_grantable_def demo_ttl first_auth_permits_def effective_auths_def
        auth_get_effective_def demo_auth_get auth_is_effective_def auth_effective_states_def
        auth_permits_scope_def auth_to_dict_def dict_get_def py_get_def as_dict_def)
  moreover have "acquire_local ''i1'' ''TRADE_ENTRY'' (Fin 30) h1 w1 = (res, h', w')"
    using acquire_step[OF _ _ _ _ g a] ok by simp
  ultimately have "res \<noteq> None" by (cases rule: acquire_local_cases[rotated]) auto
  with a show ?thesis by auto
qed

section \<open>Properties\<close>

text \<open>C8: On the local path a lease is granted exactly when the hot-path gate says True, both
  machines exist, the first effective authorization permits the scope and the time to live is a
  finite number. A granted lease is ACTIVE in the lease machine and expires the time to live
  after a clock reading made in the call; no other lease and nothing else in the hub changes. A
  refused request changes nothing beyond what the gate itself caches.\<close>

theorem lease_acquire_exact:
  assumes "h_shadow h = None" "h_ipc h = None" "h_enabled h" "h_initialized h"
    and "hub_is_authorized h w = (ok, h1, w1)" "acquire_lease intent scope ttl h w = (res, h', w')"
  shows "(res \<noteq> None \<longleftrightarrow> ok \<and> h_lease h \<noteq> None \<and> h_auth h \<noteq> None \<and> first_auth_permits scope h \<and>
       lease_ttl_ms ttl \<noteq> None) \<and>
    (res = None \<longrightarrow> h' = h1) \<and>
    (\<forall>lid. res = Some lid \<longrightarrow> (\<exists>sm sm' l ms. h_lease h = Some sm \<and> h' = h1\<lparr>h_lease := Some sm'\<rparr> \<and>
       store_get lid sm' = Some l \<and> l_state l = L_ACTIVE \<and> lease_ttl_ms ttl = Some ms \<and>
       l_expires_at_ms l = Some (millis (clock w1 (ticks w1)) + ms) \<and>
       (\<forall>j. j \<noteq> lid \<longrightarrow> store_get j sm' = store_get j sm)))"
proof -
  note step = acquire_step[OF assms]
  obtain C where h1: "h1 = h\<lparr>h_cache := C\<rparr>" using gate_keeps(1)[OF assms(5,4)] by blast
  have g: "lease_grantable scope ttl h1 \<longleftrightarrow> h_lease h \<noteq> None \<and> h_auth h \<noteq> None \<and> first_auth_permits scope h \<and>
       lease_ttl_ms ttl \<noteq> None"
    by (simp add: h1 lease_grantable_def first_auth_permits_def effective_auths_def)
  show ?thesis
  proof (cases ok)
    case False
    with step show ?thesis by simp
  next
    case True
    with step have "acquire_local intent scope ttl h1 w1 = (res, h', w')" by simp
    then show ?thesis
    proof (cases rule: acquire_local_cases)
      case refused
      with g show ?thesis by simp
    next
      case (granted lid sm sm' l ms)
      then show ?thesis using True g h1 by (simp, intro exI[of _ sm'], simp)
    qed
  qed
qed

lemma lease_acquire_exact_witness:
  "\<exists>lid h' w'. acquire_lease ''i1'' ''TRADE_ENTRY'' (Fin 30) (demo_hub R_NORMAL) (sample_world 9) = (Some lid, h', w')"
proof -
  let ?h = "demo_hub R_NORMAL" and ?w = "sample_world 9"
  obtain ok h1 w1 where g: "hub_is_authorized ?h ?w = (ok, h1, w1)" by (metis prod_cases3)
  then have ok: "ok"
    by (auto simp: hub_is_authorized_def ensure_initialized_def Let_def split: prod.splits)
  obtain res h' w' where a: "acquire_lease ''i1'' ''TRADE_ENTRY'' (Fin 30) ?h ?w = (res, h', w')" by (metis prod_cases3)
  have "first_auth_permits ''TRADE_ENTRY'' ?h"
    using demo_scope by (simp add: first_auth_permits_def auth_permits_scope_def auth_to_dict_def dict_get_def
        demo_auth_get py_get_def as_dict_def)
  then have "res \<noteq> None" using lease_acquire_exact[OF _ _ _ _ g a] ok demo_ttl by simp
  with a show ?thesis by auto
qed

text \<open>On the local path, releasing a lease as consumed succeeds exactly for a BRIDGED lease,
  and releasing it as not consumed exactly for a REGISTERED, ACTIVE, FROZEN or BRIDGED one; the
  lease is then CONSUMED or REVOKED. A refused release changes nothing at all.\<close>

theorem lease_release_exact:
  assumes "h_ipc h = None" "h_enabled h" "h_initialized h" "h_lease h = Some sm"
    and "\<not> is_shadow_bypass_lease_id lid" "release_lease lid consumed h w = (b, h', w')"
  shows "(b \<longleftrightarrow> (\<exists>l. store_get lid sm = Some l \<and>
       l_state l \<in> (if consumed then {L_BRIDGED} else {L_REGISTERED, L_ACTIVE, L_FROZEN, L_BRIDGED}))) \<and>
    (\<not> b \<longrightarrow> h' = h \<and> w' = w) \<and>
    (b \<longrightarrow> (\<exists>sm' l. h' = h\<lparr>h_lease := Some sm'\<rparr> \<and> store_get lid sm' = Some l \<and>
       l_state l = (if consumed then L_CONSUMED else L_REVOKED)))"
  using release_local[OF assms] by blast

lemma lease_release_exact_witness:
  "fst (release_lease demo_lease_id False (demo_hub R_NORMAL) (sample_world 9)) \<and>
   \<not> fst (release_lease demo_lease_id True (demo_hub R_NORMAL) (sample_world 9))"
proof -
  obtain b h' w' where b: "release_lease demo_lease_id False (demo_hub R_NORMAL) (sample_world 9) = (b, h', w')"
    by (metis prod_cases3)
  obtain c g' v' where c: "release_lease demo_lease_id True (demo_hub R_NORMAL) (sample_world 9) = (c, g', v')"
    by (metis prod_cases3)
  have "\<not> is_shadow_bypass_lease_id demo_lease_id"
    by (simp add: is_shadow_bypass_lease_id_def SHADOW_BYPASS_PREFIX_def demo_lease_id_def)
  note n = this
  obtain l where l: "store_get demo_lease_id demo_lease_active = Some l" "l_state l = L_ACTIVE"
    using demo_lease_get by blast
  have "b"
    using conjunct1[OF lease_release_exact[OF _ _ _ _ n b, of demo_lease_active]] l by simp
  moreover have "\<not> c"
    using conjunct1[OF lease_release_exact[OF _ _ _ _ n c, of demo_lease_active]] l by simp
  ultimately show ?thesis using b c by simp
qed

text \<open>The two halves of the lease interface do not meet: a lease the hub has just granted on
  the local path cannot be released as consumed. It is only ACTIVE, the hub has no operation
  that bridges it, and the release returns False and leaves the lease live.\<close>

theorem lease_acquired_not_consumable:
  assumes "h_shadow h = None" "h_ipc h = None" "h_enabled h" "h_initialized h"
    and "acquire_lease intent scope ttl h w = (Some lid, h', w')"
  shows "release_lease lid True h' v = (False, h', v) \<and>
    (\<exists>sm l. h_lease h' = Some sm \<and> store_get lid sm = Some l \<and> l_state l = L_ACTIVE)"
proof -
  obtain ok h1 w1 where g: "hub_is_authorized h w = (ok, h1, w1)" by (metis prod_cases3)
  note step = acquire_step[OF assms(1-4) g assms(5)]
  obtain C where h1: "h1 = h\<lparr>h_cache := C\<rparr>" using gate_keeps(1)[OF g assms(4)] by blast
  from step have "acquire_local intent scope ttl h1 w1 = (Some lid, h', w')" by (simp split: if_splits)
  then obtain sm l where l: "h_lease h' = Some sm" "store_get lid sm = Some l" "l_state l = L_ACTIVE"
    "\<not> is_shadow_bypass_lease_id lid" "h_ipc h' = None" "h_enabled h'" "h_initialized h'"
    by (cases rule: acquire_local_cases) (use assms(2-4) h1 in auto)
  obtain b g' v' where r: "release_lease lid True h' v = (b, g', v')" by (metis prod_cases3)
  note rel = release_local[OF l(5-7,1,4) r]
  from rel(1) l have "\<not> b" by simp
  with rel(2) r l show ?thesis by simp
qed

lemma lease_acquired_not_consumable_witness:
  "\<exists>lid h' w'. acquire_lease ''i1'' ''TRADE_ENTRY'' (Fin 30) (demo_hub R_NORMAL) (sample_world 9) = (Some lid, h', w') \<and>
     release_lease lid True h' (sample_world 20) = (False, h', sample_world 20)"
proof -
  obtain lid h' w' where a: "acquire_lease ''i1'' ''TRADE_ENTRY'' (Fin 30) (demo_hub R_NORMAL) (sample_world 9) = (Some lid, h', w')"
    using demo_acquired by blast
  with lease_acquired_not_consumable[OF _ _ _ _ a, of "sample_world 20"] show ?thesis by simp
qed




lemma acquire_over_ipc_exact:
  assumes "h_ipc h = Some ipc" "h_shadow h = None" "h_initialized h" "h_enabled h"
    and "acquire_lease intent scope ttl h w = (res, h', w')"
    and "compare_auth_axis ipc intent scope h w = (h0, w0)" "hub_is_authorized h0 w0 = (ok, h1, w1)"
  shows "res = (if ok then ipc_acquire ipc intent scope ttl w1 else None)" "later w w1"
    "h' = h\<lparr>h_cache := h_cache h'\<rparr>"
proof -
  note c = assms(6) and g1 = assms(7)
  have 0: "h0 = h\<lparr>h_cache := h_cache h0\<rparr>" "later w w0"
  proof -
    have "h0 = h\<lparr>h_cache := h_cache h0\<rparr> \<and> later w w0"
    proof (cases "ipc_is_authorized ipc w")
      case None
      with c show ?thesis by (simp add: compare_auth_axis_def)
    next
      case (Some r)
      obtain p k u where g: "hub_is_authorized h w = (p, k, u)" by (metis prod_cases3)
      note k = gate_keeps[OF g assms(3)]
      have "h0 = k" "w0 = hub_divergence (compared ''is_authorized'' (Some intent) (Some scope) None
           (granted_or_denied r) (granted_or_denied p)) u"
        using c Some g by (simp_all add: compare_auth_axis_def)
      with k show ?thesis by (auto simp: hub_divergence_def intro: later_trans)
    qed
    then show "h0 = h\<lparr>h_cache := h_cache h0\<rparr>" "later w w0" by simp_all
  qed
  then obtain C where h0: "h0 = h\<lparr>h_cache := C\<rparr>" by blast
  have i0: "h_initialized h0" using h0 assms(3) by simp
  obtain D where h1: "h1 = h\<lparr>h_cache := D\<rparr>" using gate_keeps(1)[OF g1 i0] h0 by fastforce
  have w1: "later w w1" using gate_keeps(2)[OF g1 i0] 0(2) by (rule later_trans[rotated])
  have step: "(res, h', w') = (if ok then acquire_ipc ipc intent scope ttl h1 w1 else (None, h1, w1))"
    using assms c g1 h0 h1 by (cases ok) (simp_all add: acquire_lease_def shadow_short_circuit_acquire_def)
  have "res = (if ok then ipc_acquire ipc intent scope ttl w1 else None) \<and> later w w1 \<and> h' = h\<lparr>h_cache := h_cache h'\<rparr>"
  proof (cases ok)
    case False
    with step h1 w1 show ?thesis by simp
  next
    case True
    obtain p k u where g: "hub_is_authorized h1 w1 = (p, k, u)" by (metis prod_cases3)
    have "h_initialized h1" using h1 assms(3) by simp
    from gate_keeps(1)[OF g this] h1 obtain E where k: "k = h\<lparr>h_cache := E\<rparr>" by fastforce
    have "res = ipc_acquire ipc intent scope ttl w1" "h' = k"
      using step True g by (cases p; simp add: acquire_ipc_def shadow_local_acquire_outcome_def Let_def)+
    with k w1 True show ?thesis by auto
  qed
  then show "res = (if ok then ipc_acquire ipc intent scope ttl w1 else None)" "later w w1"
    "h' = h\<lparr>h_cache := h_cache h'\<rparr>" by simp_all
qed

lemma acquire_over_ipc:
  assumes "h_ipc h = Some ipc" "h_shadow h = None" "h_initialized h" "h_enabled h"
    and "acquire_lease intent scope ttl h w = (res, h', w')"
  shows "(res = None \<or> (\<exists>u. res = ipc_acquire ipc intent scope ttl u \<and> later w u)) \<and>
    h' = h\<lparr>h_cache := h_cache h'\<rparr>"
proof -
  obtain h0 w0 where c: "compare_auth_axis ipc intent scope h w = (h0, w0)" by fastforce
  obtain ok h1 w1 where g: "hub_is_authorized h0 w0 = (ok, h1, w1)" by (metis prod_cases3)
  note x = acquire_over_ipc_exact[OF assms c g]
  then show ?thesis by (cases ok) auto
qed






section \<open>Risk levels through the recovery gate\<close>

lemma de_escalate_outcome:
  assumes "risk_de_escalate_to t approver why (RI RI_OPERATOR) r w = (res, r', w')"
  shows "(\<exists>s. res = Inr s) \<longleftrightarrow>
      (t < risk_level r \<longrightarrow> lowering_edge (risk_level r) t RI_OPERATOR \<and> approver \<noteq> [] \<and> held_long_enough r w)"
    and "(\<exists>s. res = Inr s) \<Longrightarrow> risk_level r' = t"
    and "\<not> (\<exists>s. res = Inr s) \<Longrightarrow> r' = r"
proof -
  let ?c = "\<lparr>rc_to = t, rc_event = RE_RECOVERY_APPROVED, rc_initiator = RI RI_OPERATOR,
      rc_reason_codes = Some [''de_escalation_approved''], rc_approved_by = Some approver,
      rc_reason = why, rc_metrics = None\<rparr>"
  have c: "risk_transition ?c r w = (res, r', w')" using assms by (simp add: risk_de_escalate_to_def)
  from c show "(\<exists>s. res = Inr s) \<Longrightarrow> risk_level r' = t"
    by (cases rule: risk_transition_cases) (auto simp: risk_level_def risk_apply_def)
  from c show "\<not> (\<exists>s. res = Inr s) \<Longrightarrow> r' = r"
    by (cases rule: risk_transition_cases) auto
  have ok: "(\<exists>s. res = Inr s) \<longleftrightarrow> (\<exists>s sm' u. risk_transition ?c r w = (Inr s, sm', u))"
    using c by auto
  consider "t = risk_level r" | "t < risk_level r" | "risk_level r < t" by fastforce
  then show "(\<exists>s. res = Inr s) \<longleftrightarrow>
      (t < risk_level r \<longrightarrow> lowering_edge (risk_level r) t RI_OPERATOR \<and> approver \<noteq> [] \<and> held_long_enough r w)"
  proof cases
    case 1
    from c have "\<exists>s. res = Inr s"
      by (cases rule: risk_transition_cases) (use 1 c in \<open>auto simp: risk_transition_def risk_level_def Let_def split: prod.splits\<close>)
    with 1 show ?thesis by simp
  next
    case 2
    then have "rc_to ?c \<noteq> risk_level r" by auto
    note s = risk_transition_success[OF this, of w]
    show ?thesis
      unfolding ok s using 2 risk_validate_lowering[OF 2, of r RI_OPERATOR "Some approver" w] by simp
  next
    case 3
    have "\<exists>copy sm' w'. risk_transition ?c r w = (Inr copy, sm', w') \<and> g_level copy = rc_to ?c \<and>
      risk_level sm' = rc_to ?c \<and> r_thresholds sm' = r_thresholds r"
      by (rule risk_escalation_succeeds[where i = RI_OPERATOR])
        (use 3 in \<open>simp_all add: RG_AUTO_def RG_OPERATOR_GOV_def\<close>)
    with ok 3 show ?thesis by auto
  qed
qed

text \<open>C25: Approving a pending recovery request through the hub always consumes it: whatever the
  governor says, the request is APPROVED afterwards and cannot be approved again. The call
  reports success exactly when the request names a risk level that is not below the current one
  or that the operator may lower to, with an approver named and the level held long enough; the
  governor is then at that level. Otherwise the level is unchanged. The name promises a lower level; the code does not
  ask for one, so a request for a higher level raises it, and what the operator may lower to is the rule table of the
  governor, which has REDUCED to NORMAL although SM-04 section 7.1 forbids it.\<close>

theorem hub_de_escalation_exact:
  assumes "h_gate h = Some g" "h_risk h = Some r" "h_enabled h" "h_initialized h"
    and "map_of (gate_requests g) rid = Some req" "rq_status req = AS_PENDING"
    and "approve_recovery rid approver None None [] g w = (appr, g1, w1)"
    and "approve_de_escalation rid approver h w = (b, h', w')"
  shows "h_gate h' = Some g1 \<and> map_of (gate_requests g1) rid = Some (req\<lparr>rq_status := AS_APPROVED\<rparr>) \<and>
    \<not> fst (approve_de_escalation rid approver2 h' v) \<and>
    (b \<longleftrightarrow> (\<exists>t. level_of_name (rq_to req) = Some t \<and> (t < risk_level r \<longrightarrow>
        lowering_edge (risk_level r) t RI_OPERATOR \<and> approver \<noteq> [] \<and> held_long_enough r w1))) \<and>
    (\<exists>r'. h_risk h' = Some r' \<and>
       (b \<longrightarrow> level_of_name (rq_to req) = Some (risk_level r')) \<and> (\<not> b \<longrightarrow> r' = r))"
proof -
  obtain a u where a: "approve_recovery rid approver None None [] g w = (Some a,
       set_request_status rid req AS_APPROVED
         (g\<lparr>gate_approvals := AList.update rid a (gate_approvals g), st_approved := Suc (st_approved g)\<rparr>), u)"
    using approve_recovery_effect[OF assms(5,6)] by metis
  then have g1: "appr = Some a" "w1 = u" "map_of (gate_requests g1) rid = Some (req\<lparr>rq_status := AS_APPROVED\<rparr>)"
    using assms(7) by (auto simp: set_request_status_def pd.get_put)
  have again: "\<not> fst (approve_de_escalation rid approver2 k v)" if "h_gate k = Some g1" for k
    using that g1(3) by (auto simp: approve_de_escalation_def approve_recovery_refused Let_def split: option.splits prod.splits)
  show ?thesis
  proof (cases "level_of_name (rq_to req)")
    case None
    have "b = False" "h' = h\<lparr>h_gate := Some g1\<rparr>"
      using assms g1 None by (simp_all add: approve_de_escalation_def Let_def)
    then show ?thesis using None g1 again assms(2) by simp
  next
    case (Some t)
    obtain res r1 w2 where d: "risk_de_escalate_to t approver (''Approved via recovery gate: '' @ rq_reason req)
        (RI RI_OPERATOR) r w1 = (res, r1, w2)" by (metis prod_cases3)
    note o = de_escalate_outcome[OF d]
    have "b = (\<exists>s. res = Inr s) \<and> h' = h\<lparr>h_gate := Some g1, h_risk := Some r1\<rparr>"
      using assms g1 Some d by (cases res) (simp_all add: approve_de_escalation_def Let_def)
    then show ?thesis using Some g1 again o by auto
  qed
qed


definition demo_request :: RecoveryRequest where
  "demo_request = \<lparr>rq_id = ''rec_req:1'', rq_type = RISK_DEESCALATE, rq_from = ''DEFENSIVE'', rq_to = ''REDUCED'',
     rq_by = ''op'', rq_at_ms = 5000, rq_reason = ''calm'', rq_hours = 0, rq_evidence = [], rq_status = AS_PENDING\<rparr>"

definition demo_gate :: recovery_gate where
  "demo_gate = (gate_new False)\<lparr>gate_requests := [(''rec_req:1'', demo_request)], st_submitted := 1\<rparr>"

lemma hub_de_escalation_exact_witness:
  "\<exists>h' w' g1. approve_de_escalation ''rec_req:1'' ''op'' ((demo_hub R_DEFENSIVE)\<lparr>h_gate := Some demo_gate\<rparr>)
       (sample_world 9) = (False, h', w') \<and> h_gate h' = Some g1 \<and>
     map_of (gate_requests g1) ''rec_req:1'' = Some (demo_request\<lparr>rq_status := AS_APPROVED\<rparr>)"
proof -
  let ?h = "(demo_hub R_DEFENSIVE)\<lparr>h_gate := Some demo_gate\<rparr>" and ?w = "sample_world 9"
  obtain appr g1 w1 where a: "approve_recovery ''rec_req:1'' ''op'' None None [] demo_gate ?w = (appr, g1, w1)"
    by (metis prod_cases3)
  obtain b h' w' where e: "approve_de_escalation ''rec_req:1'' ''op'' ?h ?w = (b, h', w')" by (metis prod_cases3)
  have pending: "map_of (gate_requests demo_gate) ''rec_req:1'' = Some demo_request" "rq_status demo_request = AS_PENDING"
    by (simp_all add: demo_gate_def demo_request_def)
  have now: "fst (now_ms w1) = 10000"
    using a pending
    by (simp add: approve_recovery_def make_approval_def approval_post_init_def gate_audit_def emit_audit_def
        set_request_status_def demo_gate_def demo_request_def gate_new_def now_ms_def fresh_hex_def
        sample_world_def sample_env_def env.defs Let_def split: if_splits) (auto simp: sample_clock_def)
  have "fl_round (of_int 300000) = Fin (of_int 300000)" by (rule fl_round_of_int) simp
  then have "\<not> held_long_enough (demo_risk R_DEFENSIVE) w1"
    using now by (simp add: held_long_enough_def min_hold_ms_def demo_risk_def default_thresholds_def)
  moreover have "level_of_name (rq_to demo_request) = Some R_REDUCED"
    using level_of_name_name[of R_REDUCED] by (simp add: demo_request_def)
  moreover have "R_REDUCED < risk_level (demo_risk R_DEFENSIVE)"
    by (simp add: demo_risk_def risk_level_def level_order)
  ultimately show ?thesis
    using hub_de_escalation_exact[OF _ _ _ _ pending a e] e by auto
qed

section \<open>The automatic paper grant\<close>

lemma auth_transition_scope:
  assumes "auth_transition c sm w = (Inr x, sm', w')" "store_get (c_id c) sm = Some a"
  shows "a_scope x = a_scope a"
  using assms by (auto simp: auth_transition_def store_get_def Let_def split: prod.splits sum.splits)

lemma paper_grant_steps_effect:
  obtains a sm' w' where "paper_grant_steps usd expires sm w = (True, sm', w')"
    "store_get (authorization_id a) sm' = Some a" "a_state a = A_ACTIVE" "a_expires_at_ms a = Some expires"
    "a_scope a = paper_scope usd" "\<And>j. j \<noteq> authorization_id a \<Longrightarrow> store_get j sm' = store_get j sm"
    "auth_inv sm \<Longrightarrow> auth_inv sm'" "later w w'"
proof -
  obtain a0 sm1 w1 where d: "auth_create_draft paper_title (paper_scope usd) ''system_paper_auto''
      paper_description (Some expires) sm w = (a0, sm1, w1)" by (metis prod_cases3)
  note a0 = auth_create_draft_shape[OF d]
  let ?i = "authorization_id a0"
  let ?c1 = "\<lparr>c_id = ?i, c_to = A_PENDING_APPROVAL, c_event = AE_SUBMITTED_FOR_APPROVAL,
      c_initiator = AI_AUTHORIZATION_GOVERNANCE, c_reason_codes = Some [''submitted_for_review''],
      c_approved_by = None, c_reason = []\<rparr>"
  let ?c2 = "\<lparr>c_id = ?i, c_to = A_ACTIVE, c_event = AE_APPROVED, c_initiator = AI_OPERATOR,
      c_reason_codes = Some [''approved''], c_approved_by = Some ''system_paper_auto'',
      c_reason = paper_reason\<rparr>"
  have s1: "store_get (c_id ?c1) sm1 = Some a0" using a0 by (simp add: store_get_put)
  moreover have "permitted auth_class (a_state a0) (c_to ?c1) (c_initiator ?c1) (c_approved_by ?c1)"
    using a0 by (simp add: auth_permitted)
  ultimately obtain x w2 where r: "auth_transition ?c1 sm1 w1 = (Inr x, store_put (c_id ?c1) x sm1, w2)"
    "a_state x = A_PENDING_APPROVAL" "a_expires_at_ms x = Some expires" "authorization_id x = ?i" "later w1 w2"
    using auth_call_ok[of ?c1 sm1 a0 w1] a0(5) by auto
  let ?sm2 = "store_put ?i x sm1"
  have s2: "store_get (c_id ?c2) ?sm2 = Some x" by (simp add: store_get_put)
  moreover have "permitted auth_class (a_state x) (c_to ?c2) (c_initiator ?c2) (c_approved_by ?c2)"
    using r by (simp add: auth_permitted)
  ultimately obtain y w3 where a: "auth_transition ?c2 ?sm2 w2 = (Inr y, store_put (c_id ?c2) y ?sm2, w3)"
    "a_state y = A_ACTIVE" "a_expires_at_ms y = Some expires" "authorization_id y = ?i" "later w2 w3"
    using auth_call_ok[of ?c2 ?sm2 x w2] r(3,4) by auto
  show ?thesis
  proof (rule that[of "store_put ?i y ?sm2" w3 y])
    show "paper_grant_steps usd expires sm w = (True, store_put ?i y ?sm2, w3)"
      using d r(1) a(1) by (simp add: paper_grant_steps_def auth_submit_for_approval_def auth_approve_def Let_def)
    show "later w w3" using a0(7) r(5) a(5) later_trans by blast
    show "a_scope y = paper_scope usd"
      using auth_transition_scope[OF a(1) s2] auth_transition_scope[OF r(1) s1] a0(6) by simp
    show "auth_inv (store_put ?i y ?sm2)" if inv: "auth_inv sm"
    proof -
      have "auth_inv sm1" using auth_inv_put[OF inv a0(2)] a0(1) by simp
      from auth_inv_transition[OF this r(1)] have "auth_inv ?sm2" by simp
      from auth_inv_transition[OF this a(1)] show ?thesis by simp
    qed
  qed (use a a0 in \<open>simp_all add: store_get_put\<close>)
qed

text \<open>The automatic paper grant on a ready hub succeeds exactly when the given ceiling converts
  to a float that is not at most zero (NaN is accepted) and either some authorization is already
  effective or the expiry time can be computed. With an effective authorization the call is a
  no-op; otherwise there is afterwards an ACTIVE authorization with the paper scope, that
  ceiling and that expiry, and the cached gate answer is dropped. A failed call changes nothing.\<close>

theorem hub_paper_grant_exact:
  assumes "h_auth h = Some sm" "h_initialized h" "grant_paper_authorization ttl v h w = (res, h', w')"
  shows "(res = Some True \<longleftrightarrow> (\<exists>usd. py_float v = Inr usd \<and> \<not> fle usd (Fin 0)) \<and>
       (auth_get_effective sm \<noteq> [] \<or> fst (paper_expiry ttl w) \<noteq> None)) \<and>
    (res \<noteq> Some True \<or> auth_get_effective sm \<noteq> [] \<longrightarrow> h' = h) \<and>
    (res = Some True \<and> auth_get_effective sm = [] \<longrightarrow> h_cache h' = None \<and>
       (\<exists>sm' a usd. h_auth h' = Some sm' \<and> store_get (authorization_id a) sm' = Some a \<and> a_state a = A_ACTIVE \<and>
          a_expires_at_ms a = fst (paper_expiry ttl w) \<and> py_float v = Inr usd \<and> a_scope a = paper_scope usd \<and>
          (\<forall>j. j \<noteq> authorization_id a \<longrightarrow> store_get j sm' = store_get j sm)))"
proof -
  consider (bad) "\<not> (\<exists>usd. py_float v = Inr usd \<and> \<not> fle usd (Fin 0))"
    | (idem) usd where "py_float v = Inr usd" "\<not> fle usd (Fin 0)" "auth_get_effective sm \<noteq> []"
    | (fresh) usd where "py_float v = Inr usd" "\<not> fle usd (Fin 0)" "auth_get_effective sm = []"
    by blast
  then show ?thesis
  proof cases
    case bad
    then have "res \<noteq> Some True \<and> h' = h"
      using assms by (auto simp: grant_paper_authorization_def split: sum.splits conv_error.splits if_splits)
    with bad show ?thesis by blast
  next
    case idem
    then have "res = Some True \<and> h' = h" using assms by (simp add: grant_paper_authorization_def)
    with idem show ?thesis by blast
  next
    case fresh
    obtain ex w1 where e: "paper_expiry ttl w = (ex, w1)" by fastforce
    show ?thesis
    proof (cases ex)
      case None
      then have "res = Some False \<and> h' = h" using assms fresh e by (simp add: grant_paper_authorization_def)
      with fresh e None show ?thesis by simp
    next
      case (Some t)
      obtain a sm' w2 where g: "paper_grant_steps usd t sm w1 = (True, sm', w2)"
        "store_get (authorization_id a) sm' = Some a" "a_state a = A_ACTIVE" "a_expires_at_ms a = Some t"
        "a_scope a = paper_scope usd" "\<And>j. j \<noteq> authorization_id a \<Longrightarrow> store_get j sm' = store_get j sm"
        using paper_grant_steps_effect by metis
      obtain h2 w3 where i: "invalidate_auth_cache (h\<lparr>h_auth := Some sm'\<rparr>) w2 = (h2, w3)" by fastforce
      have "res = Some True" "h' = h2"
        using assms fresh e Some g(1) i by (simp_all add: grant_paper_authorization_def Let_def)
      moreover have "h_auth h2 = Some sm'" "h_cache h2 = None" using invalidate_frame(1)[OF i] by simp_all
      ultimately show ?thesis using fresh e Some g by (auto intro!: exI[of _ a])
    qed
  qed
qed

lemma demo_expiry: "fst (paper_expiry 24 (sample_world 9)) = Some 86409000"
proof -
  have "fl_round (of_int 86400) = Fin (of_int 86400)" "fl_round (of_int 86409) = Fin (of_int 86409)"
    "fl_round (of_int 86409000) = Fin (of_int 86409000)" by (rule fl_round_of_int; simp)+
  then show ?thesis
    by (simp add: paper_expiry_def read_clock_def sample_world_def sample_env_def env.defs sample_clock_def)
qed

lemma hub_paper_grant_exact_witness:
  "\<exists>h' w'. grant_paper_authorization 24 (PFloat NaN) ((demo_hub R_NORMAL)\<lparr>h_auth := Some (new_store True)\<rparr>)
     (sample_world 9) = (Some True, h', w')"
proof -
  let ?h = "(demo_hub R_NORMAL)\<lparr>h_auth := Some (new_store True)\<rparr>"
  obtain res h' w' where g: "grant_paper_authorization 24 (PFloat NaN) ?h (sample_world 9) = (res, h', w')"
    by (metis prod_cases3)
  have "res = Some True"
    using hub_paper_grant_exact[OF _ _ g] by (simp add: py_float_def demo_expiry)
  with g show ?thesis by simp
qed

end
