(* ===== verification/Gov_Invariant.thy ===== *)
theory Gov_Invariant
  imports Gov_Ops Recon_Laws
begin

text \<open>
  Reconciliation through the hub, the event stream, and the invariant of every history of hub
  operations.
\<close>

section \<open>Escalating through the governor\<close>

lemma escalate_outcome:
  assumes "risk_escalate_to t why ev (RI i) m r w = (res, r', w')"
    and "i \<in> {RI_RISK_GOVERNOR, RI_INCIDENT_POLICY}" "t \<le> R_CIRCUIT_BREAKER"
  shows "risk_level r' = max (risk_level r) t"
proof -
  let ?c = "\<lparr>rc_to = t, rc_event = ev, rc_initiator = RI i,
      rc_reason_codes = Some [''escalation''], rc_approved_by = None, rc_reason = why, rc_metrics = m\<rparr>"
  have c: "risk_transition ?c r w = (res, r', w')" using assms(1) by (simp add: risk_escalate_to_def)
  consider "t = risk_level r" | "t < risk_level r" | "risk_level r < t" by fastforce
  then show ?thesis
  proof cases
    case 1
    from c show ?thesis by (cases rule: risk_transition_cases) (use 1 in auto)
  next
    case 2
    then have "rc_to ?c \<noteq> risk_level r" by auto
    have "\<not> (\<exists>s sm' u. risk_transition ?c r w = (Inr s, sm', u))"
      unfolding risk_transition_success[OF \<open>rc_to ?c \<noteq> _\<close>]
      using risk_validate_lowering[OF 2, of r _ None w] by simp
    with c have "res \<noteq> Inr s" for s by blast
    with c have "r' = r" by (cases rule: risk_transition_cases) (use 2 in auto)
    with 2 show ?thesis by (auto simp: max_def)
  next
    case 3
    have "t \<noteq> R_MANUAL_REVIEW" using assms(3) by (auto simp: level_order)
    have "\<exists>copy sm' u. risk_transition ?c r w = (Inr copy, sm', u) \<and> g_level copy = rc_to ?c \<and>
      risk_level sm' = rc_to ?c \<and> r_thresholds sm' = r_thresholds r"
      by (rule risk_escalation_succeeds[where i = i])
        (use 3 assms(2) \<open>t \<noteq> _\<close> in \<open>auto simp: RG_AUTO_def\<close>)
    with c 3 show ?thesis by (auto simp: max_def)
  qed
qed

section \<open>Reconciliation stays advisory\<close>

text \<open>The level a mismatch token leads to, from a level.\<close>

definition advised_level :: "string \<Rightarrow> RiskLevel \<Rightarrow> RiskLevel" where
  "advised_level token l =
     (if token = ''MISMATCH_MAJOR'' then (if l < R_REDUCED then R_REDUCED else max l R_DEFENSIVE) else l)"

lemma advised_bounds: "l \<le> advised_level token l" "advised_level token l \<le> max l R_DEFENSIVE"
  by (cases l; simp add: advised_level_def level_order max_def)+

text \<open>What a step that is not a freeze may change.\<close>

definition mild :: "(RiskLevel \<Rightarrow> RiskLevel) \<Rightarrow> hub \<Rightarrow> hub \<Rightarrow> bool" where
  "mild f h h' \<longleftrightarrow> h_auth h' = h_auth h \<and> h_lease h' = h_lease h \<and> h_mode h' = h_mode h \<and>
     h_enabled h' = h_enabled h \<and> h_initialized h' = h_initialized h \<and> h_gate h' = h_gate h \<and>
     map_option risk_level (h_risk h') = map_option f (map_option risk_level (h_risk h))"

declare option.map_id [simp]

lemma mild_refl: "mild id h h"
  by (simp add: mild_def option.map_id)

lemma mild_cong: "mild f h h' \<Longrightarrow> (\<And>l. f l = g l) \<Longrightarrow> mild g h h'"
  by (simp add: mild_def cong: option.map_cong)

lemma recon_event_mild:
  assumes "recon_mismatch_event severity details corr h w = (parent, h', w')"
  shows "mild id h h'" "h_escalated h' = h_escalated h" "h_incident_count h' = h_incident_count h"
  using assms by (auto simp: recon_mismatch_event_def mild_def Let_def split: if_splits prod.splits)

lemma mismatch_advisory:
  assumes "token \<noteq> ''FATAL''" "h_enabled h" "h_initialized h"
    and "on_reconciliation_mismatch other token details h w = (h', w')"
  shows "mild (advised_level token) h h'" "h_escalated h' = h_escalated h"
    "h_incident_count h' = Suc (h_incident_count h)"
proof -
  obtain corr w1 where u: "fresh_uuid w = (corr, w1)" by fastforce
  let ?h = "h\<lparr>h_incident_count := Suc (h_incident_count h)\<rparr>"
  obtain parent h1 w2 where e: "recon_mismatch_event token details corr ?h w1 = (parent, h1, w2)"
    by (metis prod_cases3)
  note 1 = recon_event_mild[OF e]
  have "mild (advised_level token) h h' \<and> h_escalated h' = h_escalated h \<and>
    h_incident_count h' = Suc (h_incident_count h)"
  proof (cases "token = ''MISMATCH_MAJOR''")
    case False
    have "h' = h1"
    proof (cases "token = ''MISMATCH_MINOR''")
      case True
      then show ?thesis using assms u e by (simp add: on_reconciliation_mismatch_def)
    next
      case other: False
      have t: "mismatch_target token h1 w2 = (None, w2)"
        using False assms(1) by (cases "h_risk h1") (simp_all add: mismatch_target_def)
      then show ?thesis
        using assms u e other by (simp add: on_reconciliation_mismatch_def fatal_freeze_def Let_def)
    qed
    moreover have "advised_level token l = id l" for l using False by (simp add: advised_level_def)
    ultimately show ?thesis using 1 by (simp add: mild_def option.map_id cong: option.map_cong)
  next
    case True
    show ?thesis
    proof (cases "h_risk h1")
      case None
      then have "mismatch_target token h1 w2 = (None, w2)" by (simp add: mismatch_target_def)
      then have "h' = h1"
        using assms u e True by (simp add: on_reconciliation_mismatch_def fatal_freeze_def Let_def)
      with 1 None show ?thesis by (simp add: mild_def option.map_id)
    next
      case (Some r)
      obtain s w3 where g: "risk_get_state r w2 = (s, w3)" by fastforce
      then have s: "g_level s = risk_level r" using risk_get_state_level[of r w2] by simp
      let ?t = "if risk_level r < R_REDUCED then R_REDUCED else R_DEFENSIVE"
      have t: "mismatch_target token h1 w2 = (Some ?t, w3)"
        using Some True g s by (simp add: mismatch_target_def)
      obtain res r1 w4 where x: "risk_escalate_to ?t (''reconciliation_'' @ str_lower token)
          RE_OPERATOR_ESCALATION (RI RI_RISK_GOVERNOR) None r w3 = (res, r1, w4)" by (metis prod_cases3)
      have "risk_level r1 = max (risk_level r) ?t"
        by (rule escalate_outcome[OF x]) (simp_all add: level_order)
      also have "\<dots> = advised_level token (risk_level r)"
        using True by (cases "risk_level r"; simp add: advised_level_def max_def level_order)
      finally have lev: "risk_level r1 = advised_level token (risk_level r)" .
      have h': "h' = (case res of Inl _ \<Rightarrow> hub_error (h1\<lparr>h_risk := Some r1\<rparr>) | Inr _ \<Rightarrow> h1\<lparr>h_risk := Some r1\<rparr>)"
        using assms u e True t x Some
        by (cases res) (simp_all add: on_reconciliation_mismatch_def fatal_freeze_def hub_escalate_def Let_def)
      obtain z where old: "h_risk h = Some z" "risk_level z = risk_level r"
        using 1(1) Some by (cases "h_risk h") (auto simp: mild_def)
      have "mild (advised_level token) h h'"
        using 1(1) lev old unfolding h' mild_def by (cases res) simp_all
      moreover have "h_escalated h' = h_escalated h" "h_incident_count h' = Suc (h_incident_count h)"
        using 1(2,3) unfolding h' by (cases res; simp)+
      ultimately show ?thesis by simp
    qed
  qed
  then show "mild (advised_level token) h h'" "h_escalated h' = h_escalated h"
    "h_incident_count h' = Suc (h_incident_count h)" by simp_all
qed

text \<open>The token of a report after the advisory cap: never FATAL.\<close>

definition capped_token :: "ReconciliationReport \<Rightarrow> string option" where
  "capped_token p = (if p_result p = RR_MATCH then None
     else Some (if graded_as S_FATAL p \<or> p_result p = RR_MISMATCH_MAJOR \<or> graded_as S_CRITICAL p
                then ''MISMATCH_MAJOR'' else ''MISMATCH_MINOR''))"

lemma capped_token_eq:
  "map_option apply_reconcile_advisory_cap (map_report_to_escalation other (report_to_dict p)) = Some (capped_token p)"
  by (simp add: escalation_eq apply_reconcile_advisory_cap_def capped_token_def
      RECONCILE_ADVISORY_FIRST_MAX_ESCALATION_def)

lemma callback_eq:
  assumes "py_str other (PStr (p_id p)) \<notin> set (h_escalated h)" "p_id p \<noteq> []"
  shows "incident_callback other (report_to_dict p) action (h, w) =
    (case capped_token p of None \<Rightarrow> (remember_report (p_id p) h, w)
     | Some token \<Rightarrow> on_reconciliation_mismatch other token (report_to_dict p) (remember_report (p_id p) h) w)"
proof -
  obtain esc where e: "map_report_to_escalation other (report_to_dict p) = Some esc"
    "apply_reconcile_advisory_cap esc = capped_token p"
    using capped_token_eq[of other p] by auto
  have "dict_get (report_to_dict p) ''report_id'' (PStr []) = PStr (p_id p)"
    by (simp add: report_to_dict_def dict_get_def)
  with e assms show ?thesis by (simp add: incident_callback_def Let_def py_str_def)
qed

lemma remembered: "rid \<in> set (h_escalated (remember_report rid h))"
proof -
  let ?ids = "h_escalated h @ [rid]"
  have "rid \<in> set (drop (length ?ids - max_escalated) ?ids)"
    by (simp add: max_escalated_def)
  then show ?thesis by (simp add: remember_report_def Let_def)
qed

lemma remember_mild: "mild id h (remember_report rid h)" "h_incident_count (remember_report rid h) = h_incident_count h"
  by (simp_all add: remember_report_def mild_def Let_def)

lemma callback_seen:
  assumes "p_id p \<in> set (h_escalated h)" "p_id p \<noteq> []"
  shows "incident_callback other (report_to_dict p) action (h, w) = (h, w)"
proof -
  have "dict_get (report_to_dict p) ''report_id'' (PStr []) = PStr (p_id p)"
    by (simp add: report_to_dict_def dict_get_def)
  with assms show ?thesis by (simp add: incident_callback_def Let_def py_str_def)
qed

lemma capped_not_fatal: "capped_token p = Some token \<Longrightarrow> token \<noteq> ''FATAL''"
  by (auto simp: capped_token_def split: if_splits)

text \<open>One report, however many actions: at most one escalation.\<close>

definition advise :: "string option \<Rightarrow> RiskLevel \<Rightarrow> RiskLevel" where
  "advise token l = (case token of None \<Rightarrow> l | Some t \<Rightarrow> advised_level t l)"

lemma callbacks_once:
  assumes "h_enabled h" "h_initialized h" "p_id p \<noteq> []" "p_id p \<notin> set (h_escalated h)" "acts \<noteq> []"
    and "fold (incident_callback other (report_to_dict p)) acts (h, w) = (h', w')"
  shows "mild (advise (capped_token p)) h h'"
    "h_incident_count h' = h_incident_count h + (if capped_token p = None then 0 else 1)"
proof -
  obtain a as where acts: "acts = a # as" using assms(5) by (cases acts) auto
  let ?cb = "incident_callback other (report_to_dict p)"
  obtain h1 w1 where 1: "?cb a (h, w) = (h1, w1)" by fastforce
  have "p_id p \<in> set (h_escalated h1) \<and> mild (advise (capped_token p)) h h1 \<and>
    h_incident_count h1 = h_incident_count h + (if capped_token p = None then 0 else 1)"
  proof (cases "capped_token p")
    case None
    with 1 assms(3,4) have "h1 = remember_report (p_id p) h" by (simp add: callback_eq py_str_def)
    then show ?thesis
      using None remembered remember_mild(1)[of h "p_id p"] remember_mild(2)[of "p_id p" h]
      by (simp add: advise_def[abs_def] id_def)
  next
    case (Some token)
    let ?h = "remember_report (p_id p) h"
    have "h_enabled ?h" "h_initialized ?h" using assms(1,2) remember_mild(1)[of h "p_id p"] by (simp_all add: mild_def)
    moreover have "on_reconciliation_mismatch other token (report_to_dict p) ?h w = (h1, w1)"
      using 1 Some assms(3,4) by (simp add: callback_eq py_str_def)
    ultimately have m: "mild (advised_level token) ?h h1" "h_escalated h1 = h_escalated ?h"
      "h_incident_count h1 = Suc (h_incident_count ?h)"
      using mismatch_advisory[OF capped_not_fatal[OF Some]] by blast+
    have "mild (advised_level token) h h1"
      using m(1) remember_mild(1)[of h "p_id p"] by (simp add: mild_def option.map_id)
    with m Some remembered[of "p_id p" h] remember_mild(2)[of "p_id p" h] show ?thesis
      by (simp add: advise_def[abs_def])
  qed
  then have 2: "p_id p \<in> set (h_escalated h1)" "mild (advise (capped_token p)) h h1"
    "h_incident_count h1 = h_incident_count h + (if capped_token p = None then 0 else 1)" by simp_all
  have "fold ?cb as (h1, w1) = (h1, w1)"
    by (induction "as") (simp_all add: callback_seen[OF 2(1) assms(3)])
  with assms(6) acts 1 have "h' = h1" by simp
  with 2 show "mild (advise (capped_token p)) h h'"
    "h_incident_count h' = h_incident_count h + (if capped_token p = None then 0 else 1)" by simp_all
qed

text \<open>A whole cycle. The report id is never empty, so the callbacks are recognized.\<close>

lemma recon_cycle_outcome:
  assumes "hub_recon_cycle rt paper remote e h w = (p, h', w')" "h_enabled h" "h_initialized h"
  shows "p_id p \<noteq> []"
    and "mild (if e_incident_cb e \<and> p_actions p \<noteq> [] \<and> p_id p \<notin> set (h_escalated h)
               then advise (capped_token p) else id) h h'"
    and "h_incident_count h' = h_incident_count h +
      (if e_incident_cb e \<and> p_actions p \<noteq> [] \<and> p_id p \<notin> set (h_escalated h) \<and> capped_token p \<noteq> None then 1 else 0)"
proof -
  obtain p0 w0 where i: "report_post_init (fresh_report paper remote) w = (p0, w0)" by fastforce
  obtain p1 e1 w1 where b: "recon_body rt paper remote (e\<lparr>e_incident_cb := False\<rparr>) p0 w0 = (p1, e1, w1)"
    by (metis prod_cases3)
  let ?cb = "incident_callback (rt_str rt) (report_to_dict p1)"
  obtain h1 w2 where f: "(if e_incident_cb e then fold ?cb (p_actions p1) (h, w1) else (h, w1)) = (h1, w2)" by fastforce
  obtain t w3 where n: "now_ms w2 = (t, w3)" by fastforce
  have p: "p = p1\<lparr>p_completed_ms := t\<rparr>"
    and h': "h' = h1\<lparr>h_recon := Some ((file_report p e1)\<lparr>e_incident_cb := e_incident_cb e\<rparr>)\<rparr>"
    using assms(1) i b f n by (auto simp: hub_recon_cycle_def Let_def)
  have id0: "p_id p0 \<noteq> []"
    using i by (auto simp: report_post_init_def fresh_report_def fresh_hex_def now_ms_def Let_def)
  with recon_body_id[OF b] p show id: "p_id p \<noteq> []" by simp
  have same: "capped_token p = capped_token p1" "p_actions p = p_actions p1" "p_id p = p_id p1"
    by (simp_all add: p capped_token_def graded_as_def)
  have "mild (if e_incident_cb e \<and> p_actions p \<noteq> [] \<and> p_id p \<notin> set (h_escalated h)
             then advise (capped_token p) else id) h h1 \<and>
    h_incident_count h1 = h_incident_count h +
      (if e_incident_cb e \<and> p_actions p \<noteq> [] \<and> p_id p \<notin> set (h_escalated h) \<and> capped_token p \<noteq> None then 1 else 0)"
  proof (cases "e_incident_cb e \<and> p_actions p \<noteq> [] \<and> p_id p \<notin> set (h_escalated h)")
    case True
    have c: "fold ?cb (p_actions p1) (h, w1) = (h1, w2)" using f True by simp
    show ?thesis
      using callbacks_once[OF assms(2,3) _ _ _ c] True id same by simp
  next
    case False
    have "fold ?cb as (h, w1) = (h, w1)" if "p_id p1 \<in> set (h_escalated h)" for as
      using that id same(3) by (induction "as") (simp_all add: callback_seen)
    with False f same have "h1 = h" by (auto split: if_splits)
    with False show ?thesis by (auto simp: mild_refl)
  qed
  then show "mild (if e_incident_cb e \<and> p_actions p \<noteq> [] \<and> p_id p \<notin> set (h_escalated h)
               then advise (capped_token p) else id) h h'"
    "h_incident_count h' = h_incident_count h +
      (if e_incident_cb e \<and> p_actions p \<noteq> [] \<and> p_id p \<notin> set (h_escalated h) \<and> capped_token p \<noteq> None then 1 else 0)"
    by (simp_all add: h' mild_def)
qed

lemma advise_bounds: "l \<le> advise token l" "advise token l \<le> max l R_DEFENSIVE"
  using advised_bounds by (cases token; simp add: advise_def)+

section \<open>Properties\<close>

text \<open>C4: Reconciliation through the hub is advisory, whatever the two snapshots hold and however
  bad the findings are: authorizations, leases and the governance mode stay as they were, and
  the risk level is not lowered and not raised above DEFENSIVE.\<close>

theorem hub_reconcile_advisory:
  assumes "hub_reconcile rt paper demo h w = (d, h', w')"
  shows "h_auth h' = h_auth h \<and> h_lease h' = h_lease h \<and> h_mode h' = h_mode h \<and>
    (h_risk h' = None \<longleftrightarrow> h_risk h = None) \<and>
    (\<forall>r r'. h_risk h = Some r \<and> h_risk h' = Some r' \<longrightarrow>
       risk_level r \<le> risk_level r' \<and> risk_level r' \<le> max (risk_level r) R_DEFENSIVE)"
proof (cases "h' = h")
  case True
  then show ?thesis by auto
next
  case False
  with assms obtain e remote p w1 where c: "hub_recon_cycle rt paper remote e h w = (p, h', w1)"
    and i: "h_enabled h" "h_initialized h"
    by (auto simp: hub_reconcile_def split: if_splits option.splits prod.splits)
  define f where "f = (if e_incident_cb e \<and> p_actions p \<noteq> [] \<and> p_id p \<notin> set (h_escalated h)
    then advise (capped_token p) else id)"
  have m: "mild f h h'" using recon_cycle_outcome(2)[OF c i] by (simp add: f_def)
  have b: "l \<le> f l \<and> f l \<le> max l R_DEFENSIVE" for l
    using advise_bounds[where l = l and token = "capped_token p"] by (simp add: f_def)
  show ?thesis using m b unfolding mild_def by (cases "h_risk h"; cases "h_risk h'") auto
qed

lemma hub_reconcile_advisory_witness:
  "\<exists>d h' w'. hub_reconcile demo_rt demo_snap (Some []) (demo_hub R_NORMAL) (sample_world 9) = (d, h', w') \<and>
     effective_auths h' \<noteq> [] \<and> live_leases h' \<noteq> [] \<and> (\<forall>r. h_risk h' = Some r \<longrightarrow> risk_level r \<le> R_DEFENSIVE)"
proof -
  obtain d h' w' where r: "hub_reconcile demo_rt demo_snap (Some []) (demo_hub R_NORMAL) (sample_world 9) = (d, h', w')"
    by (metis prod_cases3)
  note a = hub_reconcile_advisory[OF r]
  have "effective_auths h' = effective_auths (demo_hub R_NORMAL)" "live_leases h' = live_leases (demo_hub R_NORMAL)"
    using a by (simp_all add: effective_auths_def live_leases_def)
  moreover have "live_leases (demo_hub R_NORMAL) \<noteq> []"
    using demo_lease_get by (auto simp: live_leases_def lease_get_live_def lease_is_live_def lease_live_states_def)
  moreover have "risk_level s \<le> R_DEFENSIVE" if "h_risk h' = Some s" for s
    using a that by (auto simp: demo_risk_def risk_level_def max_def level_order split: if_splits)
  ultimately show ?thesis using r by auto
qed

text \<open>A reconciliation cycle through the hub escalates at most once, however many actions its
  report triggers: the incident count rises by one exactly when the engine has its callback, the
  report triggered an action, was not seen before and is not a MATCH; then the governor is at
  the level the capped token asks for, and otherwise at its old one. A capped token only moves
  the governor for a FATAL, MAJOR or CRITICAL report: to REDUCED from below it, and to at least
  DEFENSIVE from there.\<close>

theorem hub_recon_escalates_once:
  assumes "hub_recon_cycle rt paper remote e h w = (p, h', w')" "h_enabled h" "h_initialized h"
  shows "h_incident_count h' = h_incident_count h +
      (if e_incident_cb e \<and> p_actions p \<noteq> [] \<and> p_id p \<notin> set (h_escalated h) \<and> p_result p \<noteq> RR_MATCH then 1 else 0) \<and>
    map_option risk_level (h_risk h') = map_option (\<lambda>r.
      if e_incident_cb e \<and> p_actions p \<noteq> [] \<and> p_id p \<notin> set (h_escalated h) \<and> p_result p \<noteq> RR_MATCH \<and>
         (graded_as S_FATAL p \<or> graded_as S_CRITICAL p \<or> p_result p = RR_MISMATCH_MAJOR)
      then (if risk_level r < R_REDUCED then R_REDUCED else max (risk_level r) R_DEFENSIVE)
      else risk_level r) (h_risk h)"
proof
  have "capped_token p = None \<longleftrightarrow> p_result p = RR_MATCH" by (simp add: capped_token_def)
  then show "h_incident_count h' = h_incident_count h +
      (if e_incident_cb e \<and> p_actions p \<noteq> [] \<and> p_id p \<notin> set (h_escalated h) \<and> p_result p \<noteq> RR_MATCH then 1 else 0)"
    using recon_cycle_outcome(3)[OF assms] by simp
  let ?major = "p_result p \<noteq> RR_MATCH \<and>
    (graded_as S_FATAL p \<or> graded_as S_CRITICAL p \<or> p_result p = RR_MISMATCH_MAJOR)"
  have adv: "advise (capped_token p) l =
      (if ?major then (if l < R_REDUCED then R_REDUCED else max l R_DEFENSIVE) else l)" for l
    by (auto simp: advise_def capped_token_def advised_level_def)
  show "map_option risk_level (h_risk h') = map_option (\<lambda>r.
      if e_incident_cb e \<and> p_actions p \<noteq> [] \<and> p_id p \<notin> set (h_escalated h) \<and> p_result p \<noteq> RR_MATCH \<and>
         (graded_as S_FATAL p \<or> graded_as S_CRITICAL p \<or> p_result p = RR_MISMATCH_MAJOR)
      then (if risk_level r < R_REDUCED then R_REDUCED else max (risk_level r) R_DEFENSIVE)
      else risk_level r) (h_risk h)"
    using recon_cycle_outcome(2)[OF assms] unfolding mild_def by (cases "h_risk h") (auto simp: adv)
qed

lemma hub_recon_escalates_once_witness:
  "\<exists>p h' w'. hub_recon_cycle demo_rt demo_snap [] demo_engine (demo_hub R_NORMAL) (sample_world 9) = (p, h', w') \<and>
     h_incident_count h' \<le> 1"
proof -
  obtain p h' w' where r:
    "hub_recon_cycle demo_rt demo_snap [] demo_engine (demo_hub R_NORMAL) (sample_world 9) = (p, h', w')"
    by (metis prod_cases3)
  have "h_incident_count (demo_hub R_NORMAL) = 0" by (simp add: demo_hub_def hub_new_def)
  with hub_recon_escalates_once[OF r] r show ?thesis by auto
qed

text \<open>What the event query returns, for any limit and type: of the events of that type it takes
  the oldest ones (as many as the limit says, at most 1000), newest first, so new events are the
  ones left out; a limit of zero returns everything, and a negative one drops the newest.\<close>

theorem hub_events_oldest:
  "get_governance_events limit ty h =
     (let es = (if str_given ty then filter (\<lambda>e. dict_get e ''category'' PNone = opt_str ty) (h_events h)
        else h_events h) in
      rev (take (if 0 < limit then nat (min limit 1000) else length es - nat (- limit)) es))"
proof -
  have "rev (drop k (rev xs)) = take (length xs - k) xs" for k and xs :: "pydict list"
    by (simp add: rev_drop)
  then have d: "drop k (rev xs) = rev (take (length xs - k) xs)" for k and xs :: "pydict list"
    by (metis rev_rev_ident)
  have "take (length xs - (length xs - n)) xs = take n xs" for n and xs :: "pydict list"
    by (cases "n \<le> length xs") simp_all
  with d show ?thesis by (simp add: get_governance_events_def last_n_def Let_def min_def)
qed

end
