(* ===== verification/Gov_Reach.thy ===== *)
theory Gov_Reach
  imports Gov_Invariant
begin

text \<open>
  The invariant of every history of hub operations: whatever is called, in whatever order, with
  whatever clock readings and answers of the Rust core, the machines inside the hub keep their
  own invariants and the hub's buffers keep their bounds.
\<close>

section \<open>The invariant\<close>

definition hub_inv :: "hub \<Rightarrow> bool" where
  "hub_inv h \<longleftrightarrow> machines_ok h \<and> (\<forall>r. h_risk h = Some r \<longrightarrow> risk_sound (r_state r)) \<and>
     (\<forall>g. h_gate h = Some g \<longrightarrow> gate_ok g) \<and>
     length (h_events h) \<le> max_events \<and> length (h_escalated h) \<le> max_escalated"

lemma hub_inv_new: "hub_inv (hub_new enabled)"
  by (simp add: hub_inv_def machines_ok_def hub_new_def max_events_def max_escalated_def)

lemma hub_inv_quiet [simp]:
  "hub_inv (h\<lparr>h_enabled := b\<rparr>) = hub_inv h" "hub_inv (h\<lparr>h_mode := m\<rparr>) = hub_inv h"
  "hub_inv (h\<lparr>h_recon := e\<rparr>) = hub_inv h" "hub_inv (h\<lparr>h_callback_errors := n\<rparr>) = hub_inv h"
  "hub_inv (h\<lparr>h_incident_count := n\<rparr>) = hub_inv h" "hub_inv (h\<lparr>h_initialized := b\<rparr>) = hub_inv h"
  "hub_inv (h\<lparr>h_cache := c\<rparr>) = hub_inv h" "hub_inv (h\<lparr>h_cal := b\<rparr>) = hub_inv h"
  "hub_inv (h\<lparr>h_learning := l\<rparr>) = hub_inv h" "hub_inv (h\<lparr>h_shadow := s\<rparr>) = hub_inv h"
  "hub_inv (h\<lparr>h_ipc := i\<rparr>) = hub_inv h" "hub_inv (hub_error h) = hub_inv h"
  by (simp_all add: hub_inv_def machines_ok_def hub_error_def)

lemma hub_inv_part:
  "hub_inv h \<Longrightarrow> auth_inv a \<Longrightarrow> hub_inv (h\<lparr>h_auth := Some a\<rparr>)"
  "hub_inv h \<Longrightarrow> lease_inv l \<Longrightarrow> hub_inv (h\<lparr>h_lease := Some l\<rparr>)"
  "hub_inv h \<Longrightarrow> risk_sound (r_state r) \<Longrightarrow> hub_inv (h\<lparr>h_risk := Some r\<rparr>)"
  "hub_inv h \<Longrightarrow> gate_ok g \<Longrightarrow> hub_inv (h\<lparr>h_gate := Some g\<rparr>)"
  by (simp_all add: hub_inv_def machines_ok_def)

lemma hub_inv_parts:
  assumes "hub_inv h"
  shows "h_auth h = Some a \<Longrightarrow> auth_inv a" "h_lease h = Some l \<Longrightarrow> lease_inv l"
    "h_risk h = Some r \<Longrightarrow> risk_sound (r_state r)" "h_gate h = Some g \<Longrightarrow> gate_ok g"
  using assms by (simp_all add: hub_inv_def machines_ok_def)

section \<open>The steps the operations share\<close>

lemma inv_event [simp]: "hub_inv h \<Longrightarrow> hub_inv (append_governance_event e h)"
  using append_event_bound[of h e] by (simp add: hub_inv_def machines_ok_def)

lemma inv_emit: "emit_events mk ids h w = (h', w') \<Longrightarrow> hub_inv h \<Longrightarrow> hub_inv h'"
  by (erule emit_events_frame) (simp add: hub_inv_def machines_ok_def)

lemma inv_invalidate: "invalidate_auth_cache h w = (h', w') \<Longrightarrow> hub_inv h \<Longrightarrow> hub_inv h'"
  by (drule invalidate_frame(1)) simp

lemma inv_auth_each:
  assumes "auth_each f ids h w = (ok, h', w')" "hub_inv h"
    and "\<And>i s w r s' w'. auth_inv s \<Longrightarrow> f i s w = (r, s', w') \<Longrightarrow> auth_inv s'"
  shows "hub_inv h'"
proof (cases "h_auth h")
  case None
  with assms(1,2) show ?thesis by (simp add: auth_each_def)
next
  case (Some sm)
  obtain ok1 sm1 w1 where t: "try_each f ids sm w = (ok1, sm1, w1)" by (metis prod_cases3)
  from assms(1) Some t have "h' = h\<lparr>h_auth := Some sm1\<rparr>" by (simp add: auth_each_def)
  moreover have "auth_inv sm1"
    using try_each_inv[of auth_inv f, OF assms(3) hub_inv_parts(1)[OF assms(2) Some] t] .
  ultimately show ?thesis using assms(2) by (simp add: hub_inv_part)
qed

lemma inv_freeze_each:
  "auth_each (\<lambda>i. auth_freeze i why who) ids h w = (ok, h', w') \<Longrightarrow> hub_inv h \<Longrightarrow> hub_inv h'"
  "auth_each (\<lambda>i. auth_restrict i why who) ids h w = (ok, h', w') \<Longrightarrow> hub_inv h \<Longrightarrow> hub_inv h'"
  by (erule inv_auth_each; auto simp: auth_freeze_def auth_restrict_def intro: auth_inv_transition)+

lemma inv_auth_frozen:
  assumes "on_auth_frozen c p h w = (h', w')" "hub_inv h"
  shows "hub_inv h'"
proof (cases "h_enabled h \<and> h_initialized h \<and> live_leases h \<noteq> []")
  case False
  then have "h' = h"
    using assms(1) by (auto simp: on_auth_frozen_def live_leases_def Let_def split: option.splits if_splits)
  with assms(2) show ?thesis by simp
next
  case True
  have m: "machines_ok h" using assms(2) by (simp add: hub_inv_def)
  from True on_auth_frozen_spec[OF m _ _ assms(1)] obtain L es where
    "h' = h\<lparr>h_lease := L, h_events := es\<rparr>" "machines_ok h'"
    "length (h_events h) \<le> max_events \<Longrightarrow> length es \<le> max_events" by metis
  with assms(2) show ?thesis by (simp add: hub_inv_def)
qed

lemma inv_cascade_restrict:
  assumes "cascade_restrict lvl c p ids h w = (h', w')" "hub_inv h"
  shows "hub_inv h'"
  using assms
  by (auto simp: cascade_restrict_def Let_def split: if_splits prod.splits
      dest!: inv_freeze_each inv_invalidate inv_emit)

lemma inv_cascade_freeze:
  assumes "cascade_freeze lvl c p ids h w = (h', w')" "hub_inv h"
  shows "hub_inv h'"
  using assms
  by (auto simp: cascade_freeze_def Let_def split: if_splits prod.splits
      dest!: inv_freeze_each inv_invalidate inv_emit inv_auth_frozen)

lemma inv_fatal_freeze:
  assumes "fatal_freeze c p ids h w = (h', w')" "hub_inv h"
  shows "hub_inv h'"
  using assms
  by (auto simp: fatal_freeze_def Let_def split: if_splits prod.splits
      dest!: inv_freeze_each inv_invalidate inv_emit inv_auth_frozen)

lemma sound_escalate:
  "risk_escalate_to t why ev who m r w = (res, r', w') \<Longrightarrow> risk_sound (r_state r) \<Longrightarrow> risk_sound (r_state r')"
  unfolding risk_escalate_to_def by (rule risk_sound_transition)

lemma inv_put_risk:
  "risk_escalate_to t why ev who m r w = (res, r', w') \<Longrightarrow> h_risk h = Some r \<Longrightarrow> hub_inv h \<Longrightarrow>
     hub_inv (h\<lparr>h_risk := Some r'\<rparr>)"
  by (blast intro: sound_escalate hub_inv_parts(3) hub_inv_part(3))

lemma inv_escalate:
  assumes "hub_escalate t why h w = (h', w')" "hub_inv h"
  shows "hub_inv h'"
proof (cases "h_risk h")
  case (Some r)
  obtain res r1 w1 where x: "risk_escalate_to t why RE_OPERATOR_ESCALATION (RI RI_RISK_GOVERNOR) None r w = (res, r1, w1)"
    by (metis prod_cases3)
  from sound_escalate[OF x] hub_inv_parts(3)[OF assms(2) Some] assms(2)
  have "hub_inv (h\<lparr>h_risk := Some r1\<rparr>)" by (simp add: hub_inv_part)
  with assms(1) Some x show ?thesis by (auto simp: hub_escalate_def split: sum.splits)
qed (use assms in \<open>simp add: hub_escalate_def\<close>)

lemma inv_ensure:
  assumes "ensure_initialized h w = (h', w')" "hub_inv h"
  shows "hub_inv h'"
proof (cases "h_initialized h")
  case False
  obtain r w1 where r: "risk_new None True w = (r, w1)" by fastforce
  have "risk_sound (r_state r)" "risk_sound (r_state (risk_set_change_audit_log r))"
    using risk_reachable_sound[OF risk_reachable.start[OF r]] by (simp_all add: risk_set_change_audit_log_def)
  moreover have "auth_inv (set_change_audit_log (new_store True))" "auth_inv (new_store True)"
    using auth_inv_new by (simp_all add: auth_inv_def keyed_def store_get_def set_change_audit_log_def)
  moreover have "lease_inv (set_change_audit_log (new_store True))" "lease_inv (new_store True)"
    using lease_inv_new by (simp_all add: lease_inv_def keyed_def store_get_def set_change_audit_log_def)
  ultimately show ?thesis
    using assms False r by (auto simp: ensure_initialized_def hub_inv_def machines_ok_def)
qed (use assms in \<open>simp add: ensure_initialized_def\<close>)

section \<open>The operations\<close>

lemma inv_authorized:
  assumes "hub_is_authorized h w = (ok, h', w')" "hub_inv h"
  shows "hub_inv h'"
  using assms
  by (auto simp: hub_is_authorized_def Let_def split: if_splits prod.splits option.splits dest!: inv_ensure)

lemma inv_risk_escalation:
  assumes "on_risk_escalation a b h w = (h', w')" "hub_inv h"
  shows "hub_inv h'"
  using assms
  by (auto simp: on_risk_escalation_def Let_def split: if_splits prod.splits
      dest!: inv_cascade_restrict inv_cascade_freeze)

lemma inv_recon_event:
  assumes "recon_mismatch_event severity details corr h w = (parent, h', w')" "hub_inv h"
  shows "hub_inv h'"
  using assms by (auto simp: recon_mismatch_event_def Let_def split: if_splits prod.splits)

lemma inv_mismatch:
  assumes "on_reconciliation_mismatch other severity details h w = (h', w')" "hub_inv h"
  shows "hub_inv h'"
proof (cases "h_enabled h \<and> h_initialized h")
  case False
  with assms show ?thesis by (auto simp: on_reconciliation_mismatch_def)
next
  case True
  obtain corr w1 where u: "fresh_uuid w = (corr, w1)" by fastforce
  obtain parent h1 w2 where e: "recon_mismatch_event severity details corr
      (h\<lparr>h_incident_count := Suc (h_incident_count h)\<rparr>) w1 = (parent, h1, w2)" by (metis prod_cases3)
  from inv_recon_event[OF e] assms(2) have h1: "hub_inv h1" by simp
  show ?thesis
  proof (cases "severity = ''MISMATCH_MINOR''")
    case minor: True
    with assms True u e h1 show ?thesis by (simp add: on_reconciliation_mismatch_def)
  next
    case False
    let ?h2 = "if severity = ''FATAL'' then h1\<lparr>h_mode := GM_FROZEN\<rparr> else h1"
    obtain target w3 where t: "mismatch_target severity h1 w2 = (target, w3)" by fastforce
    obtain h3 w4 where g: "(case target of None \<Rightarrow> (?h2, w3)
        | Some level \<Rightarrow> hub_escalate level (''reconciliation_'' @ str_lower severity) ?h2 w3) = (h3, w4)" by fastforce
    have "hub_inv ?h2" using h1 by simp
    then have h3: "hub_inv h3" using g inv_escalate by (auto split: option.splits)
    obtain h4 w5 where f: "fatal_freeze (Some corr) parent
        (if severity = ''FATAL'' then map authorization_id (effective_auths h1) else []) h3 w4 = (h4, w5)" by fastforce
    have "h' = h4"
      using assms(1) True False u e t g f by (simp add: on_reconciliation_mismatch_def Let_def)
    with inv_fatal_freeze[OF f h3] show ?thesis by simp
  qed
qed

lemma inv_auth_action:
  assumes "handle_incident_auth_action other action context h w = (h', w')" "hub_inv h"
  shows "hub_inv h'"
  using assms
  by (auto simp: handle_incident_auth_action_def Let_def split: if_splits prod.splits
      dest!: inv_freeze_each inv_invalidate inv_auth_frozen)

lemma inv_risk_action:
  assumes "handle_incident_risk_action other action context h w = (h', w')" "hub_inv h"
  shows "hub_inv h'"
  using assms
  by (auto simp: handle_incident_risk_action_def Let_def
      split: if_splits prod.splits option.splits sum.splits intro: inv_put_risk)

lemma inv_upgrade:
  assumes "trigger_risk_upgrade other event h w = (h', w')" "hub_inv h"
  shows "hub_inv h'"
  using assms
  by (auto simp: trigger_risk_upgrade_def Let_def
      split: if_splits prod.splits option.splits sum.splits intro: inv_put_risk inv_event)

lemma inv_grant:
  assumes "grant_paper_authorization ttl v h w = (res, h', w')" "hub_inv h"
  shows "hub_inv h'"
proof (cases "h' = h")
  case False
  then obtain sm usd t w1 ok sm1 w2 where s: "h_auth h = Some sm"
    and g: "paper_grant_steps usd t sm w1 = (ok, sm1, w2)"
    and h': "h' = h\<lparr>h_auth := Some sm1\<rparr> \<or> h' = fst (invalidate_auth_cache (h\<lparr>h_auth := Some sm1\<rparr>) w2)"
    using assms(1)
    by (auto simp: grant_paper_authorization_def Let_def
        split: option.splits bool.splits sum.splits conv_error.splits if_splits prod.splits)
  have "auth_inv sm1"
    using paper_grant_steps_effect[of usd t sm w1] g hub_inv_parts(1)[OF assms(2) s] by (metis prod.inject)
  with assms(2) have "hub_inv (h\<lparr>h_auth := Some sm1\<rparr>)" by (simp add: hub_inv_part)
  with h' show ?thesis by (auto simp: invalidate_auth_cache_def)
qed (use assms in simp)

lemma inv_compare:
  assumes "compare_auth_axis ipc intent scope h w = (h', w')" "hub_inv h"
  shows "hub_inv h'"
  using assms by (auto simp: compare_auth_axis_def split: option.splits prod.splits dest!: inv_authorized)

lemma inv_acquire_local:
  assumes "acquire_local intent scope ttl h w = (res, h', w')" "hub_inv h"
  shows "hub_inv h'"
  using assms(1)
  by (cases rule: acquire_local_cases) (use assms(2) in \<open>auto dest: hub_inv_parts intro: hub_inv_part\<close>)

lemma inv_acquire_ipc:
  assumes "acquire_ipc ipc intent scope ttl h w = (res, h', w')" "hub_inv h"
  shows "hub_inv h'"
  using assms
  by (auto simp: acquire_ipc_def shadow_local_acquire_outcome_def Let_def
      split: prod.splits bool.splits dest!: inv_authorized)

lemma inv_acquire:
  assumes "acquire_lease intent scope ttl h w = (res, h', w')" "hub_inv h"
  shows "hub_inv h'"
proof -
  obtain h1 w1 where c: "(case h_ipc h of None \<Rightarrow> (h, w) | Some ipc \<Rightarrow> compare_auth_axis ipc intent scope h w) = (h1, w1)"
    by fastforce
  then have h1: "hub_inv h1" using assms(2) inv_compare by (auto split: option.splits)
  obtain ok h2 w2 where a: "hub_is_authorized h1 w1 = (ok, h2, w2)" by (metis prod_cases3)
  note h2 = inv_authorized[OF a h1]
  have "h' \<in> {h, h1, h2} \<or> acquire_local intent scope ttl h2 w2 = (res, h', w') \<or>
    (\<exists>ipc. acquire_ipc ipc intent scope ttl h2 w2 = (res, h', w'))"
    using assms(1) c a by (auto simp: acquire_lease_def split: option.splits if_splits bool.splits)
  with h1 h2 assms(2) show ?thesis using inv_acquire_local inv_acquire_ipc by (metis empty_iff insert_iff)
qed

lemma inv_release:
  assumes "release_lease lid consumed h w = (ok, h', w')" "hub_inv h"
  shows "hub_inv h'"
proof (cases "h' = h")
  case False
  then obtain sm res sm1 w1 where s: "h_lease h = Some sm" and r: "release_op consumed lid sm w = (res, sm1, w1)"
    and h': "h' = h\<lparr>h_lease := Some sm1\<rparr>"
    using assms(1)
    by (auto simp: release_lease_def Let_def split: if_splits option.splits sum.splits prod.splits)
  have "lease_inv sm1"
    using r hub_inv_parts(2)[OF assms(2) s]
    by (auto simp: release_op_def lease_consume_def lease_revoke_def intro: lease_inv_transition split: if_splits)
  with h' assms(2) show ?thesis by (simp add: hub_inv_part)
qed (use assms in simp)

lemma inv_expiry:
  assumes "drive_lease_expiry h w = (ids, h', w')" "hub_inv h"
  shows "hub_inv h'"
proof (cases "h_lease h")
  case (Some sm)
  obtain gone sm1 w1 where x: "lease_check_expiry sm w = (gone, sm1, w1)" by (metis prod_cases3)
  have "lease_inv sm1"
    by (rule lease_inv_step[OF lease_step.swept[OF x] hub_inv_parts(2)[OF assms(2) Some]])
  with assms Some x show ?thesis by (auto simp: drive_lease_expiry_def intro: hub_inv_part)
qed (use assms in \<open>simp add: drive_lease_expiry_def\<close>)

lemma gate_ok_submitted:
  assumes "submit_recovery_request rt f t who why level m g w = (req, g', w')" "gate_ok g"
  shows "gate_ok g'"
  using gate_ok_exec[of "(g, w)" "GSubmit rt f t who why level m"] assms by simp

lemma gate_ok_approved:
  assumes "approve_recovery rid who p v conditions g w = (res, g', w')" "gate_ok g"
  shows "gate_ok g'"
  using gate_ok_exec[of "(g, w)" "GApprove rid who p v conditions"] assms by simp

lemma inv_request:
  assumes "request_de_escalation target who why h w = (res, h', w')" "hub_inv h"
  shows "hub_inv h'"
  using assms
  by (auto simp: request_de_escalation_def Let_def split: option.splits if_splits prod.splits
      intro: hub_inv_part gate_ok_submitted hub_inv_parts)

lemma inv_put_lowered:
  assumes "risk_de_escalate_to t who why (RI i) r w = (res, r', w')" "h_risk h = Some r" "hub_inv h" "gate_ok g"
  shows "hub_inv (h\<lparr>h_gate := Some g, h_risk := Some r'\<rparr>)"
proof -
  have "risk_sound (r_state r')"
    using hub_inv_parts(3)[OF assms(3,2)] assms(1) unfolding risk_de_escalate_to_def by (rule risk_sound_transition)
  with assms(3,4) show ?thesis by (simp add: hub_inv_def machines_ok_def)
qed

lemma inv_approve:
  assumes "approve_de_escalation rid who h w = (ok, h', w')" "hub_inv h"
  shows "hub_inv h'"
proof (cases "h_gate h")
  case (Some g)
  obtain a g1 w1 where p: "approve_recovery rid who None None [] g w = (a, g1, w1)" by (metis prod_cases3)
  note g1 = gate_ok_approved[OF p hub_inv_parts(4)[OF assms(2) Some]]
  show ?thesis
    using assms Some p g1
    by (auto simp: approve_de_escalation_def Let_def split: option.splits if_splits prod.splits sum.splits
        intro: hub_inv_part inv_put_lowered)
qed (use assms in \<open>simp add: approve_de_escalation_def\<close>)

lemma inv_callback:
  assumes "hub_inv (fst s)"
  shows "hub_inv (fst (incident_callback other report action s))"
proof -
  obtain h w where s: "s = (h, w)" by fastforce
  have r: "hub_inv (remember_report rid h)" for rid
    using assms s by (simp add: remember_report_def hub_inv_def machines_ok_def max_escalated_def Let_def)
  have "hub_inv (fst (on_reconciliation_mismatch other token report g v))" if "hub_inv g" for token g v
    using inv_mismatch[OF _ that] by (metis prod.collapse)
  with r assms s show ?thesis by (simp add: incident_callback_def Let_def split: option.split)
qed

lemma inv_callbacks: "hub_inv (fst s) \<Longrightarrow> hub_inv (fst (fold (incident_callback other report) acts s))"
  by (induction acts arbitrary: s) (simp_all add: inv_callback)

lemma inv_reconcile:
  assumes "hub_reconcile rt paper demo h w = (d, h', w')" "hub_inv h"
  shows "hub_inv h'"
proof (cases "h' = h")
  case False
  with assms obtain e remote p w1 where c: "hub_recon_cycle rt paper remote e h w = (p, h', w1)"
    by (auto simp: hub_reconcile_def split: if_splits option.splits prod.splits)
  obtain p0 w0 where i: "report_post_init (fresh_report paper remote) w = (p0, w0)" by fastforce
  obtain p1 e1 w2 where b: "recon_body rt paper remote (e\<lparr>e_incident_cb := False\<rparr>) p0 w0 = (p1, e1, w2)"
    by (metis prod_cases3)
  obtain h1 w3 where f: "(if e_incident_cb e
      then fold (incident_callback (rt_str rt) (report_to_dict p1)) (p_actions p1) (h, w2) else (h, w2)) = (h1, w3)" by fastforce
  have "hub_inv h1"
    using f assms(2) inv_callbacks[of "(h, w2)" "rt_str rt" "report_to_dict p1" "p_actions p1"]
    by (auto split: if_splits)
  moreover have "\<exists>e2. h' = h1\<lparr>h_recon := e2\<rparr>"
    using c i b f by (auto simp: hub_recon_cycle_def now_ms_def Let_def)
  ultimately show ?thesis by auto
qed (use assms in simp)

lemma inv_status:
  assumes "get_status h w = (s, h', w')" "hub_inv h"
  shows "hub_inv h'"
  using assms by (auto simp: get_status_def Let_def split: prod.splits option.splits dest!: inv_ensure)

section \<open>Histories\<close>

text \<open>
  One step of a hub: a setter, any operation of it, or a call made on one of the machines it
  holds (the program's routes use these directly). The world, which answers for clocks, ids and
  the Rust core, is any world at every step.
\<close>

inductive hub_step :: "hub \<Rightarrow> hub \<Rightarrow> bool" where
  shadow_set: "hub_step h (hub_set_shadow_mode_provider p h)"
| cal_set: "hub_step h (hub_set_change_audit_log h)"
| gate_set: "gate_ok g \<Longrightarrow> hub_step h (hub_set_recovery_gate g h)"
| learning_set: "hub_step h (hub_set_learning_tier_gate l h)"
| enabled_set: "hub_step h (h\<lparr>h_enabled := b\<rparr>)"
| ipc_set: "hub_step h (h\<lparr>h_ipc := i\<rparr>)"
| auth_used: "h_auth h = Some sm \<Longrightarrow> auth_step sm sm' \<Longrightarrow> hub_step h (h\<lparr>h_auth := Some sm'\<rparr>)"
| lease_used: "h_lease h = Some lm \<Longrightarrow> lease_step lm lm' \<Longrightarrow> hub_step h (h\<lparr>h_lease := Some lm'\<rparr>)"
| risk_used: "h_risk h = Some r \<Longrightarrow> risk_transition c r w = (rr, r', w') \<Longrightarrow> hub_step h (h\<lparr>h_risk := Some r'\<rparr>)"
| gate_used: "h_gate h = Some g \<Longrightarrow> hub_step h (h\<lparr>h_gate := Some (fst (gate_exec x (g, w)))\<rparr>)"
| initialized: "ensure_initialized h w = (h', w') \<Longrightarrow> hub_step h h'"
| authorized: "hub_is_authorized h w = (ok, h', w') \<Longrightarrow> hub_step h h'"
| frozen: "on_auth_frozen corr parent h w = (h', w') \<Longrightarrow> hub_step h h'"
| escalated: "on_risk_escalation a b h w = (h', w') \<Longrightarrow> hub_step h h'"
| mismatched: "on_reconciliation_mismatch other severity details h w = (h', w') \<Longrightarrow> hub_step h h'"
| auth_action: "handle_incident_auth_action other action context h w = (h', w') \<Longrightarrow> hub_step h h'"
| risk_action: "handle_incident_risk_action other action context h w = (h', w') \<Longrightarrow> hub_step h h'"
| upgraded: "trigger_risk_upgrade other event h w = (h', w') \<Longrightarrow> hub_step h h'"
| granted: "grant_paper_authorization ttl usd h w = (res, h', w') \<Longrightarrow> hub_step h h'"
| acquired: "acquire_lease intent scope ttl_s h w = (lid, h', w') \<Longrightarrow> hub_step h h'"
| released: "release_lease i consumed h w = (ok, h', w') \<Longrightarrow> hub_step h h'"
| expired: "drive_lease_expiry h w = (gone, h', w') \<Longrightarrow> hub_step h h'"
| requested: "request_de_escalation target who why h w = (req, h', w') \<Longrightarrow> hub_step h h'"
| approved: "approve_de_escalation rid who h w = (ok, h', w') \<Longrightarrow> hub_step h h'"
| reconciled: "hub_reconcile rt paper demo h w = (d, h', w') \<Longrightarrow> hub_step h h'"
| reported: "get_status h w = (st, h', w') \<Longrightarrow> hub_step h h'"

inductive hub_reachable :: "hub \<Rightarrow> bool" where
  start: "hub_reachable (hub_new enabled)"
| step: "hub_reachable h \<Longrightarrow> hub_step h h' \<Longrightarrow> hub_reachable h'"

lemmas hub_inv_ops = inv_ensure inv_authorized inv_auth_frozen inv_risk_escalation inv_mismatch
  inv_auth_action inv_risk_action inv_upgrade inv_grant inv_acquire inv_release inv_expiry
  inv_request inv_approve inv_reconcile inv_status

lemma hub_inv_step:
  assumes "hub_step h h'" "hub_inv h"
  shows "hub_inv h'"
  using assms(1)
proof cases
  case (auth_used sm sm')
  then show ?thesis using assms(2) auth_inv_step hub_inv_parts(1) hub_inv_part(1) by blast
next
  case (lease_used lm lm')
  then show ?thesis using assms(2) lease_inv_step hub_inv_parts(2) hub_inv_part(2) by blast
next
  case (risk_used r c w rr r' w')
  then show ?thesis using assms(2) risk_sound_transition hub_inv_parts(3) hub_inv_part(3) by blast
next
  case (gate_used g x w)
  then show ?thesis using assms(2) gate_ok_exec[of "(g, w)" x] hub_inv_parts(4) hub_inv_part(4) by simp
next
  case (gate_set g)
  then show ?thesis using assms(2) by (simp add: hub_set_recovery_gate_def hub_inv_part)
qed (use assms(2) in \<open>auto simp: hub_set_shadow_mode_provider_def hub_set_change_audit_log_def
      hub_set_learning_tier_gate_def intro: hub_inv_ops\<close>)

lemma hub_reachable_inv: "hub_reachable h \<Longrightarrow> hub_inv h"
  by (induction rule: hub_reachable.induct) (auto intro: hub_inv_new hub_inv_step)

text \<open>A hub with a paper authorization, reached through its own operations.\<close>

lemma granted_reachable: "\<exists>h. hub_reachable h \<and> effective_auths h \<noteq> []"
proof -
  let ?w = "sample_world 9"
  obtain h1 w1 where e: "ensure_initialized (hub_new True) ?w = (h1, w1)" by fastforce
  then have a: "h_auth h1 = Some (new_store True)"
    by (auto simp: ensure_initialized_def hub_new_def split: prod.splits)
  have "hub_reachable h1" by (rule hub_reachable.step[OF hub_reachable.start hub_step.initialized[OF e]])
  moreover obtain x sm w2 where g: "paper_grant_steps (Fin 1) 5 (new_store True) ?w = (True, sm, w2)"
    "store_get (authorization_id x) sm = Some x" "a_state x = A_ACTIVE"
    "auth_inv (new_store True :: auth_sm) \<Longrightarrow> auth_inv sm"
    using paper_grant_steps_effect by metis
  obtain a0 sm1 w3 where d: "auth_create_draft paper_title (paper_scope (Fin 1)) ''system_paper_auto''
      paper_description (Some 5) (new_store True) ?w = (a0, sm1, w3)" by (metis prod_cases3)
  obtain s2 sm2 w4 where t: "auth_submit_for_approval (authorization_id a0) AI_AUTHORIZATION_GOVERNANCE sm1 w3 = (s2, sm2, w4)"
    by (metis prod_cases3)
  obtain s3 sm3 w5 where p: "auth_approve (authorization_id a0) ''system_paper_auto'' paper_reason sm2 w4 = (s3, sm3, w5)"
    by (metis prod_cases3)
  have "sm = sm3" using g(1) d t p by (auto simp: paper_grant_steps_def Let_def split: sum.splits)
  moreover have "hub_reachable (h1\<lparr>h_auth := Some sm1\<rparr>)"
    using hub_reachable.step[OF \<open>hub_reachable h1\<close> hub_step.auth_used[OF a auth_step.created[OF d]]]
    by (simp add: new_store_def store_get_def)
  then have "hub_reachable (h1\<lparr>h_auth := Some sm2\<rparr>)"
    using hub_reachable.step[OF _ hub_step.auth_used[OF _ auth_step.called[OF t[unfolded auth_submit_for_approval_def]]]] by fastforce
  then have "hub_reachable (h1\<lparr>h_auth := Some sm3\<rparr>)"
    using hub_reachable.step[OF _ hub_step.auth_used[OF _ auth_step.called[OF p[unfolded auth_approve_def]]]] by fastforce
  moreover have "x \<in> set (auth_get_effective sm)"
    using g(2,3) auth_effective_iff[OF auth_inv_keyed[OF g(4)[OF auth_inv_new]]] by simp
  ultimately show ?thesis
    by (intro exI[of _ "h1\<lparr>h_auth := Some sm3\<rparr>"]) (auto simp: effective_auths_def)
qed

section \<open>Properties\<close>

text \<open>C1: However a hub is used, from its construction on, with its operations and the machines it
  holds called in any order (imports of saved state, which nothing in the application calls, apart): every authorization its gate counts as effective was approved by a
  named approver allowed to; every lease it holds has the whole chain of custody its state
  claims; the governor's trail is a walk from NORMAL to its level whose lowerings were all
  approved; the recovery register is sound; and the event stream and the list of escalated
  reports keep their bounds.\<close>

theorem hub_reachable_sound:
  assumes "hub_reachable h"
  shows "(\<forall>a \<in> set (effective_auths h). was_approved a) \<and>
    (\<forall>lm k l. h_lease h = Some lm \<and> store_get k lm = Some l \<longrightarrow>
       (l_state l \<notin> {L_DRAFT, L_REJECTED} \<longrightarrow> was_registered l) \<and>
       (l_state l \<in> {L_BRIDGED, L_CONSUMED} \<longrightarrow> was_bridged l) \<and> (l_state l = L_CONSUMED \<longrightarrow> was_closed l)) \<and>
    (\<forall>r. h_risk h = Some r \<longrightarrow> level_walk ''NORMAL'' (g_transitions (r_state r)) (level_name (risk_level r)) \<and>
       (\<forall>t \<in> set (g_transitions (r_state r)). lowering_approved t)) \<and>
    (\<forall>g. h_gate h = Some g \<longrightarrow> gate_ok g) \<and>
    length (h_events h) \<le> 1000 \<and> length (h_escalated h) \<le> 512"
proof -
  have inv: "hub_inv h" using assms by (rule hub_reachable_inv)
  have "\<forall>a \<in> set (effective_auths h). was_approved a"
  proof (cases "h_auth h")
    case (Some sm)
    from hub_inv_parts(1)[OF inv this] Some show ?thesis
      by (auto simp: effective_auths_def auth_inv_def auth_get_effective_def auth_is_effective_def
          auth_sound_def auth_effective_states_def keyed_all(2))
  qed (simp add: effective_auths_def)
  moreover have "\<forall>lm k l. h_lease h = Some lm \<and> store_get k lm = Some l \<longrightarrow> lease_sound l"
    using hub_inv_parts(2)[OF inv] by (auto simp: lease_inv_def)
  moreover have "\<forall>r. h_risk h = Some r \<longrightarrow> risk_sound (r_state r)" using hub_inv_parts(3)[OF inv] by blast
  ultimately show ?thesis
    using inv by (auto simp: hub_inv_def max_events_def max_escalated_def lease_sound_def risk_sound_def risk_level_def)
qed

lemma hub_reachable_sound_witness: "\<exists>h a. a \<in> set (effective_auths h) \<and> was_approved a"
proof -
  obtain h where h: "hub_reachable h" "effective_auths h \<noteq> []" using granted_reachable by blast
  then obtain a where "a \<in> set (effective_auths h)" by (cases "effective_auths h") auto
  with hub_reachable_sound[OF h(1)] show ?thesis by blast
qed

end
