(* ===== verification/Gov_Compose.thy ===== *)
theory Gov_Compose
  imports Gov_Reach Learning_Gate
begin

text \<open>
  The hub together with the parts it is wired to: the lease bridge over a transport to the Rust
  core (\<open>lease_ipc_bridge.py\<close>), and the learning tier gate, which the hub asks before a
  de-escalation and reports on (\<open>get_learning_tier_status\<close>).
\<close>

section \<open>The hub and the learning gate\<close>

text \<open>The gate as the hub sees it, for the names of its capability checks: \<open>getattr(gate, name)()\<close>.\<close>

definition learning_answers :: "learning_gate \<Rightarrow> string \<Rightarrow> bool option option" where
  "learning_answers g name = map_option Some (gate_can name g)"

definition get_learning_tier_status :: "learning_gate option \<Rightarrow> pydict" where
  "get_learning_tier_status gate =
     (case gate of
        None \<Rightarrow> [(''available'', PBool False), (''message'', PStr ''LearningTierGate not configured'')]
      | Some g \<Rightarrow>
          (let state = learning_export g; c = gate_capabilities g in
           [(''available'', PBool True),
            (''current_tier'', dict_get state ''current_tier'' (PStr ''UNKNOWN'')),
            (''tier_name'', dict_get state ''tier_name'' (PStr ''UNKNOWN'')),
            (''capabilities'', PDict
              [(''can_record_observations'', PBool (can_record_observations c)),
               (''can_discover_patterns'', PBool (can_discover_patterns c)),
               (''can_generate_hypotheses'', PBool (can_generate_hypotheses c)),
               (''can_design_experiments'', PBool (can_design_experiments c)),
               (''can_evolve_strategies'', PBool (can_evolve_strategies c)),
               (''can_propose_strategy_variants'', PBool (can_propose_strategy_variants c)),
               (''can_auto_deploy_to_paper'', PBool (can_auto_deploy_to_paper c)),
               (''can_modify_live_config'', PBool False)]),
            (''promotion_history'', dict_get state ''promotion_history'' (PList []))]))"

lemma can_evolve_iff: "can_evolve_strategies (tier_capabilities t) \<longleftrightarrow> LT_L4 \<le> t"
  by (cases t) (simp_all add: tier_order)

lemma learning_evolve:
  "h_learning h = Some (learning_answers g) \<Longrightarrow>
   check_learning_tier_capability ''can_evolve_strategies'' h \<longleftrightarrow> LT_L4 \<le> current_tier g"
  by (simp add: check_learning_tier_capability_def learning_answers_def gate_can_def gate_methods_def
      gate_capabilities_def can_evolve_iff)

section \<open>The hub and the bridge\<close>

definition acquire_params :: "string \<Rightarrow> string \<Rightarrow> int \<Rightarrow> pydict" where
  "acquire_params intent scope ms =
     [(''intent_id'', PStr intent), (''scope'', PStr scope), (''ttl_ms'', PInt ms),
      (''profile'', PStr ''Production''), (''source_stage'', PStr ''executor_agent_python'')]"

lemma bridge_acquire_some:
  assumes "ipc_acquire (bridge_ipc send) intent scope ttl u = Some lid"
  shows "\<exists>ms raw. intent \<noteq> [] \<and> scope \<noteq> [] \<and> ttl_millis (PFloat ttl) = Inr ms \<and>
    send METHOD_ACQUIRE_LEASE (acquire_params intent scope ms) u = Some raw \<and>
    fst (parse_acquire_response raw) = Some lid \<and> snd (parse_acquire_response raw) \<in> {''Active'', ''Bypass''}"
  using assms
  by (auto simp: bridge_ipc_def acquire_lease_via_ipc_def build_acquire_request_params_def acquire_params_def
      split: if_splits sum.splits option.splits build_error.splits prod.splits)

text \<open>A concrete hub over a transport that grants, and one over a transport that is down.\<close>

definition gate_ready :: "hub \<Rightarrow> bool" where
  "gate_ready h \<longleftrightarrow> h_enabled h \<and> h_initialized h \<and> h_mode h = GM_NORMAL \<and> effective_auths h \<noteq> [] \<and>
     (case h_cache h of None \<Rightarrow> True | Some (b, t) \<Rightarrow> b)"

lemma gate_ready_open:
  assumes "hub_is_authorized h w = (ok, h', w')" "gate_ready h"
  shows "ok \<and> gate_ready h' \<and> h_ipc h' = h_ipc h"
  using assms
  by (auto simp: gate_ready_def hub_is_authorized_def ensure_initialized_def effective_auths_def Let_def
      split: if_splits option.splits prod.splits)

lemma compare_keeps_ready:
  assumes "compare_auth_axis ipc intent scope h w = (h', w')" "gate_ready h"
  shows "gate_ready h' \<and> h_ipc h' = h_ipc h"
  using assms gate_ready_open[of h w]
  by (auto simp: compare_auth_axis_def split: option.splits prod.splits)

lemma ready_bridge_acquire:
  assumes "gate_ready h" "h_ipc h = Some ipc" "h_shadow h = None" "\<And>u. ipc_acquire ipc intent scope ttl u = Some lid"
  shows "\<exists>h' w'. acquire_lease intent scope ttl h w = (Some lid, h', w')"
proof -
  obtain h1 w1 where c: "compare_auth_axis ipc intent scope h w = (h1, w1)" by fastforce
  note 1 = compare_keeps_ready[OF c assms(1)]
  obtain ok h2 w2 where g: "hub_is_authorized h1 w1 = (ok, h2, w2)" by (metis prod_cases3)
  from gate_ready_open[OF g] 1 have "ok" "h_ipc h2 = Some ipc" by (simp_all add: assms(2))
  moreover have "h_enabled h1 \<and> h_initialized h1" using 1 by (simp add: gate_ready_def)
  ultimately show ?thesis
    using assms(2-4) c g
    by (auto simp: acquire_lease_def shadow_short_circuit_acquire_def acquire_ipc_def Let_def split: prod.split)
qed

section \<open>Properties\<close>

text \<open>With a learning gate wired to the hub, no de-escalation of the risk level can even be
  requested below L4: the call is refused before the risk governor or the recovery gate is
  asked, and nothing changes. With the gate at L4 or L5 the call behaves as with no gate.\<close>

theorem learning_gates_de_escalation:
  assumes "h_learning h = Some (learning_answers g)"
  shows "request_de_escalation level by_whom reason h w =
    (if LT_L4 \<le> current_tier g
     then (case request_de_escalation level by_whom reason (h\<lparr>h_learning := None\<rparr>) w of
             (rid, h', w') \<Rightarrow> (rid, h'\<lparr>h_learning := h_learning h\<rparr>, w'))
     else (None, h, w))"
proof (cases "LT_L4 \<le> current_tier g")
  case False
  then show ?thesis
    using learning_evolve[OF assms] by (simp add: request_de_escalation_def split: option.split)
next
  case True
  have "check_learning_tier_capability ''can_evolve_strategies'' (h\<lparr>h_learning := None\<rparr>)"
    by (simp add: check_learning_tier_capability_def)
  with True show ?thesis
    using learning_evolve[OF assms]
    by (auto simp: request_de_escalation_def Let_def split: option.splits prod.splits)
qed

lemma learning_gates_de_escalation_witness:
  "request_de_escalation 0 ''op'' ''r''
     ((demo_hub R_DEFENSIVE)\<lparr>h_gate := Some demo_gate,
        h_learning := Some (learning_answers (fst (learning_new None True (sample_world 3))))\<rparr>) (sample_world 9) =
   (None, (demo_hub R_DEFENSIVE)\<lparr>h_gate := Some demo_gate,
        h_learning := Some (learning_answers (fst (learning_new None True (sample_world 3))))\<rparr>, sample_world 9)"
proof -
  have "\<not> LT_L4 \<le> current_tier (fst (learning_new None True (sample_world 3)))"
    by (simp add: learning_new_def tier_post_init_def initial_tier_state_def current_tier_def now_ms_def
        tier_order Let_def)
  then show ?thesis
    by (subst learning_gates_de_escalation[where g = "fst (learning_new None True (sample_world 3))"]) simp_all
qed

text \<open>The status the hub reports of a learning gate names the current tier, but its
  \<open>tier_name\<close> is always UNKNOWN and its promotion history always empty, however often the gate
  has been promoted: the export it reads has neither key.\<close>

theorem learning_status_blind:
  "map_of (get_learning_tier_status (Some g)) ''current_tier'' = Some (PStr (tier_name (current_tier g))) \<and>
   map_of (get_learning_tier_status (Some g)) ''tier_name'' = Some (PStr ''UNKNOWN'') \<and>
   map_of (get_learning_tier_status (Some g)) ''promotion_history'' = Some (PList [])"
  by (simp add: get_learning_tier_status_def learning_export_def dict_get_def current_tier_def Let_def)

text \<open>A lease that the hub hands out over the bridge is a lease of the Rust core: some request to
  acquire with exactly this intent, scope and time to live was answered with that lease's name and
  outcome Active or Bypass, after the hub's own gate was open. The local machines do not change.\<close>

theorem hub_bridge_lease_is_rusts:
  assumes "h_ipc h = Some (bridge_ipc send)" "h_shadow h = None" "h_initialized h" "h_enabled h"
    and "acquire_lease intent scope ttl h w = (Some lid, h', w')"
  shows "(\<exists>u ms raw. later w u \<and> ttl_millis (PFloat ttl) = Inr ms \<and>
      send METHOD_ACQUIRE_LEASE (acquire_params intent scope ms) u = Some raw \<and>
      fst (parse_acquire_response raw) = Some lid \<and> snd (parse_acquire_response raw) \<in> {''Active'', ''Bypass''}) \<and>
    h' = h\<lparr>h_cache := h_cache h'\<rparr>"
proof -
  from acquire_over_ipc[OF assms] obtain u where "Some lid = ipc_acquire (bridge_ipc send) intent scope ttl u"
    "later w u" "h' = h\<lparr>h_cache := h_cache h'\<rparr>" by auto
  with bridge_acquire_some[OF this(1)[symmetric]] show ?thesis by blast
qed

lemma hub_bridge_lease_is_rusts_witness:
  "\<exists>u. demo_transport METHOD_ACQUIRE_LEASE (acquire_params ''i1'' ''TRADE_ENTRY'' 30000) u \<noteq> None \<and>
     later (sample_world 9) u"
proof -
  let ?h = "(demo_hub R_NORMAL)\<lparr>h_ipc := Some (bridge_ipc demo_transport)\<rparr>"
  have "fl_round (of_int 30000) = Fin (of_int 30000)" by (rule fl_round_of_int) simp
  then have ms: "ttl_positive (PFloat (Fin 30))" "ttl_millis (PFloat (Fin 30)) = Inr 30000"
    by (simp_all add: ttl_positive_def ttl_millis_def py_int_def)
  have "ipc_acquire (bridge_ipc demo_transport) ''i1'' ''TRADE_ENTRY'' (Fin 30) u = Some ''rust:1''" for u
    using ms by (simp add: bridge_ipc_def acquire_lease_via_ipc_def build_acquire_request_params_def
        demo_transport_def parse_acquire_response_def unwrap_result_def dict_get_def
        record_dual_write_acquire_def read_clock_def)
  moreover have "effective_auths ?h \<noteq> []" using demo_hub_effective[of R_NORMAL] by (simp add: effective_auths_def)
  then have "gate_ready ?h" by (simp add: gate_ready_def)
  ultimately obtain h' w' where a: "acquire_lease ''i1'' ''TRADE_ENTRY'' (Fin 30) ?h (sample_world 9) =
      (Some ''rust:1'', h', w')"
    using ready_bridge_acquire[of ?h "bridge_ipc demo_transport" "''i1''" "''TRADE_ENTRY''" "Fin 30" "''rust:1''"] by fastforce
  from hub_bridge_lease_is_rusts[OF _ _ _ _ a] ms(2) show ?thesis by fastforce
qed

text \<open>While the core does not answer, the hub fails closed: nothing is acquired, released or
  found, whatever the local machines hold, and only the gate's cache may change (for a time to live
  that does not overflow: that call raises instead).\<close>

theorem hub_bridge_outage:
  assumes "h_ipc h = Some (bridge_ipc (\<lambda>_ _ _. None))" "h_shadow h = None" "h_initialized h"
    and "acquire_lease intent scope ttl h w = (res, h', w')" "\<not> is_shadow_bypass_lease_id lid"
    and "ttl_millis (PFloat ttl) \<noteq> Inl Build_OverflowError"
  shows "res = None \<and> h' = h\<lparr>h_cache := h_cache h'\<rparr> \<and>
    fst (release_lease lid consumed h w) = False \<and> fst (get_lease lid h w) = None"
proof -
  let ?ipc = "bridge_ipc (\<lambda>_ _ _. None)"
  have none: "ipc_acquire ?ipc i s t u = None" for i s t u
    using bridge_acquire_some[of "\<lambda>_ _ _. None"] by (cases "ipc_acquire ?ipc i s t u") auto
  have "res = None \<and> h' = h\<lparr>h_cache := h_cache h'\<rparr>"
  proof (cases "h_enabled h")
    case True
    from acquire_over_ipc[OF assms(1-3) True assms(4)] none show ?thesis by auto
  next
    case False
    moreover have "compare_auth_axis ?ipc intent scope h w = (h, w)"
      by (simp add: compare_auth_axis_def bridge_ipc_def is_authorized_via_ipc_def)
    ultimately show ?thesis
      using assms by (simp add: acquire_lease_def shadow_short_circuit_acquire_def)
  qed
  moreover have "ipc_release ?ipc lid consumed w = False" "ipc_get ?ipc lid w = None"
    using assms(5)
    by (auto simp: bridge_ipc_def release_lease_via_ipc_def get_lease_via_ipc_def Let_def split: sum.split)
  ultimately show ?thesis
    using assms by (simp add: release_lease_def get_lease_def Let_def split: option.split sum.split)
qed

lemma hub_bridge_outage_witness:
  "\<exists>h' w'. acquire_lease ''i1'' ''TRADE_ENTRY'' (Fin 30)
     ((demo_hub R_NORMAL)\<lparr>h_ipc := Some (bridge_ipc (\<lambda>_ _ _. None))\<rparr>) (sample_world 9) = (None, h', w')"
proof -
  let ?h = "(demo_hub R_NORMAL)\<lparr>h_ipc := Some (bridge_ipc (\<lambda>_ _ _. None))\<rparr>"
  obtain res h' w' where a: "acquire_lease ''i1'' ''TRADE_ENTRY'' (Fin 30) ?h (sample_world 9) = (res, h', w')"
    by (metis prod_cases3)
  have "\<not> is_shadow_bypass_lease_id []" by (simp add: is_shadow_bypass_lease_id_def SHADOW_BYPASS_PREFIX_def)
  moreover have "fl_round (of_int 30000) = Fin (of_int 30000)" by (rule fl_round_of_int) simp
  then have "ttl_millis (PFloat (Fin 30)) \<noteq> Inl Build_OverflowError" by (simp add: ttl_millis_def py_int_def)
  ultimately show ?thesis using hub_bridge_outage[OF _ _ _ a] a by simp
qed
end
