(* ===== verification/Incident_Policy.thy ===== *)
theory Incident_Policy
  imports Py_Coerce
begin

text \<open>
  The incident policy (\<open>app/incident_event_model.py\<close>): formal events, the incident records kept of
  the grave ones, the actions each severity asks for and the callbacks that carry them out. A
  callback takes the state it works on and the world and reports whether it returned (True) or
  raised (False); the policy catches what is raised. The audit callback is taken to return.
\<close>

section \<open>Severities and causes\<close>

datatype IncidentSeverity = ES_NOTICE | ES_ANOMALY | ES_NEAR_MISS | ES_INCIDENT | ES_CRITICAL_INCIDENT

fun event_severity_level :: "IncidentSeverity \<Rightarrow> int" where
  "event_severity_level ES_NOTICE = 0"
| "event_severity_level ES_ANOMALY = 1"
| "event_severity_level ES_NEAR_MISS = 2"
| "event_severity_level ES_INCIDENT = 3"
| "event_severity_level ES_CRITICAL_INCIDENT = 4"

fun event_severity_name :: "IncidentSeverity \<Rightarrow> string" where
  "event_severity_name ES_NOTICE = ''NOTICE''"
| "event_severity_name ES_ANOMALY = ''ANOMALY''"
| "event_severity_name ES_NEAR_MISS = ''NEAR_MISS''"
| "event_severity_name ES_INCIDENT = ''INCIDENT''"
| "event_severity_name ES_CRITICAL_INCIDENT = ''CRITICAL_INCIDENT''"

instantiation IncidentSeverity :: linorder
begin

definition less_eq_IncidentSeverity :: "IncidentSeverity \<Rightarrow> IncidentSeverity \<Rightarrow> bool" where
  "less_eq_IncidentSeverity a b \<longleftrightarrow> event_severity_level a \<le> event_severity_level b"

definition less_IncidentSeverity :: "IncidentSeverity \<Rightarrow> IncidentSeverity \<Rightarrow> bool" where
  "less_IncidentSeverity a b \<longleftrightarrow> event_severity_level a < event_severity_level b"

instance
proof
  fix a b c :: IncidentSeverity
  show "(a < b) = (a \<le> b \<and> \<not> b \<le> a)"
    by (auto simp: less_eq_IncidentSeverity_def less_IncidentSeverity_def)
  show "a \<le> a" by (simp add: less_eq_IncidentSeverity_def)
  show "a \<le> c" if "a \<le> b" "b \<le> c" using that by (simp add: less_eq_IncidentSeverity_def)
  show "a = b" if "a \<le> b" "b \<le> a"
    using that by (cases a; cases b) (simp_all add: less_eq_IncidentSeverity_def)
  show "a \<le> b \<or> b \<le> a" by (auto simp: less_eq_IncidentSeverity_def)
qed

end

lemmas event_severity_order = less_eq_IncidentSeverity_def less_IncidentSeverity_def

datatype RootCauseFamily = RC_STATE_CONFLICT | RC_EXECUTION_FAILURE | RC_RISK_GAP | RC_AUDIT_GAP
  | RC_AUTH_GAP | RC_LOGIC_ERROR | RC_EXTERNAL_FAILURE | RC_UNKNOWN

fun root_cause_value :: "RootCauseFamily \<Rightarrow> string" where
  "root_cause_value RC_STATE_CONFLICT = ''state_conflict''"
| "root_cause_value RC_EXECUTION_FAILURE = ''execution_failure''"
| "root_cause_value RC_RISK_GAP = ''risk_gap''"
| "root_cause_value RC_AUDIT_GAP = ''audit_gap''"
| "root_cause_value RC_AUTH_GAP = ''auth_gap''"
| "root_cause_value RC_LOGIC_ERROR = ''logic_error''"
| "root_cause_value RC_EXTERNAL_FAILURE = ''external_failure''"
| "root_cause_value RC_UNKNOWN = ''unknown''"

definition root_causes :: "RootCauseFamily list" where
  "root_causes = [RC_STATE_CONFLICT, RC_EXECUTION_FAILURE, RC_RISK_GAP, RC_AUDIT_GAP, RC_AUTH_GAP,
     RC_LOGIC_ERROR, RC_EXTERNAL_FAILURE, RC_UNKNOWN]"

definition root_cause_of :: "string \<Rightarrow> RootCauseFamily" where
  "root_cause_of code =
     (case find (\<lambda>r. root_cause_value r = code) root_causes of Some r \<Rightarrow> r | None \<Rightarrow> RC_UNKNOWN)"

datatype IntegrityStatus = IS_INTACT | IS_DEGRADED | IS_BROKEN

fun integrity_value :: "IntegrityStatus \<Rightarrow> string" where
  "integrity_value IS_INTACT = ''intact''"
| "integrity_value IS_DEGRADED = ''degraded''"
| "integrity_value IS_BROKEN = ''broken''"

datatype IncidentActionType = IA_RECORD_ONLY | IA_INCREASE_MONITORING | IA_AUTH_RESTRICT | IA_AUTH_FREEZE
  | IA_RISK_ESCALATE_CAUTIOUS | IA_RISK_ESCALATE_REDUCED | IA_RISK_ESCALATE_DEFENSIVE
  | IA_RISK_CIRCUIT_BREAKER | IA_TRADING_FREEZE | IA_MANUAL_REVIEW | IA_OPERATOR_ALERT

fun policy_action_value :: "IncidentActionType \<Rightarrow> string" where
  "policy_action_value IA_RECORD_ONLY = ''RECORD_ONLY''"
| "policy_action_value IA_INCREASE_MONITORING = ''INCREASE_MONITORING''"
| "policy_action_value IA_AUTH_RESTRICT = ''AUTH_RESTRICT''"
| "policy_action_value IA_AUTH_FREEZE = ''AUTH_FREEZE''"
| "policy_action_value IA_RISK_ESCALATE_CAUTIOUS = ''RISK_ESCALATE_CAUTIOUS''"
| "policy_action_value IA_RISK_ESCALATE_REDUCED = ''RISK_ESCALATE_REDUCED''"
| "policy_action_value IA_RISK_ESCALATE_DEFENSIVE = ''RISK_ESCALATE_DEFENSIVE''"
| "policy_action_value IA_RISK_CIRCUIT_BREAKER = ''RISK_CIRCUIT_BREAKER''"
| "policy_action_value IA_TRADING_FREEZE = ''TRADING_FREEZE''"
| "policy_action_value IA_MANUAL_REVIEW = ''MANUAL_REVIEW''"
| "policy_action_value IA_OPERATOR_ALERT = ''OPERATOR_ALERT''"

fun severity_actions :: "IncidentSeverity \<Rightarrow> IncidentActionType list" where
  "severity_actions ES_NOTICE = [IA_RECORD_ONLY]"
| "severity_actions ES_ANOMALY = [IA_RECORD_ONLY, IA_INCREASE_MONITORING, IA_RISK_ESCALATE_CAUTIOUS]"
| "severity_actions ES_NEAR_MISS =
     [IA_RECORD_ONLY, IA_AUTH_RESTRICT, IA_RISK_ESCALATE_REDUCED, IA_OPERATOR_ALERT]"
| "severity_actions ES_INCIDENT =
     [IA_AUTH_FREEZE, IA_RISK_ESCALATE_DEFENSIVE, IA_MANUAL_REVIEW, IA_OPERATOR_ALERT]"
| "severity_actions ES_CRITICAL_INCIDENT =
     [IA_AUTH_FREEZE, IA_RISK_CIRCUIT_BREAKER, IA_TRADING_FREEZE, IA_MANUAL_REVIEW, IA_OPERATOR_ALERT]"

section \<open>Events\<close>

record Event =
  v_event_id :: string
  v_event_type :: string
  v_severity :: IncidentSeverity
  v_source :: string
  v_triggered_at_ms :: int
  v_triggered_by :: string
  v_affected_objects :: "pyval list"
  v_reason_code :: string
  v_reason_detail :: string
  v_metadata :: pydict
  v_audit_chain_ref :: string
  v_parent_event_id :: string

definition event_post_init :: "Event \<Rightarrow> 'z env_scheme \<Rightarrow> Event \<times> 'z env_scheme" where
  "event_post_init e w =
     (let (e1, w1) = (if v_event_id e = []
            then (let (h, w1) = fresh_hex w in (e\<lparr>v_event_id := ''evt:'' @ take 16 h\<rparr>, w1)) else (e, w))
      in if v_triggered_at_ms e1 = 0
         then (let (t, w2) = now_ms w1 in (e1\<lparr>v_triggered_at_ms := t\<rparr>, w2)) else (e1, w1))"

definition policy_event_to_dict :: "Event \<Rightarrow> pydict" where
  "policy_event_to_dict e =
     [(''event_id'', PStr (v_event_id e)), (''event_type'', PStr (v_event_type e)),
      (''severity'', PStr (event_severity_name (v_severity e))),
      (''severity_level'', PInt (event_severity_level (v_severity e))),
      (''source'', PStr (v_source e)), (''triggered_at_ms'', PInt (v_triggered_at_ms e)),
      (''triggered_by'', PStr (v_triggered_by e)), (''affected_objects'', PList (v_affected_objects e)),
      (''reason_code'', PStr (v_reason_code e)), (''reason_detail'', PStr (v_reason_detail e)),
      (''metadata'', PDict (v_metadata e)), (''audit_chain_ref'', PStr (v_audit_chain_ref e)),
      (''parent_event_id'', PStr (v_parent_event_id e))]"

definition create_event ::
  "string \<Rightarrow> IncidentSeverity \<Rightarrow> string \<Rightarrow> string \<Rightarrow> pyval list option \<Rightarrow> string \<Rightarrow> string \<Rightarrow>
   pydict option \<Rightarrow> string \<Rightarrow> 'z env_scheme \<Rightarrow> Event \<times> 'z env_scheme" where
  "create_event event_type severity source triggered_by affected reason_code detail metadata parent =
     event_post_init
       \<lparr>v_event_id = [], v_event_type = event_type, v_severity = severity, v_source = source,
        v_triggered_at_ms = 0, v_triggered_by = triggered_by,
        v_affected_objects = (case affected of None \<Rightarrow> [] | Some xs \<Rightarrow> xs),
        v_reason_code = reason_code, v_reason_detail = detail,
        v_metadata = (case metadata of None \<Rightarrow> [] | Some d \<Rightarrow> d), v_audit_chain_ref = [],
        v_parent_event_id = parent\<rparr>"

text \<open>
  The event of a reconciliation report. The outer None stands for counts that are no integers,
  outside this model.
\<close>

definition report_severity :: "int \<Rightarrow> int \<Rightarrow> IncidentSeverity" where
  "report_severity critical discrepancies =
     (if 3 \<le> critical then ES_CRITICAL_INCIDENT else if 1 \<le> critical then ES_INCIDENT
      else if 3 \<le> discrepancies then ES_NEAR_MISS else if 1 \<le> discrepancies then ES_ANOMALY
      else ES_NOTICE)"

definition from_reconciliation_report :: "pydict \<Rightarrow> 'z env_scheme \<Rightarrow> (Event \<times> 'z env_scheme) option" where
  "from_reconciliation_report report w = do {
     critical \<leftarrow> as_int (dict_get report ''critical_count'' (PInt 0));
     disc \<leftarrow> as_int (dict_get report ''discrepancy_count'' (PInt 0));
     Some (create_event (if 0 < disc then ''reconciliation_mismatch'' else ''reconciliation_pass'')
       (report_severity critical disc) ''reconciliation_engine'' ''ReconciliationEngine'' (Some [])
       (if 0 < disc then ''state_conflict'' else [])
       (''Reconciliation: '' @ int_str disc @ '' discrepancies, '' @ int_str critical @ '' critical'')
       (Some [(''report_id'', dict_get report ''report_id'' (PStr [])),
              (''overall_result'', dict_get report ''overall_result'' (PStr [])),
              (''discrepancy_count'', PInt disc), (''critical_count'', PInt critical)]) [] w)
   }"

section \<open>Incident records\<close>

record IncidentRecord =
  n_incident_id :: string
  n_severity :: IncidentSeverity
  n_trigger_event_id :: string
  n_detected_at_ms :: int
  n_detected_by :: string
  n_affected_symbols :: "pyval list"
  n_affected_strategies :: "pyval list"
  n_affected_objects :: "pyval list"
  n_initial_actions :: "string list"
  n_actions_triggered :: "string list"
  n_root_cause_family :: RootCauseFamily
  n_root_cause_detail :: string
  n_pnl_impact :: "pyfloat option"
  n_risk_impact :: string
  n_truth_source_integrity :: IntegrityStatus
  n_audit_integrity :: IntegrityStatus
  n_containment_complete :: bool
  n_remediation_required :: bool
  n_authorization_freeze_required :: bool
  n_recovery_approved_by :: "string option"
  n_recovery_approved_at_ms :: "int option"
  n_resolved_at_ms :: "int option"
  n_resolution_notes :: string

definition is_resolved :: "IncidentRecord \<Rightarrow> bool" where
  "is_resolved n \<longleftrightarrow> n_resolved_at_ms n \<noteq> None"

definition incident_is_critical :: "IncidentRecord \<Rightarrow> bool" where
  "incident_is_critical n \<longleftrightarrow> ES_CRITICAL_INCIDENT \<le> n_severity n"

definition incident_to_dict :: "IncidentRecord \<Rightarrow> pydict" where
  "incident_to_dict n =
     [(''incident_id'', PStr (n_incident_id n)),
      (''severity'', PStr (event_severity_name (n_severity n))),
      (''severity_level'', PInt (event_severity_level (n_severity n))),
      (''trigger_event_id'', PStr (n_trigger_event_id n)),
      (''detected_at_ms'', PInt (n_detected_at_ms n)), (''detected_by'', PStr (n_detected_by n)),
      (''affected_symbols'', PList (n_affected_symbols n)),
      (''affected_strategies'', PList (n_affected_strategies n)),
      (''affected_objects'', PList (n_affected_objects n)),
      (''initial_actions'', PList (map PStr (n_initial_actions n))),
      (''actions_triggered'', PList (map PStr (n_actions_triggered n))),
      (''root_cause_family'', PStr (root_cause_value (n_root_cause_family n))),
      (''root_cause_detail'', PStr (n_root_cause_detail n)),
      (''pnl_impact'', opt_float (n_pnl_impact n)), (''risk_impact'', PStr (n_risk_impact n)),
      (''truth_source_integrity'', PStr (integrity_value (n_truth_source_integrity n))),
      (''audit_integrity'', PStr (integrity_value (n_audit_integrity n))),
      (''containment_complete'', PBool (n_containment_complete n)),
      (''remediation_required'', PBool (n_remediation_required n)),
      (''authorization_freeze_required'', PBool (n_authorization_freeze_required n)),
      (''recovery_approved_by'', opt_str (n_recovery_approved_by n)),
      (''recovery_approved_at_ms'', opt_int (n_recovery_approved_at_ms n)),
      (''is_resolved'', PBool (is_resolved n)),
      (''resolved_at_ms'', opt_int (n_resolved_at_ms n)),
      (''resolution_notes'', PStr (n_resolution_notes n))]"

text \<open>An affected object that is a text with \<open>USDT\<close> in it, in capitals or not.\<close>

definition usdt_symbol :: "pyval \<Rightarrow> bool" where
  "usdt_symbol v = (case v of PStr s \<Rightarrow> str_contains ''USDT'' (str_upper s) | _ \<Rightarrow> False)"

definition new_incident :: "Event \<Rightarrow> 'z env_scheme \<Rightarrow> IncidentRecord \<times> 'z env_scheme" where
  "new_incident e w =
     (let (h, w1) = fresh_hex w; (t, w2) = now_ms w1 in
      (\<lparr>n_incident_id = ''inc:'' @ take 12 h, n_severity = v_severity e,
        n_trigger_event_id = v_event_id e, n_detected_at_ms = t, n_detected_by = v_source e,
        n_affected_symbols = filter usdt_symbol (v_affected_objects e), n_affected_strategies = [],
        n_affected_objects = v_affected_objects e, n_initial_actions = [], n_actions_triggered = [],
        n_root_cause_family = root_cause_of (v_reason_code e), n_root_cause_detail = v_reason_detail e,
        n_pnl_impact = None, n_risk_impact = [], n_truth_source_integrity = IS_INTACT,
        n_audit_integrity = IS_INTACT, n_containment_complete = False, n_remediation_required = True,
        n_authorization_freeze_required = (ES_INCIDENT \<le> v_severity e), n_recovery_approved_by = None,
        n_recovery_approved_at_ms = None, n_resolved_at_ms = None, n_resolution_notes = []\<rparr>, w2))"

section \<open>The policy\<close>

type_synonym 's action_callback = "string \<Rightarrow> pydict \<Rightarrow> 's \<Rightarrow> world \<Rightarrow> bool \<times> 's \<times> world"

record 's incident_policy =
  ip_audit_cb :: bool
  ip_on_auth :: "'s action_callback option"
  ip_on_risk :: "'s action_callback option"
  ip_on_alert :: "(pydict \<Rightarrow> 's \<Rightarrow> world \<Rightarrow> bool \<times> 's \<times> world) option"
  ip_event_log :: "Event list"
  ip_incident_log :: "IncidentRecord list"
  ip_stats :: "(string \<times> nat) list"

definition max_log :: nat where
  "max_log = 10000"

definition policy_new ::
  "bool \<Rightarrow> 's action_callback option \<Rightarrow> 's action_callback option \<Rightarrow>
   (pydict \<Rightarrow> 's \<Rightarrow> world \<Rightarrow> bool \<times> 's \<times> world) option \<Rightarrow> 's incident_policy" where
  "policy_new audit on_auth on_risk on_alert =
     \<lparr>ip_audit_cb = audit, ip_on_auth = on_auth, ip_on_risk = on_risk, ip_on_alert = on_alert,
      ip_event_log = [], ip_incident_log = [],
      ip_stats = [(''events_processed'', 0), (''incidents_created'', 0), (''actions_triggered'', 0),
        (''notices'', 0), (''anomalies'', 0), (''near_misses'', 0), (''incidents'', 0),
        (''critical_incidents'', 0)]\<rparr>"

text \<open>A counter is raised only if it exists.\<close>

definition bump :: "string \<Rightarrow> (string \<times> nat) list \<Rightarrow> (string \<times> nat) list" where
  "bump key stats = (case map_of stats key of None \<Rightarrow> stats | Some n \<Rightarrow> AList.update key (Suc n) stats)"

definition severity_key :: "IncidentSeverity \<Rightarrow> string" where
  "severity_key s =
     (if s = ES_NEAR_MISS then ''near_misses''
      else if s = ES_CRITICAL_INCIDENT then ''critical_incidents''
      else str_lower (event_severity_name s) @ ''s'')"

definition action_context :: "Event \<Rightarrow> IncidentRecord option \<Rightarrow> pydict" where
  "action_context e incident =
     [(''event_id'', PStr (v_event_id e)), (''severity'', PStr (event_severity_name (v_severity e))),
      (''source'', PStr (v_source e)), (''reason_code'', PStr (v_reason_code e)),
      (''reason_detail'', PStr (v_reason_detail e)), (''affected_objects'', PList (v_affected_objects e)),
      (''incident_id'', opt_str (map_option n_incident_id incident))]"

definition run_callback ::
  "'s action_callback option \<Rightarrow> IncidentActionType \<Rightarrow> pydict \<Rightarrow> 's \<Rightarrow> world \<Rightarrow> bool \<times> 's \<times> world" where
  "run_callback cb action ctx s w =
     (case cb of None \<Rightarrow> (True, s, w) | Some f \<Rightarrow> f (policy_action_value action) ctx s w)"

definition execute_action ::
  "'s incident_policy \<Rightarrow> pydict \<Rightarrow> IncidentActionType \<Rightarrow> 's \<Rightarrow> world \<Rightarrow> bool \<times> 's \<times> world" where
  "execute_action p ctx action s w =
     (case action of
        IA_AUTH_RESTRICT \<Rightarrow> run_callback (ip_on_auth p) action ctx s w
      | IA_AUTH_FREEZE \<Rightarrow> run_callback (ip_on_auth p) action ctx s w
      | IA_RISK_ESCALATE_CAUTIOUS \<Rightarrow> run_callback (ip_on_risk p) action ctx s w
      | IA_RISK_ESCALATE_REDUCED \<Rightarrow> run_callback (ip_on_risk p) action ctx s w
      | IA_RISK_ESCALATE_DEFENSIVE \<Rightarrow> run_callback (ip_on_risk p) action ctx s w
      | IA_RISK_CIRCUIT_BREAKER \<Rightarrow> run_callback (ip_on_risk p) action ctx s w
      | IA_TRADING_FREEZE \<Rightarrow>
          (case run_callback (ip_on_risk p) IA_RISK_CIRCUIT_BREAKER ctx s w of
             (False, s1, w1) \<Rightarrow> (False, s1, w1)
           | (True, s1, w1) \<Rightarrow> run_callback (ip_on_auth p) IA_AUTH_FREEZE ctx s1 w1)
      | IA_OPERATOR_ALERT \<Rightarrow> (case ip_on_alert p of None \<Rightarrow> (True, s, w) | Some f \<Rightarrow> f ctx s w)
      | _ \<Rightarrow> (True, s, w))"

text \<open>All actions in order: what is reported of each, and the counter of those that returned.\<close>

fun run_policy_actions ::
  "'s incident_policy \<Rightarrow> pydict \<Rightarrow> IncidentActionType list \<Rightarrow> 's \<Rightarrow> world \<Rightarrow>
   string list \<times> nat \<times> 's \<times> world" where
  "run_policy_actions p ctx [] s w = ([], 0, s, w)"
| "run_policy_actions p ctx (a # as) s w =
     (let (ok, s1, w1) = execute_action p ctx a s w;
          (rest, n, s2, w2) = run_policy_actions p ctx as s1 w1
      in ((if ok then policy_action_value a else policy_action_value a @ '':FAILED'') # rest,
          if ok then Suc n else n, s2, w2))"

definition policy_audit :: "'s incident_policy \<Rightarrow> Event \<Rightarrow> string list \<Rightarrow> IncidentRecord option \<Rightarrow> world \<Rightarrow> world" where
  "policy_audit p e taken incident w =
     (if \<not> ip_audit_cb p then w
      else
        (let (t, w1) = now_ms w in
         emit_audit ''incident_policy'' True
           [(''event_type'', PStr ''incident_policy_processed''), (''event_id'', PStr (v_event_id e)),
            (''event_type_original'', PStr (v_event_type e)),
            (''severity'', PStr (event_severity_name (v_severity e))), (''source'', PStr (v_source e)),
            (''actions_taken'', PList (map PStr taken)),
            (''incident_id'', opt_str (map_option n_incident_id incident)),
            (''incident_severity'', opt_str (map_option (event_severity_name \<circ> n_severity) incident)),
            (''timestamp_ms'', PInt t)] w1))"

text \<open>
  \<open>process_event\<close>: the event is logged and counted; a NEAR_MISS or worse opens an incident; the
  actions run; the incident, already in the log, receives the list of actions; the audit follows.
\<close>

definition process_event ::
  "Event \<Rightarrow> 's incident_policy \<Rightarrow> 's \<Rightarrow> world \<Rightarrow> pydict \<times> 's incident_policy \<times> 's \<times> world" where
  "process_event e p s w =
     (let stats = bump (severity_key (v_severity e)) (bump ''events_processed'' (ip_stats p));
          (incident, w1) = (if ES_NEAR_MISS \<le> v_severity e
             then (let (n, w1) = new_incident e w in (Some n, w1)) else (None, w));
          (taken, ran, s1, w2) = run_policy_actions p (action_context e incident)
             (severity_actions (v_severity e)) s w1;
          incident1 = map_option (\<lambda>n. n\<lparr>n_actions_triggered := taken\<rparr>) incident;
          stats1 = (bump ''actions_triggered'' ^^ ran)
             (if incident = None then stats else bump ''incidents_created'' stats);
          p1 = p\<lparr>ip_event_log := keep_last max_log (ip_event_log p @ [e]),
             ip_incident_log := (case incident1 of None \<Rightarrow> ip_incident_log p
                | Some n \<Rightarrow> keep_last max_log (ip_incident_log p @ [n])),
             ip_stats := stats1\<rparr>
      in ([(''event_id'', PStr (v_event_id e)), (''severity'', PStr (event_severity_name (v_severity e))),
           (''actions_taken'', PList (map PStr taken)),
           (''incident_id'', opt_str (map_option n_incident_id incident))],
          p1, s1, policy_audit p e taken incident1 w2))"

section \<open>Recovery and queries\<close>

fun resolve_first ::
  "string \<Rightarrow> (IncidentRecord \<Rightarrow> IncidentRecord) \<Rightarrow> IncidentRecord list \<Rightarrow> IncidentRecord list" where
  "resolve_first i f [] = []"
| "resolve_first i f (n # ns) = (if n_incident_id n = i then f n # ns else n # resolve_first i f ns)"

definition find_incident :: "string \<Rightarrow> IncidentRecord list \<Rightarrow> IncidentRecord option" where
  "find_incident i ns = find (\<lambda>n. n_incident_id n = i) ns"

definition approve_incident_recovery ::
  "string \<Rightarrow> string \<Rightarrow> string \<Rightarrow> 's incident_policy \<Rightarrow> world \<Rightarrow> bool \<times> 's incident_policy \<times> world" where
  "approve_incident_recovery i approved_by notes p w =
     (case find_incident i (ip_incident_log p) of
        None \<Rightarrow> (False, p, w)
      | Some n \<Rightarrow>
          (if is_resolved n then (False, p, w)
           else
             (let (t, w1) = now_ms w;
                  log = resolve_first i (\<lambda>n. n\<lparr>n_recovery_approved_by := Some approved_by,
                     n_recovery_approved_at_ms := Some t, n_resolved_at_ms := Some t,
                     n_resolution_notes := notes, n_containment_complete := True\<rparr>) (ip_incident_log p)
              in (True, p\<lparr>ip_incident_log := log\<rparr>,
                  emit_audit ''incident_policy'' (ip_audit_cb p)
                    [(''event_type'', PStr ''incident_recovery_approved''), (''incident_id'', PStr i),
                     (''approved_by'', PStr approved_by), (''notes'', PStr notes),
                     (''timestamp_ms'', PInt t)] w1))))"

definition get_open_incidents :: "'s incident_policy \<Rightarrow> pydict list" where
  "get_open_incidents p = map incident_to_dict (filter (\<lambda>n. \<not> is_resolved n) (ip_incident_log p))"

definition get_incident :: "string \<Rightarrow> 's incident_policy \<Rightarrow> pydict option" where
  "get_incident i p = map_option incident_to_dict (find_incident i (ip_incident_log p))"

definition get_recent_events :: "int \<Rightarrow> 's incident_policy \<Rightarrow> pydict list" where
  "get_recent_events count p = map policy_event_to_dict (last_n count (ip_event_log p))"

definition get_events_by_severity :: "IncidentSeverity \<Rightarrow> 's incident_policy \<Rightarrow> pydict list" where
  "get_events_by_severity least p =
     map policy_event_to_dict (filter (\<lambda>e. least \<le> v_severity e) (ip_event_log p))"

definition get_policy_stats :: "'s incident_policy \<Rightarrow> (string \<times> nat) list" where
  "get_policy_stats p =
     ip_stats p @
     [(''open_incidents'', length (filter (\<lambda>n. \<not> is_resolved n) (ip_incident_log p))),
      (''total_incidents'', length (ip_incident_log p)), (''event_log_size'', length (ip_event_log p))]"

section \<open>What processing an event does\<close>

lemma bump_get: "map_of (bump key st) k = (if k = key then map_option Suc (map_of st k) else map_of st k)"
  by (auto simp: bump_def pd.get_put split: option.split)

lemma bump_pow_get:
  "map_of ((bump key ^^ n) st) k = (if k = key then map_option (\<lambda>m. m + n) (map_of st k) else map_of st k)"
  by (induction n) (auto simp: bump_get option.map_comp o_def option.map_ident)

lemma severity_key_eval:
  "severity_key ES_NOTICE = ''notices''" "severity_key ES_ANOMALY = ''anomalys''"
  "severity_key ES_NEAR_MISS = ''near_misses''" "severity_key ES_INCIDENT = ''incidents''"
  "severity_key ES_CRITICAL_INCIDENT = ''critical_incidents''"
  by code_simp+

definition grave :: "Event \<Rightarrow> bool" where
  "grave e \<longleftrightarrow> ES_NEAR_MISS \<le> v_severity e"

lemma process_event_logs:
  assumes "process_event e p s w = (res, p', s', w')"
  shows "ip_event_log p' = keep_last max_log (ip_event_log p @ [e])"
    and "\<not> grave e \<Longrightarrow> ip_incident_log p' = ip_incident_log p"
    and "grave e \<Longrightarrow> \<exists>n. ip_incident_log p' = keep_last max_log (ip_incident_log p @ [n]) \<and>
      n_trigger_event_id n = v_event_id e \<and> n_severity n = v_severity e \<and> \<not> is_resolved n \<and>
      n_authorization_freeze_required n = (ES_INCIDENT \<le> v_severity e)"
  using assms
  by (auto simp: process_event_def grave_def new_incident_def is_resolved_def Let_def split: prod.splits)

lemma process_event_stats:
  assumes "process_event e p s w = (res, p', s', w')" "k \<noteq> ''actions_triggered''"
  shows "map_of (ip_stats p') k = map_option (\<lambda>m. m + (if k = ''events_processed'' then 1 else 0) +
     (if k = severity_key (v_severity e) then 1 else 0) +
     (if k = ''incidents_created'' \<and> grave e then 1 else 0)) (map_of (ip_stats p) k)"
proof -
  obtain inc w1 where i: "(if ES_NEAR_MISS \<le> v_severity e
      then (let (n, w1) = new_incident e w in (Some n, w1)) else (None, w)) = (inc, w1)" by fastforce
  then have g: "inc = None \<longleftrightarrow> \<not> grave e" by (auto simp: grave_def split: if_splits prod.splits)
  obtain taken ran s1 w2 where a: "run_policy_actions p (action_context e inc)
      (severity_actions (v_severity e)) s w1 = (taken, ran, s1, w2)" by (metis prod_cases4)
  have st: "ip_stats p' = (bump ''actions_triggered'' ^^ ran)
      (if inc = None then bump (severity_key (v_severity e)) (bump ''events_processed'' (ip_stats p))
       else bump ''incidents_created'' (bump (severity_key (v_severity e)) (bump ''events_processed'' (ip_stats p))))"
    using assms(1) i a by (auto simp: process_event_def Let_def)
  have key: "severity_key (v_severity e) \<noteq> ''events_processed''" "severity_key (v_severity e) \<noteq> ''incidents_created''"
    by (cases "v_severity e"; simp add: severity_key_eval)+
  have "map_of (ip_stats p') k = map_of (if inc = None then bump (severity_key (v_severity e)) (bump ''events_processed'' (ip_stats p))
       else bump ''incidents_created'' (bump (severity_key (v_severity e)) (bump ''events_processed'' (ip_stats p)))) k"
    unfolding st bump_pow_get using assms(2) by simp
  also have "\<dots> = map_option (\<lambda>m. m + (if k = ''events_processed'' then 1 else 0) +
     (if k = severity_key (v_severity e) then 1 else 0) +
     (if k = ''incidents_created'' \<and> grave e then 1 else 0)) (map_of (ip_stats p) k)"
    using key g
    by (cases "k = ''events_processed''"; cases "k = severity_key (v_severity e)"; cases "k = ''incidents_created''";
        cases "map_of (ip_stats p) k") (simp_all add: bump_get)
  finally show ?thesis .
qed

definition process_events ::
  "Event list \<Rightarrow> 's incident_policy \<Rightarrow> 's \<Rightarrow> world \<Rightarrow> 's incident_policy \<times> 's \<times> world" where
  "process_events es p s w = fold (\<lambda>e (p, s, w). snd (process_event e p s w)) es (p, s, w)"

lemma process_events_snoc:
  "process_events (es @ [e]) p s w = (case process_events es p s w of (q, t, v) \<Rightarrow> snd (process_event e q t v))"
  by (simp add: process_events_def)

definition of_severity :: "IncidentSeverity \<Rightarrow> Event list \<Rightarrow> nat" where
  "of_severity x es = length (filter (\<lambda>e. v_severity e = x) es)"

lemma process_events_logs:
  assumes "process_events es (policy_new a b c d) s w = (p, s', w')"
  shows "ip_event_log p = keep_last max_log es \<and>
    map n_trigger_event_id (ip_incident_log p) = keep_last max_log (map v_event_id (filter grave es))"
  using assms
proof (induction es arbitrary: p s' w' rule: rev_induct)
  case Nil
  then show ?case by (auto simp: process_events_def policy_new_def keep_last_def)
next
  case (snoc e es)
  obtain q t v where q: "process_events es (policy_new a b c d) s w = (q, t, v)" by (metis prod_cases3)
  obtain res where e: "process_event e q t v = (res, p, s', w')"
    using snoc.prems q by (cases "process_event e q t v") (simp add: process_events_snoc)
  note logs = process_event_logs[OF e] and IH = snoc.IH[OF q]
  show ?case
  proof (cases "grave e")
    case True
    then obtain n where "ip_incident_log p = keep_last max_log (ip_incident_log q @ [n])"
      "n_trigger_event_id n = v_event_id e" using logs(3) by blast
    with IH logs(1) True show ?thesis by (simp add: keep_last_map keep_last_snoc)
  next
    case False
    with IH logs(1,2) show ?thesis by (simp add: keep_last_snoc)
  qed
qed

lemma process_events_stats:
  assumes "process_events es (policy_new a b c d) s w = (p, s', w')" "k \<noteq> ''actions_triggered''"
  shows "map_of (ip_stats p) k = map_option (\<lambda>m. (if k = ''events_processed'' then length es else 0) +
     length (filter (\<lambda>e. severity_key (v_severity e) = k) es) +
     (if k = ''incidents_created'' then length (filter grave es) else 0))
     (map_of (ip_stats (policy_new a b c d)) k)"
  using assms(1)
proof (induction es arbitrary: p s' w' rule: rev_induct)
  case Nil
  then have "p = policy_new a b c d" by (simp add: process_events_def)
  then show ?case by (simp add: policy_new_def)
next
  case (snoc e es)
  obtain q t v where q: "process_events es (policy_new a b c d) s w = (q, t, v)" by (metis prod_cases3)
  obtain res where e: "process_event e q t v = (res, p, s', w')"
    using snoc.prems q by (cases "process_event e q t v") (simp add: process_events_snoc)
  from process_event_stats[OF e assms(2)] snoc.IH[OF q] show ?case
    by (auto simp: option.map_comp o_def intro!: option.map_cong0)
qed

section \<open>Recovery\<close>

lemma find_resolved:
  assumes "\<And>n. n_incident_id (f n) = n_incident_id n"
  shows "find_incident j (resolve_first i f ns) =
    (if j = i then map_option f (find_incident i ns) else find_incident j ns)"
  unfolding find_incident_def by (induction ns) (auto simp: assms)

section \<open>Properties\<close>

text \<open>What the policy has seen is what it keeps, whatever the callbacks do or raise: its log is
  the last 10000 events, its incidents are those opened by the last 10000 events of NEAR_MISS or
  worse, one each, in order, and every counter is exact except the one of anomalies, which stays
  0 however many there were (the code looks for a counter called anomalys).\<close>

theorem incident_counters_exact:
  "case process_events es (policy_new a b c d) s w of (p, s', w') \<Rightarrow>
     ip_event_log p = keep_last 10000 es \<and>
     map n_trigger_event_id (ip_incident_log p) = keep_last 10000 (map v_event_id (filter grave es)) \<and>
     map_of (ip_stats p) ''events_processed'' = Some (length es) \<and>
     map_of (ip_stats p) ''incidents_created'' = Some (length (filter grave es)) \<and>
     map_of (ip_stats p) ''notices'' = Some (of_severity ES_NOTICE es) \<and>
     map_of (ip_stats p) ''near_misses'' = Some (of_severity ES_NEAR_MISS es) \<and>
     map_of (ip_stats p) ''incidents'' = Some (of_severity ES_INCIDENT es) \<and>
     map_of (ip_stats p) ''critical_incidents'' = Some (of_severity ES_CRITICAL_INCIDENT es) \<and>
     map_of (ip_stats p) ''anomalies'' = Some 0"
proof -
  obtain p s' w' where r: "process_events es (policy_new a b c d) s w = (p, s', w')" by (metis prod_cases3)
  note st = process_events_stats[OF r]
  have key: "severity_key x = ''notices'' \<longleftrightarrow> x = ES_NOTICE" "severity_key x = ''near_misses'' \<longleftrightarrow> x = ES_NEAR_MISS"
    "severity_key x = ''incidents'' \<longleftrightarrow> x = ES_INCIDENT"
    "severity_key x = ''critical_incidents'' \<longleftrightarrow> x = ES_CRITICAL_INCIDENT"
    "severity_key x \<noteq> ''anomalies''" "severity_key x \<noteq> ''events_processed''" "severity_key x \<noteq> ''incidents_created''"
    for x by (cases x; simp add: severity_key_eval)+
  have init: "map_of (ip_stats (policy_new a b c d)) ''events_processed'' = Some 0"
    "map_of (ip_stats (policy_new a b c d)) ''incidents_created'' = Some 0"
    "map_of (ip_stats (policy_new a b c d)) ''notices'' = Some 0"
    "map_of (ip_stats (policy_new a b c d)) ''anomalies'' = Some 0"
    "map_of (ip_stats (policy_new a b c d)) ''near_misses'' = Some 0"
    "map_of (ip_stats (policy_new a b c d)) ''incidents'' = Some 0"
    "map_of (ip_stats (policy_new a b c d)) ''critical_incidents'' = Some 0"
    by (simp_all add: policy_new_def)
  have "map_of (ip_stats p) ''events_processed'' = Some (length es)"
    using st[of "''events_processed''"] by (simp add: init key)
  moreover have "map_of (ip_stats p) ''incidents_created'' = Some (length (filter grave es))"
    using st[of "''incidents_created''"] by (simp add: init key)
  moreover have "map_of (ip_stats p) ''notices'' = Some (of_severity ES_NOTICE es)"
    using st[of "''notices''"] by (simp add: init key of_severity_def)
  moreover have "map_of (ip_stats p) ''near_misses'' = Some (of_severity ES_NEAR_MISS es)"
    using st[of "''near_misses''"] by (simp add: init key of_severity_def)
  moreover have "map_of (ip_stats p) ''incidents'' = Some (of_severity ES_INCIDENT es)"
    using st[of "''incidents''"] by (simp add: init key of_severity_def)
  moreover have "map_of (ip_stats p) ''critical_incidents'' = Some (of_severity ES_CRITICAL_INCIDENT es)"
    using st[of "''critical_incidents''"] by (simp add: init key of_severity_def)
  moreover have "map_of (ip_stats p) ''anomalies'' = Some 0"
    using st[of "''anomalies''"] by (simp add: init key)
  ultimately show ?thesis using process_events_logs[OF r] unfolding r prod.case max_log_def by blast
qed

text \<open>Approving the recovery of an incident works exactly once, for the first incident of that id
  that is still open: it records the approver, closes the incident and touches no other incident,
  no event and no counter. A refused call changes nothing at all. The approver is not checked.\<close>

theorem incident_recovery_once:
  assumes "approve_incident_recovery i who notes p w = (ok, p', w')"
  shows "(ok \<longleftrightarrow> (\<exists>n. find_incident i (ip_incident_log p) = Some n \<and> \<not> is_resolved n)) \<and>
    (if ok then p' = p\<lparr>ip_incident_log := ip_incident_log p'\<rparr> \<and>
       (\<exists>n. find_incident i (ip_incident_log p') = Some n \<and> is_resolved n \<and> n_containment_complete n \<and>
          n_recovery_approved_by n = Some who) \<and>
       (\<forall>j. j = i \<or> find_incident j (ip_incident_log p') = find_incident j (ip_incident_log p)) \<and>
       \<not> fst (approve_incident_recovery i who2 notes2 p' v)
     else p' = p \<and> w' = w)"
proof (cases "\<exists>n. find_incident i (ip_incident_log p) = Some n \<and> \<not> is_resolved n")
  case False
  then have "(ok, p', w') = (False, p, w)"
    using assms by (auto simp: approve_incident_recovery_def split: option.splits if_splits)
  with False show ?thesis by simp
next
  case True
  then obtain n where n: "find_incident i (ip_incident_log p) = Some n" "\<not> is_resolved n" by blast
  obtain t w1 where t: "now_ms w = (t, w1)" by fastforce
  let ?f = "\<lambda>n. n\<lparr>n_recovery_approved_by := Some who, n_recovery_approved_at_ms := Some t,
     n_resolved_at_ms := Some t, n_resolution_notes := notes, n_containment_complete := True\<rparr>"
  have p': "ok" "p' = p\<lparr>ip_incident_log := resolve_first i ?f (ip_incident_log p)\<rparr>"
    using assms n t by (auto simp: approve_incident_recovery_def)
  have "find_incident j (ip_incident_log p') =
      (if j = i then Some (?f n) else find_incident j (ip_incident_log p))" for j
    using find_resolved[of ?f j i "ip_incident_log p"] n(1) by (simp add: p'(2))
  then have f: "find_incident i (ip_incident_log p') = Some (?f n)"
    "\<And>j. j \<noteq> i \<Longrightarrow> find_incident j (ip_incident_log p') = find_incident j (ip_incident_log p)" by simp_all
  have "is_resolved (?f n)" by (simp add: is_resolved_def)
  moreover from this f(1) have "\<not> fst (approve_incident_recovery i who2 notes2 p' v)"
    by (simp add: approve_incident_recovery_def)
  moreover have "p' = p\<lparr>ip_incident_log := ip_incident_log p'\<rparr>" by (simp add: p'(2))
  moreover have "\<forall>j. j = i \<or> find_incident j (ip_incident_log p') = find_incident j (ip_incident_log p)"
    using f(2) by blast
  ultimately show ?thesis using True p'(1) f(1) by simp
qed

definition demo_event :: Event where
  "demo_event = fst (create_event ''order_lost'' ES_CRITICAL_INCIDENT ''oms'' ''System'' None ''risk_gap'' []
     None [] (sample_world 3))"

definition demo_policy :: "unit incident_policy" where
  "demo_policy = fst (snd (process_event demo_event (policy_new True None None None) () (sample_world 4)))"

lemma incident_recovery_once_witness:
  "\<exists>i. fst (approve_incident_recovery i [] ''n'' demo_policy (sample_world 5)) \<and>
     \<not> fst (approve_incident_recovery i ''op'' ''n'' (fst (snd (approve_incident_recovery i [] ''n'' demo_policy
        (sample_world 5)))) (sample_world 6))"
proof -
  obtain res s' w' where e: "process_event demo_event (policy_new True None None None) () (sample_world 4) =
      (res, demo_policy, s', w')" unfolding demo_policy_def by (metis prod.collapse)
  have "grave demo_event"
    by (simp add: grave_def demo_event_def create_event_def event_post_init_def event_severity_order Let_def split: prod.split)
  from process_event_logs(3)[OF e this] obtain n where
    n: "ip_incident_log demo_policy = [n]" "\<not> is_resolved n"
    by (auto simp: policy_new_def keep_last_def max_log_def)
  then have "find_incident (n_incident_id n) (ip_incident_log demo_policy) = Some n" by (simp add: find_incident_def)
  moreover obtain ok p' v where a: "approve_incident_recovery (n_incident_id n) [] ''n'' demo_policy (sample_world 5) =
      (ok, p', v)" by (metis prod_cases3)
  ultimately show ?thesis using incident_recovery_once[OF a, of "''op''" "''n''" "sample_world 6"] n(2)
    by (intro exI[of _ "n_incident_id n"]) (auto split: if_splits)
qed

end
