(* ===== verification/TTL_Enforcer.thy ===== *)
theory TTL_Enforcer
  imports SM_Base Py_Float
begin

text \<open>
  The time-to-live enforcer (\<open>app/ttl_enforcer.py\<close>): entries that are registered when an object
  enters a state, the sweep that marks the expired ones and hands each to the expiry callback,
  and the queries. The callback works on a state of its own; what it raises is caught, so only
  its effects are seen. The daemon thread is the sequence of its sweeps.
\<close>

section \<open>Configuration and entries\<close>

datatype TTLExpiryAction = TA_AUTO_REJECT | TA_AUTO_EXPIRE | TA_AUTO_CANCEL
  | TA_MANUAL_REVIEW_REQUIRED | TA_ESCALATE

fun ttl_action_value :: "TTLExpiryAction \<Rightarrow> string" where
  "ttl_action_value TA_AUTO_REJECT = ''auto_reject''"
| "ttl_action_value TA_AUTO_EXPIRE = ''auto_expire''"
| "ttl_action_value TA_AUTO_CANCEL = ''auto_cancel''"
| "ttl_action_value TA_MANUAL_REVIEW_REQUIRED = ''manual_review_required''"
| "ttl_action_value TA_ESCALATE = ''escalate''"

record TTLConfig =
  tc_machine :: string
  tc_state :: string
  tc_max_seconds :: int
  tc_action :: TTLExpiryAction
  tc_target :: "string option"

record TTLEntry =
  te_id :: string
  te_machine :: string
  te_object :: string
  te_state :: string
  te_entered_ms :: int
  te_expires_ms :: int
  te_config :: TTLConfig
  te_expired :: bool
  te_action :: "string option"
  te_action_ms :: "int option"

text \<open>\<open>current_time_ms or int(time.time() * 1000)\<close>: a given 0 counts as not given.\<close>

definition given_ms :: "int option \<Rightarrow> 'z env_scheme \<Rightarrow> int \<times> 'z env_scheme" where
  "given_ms t w = (case t of Some n \<Rightarrow> if n = 0 then now_ms w else (n, w) | None \<Rightarrow> now_ms w)"

definition is_expired :: "int option \<Rightarrow> TTLEntry \<Rightarrow> 'z env_scheme \<Rightarrow> bool \<times> 'z env_scheme" where
  "is_expired t e w =
     (if te_expired e then (True, w)
      else (let (now, w1) = given_ms t w in (te_expires_ms e \<le> now, w1)))"

text \<open>\<open>max(0, x / 1000.0)\<close>: the integer 0 unless the quotient is positive.\<close>

definition remaining_seconds :: "int option \<Rightarrow> TTLEntry \<Rightarrow> 'z env_scheme \<Rightarrow> pyval \<times> 'z env_scheme" where
  "remaining_seconds t e w =
     (let (now, w1) = given_ms t w;
          left = (case fdiv (fl_round (of_int (te_expires_ms e - now))) (Fin 1000) of Some x \<Rightarrow> x | None \<Rightarrow> NaN)
      in (if flt (Fin 0) left then PFloat left else PInt 0, w1))"

type_synonym ttl_configs = "((string \<times> string) \<times> TTLConfig) list"

definition ttl_config :: "string \<Rightarrow> string \<Rightarrow> int \<Rightarrow> TTLExpiryAction \<Rightarrow> string option \<Rightarrow> (string \<times> string) \<times> TTLConfig" where
  "ttl_config machine state seconds action target =
     ((machine, state), \<lparr>tc_machine = machine, tc_state = state, tc_max_seconds = seconds,
        tc_action = action, tc_target = target\<rparr>)"

definition default_ttl_configs :: ttl_configs where
  "default_ttl_configs =
     [ttl_config ''Authorization'' ''PENDING_APPROVAL'' 86400 TA_AUTO_REJECT (Some ''REJECTED''),
      ttl_config ''DecisionLease'' ''ACTIVE'' 30 TA_AUTO_EXPIRE (Some ''EXPIRED''),
      ttl_config ''DecisionLease'' ''BRIDGED'' 60 TA_AUTO_EXPIRE (Some ''EXPIRED''),
      ttl_config ''RiskGovernor'' ''CIRCUIT_BREAKER'' 3600 TA_MANUAL_REVIEW_REQUIRED (Some ''MANUAL_REVIEW''),
      ttl_config ''RiskGovernor'' ''MANUAL_REVIEW'' 86400 TA_ESCALATE None,
      ttl_config ''OMS'' ''SUBMITTED'' 30 TA_AUTO_CANCEL (Some ''CANCELED'')]"

section \<open>The enforcer\<close>

record 's ttl_enforcer =
  tt_configs :: ttl_configs
  tt_audit_cb :: bool
  tt_on_expiry :: "(TTLEntry \<Rightarrow> string \<Rightarrow> 's \<Rightarrow> world \<Rightarrow> 's \<times> world) option"
  tt_entries :: "(string \<times> TTLEntry) list"
  tt_objects :: "((string \<times> string) \<times> string list) list"
  tt_interval :: pyfloat
  tt_active :: bool

definition ttl_new ::
  "ttl_configs option \<Rightarrow> bool \<Rightarrow> (TTLEntry \<Rightarrow> string \<Rightarrow> 's \<Rightarrow> world \<Rightarrow> 's \<times> world) option \<Rightarrow> 's ttl_enforcer" where
  "ttl_new configs audit on_expiry =
     \<lparr>tt_configs = (case configs of Some c \<Rightarrow> if c = [] then default_ttl_configs else c | None \<Rightarrow> default_ttl_configs),
      tt_audit_cb = audit, tt_on_expiry = on_expiry, tt_entries = [], tt_objects = [],
      tt_interval = Fin 5, tt_active = False\<rparr>"

definition ttl_audit_log :: "'s ttl_enforcer \<Rightarrow> string \<Rightarrow> pydict \<Rightarrow> world \<Rightarrow> world" where
  "ttl_audit_log t event_type kwargs w =
     (if \<not> tt_audit_cb t then w
      else
        (let (now, w1) = now_ms w in
         emit_audit ''ttl_enforcer'' True
           ([(''event_type'', PStr event_type), (''timestamp_ms'', PInt now)] @ kwargs) w1))"

definition register_entry ::
  "string \<Rightarrow> string \<Rightarrow> string \<Rightarrow> int option \<Rightarrow> 's ttl_enforcer \<Rightarrow> world \<Rightarrow>
   TTLEntry option \<times> 's ttl_enforcer \<times> world" where
  "register_entry machine obj state time t w =
     (case map_of (tt_configs t) (machine, state) of
        None \<Rightarrow> (None, t, w)
      | Some c \<Rightarrow>
          (let (now, w1) = given_ms time w;
               (h, w2) = fresh_hex w1;
               e = \<lparr>te_id = uuid_str h, te_machine = machine, te_object = obj, te_state = state,
                    te_entered_ms = now, te_expires_ms = now + tc_max_seconds c * 1000, te_config = c,
                    te_expired = False, te_action = None, te_action_ms = None\<rparr>;
               ids = (case map_of (tt_objects t) (machine, obj) of None \<Rightarrow> [] | Some xs \<Rightarrow> xs);
               t1 = t\<lparr>tt_entries := AList.update (te_id e) e (tt_entries t),
                      tt_objects := AList.update (machine, obj) (ids @ [te_id e]) (tt_objects t)\<rparr>
           in (Some e, t1,
               ttl_audit_log t1 ''ttl_entry_registered''
                 [(''entry_id'', PStr (te_id e)), (''state_machine_name'', PStr machine),
                  (''object_id'', PStr obj), (''state_name'', PStr state),
                  (''max_duration_seconds'', PInt (tc_max_seconds c))] w2)))"

definition check_entry_expiry :: "string \<Rightarrow> int option \<Rightarrow> 's ttl_enforcer \<Rightarrow> 'z env_scheme \<Rightarrow> bool \<times> 'z env_scheme" where
  "check_entry_expiry i time t w =
     (case map_of (tt_entries t) i of None \<Rightarrow> (False, w) | Some e \<Rightarrow> is_expired time e w)"

text \<open>What the sweep does to one expired entry.\<close>

definition fire_entry :: "int \<Rightarrow> TTLEntry \<Rightarrow> TTLEntry" where
  "fire_entry now e =
     e\<lparr>te_expired := True, te_action := Some (ttl_action_value (tc_action (te_config e))),
       te_action_ms := Some now\<rparr>"

definition execute_expiry_action ::
  "TTLEntry \<Rightarrow> int \<Rightarrow> 's ttl_enforcer \<Rightarrow> 's \<Rightarrow> world \<Rightarrow> string \<times> 's ttl_enforcer \<times> 's \<times> world" where
  "execute_expiry_action e now t s w =
     (let action = ttl_action_value (tc_action (te_config e));
          e1 = fire_entry now e;
          t1 = t\<lparr>tt_entries := AList.update (te_id e) e1 (tt_entries t)\<rparr>;
          w1 = ttl_audit_log t1 ''ttl_expired''
                 [(''entry_id'', PStr (te_id e)), (''state_machine_name'', PStr (te_machine e)),
                  (''object_id'', PStr (te_object e)), (''state_name'', PStr (te_state e)),
                  (''action_taken'', PStr action), (''target_state'', opt_str (tc_target (te_config e)))] w;
          (s1, w2) = (case tt_on_expiry t of None \<Rightarrow> (s, w1) | Some f \<Rightarrow> f e1 action s w1)
      in (action, t1, s1, w2))"

fun sweep_entries ::
  "int \<Rightarrow> TTLEntry list \<Rightarrow> 's ttl_enforcer \<Rightarrow> 's \<Rightarrow> world \<Rightarrow>
   (string \<times> string) list \<times> 's ttl_enforcer \<times> 's \<times> world" where
  "sweep_entries now [] t s w = ([], t, s, w)"
| "sweep_entries now (e # es) t s w =
     (let (due, w1) = is_expired (Some now) e w in
      if due \<and> \<not> str_given (te_action e)
      then (let (action, t1, s1, w2) = execute_expiry_action e now t s w1;
                (out, t2, s2, w3) = sweep_entries now es t1 s1 w2
            in ((te_id e, action) # out, t2, s2, w3))
      else sweep_entries now es t s w1)"

definition sweep_expired ::
  "int option \<Rightarrow> 's ttl_enforcer \<Rightarrow> 's \<Rightarrow> world \<Rightarrow> (string \<times> string) list \<times> 's ttl_enforcer \<times> 's \<times> world" where
  "sweep_expired time t s w =
     (let (now, w1) = given_ms time w in sweep_entries now (map snd (tt_entries t)) t s w1)"

section \<open>Marking, queries and the daemon\<close>

definition mark_action_taken ::
  "string \<Rightarrow> string \<Rightarrow> int option \<Rightarrow> 's ttl_enforcer \<Rightarrow> world \<Rightarrow> bool \<times> 's ttl_enforcer \<times> world" where
  "mark_action_taken i action time t w =
     (let (now, w1) = given_ms time w in
      (case map_of (tt_entries t) i of
         None \<Rightarrow> (False, t, w1)
       | Some e \<Rightarrow>
           (let t1 = t\<lparr>tt_entries := AList.update i (e\<lparr>te_action := Some action, te_action_ms := Some now\<rparr>)
                      (tt_entries t)\<rparr>
            in (True, t1, ttl_audit_log t1 ''ttl_action_taken''
                  [(''entry_id'', PStr i), (''action'', PStr action)] w1))))"

definition get_active_entries :: "string \<Rightarrow> string \<Rightarrow> 's ttl_enforcer \<Rightarrow> TTLEntry list" where
  "get_active_entries machine obj t =
     filter (\<lambda>e. \<not> te_expired e) (List.map_filter (\<lambda>i. map_of (tt_entries t) i)
       (case map_of (tt_objects t) (machine, obj) of None \<Rightarrow> [] | Some ids \<Rightarrow> ids))"

definition get_expired_entries :: "string option \<Rightarrow> string option \<Rightarrow> 's ttl_enforcer \<Rightarrow> TTLEntry list" where
  "get_expired_entries machine obj t =
     (let r = filter te_expired (map snd (tt_entries t));
          r1 = (if str_given machine then filter (\<lambda>e. Some (te_machine e) = machine) r else r)
      in if str_given obj then filter (\<lambda>e. Some (te_object e) = obj) r1 else r1)"

definition start_daemon_sweep :: "pyfloat \<Rightarrow> 's ttl_enforcer \<Rightarrow> 's ttl_enforcer" where
  "start_daemon_sweep interval t = (if tt_active t then t else t\<lparr>tt_interval := interval, tt_active := True\<rparr>)"

text \<open>One round of the daemon loop.\<close>

definition daemon_round :: "'s ttl_enforcer \<Rightarrow> 's \<Rightarrow> world \<Rightarrow> 's ttl_enforcer \<times> 's \<times> world" where
  "daemon_round t s w = (if tt_active t then snd (sweep_expired None t s w) else (t, s, w))"

definition entry_export :: "TTLEntry \<Rightarrow> pydict" where
  "entry_export e =
     [(''entry_id'', PStr (te_id e)), (''state_machine_name'', PStr (te_machine e)),
      (''object_id'', PStr (te_object e)), (''state_name'', PStr (te_state e)),
      (''entered_at_ms'', PInt (te_entered_ms e)), (''expires_at_ms'', PInt (te_expires_ms e)),
      (''max_duration_seconds'', PInt (tc_max_seconds (te_config e))),
      (''on_expiry_action'', PStr (ttl_action_value (tc_action (te_config e)))),
      (''on_expiry_target_state'', opt_str (tc_target (te_config e))),
      (''expired'', PBool (te_expired e)), (''action_taken'', opt_str (te_action e)),
      (''action_timestamp_ms'', opt_int (te_action_ms e))]"

definition export_entries :: "'s ttl_enforcer \<Rightarrow> 'z env_scheme \<Rightarrow> pydict \<times> 'z env_scheme" where
  "export_entries t w =
     (let (now, w1) = now_ms w in
      ([(''exported_at_ms'', PInt now), (''total_entries'', PInt (int (length (tt_entries t)))),
        (''entries'', PList (map (PDict \<circ> entry_export \<circ> snd) (tt_entries t)))], w1))"

fun count_machines :: "TTLEntry list \<Rightarrow> (string \<times> (nat \<times> nat)) list \<Rightarrow> (string \<times> (nat \<times> nat)) list" where
  "count_machines [] m = m"
| "count_machines (e # es) m =
     (let (n, x) = (case map_of m (te_machine e) of None \<Rightarrow> (0, 0) | Some p \<Rightarrow> p)
      in count_machines es (AList.update (te_machine e) (Suc n, if te_expired e then Suc x else x) m))"

definition machine_counts :: "nat \<times> nat \<Rightarrow> pyval" where
  "machine_counts p =
     PDict [(''total'', PInt (int (fst p))), (''expired'', PInt (int (snd p))),
            (''active'', PInt (int (fst p) - int (snd p)))]"

definition get_ttl_stats :: "'s ttl_enforcer \<Rightarrow> 'z env_scheme \<Rightarrow> pydict \<times> 'z env_scheme" where
  "get_ttl_stats t w =
     (let es = map snd (tt_entries t); expired = length (filter te_expired es); (now, w1) = now_ms w in
      ([(''timestamp_ms'', PInt now), (''total_entries'', PInt (int (length es))),
        (''active_entries'', PInt (int (length es) - int expired)), (''expired_entries'', PInt (int expired)),
        (''by_state_machine'', PDict (map (\<lambda>(k, p). (k, machine_counts p)) (count_machines es []))),
        (''daemon_sweep_active'', PBool (tt_active t))], w1))"

section \<open>The sweep, entry by entry\<close>

definition fires :: "int \<Rightarrow> TTLEntry \<Rightarrow> bool" where
  "fires now e \<longleftrightarrow> (te_expired e \<or> te_expires_ms e \<le> now) \<and> \<not> str_given (te_action e)"

definition swept :: "int \<Rightarrow> TTLEntry \<Rightarrow> TTLEntry" where
  "swept now e = (if fires now e then fire_entry now e else e)"

definition expiry_call :: "int \<Rightarrow> TTLEntry \<Rightarrow> TTLEntry \<times> string" where
  "expiry_call now e = (fire_entry now e, ttl_action_value (tc_action (te_config e)))"

text \<open>The callback was run on exactly these calls, in this order, each in some world.\<close>

fun calls_made ::
  "(TTLEntry \<Rightarrow> string \<Rightarrow> 's \<Rightarrow> world \<Rightarrow> 's \<times> world) option \<Rightarrow> (TTLEntry \<times> string) list \<Rightarrow> 's \<Rightarrow> 's \<Rightarrow> bool" where
  "calls_made f [] s s' = (s' = s)"
| "calls_made f (c # cs) s s' =
     (case f of None \<Rightarrow> s' = s | Some g \<Rightarrow> \<exists>w. calls_made f cs (fst (g (fst c) (snd c) s w)) s')"

lemma calls_made_none: "calls_made None cs s s' \<longleftrightarrow> s' = s"
  by (cases cs) simp_all

definition ttl_inv :: "'s ttl_enforcer \<Rightarrow> bool" where
  "ttl_inv t \<longleftrightarrow> distinct (map fst (tt_entries t)) \<and>
     (\<forall>(i, e) \<in> set (tt_entries t). te_id e = i \<and>
        map_of (tt_configs t) (te_machine e, te_state e) = Some (te_config e) \<and>
        te_expires_ms e = te_entered_ms e + tc_max_seconds (te_config e) * 1000 \<and>
        (te_expired e \<longrightarrow> te_action e \<noteq> None))"

lemma update_as_map:
  assumes "distinct (map fst xs)" "k \<in> set (map fst xs)"
  shows "AList.update k v xs = map (\<lambda>(j, x). (j, if j = k then v else x)) xs"
  using assms
proof (induction xs)
  case (Cons p xs)
  have "map (\<lambda>(j, x). (j, if j = k then v else x)) xs = xs" if "k \<notin> set (map fst xs)"
    using that by (intro map_idI) (auto simp: rev_image_eqI)
  with Cons show ?case by (cases p) auto
qed simp

lemma ttl_action_given: "ttl_action_value a \<noteq> []"
  by (cases a) simp_all

text \<open>The entries still to sweep are unchanged in the store; those swept are already marked.\<close>

lemma sweep_entries_exact:
  assumes "now \<noteq> 0" "distinct (map fst (done @ todo))" "\<forall>(i, e) \<in> set todo. te_id e = i"
    and "tt_entries t = done @ todo"
    and "sweep_entries now (map snd todo) t s w = (out, t', s', w')"
  shows "out = map (\<lambda>e. (te_id e, snd (expiry_call now e))) (filter (fires now) (map snd todo)) \<and>
    t' = t\<lparr>tt_entries := done @ map (\<lambda>(i, e). (i, swept now e)) todo\<rparr> \<and>
    calls_made (tt_on_expiry t) (map (expiry_call now) (filter (fires now) (map snd todo))) s s'"
  using assms(2-5)
proof (induction todo arbitrary: "done" t s w out t' s' w')
  case Nil
  then show ?case by simp
next
  case (Cons p todo)
  obtain i e where p: "p = (i, e)" by fastforce
  with Cons.prems(2) have i: "te_id e = i" by simp
  have due: "is_expired (Some now) e w = (te_expired e \<or> te_expires_ms e \<le> now, w)"
    using assms(1) by (auto simp: is_expired_def given_ms_def)
  have d: "distinct (map fst ((done @ [(i, swept now e)]) @ todo))" using Cons.prems(1) p by simp
  have ids: "\<forall>(i, e) \<in> set todo. te_id e = i" using Cons.prems(2) by simp
  show ?case
  proof (cases "fires now e")
    case False
    have "sweep_entries now (map snd todo) t s w = (out, t', s', w')"
      using Cons.prems(4) p due False by (simp add: fires_def[symmetric])
    moreover have "tt_entries t = (done @ [(i, swept now e)]) @ todo"
      using Cons.prems(3) p False by (simp add: swept_def)
    ultimately show ?thesis using Cons.IH[OF d ids] p False by (simp add: swept_def)
  next
    case True
    obtain a t1 s1 w1 where x: "execute_expiry_action e now t s w = (a, t1, s1, w1)" by (metis prod_cases4)
    obtain out1 t2 s2 w2 where r: "sweep_entries now (map snd todo) t1 s1 w1 = (out1, t2, s2, w2)"
      by (metis prod_cases4)
    have res: "out = (i, a) # out1" "t' = t2" "s' = s2"
      using Cons.prems(4) p due True x r i by (simp_all add: fires_def[symmetric])
    have "AList.update i (fire_entry now e) (done @ p # todo) =
        map (\<lambda>(j, x). (j, if j = i then fire_entry now e else x)) (done @ p # todo)"
      using Cons.prems(1) p by (intro update_as_map) auto
    also have "\<dots> = (done @ [(i, swept now e)]) @ todo"
    proof -
      have "map (\<lambda>(j, x). (j, if j = i then fire_entry now e else x)) xs = xs" if "i \<notin> fst ` set xs" for xs
        using that by (intro map_idI) (auto simp: rev_image_eqI)
      then show ?thesis using Cons.prems(1) p True by (simp add: swept_def)
    qed
    finally have t1: "t1 = t\<lparr>tt_entries := (done @ [(i, swept now e)]) @ todo\<rparr>"
      "a = snd (expiry_call now e)"
      using x i Cons.prems(3)
      by (auto simp: execute_expiry_action_def Let_def expiry_call_def split: option.splits prod.splits)
    have cb: "calls_made (tt_on_expiry t) (expiry_call now e # cs) s s'" if "calls_made (tt_on_expiry t) cs s1 s'" for cs
    proof (cases "tt_on_expiry t")
      case None
      then have "s1 = s" using x by (auto simp: execute_expiry_action_def Let_def)
      with None that show ?thesis by (simp add: calls_made_none)
    next
      case (Some f)
      then have "\<exists>v. fst (f (fst (expiry_call now e)) (snd (expiry_call now e)) s v) = s1"
        using x by (auto simp: execute_expiry_action_def Let_def expiry_call_def split: prod.splits) (metis fst_conv)
      with Some that show ?thesis by auto
    qed
    have te: "tt_entries t1 = (done @ [(i, swept now e)]) @ todo" "tt_on_expiry t1 = tt_on_expiry t"
      using t1 by simp_all
    from Cons.IH[OF d ids te(1) r] te(2) res t1 cb p True i show ?thesis by simp
  qed
qed

section \<open>Histories\<close>

inductive ttl_step :: "'s ttl_enforcer \<Rightarrow> 's ttl_enforcer \<Rightarrow> bool" where
  registered: "register_entry m obj st time t w = (e, t', w') \<Longrightarrow> ttl_step t t'"
| swept: "sweep_expired time t s w = (out, t', s', w') \<Longrightarrow> ttl_step t t'"
| marked: "mark_action_taken i a time t w = (ok, t', w') \<Longrightarrow> ttl_step t t'"
| started: "ttl_step t (start_daemon_sweep interval t)"

inductive ttl_reachable :: "'s ttl_enforcer \<Rightarrow> bool" where
  start: "(\<forall>(k, c) \<in> set (tt_configs (ttl_new cfg audit cb)). k = (tc_machine c, tc_state c)) \<Longrightarrow>
    ttl_reachable (ttl_new cfg audit cb)"
| step: "ttl_reachable t \<Longrightarrow> ttl_step t t' \<Longrightarrow> ttl_reachable t'"

lemma update_distinct: "distinct (map fst xs) \<Longrightarrow> distinct (map fst (AList.update k v xs))"
  by (rule distinct_update)

lemma ttl_inv_update:
  assumes "ttl_inv t" "te_id e = i" "map_of (tt_configs t) (te_machine e, te_state e) = Some (te_config e)"
    and "te_expires_ms e = te_entered_ms e + tc_max_seconds (te_config e) * 1000"
    and "te_expired e \<Longrightarrow> te_action e \<noteq> None"
  shows "ttl_inv (t\<lparr>tt_entries := AList.update i e (tt_entries t)\<rparr>)"
proof -
  have "set (AList.update i e (tt_entries t)) \<subseteq> insert (i, e) (set (tt_entries t))"
    by (rule update_set_subset)
  with assms show ?thesis unfolding ttl_inv_def by (auto simp: distinct_update)
qed

lemma ttl_inv_fire:
  assumes "ttl_inv t" "(i, e) \<in> set (tt_entries t)"
  shows "ttl_inv (t\<lparr>tt_entries := AList.update i (fire_entry now e) (tt_entries t)\<rparr>)"
  by (rule ttl_inv_update[OF assms(1)]) (use assms in \<open>auto simp: ttl_inv_def fire_entry_def\<close>)

lemma swept_keeps:
  "te_id (swept now e) = te_id e" "te_machine (swept now e) = te_machine e"
  "te_state (swept now e) = te_state e" "te_config (swept now e) = te_config e"
  "te_entered_ms (swept now e) = te_entered_ms e" "te_expires_ms (swept now e) = te_expires_ms e"
  by (simp_all add: swept_def fire_entry_def)

lemma swept_marked: "(te_expired e \<longrightarrow> te_action e \<noteq> None) \<Longrightarrow>
    te_expired (swept now e) \<longrightarrow> te_action (swept now e) \<noteq> None"
  by (simp add: swept_def fire_entry_def)

lemma ttl_inv_map:
  assumes "ttl_inv t"
  shows "ttl_inv (t\<lparr>tt_entries := map (\<lambda>(i, e). (i, swept now e)) (tt_entries t)\<rparr>)"
proof -
  have fst: "map fst (map (\<lambda>(i, e). (i, swept now e)) xs) = map fst xs" for xs :: "(string \<times> TTLEntry) list"
    by (induction xs) auto
  show ?thesis
    unfolding ttl_inv_def
  proof (intro conjI ballI)
    show "distinct (map fst (tt_entries (t\<lparr>tt_entries := map (\<lambda>(i, e). (i, swept now e)) (tt_entries t)\<rparr>)))"
      using assms fst[of "tt_entries t"] unfolding ttl_inv_def by (simp del: map_map)
  next
    fix p
    assume "p \<in> set (tt_entries (t\<lparr>tt_entries := map (\<lambda>(i, e). (i, swept now e)) (tt_entries t)\<rparr>))"
    then obtain i e where p: "p = (i, swept now e)" "(i, e) \<in> set (tt_entries t)" by auto
    with assms show "case p of (i, e) \<Rightarrow> te_id e = i \<and>
        map_of (tt_configs (t\<lparr>tt_entries := map (\<lambda>(i, e). (i, swept now e)) (tt_entries t)\<rparr>))
          (te_machine e, te_state e) = Some (te_config e) \<and>
        te_expires_ms e = te_entered_ms e + tc_max_seconds (te_config e) * 1000 \<and>
        (te_expired e \<longrightarrow> te_action e \<noteq> None)"
      using swept_marked[of e now] by (auto simp: ttl_inv_def swept_keeps)
  qed
qed

lemma sweep_expired_exact:
  assumes "ttl_inv t" "n \<noteq> 0" "sweep_expired (Some n) t s w = (out, t', s', w')"
  shows "out = map (\<lambda>e. (te_id e, snd (expiry_call n e))) (filter (fires n) (map snd (tt_entries t))) \<and>
    t' = t\<lparr>tt_entries := map (\<lambda>(i, e). (i, swept n e)) (tt_entries t)\<rparr> \<and>
    calls_made (tt_on_expiry t) (map (expiry_call n) (filter (fires n) (map snd (tt_entries t)))) s s'"
proof -
  have "distinct (map fst ([] @ tt_entries t))" "\<forall>(i, e) \<in> set (tt_entries t). te_id e = i"
    using assms(1) by (auto simp: ttl_inv_def)
  moreover have "sweep_entries n (map snd (tt_entries t)) t s w = (out, t', s', w')"
    using assms(2,3) by (simp add: sweep_expired_def given_ms_def)
  ultimately show ?thesis
    using sweep_entries_exact[of n "[]" "tt_entries t" t s w out t' s' w'] assms(2) by simp
qed

text \<open>A sweep whose clock reads 0 reads it again for each entry: the invariant holds all the same.\<close>

lemma ttl_inv_sweep_entries:
  assumes "sweep_entries now es t s w = (out, t', s', w')" "ttl_inv t"
    and "\<And>e. e \<in> set es \<Longrightarrow> map_of (tt_configs t) (te_machine e, te_state e) = Some (te_config e) \<and>
      te_expires_ms e = te_entered_ms e + tc_max_seconds (te_config e) * 1000"
  shows "ttl_inv t'"
  using assms
proof (induction es arbitrary: t s w out t' s' w')
  case (Cons e es)
  obtain due w1 where d: "is_expired (Some now) e w = (due, w1)" by fastforce
  obtain a t1 s1 w2 where x: "execute_expiry_action e now t s w1 = (a, t1, s1, w2)" by (metis prod_cases4)
  have t1: "t1 = t\<lparr>tt_entries := AList.update (te_id e) (fire_entry now e) (tt_entries t)\<rparr>"
    using x by (auto simp: execute_expiry_action_def Let_def split: prod.splits)
  show ?case
  proof (cases "due \<and> \<not> str_given (te_action e)")
    case True
    obtain o1 t2 s2 w3 where r: "sweep_entries now es t1 s1 w2 = (o1, t2, s2, w3)" by (metis prod_cases4)
    have "t' = t2" using Cons.prems(1) d True x r by simp
    moreover have "ttl_inv t1"
      unfolding t1 by (rule ttl_inv_update[OF Cons.prems(2)]) (use Cons.prems(3)[of e] in \<open>auto simp: fire_entry_def\<close>)
    ultimately show ?thesis using Cons.IH[OF r] Cons.prems(3) t1 by simp
  next
    case False
    then have "sweep_entries now es t s w1 = (out, t', s', w')" using Cons.prems(1) d by auto
    from Cons.IH[OF this Cons.prems(2)] Cons.prems(3) show ?thesis by simp
  qed
qed simp

lemma ttl_reachable_inv: "ttl_reachable t \<Longrightarrow> ttl_inv t"
proof (induction rule: ttl_reachable.induct)
  case (start cfg audit cb)
  then show ?case by (simp add: ttl_new_def ttl_inv_def)
next
  case (step t t')
  from step.hyps(2) step.IH show ?case
  proof cases
    case (registered m obj st time w e w')
    show ?thesis
    proof (cases "map_of (tt_configs t) (m, st)")
      case None
      then show ?thesis using registered step.IH by (simp add: register_entry_def)
    next
      case (Some c)
      obtain now w1 where n: "given_ms time w = (now, w1)" by fastforce
      obtain h w2 where h: "fresh_hex w1 = (h, w2)" by fastforce
      let ?e = "\<lparr>te_id = uuid_str h, te_machine = m, te_object = obj, te_state = st,
                    te_entered_ms = now, te_expires_ms = now + tc_max_seconds c * 1000, te_config = c,
                    te_expired = False, te_action = None, te_action_ms = None\<rparr>"
      have "ttl_inv (t\<lparr>tt_entries := AList.update (te_id ?e) ?e (tt_entries t)\<rparr>)"
        by (rule ttl_inv_update[OF step.IH]) (simp_all add: Some)
      then show ?thesis using registered Some n h by (auto simp: register_entry_def Let_def ttl_inv_def)
    qed
  next
    case (swept time s w out s' w')
    then obtain now w1 where "sweep_entries now (map snd (tt_entries t)) t s w1 = (out, t', s', w')"
      by (auto simp: sweep_expired_def split: prod.splits)
    then show ?thesis
    proof (rule ttl_inv_sweep_entries[OF _ step.IH])
      fix e
      assume "e \<in> set (map snd (tt_entries t))"
      with step.IH show "map_of (tt_configs t) (te_machine e, te_state e) = Some (te_config e) \<and>
          te_expires_ms e = te_entered_ms e + tc_max_seconds (te_config e) * 1000"
        by (auto simp: ttl_inv_def)
    qed
  next
    case (marked i a time w ok w')
    show ?thesis
    proof (cases "map_of (tt_entries t) i")
      case None
      then show ?thesis using marked step.IH by (auto simp: mark_action_taken_def split: prod.splits)
    next
      case (Some e)
      obtain now w1 where n: "given_ms time w = (now, w1)" by fastforce
      have e: "(i, e) \<in> set (tt_entries t)" using Some by (rule map_of_SomeD)
      have "ttl_inv (t\<lparr>tt_entries := AList.update i (e\<lparr>te_action := Some a, te_action_ms := Some now\<rparr>) (tt_entries t)\<rparr>)"
        by (rule ttl_inv_update[OF step.IH]) (use step.IH e in \<open>auto simp: ttl_inv_def\<close>)
      then show ?thesis using marked Some n by (auto simp: mark_action_taken_def Let_def)
    qed
  next
    case started
    then show ?thesis using step.IH by (simp add: start_daemon_sweep_def ttl_inv_def)
  qed
qed

section \<open>Runs of sweeps\<close>

fun run_sweeps ::
  "int list \<Rightarrow> 's ttl_enforcer \<Rightarrow> 's \<Rightarrow> world \<Rightarrow> (string \<times> string) list \<times> 's ttl_enforcer \<times> 's \<times> world" where
  "run_sweeps [] t s w = ([], t, s, w)"
| "run_sweeps (n # ns) t s w =
     (let (out, t1, s1, w1) = sweep_expired (Some n) t s w;
          (outs, t2, s2, w2) = run_sweeps ns t1 s1 w1
      in (out @ outs, t2, s2, w2))"

lemma fires_swept: "fires m (swept n e) \<longleftrightarrow> \<not> fires n e \<and> fires m e"
  by (auto simp: swept_def fires_def fire_entry_def str_given_def ttl_action_given)

lemma ttl_inv_ids:
  assumes "ttl_inv t"
  shows "map te_id (map snd (tt_entries t)) = map fst (tt_entries t)"
  using assms by (auto simp: ttl_inv_def)

definition due_actions :: "int list \<Rightarrow> 's ttl_enforcer \<Rightarrow> (string \<times> string) set" where
  "due_actions ns t = {(i, ttl_action_value (tc_action (te_config e))) | i e.
     (i, e) \<in> set (tt_entries t) \<and> (\<exists>n \<in> set ns. fires n e)}"

lemma sweep_fires:
  assumes "ttl_inv t" "n \<noteq> 0" "sweep_expired (Some n) t s w = (out, t', s', w')"
  shows "set out = due_actions [n] t" "distinct (map fst out)"
    "due_actions (n # ns) t = due_actions [n] t \<union> due_actions ns t'"
    "due_actions ns t' = {(i, ttl_action_value (tc_action (te_config e))) | i e.
      (i, e) \<in> set (tt_entries t) \<and> \<not> fires n e \<and> (\<exists>m \<in> set ns. fires m e)}"
    "ttl_inv t'"
proof -
  have out: "out = map (\<lambda>e. (te_id e, ttl_action_value (tc_action (te_config e))))
      (filter (fires n) (map snd (tt_entries t)))"
    and t': "t' = t\<lparr>tt_entries := map (\<lambda>(i, e). (i, swept n e)) (tt_entries t)\<rparr>"
    using sweep_expired_exact[OF assms] by (simp_all add: expiry_call_def)
  have ids: "te_id e = i" if "(i, e) \<in> set (tt_entries t)" for i e
    using assms(1) that by (auto simp: ttl_inv_def)
  show "set out = due_actions [n] t"
    unfolding out due_actions_def using ids by force
  have "distinct (map te_id (map snd (tt_entries t)))"
    unfolding ttl_inv_ids[OF assms(1)] using assms(1) by (simp add: ttl_inv_def)
  then have "distinct (map te_id (filter (fires n) (map snd (tt_entries t))))" by (rule distinct_map_filter)
  then show "distinct (map fst out)" unfolding out by (simp add: comp_def)
  show 4: "due_actions ns t' = {(i, ttl_action_value (tc_action (te_config e))) | i e.
      (i, e) \<in> set (tt_entries t) \<and> \<not> fires n e \<and> (\<exists>m \<in> set ns. fires m e)}"
  proof -
    have "(i, x) \<in> set (tt_entries t') \<longleftrightarrow> (\<exists>e. (i, e) \<in> set (tt_entries t) \<and> x = swept n e)" for i x
      unfolding t' by force
    then show ?thesis unfolding due_actions_def by (auto simp: fires_swept swept_keeps) (metis fires_swept swept_keeps(4))+
  qed
  show "due_actions (n # ns) t = due_actions [n] t \<union> due_actions ns t'"
    unfolding 4 unfolding due_actions_def by simp blast
  show "ttl_inv t'" unfolding t' by (rule ttl_inv_map[OF assms(1)])
qed

lemma run_sweeps_exact:
  assumes "ttl_inv t" "0 \<notin> set ns" "run_sweeps ns t s w = (out, t', s', w')"
  shows "set out = due_actions ns t \<and> distinct (map fst out) \<and> ttl_inv t'"
  using assms
proof (induction ns arbitrary: t s w out)
  case Nil
  then show ?case by (simp add: due_actions_def)
next
  case (Cons n ns)
  obtain o1 t1 s1 w1 where a: "sweep_expired (Some n) t s w = (o1, t1, s1, w1)" by (metis prod_cases4)
  obtain o2 t2 s2 w2 where b: "run_sweeps ns t1 s1 w1 = (o2, t2, s2, w2)" by (metis prod_cases4)
  have n: "n \<noteq> 0" "0 \<notin> set ns" using Cons.prems(2) by auto
  note sw = sweep_fires(1,2,5)[OF Cons.prems(1) n(1) a]
    and parts = sweep_fires(3,4)[OF Cons.prems(1) n(1) a, of ns]
  have res: "out = o1 @ o2" "t' = t2" "s' = s2" "w' = w2" using Cons.prems(3) a b by simp_all
  from Cons.IH[OF sw(3) n(2)] b res
  have ih: "set o2 = due_actions ns t1" "distinct (map fst o2)" "ttl_inv t'" by simp_all
  have "distinct (map fst (tt_entries t))" using Cons.prems(1) by (simp add: ttl_inv_def)
  then have "e = e'" if "(i, e) \<in> set (tt_entries t)" "(i, e') \<in> set (tt_entries t)" for i e e'
    using that by (rule eq_key_imp_eq_value)
  then have "fst ` set o1 \<inter> fst ` set o2 = {}"
    unfolding sw(1) ih(1) parts(2) by (fastforce simp: due_actions_def)
  then show ?case using res sw(1,2) parts(1) ih by (auto simp: image_Un)
qed

text \<open>The calls of a whole run, in order: each entry as it stood at the start, marked.\<close>

lemma calls_made_append:
  "calls_made f (as @ bs) s s' \<longleftrightarrow> (\<exists>u. calls_made f as s u \<and> calls_made f bs u s')"
proof (cases f)
  case None
  then show ?thesis by (auto simp: calls_made_none)
next
  case (Some g)
  show ?thesis
  proof (induction as arbitrary: s)
    case (Cons c as)
    then show ?case using Some by simp blast
  qed simp
qed

lemma run_sweeps_calls:
  assumes "ttl_inv t" "0 \<notin> set ns" "run_sweeps ns t s w = (out, t', s', w')"
  shows "\<exists>cs. calls_made (tt_on_expiry t) cs s s' \<and> map (\<lambda>c. (te_id (fst c), snd c)) cs = out \<and>
    (\<forall>c \<in> set cs. \<exists>i e n. (i, e) \<in> set (tt_entries t) \<and> fires n e \<and> c = expiry_call n e)"
  using assms
proof (induction ns arbitrary: t s w out)
  case (Cons n ns)
  obtain o1 t1 s1 w1 where a: "sweep_expired (Some n) t s w = (o1, t1, s1, w1)" by (metis prod_cases4)
  obtain o2 t2 s2 w2 where b: "run_sweeps ns t1 s1 w1 = (o2, t2, s2, w2)" by (metis prod_cases4)
  have n: "n \<noteq> 0" "0 \<notin> set ns" using Cons.prems(2) by auto
  have res: "out = o1 @ o2" "t' = t2" "s' = s2" "w' = w2" using Cons.prems(3) a b by simp_all
  let ?due = "filter (fires n) (map snd (tt_entries t))"
  have ex: "o1 = map (\<lambda>e. (te_id e, snd (expiry_call n e))) ?due"
    "t1 = t\<lparr>tt_entries := map (\<lambda>(i, e). (i, swept n e)) (tt_entries t)\<rparr>"
    "calls_made (tt_on_expiry t) (map (expiry_call n) ?due) s s1"
    using sweep_expired_exact[OF Cons.prems(1) n(1) a] by simp_all
  from Cons.IH[OF sweep_fires(5)[OF Cons.prems(1) n(1) a] n(2) b[folded res(2-4)]] obtain cs where
    cs: "calls_made (tt_on_expiry t1) cs s1 s'" "map (\<lambda>c. (te_id (fst c), snd c)) cs = o2"
    "\<forall>c \<in> set cs. \<exists>i e m. (i, e) \<in> set (tt_entries t1) \<and> fires m e \<and> c = expiry_call m e" by blast
  have orig: "\<exists>i e m. (i, e) \<in> set (tt_entries t) \<and> fires m e \<and> c = expiry_call m e" if c: "c \<in> set cs" for c
  proof -
    obtain i x m where x: "(i, x) \<in> set (tt_entries t1)" "fires m x" "c = expiry_call m x"
      using cs(3) c by blast
    then obtain e where e: "(i, e) \<in> set (tt_entries t)" "x = swept n e" using ex(2) by auto
    with x(2) have "\<not> fires n e" by (simp add: fires_swept)
    with e x show ?thesis by (auto simp: swept_def)
  qed
  have "tt_on_expiry t1 = tt_on_expiry t" by (simp add: ex(2))
  then have "calls_made (tt_on_expiry t) (map (expiry_call n) ?due @ cs) s s'"
    unfolding calls_made_append using ex(3) cs(1) by (intro exI[of _ s1] conjI) simp_all
  moreover have "te_id (fst (expiry_call n e)) = te_id e" for e by (simp add: expiry_call_def fire_entry_def)
  then have "map (\<lambda>c. (te_id (fst c), snd c)) (map (expiry_call n) ?due @ cs) = out"
    unfolding res(1) cs(2)[symmetric] ex(1) by simp
  moreover have "\<forall>c \<in> set (map (expiry_call n) ?due @ cs). \<exists>i e m. (i, e) \<in> set (tt_entries t) \<and>
      fires m e \<and> c = expiry_call m e"
  proof
    fix c
    assume "c \<in> set (map (expiry_call n) ?due @ cs)"
    then consider "c \<in> set cs" | i e where "(i, e) \<in> set (tt_entries t)" "fires n e" "c = expiry_call n e" by auto
    then show "\<exists>i e m. (i, e) \<in> set (tt_entries t) \<and> fires m e \<and> c = expiry_call m e"
      using orig by cases blast+
  qed
  ultimately show ?case by blast
qed simp

section \<open>An enforcer for the witnesses\<close>

definition demo_ttl :: "unit ttl_enforcer" where
  "demo_ttl = fst (snd (register_entry ''DecisionLease'' ''L1'' ''BRIDGED'' (Some 1000) (ttl_new None False None)
     (sample_world 9)))"

definition demo_ttl_entry :: TTLEntry where
  "demo_ttl_entry = the (fst (register_entry ''DecisionLease'' ''L1'' ''BRIDGED'' (Some 1000)
     (ttl_new None False None :: unit ttl_enforcer) (sample_world 9)))"

lemma demo_ttl_reachable: "ttl_reachable demo_ttl"
proof -
  obtain e t w where r: "register_entry ''DecisionLease'' ''L1'' ''BRIDGED'' (Some 1000)
      (ttl_new None False None :: unit ttl_enforcer) (sample_world 9) = (e, t, w)" by (metis prod_cases3)
  have "ttl_reachable (ttl_new None False None :: unit ttl_enforcer)"
    by (rule ttl_reachable.start) (simp add: ttl_new_def default_ttl_configs_def ttl_config_def)
  then have "ttl_reachable t" using r by (blast intro: ttl_reachable.step ttl_step.registered)
  then show ?thesis using r by (simp add: demo_ttl_def)
qed

lemma demo_ttl_entries:
  "tt_entries demo_ttl = [(te_id demo_ttl_entry, demo_ttl_entry)]"
  "te_expires_ms demo_ttl_entry = 61000" "te_action demo_ttl_entry = None" "\<not> te_expired demo_ttl_entry"
  "tc_action (te_config demo_ttl_entry) = TA_AUTO_EXPIRE"
  by (simp_all add: demo_ttl_def demo_ttl_entry_def register_entry_def ttl_new_def default_ttl_configs_def
      ttl_config_def given_ms_def Let_def split: prod.splits)

section \<open>Properties\<close>

text \<open>C12: An expiry action is executed once and only once. Over any run of sweeps, at whatever times other
  than 0 and in whatever order, the entries reported as acted on are exactly those that some sweep finds due and not
  yet marked, each with the action of its rule, and no entry is acted on twice.\<close>

theorem ttl_fires_once:
  assumes "ttl_reachable t" "0 \<notin> set ns" "run_sweeps ns t s w = (out, t', s', w')"
  shows "distinct (map fst out) \<and>
    set out = {(i, ttl_action_value (tc_action (te_config e))) | i e.
      (i, e) \<in> set (tt_entries t) \<and>
      (\<exists>n \<in> set ns. (te_expired e \<or> te_expires_ms e \<le> n) \<and> \<not> str_given (te_action e))}"
  using run_sweeps_exact[OF ttl_reachable_inv[OF assms(1)] assms(2,3)]
  unfolding due_actions_def fires_def by simp

lemma ttl_fires_once_witness:
  "set (fst (run_sweeps [5000, 70000, 80000] demo_ttl () (sample_world 3))) = {(te_id demo_ttl_entry, ''auto_expire'')}"
proof -
  obtain out t s w where r: "run_sweeps [5000, 70000, 80000] demo_ttl () (sample_world 3) = (out, t, s, w)"
    by (metis prod_cases4)
  from ttl_fires_once[OF demo_ttl_reachable _ r] show ?thesis
    unfolding r by (simp add: demo_ttl_entries str_given_def)
qed

text \<open>An entry marked by hand is outside the enforcement: once
  \<open>mark_action_taken\<close> has recorded any non-empty action, even before the expiry, no
  sweep acts on it or calls the callback for it.\<close>

theorem ttl_marked_never_fires:
  assumes "ttl_reachable t" "(i, e) \<in> set (tt_entries t)" "a \<noteq> []"
    and "mark_action_taken i a time t w = (ok, t1, w1)" "0 \<notin> set ns"
    and "run_sweeps ns t1 s w1 = (out, t', s', w')"
  shows "ok \<and> i \<notin> fst ` set out"
proof -
  have d: "distinct (map fst (tt_entries t))" using ttl_reachable_inv[OF assms(1)] by (simp add: ttl_inv_def)
  then have e: "map_of (tt_entries t) i = Some e" using assms(2) by simp
  obtain now w2 where n: "given_ms time w = (now, w2)" by fastforce
  have t1: "ok" "t1 = t\<lparr>tt_entries := AList.update i (e\<lparr>te_action := Some a, te_action_ms := Some now\<rparr>) (tt_entries t)\<rparr>"
    using assms(4) e n by (simp_all add: mark_action_taken_def Let_def)
  have "ttl_reachable t1" using assms(1,4) by (blast intro: ttl_reachable.step ttl_step.marked)
  then have inv: "ttl_inv t1" by (rule ttl_reachable_inv)
  have "x = e\<lparr>te_action := Some a, te_action_ms := Some now\<rparr>" if "(i, x) \<in> set (tt_entries t1)" for x
  proof -
    have "map_of (tt_entries t1) i = Some x" using inv that by (simp add: ttl_inv_def)
    then show ?thesis using t1(2) by (simp add: update_Some_unfold)
  qed
  then have "i \<notin> fst ` due_actions ns t1"
    using assms(3) by (fastforce simp: due_actions_def fires_def str_given_def)
  then show ?thesis using run_sweeps_exact[OF inv assms(5,6)] t1(1) by simp
qed

lemma ttl_marked_never_fires_witness:
  "\<exists>ok t1 w1. mark_action_taken (te_id demo_ttl_entry) ''seen'' (Some 2000) demo_ttl (sample_world 3) = (ok, t1, w1) \<and>
     ok \<and> te_id demo_ttl_entry \<notin> fst ` set (fst (run_sweeps [5000, 70000, 80000] t1 () w1))"
proof -
  obtain ok t1 w1 where m: "mark_action_taken (te_id demo_ttl_entry) ''seen'' (Some 2000) demo_ttl (sample_world 3) = (ok, t1, w1)"
    by (metis prod_cases3)
  obtain out t s w where r: "run_sweeps [5000, 70000, 80000] t1 () w1 = (out, t, s, w)" by (metis prod_cases4)
  have "(te_id demo_ttl_entry, demo_ttl_entry) \<in> set (tt_entries demo_ttl)" by (simp add: demo_ttl_entries)
  from ttl_marked_never_fires[OF demo_ttl_reachable this _ m _ r]
  have "ok \<and> te_id demo_ttl_entry \<notin> fst ` set (fst (run_sweeps [5000, 70000, 80000] t1 () w1))"
    unfolding r by simp
  with m show ?thesis by blast
qed

end
