(* ===== verification/Gov_Wiring.thy ===== *)
theory Gov_Wiring
  imports Gov_Reach Incident_Policy TTL_Enforcer
begin

text \<open>
  The governance wiring of the application (\<open>app/paper_trading_wiring.py\<close>): the incident policy
  with the hub's three handlers as its callbacks, and the expiry callback that the time-to-live
  enforcer runs on the hub. None of the handlers raises: each catches what it meets.
\<close>

section \<open>The incident policy on the hub\<close>

definition handle_incident_operator_alert :: "pydict \<Rightarrow> hub \<Rightarrow> world \<Rightarrow> hub \<times> world" where
  "handle_incident_operator_alert context h w = (h, w)"

definition wired_policy :: "(pyval \<Rightarrow> string) \<Rightarrow> hub incident_policy" where
  "wired_policy other = policy_new True
     (Some (\<lambda>action ctx h w. (True, handle_incident_auth_action other action ctx h w)))
     (Some (\<lambda>action ctx h w. (True, handle_incident_risk_action other action ctx h w)))
     (Some (\<lambda>ctx h w. (True, handle_incident_operator_alert ctx h w)))"

section \<open>The expiry callback\<close>

text \<open>The callback works on the hub and the module's count of enforcement failures. Log and
  alert messages are left out.\<close>

type_synonym ttl_world = "hub \<times> nat"

definition ttl_reason :: "string \<Rightarrow> string" where
  "ttl_reason action = ''TTL expired: '' @ action"

definition ttl_expiry_callback :: "TTLEntry \<Rightarrow> string \<Rightarrow> ttl_world \<Rightarrow> world \<Rightarrow> ttl_world \<times> world" where
  "ttl_expiry_callback e action s w =
     (let (h, n) = s in
      if te_machine e = ''Authorization'' then
        (if action = ''auto_reject'' then
           (let (h1, w1) = ensure_initialized h w in
            case h_auth h1 of
              None \<Rightarrow> ((h1, n), w1)
            | Some sm \<Rightarrow>
                (case auth_reject (te_object e) (ttl_reason action) sm w1 of
                   (Inl x, sm1, w2) \<Rightarrow> ((h1\<lparr>h_auth := Some sm1\<rparr>, Suc n), w2)
                 | (Inr x, sm1, w2) \<Rightarrow> ((h1\<lparr>h_auth := Some sm1\<rparr>, n), w2)))
         else (s, w))
      else if te_machine e = ''DecisionLease'' then
        (if action = ''auto_expire'' then
           (let (h1, w1) = ensure_initialized h w in
            case h_lease h1 of
              None \<Rightarrow> ((h1, n), w1)
            | Some sm \<Rightarrow>
                (case lease_reject (te_object e) (ttl_reason action) sm w1 of
                   (Inl x, sm1, w2) \<Rightarrow> ((h1\<lparr>h_lease := Some sm1\<rparr>, Suc n), w2)
                 | (Inr x, sm1, w2) \<Rightarrow> ((h1\<lparr>h_lease := Some sm1\<rparr>, n), w2)))
         else (s, w))
      else if te_machine e = ''RiskGovernor'' then
        (if action = ''manual_review_required'' \<or> action = ''escalate'' then
           (let (h1, w1) = ensure_initialized h w;
                reason = (if action = ''escalate'' then ''TTL expired: Manual review timeout, escalating''
                  else ''TTL expired: Circuit breaker requires manual review'')
            in case h_risk h1 of
              None \<Rightarrow> ((h1, n), w1)
            | Some r \<Rightarrow>
                (case risk_request_manual_review reason (RI RI_OPERATOR) r w1 of
                   (Inl x, r1, w2) \<Rightarrow> ((h1\<lparr>h_risk := Some r1\<rparr>, Suc n), w2)
                 | (Inr x, r1, w2) \<Rightarrow> ((h1\<lparr>h_risk := Some r1\<rparr>, n), w2)))
         else (s, w))
      else (s, w))"

definition wired_enforcer :: "ttl_world ttl_enforcer" where
  "wired_enforcer = start_daemon_sweep (Fin 5) (ttl_new None True (Some ttl_expiry_callback))"

section \<open>What the incident actions do together\<close>

lemma risk_action_spec:
  assumes "h_enabled h" "h_initialized h" "h_risk h = Some r" "map_of action_to_level a = Some target"
    and "handle_incident_risk_action other a ctx h w = (h', w')"
  obtains r' where "h' = h\<lparr>h_risk := Some r'\<rparr>" "risk_level r' = max (risk_level r) target"
proof -
  obtain s w1 where s: "risk_get_state r w = (s, w1)" by fastforce
  have l: "g_level s = risk_level r"
    using s gov_post_init_same[of "r_state r" w s w1] by (simp add: risk_get_state_def risk_level_def)
  show ?thesis
  proof (cases "risk_level r < target")
    case False
    then have "h' = h" using assms s l by (simp add: handle_incident_risk_action_def)
    with that[of r] assms(3) False show ?thesis by (simp add: max_def)
  next
    case True
    have "target \<noteq> R_MANUAL_REVIEW"
      using assms(4) by (auto simp: action_to_level_def split: if_splits)
    define c where "c = \<lparr>rc_to = target, rc_event = RE_OPERATOR_ESCALATION, rc_initiator = RI RI_INCIDENT_POLICY,
      rc_reason_codes = Some [''escalation''], rc_approved_by = None, rc_reason = incident_reason other a ctx, rc_metrics = None\<rparr>"
    have "\<exists>copy r' w2. risk_transition c r w1 = (Inr copy, r', w2) \<and> g_level copy = rc_to c \<and>
       risk_level r' = rc_to c \<and> r_thresholds r' = r_thresholds r"
      by (rule risk_escalation_succeeds[where i = RI_INCIDENT_POLICY])
        (use True \<open>target \<noteq> R_MANUAL_REVIEW\<close> in \<open>simp_all add: c_def RG_AUTO_def\<close>)
    then obtain copy r' w2 where t: "risk_transition c r w1 = (Inr copy, r', w2)" "risk_level r' = target"
      by (auto simp: c_def)
    have "risk_escalate_to target (incident_reason other a ctx) RE_OPERATOR_ESCALATION
       (RI RI_INCIDENT_POLICY) None r w1 = (Inr copy, r', w2)"
      using t(1) by (simp add: risk_escalate_to_def c_def)
    then have "h' = h\<lparr>h_risk := Some r'\<rparr>"
      using assms s l True by (simp add: handle_incident_risk_action_def)
    moreover have "max (risk_level r) target = target" using True by (simp add: max_absorb2 less_imp_le)
    ultimately show ?thesis using that[of r'] t(2) by simp
  qed
qed

text \<open>A policy wired as the application wires it, whatever it has processed so far.\<close>

definition wired :: "(pyval \<Rightarrow> string) \<Rightarrow> hub incident_policy \<Rightarrow> bool" where
  "wired other p \<longleftrightarrow> ip_on_auth p = ip_on_auth (wired_policy other) \<and>
     ip_on_risk p = ip_on_risk (wired_policy other) \<and> ip_on_alert p = ip_on_alert (wired_policy other)"

lemma wired_policy_wired: "wired other (wired_policy other)"
  by (simp add: wired_def)

lemma wired_processed: "wired other p \<Longrightarrow> process_event e p h w = (res, p', h', w') \<Longrightarrow> wired other p'"
  by (auto simp: wired_def process_event_def Let_def split: prod.splits)

lemma wired_callbacks:
  assumes "wired other p"
  shows "run_callback (ip_on_auth p) a ctx h w =
      (True, handle_incident_auth_action other (policy_action_value a) ctx h w)"
    "run_callback (ip_on_risk p) a ctx h w =
      (True, handle_incident_risk_action other (policy_action_value a) ctx h w)"
    "execute_action p ctx IA_OPERATOR_ALERT h w = (True, h, w)"
    "execute_action p ctx IA_MANUAL_REVIEW h w = (True, h, w)"
  using assms by (simp_all add: wired_def run_callback_def wired_policy_def policy_new_def
      execute_action_def handle_incident_operator_alert_def)

text \<open>A hub that is shut down: nothing effective, nothing live, and the governor at least at a level.\<close>

definition closed_down :: "RiskLevel \<Rightarrow> hub \<Rightarrow> hub \<Rightarrow> bool" where
  "closed_down l h h' \<longleftrightarrow> shut h' \<and> live_leases h' = [] \<and> machines_ok h' \<and> h_auth h' \<noteq> None \<and>
     h_enabled h' \<and> h_initialized h' \<and> h_mode h' = h_mode h \<and> h_shadow h' = h_shadow h \<and>
     h_callback_errors h' = h_callback_errors h \<and> (\<exists>r. h_risk h' = Some r \<and> l \<le> risk_level r)"

lemma freeze_closes:
  assumes "machines_ok h" "h_enabled h" "h_initialized h" "h_auth h \<noteq> None"
    and "handle_incident_auth_action other ''AUTH_FREEZE'' ctx h w = (h', w')" "h_risk h = Some r"
    and "l \<le> risk_level r"
  shows "closed_down l h h'"
proof -
  obtain A L es where h': "h' = h\<lparr>h_auth := Some A, h_cache := None, h_lease := L, h_events := es\<rparr>"
    "shut h'" "live_leases h' = []" "machines_ok h'" using freeze_spec[OF assms(1-5)] by metis
  have frame: "h_auth h' \<noteq> None" "h_enabled h' = h_enabled h" "h_initialized h' = h_initialized h"
    "h_mode h' = h_mode h" "h_shadow h' = h_shadow h" "h_callback_errors h' = h_callback_errors h"
    "h_risk h' = h_risk h"
    by (simp_all add: h'(1))
  show ?thesis
    unfolding closed_down_def frame using h'(2-4) frame(1) assms(2,3,6,7) by simp
qed

lemma risk_keeps_closed:
  assumes "closed_down l0 g h" "map_of action_to_level a = Some l"
    and "handle_incident_risk_action other a ctx h w = (h', w')"
  shows "closed_down (max l0 l) g h'"
proof -
  obtain r where r: "h_risk h = Some r" "l0 \<le> risk_level r" using assms(1) by (auto simp: closed_down_def)
  obtain r' where "h' = h\<lparr>h_risk := Some r'\<rparr>" "risk_level r' = max (risk_level r) l"
    using risk_action_spec[OF _ _ r(1) assms(2,3)] assms(1) by (auto simp: closed_down_def)
  moreover from this r(2) have "max l0 l \<le> risk_level r'" by (auto simp: le_max_iff_disj)
  ultimately show ?thesis
    using assms(1)
    by (simp add: closed_down_def shut_def effective_auths_def live_leases_def machines_ok_def)
qed

lemma closed_refreezes:
  assumes "closed_down l g h" "handle_incident_auth_action other ''AUTH_FREEZE'' ctx h w = (h', w')"
  shows "closed_down l g h'"
proof -
  obtain r where r: "h_risk h = Some r" "l \<le> risk_level r" using assms(1) by (auto simp: closed_down_def)
  have "closed_down l h h'"
    using assms(1) by (intro freeze_closes[OF _ _ _ _ assms(2) r]) (simp_all add: closed_down_def)
  then show ?thesis using assms(1) by (simp add: closed_down_def)
qed

definition incident_level :: "IncidentSeverity \<Rightarrow> RiskLevel" where
  "incident_level s = (if s = ES_CRITICAL_INCIDENT then R_CIRCUIT_BREAKER else R_DEFENSIVE)"

lemma level_floor: "max R_NORMAL l = l" "R_NORMAL \<le> l"
  by (cases l; simp add: level_order max_def)+

lemma grave_actions_close:
  assumes "wired other p" "ES_INCIDENT \<le> s"
    and "machines_ok h" "h_enabled h" "h_initialized h" "h_auth h \<noteq> None" "h_risk h = Some r"
    and "run_policy_actions p ctx (severity_actions s) h w = (taken, n, h', w')"
  shows "closed_down (incident_level s) h h' \<and> taken = map policy_action_value (severity_actions s) \<and>
    n = length (severity_actions s)"
proof -
  note cb = wired_callbacks[OF assms(1)]
  obtain h1 w1 where f: "handle_incident_auth_action other ''AUTH_FREEZE'' ctx h w = (h1, w1)" by fastforce
  have c1: "closed_down R_NORMAL h h1" by (rule freeze_closes[OF assms(3-6) f assms(7) level_floor(2)])
  consider "s = ES_INCIDENT" | "s = ES_CRITICAL_INCIDENT"
    using assms(2) by (cases s) (simp_all add: event_severity_order)
  then show ?thesis
  proof cases
    case 1
    obtain h2 w2 where g: "handle_incident_risk_action other ''RISK_ESCALATE_DEFENSIVE'' ctx h1 w1 = (h2, w2)"
      by fastforce
    have "closed_down (max R_NORMAL R_DEFENSIVE) h h2"
      by (rule risk_keeps_closed[OF c1 _ g]) (simp add: action_to_level_def)
    moreover have "h' = h2" "taken = map policy_action_value (severity_actions s)" "n = length (severity_actions s)"
      using assms(8) 1 f g cb by (simp_all add: execute_action_def Let_def)
    ultimately show ?thesis using 1 by (simp add: incident_level_def level_floor)
  next
    case 2
    obtain h2 w2 where g: "handle_incident_risk_action other ''RISK_CIRCUIT_BREAKER'' ctx h1 w1 = (h2, w2)"
      by fastforce
    obtain h3 w3 where k: "handle_incident_risk_action other ''RISK_CIRCUIT_BREAKER'' ctx h2 w2 = (h3, w3)"
      by fastforce
    obtain h4 w4 where m: "handle_incident_auth_action other ''AUTH_FREEZE'' ctx h3 w3 = (h4, w4)" by fastforce
    have "closed_down (max R_NORMAL R_CIRCUIT_BREAKER) h h2"
      by (rule risk_keeps_closed[OF c1 _ g]) (simp add: action_to_level_def)
    then have "closed_down (max (max R_NORMAL R_CIRCUIT_BREAKER) R_CIRCUIT_BREAKER) h h3"
      by (rule risk_keeps_closed[OF _ _ k]) (simp add: action_to_level_def)
    then have "closed_down R_CIRCUIT_BREAKER h h4"
      using closed_refreezes[OF _ m] by (simp add: level_floor)
    moreover have "h' = h4" "taken = map policy_action_value (severity_actions s)" "n = length (severity_actions s)"
      using assms(8) 2 f g k m cb by (simp_all add: execute_action_def Let_def)
    ultimately show ?thesis using 2 by (simp add: incident_level_def)
  qed
qed

section \<open>What an expiry does\<close>

text \<open>The guards alone decide a call on a stored object.\<close>

context object_machine
begin

lemma call_view:
  assumes "transition c sm w = (r, sm', w')"
  shows "states_of st sm' = lifecycle cls c (states_of st sm)"
    "isl r \<longleftrightarrow> (\<forall>s. states_of st sm (c_id c) = Some s \<longrightarrow>
      \<not> permitted cls s (c_to c) (c_initiator c) (c_approved_by c))"
proof -
  show "states_of st sm' = lifecycle cls c (states_of st sm)"
    using refines_step[of c sm w] assms by simp
  show "isl r \<longleftrightarrow> (\<forall>s. states_of st sm (c_id c) = Some s \<longrightarrow>
      \<not> permitted cls s (c_to c) (c_initiator c) (c_approved_by c))"
  proof (cases r)
    case (Inl e)
    with complete[of c sm _ w] assms show ?thesis by (fastforce simp: states_of_def)
  next
    case (Inr x)
    with accepted[of c sm w x sm' w'] assms show ?thesis by (auto simp: states_of_def)
  qed
qed

end

lemma lease_permitted_reject:
  "permitted lease_class f L_REJECTED LI_I_CONTROL_PLANE None \<longleftrightarrow> f \<in> {L_DRAFT, L_REGISTERED, L_ACTIVE}"
  by (cases f; simp add: lease_permitted)

lemma auth_permitted_reject:
  "permitted auth_class f A_REJECTED AI_OPERATOR None \<longleftrightarrow> f \<in> {A_DRAFT, A_PENDING_APPROVAL}"
  by (cases f; simp add: auth_permitted auth_groups)

text \<open>
  The abstract view of what the expiry callback works on: the states of the authorizations and
  the leases, the level of the governor, and the count of failures.
\<close>

record ttl_view =
  y_auths :: "string \<Rightarrow> AuthState option"
  y_leases :: "string \<Rightarrow> LeaseState option"
  y_level :: RiskLevel
  y_failures :: nat

definition view_of :: "ttl_world \<Rightarrow> ttl_view" where
  "view_of s = (let (h, n) = s in
     \<lparr>y_auths = states_of a_state (the (h_auth h)), y_leases = states_of l_state (the (h_lease h)),
      y_level = risk_level (the (h_risk h)), y_failures = n\<rparr>)"

definition ready :: "ttl_world \<Rightarrow> bool" where
  "ready s \<longleftrightarrow> h_initialized (fst s) \<and> h_auth (fst s) \<noteq> None \<and> h_lease (fst s) \<noteq> None \<and> h_risk (fst s) \<noteq> None"

text \<open>The three kinds of expiry that touch the hub, and what one expiry does to the view.\<close>

definition hits_auth :: "TTLEntry \<times> string \<Rightarrow> bool" where
  "hits_auth c \<longleftrightarrow> te_machine (fst c) = ''Authorization'' \<and> snd c = ''auto_reject''"

definition hits_lease :: "TTLEntry \<times> string \<Rightarrow> bool" where
  "hits_lease c \<longleftrightarrow> te_machine (fst c) = ''DecisionLease'' \<and> snd c = ''auto_expire''"

definition hits_risk :: "TTLEntry \<times> string \<Rightarrow> bool" where
  "hits_risk c \<longleftrightarrow> te_machine (fst c) = ''RiskGovernor'' \<and> snd c \<in> {''manual_review_required'', ''escalate''}"

lemma hits_exclusive: "hits_lease c \<Longrightarrow> \<not> hits_auth c" "hits_risk c \<Longrightarrow> \<not> hits_auth c" "hits_risk c \<Longrightarrow> \<not> hits_lease c"
  by (auto simp: hits_auth_def hits_lease_def hits_risk_def)

definition rejectable_auth :: "AuthState option set" where
  "rejectable_auth = {Some A_DRAFT, Some A_PENDING_APPROVAL}"

definition rejectable_lease :: "LeaseState option set" where
  "rejectable_lease = {Some L_DRAFT, Some L_REGISTERED, Some L_ACTIVE}"

definition expiry_step :: "TTLEntry \<times> string \<Rightarrow> ttl_view \<Rightarrow> ttl_view" where
  "expiry_step c y =
     (let k = te_object (fst c) in
      if hits_auth c then
        (if y_auths y k \<in> rejectable_auth then y\<lparr>y_auths := (y_auths y)(k \<mapsto> A_REJECTED)\<rparr>
         else y\<lparr>y_failures := Suc (y_failures y)\<rparr>)
      else if hits_lease c then
        (if y_leases y k \<in> rejectable_lease then y\<lparr>y_leases := (y_leases y)(k \<mapsto> L_REJECTED)\<rparr>
         else y\<lparr>y_failures := Suc (y_failures y)\<rparr>)
      else if hits_risk c then y\<lparr>y_level := R_MANUAL_REVIEW\<rparr>
      else y)"

lemma lease_reject_view:
  assumes "lease_reject lid why sm w = (r, sm', w')"
  shows "states_of l_state sm' =
      (if states_of l_state sm lid \<in> rejectable_lease
       then (states_of l_state sm)(lid \<mapsto> L_REJECTED) else states_of l_state sm)"
    "isl r \<longleftrightarrow> states_of l_state sm lid \<notin> rejectable_lease"
  using lease.call_view[OF assms[unfolded lease_reject_def]]
  by (cases "states_of l_state sm lid"; auto simp: lifecycle_def lease_permitted_reject rejectable_lease_def)+

lemma auth_reject_view:
  assumes "auth_reject aid why sm w = (r, sm', w')"
  shows "states_of a_state sm' =
      (if states_of a_state sm aid \<in> rejectable_auth
       then (states_of a_state sm)(aid \<mapsto> A_REJECTED) else states_of a_state sm)"
    "isl r \<longleftrightarrow> states_of a_state sm aid \<notin> rejectable_auth"
  using auth.call_view[OF assms[unfolded auth_reject_def]]
  by (cases "states_of a_state sm aid"; auto simp: lifecycle_def auth_permitted_reject rejectable_auth_def)+

lemma review_succeeds:
  assumes "risk_request_manual_review why (RI RI_OPERATOR) r w = (res, r', w')"
  shows "risk_level r' = R_MANUAL_REVIEW" "\<not> isl res"
proof -
  define c where "c = \<lparr>rc_to = R_MANUAL_REVIEW, rc_event = RE_OPERATOR_MANUAL_REVIEW, rc_initiator = RI RI_OPERATOR,
      rc_reason_codes = Some [''manual_review_requested''], rc_approved_by = None,
      rc_reason = why, rc_metrics = None\<rparr>"
  have t: "risk_transition c r w = (res, r', w')"
    using assms by (simp add: risk_request_manual_review_def c_def)
  consider "risk_level r = R_MANUAL_REVIEW" | "risk_level r < R_MANUAL_REVIEW"
    by (cases "risk_level r") (simp_all add: level_order)
  then have "risk_level r' = R_MANUAL_REVIEW \<and> \<not> isl res"
  proof cases
    case 1
    obtain copy w1 where k: "gov_post_init (r_state r) w = (copy, w1)" by fastforce
    with t 1 show ?thesis by (auto simp: risk_transition_def c_def risk_level_def)
  next
    case 2
    have "\<exists>copy sm' u. risk_transition c r w = (Inr copy, sm', u) \<and> g_level copy = rc_to c \<and>
        risk_level sm' = rc_to c \<and> r_thresholds sm' = r_thresholds r"
      by (rule risk_escalation_succeeds[where i = RI_OPERATOR]) (use 2 in \<open>simp_all add: c_def RG_OPERATOR_GOV_def\<close>)
    with t show ?thesis by (auto simp: c_def)
  qed
  then show "risk_level r' = R_MANUAL_REVIEW" "\<not> isl res" by simp_all
qed

lemma expiry_refines:
  assumes "ready s" "ttl_expiry_callback e action s w = (s', w')"
  shows "ready s'" "view_of s' = expiry_step (e, action) (view_of s)"
proof -
  obtain h n where s: "s = (h, n)" by fastforce
  obtain A L R where m: "h_auth h = Some A" "h_lease h = Some L" "h_risk h = Some R" "h_initialized h"
    using assms(1) s by (auto simp: ready_def)
  obtain ra A1 wa where a: "auth_reject (te_object e) (ttl_reason action) A w = (ra, A1, wa)" by (metis prod_cases3)
  obtain rl L1 wl where l: "lease_reject (te_object e) (ttl_reason action) L w = (rl, L1, wl)" by (metis prod_cases3)
  let ?why = "if action = ''escalate'' then ''TTL expired: Manual review timeout, escalating''
                  else ''TTL expired: Circuit breaker requires manual review''"
  obtain rr R1 wr where r: "risk_request_manual_review ?why (RI RI_OPERATOR) R w = (rr, R1, wr)"
    by (metis prod_cases3)
  note va = auth_reject_view[OF a] and vl = lease_reject_view[OF l] and vr = review_succeeds[OF r]
  have i: "ensure_initialized h w = (h, w)" using m(4) by (simp add: ensure_initialized_def)
  consider (auth) "hits_auth (e, action)" | (lease) "hits_lease (e, action)" | (risk) "hits_risk (e, action)"
    | (other) "\<not> hits_auth (e, action)" "\<not> hits_lease (e, action)" "\<not> hits_risk (e, action)"
    by blast
  then have "ready s' \<and> view_of s' = expiry_step (e, action) (view_of s)"
  proof cases
    case auth
    then have "s' = (h\<lparr>h_auth := Some A1\<rparr>, if isl ra then Suc n else n)"
      using assms(2) s m(1) a i by (auto simp: hits_auth_def ttl_expiry_callback_def split: sum.splits)
    with auth m s va show ?thesis by (simp add: ready_def view_of_def expiry_step_def)
  next
    case lease
    then have "s' = (h\<lparr>h_lease := Some L1\<rparr>, if isl rl then Suc n else n)"
      using assms(2) s m(2) l i by (auto simp: hits_lease_def ttl_expiry_callback_def split: sum.splits)
    with lease m s vl hits_exclusive(1)[OF lease] show ?thesis
      by (simp add: ready_def view_of_def expiry_step_def)
  next
    case risk
    then have "s' = (h\<lparr>h_risk := Some R1\<rparr>, n)"
      using assms(2) s m(3) r i vr(2) by (auto simp: hits_risk_def ttl_expiry_callback_def split: sum.splits)
    with risk m s vr hits_exclusive(2,3)[OF risk] show ?thesis
      by (simp add: ready_def view_of_def expiry_step_def)
  next
    case other
    then have "s' = s"
      using assms(2) s
      by (auto simp: ttl_expiry_callback_def hits_auth_def hits_lease_def hits_risk_def split: if_splits)
    with other assms(1) show ?thesis by (simp add: expiry_step_def)
  qed
  then show "ready s'" "view_of s' = expiry_step (e, action) (view_of s)" by simp_all
qed

lemma run_refines:
  assumes "ready s" "calls_made (Some ttl_expiry_callback) cs s s'"
  shows "ready s' \<and> view_of s' = fold expiry_step cs (view_of s)"
  using assms
proof (induction cs arbitrary: s)
  case (Cons c cs)
  obtain e a where c: "c = (e, a)" by fastforce
  from Cons.prems(2) c obtain w :: world where
    "calls_made (Some ttl_expiry_callback) cs (fst (ttl_expiry_callback e a s w)) s'" by auto
  moreover obtain u v where u: "ttl_expiry_callback e a s w = (u, v)" by fastforce
  ultimately have "calls_made (Some ttl_expiry_callback) cs u s'" by simp
  from Cons.IH[OF _ this] expiry_refines[OF Cons.prems(1) u] c show ?case by simp
qed simp

lemma step_lease:
  "y_leases (expiry_step c y) k =
     (if hits_lease c \<and> te_object (fst c) = k \<and> y_leases y k \<in> rejectable_lease
      then Some L_REJECTED else y_leases y k)"
  by (cases "hits_lease c") (auto simp: expiry_step_def Let_def hits_exclusive)

lemma step_auth:
  "y_auths (expiry_step c y) k =
     (if hits_auth c \<and> te_object (fst c) = k \<and> y_auths y k \<in> rejectable_auth
      then Some A_REJECTED else y_auths y k)"
  by (auto simp: expiry_step_def Let_def)

lemma step_level: "y_level (expiry_step c y) = (if hits_risk c then R_MANUAL_REVIEW else y_level y)"
  by (cases "hits_risk c") (auto simp: expiry_step_def Let_def hits_exclusive)

lemma step_failures: "y_failures y \<le> y_failures (expiry_step c y)"
  "hits_lease c \<Longrightarrow> y_leases y (te_object (fst c)) \<notin> rejectable_lease \<Longrightarrow>
     y_failures (expiry_step c y) = Suc (y_failures y)"
  by (auto simp: expiry_step_def Let_def hits_exclusive)

lemma rejected_stays: "Some L_REJECTED \<notin> rejectable_lease" "Some A_REJECTED \<notin> rejectable_auth"
  by (simp_all add: rejectable_lease_def rejectable_auth_def)

lemma fold_lease:
  "y_leases (fold expiry_step cs y) k =
     (if y_leases y k \<in> rejectable_lease \<and> (\<exists>c \<in> set cs. hits_lease c \<and> te_object (fst c) = k)
      then Some L_REJECTED else y_leases y k)"
proof (induction cs arbitrary: y)
  case (Cons c cs)
  have IH: "y_leases (fold expiry_step (c # cs) y) k =
     (if y_leases (expiry_step c y) k \<in> rejectable_lease \<and> (\<exists>c \<in> set cs. hits_lease c \<and> te_object (fst c) = k)
      then Some L_REJECTED else y_leases (expiry_step c y) k)"
    by (simp add: Cons.IH)
  show ?case
  proof (cases "hits_lease c \<and> te_object (fst c) = k")
    case True
    then show ?thesis unfolding IH step_lease by (simp add: rejected_stays)
  next
    case False
    then have "(\<exists>c \<in> set (c # cs). hits_lease c \<and> te_object (fst c) = k) \<longleftrightarrow>
        (\<exists>c \<in> set cs. hits_lease c \<and> te_object (fst c) = k)" by auto
    moreover have "y_leases (expiry_step c y) k = y_leases y k" unfolding step_lease using False by auto
    ultimately show ?thesis unfolding IH by (simp only:)
  qed
qed simp

lemma fold_auth:
  "y_auths (fold expiry_step cs y) k =
     (if y_auths y k \<in> rejectable_auth \<and> (\<exists>c \<in> set cs. hits_auth c \<and> te_object (fst c) = k)
      then Some A_REJECTED else y_auths y k)"
proof (induction cs arbitrary: y)
  case (Cons c cs)
  have IH: "y_auths (fold expiry_step (c # cs) y) k =
     (if y_auths (expiry_step c y) k \<in> rejectable_auth \<and> (\<exists>c \<in> set cs. hits_auth c \<and> te_object (fst c) = k)
      then Some A_REJECTED else y_auths (expiry_step c y) k)"
    by (simp add: Cons.IH)
  show ?case
  proof (cases "hits_auth c \<and> te_object (fst c) = k")
    case True
    then show ?thesis unfolding IH step_auth by (simp add: rejected_stays)
  next
    case False
    then have "(\<exists>c \<in> set (c # cs). hits_auth c \<and> te_object (fst c) = k) \<longleftrightarrow>
        (\<exists>c \<in> set cs. hits_auth c \<and> te_object (fst c) = k)" by auto
    moreover have "y_auths (expiry_step c y) k = y_auths y k" unfolding step_auth using False by auto
    ultimately show ?thesis unfolding IH by (simp only:)
  qed
qed simp

lemma fold_level:
  "y_level (fold expiry_step cs y) = (if \<exists>c \<in> set cs. hits_risk c then R_MANUAL_REVIEW else y_level y)"
  by (induction cs arbitrary: y) (auto simp: step_level)

lemma fold_failures: "y_failures y \<le> y_failures (fold expiry_step cs y)"
  by (induction cs arbitrary: y) (auto intro: order_trans[OF step_failures(1)])

lemma fold_failed_lease:
  assumes "c \<in> set cs" "hits_lease c" "y_leases y (te_object (fst c)) \<notin> rejectable_lease"
  shows "y_failures y < y_failures (fold expiry_step cs y)"
proof -
  obtain as bs where cs: "cs = as @ c # bs" using split_list[OF assms(1)] by blast
  let ?z = "fold expiry_step as y"
  have "y_failures (expiry_step c ?z) = Suc (y_failures ?z)"
    using assms by (intro step_failures(2)) (simp_all add: fold_lease)
  then show ?thesis
    using fold_failures[of y as] fold_failures[of "expiry_step c ?z" bs] cs by simp
qed

text \<open>A run of the wired enforcer: its calls, and that a due entry is among them.\<close>

lemma wired_run:
  assumes "ttl_reachable t" "tt_on_expiry t = Some ttl_expiry_callback" "ready s" "0 \<notin> set ns"
    and "run_sweeps ns t s w = (out, t', s', w')"
  obtains cs where "map (\<lambda>c. (te_id (fst c), snd c)) cs = out" "ready s'"
    "view_of s' = fold expiry_step cs (view_of s)"
    "\<And>i e n. (i, e) \<in> set (tt_entries t) \<Longrightarrow> n \<in> set ns \<Longrightarrow> fires n e \<Longrightarrow> \<exists>m. expiry_call m e \<in> set cs"
    "\<And>c. c \<in> set cs \<Longrightarrow> \<exists>i e n. (i, e) \<in> set (tt_entries t) \<and> te_id e = i \<and> c = expiry_call n e"
proof -
  note inv = ttl_reachable_inv[OF assms(1)]
  obtain cs where cs: "calls_made (tt_on_expiry t) cs s s'" "map (\<lambda>c. (te_id (fst c), snd c)) cs = out"
    "\<forall>c \<in> set cs. \<exists>i e n. (i, e) \<in> set (tt_entries t) \<and> fires n e \<and> c = expiry_call n e"
    using run_sweeps_calls[OF inv assms(4,5)] by blast
  have "\<exists>m. expiry_call m e \<in> set cs"
    if "(i, e) \<in> set (tt_entries t)" "n \<in> set ns" "fires n e" for i e n
  proof -
    have "(i, ttl_action_value (tc_action (te_config e))) \<in> set out"
      using run_sweeps_exact[OF inv assms(4,5)] that by (auto simp: due_actions_def)
    then have "i \<in> (\<lambda>c. te_id (fst c)) ` set cs" using cs(2) by (auto simp: image_iff)
    then obtain c where c: "c \<in> set cs" "te_id (fst c) = i" by blast
    then obtain j x m where x: "(j, x) \<in> set (tt_entries t)" "c = expiry_call m x" using cs(3) by blast
    have "te_id x = j" using inv x(1) by (auto simp: ttl_inv_def)
    then have "j = i" using c(2) x(2) by (simp add: expiry_call_def fire_entry_def)
    moreover have "distinct (map fst (tt_entries t))" using inv by (simp add: ttl_inv_def)
    ultimately have "x = e" using x(1) that(1) by (metis eq_key_imp_eq_value)
    with c x show ?thesis by blast
  qed
  moreover have "\<exists>i e n. (i, e) \<in> set (tt_entries t) \<and> te_id e = i \<and> c = expiry_call n e" if "c \<in> set cs" for c
    using cs(3) that inv unfolding ttl_inv_def by fast
  ultimately show ?thesis
    using cs run_refines[OF assms(3)] assms(2) by (intro that[of cs]) simp_all
qed

text \<open>The entry of a reported pair, with the action.\<close>

definition reported_call :: "ttl_world ttl_enforcer \<Rightarrow> string \<times> string \<Rightarrow> TTLEntry \<times> string" where
  "reported_call t r = (the (map_of (tt_entries t) (fst r)), snd r)"

lemma expiry_step_cong:
  assumes "te_machine (fst c) = te_machine (fst d)" "te_object (fst c) = te_object (fst d)" "snd c = snd d"
  shows "expiry_step c = expiry_step d"
proof -
  have "hits_auth c = hits_auth d" "hits_lease c = hits_lease d" "hits_risk c = hits_risk d"
    by (simp_all add: hits_auth_def hits_lease_def hits_risk_def assms)
  then show ?thesis by (intro ext) (simp only: expiry_step_def assms(2))
qed

lemma fold_map_id: "fold f xs = fold id (map f xs)"
  by (induction xs) simp_all

definition due :: "string \<Rightarrow> TTLExpiryAction \<Rightarrow> int list \<Rightarrow> TTLEntry \<Rightarrow> bool" where
  "due machine action ns e \<longleftrightarrow> te_machine e = machine \<and> tc_action (te_config e) = action \<and>
     \<not> str_given (te_action e) \<and> (\<exists>n \<in> set ns. te_expires_ms e \<le> n)"

lemma due_fires: "due machine action ns e \<Longrightarrow> \<exists>n \<in> set ns. fires n e"
  by (auto simp: due_def fires_def)

lemma due_call:
  "due machine action ns e \<Longrightarrow> te_machine (fst (expiry_call m e)) = machine \<and>
     snd (expiry_call m e) = ttl_action_value action \<and> te_object (fst (expiry_call m e)) = te_object e"
  by (simp add: due_def expiry_call_def fire_entry_def)

section \<open>A wired enforcer for the witnesses\<close>

definition demo_wired :: "string \<Rightarrow> string \<Rightarrow> string \<Rightarrow> ttl_world ttl_enforcer" where
  "demo_wired machine obj state =
     fst (snd (register_entry machine obj state (Some 1000) wired_enforcer (sample_world 9)))"

lemma demo_wired_reachable: "ttl_reachable (demo_wired machine obj state)"
proof -
  obtain e t w where r: "register_entry machine obj state (Some 1000) wired_enforcer (sample_world 9) = (e, t, w)"
    by (metis prod_cases3)
  have "ttl_reachable (ttl_new None True (Some ttl_expiry_callback))"
    by (rule ttl_reachable.start) (simp add: ttl_new_def default_ttl_configs_def ttl_config_def)
  then have "ttl_reachable wired_enforcer"
    unfolding wired_enforcer_def by (blast intro: ttl_reachable.step ttl_step.started)
  then have "ttl_reachable t" using r by (blast intro: ttl_reachable.step ttl_step.registered)
  then show ?thesis using r by (simp add: demo_wired_def)
qed

lemma demo_wired_callback: "tt_on_expiry (demo_wired machine obj state) = Some ttl_expiry_callback"
  by (simp add: demo_wired_def wired_enforcer_def start_daemon_sweep_def ttl_new_def register_entry_def Let_def
      split: option.splits prod.splits)

lemma demo_wired_due:
  assumes "map_of default_ttl_configs (machine, state) = Some c" "1000 + tc_max_seconds c * 1000 \<le> 10000000"
  shows "\<exists>i e. (i, e) \<in> set (tt_entries (demo_wired machine obj state)) \<and> te_object e = obj \<and>
    due machine (tc_action c) [5000, 10000000] e"
  using assms
  by (auto simp: demo_wired_def wired_enforcer_def start_daemon_sweep_def ttl_new_def register_entry_def Let_def
      given_ms_def due_def str_given_def split: prod.splits)

definition demo_bridged_hub :: hub where
  "demo_bridged_hub = (demo_hub R_NORMAL)\<lparr>h_lease := Some demo_lease_bridged\<rparr>"

lemma demo_ready: "ready (demo_hub l, n)" "ready (demo_bridged_hub, n)"
  by (simp_all add: ready_def demo_bridged_hub_def)

section \<open>Properties\<close>

text \<open>C3: An incident closes the hub. When the policy wired to an enabled and initialized hub processes an event of severity INCIDENT
  or worse, then afterwards no authorization is effective, no lease is live, the hot-path gate
  answers no, no lease is granted without the shadow provider, the governor is at least at
  DEFENSIVE (at CIRCUIT_BREAKER for a CRITICAL_INCIDENT), the governance mode is as it was, and
  every action of the severity is reported as carried out.\<close>

theorem policy_incident_closes_hub:
  assumes "wired other p" "ES_INCIDENT \<le> v_severity e"
    and "machines_ok h" "h_enabled h" "h_initialized h" "h_auth h \<noteq> None" "h_risk h = Some r"
    and "process_event e p h w = (res, p', h', w')"
  shows "effective_auths h' = [] \<and> live_leases h' = [] \<and> \<not> fst (hub_is_authorized h' v) \<and>
    (h_shadow h = None \<longrightarrow> fst (acquire_lease intent scope ttl h' v) = None) \<and>
    (\<exists>r'. h_risk h' = Some r' \<and> incident_level (v_severity e) \<le> risk_level r') \<and> h_mode h' = h_mode h \<and>
    dict_get res ''actions_taken'' PNone =
      PList (map (PStr \<circ> policy_action_value) (severity_actions (v_severity e)))"
proof -
  obtain n0 w0 where i: "new_incident e w = (n0, w0)" by fastforce
  have g: "ES_NEAR_MISS \<le> v_severity e" using assms(2) by (auto simp: event_severity_order)
  obtain taken n s1 w1 where a: "run_policy_actions p (action_context e (Some n0))
      (severity_actions (v_severity e)) h w0 = (taken, n, s1, w1)" by (metis prod_cases4)
  from grave_actions_close[OF assms(1-7) a] have c: "closed_down (incident_level (v_severity e)) h s1"
    "taken = map policy_action_value (severity_actions (v_severity e))" by simp_all
  have h': "h' = s1" and res: "dict_get res ''actions_taken'' PNone = PList (map PStr taken)"
    using assms(8) i g a by (auto simp: process_event_def Let_def dict_get_def)
  from c(1) have "shut h'" "h_shadow h' = h_shadow h" "live_leases h' = []" "h_mode h' = h_mode h"
    "\<exists>r'. h_risk h' = Some r' \<and> incident_level (v_severity e) \<le> risk_level r'"
    by (simp_all add: closed_down_def h')
  then show ?thesis
    using shut_denies[of h' v] shut_no_lease[of h'] res c(2) by (simp add: shut_def)
qed

lemma policy_incident_closes_hub_witness:
  "effective_auths (demo_hub R_NORMAL) \<noteq> [] \<and>
   effective_auths (fst (snd (snd (process_event (demo_event\<lparr>v_severity := ES_CRITICAL_INCIDENT\<rparr>)
     (wired_policy (\<lambda>v. ''x'')) (demo_hub R_NORMAL) (sample_world 9))))) = []"
proof -
  let ?e = "demo_event\<lparr>v_severity := ES_CRITICAL_INCIDENT\<rparr>"
  obtain res p' h' w' where e: "process_event ?e (wired_policy (\<lambda>v. ''x'')) (demo_hub R_NORMAL)
     (sample_world 9) = (res, p', h', w')" by (metis prod_cases4)
  have "ES_INCIDENT \<le> v_severity ?e" by (simp add: event_severity_order)
  from policy_incident_closes_hub[OF wired_policy_wired this demo_hub_ok _ _ _ _ e]
  have "effective_auths h' = []" by simp
  then show ?thesis unfolding e by simp
qed

text \<open>C10: Over any run of sweeps the wired enforcer does to the hub exactly what its report says. The report names each
  entry that was due at one of the sweeps and had no action yet, once and no other, with its configured
  action. Taken in the reported order, the pairs determine the states of all
  authorizations and leases, the level of the governor and the count of failures after the run: the abstract
  \<open>expiry_step\<close> of each pair acts on the object and the machine of its entry and on nothing else.\<close>

theorem ttl_run_refines:
  assumes "ttl_reachable t" "tt_on_expiry t = Some ttl_expiry_callback" "ready s" "0 \<notin> set ns"
    and "run_sweeps ns t s w = (out, t', s', w')"
  shows "view_of s' = fold expiry_step (map (reported_call t) out) (view_of s) \<and> distinct (map fst out) \<and>
    (\<forall>i a. (i, a) \<in> set out \<longleftrightarrow> (\<exists>e. map_of (tt_entries t) i = Some e \<and> (\<exists>n \<in> set ns. fires n e) \<and>
       a = ttl_action_value (tc_action (te_config e))))"
proof -
  note inv = ttl_reachable_inv[OF assms(1)]
  have d: "distinct (map fst (tt_entries t))" using inv by (simp add: ttl_inv_def)
  obtain cs where cs: "map (\<lambda>c. (te_id (fst c), snd c)) cs = out" "view_of s' = fold expiry_step cs (view_of s)"
    "\<And>c. c \<in> set cs \<Longrightarrow> \<exists>i e n. (i, e) \<in> set (tt_entries t) \<and> te_id e = i \<and> c = expiry_call n e"
    by (rule wired_run[OF assms]) blast
  have "expiry_step (reported_call t (te_id (fst c), snd c)) = expiry_step c" if c: "c \<in> set cs" for c
  proof -
    obtain i e n where e: "(i, e) \<in> set (tt_entries t)" "te_id e = i" "c = expiry_call n e"
      using cs(3)[OF c] by blast
    have "te_id (fst c) = i" "te_machine (fst c) = te_machine e" "te_object (fst c) = te_object e"
      using e(2,3) by (simp_all add: expiry_call_def fire_entry_def)
    moreover have "map_of (tt_entries t) i = Some e" using d e(1) by simp
    ultimately show ?thesis by (intro expiry_step_cong) (simp_all add: reported_call_def)
  qed
  then have "map expiry_step (map (reported_call t) out) = map expiry_step cs"
    by (simp add: cs(1)[symmetric])
  then have "fold expiry_step (map (reported_call t) out) (view_of s) = fold expiry_step cs (view_of s)"
    by (metis fold_map_id)
  then show ?thesis
    using cs(2) run_sweeps_exact[OF inv assms(4,5)] d by (auto simp: due_actions_def)
qed

lemma ttl_run_refines_witness:
  "\<exists>out t' s' w'. run_sweeps [5000, 10000000] (demo_wired ''RiskGovernor'' ''risk'' ''CIRCUIT_BREAKER'')
      (demo_hub R_NORMAL, 0) (sample_world 3) = (out, t', s', w') \<and>
    view_of s' = fold expiry_step (map (reported_call (demo_wired ''RiskGovernor'' ''risk'' ''CIRCUIT_BREAKER'')) out)
      (view_of (demo_hub R_NORMAL, 0))"
proof -
  obtain out t' s' w' where r: "run_sweeps [5000, 10000000] (demo_wired ''RiskGovernor'' ''risk'' ''CIRCUIT_BREAKER'')
      (demo_hub R_NORMAL, 0) (sample_world 3) = (out, t', s', w')" by (metis prod_cases4)
  have "0 \<notin> set [5000, 10000000 :: int]" by simp
  from ttl_run_refines[OF demo_wired_reachable demo_wired_callback demo_ready(1) this r] r show ?thesis by blast
qed

text \<open>C11: What becomes of a lease whose entry is due: in DRAFT, REGISTERED or ACTIVE it ends
  REJECTED, whatever else the run does; in any other state, BRIDGED above all, it stays where it
  is, and the count of enforcement failures has risen.\<close>

theorem ttl_lease_outcome:
  assumes "ttl_reachable t" "tt_on_expiry t = Some ttl_expiry_callback" "ready s" "0 \<notin> set ns"
    and "run_sweeps ns t s w = (out, t', s', w')"
    and "(i, e) \<in> set (tt_entries t)" "due ''DecisionLease'' TA_AUTO_EXPIRE ns e"
  shows "let before = states_of l_state (the (h_lease (fst s))) (te_object e);
             after = states_of l_state (the (h_lease (fst s'))) (te_object e)
         in if before \<in> {Some L_DRAFT, Some L_REGISTERED, Some L_ACTIVE} then after = Some L_REJECTED
            else after = before \<and> snd s < snd s'"
proof -
  obtain cs where cs: "view_of s' = fold expiry_step cs (view_of s)"
    "\<And>i e n. (i, e) \<in> set (tt_entries t) \<Longrightarrow> n \<in> set ns \<Longrightarrow> fires n e \<Longrightarrow> \<exists>m. expiry_call m e \<in> set cs"
    by (rule wired_run[OF assms(1-5)]) blast
  obtain m where c: "expiry_call m e \<in> set cs" using due_fires[OF assms(7)] cs(2)[OF assms(6)] by blast
  have hit: "hits_lease (expiry_call m e)" "te_object (fst (expiry_call m e)) = te_object e"
    using due_call[OF assms(7)] by (simp_all add: hits_lease_def)
  let ?before = "y_leases (view_of s) (te_object e)" and ?after = "y_leases (view_of s') (te_object e)"
  have "\<exists>c \<in> set cs. hits_lease c \<and> te_object (fst c) = te_object e" using c hit by blast
  then have after: "?after = (if ?before \<in> rejectable_lease then Some L_REJECTED else ?before)"
    unfolding cs(1) fold_lease by (simp only: simp_thms)
  have failed: "y_failures (view_of s) < y_failures (view_of s')" if "?before \<notin> rejectable_lease"
    unfolding cs(1) using that fold_failed_lease[OF c hit(1), of "view_of s"] unfolding hit(2) by blast
  have v: "y_leases (view_of u) = states_of l_state (the (h_lease (fst u)))" "y_failures (view_of u) = snd u" for u
    by (simp_all add: view_of_def split_beta)
  show ?thesis
    using after failed unfolding v rejectable_lease_def Let_def by (simp only: split: if_split) blast
qed

lemma ttl_lease_outcome_witness:
  "\<exists>out t' h' n' w'. run_sweeps [5000, 10000000] (demo_wired ''DecisionLease'' demo_lease_id ''BRIDGED'')
      (demo_bridged_hub, 0) (sample_world 3) = (out, t', (h', n'), w') \<and>
    states_of l_state (the (h_lease h')) demo_lease_id = Some L_BRIDGED \<and> 0 < n'"
proof -
  obtain out t' s' w' where r: "run_sweeps [5000, 10000000] (demo_wired ''DecisionLease'' demo_lease_id ''BRIDGED'')
      (demo_bridged_hub, 0) (sample_world 3) = (out, t', s', w')" by (metis prod_cases4)
  obtain i e where e: "(i, e) \<in> set (tt_entries (demo_wired ''DecisionLease'' demo_lease_id ''BRIDGED''))"
    "te_object e = demo_lease_id" "due ''DecisionLease'' TA_AUTO_EXPIRE [5000, 10000000] e"
    using demo_wired_due[of "''DecisionLease''" "''BRIDGED''" _ demo_lease_id]
    by (auto simp: default_ttl_configs_def ttl_config_def)
  have b: "states_of l_state (the (h_lease demo_bridged_hub)) demo_lease_id = Some L_BRIDGED"
    using demo_lease_later_eval(1) by (auto simp: demo_bridged_hub_def states_of_def)
  obtain h' n' where s': "s' = (h', n')" by fastforce
  from ttl_lease_outcome[OF demo_wired_reachable demo_wired_callback demo_ready(2) _ r e(1,3)] b e(2) s'
  have "states_of l_state (the (h_lease h')) demo_lease_id = Some L_BRIDGED \<and> 0 < n'" by simp
  with r s' show ?thesis by blast
qed

text \<open>A due entry of the risk governor puts the governor in MANUAL_REVIEW whatever its level is
  by then, also when it has long left the state the entry was registered for.\<close>

theorem ttl_risk_outcome:
  assumes "ttl_reachable t" "tt_on_expiry t = Some ttl_expiry_callback" "ready s" "0 \<notin> set ns"
    and "run_sweeps ns t s w = (out, t', s', w')"
    and "(i, e) \<in> set (tt_entries t)"
    and "due ''RiskGovernor'' TA_MANUAL_REVIEW_REQUIRED ns e \<or> due ''RiskGovernor'' TA_ESCALATE ns e"
  shows "\<exists>r. h_risk (fst s') = Some r \<and> risk_level r = R_MANUAL_REVIEW"
proof -
  obtain cs where cs: "ready s'" "view_of s' = fold expiry_step cs (view_of s)"
    "\<And>i e n. (i, e) \<in> set (tt_entries t) \<Longrightarrow> n \<in> set ns \<Longrightarrow> fires n e \<Longrightarrow> \<exists>m. expiry_call m e \<in> set cs"
    by (rule wired_run[OF assms(1-5)]) blast
  obtain m where c: "expiry_call m e \<in> set cs" using due_fires assms(7) cs(3)[OF assms(6)] by blast
  have "hits_risk (expiry_call m e)" using assms(7) due_call by (auto simp: hits_risk_def)
  with c have "y_level (view_of s') = R_MANUAL_REVIEW" unfolding cs(2) fold_level by auto
  with cs(1) show ?thesis by (auto simp: view_of_def ready_def split_beta)
qed

lemma ttl_risk_outcome_witness:
  "\<exists>out t' h' n' w' r. run_sweeps [5000, 10000000] (demo_wired ''RiskGovernor'' ''risk'' ''CIRCUIT_BREAKER'')
      (demo_hub R_NORMAL, 0) (sample_world 3) = (out, t', (h', n'), w') \<and>
    h_risk h' = Some r \<and> risk_level r = R_MANUAL_REVIEW"
proof -
  obtain out t' s' w' where r: "run_sweeps [5000, 10000000] (demo_wired ''RiskGovernor'' ''risk'' ''CIRCUIT_BREAKER'')
      (demo_hub R_NORMAL, 0) (sample_world 3) = (out, t', s', w')" by (metis prod_cases4)
  obtain i e where e: "(i, e) \<in> set (tt_entries (demo_wired ''RiskGovernor'' ''risk'' ''CIRCUIT_BREAKER''))"
    "due ''RiskGovernor'' TA_MANUAL_REVIEW_REQUIRED [5000, 10000000] e"
    using demo_wired_due[of "''RiskGovernor''" "''CIRCUIT_BREAKER''" _ "''risk''"]
    by (auto simp: default_ttl_configs_def ttl_config_def)
  obtain h' n' where s': "s' = (h', n')" by fastforce
  have "\<exists>q. h_risk (fst s') = Some q \<and> risk_level q = R_MANUAL_REVIEW"
    by (rule ttl_risk_outcome[OF demo_wired_reachable demo_wired_callback demo_ready(1) _ r e(1)]) (use e(2) in simp_all)
  then obtain q where "h_risk h' = Some q \<and> risk_level q = R_MANUAL_REVIEW" using s' by auto
  with r s' show ?thesis by blast
qed

end
