(* ===== verification/Paper_Live_Gate.thy ===== *)
theory Paper_Live_Gate
  imports SM_Base Py_Float
begin

text \<open>
  The gate from paper trading to supervised live trading (\<open>app/paper_live_gate.py\<close>): the
  eleven criteria of one evaluation, the operator's decision on a passed evaluation, and the
  dictionaries of both. How a time stamp prints in ISO format is a parameter.
\<close>

section \<open>States and configuration\<close>

datatype GateStatus = PG_NOT_EVALUATED | PG_IN_PROGRESS | PG_GATE_PASSED | PG_GATE_FAILED
  | PG_OPERATOR_APPROVAL_PENDING | PG_OPERATOR_APPROVED | PG_OPERATOR_REJECTED

fun gate_status_value :: "GateStatus \<Rightarrow> string" where
  "gate_status_value PG_NOT_EVALUATED = ''not_evaluated''"
| "gate_status_value PG_IN_PROGRESS = ''in_progress''"
| "gate_status_value PG_GATE_PASSED = ''gate_passed''"
| "gate_status_value PG_GATE_FAILED = ''gate_failed''"
| "gate_status_value PG_OPERATOR_APPROVAL_PENDING = ''operator_approval_pending''"
| "gate_status_value PG_OPERATOR_APPROVED = ''operator_approved''"
| "gate_status_value PG_OPERATOR_REJECTED = ''operator_rejected''"

definition gate_statuses :: "GateStatus list" where
  "gate_statuses = [PG_NOT_EVALUATED, PG_IN_PROGRESS, PG_GATE_PASSED, PG_GATE_FAILED,
     PG_OPERATOR_APPROVAL_PENDING, PG_OPERATOR_APPROVED, PG_OPERATOR_REJECTED]"

definition gate_status_of :: "string \<Rightarrow> GateStatus option" where
  "gate_status_of s = find (\<lambda>x. gate_status_value x = s) gate_statuses"

datatype CheckStatus = CK_PENDING | CK_PASSED | CK_FAILED | CK_NOT_APPLICABLE

fun check_status_value :: "CheckStatus \<Rightarrow> string" where
  "check_status_value CK_PENDING = ''pending''"
| "check_status_value CK_PASSED = ''passed''"
| "check_status_value CK_FAILED = ''failed''"
| "check_status_value CK_NOT_APPLICABLE = ''not_applicable''"

definition check_statuses :: "CheckStatus list" where
  "check_statuses = [CK_PENDING, CK_PASSED, CK_FAILED, CK_NOT_APPLICABLE]"

definition check_status_of :: "string \<Rightarrow> CheckStatus option" where
  "check_status_of s = find (\<lambda>x. check_status_value x = s) check_statuses"

record PaperLiveGateConfig =
  min_paper_duration_weeks :: int
  min_trades :: int
  min_win_rate_percent :: pyfloat
  min_net_pnl_threshold :: pyfloat
  min_sharpe_ratio :: pyfloat
  max_drawdown_percent :: pyfloat
  min_profit_factor :: pyfloat
  min_audit_trail_completeness_percent :: pyfloat
  max_reconciliation_mismatch_percent :: pyfloat
  max_consecutive_losses :: int
  require_no_major_incidents :: bool

definition default_gate_config :: PaperLiveGateConfig where
  "default_gate_config =
     \<lparr>min_paper_duration_weeks = 4, min_trades = 500, min_win_rate_percent = Fin 30,
      min_net_pnl_threshold = Fin 0, min_sharpe_ratio = Fin (1/2), max_drawdown_percent = Fin 100,
      min_profit_factor = flit (12/10), min_audit_trail_completeness_percent = Fin 99,
      max_reconciliation_mismatch_percent = flit (1/10), max_consecutive_losses = 10,
      require_no_major_incidents = True\<rparr>"

definition gate_config_to_dict :: "PaperLiveGateConfig \<Rightarrow> pydict" where
  "gate_config_to_dict c =
     [(''min_paper_duration_weeks'', PInt (min_paper_duration_weeks c)),
      (''min_trades'', PInt (min_trades c)),
      (''min_win_rate_percent'', PFloat (min_win_rate_percent c)),
      (''min_net_pnl_threshold'', PFloat (min_net_pnl_threshold c)),
      (''min_sharpe_ratio'', PFloat (min_sharpe_ratio c)),
      (''max_drawdown_percent'', PFloat (max_drawdown_percent c)),
      (''min_profit_factor'', PFloat (min_profit_factor c)),
      (''min_audit_trail_completeness_percent'', PFloat (min_audit_trail_completeness_percent c)),
      (''max_reconciliation_mismatch_percent'', PFloat (max_reconciliation_mismatch_percent c)),
      (''max_consecutive_losses'', PInt (max_consecutive_losses c)),
      (''require_no_major_incidents'', PBool (require_no_major_incidents c))]"

text \<open>Unknown keys are ignored, absent ones take the default; None stands for a value of
  another type than the field's annotation, outside this model.\<close>

definition gate_config_from_dict :: "pydict \<Rightarrow> PaperLiveGateConfig option" where
  "gate_config_from_dict d = (let c = default_gate_config in do {
     weeks \<leftarrow> as_int (dict_get d ''min_paper_duration_weeks'' (PInt (min_paper_duration_weeks c)));
     trades \<leftarrow> as_int (dict_get d ''min_trades'' (PInt (min_trades c)));
     win \<leftarrow> as_float (dict_get d ''min_win_rate_percent'' (PFloat (min_win_rate_percent c)));
     pnl \<leftarrow> as_float (dict_get d ''min_net_pnl_threshold'' (PFloat (min_net_pnl_threshold c)));
     sharpe \<leftarrow> as_float (dict_get d ''min_sharpe_ratio'' (PFloat (min_sharpe_ratio c)));
     dd \<leftarrow> as_float (dict_get d ''max_drawdown_percent'' (PFloat (max_drawdown_percent c)));
     pf \<leftarrow> as_float (dict_get d ''min_profit_factor'' (PFloat (min_profit_factor c)));
     audit \<leftarrow> as_float (dict_get d ''min_audit_trail_completeness_percent''
       (PFloat (min_audit_trail_completeness_percent c)));
     mm \<leftarrow> as_float (dict_get d ''max_reconciliation_mismatch_percent''
       (PFloat (max_reconciliation_mismatch_percent c)));
     losses \<leftarrow> as_int (dict_get d ''max_consecutive_losses'' (PInt (max_consecutive_losses c)));
     incidents \<leftarrow> as_bool (dict_get d ''require_no_major_incidents'' (PBool (require_no_major_incidents c)));
     Some \<lparr>min_paper_duration_weeks = weeks, min_trades = trades, min_win_rate_percent = win,
       min_net_pnl_threshold = pnl, min_sharpe_ratio = sharpe, max_drawdown_percent = dd,
       min_profit_factor = pf, min_audit_trail_completeness_percent = audit,
       max_reconciliation_mismatch_percent = mm, max_consecutive_losses = losses,
       require_no_major_incidents = incidents\<rparr> })"

section \<open>Results\<close>

record CriterionCheckResult =
  k_criterion_name :: string
  k_status :: CheckStatus
  k_actual_value :: pyval
  k_required_value :: pyval
  k_passed :: bool
  k_reason :: "string option"
  k_timestamp_ms :: int

definition criterion_to_dict :: "CriterionCheckResult \<Rightarrow> pydict" where
  "criterion_to_dict k =
     [(''criterion_name'', PStr (k_criterion_name k)), (''status'', PStr (check_status_value (k_status k))),
      (''actual_value'', k_actual_value k), (''required_value'', k_required_value k),
      (''passed'', PBool (k_passed k)), (''reason'', opt_str (k_reason k)),
      (''timestamp_ms'', PInt (k_timestamp_ms k))]"

record GateCheckResult =
  q_passed :: bool
  q_gate_status :: GateStatus
  q_criteria_results :: "(string \<times> CriterionCheckResult) list"
  q_blocking_reasons :: "string list"
  q_timestamp_ms :: int
  q_evaluated_at :: string
  q_operator_approval_required :: bool
  q_operator_approval_status :: "GateStatus option"
  q_operator_approval_reason :: "string option"
  q_operator_approval_timestamp_ms :: "int option"

definition gate_result_to_dict :: "GateCheckResult \<Rightarrow> pydict" where
  "gate_result_to_dict q =
     [(''passed'', PBool (q_passed q)), (''gate_status'', PStr (gate_status_value (q_gate_status q))),
      (''criteria_results'', PDict (map (\<lambda>(n, k). (n, PDict (criterion_to_dict k))) (q_criteria_results q))),
      (''blocking_reasons'', PList (map PStr (q_blocking_reasons q))),
      (''timestamp_ms'', PInt (q_timestamp_ms q)), (''evaluated_at'', PStr (q_evaluated_at q)),
      (''operator_approval_required'', PBool (q_operator_approval_required q)),
      (''operator_approval_status'', opt_str (map_option gate_status_value (q_operator_approval_status q))),
      (''operator_approval_reason'', opt_str (q_operator_approval_reason q)),
      (''operator_approval_timestamp_ms'', opt_int (q_operator_approval_timestamp_ms q))]"

text \<open>The constructor's two clock readings.\<close>

definition new_gate_result ::
  "(reading \<Rightarrow> string) \<Rightarrow> bool \<Rightarrow> GateStatus \<Rightarrow> 'z env_scheme \<Rightarrow> GateCheckResult \<times> 'z env_scheme" where
  "new_gate_result iso8601 passed status w =
     (let (t, w1) = now_ms w; (r, w2) = read_clock w1 in
      (\<lparr>q_passed = passed, q_gate_status = status, q_criteria_results = [], q_blocking_reasons = [],
        q_timestamp_ms = t, q_evaluated_at = iso8601 r, q_operator_approval_required = True,
        q_operator_approval_status = None, q_operator_approval_reason = None,
        q_operator_approval_timestamp_ms = None\<rparr>, w2))"

text \<open>
  \<open>from_dict\<close>: the defaults of the time stamps are read from the clock whether they are needed or
  not. None stands for a raised exception (an unknown status) or a value of another type than
  the code writes.
\<close>

definition criterion_from_dict :: "string \<Rightarrow> pydict \<Rightarrow> 'z env_scheme \<Rightarrow> (CriterionCheckResult \<times> 'z env_scheme) option" where
  "criterion_from_dict name d w = (let (t, w1) = now_ms w in do {
     n \<leftarrow> as_str (dict_get d ''criterion_name'' (PStr name));
     s \<leftarrow> as_str (dict_get d ''status'' (PStr ''pending''));
     status \<leftarrow> check_status_of s;
     passed \<leftarrow> as_bool (dict_get d ''passed'' (PBool False));
     reason \<leftarrow> as_opt_str (dict_get d ''reason'' PNone);
     stamp \<leftarrow> as_int (dict_get d ''timestamp_ms'' (PInt t));
     Some (\<lparr>k_criterion_name = n, k_status = status, k_actual_value = dict_get d ''actual_value'' PNone,
       k_required_value = dict_get d ''required_value'' PNone, k_passed = passed, k_reason = reason,
       k_timestamp_ms = stamp\<rparr>, w1) })"

fun criteria_from_dict ::
  "(string \<times> pyval) list \<Rightarrow> (string \<times> CriterionCheckResult) list \<Rightarrow> 'z env_scheme \<Rightarrow>
   ((string \<times> CriterionCheckResult) list \<times> 'z env_scheme) option" where
  "criteria_from_dict [] acc w = Some (acc, w)"
| "criteria_from_dict ((n, v) # rest) acc w =
     Option.bind (as_dict v) (\<lambda>d. Option.bind (criterion_from_dict n d w) (\<lambda>(k, w1).
       criteria_from_dict rest (AList.update n k acc) w1))"

definition gate_result_from_dict ::
  "(reading \<Rightarrow> string) \<Rightarrow> pydict \<Rightarrow> 'z env_scheme \<Rightarrow> (GateCheckResult \<times> 'z env_scheme) option" where
  "gate_result_from_dict iso8601 d w = do {
     s \<leftarrow> as_str (dict_get d ''gate_status'' (PStr ''not_evaluated''));
     status \<leftarrow> gate_status_of s;
     passed \<leftarrow> as_bool (dict_get d ''passed'' (PBool False));
     let (q, w1) = new_gate_result iso8601 passed status w;
     let (t, w2) = now_ms w1;
     reasons \<leftarrow> as_list as_str (dict_get d ''blocking_reasons'' (PList []));
     stamp \<leftarrow> as_int (dict_get d ''timestamp_ms'' (PInt t));
     evaluated \<leftarrow> as_str (dict_get d ''evaluated_at'' (PStr []));
     required \<leftarrow> as_bool (dict_get d ''operator_approval_required'' (PBool True));
     given \<leftarrow> as_opt_str (dict_get d ''operator_approval_status'' PNone);
     approval \<leftarrow> (if str_given given then map_option Some (gate_status_of (the given)) else Some None);
     reason \<leftarrow> as_opt_str (dict_get d ''operator_approval_reason'' PNone);
     at_ms \<leftarrow> as_opt_int (dict_get d ''operator_approval_timestamp_ms'' PNone);
     crit \<leftarrow> as_dict (dict_get d ''criteria_results'' (PDict []));
     (ks, w3) \<leftarrow> criteria_from_dict crit [] w2;
     Some (q\<lparr>q_criteria_results := ks, q_blocking_reasons := reasons, q_timestamp_ms := stamp,
       q_evaluated_at := evaluated, q_operator_approval_required := required,
       q_operator_approval_status := approval, q_operator_approval_reason := reason,
       q_operator_approval_timestamp_ms := at_ms\<rparr>, w3) }"

section \<open>The criteria\<close>

type_synonym gate_check = "GateCheckResult \<Rightarrow> world \<Rightarrow> GateCheckResult \<times> world"

text \<open>Every check stores one result, stamped by its own clock reading, and appends its reason to
  the blocking reasons when it failed.\<close>

definition record_check ::
  "string \<Rightarrow> string \<Rightarrow> bool \<Rightarrow> pyval \<Rightarrow> pyval \<Rightarrow> string \<Rightarrow> string \<Rightarrow> gate_check" where
  "record_check key name passed actual required reason blocking q w =
     (let (t, w1) = now_ms w in
      (q\<lparr>q_criteria_results := AList.update key
           \<lparr>k_criterion_name = name, k_status = (if passed then CK_PASSED else CK_FAILED),
            k_actual_value = actual, k_required_value = required, k_passed = passed,
            k_reason = Some reason, k_timestamp_ms = t\<rparr> (q_criteria_results q),
         q_blocking_reasons := q_blocking_reasons q @ (if passed then [] else [blocking])\<rparr>, w1))"

text \<open>The duration in weeks is the rounded quotient of two integers; an overflow raises (None).\<close>

definition duration_weeks :: "int \<Rightarrow> int \<Rightarrow> pyfloat option" where
  "duration_weeks start now = int_div (now - start) 604800000"

definition check_duration ::
  "int \<Rightarrow> PaperLiveGateConfig \<Rightarrow> GateCheckResult \<Rightarrow> world \<Rightarrow> GateCheckResult option \<times> world" where
  "check_duration start c q w =
     (let (now, w1) = now_ms w in
      case duration_weeks start now of
        None \<Rightarrow> (None, w1)
      | Some d \<Rightarrow>
          (let need = int_str (min_paper_duration_weeks c);
               passed = fle (Fin (of_int (min_paper_duration_weeks c))) d;
               shown = fmt_fixed 2 d;
               (q1, w2) = record_check ''duration'' ''Paper trading duration'' passed (PFloat (py_round 2 d))
                 (PInt (min_paper_duration_weeks c))
                 (if passed then ''Paper trading duration: '' @ shown @ '' weeks >= '' @ need @ '' weeks''
                  else ''Paper trading duration: '' @ shown @ '' weeks < '' @ need @ '' weeks required'')
                 (''Paper duration insufficient: '' @ shown @ '' weeks, need '' @ need @ '' weeks'') q w1
           in (Some q1, w2)))"

definition check_trade_count :: "int \<Rightarrow> PaperLiveGateConfig \<Rightarrow> gate_check" where
  "check_trade_count n c q w =
     (let passed = (min_trades c \<le> n) in
      record_check ''trade_count'' ''Minimum trade count'' passed (PInt n) (PInt (min_trades c))
        (if passed then ''Total trades: '' @ int_str n @ '' >= '' @ int_str (min_trades c)
         else ''Total trades: '' @ int_str n @ '' < '' @ int_str (min_trades c))
        (''Insufficient trades: '' @ int_str n @ '', need '' @ int_str (min_trades c)) q w)"

definition check_win_rate :: "pyfloat \<Rightarrow> PaperLiveGateConfig \<Rightarrow> gate_check" where
  "check_win_rate x c q w =
     (let passed = flt (min_win_rate_percent c) x in
      record_check ''win_rate'' ''Minimum win rate'' passed (PFloat (py_round 2 x)) (PFloat (min_win_rate_percent c))
        (if passed then ''Win rate: '' @ fmt_fixed 2 x @ ''% > '' @ float_repr w (min_win_rate_percent c) @ ''%''
         else ''Win rate: '' @ fmt_fixed 2 x @ ''% <= '' @ float_repr w (min_win_rate_percent c) @ ''%'')
        (''Win rate too low: '' @ fmt_fixed 2 x @ ''%, need > '' @ float_repr w (min_win_rate_percent c) @ ''%'') q w)"

definition check_net_pnl :: "pyfloat \<Rightarrow> PaperLiveGateConfig \<Rightarrow> gate_check" where
  "check_net_pnl x c q w =
     (let passed = flt (min_net_pnl_threshold c) x in
      record_check ''net_pnl'' ''Positive net PnL'' passed (PFloat (py_round 2 x)) (PFloat (min_net_pnl_threshold c))
        (if passed then ''Net PnL: '' @ fmt_fixed 2 x @ '' > '' @ float_repr w (min_net_pnl_threshold c)
         else ''Net PnL: '' @ fmt_fixed 2 x @ '' <= '' @ float_repr w (min_net_pnl_threshold c))
        (''Net PnL not positive: '' @ fmt_fixed 2 x) q w)"

definition check_sharpe :: "pyfloat \<Rightarrow> PaperLiveGateConfig \<Rightarrow> gate_check" where
  "check_sharpe x c q w =
     (let passed = fle (min_sharpe_ratio c) x in
      record_check ''sharpe_ratio'' ''Minimum Sharpe ratio'' passed (PFloat (py_round 2 x)) (PFloat (min_sharpe_ratio c))
        (if passed then ''Sharpe ratio: '' @ fmt_fixed 2 x @ '' >= '' @ float_repr w (min_sharpe_ratio c)
         else ''Sharpe ratio: '' @ fmt_fixed 2 x @ '' < '' @ float_repr w (min_sharpe_ratio c))
        (''Sharpe ratio too low: '' @ fmt_fixed 2 x @ '', need >= '' @ float_repr w (min_sharpe_ratio c)) q w)"

definition check_drawdown :: "pyfloat \<Rightarrow> PaperLiveGateConfig \<Rightarrow> gate_check" where
  "check_drawdown x c q w =
     (let passed = fle x (max_drawdown_percent c) in
      record_check ''max_drawdown'' ''Maximum drawdown'' passed (PFloat (py_round 2 x)) (PFloat (max_drawdown_percent c))
        (if passed then ''Max drawdown: '' @ fmt_fixed 2 x @ ''% <= '' @ float_repr w (max_drawdown_percent c) @ ''%''
         else ''Max drawdown: '' @ fmt_fixed 2 x @ ''% > '' @ float_repr w (max_drawdown_percent c) @ ''%'')
        (''Drawdown exceeded: '' @ fmt_fixed 2 x @ ''%, limit '' @ float_repr w (max_drawdown_percent c) @ ''%'') q w)"

definition check_profit_factor :: "pyfloat \<Rightarrow> PaperLiveGateConfig \<Rightarrow> gate_check" where
  "check_profit_factor x c q w =
     (let passed = fle (min_profit_factor c) x in
      record_check ''profit_factor'' ''Minimum profit factor'' passed (PFloat (py_round 2 x)) (PFloat (min_profit_factor c))
        (if passed then ''Profit factor: '' @ fmt_fixed 2 x @ '' >= '' @ float_repr w (min_profit_factor c)
         else ''Profit factor: '' @ fmt_fixed 2 x @ '' < '' @ float_repr w (min_profit_factor c))
        (''Profit factor too low: '' @ fmt_fixed 2 x @ '', need >= '' @ float_repr w (min_profit_factor c)) q w)"

definition check_audit_trail :: "pyfloat \<Rightarrow> PaperLiveGateConfig \<Rightarrow> gate_check" where
  "check_audit_trail x c q w =
     (let passed = fle (min_audit_trail_completeness_percent c) x in
      record_check ''audit_trail_completeness'' ''Audit trail completeness'' passed (PFloat (py_round 2 x)) (PFloat (min_audit_trail_completeness_percent c))
        (if passed then ''Audit trail completeness: '' @ fmt_fixed 2 x @ ''% >= '' @ float_repr w (min_audit_trail_completeness_percent c) @ ''%''
         else ''Audit trail completeness: '' @ fmt_fixed 2 x @ ''% < '' @ float_repr w (min_audit_trail_completeness_percent c) @ ''%'')
        (''Audit trail incomplete: '' @ fmt_fixed 2 x @ ''%, need >= '' @ float_repr w (min_audit_trail_completeness_percent c) @ ''%'') q w)"

definition check_reconciliation :: "pyfloat \<Rightarrow> PaperLiveGateConfig \<Rightarrow> gate_check" where
  "check_reconciliation x c q w =
     (let passed = fle x (max_reconciliation_mismatch_percent c) in
      record_check ''reconciliation_accuracy'' ''Reconciliation accuracy'' passed (PFloat (py_round 4 x)) (PFloat (max_reconciliation_mismatch_percent c))
        (if passed then ''Reconciliation mismatch: '' @ fmt_fixed 4 x @ ''% <= '' @ float_repr w (max_reconciliation_mismatch_percent c) @ ''%''
         else ''Reconciliation mismatch: '' @ fmt_fixed 4 x @ ''% > '' @ float_repr w (max_reconciliation_mismatch_percent c) @ ''%'')
        (''Reconciliation mismatches: '' @ fmt_fixed 4 x @ ''%, max '' @ float_repr w (max_reconciliation_mismatch_percent c) @ ''%'') q w)"

definition check_consecutive_losses :: "int \<Rightarrow> PaperLiveGateConfig \<Rightarrow> gate_check" where
  "check_consecutive_losses n c q w =
     (let passed = (n < max_consecutive_losses c) in
      record_check ''consecutive_losses'' ''Consecutive losses threshold'' passed (PInt n) (PInt (max_consecutive_losses c))
        (if passed then ''Consecutive losses: '' @ int_str n @ '' < '' @ int_str (max_consecutive_losses c)
         else ''Consecutive losses: '' @ int_str n @ '' >= '' @ int_str (max_consecutive_losses c))
        (''Consecutive losses threshold breached: '' @ int_str n @ '' >= '' @ int_str (max_consecutive_losses c)) q w)"

definition check_major_incidents :: "bool \<Rightarrow> PaperLiveGateConfig \<Rightarrow> gate_check" where
  "check_major_incidents b c q w =
     (let passed = (\<not> b \<or> \<not> require_no_major_incidents c) in
      record_check ''major_incidents'' ''No major incidents'' passed (PBool b) (if require_no_major_incidents c then PBool False else PNone)
        (if passed then ''No major incidents detected''
         else ''Major incident(s) detected in paper trading'')
        (''Major incident(s) detected during paper trading'') q w)"

section \<open>The gate\<close>

record paper_live_gate =
  pg_config :: PaperLiveGateConfig
  pg_audit_cb :: bool
  pg_last :: "GateCheckResult option"
  pg_approval :: "GateCheckResult option"

definition paper_live_gate_new :: "PaperLiveGateConfig option \<Rightarrow> bool \<Rightarrow> paper_live_gate" where
  "paper_live_gate_new config audit =
     \<lparr>pg_config = (case config of None \<Rightarrow> default_gate_config | Some c \<Rightarrow> c), pg_audit_cb = audit,
      pg_last = None, pg_approval = None\<rparr>"

record gate_inputs =
  i_start_ms :: int
  i_trades :: int
  i_win_rate :: pyfloat
  i_net_pnl :: pyfloat
  i_sharpe :: pyfloat
  i_drawdown :: pyfloat
  i_profit_factor :: pyfloat
  i_audit :: pyfloat
  i_mismatch :: pyfloat
  i_losses :: int
  i_incidents :: bool

definition not_applicable :: "CriterionCheckResult \<Rightarrow> bool" where
  "not_applicable k \<longleftrightarrow> k_status k = CK_NOT_APPLICABLE"

definition all_passed :: "GateCheckResult \<Rightarrow> bool" where
  "all_passed q \<longleftrightarrow> list_all (\<lambda>k. not_applicable k \<or> k_passed k) (map snd (q_criteria_results q))"

text \<open>The checks after the duration, in the code's order.\<close>

definition run_checks :: "gate_inputs \<Rightarrow> PaperLiveGateConfig \<Rightarrow> gate_check" where
  "run_checks i c q w =
     (let (q, w) = check_trade_count (i_trades i) c q w;
          (q, w) = check_win_rate (i_win_rate i) c q w;
          (q, w) = check_net_pnl (i_net_pnl i) c q w;
          (q, w) = check_sharpe (i_sharpe i) c q w;
          (q, w) = check_drawdown (i_drawdown i) c q w;
          (q, w) = check_profit_factor (i_profit_factor i) c q w;
          (q, w) = check_audit_trail (i_audit i) c q w;
          (q, w) = check_reconciliation (i_mismatch i) c q w;
          (q, w) = check_consecutive_losses (i_losses i) c q w
      in check_major_incidents (i_incidents i) c q w)"

definition conclude :: "GateCheckResult \<Rightarrow> GateCheckResult" where
  "conclude q =
     (if all_passed q
      then q\<lparr>q_passed := True, q_gate_status := PG_GATE_PASSED, q_operator_approval_required := True,
             q_operator_approval_status := Some PG_OPERATOR_APPROVAL_PENDING\<rparr>
      else q\<lparr>q_passed := False, q_gate_status := PG_GATE_FAILED\<rparr>)"

definition evaluate_gate ::
  "(reading \<Rightarrow> string) \<Rightarrow> gate_inputs \<Rightarrow> paper_live_gate \<Rightarrow> world \<Rightarrow> GateCheckResult option \<times> paper_live_gate \<times> world" where
  "evaluate_gate iso8601 i g w =
     (let (q, w1) = new_gate_result iso8601 False PG_IN_PROGRESS w in
      case check_duration (i_start_ms i) (pg_config g) q w1 of
        (None, w2) \<Rightarrow> (None, g, w2)
      | (Some q1, w2) \<Rightarrow>
          (let (q2, w3) = run_checks i (pg_config g) q1 w2; q3 = conclude q2 in
           (Some q3, g\<lparr>pg_last := Some q3\<rparr>,
            emit_audit ''gate_evaluated'' (pg_audit_cb g) (gate_result_to_dict q3) w3)))"

definition get_gate_status :: "paper_live_gate \<Rightarrow> GateCheckResult option" where
  "get_gate_status g = pg_last g"

definition get_remaining_requirements :: "paper_live_gate \<Rightarrow> pydict" where
  "get_remaining_requirements g =
     (case pg_last g of
        None \<Rightarrow> [(''status'', PStr ''not_evaluated''), (''message'', PStr ''Gate not yet evaluated'')]
      | Some q \<Rightarrow>
          map (\<lambda>(n, k). (n, PDict [(''actual'', k_actual_value k), (''required'', k_required_value k),
                (''reason'', opt_str (k_reason k))]))
            (filter (\<lambda>(n, k). \<not> k_passed k \<and> \<not> not_applicable k) (q_criteria_results q)))"

datatype gate_error = NoEvaluation | NotPassed

text \<open>The decision is written into the last result, which also becomes the recorded approval.\<close>

definition submit_operator_approval ::
  "bool \<Rightarrow> string \<Rightarrow> string option \<Rightarrow> paper_live_gate \<Rightarrow> world \<Rightarrow>
   (gate_error + GateCheckResult) \<times> paper_live_gate \<times> world" where
  "submit_operator_approval approved operator reason g w =
     (case pg_last g of
        None \<Rightarrow> (Inl NoEvaluation, g, w)
      | Some q \<Rightarrow>
          (if \<not> q_passed q then (Inl NotPassed, g, w)
           else
             (let status = (if approved then PG_OPERATOR_APPROVED else PG_OPERATOR_REJECTED);
                  (t, w1) = now_ms w;
                  q1 = q\<lparr>q_operator_approval_status := Some status, q_gate_status := status,
                         q_operator_approval_reason := reason, q_operator_approval_timestamp_ms := Some t\<rparr>
              in (Inr q1, g\<lparr>pg_last := Some q1, pg_approval := Some q1\<rparr>,
                  emit_audit ''operator_approval_submitted'' (pg_audit_cb g)
                    [(''operator_id'', PStr operator), (''approved'', PBool approved),
                     (''reason'', opt_str reason), (''timestamp_ms'', PInt t)] w1))))"

definition opt_result :: "GateCheckResult option \<Rightarrow> pyval" where
  "opt_result q = (case q of None \<Rightarrow> PNone | Some x \<Rightarrow> PDict (gate_result_to_dict x))"

definition paper_live_gate_to_dict :: "paper_live_gate \<Rightarrow> pydict" where
  "paper_live_gate_to_dict g =
     [(''config'', PDict (gate_config_to_dict (pg_config g))),
      (''last_check_result'', opt_result (pg_last g)), (''operator_approval'', opt_result (pg_approval g))]"

section \<open>The verdicts of an evaluation\<close>

definition criteria_verdicts :: "gate_inputs \<Rightarrow> PaperLiveGateConfig \<Rightarrow> pyfloat \<Rightarrow> (string \<times> bool) list" where
  "criteria_verdicts i c weeks =
     [(''duration'', fle (Fin (of_int (min_paper_duration_weeks c))) weeks),
      (''trade_count'', min_trades c \<le> i_trades i),
      (''win_rate'', flt (min_win_rate_percent c) (i_win_rate i)),
      (''net_pnl'', flt (min_net_pnl_threshold c) (i_net_pnl i)),
      (''sharpe_ratio'', fle (min_sharpe_ratio c) (i_sharpe i)),
      (''max_drawdown'', fle (i_drawdown i) (max_drawdown_percent c)),
      (''profit_factor'', fle (min_profit_factor c) (i_profit_factor i)),
      (''audit_trail_completeness'', fle (min_audit_trail_completeness_percent c) (i_audit i)),
      (''reconciliation_accuracy'', fle (i_mismatch i) (max_reconciliation_mismatch_percent c)),
      (''consecutive_losses'', i_losses i < max_consecutive_losses c),
      (''major_incidents'', \<not> i_incidents i \<or> \<not> require_no_major_incidents c)]"

definition judged :: "(string \<times> bool) list \<Rightarrow> GateCheckResult \<Rightarrow> bool" where
  "judged vs q \<longleftrightarrow> map (\<lambda>(n, k). (n, k_passed k)) (q_criteria_results q) = vs \<and>
     (\<forall>k \<in> snd ` set (q_criteria_results q). k_status k = (if k_passed k then CK_PASSED else CK_FAILED)) \<and>
     length (q_blocking_reasons q) = length (filter (Not \<circ> snd) vs)"

lemma judged_keys: "judged vs q \<Longrightarrow> map fst (q_criteria_results q) = map fst vs"
  by (auto simp: judged_def)

lemma record_judged:
  assumes "judged vs q" "key \<notin> fst ` set vs"
  shows "judged (vs @ [(key, passed)]) (fst (record_check key name passed actual required reason blocking q w))"
proof -
  have "key \<notin> set (map fst (q_criteria_results q))" using assms judged_keys[OF assms(1)] by simp
  then have "AList.update key k (q_criteria_results q) = q_criteria_results q @ [(key, k)]" for k
    by (intro update_absent) (simp add: map_of_eq_None_iff)
  then show ?thesis
    using assms(1) by (simp add: record_check_def judged_def now_ms_def)
qed

text \<open>Each check adds its verdict under its key.\<close>

definition adds :: "gate_check \<Rightarrow> string \<Rightarrow> bool \<Rightarrow> bool" where
  "adds check key passed \<longleftrightarrow> (\<forall>vs q w q' w'. judged vs q \<longrightarrow> key \<notin> fst ` set vs \<longrightarrow>
     check q w = (q', w') \<longrightarrow> judged (vs @ [(key, passed)]) q')"

lemma record_adds:
  assumes "\<And>q w. \<exists>name actual required reason blocking.
    check q w = record_check key name passed actual required reason blocking q w"
  shows "adds check key passed"
  unfolding adds_def using assms record_judged by (metis fst_conv)

lemma checks_add:
  "adds (check_trade_count n c) ''trade_count'' (min_trades c \<le> n)"
  "adds (check_win_rate x c) ''win_rate'' (flt (min_win_rate_percent c) x)"
  "adds (check_net_pnl x c) ''net_pnl'' (flt (min_net_pnl_threshold c) x)"
  "adds (check_sharpe x c) ''sharpe_ratio'' (fle (min_sharpe_ratio c) x)"
  "adds (check_drawdown x c) ''max_drawdown'' (fle x (max_drawdown_percent c))"
  "adds (check_profit_factor x c) ''profit_factor'' (fle (min_profit_factor c) x)"
  "adds (check_audit_trail x c) ''audit_trail_completeness'' (fle (min_audit_trail_completeness_percent c) x)"
  "adds (check_reconciliation x c) ''reconciliation_accuracy'' (fle x (max_reconciliation_mismatch_percent c))"
  "adds (check_consecutive_losses n c) ''consecutive_losses'' (n < max_consecutive_losses c)"
  "adds (check_major_incidents b c) ''major_incidents'' (\<not> b \<or> \<not> require_no_major_incidents c)"
  unfolding check_trade_count_def check_win_rate_def check_net_pnl_def check_sharpe_def check_drawdown_def check_profit_factor_def check_audit_trail_def check_reconciliation_def check_consecutive_losses_def check_major_incidents_def Let_def
  by (rule record_adds, blast)+

lemma run_checks_judged:
  assumes "judged [(''duration'', ok)] q" "fle (Fin (of_int (min_paper_duration_weeks c))) weeks = ok"
    and "run_checks i c q w = (q', w')"
  shows "judged (criteria_verdicts i c weeks) q'"
proof -
  obtain q1 w1 where c1: "check_trade_count (i_trades i) c q w = (q1, w1)" by fastforce
  obtain q2 w2 where c2: "check_win_rate (i_win_rate i) c q1 w1 = (q2, w2)" by fastforce
  obtain q3 w3 where c3: "check_net_pnl (i_net_pnl i) c q2 w2 = (q3, w3)" by fastforce
  obtain q4 w4 where c4: "check_sharpe (i_sharpe i) c q3 w3 = (q4, w4)" by fastforce
  obtain q5 w5 where c5: "check_drawdown (i_drawdown i) c q4 w4 = (q5, w5)" by fastforce
  obtain q6 w6 where c6: "check_profit_factor (i_profit_factor i) c q5 w5 = (q6, w6)" by fastforce
  obtain q7 w7 where c7: "check_audit_trail (i_audit i) c q6 w6 = (q7, w7)" by fastforce
  obtain q8 w8 where c8: "check_reconciliation (i_mismatch i) c q7 w7 = (q8, w8)" by fastforce
  obtain q9 w9 where c9: "check_consecutive_losses (i_losses i) c q8 w8 = (q9, w9)" by fastforce
  have c10: "check_major_incidents (i_incidents i) c q9 w9 = (q', w')"
    using assms(3) c1 c2 c3 c4 c5 c6 c7 c8 c9 by (simp add: run_checks_def)
  note add = checks_add[unfolded adds_def, rule_format]
  from add(1)[OF assms(1) _ c1] have j1: "judged ([(''duration'', ok), (''trade_count'', min_trades c \<le> (i_trades i))]) q1" by simp
  from add(2)[OF j1 _ c2] have j2: "judged ([(''duration'', ok), (''trade_count'', min_trades c \<le> (i_trades i)), (''win_rate'', flt (min_win_rate_percent c) (i_win_rate i))]) q2" by simp
  from add(3)[OF j2 _ c3] have j3: "judged ([(''duration'', ok), (''trade_count'', min_trades c \<le> (i_trades i)), (''win_rate'', flt (min_win_rate_percent c) (i_win_rate i)), (''net_pnl'', flt (min_net_pnl_threshold c) (i_net_pnl i))]) q3" by simp
  from add(4)[OF j3 _ c4] have j4: "judged ([(''duration'', ok), (''trade_count'', min_trades c \<le> (i_trades i)), (''win_rate'', flt (min_win_rate_percent c) (i_win_rate i)), (''net_pnl'', flt (min_net_pnl_threshold c) (i_net_pnl i)), (''sharpe_ratio'', fle (min_sharpe_ratio c) (i_sharpe i))]) q4" by simp
  from add(5)[OF j4 _ c5] have j5: "judged ([(''duration'', ok), (''trade_count'', min_trades c \<le> (i_trades i)), (''win_rate'', flt (min_win_rate_percent c) (i_win_rate i)), (''net_pnl'', flt (min_net_pnl_threshold c) (i_net_pnl i)), (''sharpe_ratio'', fle (min_sharpe_ratio c) (i_sharpe i)), (''max_drawdown'', fle (i_drawdown i) (max_drawdown_percent c))]) q5" by simp
  from add(6)[OF j5 _ c6] have j6: "judged ([(''duration'', ok), (''trade_count'', min_trades c \<le> (i_trades i)), (''win_rate'', flt (min_win_rate_percent c) (i_win_rate i)), (''net_pnl'', flt (min_net_pnl_threshold c) (i_net_pnl i)), (''sharpe_ratio'', fle (min_sharpe_ratio c) (i_sharpe i)), (''max_drawdown'', fle (i_drawdown i) (max_drawdown_percent c)), (''profit_factor'', fle (min_profit_factor c) (i_profit_factor i))]) q6" by simp
  from add(7)[OF j6 _ c7] have j7: "judged ([(''duration'', ok), (''trade_count'', min_trades c \<le> (i_trades i)), (''win_rate'', flt (min_win_rate_percent c) (i_win_rate i)), (''net_pnl'', flt (min_net_pnl_threshold c) (i_net_pnl i)), (''sharpe_ratio'', fle (min_sharpe_ratio c) (i_sharpe i)), (''max_drawdown'', fle (i_drawdown i) (max_drawdown_percent c)), (''profit_factor'', fle (min_profit_factor c) (i_profit_factor i)), (''audit_trail_completeness'', fle (min_audit_trail_completeness_percent c) (i_audit i))]) q7" by simp
  from add(8)[OF j7 _ c8] have j8: "judged ([(''duration'', ok), (''trade_count'', min_trades c \<le> (i_trades i)), (''win_rate'', flt (min_win_rate_percent c) (i_win_rate i)), (''net_pnl'', flt (min_net_pnl_threshold c) (i_net_pnl i)), (''sharpe_ratio'', fle (min_sharpe_ratio c) (i_sharpe i)), (''max_drawdown'', fle (i_drawdown i) (max_drawdown_percent c)), (''profit_factor'', fle (min_profit_factor c) (i_profit_factor i)), (''audit_trail_completeness'', fle (min_audit_trail_completeness_percent c) (i_audit i)), (''reconciliation_accuracy'', fle (i_mismatch i) (max_reconciliation_mismatch_percent c))]) q8" by simp
  from add(9)[OF j8 _ c9] have j9: "judged ([(''duration'', ok), (''trade_count'', min_trades c \<le> (i_trades i)), (''win_rate'', flt (min_win_rate_percent c) (i_win_rate i)), (''net_pnl'', flt (min_net_pnl_threshold c) (i_net_pnl i)), (''sharpe_ratio'', fle (min_sharpe_ratio c) (i_sharpe i)), (''max_drawdown'', fle (i_drawdown i) (max_drawdown_percent c)), (''profit_factor'', fle (min_profit_factor c) (i_profit_factor i)), (''audit_trail_completeness'', fle (min_audit_trail_completeness_percent c) (i_audit i)), (''reconciliation_accuracy'', fle (i_mismatch i) (max_reconciliation_mismatch_percent c)), (''consecutive_losses'', (i_losses i) < max_consecutive_losses c)]) q9" by simp
  from add(10)[OF j9 _ c10] have j10: "judged ([(''duration'', ok), (''trade_count'', min_trades c \<le> (i_trades i)), (''win_rate'', flt (min_win_rate_percent c) (i_win_rate i)), (''net_pnl'', flt (min_net_pnl_threshold c) (i_net_pnl i)), (''sharpe_ratio'', fle (min_sharpe_ratio c) (i_sharpe i)), (''max_drawdown'', fle (i_drawdown i) (max_drawdown_percent c)), (''profit_factor'', fle (min_profit_factor c) (i_profit_factor i)), (''audit_trail_completeness'', fle (min_audit_trail_completeness_percent c) (i_audit i)), (''reconciliation_accuracy'', fle (i_mismatch i) (max_reconciliation_mismatch_percent c)), (''consecutive_losses'', (i_losses i) < max_consecutive_losses c), (''major_incidents'', \<not> (i_incidents i) \<or> \<not> require_no_major_incidents c)]) q'" by simp
  then show ?thesis by (simp add: criteria_verdicts_def assms(2))
qed

lemma judged_all_passed: "judged vs q \<Longrightarrow> all_passed q \<longleftrightarrow> list_all snd vs"
  by (fastforce simp: judged_def all_passed_def not_applicable_def list_all_iff split: if_splits)

lemma conclude_frame:
  "q_criteria_results (conclude q) = q_criteria_results q"
  "q_blocking_reasons (conclude q) = q_blocking_reasons q"
  "q_passed (conclude q) = all_passed q"
  "q_gate_status (conclude q) = (if all_passed q then PG_GATE_PASSED else PG_GATE_FAILED)"
  "all_passed (conclude q) = all_passed q"
  by (simp_all add: conclude_def all_passed_def)

lemma evaluate_spec:
  assumes "evaluate_gate iso8601 i g w = (Some q, g', w')"
  obtains weeks where "duration_weeks (i_start_ms i) (millis (clock w (ticks w + 2))) = Some weeks"
    "judged (criteria_verdicts i (pg_config g) weeks) q" "q_passed q = all_passed q"
    "q_gate_status q = (if q_passed q then PG_GATE_PASSED else PG_GATE_FAILED)"
    "g' = g\<lparr>pg_last := Some q\<rparr>"
proof -
  obtain q0 w0 where n: "new_gate_result iso8601 False PG_IN_PROGRESS w = (q0, w0)" by fastforce
  have q0: "judged [] q0" "clock w0 = clock w" "ticks w0 = ticks w + 2"
    using n by (auto simp: new_gate_result_def read_clock_def now_ms_def judged_def)
  obtain q1 w1 where d: "check_duration (i_start_ms i) (pg_config g) q0 w0 = (Some q1, w1)"
    using assms n by (auto simp: evaluate_gate_def split: prod.splits option.splits)
  obtain weeks where weeks: "duration_weeks (i_start_ms i) (millis (clock w (ticks w + 2))) = Some weeks"
    using d q0 by (auto simp: check_duration_def now_ms_def split: option.splits)
  let ?ok = "fle (Fin (of_int (min_paper_duration_weeks (pg_config g)))) weeks"
  have "\<exists>name actual required reason blocking u.
      q1 = fst (record_check ''duration'' name ?ok actual required reason blocking q0 u)"
    using d weeks q0 by (auto simp: check_duration_def now_ms_def Let_def split: prod.splits) (metis fst_conv)+
  then have "judged [(''duration'', ?ok)] q1" using record_judged[OF q0(1)] by fastforce
  from run_checks_judged[OF this refl] have j: "judged (criteria_verdicts i (pg_config g) weeks)
      (fst (run_checks i (pg_config g) q1 w1))" by (metis prod.collapse)
  have q: "q = conclude (fst (run_checks i (pg_config g) q1 w1))" "g' = g\<lparr>pg_last := Some q\<rparr>"
    using assms n d by (auto simp: evaluate_gate_def Let_def split: prod.splits)
  have "judged (criteria_verdicts i (pg_config g) weeks) q"
    using j by (simp add: q(1) judged_def conclude_frame)
  with weeks q show ?thesis by (intro that) (simp_all add: conclude_frame)
qed

section \<open>Histories\<close>

inductive gate_step :: "paper_live_gate \<Rightarrow> paper_live_gate \<Rightarrow> bool" where
  evaluated: "evaluate_gate iso8601 i g w = (q, g', w') \<Longrightarrow> gate_step g g'"
| decided: "submit_operator_approval approved operator reason g w = (res, g', w') \<Longrightarrow> gate_step g g'"

inductive gate_reachable :: "paper_live_gate \<Rightarrow> bool" where
  start: "gate_reachable (paper_live_gate_new config audit)"
| step: "gate_reachable g \<Longrightarrow> gate_step g g' \<Longrightarrow> gate_reachable g'"

definition decided_status :: "GateStatus \<Rightarrow> bool" where
  "decided_status s \<longleftrightarrow> s = PG_OPERATOR_APPROVED \<or> s = PG_OPERATOR_REJECTED"

definition gate_inv :: "paper_live_gate \<Rightarrow> bool" where
  "gate_inv g \<longleftrightarrow> (\<forall>q. pg_last g = Some q \<longrightarrow> (q_passed q \<longleftrightarrow> all_passed q) \<and>
     (decided_status (q_gate_status q) \<longrightarrow> q_passed q \<and> pg_approval g = Some q \<and>
        q_operator_approval_status q = Some (q_gate_status q) \<and> q_operator_approval_timestamp_ms q \<noteq> None)) \<and>
     (\<forall>q. pg_approval g = Some q \<longrightarrow> all_passed q \<and> decided_status (q_gate_status q))"

lemma evaluate_raised: "evaluate_gate iso8601 i g w = (None, g', w') \<Longrightarrow> g' = g"
  by (auto simp: evaluate_gate_def Let_def split: prod.splits option.splits)

lemma gate_inv_step:
  assumes "gate_step g g'" "gate_inv g"
  shows "gate_inv g'"
  using assms(1)
proof cases
  case (evaluated iso8601 i w q w')
  show ?thesis
  proof (cases q)
    case None
    then show ?thesis using evaluated evaluate_raised[of iso8601 i g w g' w'] assms(2) by simp
  next
    case (Some r)
    with evaluated obtain weeks where "q_passed r = all_passed r"
      "q_gate_status r = (if q_passed r then PG_GATE_PASSED else PG_GATE_FAILED)" "g' = g\<lparr>pg_last := Some r\<rparr>"
      using evaluate_spec[of iso8601 i g w r g' w'] by blast
    with assms(2) show ?thesis by (auto simp: gate_inv_def decided_status_def split: if_splits)
  qed
next
  case (decided approved operator reason w res w')
  show ?thesis
  proof (cases "\<exists>q. pg_last g = Some q \<and> q_passed q")
    case False
    then have "g' = g"
      using decided by (auto simp: submit_operator_approval_def split: option.splits if_splits)
    with assms(2) show ?thesis by simp
  next
    case True
    then obtain q where q: "pg_last g = Some q" "q_passed q" by blast
    have "all_passed q" using assms(2) q by (simp add: gate_inv_def)
    then show ?thesis
      using decided q
      by (cases approved) (auto simp: submit_operator_approval_def gate_inv_def decided_status_def all_passed_def Let_def
          split: prod.splits)
  qed
qed

lemma gate_reachable_inv: "gate_reachable g \<Longrightarrow> gate_inv g"
proof (induction rule: gate_reachable.induct)
  case (start config audit)
  show ?case by (simp add: paper_live_gate_new_def gate_inv_def)
next
  case (step g g')
  from gate_inv_step[OF step.hyps(2) step.IH] show ?case .
qed

section \<open>Reading results back\<close>

lemma gate_status_of_value [simp]: "gate_status_of (gate_status_value s) = Some s"
  by (cases s) (simp_all add: gate_status_of_def gate_statuses_def)

lemma gate_status_given [simp]: "gate_status_value s \<noteq> []"
  by (cases s) simp_all

lemma check_status_of_value [simp]: "check_status_of (check_status_value s) = Some s"
  by (cases s) (simp_all add: check_status_of_def check_statuses_def)

lemma criterion_fields [simp]:
  "dict_get (criterion_to_dict k) ''criterion_name'' v = PStr (k_criterion_name k)"
  "dict_get (criterion_to_dict k) ''status'' v = PStr (check_status_value (k_status k))"
  "dict_get (criterion_to_dict k) ''actual_value'' v = k_actual_value k"
  "dict_get (criterion_to_dict k) ''required_value'' v = k_required_value k"
  "dict_get (criterion_to_dict k) ''passed'' v = PBool (k_passed k)"
  "dict_get (criterion_to_dict k) ''reason'' v = opt_str (k_reason k)"
  "dict_get (criterion_to_dict k) ''timestamp_ms'' v = PInt (k_timestamp_ms k)"
  by (simp_all add: dict_get_def criterion_to_dict_def)

lemma criterion_roundtrip:
  "criterion_from_dict n (criterion_to_dict k) w = Some (k, snd (now_ms w))"
  by (simp add: criterion_from_dict_def Let_def split_beta)

lemma criteria_roundtrip:
  assumes "distinct (map fst (acc @ ks))"
  shows "\<exists>w'. criteria_from_dict (map (\<lambda>(n, k). (n, PDict (criterion_to_dict k))) ks) acc w = Some (acc @ ks, w')"
  using assms
proof (induction ks arbitrary: acc w)
  case (Cons p ks)
  obtain n k where p: "p = (n, k)" by fastforce
  have "map_of acc n = None" using Cons.prems p by (auto simp: map_of_eq_None_iff)
  then have "AList.update n k acc = acc @ [(n, k)]" by (rule update_absent)
  moreover obtain w' where "criteria_from_dict (map (\<lambda>(n, k). (n, PDict (criterion_to_dict k))) ks)
      (acc @ [(n, k)]) (snd (now_ms w)) = Some ((acc @ [(n, k)]) @ ks, w')"
    using Cons.IH[of "acc @ [(n, k)]" "snd (now_ms w)"] Cons.prems p by auto
  ultimately show ?case by (simp add: p criterion_roundtrip)
qed simp

lemma gate_result_fields [simp]:
  "dict_get (gate_result_to_dict q) ''passed'' v = PBool (q_passed q)"
  "dict_get (gate_result_to_dict q) ''gate_status'' v = PStr (gate_status_value (q_gate_status q))"
  "dict_get (gate_result_to_dict q) ''criteria_results'' v =
     PDict (map (\<lambda>(n, k). (n, PDict (criterion_to_dict k))) (q_criteria_results q))"
  "dict_get (gate_result_to_dict q) ''blocking_reasons'' v = PList (map PStr (q_blocking_reasons q))"
  "dict_get (gate_result_to_dict q) ''timestamp_ms'' v = PInt (q_timestamp_ms q)"
  "dict_get (gate_result_to_dict q) ''evaluated_at'' v = PStr (q_evaluated_at q)"
  "dict_get (gate_result_to_dict q) ''operator_approval_required'' v = PBool (q_operator_approval_required q)"
  "dict_get (gate_result_to_dict q) ''operator_approval_status'' v =
     opt_str (map_option gate_status_value (q_operator_approval_status q))"
  "dict_get (gate_result_to_dict q) ''operator_approval_reason'' v = opt_str (q_operator_approval_reason q)"
  "dict_get (gate_result_to_dict q) ''operator_approval_timestamp_ms'' v =
     opt_int (q_operator_approval_timestamp_ms q)"
  by (simp_all add: dict_get_def gate_result_to_dict_def)

lemma submit_passed:
  assumes "pg_last g = Some q" "q_passed q"
  obtains x h v where "submit_operator_approval approved operator reason g w = (Inr x, h, v)"
    "pg_last h = Some x" "pg_approval h = Some x"
    "q_gate_status x = (if approved then PG_OPERATOR_APPROVED else PG_OPERATOR_REJECTED)"
proof -
  obtain res h v where r: "submit_operator_approval approved operator reason g w = (res, h, v)"
    by (metis prod_cases3)
  then obtain x where "res = Inr x" "pg_last h = Some x" "pg_approval h = Some x"
    "q_gate_status x = (if approved then PG_OPERATOR_APPROVED else PG_OPERATOR_REJECTED)"
    using assms by (auto simp: submit_operator_approval_def Let_def split: prod.splits)
  with r show ?thesis using that by blast
qed

section \<open>A gate for the witnesses\<close>

lemma evaluate_returns:
  assumes "duration_weeks (i_start_ms i) (millis (clock w (ticks w + 2))) = Some d"
  obtains q g' w' where "evaluate_gate iso8601 i g w = (Some q, g', w')"
proof -
  obtain q0 w0 where n: "new_gate_result iso8601 False PG_IN_PROGRESS w = (q0, w0)" by fastforce
  then have "clock w0 = clock w" "ticks w0 = ticks w + 2"
    by (auto simp: new_gate_result_def read_clock_def now_ms_def)
  then have "\<exists>q1 w1. check_duration (i_start_ms i) (pg_config g) q0 w0 = (Some q1, w1)"
    using assms by (simp add: check_duration_def now_ms_def Let_def split: prod.splits)
  then obtain q1 w1 where d: "check_duration (i_start_ms i) (pg_config g) q0 w0 = (Some q1, w1)" by blast
  obtain q2 w2 where "run_checks i (pg_config g) q1 w1 = (q2, w2)" by fastforce
  with n d have "evaluate_gate iso8601 i g w = (Some (conclude q2), g\<lparr>pg_last := Some (conclude q2)\<rparr>,
      emit_audit ''gate_evaluated'' (pg_audit_cb g) (gate_result_to_dict (conclude q2)) w2)"
    by (simp add: evaluate_gate_def Let_def)
  then show ?thesis by (rule that)
qed

text \<open>Four weeks before the third reading of a clock that starts at 10 s.\<close>

definition demo_inputs :: "pyfloat \<Rightarrow> gate_inputs" where
  "demo_inputs sharpe = \<lparr>i_start_ms = 12000 - 2419200000, i_trades = 500, i_win_rate = Fin 40, i_net_pnl = Fin 1,
     i_sharpe = sharpe, i_drawdown = Fin 20, i_profit_factor = Fin 2, i_audit = Fin 100, i_mismatch = Fin 0,
     i_losses = 3, i_incidents = False\<rparr>"

definition demo_paper_gate :: paper_live_gate where
  "demo_paper_gate = paper_live_gate_new (Some (default_gate_config\<lparr>min_profit_factor := Fin 1,
     max_reconciliation_mismatch_percent := Fin 1\<rparr>)) True"

lemma demo_weeks:
  "duration_weeks (i_start_ms (demo_inputs x)) (millis (clock (sample_world 10) (ticks (sample_world 10) + 2))) = Some (Fin 4)"
proof -
  have "fl_round (of_int 4) = Fin (of_int 4)" by (rule fl_round_of_int) simp
  then show ?thesis
    by (simp add: duration_weeks_def int_div_def demo_inputs_def sample_world_def sample_env_def env.defs sample_clock_def)
qed

lemma demo_config:
  "min_paper_duration_weeks (pg_config demo_paper_gate) = 4" "min_trades (pg_config demo_paper_gate) = 500"
  "min_win_rate_percent (pg_config demo_paper_gate) = Fin 30" "min_net_pnl_threshold (pg_config demo_paper_gate) = Fin 0"
  "min_sharpe_ratio (pg_config demo_paper_gate) = Fin (1/2)" "max_drawdown_percent (pg_config demo_paper_gate) = Fin 100"
  "min_profit_factor (pg_config demo_paper_gate) = Fin 1"
  "min_audit_trail_completeness_percent (pg_config demo_paper_gate) = Fin 99"
  "max_reconciliation_mismatch_percent (pg_config demo_paper_gate) = Fin 1"
  "max_consecutive_losses (pg_config demo_paper_gate) = 10" "require_no_major_incidents (pg_config demo_paper_gate)"
  by (simp_all add: demo_paper_gate_def paper_live_gate_new_def default_gate_config_def)

section \<open>Properties\<close>

text \<open>C26: The gate passes exactly on its eleven criteria. When an evaluation returns, the result is
  passed if and only if the duration in weeks by the clock, the trade count, the win rate, the
  net result, the Sharpe ratio, the drawdown, the profit factor, the audit completeness, the
  reconciliation mismatch, the losing streak and the incidents all meet the configured limits
  (a NaN in any of the numbers fails it); the status says the same, a failed result carries
  one blocking reason per failed criterion, and the remaining requirements are the failed
  criteria. The win rate and the net result must exceed their limits and the losing streak must stay below its own; the
  other limits may be met exactly, also those of the Sharpe ratio, the audit completeness and the mismatch, for
  which DOC-08 section 11 asks more than 0.5, more than 99 and less than 0.1 percent.\<close>

theorem gate_passes_exactly:
  assumes "evaluate_gate iso8601 i g w = (Some q, g', w')"
  shows "\<exists>weeks. duration_weeks (i_start_ms i) (millis (clock w (ticks w + 2))) = Some weeks \<and>
    (let c = pg_config g in
     (q_passed q \<longleftrightarrow> fle (Fin (of_int (min_paper_duration_weeks c))) weeks \<and> min_trades c \<le> i_trades i \<and>
        flt (min_win_rate_percent c) (i_win_rate i) \<and> flt (min_net_pnl_threshold c) (i_net_pnl i) \<and>
        fle (min_sharpe_ratio c) (i_sharpe i) \<and> fle (i_drawdown i) (max_drawdown_percent c) \<and>
        fle (min_profit_factor c) (i_profit_factor i) \<and>
        fle (min_audit_trail_completeness_percent c) (i_audit i) \<and>
        fle (i_mismatch i) (max_reconciliation_mismatch_percent c) \<and>
        i_losses i < max_consecutive_losses c \<and> (\<not> i_incidents i \<or> \<not> require_no_major_incidents c)) \<and>
     q_gate_status q = (if q_passed q then PG_GATE_PASSED else PG_GATE_FAILED) \<and>
     map fst (get_remaining_requirements g') = map fst (filter (Not \<circ> snd) (criteria_verdicts i c weeks)) \<and>
     length (q_blocking_reasons q) = length (get_remaining_requirements g'))"
proof -
  obtain weeks where e: "duration_weeks (i_start_ms i) (millis (clock w (ticks w + 2))) = Some weeks"
    "judged (criteria_verdicts i (pg_config g) weeks) q" "q_passed q = all_passed q"
    "q_gate_status q = (if q_passed q then PG_GATE_PASSED else PG_GATE_FAILED)"
    "g' = g\<lparr>pg_last := Some q\<rparr>"
    using evaluate_spec[OF assms] by metis
  let ?vs = "criteria_verdicts i (pg_config g) weeks"
  have "filter (\<lambda>(n, k). \<not> k_passed k \<and> \<not> not_applicable k) (q_criteria_results q) =
      filter (\<lambda>(n, k). \<not> k_passed k) (q_criteria_results q)"
    using e(2) by (intro filter_cong) (auto simp: judged_def not_applicable_def)
  then have "map fst (get_remaining_requirements g') = map fst (filter (\<lambda>(n, k). \<not> k_passed k) (q_criteria_results q))"
    using e(5) by (simp add: get_remaining_requirements_def split_beta comp_def)
  also have "\<dots> = map fst (filter (Not \<circ> snd) (map (\<lambda>(n, k). (n, k_passed k)) (q_criteria_results q)))"
    by (simp add: filter_map comp_def case_prod_beta')
  also have "\<dots> = map fst (filter (Not \<circ> snd) ?vs)" using e(2) by (simp add: judged_def)
  finally have r: "map fst (get_remaining_requirements g') = map fst (filter (Not \<circ> snd) ?vs)" .
  moreover have "length (q_blocking_reasons q) = length (get_remaining_requirements g')"
    using e(2) arg_cong[OF r, of length] by (simp add: judged_def)
  moreover have "q_passed q \<longleftrightarrow> list_all snd ?vs" using judged_all_passed[OF e(2)] e(3) by simp
  ultimately show ?thesis using e(1,4) by (auto simp: Let_def criteria_verdicts_def)
qed

lemma gate_passes_exactly_witness:
  "\<exists>q r. fst (evaluate_gate (\<lambda>t. ''t'') (demo_inputs (Fin 1)) demo_paper_gate (sample_world 10)) = Some q \<and> q_passed q \<and>
     fst (evaluate_gate (\<lambda>t. ''t'') (demo_inputs NaN) demo_paper_gate (sample_world 10)) = Some r \<and> \<not> q_passed r"
proof -
  obtain q g w where a: "evaluate_gate (\<lambda>t. ''t'') (demo_inputs (Fin 1)) demo_paper_gate (sample_world 10) = (Some q, g, w)"
    by (rule evaluate_returns[OF demo_weeks])
  obtain r h v where b: "evaluate_gate (\<lambda>t. ''t'') (demo_inputs NaN) demo_paper_gate (sample_world 10) = (Some r, h, v)"
    by (rule evaluate_returns[OF demo_weeks])
  have "q_passed q" using gate_passes_exactly[OF a] unfolding demo_weeks by (simp add: demo_config demo_inputs_def Let_def)
  moreover have "\<not> q_passed r" using gate_passes_exactly[OF b] unfolding demo_weeks by (simp add: demo_config demo_inputs_def Let_def)
  ultimately show ?thesis using a b by simp
qed

text \<open>C27: The operator's approval rests on a passed evaluation: in every history the gate shows
  OPERATOR_APPROVED only for a result whose criteria all passed, and then that result, with
  the time of the decision, is the recorded approval; and no approval is ever recorded of a
  result with a failed criterion.\<close>

theorem gate_approval_sound:
  assumes "gate_reachable g"
  shows "(case pg_last g of None \<Rightarrow> True
     | Some q \<Rightarrow> (q_gate_status q = PG_OPERATOR_APPROVED \<longrightarrow> all_passed q \<and> pg_approval g = Some q \<and>
         q_operator_approval_status q = Some PG_OPERATOR_APPROVED \<and> q_operator_approval_timestamp_ms q \<noteq> None)) \<and>
    (case pg_approval g of None \<Rightarrow> True | Some q \<Rightarrow> all_passed q)"
  using gate_reachable_inv[OF assms]
  by (cases "pg_last g"; cases "pg_approval g"; simp add: gate_inv_def decided_status_def)

lemma gate_approval_sound_witness:
  "\<exists>g q. gate_reachable g \<and> pg_last g = Some q \<and> q_gate_status q = PG_OPERATOR_APPROVED \<and> all_passed q"
proof -
  obtain q g w where a: "evaluate_gate (\<lambda>t. ''t'') (demo_inputs (Fin 1)) demo_paper_gate (sample_world 10) = (Some q, g, w)"
    by (rule evaluate_returns[OF demo_weeks])
  obtain weeks where e: "duration_weeks (i_start_ms (demo_inputs (Fin 1)))
      (millis (clock (sample_world 10) (ticks (sample_world 10) + 2))) = Some weeks"
    "judged (criteria_verdicts (demo_inputs (Fin 1)) (pg_config demo_paper_gate) weeks) q" "q_passed q = all_passed q"
    "g = demo_paper_gate\<lparr>pg_last := Some q\<rparr>"
    by (rule evaluate_spec[OF a])
  have "weeks = Fin 4" using e(1) unfolding demo_weeks by simp
  then have "q_passed q"
    using e(3) judged_all_passed[OF e(2)]
    by (simp add: criteria_verdicts_def demo_config demo_inputs_def)
  moreover have "pg_last g = Some q" using e(4) by simp
  ultimately obtain x h v where b: "submit_operator_approval True ''op'' None g w = (Inr x, h, v)"
    "pg_last h = Some x" "q_gate_status x = PG_OPERATOR_APPROVED"
    using submit_passed[where approved = True] by (metis (full_types))
  have "gate_reachable demo_paper_gate" unfolding demo_paper_gate_def by (rule gate_reachable.start)
  then have "gate_reachable g" by (rule gate_reachable.step) (rule gate_step.evaluated[OF a])
  then have "gate_reachable h" by (rule gate_reachable.step) (rule gate_step.decided[OF b(1)])
  with gate_approval_sound[OF this] b show ?thesis by (intro exI[of _ h] exI[of _ x]) simp
qed

text \<open>A gate result survives its dictionary: reading back the dictionary of a result whose
  criteria have distinct names gives the same result.\<close>

theorem gate_result_roundtrip:
  assumes "distinct (map fst (q_criteria_results q))"
  shows "\<exists>w'. gate_result_from_dict iso8601 (gate_result_to_dict q) w = Some (q, w')"
proof -
  obtain q0 w1 where n: "new_gate_result iso8601 (q_passed q) (q_gate_status q) w = (q0, w1)" by fastforce
  obtain t w2 where t: "now_ms w1 = (t, w2)" by fastforce
  obtain w3 where k: "criteria_from_dict (map (\<lambda>(n, k). (n, PDict (criterion_to_dict k)))
      (q_criteria_results q)) [] w2 = Some (q_criteria_results q, w3)"
    using criteria_roundtrip[of "[]" "q_criteria_results q" w2] assms by auto
  have "(if str_given (map_option gate_status_value (q_operator_approval_status q))
      then map_option Some (gate_status_of (the (map_option gate_status_value (q_operator_approval_status q))))
      else Some None) = Some (q_operator_approval_status q)"
    by (cases "q_operator_approval_status q") simp_all
  moreover have "q_passed q0 = q_passed q" "q_gate_status q0 = q_gate_status q"
    using n by (auto simp: new_gate_result_def split: prod.splits)
  ultimately show ?thesis
    using n t k by (simp add: gate_result_from_dict_def)
qed

lemma gate_result_roundtrip_witness:
  "\<exists>q w'. q_criteria_results q \<noteq> [] \<and>
     gate_result_from_dict (\<lambda>t. ''t'') (gate_result_to_dict q) (sample_world 3) = Some (q, w')"
proof -
  obtain q g w where a: "evaluate_gate (\<lambda>t. ''t'') (demo_inputs (Fin 1)) demo_paper_gate (sample_world 10) = (Some q, g, w)"
    by (rule evaluate_returns[OF demo_weeks])
  obtain weeks where e: "judged (criteria_verdicts (demo_inputs (Fin 1)) (pg_config demo_paper_gate) weeks) q"
    by (rule evaluate_spec[OF a])
  have k: "map fst (q_criteria_results q) = map fst (criteria_verdicts (demo_inputs (Fin 1)) (pg_config demo_paper_gate) weeks)"
    by (rule judged_keys[OF e])
  then have "distinct (map fst (q_criteria_results q))" by (simp add: criteria_verdicts_def)
  from gate_result_roundtrip[OF this] obtain w' where
    "gate_result_from_dict (\<lambda>t. ''t'') (gate_result_to_dict q) (sample_world 3) = Some (q, w')" by blast
  moreover have "q_criteria_results q \<noteq> []" using k by (auto simp: criteria_verdicts_def)
  ultimately show ?thesis by blast
qed

end
