(* ===== verification/Earned_Trust.thy ===== *)
theory Earned_Trust
  imports SM_Base Py_Float
begin

text \<open>
  The earned-trust ladder (\<open>app/earned_trust_engine.py\<close>): how long the next authorization may
  live, earned tier by tier. An operation runs on a worker process that shares the state file
  with its siblings: it first takes over a newer file, works on the state, and writes the file.
  The text of the file is its parsed dictionary (\<open>json.loads\<close> of \<open>json.dumps\<close> gives the dictionary
  back), or nothing when it does not parse. Time differences are below the range of floats.
\<close>

section \<open>Tiers, metrics and requirements\<close>

definition TIER_TTL_HOURS :: "(int \<times> int) list" where
  "TIER_TTL_HOURS = [(0, 24), (1, 72), (2, 168), (3, 360)]"

definition TIER_NAMES :: "(int \<times> string) list" where
  "TIER_NAMES = [(0, ''T0 Entry''), (1, ''T1 Provisional''), (2, ''T2 Established''), (3, ''T3 Trusted'')]"

definition PROMOTE_CLEAN_DAYS :: "(int \<times> pyfloat) list" where
  "PROMOTE_CLEAN_DAYS = [(1, Fin 7), (2, Fin 14), (3, Fin 21)]"

record TrustMetrics =
  m_net_pnl :: pyfloat
  m_win_rate_pct :: pyfloat
  m_profit_factor :: pyfloat
  m_sharpe :: pyfloat
  m_cost_ratio :: pyfloat
  m_max_daily_drawdown_pct :: pyfloat
  m_max_window_drawdown_pct :: pyfloat
  m_consecutive_losses :: int
  m_reconciler_major_drift_cycles :: int
  m_critical_incident_count :: int
  m_major_incident_count :: int
  m_observation_days :: pyfloat

definition metrics_to_dict :: "TrustMetrics \<Rightarrow> pydict" where
  "metrics_to_dict m =
     [(''net_pnl'', PFloat (m_net_pnl m)), (''win_rate_pct'', PFloat (m_win_rate_pct m)),
      (''profit_factor'', PFloat (m_profit_factor m)), (''sharpe'', PFloat (m_sharpe m)),
      (''cost_ratio'', PFloat (m_cost_ratio m)),
      (''max_daily_drawdown_pct'', PFloat (m_max_daily_drawdown_pct m)),
      (''max_window_drawdown_pct'', PFloat (m_max_window_drawdown_pct m)),
      (''consecutive_losses'', PInt (m_consecutive_losses m)),
      (''reconciler_major_drift_cycles'', PInt (m_reconciler_major_drift_cycles m)),
      (''critical_incident_count'', PInt (m_critical_incident_count m)),
      (''major_incident_count'', PInt (m_major_incident_count m)),
      (''observation_days'', PFloat (m_observation_days m))]"

record TierRequirements =
  tr_target_tier :: int
  tr_min_clean_days :: pyfloat
  tr_min_net_pnl :: pyfloat
  tr_max_daily_drawdown_pct :: pyfloat
  tr_max_cost_ratio :: pyfloat
  tr_min_win_rate_pct :: "pyfloat option"
  tr_min_profit_factor :: "pyfloat option"
  tr_min_sharpe :: "pyfloat option"
  tr_max_consecutive_losses :: "int option"
  tr_max_window_drawdown_pct :: "pyfloat option"
  tr_zero_critical_incidents :: bool

definition TIER_REQUIREMENTS :: "(int \<times> TierRequirements) list" where
  "TIER_REQUIREMENTS =
     [(1, \<lparr>tr_target_tier = 1, tr_min_clean_days = Fin 7, tr_min_net_pnl = Fin 0,
           tr_max_daily_drawdown_pct = Fin 5, tr_max_cost_ratio = Fin (1/2), tr_min_win_rate_pct = None,
           tr_min_profit_factor = None, tr_min_sharpe = None, tr_max_consecutive_losses = None,
           tr_max_window_drawdown_pct = None, tr_zero_critical_incidents = True\<rparr>),
      (2, \<lparr>tr_target_tier = 2, tr_min_clean_days = Fin 14, tr_min_net_pnl = Fin 0,
           tr_max_daily_drawdown_pct = Fin 5, tr_max_cost_ratio = Fin (1/2), tr_min_win_rate_pct = Some (Fin 35),
           tr_min_profit_factor = Some (flit (12/10)), tr_min_sharpe = Some (Fin (1/2)),
           tr_max_consecutive_losses = None, tr_max_window_drawdown_pct = None,
           tr_zero_critical_incidents = True\<rparr>),
      (3, \<lparr>tr_target_tier = 3, tr_min_clean_days = Fin 21, tr_min_net_pnl = Fin 0,
           tr_max_daily_drawdown_pct = Fin 5, tr_max_cost_ratio = Fin (1/2), tr_min_win_rate_pct = Some (Fin 35),
           tr_min_profit_factor = Some (flit (14/10)), tr_min_sharpe = Some (flit (8/10)),
           tr_max_consecutive_losses = Some 5, tr_max_window_drawdown_pct = Some (Fin 10),
           tr_zero_critical_incidents = True\<rparr>)]"

text \<open>\<open>_check_requirements\<close>: a message for every condition that fails.\<close>

definition check_requirements :: "TierRequirements \<Rightarrow> TrustMetrics \<Rightarrow> pyfloat \<Rightarrow> string list" where
  "check_requirements r m days =
     (if flt days (tr_min_clean_days r)
      then [''clean_days='' @ fmt_fixed 1 days @ '' < required='' @ fmt_fixed 0 (tr_min_clean_days r)] else []) @
     (if fle (m_net_pnl m) (tr_min_net_pnl r)
      then [''net_pnl='' @ fmt_fixed 2 (m_net_pnl m) @ '' must be > '' @ fmt_fixed 2 (tr_min_net_pnl r)] else []) @
     (if flt (tr_max_daily_drawdown_pct r) (m_max_daily_drawdown_pct m)
      then [''max_daily_drawdown='' @ fmt_fixed 1 (m_max_daily_drawdown_pct m) @ ''% > limit='' @
            fmt_fixed 1 (tr_max_daily_drawdown_pct r) @ ''%''] else []) @
     (if flt (tr_max_cost_ratio r) (m_cost_ratio m)
      then [''cost_ratio='' @ fmt_fixed 2 (m_cost_ratio m) @ '' > limit='' @ fmt_fixed 2 (tr_max_cost_ratio r)] else []) @
     (if tr_zero_critical_incidents r \<and> 0 < m_critical_incident_count m
      then [''critical_incidents='' @ int_str (m_critical_incident_count m) @ '' (must be 0)''] else []) @
     (case tr_min_win_rate_pct r of None \<Rightarrow> [] | Some x \<Rightarrow>
        (if flt (m_win_rate_pct m) x
         then [''win_rate='' @ fmt_fixed 1 (m_win_rate_pct m) @ ''% < required='' @ fmt_fixed 1 x @ ''%''] else [])) @
     (case tr_min_profit_factor r of None \<Rightarrow> [] | Some x \<Rightarrow>
        (if flt (m_profit_factor m) x
         then [''profit_factor='' @ fmt_fixed 2 (m_profit_factor m) @ '' < required='' @ fmt_fixed 2 x] else [])) @
     (case tr_min_sharpe r of None \<Rightarrow> [] | Some x \<Rightarrow>
        (if flt (m_sharpe m) x
         then [''sharpe='' @ fmt_fixed 2 (m_sharpe m) @ '' < required='' @ fmt_fixed 2 x] else [])) @
     (case tr_max_consecutive_losses r of None \<Rightarrow> [] | Some n \<Rightarrow>
        (if n < m_consecutive_losses m
         then [''consecutive_losses='' @ int_str (m_consecutive_losses m) @ '' > limit='' @ int_str n] else [])) @
     (case tr_max_window_drawdown_pct r of None \<Rightarrow> [] | Some x \<Rightarrow>
        (if flt x (m_max_window_drawdown_pct m)
         then [''window_drawdown='' @ fmt_fixed 1 (m_max_window_drawdown_pct m) @ ''% > limit='' @
               fmt_fixed 1 x @ ''%''] else []))"

section \<open>The persisted state\<close>

record EarnedTrustState =
  s_current_tier :: int
  s_tier_start_ts_ms :: int
  s_clean_day_streak_start_ts_ms :: int
  s_clean_days_in_tier :: pyfloat
  s_renewals_at_t3 :: int
  s_pending_downgrade_tier :: "int option"
  s_pending_downgrade_reason :: "string option"
  s_last_renewal_ts_ms :: "int option"
  s_last_auth_expires_ts_ms :: "int option"
  s_promotion_history :: "pydict list"
  s_execution_authority_granted :: bool

definition trust_to_dict :: "EarnedTrustState \<Rightarrow> pydict" where
  "trust_to_dict s =
     [(''current_tier'', PInt (s_current_tier s)), (''tier_start_ts_ms'', PInt (s_tier_start_ts_ms s)),
      (''clean_day_streak_start_ts_ms'', PInt (s_clean_day_streak_start_ts_ms s)),
      (''clean_days_in_tier'', PFloat (s_clean_days_in_tier s)),
      (''renewals_at_t3'', PInt (s_renewals_at_t3 s)),
      (''pending_downgrade_tier'', opt_int (s_pending_downgrade_tier s)),
      (''pending_downgrade_reason'', opt_str (s_pending_downgrade_reason s)),
      (''last_renewal_ts_ms'', opt_int (s_last_renewal_ts_ms s)),
      (''last_auth_expires_ts_ms'', opt_int (s_last_auth_expires_ts_ms s)),
      (''promotion_history'', PList (map PDict (s_promotion_history s))),
      (''execution_authority_granted'', PBool (s_execution_authority_granted s))]"

text \<open>Unknown keys are dropped, absent ones take their default. None stands for a value of
  another type than the code writes, outside this model.\<close>

definition trust_from_dict :: "pydict \<Rightarrow> EarnedTrustState option" where
  "trust_from_dict d = do {
     tier \<leftarrow> as_int (dict_get d ''current_tier'' (PInt 0));
     start \<leftarrow> as_int (dict_get d ''tier_start_ts_ms'' (PInt 0));
     streak \<leftarrow> as_int (dict_get d ''clean_day_streak_start_ts_ms'' (PInt 0));
     days \<leftarrow> as_float (dict_get d ''clean_days_in_tier'' (PFloat (Fin 0)));
     renewals \<leftarrow> as_int (dict_get d ''renewals_at_t3'' (PInt 0));
     pending \<leftarrow> as_opt_int (dict_get d ''pending_downgrade_tier'' PNone);
     reason \<leftarrow> as_opt_str (dict_get d ''pending_downgrade_reason'' PNone);
     renewed \<leftarrow> as_opt_int (dict_get d ''last_renewal_ts_ms'' PNone);
     expires \<leftarrow> as_opt_int (dict_get d ''last_auth_expires_ts_ms'' PNone);
     history \<leftarrow> as_dicts (dict_get d ''promotion_history'' (PList []));
     granted \<leftarrow> as_bool (dict_get d ''execution_authority_granted'' (PBool False));
     Some \<lparr>s_current_tier = tier, s_tier_start_ts_ms = start, s_clean_day_streak_start_ts_ms = streak,
       s_clean_days_in_tier = days, s_renewals_at_t3 = renewals, s_pending_downgrade_tier = pending,
       s_pending_downgrade_reason = reason, s_last_renewal_ts_ms = renewed,
       s_last_auth_expires_ts_ms = expires, s_promotion_history = history,
       s_execution_authority_granted = granted\<rparr> }"

definition fresh_trust_state :: "int \<Rightarrow> int \<Rightarrow> EarnedTrustState" where
  "fresh_trust_state start streak =
     \<lparr>s_current_tier = 0, s_tier_start_ts_ms = start, s_clean_day_streak_start_ts_ms = streak,
      s_clean_days_in_tier = Fin 0, s_renewals_at_t3 = 0, s_pending_downgrade_tier = None,
      s_pending_downgrade_reason = None, s_last_renewal_ts_ms = None, s_last_auth_expires_ts_ms = None,
      s_promotion_history = [], s_execution_authority_granted = False\<rparr>"

section \<open>The state file and its workers\<close>

text \<open>
  The file: its dictionary (None: text that does not parse) and its modification time, if it
  exists. Whether the n-th write succeeds, and the time it gives the file, is outside the code.
\<close>

record state_file =
  f_content :: "(pydict option \<times> int) option"
  f_writes :: nat
  f_outcome :: "nat \<Rightarrow> int option"

record worker =
  e_state :: EarnedTrustState
  e_mtime :: int

definition load_or_init :: "state_file \<Rightarrow> 'z env_scheme \<Rightarrow> worker \<times> 'z env_scheme" where
  "load_or_init f w =
     (let fresh = (let (a, w1) = now_ms w; (b, w2) = now_ms w1 in
                   (\<lparr>e_state = fresh_trust_state a b, e_mtime = 0\<rparr>, w2))
      in case f_content f of
           Some (Some d, m) \<Rightarrow>
             (case trust_from_dict d of None \<Rightarrow> fresh | Some s \<Rightarrow> (\<lparr>e_state = s, e_mtime = m\<rparr>, w))
         | _ \<Rightarrow> fresh)"

definition reload_if_stale :: "state_file \<Rightarrow> worker \<Rightarrow> worker" where
  "reload_if_stale f e =
     (case f_content f of
        None \<Rightarrow> e
      | Some (c, m) \<Rightarrow>
          (if m \<le> e_mtime e then e
           else (case Option.bind c trust_from_dict of None \<Rightarrow> e | Some s \<Rightarrow> \<lparr>e_state = s, e_mtime = m\<rparr>)))"

definition save :: "state_file \<Rightarrow> worker \<Rightarrow> worker \<times> state_file" where
  "save f e =
     (let f1 = f\<lparr>f_writes := Suc (f_writes f)\<rparr> in
      case f_outcome f (f_writes f) of
        None \<Rightarrow> (e, f1)
      | Some m \<Rightarrow> (e\<lparr>e_mtime := m\<rparr>, f1\<lparr>f_content := Some (Some (trust_to_dict (e_state e)), m)\<rparr>))"

text \<open>An operation under the lock: what it returns, and the state it stores and saves, if any.\<close>

type_synonym 'r trust_op = "EarnedTrustState \<Rightarrow> world \<Rightarrow> 'r \<times> EarnedTrustState option \<times> world"

definition locked :: "'r trust_op \<Rightarrow> worker \<Rightarrow> state_file \<Rightarrow> world \<Rightarrow> 'r \<times> worker \<times> state_file \<times> world" where
  "locked f e d w =
     (let e1 = reload_if_stale d e; (r, new, w1) = f (e_state e1) w in
      case new of
        None \<Rightarrow> (r, e1, d, w1)
      | Some s \<Rightarrow> (let (e2, d2) = save d (e1\<lparr>e_state := s\<rparr>) in (r, e2, d2, w1)))"

section \<open>Operations on the state\<close>

text \<open>\<open>(a - b) / 86_400_000.0\<close> and \<open>x / 3_600_000.0\<close>.\<close>

definition ms_over :: "int \<Rightarrow> int \<Rightarrow> pyfloat" where
  "ms_over ms unit = (case fdiv (fl_round (of_int ms)) (Fin (of_int unit)) of Some x \<Rightarrow> x | None \<Rightarrow> NaN)"

definition int_get :: "(int \<times> 'a) list \<Rightarrow> int \<Rightarrow> 'a \<Rightarrow> 'a" where
  "int_get d k x = (case map_of d k of None \<Rightarrow> x | Some v \<Rightarrow> v)"

definition get_state_snapshot :: "pydict trust_op" where
  "get_state_snapshot s w =
     (let (remaining, w1) =
            (case s_last_auth_expires_ts_ms s of
               None \<Rightarrow> (None, w)
             | Some t \<Rightarrow> (if t = 0 then (None, w)
                else (let (now, w1) = now_ms w in (Some (ms_over (t - now) 3600000), w1))))
      in ([(''current_tier'', PInt (s_current_tier s)),
           (''tier_name'', PStr (int_get TIER_NAMES (s_current_tier s) ''T0 Entry'')),
           (''tier_ttl_hours'', PInt (int_get TIER_TTL_HOURS (s_current_tier s) 24)),
           (''clean_days_in_tier'', PFloat (py_round 2 (s_clean_days_in_tier s))),
           (''clean_days_required_for_promotion'',
             (case map_of PROMOTE_CLEAN_DAYS (s_current_tier s + 1) of None \<Rightarrow> PNone | Some x \<Rightarrow> PFloat x)),
           (''renewals_at_t3'', PInt (s_renewals_at_t3 s)),
           (''pending_downgrade_tier'', opt_int (s_pending_downgrade_tier s)),
           (''pending_downgrade_reason'', opt_str (s_pending_downgrade_reason s)),
           (''last_renewal_ts_ms'', opt_int (s_last_renewal_ts_ms s)),
           (''last_auth_expires_ts_ms'', opt_int (s_last_auth_expires_ts_ms s)),
           (''expires_remaining_hours'',
             (case remaining of None \<Rightarrow> PNone | Some x \<Rightarrow> PFloat (py_round 2 x))),
           (''near_expiry'', PBool (case remaining of None \<Rightarrow> False
             | Some x \<Rightarrow> flt (Fin 0) x \<and> fle x (Fin 2))),
           (''t3_max_renewals'', PInt 1),
           (''requires_operator_review'', PBool (s_current_tier s = 3 \<and> 1 \<le> s_renewals_at_t3 s)),
           (''execution_authority_granted'', PBool (s_execution_authority_granted s))], None, w1))"

definition on_session_start :: "int \<Rightarrow> unit trust_op" where
  "on_session_start expires s w =
     (let (now, w1) = now_ms w;
          s1 = s\<lparr>s_last_renewal_ts_ms := Some now, s_last_auth_expires_ts_ms := Some expires\<rparr>
      in ((), Some (if s_clean_day_streak_start_ts_ms s = 0
                    then s1\<lparr>s_clean_day_streak_start_ts_ms := now\<rparr> else s1), w1))"

definition tier_change :: "int \<Rightarrow> int \<Rightarrow> int \<Rightarrow> string \<Rightarrow> pydict" where
  "tier_change now from_tier to_tier event =
     [(''ts_ms'', PInt now), (''from_tier'', PInt from_tier), (''to_tier'', PInt to_tier), (''event'', PStr event)]"

definition on_auth_renewed :: "int \<Rightarrow> int \<Rightarrow> unit trust_op" where
  "on_auth_renewed new_tier expires s w =
     (let (now, w1) = now_ms w;
          old = s_current_tier s;
          s1 = (if new_tier \<noteq> old
                then s\<lparr>s_promotion_history := s_promotion_history s @
                         [tier_change now old new_tier (if old < new_tier then ''promotion'' else ''demotion'')],
                       s_current_tier := new_tier, s_tier_start_ts_ms := now, s_clean_days_in_tier := Fin 0,
                       s_clean_day_streak_start_ts_ms := now\<rparr>
                else s\<lparr>s_clean_days_in_tier := ms_over (now - s_clean_day_streak_start_ts_ms s) 86400000\<rparr>);
          s2 = (if new_tier = 3
                then s1\<lparr>s_renewals_at_t3 := (if old = 3 then s_renewals_at_t3 s1 + 1 else 0)\<rparr> else s1)
      in ((), Some (s2\<lparr>s_pending_downgrade_tier := None, s_pending_downgrade_reason := None,
                       s_last_renewal_ts_ms := Some now, s_last_auth_expires_ts_ms := Some expires\<rparr>), w1))"

definition on_authority_granted :: "unit trust_op" where
  "on_authority_granted s w = ((), Some (s\<lparr>s_execution_authority_granted := True\<rparr>), w)"

definition on_authority_revoked :: "unit trust_op" where
  "on_authority_revoked s w = ((), Some (s\<lparr>s_execution_authority_granted := False\<rparr>), w)"

definition on_session_stop :: "unit trust_op" where
  "on_session_stop s w =
     (let (now, w1) = now_ms w;
          history = (if 0 < s_current_tier s
            then s_promotion_history s @ [tier_change now (s_current_tier s) 0 ''session_stop_reset'']
            else s_promotion_history s)
      in ((), Some (s\<lparr>s_promotion_history := history, s_current_tier := 0, s_tier_start_ts_ms := now,
            s_clean_days_in_tier := Fin 0, s_clean_day_streak_start_ts_ms := now, s_renewals_at_t3 := 0,
            s_pending_downgrade_tier := None, s_pending_downgrade_reason := None,
            s_last_auth_expires_ts_ms := None, s_execution_authority_granted := False\<rparr>), w1))"

record MidSessionDowngrade =
  d_from_tier :: int
  d_to_tier :: int
  d_reason :: string
  d_ts_ms :: int

definition downgrade_reason :: "TrustMetrics \<Rightarrow> int \<Rightarrow> 'z env_scheme \<Rightarrow> string option" where
  "downgrade_reason m current w =
     (if 5 \<le> m_consecutive_losses m \<and> 0 < current
      then Some (''consecutive_losses='' @ int_str (m_consecutive_losses m) @ '' >= limit=5'')
      else if 2 \<le> current \<and> fle (Fin 8) (m_max_daily_drawdown_pct m)
      then Some (''daily_drawdown='' @ fmt_fixed 1 (m_max_daily_drawdown_pct m) @ ''% >= T2/T3_limit='' @
                 float_repr w (Fin 8) @ ''%'')
      else if 3 \<le> m_reconciler_major_drift_cycles m \<and> 0 < current
      then Some (''reconciler_major_drift_cycles='' @ int_str (m_reconciler_major_drift_cycles m) @ '' >= limit=3'')
      else None)"

text \<open>The outer None: the tier has no name, and the log line raises \<open>KeyError\<close> after the save.\<close>

definition check_mid_session_downgrade :: "TrustMetrics \<Rightarrow> MidSessionDowngrade option option trust_op" where
  "check_mid_session_downgrade m s w =
     (let current = s_current_tier s; target = current - 1 in
      case downgrade_reason m current w of
        None \<Rightarrow> (Some None, None, w)
      | Some reason \<Rightarrow>
          (if (case s_pending_downgrade_tier s of None \<Rightarrow> True | Some p \<Rightarrow> target < p)
           then (let (now, w1) = now_ms w in
                 ((if map_of TIER_NAMES current = None \<or> map_of TIER_NAMES target = None then None
                   else Some (Some \<lparr>d_from_tier = current, d_to_tier = target, d_reason = reason, d_ts_ms = now\<rparr>)),
                  Some (s\<lparr>s_pending_downgrade_tier := Some target, s_pending_downgrade_reason := Some reason,
                         s_clean_days_in_tier := Fin 0, s_clean_day_streak_start_ts_ms := now\<rparr>), w1))
           else (Some None, None, w)))"

definition record_incident :: "string \<Rightarrow> string \<Rightarrow> unit trust_op" where
  "record_incident severity reason s w =
     (let (now, w1) = now_ms w;
          s1 = s\<lparr>s_clean_days_in_tier := Fin 0, s_clean_day_streak_start_ts_ms := now\<rparr>;
          target = (if severity = ''critical'' then 0 else max 0 (s_current_tier s - 1))
      in ((), Some (if severity \<in> {''critical'', ''major''} \<and> 0 < s_current_tier s \<and>
                       (case s_pending_downgrade_tier s of None \<Rightarrow> True | Some p \<Rightarrow> target < p)
                    then s1\<lparr>s_pending_downgrade_tier := Some target,
                            s_pending_downgrade_reason := Some (severity @ ''_incident: '' @ reason)\<rparr>
                    else s1), w1))"

definition compute_current_clean_days :: "EarnedTrustState \<Rightarrow> 'z env_scheme \<Rightarrow> pyfloat \<times> 'z env_scheme" where
  "compute_current_clean_days s w =
     (let (now, w1) = now_ms w;
          streak = (if s_clean_day_streak_start_ts_ms s = 0 then now else s_clean_day_streak_start_ts_ms s)
      in (fmax (Fin 0) (ms_over (now - streak) 86400000), w1))"

definition update_clean_days :: "unit trust_op" where
  "update_clean_days s w =
     (if s_pending_downgrade_tier s = None
      then (let (days, w1) = compute_current_clean_days s w in ((), Some (s\<lparr>s_clean_days_in_tier := days\<rparr>), w1))
      else ((), None, w))"

section \<open>The renewal recommendation\<close>

record RenewalRecommendation =
  n_recommended_tier :: int
  n_recommended_ttl_hours :: int
  n_current_tier :: int
  n_action :: string
  n_reasons :: "string list"
  n_metrics_snapshot :: pydict
  n_requires_operator_review :: bool

definition recommend :: "int \<Rightarrow> int \<Rightarrow> string \<Rightarrow> string list \<Rightarrow> TrustMetrics \<Rightarrow> bool \<Rightarrow> RenewalRecommendation option" where
  "recommend current proposed action reasons m review =
     map_option (\<lambda>ttl. \<lparr>n_recommended_tier = proposed, n_recommended_ttl_hours = ttl, n_current_tier = current,
        n_action = action, n_reasons = reasons, n_metrics_snapshot = metrics_to_dict m,
        n_requires_operator_review = review\<rparr>) (map_of TIER_TTL_HOURS proposed)"

definition renewal_action :: "int \<Rightarrow> int \<Rightarrow> string" where
  "renewal_action current proposed =
     (if current < proposed then ''promote'' else if proposed < current then ''demote'' else ''maintain'')"

text \<open>What is proposed and why; None where a tier without a name or a TTL raises \<open>KeyError\<close>.\<close>

definition conclude_renewal :: "TrustMetrics \<Rightarrow> int \<Rightarrow> int \<Rightarrow> string list \<Rightarrow> RenewalRecommendation option" where
  "conclude_renewal m current proposed reasons =
     recommend current proposed (renewal_action current proposed) reasons m False"

definition evaluate_standing ::
  "TrustMetrics \<Rightarrow> EarnedTrustState \<Rightarrow> pyfloat \<Rightarrow> 'z env_scheme \<Rightarrow> RenewalRecommendation option" where
  "evaluate_standing m s days w =
     (let current = s_current_tier s in
      if current < 3 then
        (case map_of TIER_REQUIREMENTS (current + 1) of
           None \<Rightarrow> conclude_renewal m current current []
         | Some r \<Rightarrow>
             (let failures = check_requirements r m days in
              if failures = [] then
                Option.bind (map_of TIER_NAMES (current + 1)) (\<lambda>name.
                  conclude_renewal m current (current + 1)
                    [''All conditions met for '' @ name @ '' (clean_days='' @ fmt_fixed 1 days @ ''/'' @
                     float_repr w (tr_min_clean_days r) @ '')''])
              else
                Option.bind (map_of TIER_NAMES current) (\<lambda>name.
                  conclude_renewal m current current (failures @ [''Maintaining '' @ name]))))
      else if current = 3 then
        (if 1 \<le> s_renewals_at_t3 s then
           recommend current current ''block_review''
             [''T3 has auto-renewed '' @ int_str (s_renewals_at_t3 s) @
              ''x (max=1). Mandatory full Operator review required before next renewal.''] m True
         else
           (case map_of TIER_REQUIREMENTS 3 of
              None \<Rightarrow> conclude_renewal m current current []
            | Some r \<Rightarrow>
                (let failures = check_requirements r m days in
                 if failures \<noteq> [] then
                   conclude_renewal m current 2 (failures @
                     [''Conditions not met '' @ utf8 [0xE2, 0x80, 0x94] @ '' demoting to T2 Established''])
                 else conclude_renewal m current current
                   [''T3 auto-renewal #'' @ int_str (s_renewals_at_t3 s + 1) @ ''/1''])))
      else conclude_renewal m current current [])"

definition evaluate_tier ::
  "TrustMetrics \<Rightarrow> EarnedTrustState \<Rightarrow> pyfloat \<Rightarrow> 'z env_scheme \<Rightarrow> RenewalRecommendation option" where
  "evaluate_tier m s days w =
     (case s_pending_downgrade_tier s of
        None \<Rightarrow> evaluate_standing m s days w
      | Some p \<Rightarrow>
          (if p < s_current_tier s then
             (case (map_of TIER_NAMES (s_current_tier s), map_of TIER_NAMES p) of
                (Some a, Some b) \<Rightarrow> conclude_renewal m (s_current_tier s) p
                  [''Pending mid-session downgrade: '' @ a @ utf8 [0x20, 0xE2, 0x86, 0x92, 0x20] @ b @
                   '' ('' @ (case s_pending_downgrade_reason s of None \<Rightarrow> ''None'' | Some r \<Rightarrow> r) @ '')'']
              | _ \<Rightarrow> None)
           else evaluate_standing m s days w))"

definition evaluate_renewal :: "TrustMetrics \<Rightarrow> RenewalRecommendation option trust_op" where
  "evaluate_renewal m s w =
     (let (days, w1) = compute_current_clean_days s w in (evaluate_tier m s days w1, None, w1))"

section \<open>What the requirements say\<close>

definition unless_given :: "'a option \<Rightarrow> ('a \<Rightarrow> bool) \<Rightarrow> bool" where
  "unless_given x bad \<longleftrightarrow> (case x of None \<Rightarrow> True | Some v \<Rightarrow> \<not> bad v)"

lemma requirements_met:
  "check_requirements r m days = [] \<longleftrightarrow>
     \<not> flt days (tr_min_clean_days r) \<and> \<not> fle (m_net_pnl m) (tr_min_net_pnl r) \<and>
     \<not> flt (tr_max_daily_drawdown_pct r) (m_max_daily_drawdown_pct m) \<and>
     \<not> flt (tr_max_cost_ratio r) (m_cost_ratio m) \<and>
     (tr_zero_critical_incidents r \<longrightarrow> m_critical_incident_count m \<le> 0) \<and>
     unless_given (tr_min_win_rate_pct r) (\<lambda>x. flt (m_win_rate_pct m) x) \<and>
     unless_given (tr_min_profit_factor r) (\<lambda>x. flt (m_profit_factor m) x) \<and>
     unless_given (tr_min_sharpe r) (\<lambda>x. flt (m_sharpe m) x) \<and>
     unless_given (tr_max_consecutive_losses r) (\<lambda>n. n < m_consecutive_losses m) \<and>
     unless_given (tr_max_window_drawdown_pct r) (\<lambda>x. flt x (m_max_window_drawdown_pct m))"
  unfolding check_requirements_def append_is_Nil_conv unless_given_def
  by (auto split: option.splits if_splits)

lemma trust_roundtrip: "trust_from_dict (trust_to_dict s) = Some s"
  by (simp add: trust_from_dict_def trust_to_dict_def dict_get_def)

lemma reload_content:
  "f_content d = Some (Some (trust_to_dict s), m) \<Longrightarrow> e_mtime e < m \<Longrightarrow> reload_if_stale d e = \<lparr>e_state = s, e_mtime = m\<rparr>"
  by (simp add: reload_if_stale_def trust_roundtrip)

section \<open>Commands, one process and many\<close>

datatype trust_cmd =
    C_Snapshot
  | C_Start int
  | C_Renew int int
  | C_Grant
  | C_Revoke
  | C_Stop
  | C_Check TrustMetrics
  | C_Incident string string
  | C_Evaluate TrustMetrics
  | C_Update

fun cmd_op :: "trust_cmd \<Rightarrow> unit trust_op" where
  "cmd_op C_Snapshot s w = ((), snd (get_state_snapshot s w))"
| "cmd_op (C_Start e) s w = on_session_start e s w"
| "cmd_op (C_Renew t e) s w = on_auth_renewed t e s w"
| "cmd_op C_Grant s w = on_authority_granted s w"
| "cmd_op C_Revoke s w = on_authority_revoked s w"
| "cmd_op C_Stop s w = on_session_stop s w"
| "cmd_op (C_Check m) s w = ((), snd (check_mid_session_downgrade m s w))"
| "cmd_op (C_Incident v r) s w = record_incident v r s w"
| "cmd_op (C_Evaluate m) s w = ((), snd (evaluate_renewal m s w))"
| "cmd_op C_Update s w = update_clean_days s w"

text \<open>The specification: one state, and the commands in order.\<close>

fun single_run :: "trust_cmd list \<Rightarrow> EarnedTrustState \<Rightarrow> world \<Rightarrow> EarnedTrustState \<times> world" where
  "single_run [] s w = (s, w)"
| "single_run (c # cs) s w =
     (let (_, new, w1) = cmd_op c s w in single_run cs (case new of None \<Rightarrow> s | Some s1 \<Rightarrow> s1) w1)"

text \<open>The implementation: workers that share the file, each command run by one of them.\<close>

fun cluster_run ::
  "(nat \<times> trust_cmd) list \<Rightarrow> (nat \<Rightarrow> worker) \<Rightarrow> state_file \<Rightarrow> world \<Rightarrow> (nat \<Rightarrow> worker) \<times> state_file \<times> world" where
  "cluster_run [] ws d w = (ws, d, w)"
| "cluster_run ((k, c) # cs) ws d w =
     (let (_, e, d1, w1) = locked (cmd_op c) (ws k) d w in cluster_run cs (ws(k := e)) d1 w1)"

text \<open>The file holds the state, and no worker has seen a newer file or, seeing this one, differs.\<close>

definition agree :: "(nat \<Rightarrow> int) \<Rightarrow> (nat \<Rightarrow> worker) \<Rightarrow> state_file \<Rightarrow> EarnedTrustState \<Rightarrow> bool" where
  "agree stamp ws d s \<longleftrightarrow> f_outcome d = (\<lambda>n. Some (stamp n)) \<and>
     (\<exists>m. f_content d = Some (Some (trust_to_dict s), m) \<and> m < stamp (f_writes d) \<and>
       (\<forall>k. e_mtime (ws k) \<le> m \<and> (e_mtime (ws k) = m \<longrightarrow> e_state (ws k) = s)))"

lemma agree_reload:
  assumes "agree stamp ws d s"
  shows "e_state (reload_if_stale d (ws k)) = s"
    "\<exists>m. f_content d = Some (Some (trust_to_dict s), m) \<and> e_mtime (reload_if_stale d (ws k)) = m \<and>
       m < stamp (f_writes d) \<and> (\<forall>k. e_mtime (ws k) \<le> m \<and> (e_mtime (ws k) = m \<longrightarrow> e_state (ws k) = s))"
proof -
  obtain m where m: "f_content d = Some (Some (trust_to_dict s), m)" "m < stamp (f_writes d)"
    "\<forall>k. e_mtime (ws k) \<le> m \<and> (e_mtime (ws k) = m \<longrightarrow> e_state (ws k) = s)"
    using assms by (auto simp: agree_def)
  have "e_state (reload_if_stale d (ws k)) = s \<and> e_mtime (reload_if_stale d (ws k)) = m"
  proof (cases "e_mtime (ws k) = m")
    case True
    then have "reload_if_stale d (ws k) = ws k" using m(1) by (simp add: reload_if_stale_def)
    with True m(3) show ?thesis by simp
  next
    case False
    with m(3) have "e_mtime (ws k) < m" by (simp add: order_less_le)
    with reload_content[OF m(1)] show ?thesis by simp
  qed
  with m show "e_state (reload_if_stale d (ws k)) = s"
    "\<exists>m. f_content d = Some (Some (trust_to_dict s), m) \<and> e_mtime (reload_if_stale d (ws k)) = m \<and>
       m < stamp (f_writes d) \<and> (\<forall>k. e_mtime (ws k) \<le> m \<and> (e_mtime (ws k) = m \<longrightarrow> e_state (ws k) = s))"
    by auto
qed

lemma locked_refines:
  assumes "agree stamp ws d s" "strict_mono stamp" "locked f (ws k) d w = (r, e, d1, w1)"
    and "f s w = (r', new, w2)"
  shows "r = r' \<and> w1 = w2 \<and> agree stamp (ws(k := e)) d1 (case new of None \<Rightarrow> s | Some s1 \<Rightarrow> s1)"
proof -
  note reload = agree_reload[OF assms(1), of k]
  obtain m where m: "f_content d = Some (Some (trust_to_dict s), m)" "e_mtime (reload_if_stale d (ws k)) = m"
    "m < stamp (f_writes d)" "\<forall>k. e_mtime (ws k) \<le> m \<and> (e_mtime (ws k) = m \<longrightarrow> e_state (ws k) = s)"
    using reload(2) by blast
  have out: "f_outcome d = (\<lambda>n. Some (stamp n))" using assms(1) by (simp add: agree_def)
  show ?thesis
  proof (cases new)
    case None
    then have "r = r'" "w1 = w2" "e = reload_if_stale d (ws k)" "d1 = d"
      using assms(3,4) reload(1) by (auto simp: locked_def)
    moreover have "agree stamp (ws(k := reload_if_stale d (ws k))) d s"
      using m out reload(1) by (simp add: agree_def)
    ultimately show ?thesis using None by simp
  next
    case (Some s1)
    let ?t = "stamp (f_writes d)"
    have res: "r = r'" "w1 = w2" "e = \<lparr>e_state = s1, e_mtime = ?t\<rparr>"
      "d1 = d\<lparr>f_writes := Suc (f_writes d), f_content := Some (Some (trust_to_dict s1), ?t)\<rparr>"
      using assms(3,4) reload(1) Some out by (auto simp: locked_def save_def Let_def)
    have "?t < stamp (Suc (f_writes d))" using assms(2) by (simp add: strict_mono_Suc_iff)
    moreover have "e_mtime (ws j) < ?t" for j using m(3,4) by (meson order_le_less_trans)
    ultimately have "agree stamp (ws(k := e)) d1 s1"
      using res(3,4) out by (auto simp: agree_def less_imp_le dest: less_imp_neq)
    with res Some show ?thesis by simp
  qed
qed

section \<open>The invariant of the ladder\<close>

definition trust_inv :: "EarnedTrustState \<Rightarrow> bool" where
  "trust_inv s \<longleftrightarrow> 0 \<le> s_current_tier s \<and> s_current_tier s \<le> 3 \<and> 0 \<le> s_renewals_at_t3 s \<and>
     (\<forall>p. s_pending_downgrade_tier s = Some p \<longrightarrow> 0 \<le> p \<and> p < s_current_tier s)"

text \<open>The routes renew at one of the four tiers.\<close>

fun tiered :: "trust_cmd \<Rightarrow> bool" where
  "tiered (C_Renew t e) = (0 \<le> t \<and> t \<le> 3)"
| "tiered _ = True"

lemma downgrade_needs_tier: "downgrade_reason m c w = Some r \<Longrightarrow> 0 < c"
  by (auto simp: downgrade_reason_def split: if_splits)

lemma trust_inv_cmd:
  assumes "trust_inv s" "tiered c" "cmd_op c s w = (r, Some s1, w1)"
  shows "trust_inv s1"
proof (cases c)
  case (C_Check m)
  then show ?thesis
    using assms downgrade_needs_tier[of m "s_current_tier s" w]
    by (auto simp: trust_inv_def check_mid_session_downgrade_def now_ms_def Let_def split: option.splits if_splits)
qed (use assms in \<open>auto simp: trust_inv_def get_state_snapshot_def on_session_start_def on_auth_renewed_def
  on_authority_granted_def on_authority_revoked_def on_session_stop_def record_incident_def evaluate_renewal_def
  update_clean_days_def now_ms_def Let_def split: prod.splits option.splits if_splits\<close>)

lemma trust_inv_run:
  "trust_inv s \<Longrightarrow> list_all tiered cs \<Longrightarrow> trust_inv (fst (single_run cs s w))"
proof (induction cs arbitrary: s w)
  case (Cons c cs)
  obtain r new w1 where o: "cmd_op c s w = (r, new, w1)" by (metis prod_cases3)
  have "trust_inv (case new of None \<Rightarrow> s | Some s1 \<Rightarrow> s1)"
    using Cons.prems trust_inv_cmd[of s c w r _ w1] o by (cases new) simp_all
  from Cons.IH[OF this] Cons.prems(2) o show ?case by simp
qed simp

lemma trust_inv_fresh: "trust_inv (fresh_trust_state a b)"
  by (simp add: trust_inv_def fresh_trust_state_def)

lemma tier_tables:
  "0 \<le> t \<Longrightarrow> t \<le> 3 \<Longrightarrow> \<exists>n h. map_of TIER_NAMES t = Some n \<and> map_of TIER_TTL_HOURS t = Some h"
  "0 < t \<Longrightarrow> t \<le> 3 \<Longrightarrow> \<exists>r. map_of TIER_REQUIREMENTS t = Some r"
proof -
  assume t: "0 \<le> t" "t \<le> 3"
  then consider "t = 0" | "t = 1" | "t = 2" | "t = 3" by linarith
  then show "\<exists>n h. map_of TIER_NAMES t = Some n \<and> map_of TIER_TTL_HOURS t = Some h"
    by cases (simp_all add: TIER_NAMES_def TIER_TTL_HOURS_def)
next
  assume "0 < t" "t \<le> 3"
  then consider "t = 1" | "t = 2" | "t = 3" by linarith
  then show "\<exists>r. map_of TIER_REQUIREMENTS t = Some r"
    by cases (simp_all add: TIER_REQUIREMENTS_def)
qed

lemma conclude_renewal_eq:
  "0 \<le> p \<Longrightarrow> p \<le> 3 \<Longrightarrow> \<exists>rec. conclude_renewal m c p rs = Some rec \<and> n_recommended_tier rec = p \<and>
     n_current_tier rec = c \<and> n_action rec = renewal_action c p \<and> \<not> n_requires_operator_review rec \<and>
     map_of TIER_TTL_HOURS p = Some (n_recommended_ttl_hours rec)"
  using tier_tables(1)[of p] by (auto simp: conclude_renewal_def recommend_def)

text \<open>The recommendation on a state of the ladder, by cases.\<close>

lemma evaluate_pending:
  assumes "trust_inv s" "s_pending_downgrade_tier s = Some p"
  shows "\<exists>rec. evaluate_tier m s days w = Some rec \<and> n_recommended_tier rec = p \<and>
    n_current_tier rec = s_current_tier s \<and> n_action rec = ''demote'' \<and> \<not> n_requires_operator_review rec \<and>
    map_of TIER_TTL_HOURS p = Some (n_recommended_ttl_hours rec)"
proof -
  have p: "0 \<le> p" "p < s_current_tier s" "p \<le> 3" "0 \<le> s_current_tier s" "s_current_tier s \<le> 3"
    using assms by (auto simp: trust_inv_def)
  obtain a where a: "map_of TIER_NAMES (s_current_tier s) = Some a" using tier_tables(1)[OF p(4,5)] by blast
  obtain b where b: "map_of TIER_NAMES p = Some b" using tier_tables(1)[OF p(1,3)] by blast
  show ?thesis
    using conclude_renewal_eq[OF p(1,3), of m "s_current_tier s"] p(2) assms(2) a b
    by (simp add: evaluate_tier_def renewal_action_def)
qed

lemma evaluate_climbing:
  assumes "0 \<le> s_current_tier s" "s_current_tier s < 3" "s_pending_downgrade_tier s = None"
    and "map_of TIER_REQUIREMENTS (s_current_tier s + 1) = Some r"
  shows "\<exists>rec. evaluate_tier m s days w = Some rec \<and> n_current_tier rec = s_current_tier s \<and>
    n_recommended_tier rec = s_current_tier s + (if check_requirements r m days = [] then 1 else 0) \<and>
    n_action rec = (if check_requirements r m days = [] then ''promote'' else ''maintain'') \<and>
    \<not> n_requires_operator_review rec \<and>
    map_of TIER_TTL_HOURS (n_recommended_tier rec) = Some (n_recommended_ttl_hours rec)"
proof -
  let ?c = "s_current_tier s"
  obtain a where a: "map_of TIER_NAMES ?c = Some a" using tier_tables(1)[of ?c] assms(1,2) by auto
  obtain b where b: "map_of TIER_NAMES (?c + 1) = Some b" using tier_tables(1)[of "?c + 1"] assms(1,2) by auto
  show ?thesis
  proof (cases "check_requirements r m days = []")
    case True
    obtain rec where "conclude_renewal m ?c (?c + 1)
        [''All conditions met for '' @ b @ '' (clean_days='' @ fmt_fixed 1 days @ ''/'' @
         float_repr w (tr_min_clean_days r) @ '')''] = Some rec \<and> n_recommended_tier rec = ?c + 1 \<and>
        n_current_tier rec = ?c \<and> n_action rec = renewal_action ?c (?c + 1) \<and> \<not> n_requires_operator_review rec \<and>
        map_of TIER_TTL_HOURS (?c + 1) = Some (n_recommended_ttl_hours rec)"
      using conclude_renewal_eq[of "?c + 1" m ?c] assms(1,2) by fastforce
    with True assms b show ?thesis by (simp add: evaluate_tier_def evaluate_standing_def renewal_action_def)
  next
    case False
    obtain rec where "conclude_renewal m ?c ?c (check_requirements r m days @ [''Maintaining '' @ a]) = Some rec \<and>
        n_recommended_tier rec = ?c \<and> n_current_tier rec = ?c \<and> n_action rec = renewal_action ?c ?c \<and>
        \<not> n_requires_operator_review rec \<and> map_of TIER_TTL_HOURS ?c = Some (n_recommended_ttl_hours rec)"
      using conclude_renewal_eq[of ?c m ?c] assms(1,2) by fastforce
    with False assms a show ?thesis by (simp add: evaluate_tier_def evaluate_standing_def renewal_action_def Let_def)
  qed
qed

lemma evaluate_top:
  assumes "s_current_tier s = 3" "s_pending_downgrade_tier s = None"
  shows "\<exists>rec. evaluate_tier m s days w = Some rec \<and> n_current_tier rec = 3 \<and> n_recommended_tier rec \<in> {2, 3} \<and>
    map_of TIER_TTL_HOURS (n_recommended_tier rec) = Some (n_recommended_ttl_hours rec) \<and>
    (1 \<le> s_renewals_at_t3 s \<longrightarrow> n_recommended_tier rec = 3 \<and> n_action rec = ''block_review'' \<and>
       n_requires_operator_review rec)"
proof (cases "1 \<le> s_renewals_at_t3 s")
  case True
  then show ?thesis using assms
    by (simp add: evaluate_tier_def evaluate_standing_def recommend_def TIER_TTL_HOURS_def)
next
  case False
  obtain r where r: "map_of TIER_REQUIREMENTS 3 = Some r" using tier_tables(2)[of 3] by auto
  have c: "\<exists>rec. conclude_renewal m 3 p rs = Some rec \<and> n_current_tier rec = 3 \<and> n_recommended_tier rec \<in> {2, 3} \<and>
      map_of TIER_TTL_HOURS (n_recommended_tier rec) = Some (n_recommended_ttl_hours rec)" if "p \<in> {2, 3}" for p rs
    using conclude_renewal_eq[of p m 3 rs] that by auto
  show ?thesis
    using False assms r c
    by (cases "check_requirements r m days = []") (simp_all add: evaluate_tier_def evaluate_standing_def Let_def)
qed

lemma evaluate_renewal_eq:
  "fst (evaluate_renewal m s w) = evaluate_tier m s (fst (compute_current_clean_days s w)) (snd (compute_current_clean_days s w))"
  by (simp add: evaluate_renewal_def split_beta)

lemma evaluate_bounds:
  assumes "trust_inv s"
  shows "\<exists>rec. evaluate_tier m s days w = Some rec \<and> 0 \<le> n_recommended_tier rec \<and>
    n_recommended_tier rec \<le> 3 \<and> n_recommended_tier rec \<le> s_current_tier s + 1 \<and>
    map_of TIER_TTL_HOURS (n_recommended_tier rec) = Some (n_recommended_ttl_hours rec) \<and>
    (\<forall>p. s_pending_downgrade_tier s = Some p \<longrightarrow> n_recommended_tier rec = p)"
proof -
  have t: "0 \<le> s_current_tier s" "s_current_tier s \<le> 3" using assms by (simp_all add: trust_inv_def)
  show ?thesis
  proof (cases "s_pending_downgrade_tier s")
    case (Some p)
    then have "0 \<le> p" "p < s_current_tier s" using assms by (simp_all add: trust_inv_def)
    with evaluate_pending[OF assms Some, of m days w] t(2) Some show ?thesis by auto
  next
    case None
    show ?thesis
    proof (cases "s_current_tier s = 3")
      case True
      obtain rec where "evaluate_tier m s days w = Some rec" "n_recommended_tier rec \<in> {2, 3}"
        "map_of TIER_TTL_HOURS (n_recommended_tier rec) = Some (n_recommended_ttl_hours rec)"
        using evaluate_top[OF True None, of m days w] by blast
      with True None show ?thesis by auto
    next
      case False
      with t have c: "0 \<le> s_current_tier s" "s_current_tier s < 3" by simp_all
      obtain r where "map_of TIER_REQUIREMENTS (s_current_tier s + 1) = Some r"
        using tier_tables(2)[of "s_current_tier s + 1"] c by auto
      from evaluate_climbing[OF c None this, of m days w] c None show ?thesis by (auto split: if_splits)
    qed
  qed
qed

section \<open>Properties\<close>

text \<open>C31: Many workers act as one. When the file holds the state and each write gives it a later
  modification time than all before, then any commands, run by any workers in any
  distribution, leave the file holding exactly the state that one process reaches on the same
  commands in the same order, and every worker works from that state next.\<close>

theorem trust_workers_refine:
  assumes "agree stamp ws d s" "strict_mono stamp" "cluster_run kcs ws d w = (ws', d', w')"
  shows "agree stamp ws' d' (fst (single_run (map snd kcs) s w)) \<and> w' = snd (single_run (map snd kcs) s w) \<and>
    e_state (reload_if_stale d' (ws' k)) = fst (single_run (map snd kcs) s w)"
proof -
  have "agree stamp ws' d' (fst (single_run (map snd kcs) s w)) \<and> w' = snd (single_run (map snd kcs) s w)"
    using assms(1,3)
  proof (induction kcs arbitrary: ws d s w)
    case (Cons kc kcs)
    obtain k c where kc: "kc = (k, c)" by fastforce
    obtain r e d1 w1 where l: "locked (cmd_op c) (ws k) d w = (r, e, d1, w1)" by (metis prod_cases4)
    obtain r' new w2 where o: "cmd_op c s w = (r', new, w2)" by (metis prod_cases3)
    from locked_refines[OF Cons.prems(1) assms(2) l o]
    have n: "w1 = w2" "agree stamp (ws(k := e)) d1 (case new of None \<Rightarrow> s | Some s1 \<Rightarrow> s1)" by simp_all
    have "cluster_run kcs (ws(k := e)) d1 w2 = (ws', d', w')" using Cons.prems(2) kc l n(1) by simp
    from Cons.IH[OF n(2) this] show ?case by (simp add: o kc)
  qed simp
  with agree_reload(1) show ?thesis by blast
qed

definition demo_trust :: EarnedTrustState where
  "demo_trust = (fresh_trust_state 1000 1000)\<lparr>s_current_tier := 1\<rparr>"

definition demo_metrics :: TrustMetrics where
  "demo_metrics = \<lparr>m_net_pnl = Fin 0, m_win_rate_pct = Fin 0, m_profit_factor = Fin 0, m_sharpe = Fin 0,
     m_cost_ratio = Fin 0, m_max_daily_drawdown_pct = Fin 0, m_max_window_drawdown_pct = Fin 0,
     m_consecutive_losses = 0, m_reconciler_major_drift_cycles = 0, m_critical_incident_count = 0,
     m_major_incident_count = 0, m_observation_days = Fin 0\<rparr>"

lemma trust_workers_refine_witness:
  "\<exists>(ws :: nat \<Rightarrow> worker) d. e_state (reload_if_stale d (ws 2)) =
     fst (single_run [C_Renew 2 9000, C_Incident ''critical'' ''x''] demo_trust (sample_world 10))"
proof -
  define ws where "ws = (\<lambda>k :: nat. \<lparr>e_state = fresh_trust_state 0 0, e_mtime = 0\<rparr>)"
  define d where "d = \<lparr>f_content = Some (Some (trust_to_dict demo_trust), 1), f_writes = 1,
    f_outcome = (\<lambda>n. Some (int n + 1))\<rparr>"
  have a: "agree (\<lambda>n. int n + 1) ws d demo_trust" by (simp add: agree_def ws_def d_def)
  have m: "strict_mono (\<lambda>n. int n + 1)" by (simp add: strict_mono_def)
  obtain ws' d' w' where "cluster_run [(0, C_Renew 2 9000), (1, C_Incident ''critical'' ''x'')] ws d (sample_world 10) = (ws', d', w')"
    by (metis prod_cases3)
  from trust_workers_refine[OF a m this, of 2] show ?thesis
    unfolding list.map snd_conv by blast
qed

text \<open>C32: The ladder is climbed one tier at a time. After any commands on a fresh ladder, with
  renewals at the four tiers only, the evaluation of a renewal returns (no tier without a name
  or a TTL), recommends a tier from 0 to 3 at most one above the current tier with that tier's
  time to live, and exactly the pending lower tier when a downgrade is pending.\<close>

theorem trust_one_step_up:
  assumes "list_all tiered cs"
  shows "let s = fst (single_run cs (fresh_trust_state a b) w) in
    \<exists>rec. fst (evaluate_renewal m s v) = Some rec \<and> 0 \<le> n_recommended_tier rec \<and>
      n_recommended_tier rec \<le> 3 \<and> n_recommended_tier rec \<le> s_current_tier s + 1 \<and>
      map_of TIER_TTL_HOURS (n_recommended_tier rec) = Some (n_recommended_ttl_hours rec) \<and>
      (\<forall>p. s_pending_downgrade_tier s = Some p \<longrightarrow> p < s_current_tier s \<and> n_recommended_tier rec = p)"
proof -
  have "trust_inv (fst (single_run cs (fresh_trust_state a b) w))"
    by (rule trust_inv_run[OF trust_inv_fresh assms])
  from this evaluate_bounds[OF this] show ?thesis
    unfolding Let_def evaluate_renewal_eq trust_inv_def by blast
qed

lemma trust_one_step_up_witness:
  "\<exists>rec. fst (evaluate_renewal demo_metrics (fst (single_run [C_Renew 3 9000, C_Incident ''critical'' ''x'']
     (fresh_trust_state 1 1) (sample_world 10))) (sample_world 20)) = Some rec \<and> n_recommended_tier rec \<le> 3"
proof -
  have "list_all tiered [C_Renew 3 9000, C_Incident ''critical'' ''x'']" by simp
  from trust_one_step_up[OF this, of 1 1 "sample_world 10" demo_metrics "sample_world 20"] show ?thesis
    unfolding Let_def by blast
qed

text \<open>C33: Promotion, exactly. Below the top tier and with no downgrade pending the evaluation
  recommends the next tier if and only if none of that tier's limits is exceeded, and
  otherwise the tier stays; the comparisons are the negated ones of the code, so a NaN passes.\<close>

theorem trust_promotion_exact:
  assumes "0 \<le> s_current_tier s" "s_current_tier s < 3" "s_pending_downgrade_tier s = None"
    and "map_of TIER_REQUIREMENTS (s_current_tier s + 1) = Some r"
    and "compute_current_clean_days s w = (days, w1)"
  shows "\<exists>rec. fst (evaluate_renewal m s w) = Some rec \<and>
    n_recommended_tier rec = s_current_tier s +
      (if \<not> flt days (tr_min_clean_days r) \<and> \<not> fle (m_net_pnl m) (tr_min_net_pnl r) \<and>
          \<not> flt (tr_max_daily_drawdown_pct r) (m_max_daily_drawdown_pct m) \<and>
          \<not> flt (tr_max_cost_ratio r) (m_cost_ratio m) \<and>
          (tr_zero_critical_incidents r \<longrightarrow> m_critical_incident_count m \<le> 0) \<and>
          unless_given (tr_min_win_rate_pct r) (\<lambda>x. flt (m_win_rate_pct m) x) \<and>
          unless_given (tr_min_profit_factor r) (\<lambda>x. flt (m_profit_factor m) x) \<and>
          unless_given (tr_min_sharpe r) (\<lambda>x. flt (m_sharpe m) x) \<and>
          unless_given (tr_max_consecutive_losses r) (\<lambda>n. n < m_consecutive_losses m) \<and>
          unless_given (tr_max_window_drawdown_pct r) (\<lambda>x. flt x (m_max_window_drawdown_pct m))
       then 1 else 0)"
  using evaluate_climbing[OF assms(1-4), of m days w1] assms(5)
  unfolding evaluate_renewal_eq requirements_met by auto

lemma demo_trust_fields:
  "s_current_tier demo_trust = 1" "s_pending_downgrade_tier demo_trust = None" "trust_inv demo_trust"
  "s_clean_day_streak_start_ts_ms demo_trust = 1000"
  by (simp_all add: demo_trust_def fresh_trust_state_def trust_inv_def)

lemma trust_promotion_exact_witness:
  "\<exists>rec. fst (evaluate_renewal (demo_metrics\<lparr>m_net_pnl := Fin 1\<rparr>) (fresh_trust_state 1000 1000)
     (sample_world 604801)) = Some rec \<and> n_recommended_tier rec = 1"
proof -
  let ?s = "fresh_trust_state 1000 1000"
  have f: "s_current_tier ?s = 0" "s_pending_downgrade_tier ?s = None" by (simp_all add: fresh_trust_state_def)
  have n: "fl_round (of_int 604800000) = Fin (of_int 604800000)" "fl_round (of_int 7) = Fin (of_int 7)"
    by (rule fl_round_of_int, simp)+
  then have "fst (compute_current_clean_days ?s (sample_world 604801)) = Fin 7"
    by (simp add: compute_current_clean_days_def fresh_trust_state_def ms_over_def now_ms_def sample_world_now fmax_def)
  then obtain w1 where d: "compute_current_clean_days ?s (sample_world 604801) = (Fin 7, w1)"
    by (metis prod.collapse)
  obtain r where r: "map_of TIER_REQUIREMENTS (s_current_tier ?s + 1) = Some r" "tr_min_clean_days r = Fin 7"
    "tr_min_net_pnl r = Fin 0" "tr_max_daily_drawdown_pct r = Fin 5" "tr_max_cost_ratio r = Fin (1/2)"
    "tr_min_win_rate_pct r = None" "tr_min_profit_factor r = None" "tr_min_sharpe r = None"
    "tr_max_consecutive_losses r = None" "tr_max_window_drawdown_pct r = None"
    by (simp add: f TIER_REQUIREMENTS_def)
  from trust_promotion_exact[OF _ _ f(2) r(1) d, of "demo_metrics\<lparr>m_net_pnl := Fin 1\<rparr>"] show ?thesis
    by (simp add: f r unless_given_def demo_metrics_def)
qed

text \<open>Missing numbers promote. With every float metric a NaN (no profit figure, no drawdown,
  no win rate, no Sharpe ratio) the next tier is recommended as soon as the clean days are there
  and the two counts are in order.\<close>

theorem trust_nan_promotes:
  assumes "0 \<le> s_current_tier s" "s_current_tier s < 3" "s_pending_downgrade_tier s = None"
    and "map_of TIER_REQUIREMENTS (s_current_tier s + 1) = Some r"
    and "\<not> flt (fst (compute_current_clean_days s w)) (tr_min_clean_days r)"
    and "m_critical_incident_count m \<le> 0" "m_consecutive_losses m \<le> 5"
  shows "\<exists>rec. fst (evaluate_renewal (m\<lparr>m_net_pnl := NaN, m_win_rate_pct := NaN, m_profit_factor := NaN,
      m_sharpe := NaN, m_cost_ratio := NaN, m_max_daily_drawdown_pct := NaN, m_max_window_drawdown_pct := NaN\<rparr>) s w) =
      Some rec \<and> n_recommended_tier rec = s_current_tier s + 1 \<and> n_action rec = ''promote''"
proof -
  have nan: "\<not> flt NaN x" "\<not> flt x NaN" "\<not> fle NaN x" for x by (cases x; simp)+
  have "tr_max_consecutive_losses r = None \<or> tr_max_consecutive_losses r = Some 5"
    using assms(4) by (auto simp: TIER_REQUIREMENTS_def split: if_splits)
  then have "check_requirements r (m\<lparr>m_net_pnl := NaN, m_win_rate_pct := NaN, m_profit_factor := NaN,
      m_sharpe := NaN, m_cost_ratio := NaN, m_max_daily_drawdown_pct := NaN, m_max_window_drawdown_pct := NaN\<rparr>)
      (fst (compute_current_clean_days s w)) = []"
    unfolding requirements_met unless_given_def using assms(5-7) nan by (auto split: option.split)
  with evaluate_climbing[OF assms(1-4)] show ?thesis unfolding evaluate_renewal_eq by fastforce
qed

text \<open>Fourteen days after the streak began.\<close>

lemma demo_days:
  "fst (compute_current_clean_days demo_trust (sample_world 1209601)) = Fin 14"
proof -
  have r: "fl_round (of_int 1209600000) = Fin (of_int 1209600000)" "fl_round (of_int 14) = Fin (of_int 14)"
    by (rule fl_round_of_int, simp)+
  then show ?thesis
    by (simp add: compute_current_clean_days_def demo_trust_fields ms_over_def now_ms_def sample_world_now fmax_def)
qed

lemma trust_nan_promotes_witness:
  "\<exists>rec. fst (evaluate_renewal (demo_metrics\<lparr>m_net_pnl := NaN, m_win_rate_pct := NaN, m_profit_factor := NaN,
      m_sharpe := NaN, m_cost_ratio := NaN, m_max_daily_drawdown_pct := NaN, m_max_window_drawdown_pct := NaN\<rparr>)
      demo_trust (sample_world 1209601)) = Some rec \<and> n_recommended_tier rec = 2"
proof -
  obtain r where r: "map_of TIER_REQUIREMENTS (s_current_tier demo_trust + 1) = Some r" "tr_min_clean_days r = Fin 14"
    by (simp add: demo_trust_fields TIER_REQUIREMENTS_def)
  from trust_nan_promotes[OF _ _ demo_trust_fields(2) r(1), of "sample_world 1209601" demo_metrics] show ?thesis
    by (auto simp: demo_trust_fields demo_days r(2) demo_metrics_def)
qed

text \<open>The top tier renews itself once. After a renewal from the top tier to the top tier every
  evaluation, whatever the metrics and the time, answers that the operator must review, until
  another operation intervenes.\<close>

theorem trust_t3_review:
  assumes "trust_inv s" "s_current_tier s = 3" "on_auth_renewed 3 expires s w = (u, Some s1, w1)"
  shows "\<exists>rec. fst (evaluate_renewal m s1 v) = Some rec \<and> n_action rec = ''block_review'' \<and>
    n_requires_operator_review rec \<and> n_recommended_tier rec = 3 \<and> n_recommended_ttl_hours rec = 360"
proof -
  have "s_current_tier s1 = 3" "s_pending_downgrade_tier s1 = None" "1 \<le> s_renewals_at_t3 s1"
    using assms by (auto simp: on_auth_renewed_def trust_inv_def now_ms_def Let_def)
  with evaluate_top[of s1 m] show ?thesis
    unfolding evaluate_renewal_eq by (fastforce simp: TIER_TTL_HOURS_def)
qed

lemma trust_t3_review_witness:
  "\<exists>s1 w1. on_auth_renewed 3 9000 (demo_trust\<lparr>s_current_tier := 3\<rparr>) (sample_world 10) = ((), Some s1, w1) \<and>
     (\<exists>rec. fst (evaluate_renewal demo_metrics s1 (sample_world 20)) = Some rec \<and> n_requires_operator_review rec)"
proof -
  obtain s1 w1 where r: "on_auth_renewed 3 9000 (demo_trust\<lparr>s_current_tier := 3\<rparr>) (sample_world 10) = ((), Some s1, w1)"
    by (simp add: on_auth_renewed_def Let_def split_beta)
  have "trust_inv (demo_trust\<lparr>s_current_tier := 3\<rparr>)" by (simp add: demo_trust_def fresh_trust_state_def trust_inv_def)
  from trust_t3_review[OF this _ r, of demo_metrics "sample_world 20"] r show ?thesis by auto
qed

text \<open>A grave incident costs the trust. After a major incident above the entry tier every
  evaluation recommends a demotion to a lower tier, and after a critical one to the entry
  tier, whatever the metrics and the time, until the renewal is made.\<close>

theorem trust_incident_demotes:
  assumes "trust_inv s" "0 < s_current_tier s" "severity \<in> {''critical'', ''major''}"
    and "record_incident severity reason s w = (u, Some s1, w1)"
  shows "\<exists>rec. fst (evaluate_renewal m s1 v) = Some rec \<and> n_action rec = ''demote'' \<and>
    n_recommended_tier rec \<le> (if severity = ''critical'' then 0 else s_current_tier s - 1)"
proof -
  have "trust_inv s1" using trust_inv_cmd[OF assms(1), of "C_Incident severity reason" w u s1 w1] assms(4) by simp
  moreover have "\<exists>p. s_pending_downgrade_tier s1 = Some p \<and>
      p \<le> (if severity = ''critical'' then 0 else s_current_tier s - 1)"
    using assms by (cases "s_pending_downgrade_tier s")
      (auto simp: record_incident_def trust_inv_def now_ms_def Let_def split: if_splits)
  ultimately show ?thesis
    using evaluate_pending[of s1] unfolding evaluate_renewal_eq by fastforce
qed

lemma trust_incident_demotes_witness:
  "\<exists>s1 w1. record_incident ''critical'' ''x'' demo_trust (sample_world 10) = ((), Some s1, w1) \<and>
     (\<exists>rec. fst (evaluate_renewal demo_metrics s1 (sample_world 20)) = Some rec \<and> n_recommended_tier rec \<le> 0)"
proof -
  obtain s1 w1 where r: "record_incident ''critical'' ''x'' demo_trust (sample_world 10) = ((), Some s1, w1)"
    by (simp add: record_incident_def Let_def split_beta)
  from trust_incident_demotes[OF demo_trust_fields(3) _ _ r, of demo_metrics "sample_world 20"] r show ?thesis
    by (auto simp: demo_trust_fields)
qed

end
