(* ===== verification/Residual_Report.thy ===== *)
theory Residual_Report
  imports Py_Coerce
begin

text \<open>
  The contract of a residual alpha report (\<open>ml_training/residual_alpha_report_contract.py\<close>): the
  validator that promotion to live trading consults. A result is None where the code raises
  (\<open>float\<close> of an integer beyond the range of the doubles is an \<open>OverflowError\<close>, which nothing
  catches), and otherwise the verdict with its reason.
\<close>

section \<open>Comparison of values\<close>

text \<open>Python's \<open>==\<close> on the values of the model: numbers by value, dictionaries without order.\<close>

lemma size_in_list: "v \<in> set xs \<Longrightarrow> size v < size (PList xs)"
  by (induction xs) auto

lemma size_in_dict: "(k, v) \<in> set d \<Longrightarrow> size v < size (PDict d)"
  by (induction d) auto

fun py_eq :: "pyval \<Rightarrow> pyval \<Rightarrow> bool" where
  "py_eq (PStr s) (PStr t) = (s = t)"
| "py_eq PNone PNone = True"
| "py_eq (PList []) (PList ys) = (ys = [])"
| "py_eq (PList (x # xs)) (PList ys) =
     (case ys of [] \<Rightarrow> False | y # zs \<Rightarrow> py_eq x y \<and> py_eq (PList xs) (PList zs))"
| "py_eq (PDict d) (PDict e) =
     (length d = length e \<and>
      list_all (\<lambda>(k, v). case map_of e k of None \<Rightarrow> False | Some u \<Rightarrow> py_eq v u) d)"
| "py_eq a b = (case (as_num a, as_num b) of
       (Some x, Some y) \<Rightarrow> x = y \<and> \<not> is_nan x | _ \<Rightarrow> False)"

text \<open>\<open>a < b\<close>: numbers by value, strings by code points, lists at their first difference; any other
  pair of types raises \<open>TypeError\<close> (None).\<close>

fun py_less :: "pyval \<Rightarrow> pyval \<Rightarrow> bool option" where
  "py_less (PStr s) (PStr t) = Some (str_less s t)"
| "py_less (PList xs) (PList []) = Some False"
| "py_less (PList []) (PList (y # ys)) = Some True"
| "py_less (PList (x # xs)) (PList (y # ys)) =
     (if py_eq x y then py_less (PList xs) (PList ys) else py_less x y)"
| "py_less a b = (case (as_num a, as_num b) of
       (Some x, Some y) \<Rightarrow> Some (flt x y) | _ \<Rightarrow> None)"

section \<open>The single checks\<close>

definition FORBIDDEN_REASON_TOKENS :: "string list" where
  "FORBIDDEN_REASON_TOKENS =
     [''core_diagnostic_only'', ''pbo_missing_candidate_returns_core_diagnostic_only'',
      ''pbo_missing_candidate_returns'', ''pbo_not_computed'', ''pbo_invalid_candidate_returns'',
      ''pbo_non_finite_candidate_returns'', ''pbo_candidate_returns_length_mismatch'']"

definition extract_demo_residual_alpha_report :: "pyval \<Rightarrow> pyval" where
  "extract_demo_residual_alpha_report m =
     (case m of PDict d \<Rightarrow> dict_get d ''demo_residual_alpha_report'' PNone | _ \<Rightarrow> PNone)"

text \<open>None: \<open>OverflowError\<close>. Some None: not a finite number.\<close>

definition finite_float :: "pyval \<Rightarrow> pyfloat option option" where
  "finite_float v =
     (case py_float v of
        Inl ConvOverflow \<Rightarrow> None
      | Inl ConvInvalid \<Rightarrow> Some None
      | Inr x \<Rightarrow> Some (if is_nan x \<or> is_inf x then None else Some x))"

text \<open>A list stands for a list, a tuple or a set; \<open>other\<close> is how floats and containers print.\<close>

definition normalize_reasons :: "(pyval \<Rightarrow> string) \<Rightarrow> pyval \<Rightarrow> string list" where
  "normalize_reasons other v = (case v of PNone \<Rightarrow> [] | PStr s \<Rightarrow> [s]
     | PList xs \<Rightarrow> map (py_str other) xs | _ \<Rightarrow> [py_str other v])"

definition tokens_in :: "string \<Rightarrow> string list" where
  "tokens_in reason = filter (\<lambda>t. str_contains t (str_lower reason))
     (sort_key (\<lambda>t. - int (length t)) FORBIDDEN_REASON_TOKENS)"

definition find_forbidden_reason :: "(pyval \<Rightarrow> string) \<Rightarrow> pyval \<Rightarrow> string option" where
  "find_forbidden_reason other v =
     (case concat (map tokens_in (normalize_reasons other v)) of [] \<Rightarrow> None | t # _ \<Rightarrow> Some t)"

text \<open>A check: None where it raises, Some None where it passes, Some (Some reason) where it fails.\<close>

type_synonym check = "string option option"

definition require_metric ::
  "string \<Rightarrow> string \<Rightarrow> (pyfloat \<Rightarrow> bool) \<Rightarrow> string \<Rightarrow> pydict \<Rightarrow> check" where
  "require_metric name missing bad reason d =
     map_option (\<lambda>x. case x of None \<Rightarrow> Some missing | Some a \<Rightarrow> if bad a then Some reason else None)
       (finite_float (dict_get d name PNone))"

definition metric :: "string \<Rightarrow> (pyfloat \<Rightarrow> bool) \<Rightarrow> string \<Rightarrow> pydict \<Rightarrow> check" where
  "metric name bad reason = require_metric name (''metric_missing:'' @ name) bad reason"

definition validate_fit_window :: "pyval \<Rightarrow> string option" where
  "validate_fit_window v =
     (case v of
        PDict d \<Rightarrow>
          (if dict_get d ''train_end'' PNone = PNone \<or> dict_get d ''eval_start'' PNone = PNone
           then Some ''fit_window_missing''
           else (case py_less (dict_get d ''train_end'' PNone) (dict_get d ''eval_start'' PNone) of
                   None \<Rightarrow> None
                 | Some prior \<Rightarrow> if prior then None else Some ''fit_window_not_prior''))
      | _ \<Rightarrow> Some ''fit_window_missing'')"

fun first_failure :: "check list \<Rightarrow> check" where
  "first_failure [] = Some None"
| "first_failure (c # cs) = (case c of Some None \<Rightarrow> first_failure cs | _ \<Rightarrow> c)"

definition coverage_of :: "string \<Rightarrow> pydict \<Rightarrow> check" where
  "coverage_of key d =
     (if map_of d key = None then Some None
      else require_metric key (''coverage_'' @ key @ ''_invalid'') (\<lambda>x. flt x (flit (8/10)))
        (''coverage_'' @ key @ ''_below_threshold'') d)"

definition validate_coverage :: "pyval \<Rightarrow> check" where
  "validate_coverage v =
     (case v of PNone \<Rightarrow> Some None
      | PDict d \<Rightarrow> first_failure [coverage_of ''train'' d, coverage_of ''eval'' d]
      | _ \<Rightarrow> Some (Some ''coverage_invalid''))"

definition validate_permutation :: "pydict \<Rightarrow> check" where
  "validate_permutation d =
     (if map_of d ''perm_p_value'' = None then Some None
      else metric ''perm_p_value'' (\<lambda>x. flt (flit (5/100)) x) ''perm_p_value_above_threshold'' d)"

section \<open>The validator\<close>

definition at_most :: "pyfloat \<Rightarrow> string \<Rightarrow> pydict \<Rightarrow> check" where
  "at_most limit name = metric name (\<lambda>x. flt limit x) (name @ ''_above_threshold'')"

definition at_least :: "pyfloat \<Rightarrow> string \<Rightarrow> pydict \<Rightarrow> check" where
  "at_least limit name = metric name (\<lambda>x. flt x limit) (name @ ''_below_threshold'')"

definition positive_mean :: "string \<Rightarrow> string \<Rightarrow> pydict \<Rightarrow> check" where
  "positive_mean name reason = metric name (\<lambda>x. fle x (Fin 0)) reason"

definition verdict_check :: "(pyval \<Rightarrow> string) \<Rightarrow> pydict \<Rightarrow> string option" where
  "verdict_check other d =
     (let v = dict_get d ''verdict'' PNone; verdict = (if truthy v then py_str other v else []) in
      if verdict \<noteq> ''pass''
      then Some (''verdict_not_pass:'' @ (if verdict = [] then ''missing'' else verdict)) else None)"

definition hash_check :: "(pyval \<Rightarrow> string) \<Rightarrow> pydict \<Rightarrow> string option" where
  "hash_check other d =
     (let v = dict_get d ''factor_panel_hash'' PNone in
      if text_strip (if truthy v then py_str other v else []) = [] then Some ''factor_panel_hash_missing''
      else None)"

definition report_checks :: "(pyval \<Rightarrow> string) \<Rightarrow> pydict \<Rightarrow> check list" where
  "report_checks other d =
     [Some (if dict_get d ''passes'' PNone = PBool True then None else Some ''passes_not_true''),
      Some (verdict_check other d),
      Some (map_option (\<lambda>t. ''forbidden_reason:'' @ t)
        (find_forbidden_reason other (dict_get d ''reasons'' PNone))),
      at_most (Fin (1/2)) ''pbo_raw'' d, at_most (Fin (1/2)) ''pbo_residual'' d,
      at_least (flit (95/100)) ''psr_raw'' d, at_least (flit (95/100)) ''psr_residual'' d,
      at_least (flit (95/100)) ''dsr_raw'' d, at_least (flit (95/100)) ''dsr_residual'' d,
      positive_mean ''raw_mean_bps'' ''raw_mean_non_positive'' d,
      positive_mean ''residual_mean_bps'' ''residual_mean_non_positive'' d,
      at_least (Fin (1/2)) ''r_beta_retention'' d, at_most (Fin (1/2)) ''beta_edge_share'' d,
      Some (hash_check other d), Some (validate_fit_window (dict_get d ''fit_window'' PNone)),
      validate_coverage (dict_get d ''coverage'' PNone), validate_permutation d]"

definition validate_demo_residual_alpha_report ::
  "(pyval \<Rightarrow> string) \<Rightarrow> pyval \<Rightarrow> (bool \<times> string) option" where
  "validate_demo_residual_alpha_report other report =
     (case report of
        PDict d \<Rightarrow> map_option (\<lambda>f. case f of None \<Rightarrow> (True, ''ok'') | Some r \<Rightarrow> (False, r))
          (first_failure (report_checks other d))
      | _ \<Rightarrow> Some (False, ''not_dict''))"

definition valid_report :: "(pyval \<Rightarrow> string) \<Rightarrow> pyval \<Rightarrow> bool" where
  "valid_report other report \<longleftrightarrow> validate_demo_residual_alpha_report other report = Some (True, ''ok'')"

section \<open>What a valid report is\<close>

lemma first_failure_ok: "first_failure cs = Some None \<longleftrightarrow> (\<forall>c \<in> set cs. c = Some None)"
  by (induction cs) (auto split: option.splits)

text \<open>The entry reads as the finite number \<open>a\<close>.\<close>

definition reads :: "pydict \<Rightarrow> string \<Rightarrow> rat \<Rightarrow> bool" where
  "reads d name a \<longleftrightarrow> py_float (dict_get d name PNone) = Inr (Fin a)"

lemma finite_float_some: "finite_float v = Some (Some x) \<longleftrightarrow> (\<exists>a. x = Fin a \<and> py_float v = Inr (Fin a))"
  by (cases x) (auto simp: finite_float_def is_nan_def is_inf_def split: sum.splits conv_error.splits)

lemma require_metric_ok:
  "require_metric name missing bad reason d = Some None \<longleftrightarrow> (\<exists>a. reads d name a \<and> \<not> bad (Fin a))"
  unfolding require_metric_def reads_def
  by (auto simp: finite_float_some split: option.splits if_splits)

text \<open>0.95, 0.8 and 0.05 as the code writes them: the nearest doubles.\<close>

definition MIN_PSR :: rat where "MIN_PSR = 8556839292003942 / 9007199254740992"
definition MIN_COVERAGE :: rat where "MIN_COVERAGE = 7205759403792794 / 9007199254740992"
definition MAX_PERM :: rat where "MAX_PERM = 7205759403792794 / 144115188075855872"

lemma quotient_of_unit [simp]: "quotient_of (1 / numeral b) = (1, numeral b)"
proof -
  have "(1 / numeral b :: rat) = Fract 1 (numeral b)" by (simp add: Fract_of_int_quotient)
  then show ?thesis by (simp only: quotient_of_Fract) (simp add: Rat.normalize_def)
qed

lemma report_limits:
  "flit (95/100) = Fin MIN_PSR" "flit (8/10) = Fin MIN_COVERAGE" "flit (5/100) = Fin MAX_PERM"
proof -
  show "flit (95/100) = Fin MIN_PSR" unfolding MIN_PSR_def
    by (rule fl_round_eval[where e = "-53" and m = 8556839292003942]) (simp_all add: float_eval)
  show "flit (8/10) = Fin MIN_COVERAGE" unfolding MIN_COVERAGE_def
    by (rule fl_round_eval[where e = "-53" and m = 7205759403792794]) (simp_all add: float_eval)
  show "flit (5/100) = Fin MAX_PERM" unfolding MAX_PERM_def
    by (rule fl_round_eval[where e = "-57" and m = 7205759403792794]) (simp_all add: float_eval)
qed

lemma limit_checks_ok:
  "at_most (Fin l) name d = Some None \<longleftrightarrow> (\<exists>a. reads d name a \<and> a \<le> l)"
  "at_least (Fin l) name d = Some None \<longleftrightarrow> (\<exists>a. reads d name a \<and> l \<le> a)"
  "positive_mean name reason d = Some None \<longleftrightarrow> (\<exists>a. reads d name a \<and> 0 < a)"
  by (auto simp: at_most_def at_least_def positive_mean_def metric_def require_metric_ok)

lemma coverage_of_ok:
  "coverage_of key d = Some None \<longleftrightarrow> map_of d key = None \<or> (\<exists>a. reads d key a \<and> MIN_COVERAGE \<le> a)"
  unfolding coverage_of_def report_limits by (auto simp: require_metric_ok)

lemma validate_coverage_ok:
  "validate_coverage v = Some None \<longleftrightarrow> v = PNone \<or>
     (\<exists>c. v = PDict c \<and> (\<forall>key \<in> {''train'', ''eval''}.
        map_of c key = None \<or> (\<exists>a. reads c key a \<and> MIN_COVERAGE \<le> a)))"
  by (auto simp: validate_coverage_def first_failure_ok coverage_of_ok simp del: first_failure.simps
      split: pyval.splits)

lemma validate_permutation_ok:
  "validate_permutation d = Some None \<longleftrightarrow>
     map_of d ''perm_p_value'' = None \<or> (\<exists>a. reads d ''perm_p_value'' a \<and> a \<le> MAX_PERM)"
  unfolding validate_permutation_def report_limits by (auto simp: metric_def require_metric_ok)

definition prior_window :: "pyval \<Rightarrow> bool" where
  "prior_window v \<longleftrightarrow> (\<exists>d. v = PDict d \<and> dict_get d ''train_end'' PNone \<noteq> PNone \<and>
     dict_get d ''eval_start'' PNone \<noteq> PNone \<and>
     py_less (dict_get d ''train_end'' PNone) (dict_get d ''eval_start'' PNone) \<noteq> Some False)"

lemma validate_fit_window_ok: "validate_fit_window v = None \<longleftrightarrow> prior_window v"
  by (auto simp: validate_fit_window_def prior_window_def split: pyval.splits option.splits)

lemma valid_report_dict:
  "valid_report other (PDict d) \<longleftrightarrow> (\<forall>c \<in> set (report_checks other d). c = Some None)"
  by (auto simp: valid_report_def validate_demo_residual_alpha_report_def first_failure_ok[symmetric]
      split: option.splits)

lemma valid_report_other: "as_dict r = None \<Longrightarrow> \<not> valid_report other r"
  by (cases r) (auto simp: valid_report_def validate_demo_residual_alpha_report_def as_dict_def)

lemma valid_report_iff:
  "valid_report other r \<longleftrightarrow>
     (\<exists>d. r = PDict d \<and> dict_get d ''passes'' PNone = PBool True \<and> verdict_check other d = None \<and>
        find_forbidden_reason other (dict_get d ''reasons'' PNone) = None \<and> hash_check other d = None \<and>
        (\<forall>name \<in> {''pbo_raw'', ''pbo_residual'', ''beta_edge_share''}. \<exists>a. reads d name a \<and> a \<le> 1/2) \<and>
        (\<forall>name \<in> {''psr_raw'', ''psr_residual'', ''dsr_raw'', ''dsr_residual''}. \<exists>a. reads d name a \<and> MIN_PSR \<le> a) \<and>
        (\<forall>name \<in> {''raw_mean_bps'', ''residual_mean_bps''}. \<exists>a. reads d name a \<and> 0 < a) \<and>
        (\<exists>a. reads d ''r_beta_retention'' a \<and> 1/2 \<le> a) \<and>
        prior_window (dict_get d ''fit_window'' PNone) \<and>
        (dict_get d ''coverage'' PNone = PNone \<or> (\<exists>c. dict_get d ''coverage'' PNone = PDict c \<and>
           (\<forall>key \<in> {''train'', ''eval''}. map_of c key = None \<or> (\<exists>a. reads c key a \<and> MIN_COVERAGE \<le> a)))) \<and>
        (map_of d ''perm_p_value'' = None \<or> (\<exists>a. reads d ''perm_p_value'' a \<and> a \<le> MAX_PERM)))"
proof (cases "as_dict r")
  case None
  then show ?thesis by (auto simp: valid_report_other as_dict_def)
next
  case (Some d)
  then have r: "r = PDict d" by (cases r) (auto simp: as_dict_def)
  show ?thesis
    unfolding r valid_report_dict report_checks_def report_limits
    by (auto simp: limit_checks_ok validate_coverage_ok validate_permutation_ok validate_fit_window_ok)
qed

text \<open>The checks on texts: the verdict, the reasons and the hash.\<close>

lemma verdict_check_ok:
  "verdict_check other d = None \<longleftrightarrow>
     truthy (dict_get d ''verdict'' PNone) \<and> py_str other (dict_get d ''verdict'' PNone) = ''pass''"
  by (simp add: verdict_check_def Let_def)

lemma find_forbidden_none:
  "find_forbidden_reason other v = None \<longleftrightarrow>
     (\<forall>s \<in> set (normalize_reasons other v). \<forall>t \<in> set FORBIDDEN_REASON_TOKENS. \<not> sublist t (str_lower s))"
proof -
  have "find_forbidden_reason other v = None \<longleftrightarrow> concat (map tokens_in (normalize_reasons other v)) = []"
    unfolding find_forbidden_reason_def
    by (cases "concat (map tokens_in (normalize_reasons other v))") (simp_all only: list.case list.distinct option.distinct simp_thms)
  then have "find_forbidden_reason other v = None \<longleftrightarrow> (\<forall>s \<in> set (normalize_reasons other v). tokens_in s = [])"
    by simp
  moreover have "tokens_in s = [] \<longleftrightarrow> (\<forall>t \<in> set FORBIDDEN_REASON_TOKENS. \<not> sublist t (str_lower s))" for s
    by (simp add: tokens_in_def filter_empty_conv str_contains_def)
  ultimately show ?thesis by simp
qed

lemma text_strip_nil: "text_strip s = [] \<longleftrightarrow> (\<forall>c \<in> set s. is_strip_space c)"
  unfolding text_strip_def by (auto dest: set_dropWhileD)
    (metis (no_types, lifting) Un_iff set_append set_takeWhileD takeWhile_dropWhile_id)

lemma hash_check_ok:
  "hash_check other d = None \<longleftrightarrow> truthy (dict_get d ''factor_panel_hash'' PNone) \<and>
     (\<exists>c \<in> set (py_str other (dict_get d ''factor_panel_hash'' PNone)). \<not> is_strip_space c)"
  by (auto simp: hash_check_def text_strip_nil Let_def)

text \<open>A complete report, for the witnesses.\<close>

definition demo_report :: pyval where
  "demo_report = PDict
     [(''passes'', PBool True), (''verdict'', PStr ''pass''), (''pbo_raw'', PFloat (Fin 0)),
      (''pbo_residual'', PFloat (Fin 0)), (''psr_raw'', PInt 1), (''psr_residual'', PInt 1),
      (''dsr_raw'', PInt 1), (''dsr_residual'', PInt 1), (''raw_mean_bps'', PInt 2),
      (''residual_mean_bps'', PInt 1), (''r_beta_retention'', PInt 1), (''beta_edge_share'', PInt 0),
      (''factor_panel_hash'', PStr ''ab''),
      (''fit_window'', PDict [(''train_end'', PStr ''2026-01-01''), (''eval_start'', PStr ''2026-02-01'')])]"

lemma fl_round_small: "fl_round 0 = Fin 0" "fl_round 1 = Fin 1" "fl_round 2 = Fin 2"
  using fl_round_of_int[of 0] fl_round_of_int[of 1] fl_round_of_int[of 2] by simp_all

lemma demo_report_reads:
  assumes "demo_report = PDict d"
  shows "\<exists>a. reads d ''pbo_raw'' a \<and> a \<le> 1/2" "\<exists>a. reads d ''pbo_residual'' a \<and> a \<le> 1/2"
    "\<exists>a. reads d ''beta_edge_share'' a \<and> a \<le> 1/2" "\<exists>a. reads d ''psr_raw'' a \<and> MIN_PSR \<le> a"
    "\<exists>a. reads d ''psr_residual'' a \<and> MIN_PSR \<le> a" "\<exists>a. reads d ''dsr_raw'' a \<and> MIN_PSR \<le> a"
    "\<exists>a. reads d ''dsr_residual'' a \<and> MIN_PSR \<le> a" "\<exists>a. reads d ''raw_mean_bps'' a \<and> 0 < a"
    "\<exists>a. reads d ''residual_mean_bps'' a \<and> 0 < a" "\<exists>a. reads d ''r_beta_retention'' a \<and> 1/2 \<le> a"
  using assms by (auto simp: demo_report_def reads_def dict_get_def py_float_def fl_round_small MIN_PSR_def)

lemma demo_report_rest:
  assumes "demo_report = PDict d"
  shows "dict_get d ''passes'' PNone = PBool True" "verdict_check other d = None"
    "find_forbidden_reason other (dict_get d ''reasons'' PNone) = None" "hash_check other d = None"
    "prior_window (dict_get d ''fit_window'' PNone)" "dict_get d ''coverage'' PNone = PNone"
    "map_of d ''perm_p_value'' = None"
  using assms
  by (auto simp: demo_report_def dict_get_def verdict_check_def find_forbidden_reason_def normalize_reasons_def
      hash_check_def text_strip_def is_strip_space_def is_space_def prior_window_def py_str_def)

lemma demo_report_valid: "valid_report other demo_report"
proof -
  obtain d where d: "demo_report = PDict d" by (simp add: demo_report_def)
  show ?thesis unfolding valid_report_iff using d demo_report_reads[OF d] demo_report_rest[OF d] by auto
qed

section \<open>Properties\<close>

text \<open>C21: A residual alpha report is valid exactly when it is a dictionary that says it passed and
  nothing in it says otherwise: \<open>passes\<close> is the boolean True itself, the verdict reads pass, no reason (the entry
  \<open>reasons\<close> is one text, a list or another value, taken as text and in lower case) has one of the seven forbidden
  tokens in it, every one of the ten numbers reads as a finite float within its limit, the hash of the factor panel has
  a character that is not white space, the fit window is a dictionary with both ends given and with a training end
  that is not known to be at or after the start of the evaluation (ends that cannot be compared pass), the coverages
  that are given are at least 0.8 and the permutation p-value, if there is one, is at most 0.05.\<close>

theorem residual_report_exact:
  "valid_report other r \<longleftrightarrow>
     (\<exists>d. r = PDict d \<and> dict_get d ''passes'' PNone = PBool True \<and>
        truthy (dict_get d ''verdict'' PNone) \<and> py_str other (dict_get d ''verdict'' PNone) = ''pass'' \<and>
        (\<forall>s \<in> set (case dict_get d ''reasons'' PNone of PNone \<Rightarrow> [] | PStr s \<Rightarrow> [s] | PList vs \<Rightarrow> map (py_str other) vs
            | _ \<Rightarrow> [py_str other (dict_get d ''reasons'' PNone)]).
           \<forall>t \<in> {''core_diagnostic_only'', ''pbo_missing_candidate_returns_core_diagnostic_only'',
              ''pbo_missing_candidate_returns'', ''pbo_not_computed'', ''pbo_invalid_candidate_returns'',
              ''pbo_non_finite_candidate_returns'', ''pbo_candidate_returns_length_mismatch''}. \<not> sublist t (str_lower s)) \<and>
        truthy (dict_get d ''factor_panel_hash'' PNone) \<and>
        (\<exists>c \<in> set (py_str other (dict_get d ''factor_panel_hash'' PNone)). \<not> is_strip_space c) \<and>
        (\<forall>name \<in> {''pbo_raw'', ''pbo_residual'', ''beta_edge_share''}. \<exists>a. reads d name a \<and> a \<le> 1/2) \<and>
        (\<forall>name \<in> {''psr_raw'', ''psr_residual'', ''dsr_raw'', ''dsr_residual''}. \<exists>a. reads d name a \<and> MIN_PSR \<le> a) \<and>
        (\<forall>name \<in> {''raw_mean_bps'', ''residual_mean_bps''}. \<exists>a. reads d name a \<and> 0 < a) \<and>
        (\<exists>a. reads d ''r_beta_retention'' a \<and> 1/2 \<le> a) \<and>
        (\<exists>f. dict_get d ''fit_window'' PNone = PDict f \<and>
           dict_get f ''train_end'' PNone \<noteq> PNone \<and> dict_get f ''eval_start'' PNone \<noteq> PNone \<and>
           py_less (dict_get f ''train_end'' PNone) (dict_get f ''eval_start'' PNone) \<noteq> Some False) \<and>
        (dict_get d ''coverage'' PNone = PNone \<or> (\<exists>c. dict_get d ''coverage'' PNone = PDict c \<and>
           (\<forall>key \<in> {''train'', ''eval''}. map_of c key = None \<or> (\<exists>a. reads c key a \<and> MIN_COVERAGE \<le> a)))) \<and>
        (map_of d ''perm_p_value'' = None \<or> (\<exists>a. reads d ''perm_p_value'' a \<and> a \<le> MAX_PERM)))"
  unfolding valid_report_iff verdict_check_ok find_forbidden_none hash_check_ok prior_window_def
    normalize_reasons_def FORBIDDEN_REASON_TOKENS_def list.set(1,2)
  by (simp only: conj_assoc)

lemma residual_report_exact_witness: "valid_report (\<lambda>v. []) demo_report"
proof -
  obtain d where d: "demo_report = PDict d" by (simp add: demo_report_def)
  note rest = demo_report_rest[OF d, unfolded verdict_check_ok find_forbidden_none hash_check_ok prior_window_def
    normalize_reasons_def FORBIDDEN_REASON_TOKENS_def list.set(1,2)]
  note exact = d rest(1,3,5) rest(2,4)[THEN conjunct1] rest(2,4)[THEN conjunct2]
    rest(6)[THEN disjI1] rest(7)[THEN disjI1]
  show ?thesis
    unfolding residual_report_exact
    by (rule exI[of _ d], intro conjI)
      (fact exact | (simp only: ball_simps(5,7) demo_report_reads[OF d] simp_thms))+
qed

end
