(* ===== verification/Promotion_Pipeline.thy ===== *)
theory Promotion_Pipeline
  imports Residual_Report
begin

text \<open>
  The promotion of strategies from learning to live trading (\<open>app/promotion_pipeline.py\<close>): the
  stages, one entry per strategy, the evidence collected for it, the gates between the stages,
  the operator's decision and the rows of the database. The two statistical estimators whose
  reports are stored (selection bias, portfolio tail risk) are not modelled: what they return or
  raise is an argument of the operation that stores it. An operation that raises has the result
  None; \<open>other\<close> is how floats and containers print.
\<close>

section \<open>Stages and entries\<close>

datatype PromotionStage = LEARNING | PAPER_SHADOW | DEMO_ACTIVE | LIVE_PENDING | LIVE_ACTIVE

fun stage_value :: "PromotionStage \<Rightarrow> int" where
  "stage_value LEARNING = 0"
| "stage_value PAPER_SHADOW = 1"
| "stage_value DEMO_ACTIVE = 2"
| "stage_value LIVE_PENDING = 3"
| "stage_value LIVE_ACTIVE = 4"

fun stage_name :: "PromotionStage \<Rightarrow> string" where
  "stage_name LEARNING = ''LEARNING''"
| "stage_name PAPER_SHADOW = ''PAPER_SHADOW''"
| "stage_name DEMO_ACTIVE = ''DEMO_ACTIVE''"
| "stage_name LIVE_PENDING = ''LIVE_PENDING''"
| "stage_name LIVE_ACTIVE = ''LIVE_ACTIVE''"

definition stages :: "PromotionStage list" where
  "stages = [LEARNING, PAPER_SHADOW, DEMO_ACTIVE, LIVE_PENDING, LIVE_ACTIVE]"

definition stage_of :: "pyval \<Rightarrow> PromotionStage" where
  "stage_of v = (case find (\<lambda>s. PStr (stage_name s) = v) stages of None \<Rightarrow> LEARNING | Some s \<Rightarrow> s)"

record PipelineEntry =
  e_pipeline_id :: "int option"
  e_strategy_name :: string
  e_model_name :: "string option"
  e_model_version :: "string option"
  e_current_stage :: PromotionStage
  e_paper_start_ts :: "pyfloat option"
  e_paper_trades :: int
  e_paper_win_rate :: "pyfloat option"
  e_paper_net_pnl_pct :: "pyfloat option"
  e_paper_max_drawdown_pct :: "pyfloat option"
  e_paper_sharpe :: "pyfloat option"
  e_demo_start_ts :: "pyfloat option"
  e_demo_trades :: int
  e_demo_win_rate :: "pyfloat option"
  e_demo_net_pnl_pct :: "pyfloat option"
  e_demo_max_drawdown_pct :: "pyfloat option"
  e_demo_sharpe :: "pyfloat option"
  e_demo_avg_slippage_bps :: "pyfloat option"
  e_demo_api_reliability :: "pyfloat option"
  e_selection_report :: pyval
  e_tail_risk_report :: pyval
  e_residual_report :: pyval
  e_evaluation_report :: pyval
  e_operator_decision :: "string option"
  e_approved_capital_pct :: "pyfloat option"
  e_approved_max_leverage :: "pyfloat option"
  e_created_ts :: "pyfloat option"
  e_updated_ts :: "pyfloat option"

record promotion_gate =
  pp_entries :: "(string \<times> PipelineEntry) list"
  pp_audit_cb :: bool

definition promotion_gate_new :: "bool \<Rightarrow> promotion_gate" where
  "promotion_gate_new has_cb = \<lparr>pp_entries = [], pp_audit_cb = has_cb\<rparr>"

definition new_entry :: "string \<Rightarrow> string option \<Rightarrow> string option \<Rightarrow> PromotionStage \<Rightarrow> PipelineEntry" where
  "new_entry name model version stage =
     \<lparr>e_pipeline_id = None, e_strategy_name = name, e_model_name = model, e_model_version = version,
      e_current_stage = stage, e_paper_start_ts = None, e_paper_trades = 0, e_paper_win_rate = None,
      e_paper_net_pnl_pct = None, e_paper_max_drawdown_pct = None, e_paper_sharpe = None,
      e_demo_start_ts = None, e_demo_trades = 0, e_demo_win_rate = None, e_demo_net_pnl_pct = None,
      e_demo_max_drawdown_pct = None, e_demo_sharpe = None, e_demo_avg_slippage_bps = None,
      e_demo_api_reliability = None, e_selection_report = PNone, e_tail_risk_report = PNone,
      e_residual_report = PNone, e_evaluation_report = PNone, e_operator_decision = None,
      e_approved_capital_pct = None, e_approved_max_leverage = None, e_created_ts = None,
      e_updated_ts = None\<rparr>"

text \<open>\<open>time.time()\<close>.\<close>

definition now_secs :: "world \<Rightarrow> pyfloat \<times> world" where
  "now_secs w = (let (r, w1) = read_clock w in (Fin (secs r), w1))"

definition promotion_audit ::
  "promotion_gate \<Rightarrow> string \<Rightarrow> string \<Rightarrow> PromotionStage option \<Rightarrow> PromotionStage option \<Rightarrow> string \<Rightarrow> string \<Rightarrow>
   world \<Rightarrow> world" where
  "promotion_audit g action name from_stage to_stage initiator reason w =
     (if \<not> pp_audit_cb g then w
      else
        (let (h, w1) = fresh_hex w; (t, w2) = now_secs w1 in
         emit_audit ''promotion_gate'' True
           [(''audit_id'', PStr (uuid_str h)), (''ts'', PFloat t), (''action'', PStr action),
            (''strategy_name'', PStr name), (''from_stage'', opt_str (map_option stage_name from_stage)),
            (''to_stage'', opt_str (map_option stage_name to_stage)), (''initiator'', PStr initiator),
            (''reason'', PStr reason)] w2))"

section \<open>Reading and registering\<close>

definition get_entry :: "string \<Rightarrow> promotion_gate \<Rightarrow> PipelineEntry option" where
  "get_entry name g = map_of (pp_entries g) name"

definition get_stage :: "string \<Rightarrow> promotion_gate \<Rightarrow> PromotionStage" where
  "get_stage name g = (case map_of (pp_entries g) name of None \<Rightarrow> LEARNING | Some e \<Rightarrow> e_current_stage e)"

definition put_entry :: "string \<Rightarrow> PipelineEntry \<Rightarrow> promotion_gate \<Rightarrow> promotion_gate" where
  "put_entry name e g = g\<lparr>pp_entries := AList.update name e (pp_entries g)\<rparr>"

definition register_strategy ::
  "string \<Rightarrow> string option \<Rightarrow> string option \<Rightarrow> PromotionStage \<Rightarrow> promotion_gate \<Rightarrow> world \<Rightarrow>
   PipelineEntry \<times> promotion_gate \<times> world" where
  "register_strategy name model version stage g w =
     (case map_of (pp_entries g) name of
        Some e \<Rightarrow> (e, g, w)
      | None \<Rightarrow>
          (let (a, w1) = now_secs w; (b, w2) = now_secs w1;
               e = (new_entry name model version stage)\<lparr>e_created_ts := Some a, e_updated_ts := Some b\<rparr>
           in (e, put_entry name e g,
               promotion_audit g ''register'' name None (Some stage) ''system'' [] w2)))"

section \<open>Evidence\<close>

text \<open>The start of a lane is stamped by its first metrics.\<close>

definition started :: "pyfloat option \<Rightarrow> world \<Rightarrow> pyfloat option \<times> world" where
  "started t w = (case t of None \<Rightarrow> (let (n, w1) = now_secs w in (Some n, w1)) | Some _ \<Rightarrow> (t, w))"

definition update_paper_metrics ::
  "string \<Rightarrow> int \<Rightarrow> pyfloat \<Rightarrow> pyfloat \<Rightarrow> pyfloat \<Rightarrow> pyfloat \<Rightarrow> promotion_gate \<Rightarrow> world \<Rightarrow> promotion_gate \<times> world" where
  "update_paper_metrics name trades win pnl drawdown sharpe g w =
     (case map_of (pp_entries g) name of
        None \<Rightarrow> (g, w)
      | Some e \<Rightarrow>
          (let (start, w1) = started (e_paper_start_ts e) w; (t, w2) = now_secs w1 in
           (put_entry name (e\<lparr>e_paper_start_ts := start, e_paper_trades := trades, e_paper_win_rate := Some win,
              e_paper_net_pnl_pct := Some pnl, e_paper_max_drawdown_pct := Some drawdown,
              e_paper_sharpe := Some sharpe, e_updated_ts := Some t\<rparr>) g, w2)))"

definition update_demo_metrics ::
  "string \<Rightarrow> int \<Rightarrow> pyfloat \<Rightarrow> pyfloat \<Rightarrow> pyfloat \<Rightarrow> pyfloat \<Rightarrow> pyfloat \<Rightarrow> pyfloat \<Rightarrow> promotion_gate \<Rightarrow> world \<Rightarrow>
   promotion_gate \<times> world" where
  "update_demo_metrics name trades win pnl drawdown sharpe slippage reliability g w =
     (case map_of (pp_entries g) name of
        None \<Rightarrow> (g, w)
      | Some e \<Rightarrow>
          (let (start, w1) = started (e_demo_start_ts e) w; (t, w2) = now_secs w1 in
           (put_entry name (e\<lparr>e_demo_start_ts := start, e_demo_trades := trades, e_demo_win_rate := Some win,
              e_demo_net_pnl_pct := Some pnl, e_demo_max_drawdown_pct := Some drawdown,
              e_demo_sharpe := Some sharpe, e_demo_avg_slippage_bps := Some slippage,
              e_demo_api_reliability := Some reliability, e_updated_ts := Some t\<rparr>) g, w2)))"

definition not_registered_report :: pydict where
  "not_registered_report =
     [(''verdict'', PStr ''block''), (''passes'', PBool False), (''reasons'', PList [PStr ''not_registered''])]"

text \<open>What an estimator gives: the text of its exception, or the dictionary of its result.\<close>

type_synonym estimate = "string + pydict"

definition selection_bias_report :: "estimate \<Rightarrow> pydict" where
  "selection_bias_report outcome =
     (case outcome of
        Inr report \<Rightarrow> report
      | Inl exc \<Rightarrow> [(''verdict'', PStr ''block''), (''passes'', PBool False),
          (''reasons'', PList [PStr (''selection_bias_invalid:'' @ exc)]), (''dsr'', PNone),
          (''dsr_verdict'', PStr ''block''), (''pbo'', PNone), (''pbo_verdict'', PStr ''missing_cpcv_returns''),
          (''cpcv_protocol'', PStr ''cscv'')])"

definition tail_risk_report :: "estimate \<Rightarrow> pydict" where
  "tail_risk_report outcome =
     (case outcome of
        Inr report \<Rightarrow> report
      | Inl exc \<Rightarrow> [(''verdict'', PStr ''block''), (''passes'', PBool False),
          (''reasons'', PList [PStr (''tail_risk_invalid:'' @ exc)])])"

definition update_demo_selection_bias_evidence ::
  "string \<Rightarrow> estimate \<Rightarrow> promotion_gate \<Rightarrow> world \<Rightarrow> (bool \<times> pydict) \<times> promotion_gate \<times> world" where
  "update_demo_selection_bias_evidence name outcome g w =
     (case map_of (pp_entries g) name of
        None \<Rightarrow> ((False, not_registered_report), g, w)
      | Some e \<Rightarrow>
          (let report = selection_bias_report outcome; (t, w1) = now_secs w in
           ((truthy (dict_get report ''passes'' PNone), report),
            put_entry name (e\<lparr>e_selection_report := PDict report, e_updated_ts := Some t\<rparr>) g, w1)))"

definition update_demo_tail_risk_evidence ::
  "string \<Rightarrow> estimate \<Rightarrow> promotion_gate \<Rightarrow> world \<Rightarrow> (bool \<times> pydict) \<times> promotion_gate \<times> world" where
  "update_demo_tail_risk_evidence name outcome g w =
     (case map_of (pp_entries g) name of
        None \<Rightarrow> ((False, not_registered_report), g, w)
      | Some e \<Rightarrow>
          (let report = tail_risk_report outcome; (t, w1) = now_secs w in
           ((truthy (dict_get report ''passes'' PNone), report),
            put_entry name (e\<lparr>e_tail_risk_report := PDict report, e_updated_ts := Some t\<rparr>) g, w1)))"

definition blocked_report :: "string \<Rightarrow> pyval" where
  "blocked_report reason =
     PDict [(''verdict'', PStr ''block''), (''passes'', PBool False), (''reason'', PStr reason),
       (''reasons'', PList [PStr reason])]"

definition update_demo_residual_alpha_evidence ::
  "(pyval \<Rightarrow> string) \<Rightarrow> string \<Rightarrow> pyval \<Rightarrow> promotion_gate \<Rightarrow> world \<Rightarrow>
   (bool \<times> pyval) option \<times> promotion_gate \<times> world" where
  "update_demo_residual_alpha_evidence other name report g w =
     (case validate_demo_residual_alpha_report other report of
        None \<Rightarrow> (None, g, w)
      | Some (ok, reason) \<Rightarrow>
          (case map_of (pp_entries g) name of
             None \<Rightarrow> (Some (False, blocked_report ''not_registered''), g, w)
           | Some e \<Rightarrow>
               (let (t, w1) = now_secs w in
                (Some (if ok then (True, report) else (False, blocked_report reason)),
                 put_entry name (e\<lparr>e_residual_report := (if as_dict report = None then e_residual_report e else report),
                   e_updated_ts := Some t\<rparr>) g, w1))))"

section \<open>The gates\<close>

text \<open>One reason per failed condition; a condition on a value that is not there fails with the
  reason given for that, or is skipped where the code skips it.\<close>

definition fail_if :: "bool \<Rightarrow> string \<Rightarrow> string list" where
  "fail_if b reason = (if b then [reason] else [])"

definition lane_days :: "pyfloat \<Rightarrow> pyfloat \<Rightarrow> pyfloat" where
  "lane_days now t = (case fdiv (fsub now t) (Fin 86400) of Some x \<Rightarrow> x | None \<Rightarrow> NaN)"

definition duration_failures :: "pyfloat option \<Rightarrow> int \<Rightarrow> string \<Rightarrow> world \<Rightarrow> string list \<times> world" where
  "duration_failures start min_days missing w =
     (case start of
        None \<Rightarrow> ([missing], w)
      | Some t \<Rightarrow>
          (let (now, w1) = now_secs w;
               days = lane_days now t
           in (fail_if (flt days (Fin (of_int min_days)))
                 (''duration:'' @ fmt_fixed 1 days @ ''d<'' @ int_str min_days @ ''d''), w1)))"

definition needed :: "pyfloat option \<Rightarrow> string \<Rightarrow> (pyfloat \<Rightarrow> bool) \<Rightarrow> (pyfloat \<Rightarrow> string) \<Rightarrow> string list" where
  "needed x missing bad reason = (case x of None \<Rightarrow> [missing] | Some a \<Rightarrow> fail_if (bad a) (reason a))"

definition if_known :: "pyfloat option \<Rightarrow> (pyfloat \<Rightarrow> bool) \<Rightarrow> (pyfloat \<Rightarrow> string) \<Rightarrow> string list" where
  "if_known x bad reason = (case x of None \<Rightarrow> [] | Some a \<Rightarrow> fail_if (bad a) (reason a))"

definition paper_gate_failures :: "PipelineEntry \<Rightarrow> world \<Rightarrow> string list \<times> world" where
  "paper_gate_failures e w =
     (let (duration, w1) = duration_failures (e_paper_start_ts e) 14 ''no_paper_start_ts'' w in
      (duration @
       fail_if (e_paper_trades e < 100) (''trades:'' @ int_str (e_paper_trades e) @ ''<100'') @
       needed (e_paper_net_pnl_pct e) ''no_pnl_data'' (\<lambda>x. flt x (Fin 0))
         (\<lambda>x. ''pnl:'' @ fmt_fixed 2 x @ ''%<0.0%'') @
       needed (e_paper_max_drawdown_pct e) ''no_drawdown_data'' (\<lambda>x. flt (Fin 10) x)
         (\<lambda>x. ''drawdown:'' @ fmt_fixed 1 x @ ''%>10.0%'') @
       needed (e_paper_sharpe e) ''no_sharpe_data'' (\<lambda>x. flt x (Fin (1/2)))
         (\<lambda>x. ''sharpe:'' @ fmt_fixed 2 x @ ''<0.5''), w1))"

text \<open>The two estimator reports are read alike.\<close>

definition report_failures :: "(pyval \<Rightarrow> string) \<Rightarrow> string \<Rightarrow> pyval \<Rightarrow> string list" where
  "report_failures other label report =
     (case report of
        PDict d \<Rightarrow>
          (if truthy (dict_get d ''passes'' PNone) then []
           else
             (let v = dict_get d ''verdict'' PNone;
                  verdict = (if truthy v then py_str other v else ''unknown'');
                  reasons = dict_get d ''reasons'' PNone;
                  suffix = (if truthy reasons
                    then (case reasons of PList xs \<Rightarrow> join '','' (map (py_str other) xs) | r \<Rightarrow> py_str other r)
                    else [])
              in [label @ '':'' @ verdict @ (if suffix = [] then [] else '':'' @ suffix)]))
      | _ \<Rightarrow> [label @ '':no_evidence''])"

definition residual_failures :: "(pyval \<Rightarrow> string) \<Rightarrow> pyval \<Rightarrow> string list option" where
  "residual_failures other report =
     map_option (\<lambda>(ok, reason).
        if as_dict report = None then [''residual_alpha:no_evidence'']
        else fail_if (\<not> ok) (''residual_alpha:'' @ reason))
       (validate_demo_residual_alpha_report other report)"

text \<open>The clock has been read also where the validator raises.\<close>

definition demo_gate_failures ::
  "(pyval \<Rightarrow> string) \<Rightarrow> PipelineEntry \<Rightarrow> world \<Rightarrow> string list option \<times> world" where
  "demo_gate_failures other e w =
     (let (duration, w1) = duration_failures (e_demo_start_ts e) 21 ''no_demo_start_ts'' w;
          metrics =
            fail_if (e_demo_trades e < 200) (''trades:'' @ int_str (e_demo_trades e) @ ''<200'') @
            needed (e_demo_max_drawdown_pct e) ''no_drawdown_data'' (\<lambda>x. flt (Fin 8) x)
              (\<lambda>x. ''drawdown:'' @ fmt_fixed 1 x @ ''%>8.0%'') @
            needed (e_demo_sharpe e) ''no_sharpe_data'' (\<lambda>x. flt x (flit (8/10)))
              (\<lambda>x. ''sharpe:'' @ fmt_fixed 2 x @ ''<0.8'') @
            if_known (e_demo_avg_slippage_bps e) (\<lambda>x. flt (Fin 15) x)
              (\<lambda>x. ''slippage:'' @ fmt_fixed 1 x @ ''bps>15.0bps'') @
            if_known (e_demo_api_reliability e) (\<lambda>x. flt x (flit (95/100)))
              (\<lambda>x. ''reliability:'' @ fmt_fixed 2 x @ ''<0.95'')
      in (map_option (\<lambda>residual. duration @ metrics @
            report_failures other ''selection_bias'' (e_selection_report e) @
            report_failures other ''tail_risk'' (e_tail_risk_report e) @ residual)
          (residual_failures other (e_residual_report e)), w1))"

definition check_paper_graduation :: "string \<Rightarrow> promotion_gate \<Rightarrow> world \<Rightarrow> (bool \<times> string list) \<times> world" where
  "check_paper_graduation name g w =
     (case map_of (pp_entries g) name of
        None \<Rightarrow> ((False, [''not_registered'']), w)
      | Some e \<Rightarrow>
          (if e_current_stage e \<noteq> PAPER_SHADOW
           then ((False, [''wrong_stage:'' @ stage_name (e_current_stage e)]), w)
           else (let (fs, w1) = paper_gate_failures e w in ((fs = [], fs), w1))))"

definition check_demo_graduation ::
  "(pyval \<Rightarrow> string) \<Rightarrow> string \<Rightarrow> promotion_gate \<Rightarrow> world \<Rightarrow> (bool \<times> string list) option \<times> world" where
  "check_demo_graduation other name g w =
     (case map_of (pp_entries g) name of
        None \<Rightarrow> (Some (False, [''not_registered'']), w)
      | Some e \<Rightarrow>
          (if e_current_stage e \<noteq> DEMO_ACTIVE
           then (Some (False, [''wrong_stage:'' @ stage_name (e_current_stage e)]), w)
           else (let (fs, w1) = demo_gate_failures other e w in (map_option (\<lambda>x. (x = [], x)) fs, w1))))"

section \<open>Promotion and the operator's decision\<close>

text \<open>The first candidate that is valid; otherwise the reason of the first one that is there.\<close>

fun select_report ::
  "(pyval \<Rightarrow> string) \<Rightarrow> pyval list \<Rightarrow> string option \<Rightarrow> (bool \<times> string \<times> pyval) option" where
  "select_report other [] first = Some (False, (case first of Some r \<Rightarrow> if r = [] then ''no_evidence'' else r
      | None \<Rightarrow> ''no_evidence''), PNone)"
| "select_report other (r # rs) first =
     (if r = PNone then select_report other rs first
      else
        (case validate_demo_residual_alpha_report other r of
           None \<Rightarrow> None
         | Some (ok, reason) \<Rightarrow>
             (if ok \<and> as_dict r \<noteq> None then Some (True, ''ok'', r)
              else select_report other rs (if first = None then Some reason else first))))"

definition select_valid_residual_alpha_report ::
  "(pyval \<Rightarrow> string) \<Rightarrow> pyval \<Rightarrow> PipelineEntry \<Rightarrow> (bool \<times> string \<times> pyval) option" where
  "select_valid_residual_alpha_report other override_mapping e =
     select_report other [extract_demo_residual_alpha_report override_mapping,
       extract_demo_residual_alpha_report (e_evaluation_report e), e_residual_report e] None"

text \<open>The guard of each step: None where it raises, Some None where it lets the step pass.\<close>

definition promotion_guard ::
  "(pyval \<Rightarrow> string) \<Rightarrow> PromotionStage \<Rightarrow> PipelineEntry \<Rightarrow> world \<Rightarrow> check \<times> world" where
  "promotion_guard other target e w =
     (case target of
        DEMO_ACTIVE \<Rightarrow> (Some (Some ''paper_lane_frozen:demo_promotion_requires_explicit_operator_reopen''), w)
      | LIVE_PENDING \<Rightarrow>
          (let (fs, w1) = demo_gate_failures other e w in
           (map_option (\<lambda>x. if x = [] then None else Some (''gates_not_met:'' @ join '','' x)) fs, w1))
      | LIVE_ACTIVE \<Rightarrow>
          ((if e_operator_decision e \<noteq> Some ''APPROVED'' then Some (Some ''operator_approval_required'')
            else map_option (\<lambda>(ok, reason, r). if ok then None else Some (''residual_alpha_required:'' @ reason))
              (select_valid_residual_alpha_report other PNone e)), w)
      | _ \<Rightarrow> (Some None, w))"

definition promote ::
  "(pyval \<Rightarrow> string) \<Rightarrow> string \<Rightarrow> PromotionStage \<Rightarrow> string \<Rightarrow> string \<Rightarrow> promotion_gate \<Rightarrow> world \<Rightarrow>
   (bool \<times> string) option \<times> promotion_gate \<times> world" where
  "promote other name target initiator reason g w =
     (case map_of (pp_entries g) name of
        None \<Rightarrow> (Some (False, ''not_registered''), g, w)
      | Some e \<Rightarrow>
          (let current = e_current_stage e; step = stage_name current @ ''->'' @ stage_name target in
           if stage_value target \<noteq> stage_value current + 1
           then (Some (False, ''invalid_transition:'' @ step), g, w)
           else
             (case promotion_guard other target e w of
                (None, w1) \<Rightarrow> (None, g, w1)
              | (Some (Some failure), w1) \<Rightarrow> (Some (False, failure), g, w1)
              | (Some None, w1) \<Rightarrow>
                  (let (t, w2) = now_secs w1;
                       g1 = put_entry name (e\<lparr>e_current_stage := target, e_updated_ts := Some t\<rparr>) g
                   in (Some (True, ''promoted:'' @ step), g1,
                       promotion_audit g1 ''promote'' name (Some current) (Some target) initiator reason w2)))))"

definition operator_decisions :: "string set" where
  "operator_decisions = {''APPROVED'', ''REJECTED'', ''EXTEND''}"

definition set_operator_decision ::
  "(pyval \<Rightarrow> string) \<Rightarrow> string \<Rightarrow> string \<Rightarrow> pyfloat option \<Rightarrow> pyfloat option \<Rightarrow> pyval \<Rightarrow> promotion_gate \<Rightarrow> world \<Rightarrow>
   (bool \<times> string) option \<times> promotion_gate \<times> world" where
  "set_operator_decision other name decision capital leverage evaluation g w =
     (if decision \<notin> operator_decisions
      then (Some (False, ''invalid_decision:'' @ decision), g, w)
      else
        (case map_of (pp_entries g) name of
           None \<Rightarrow> (Some (False, ''not_registered''), g, w)
         | Some e \<Rightarrow>
             (if e_current_stage e \<noteq> LIVE_PENDING
              then (Some (False, ''wrong_stage:'' @ stage_name (e_current_stage e)), g, w)
              else
                (case (if decision = ''APPROVED'' then select_valid_residual_alpha_report other evaluation e
                       else Some (True, ''ok'', e_residual_report e)) of
                   None \<Rightarrow> (None, g, w)
                 | Some (ok, why, report) \<Rightarrow>
                     (if \<not> ok then (Some (False, ''residual_alpha_required:'' @ why), g, w)
                      else
                        (let (t, w1) = now_secs w;
                             e1 = e\<lparr>e_residual_report := report, e_operator_decision := Some decision,
                                   e_approved_capital_pct := capital, e_approved_max_leverage := leverage,
                                   e_evaluation_report := (if truthy evaluation then evaluation else e_evaluation_report e),
                                   e_updated_ts := Some t\<rparr>;
                             g1 = put_entry name e1 g
                         in (Some (True, ''decision_recorded:'' @ decision), g1,
                             promotion_audit g1 ''operator_decision'' name (Some LIVE_PENDING)
                               (Some LIVE_PENDING) ''operator'' (''decision='' @ decision) w1)))))))"

section \<open>The rows of the database\<close>

text \<open>A row keeps everything but the two bookkeeping times. Reading, None stands for a value of another
  type than the field's; the times of a row are epoch seconds, as the driver's \<open>datetime\<close> values
  are turned into.\<close>

definition entry_to_row :: "PipelineEntry \<Rightarrow> pydict" where
  "entry_to_row e =
     [(''pipeline_id'', opt_int (e_pipeline_id e)), (''strategy_name'', PStr (e_strategy_name e)),
      (''model_name'', opt_str (e_model_name e)), (''model_version'', opt_str (e_model_version e)),
      (''current_stage'', PStr (stage_name (e_current_stage e))),
      (''paper_start_ts'', opt_float (e_paper_start_ts e)), (''paper_trades'', PInt (e_paper_trades e)),
      (''paper_win_rate'', opt_float (e_paper_win_rate e)),
      (''paper_net_pnl_pct'', opt_float (e_paper_net_pnl_pct e)),
      (''paper_max_drawdown_pct'', opt_float (e_paper_max_drawdown_pct e)),
      (''paper_sharpe'', opt_float (e_paper_sharpe e)),
      (''demo_start_ts'', opt_float (e_demo_start_ts e)), (''demo_trades'', PInt (e_demo_trades e)),
      (''demo_win_rate'', opt_float (e_demo_win_rate e)),
      (''demo_net_pnl_pct'', opt_float (e_demo_net_pnl_pct e)),
      (''demo_max_drawdown_pct'', opt_float (e_demo_max_drawdown_pct e)),
      (''demo_sharpe'', opt_float (e_demo_sharpe e)),
      (''demo_avg_slippage_bps'', opt_float (e_demo_avg_slippage_bps e)),
      (''demo_api_reliability'', opt_float (e_demo_api_reliability e)),
      (''demo_selection_bias_report'', e_selection_report e),
      (''demo_tail_risk_report'', e_tail_risk_report e),
      (''demo_residual_alpha_report'', e_residual_report e),
      (''evaluation_report'', e_evaluation_report e),
      (''operator_decision'', opt_str (e_operator_decision e)),
      (''approved_capital_pct'', opt_float (e_approved_capital_pct e)),
      (''approved_max_leverage'', opt_float (e_approved_max_leverage e))]"

definition to_db_rows :: "promotion_gate \<Rightarrow> pydict list" where
  "to_db_rows g = map (entry_to_row \<circ> snd) (pp_entries g)"

definition entry_of_row :: "pydict \<Rightarrow> PipelineEntry option" where
  "entry_of_row row = (let value = (\<lambda>k. dict_get row k PNone); number = (\<lambda>k. as_opt_float (value k)) in do {
     pid \<leftarrow> as_opt_int (value ''pipeline_id'');
     name \<leftarrow> as_str (dict_get row ''strategy_name'' (PStr []));
     model \<leftarrow> as_opt_str (value ''model_name'');
     version \<leftarrow> as_opt_str (value ''model_version'');
     p_start \<leftarrow> number ''paper_start_ts'';
     p_trades \<leftarrow> as_int (dict_get row ''paper_trades'' (PInt 0));
     p_win \<leftarrow> number ''paper_win_rate'';
     p_pnl \<leftarrow> number ''paper_net_pnl_pct'';
     p_dd \<leftarrow> number ''paper_max_drawdown_pct'';
     p_sharpe \<leftarrow> number ''paper_sharpe'';
     d_start \<leftarrow> number ''demo_start_ts'';
     d_trades \<leftarrow> as_int (dict_get row ''demo_trades'' (PInt 0));
     d_win \<leftarrow> number ''demo_win_rate'';
     d_pnl \<leftarrow> number ''demo_net_pnl_pct'';
     d_dd \<leftarrow> number ''demo_max_drawdown_pct'';
     d_sharpe \<leftarrow> number ''demo_sharpe'';
     d_slip \<leftarrow> number ''demo_avg_slippage_bps'';
     d_rel \<leftarrow> number ''demo_api_reliability'';
     decision \<leftarrow> as_opt_str (value ''operator_decision'');
     capital \<leftarrow> number ''approved_capital_pct'';
     leverage \<leftarrow> number ''approved_max_leverage'';
     Some \<lparr>e_pipeline_id = pid, e_strategy_name = name, e_model_name = model, e_model_version = version,
       e_current_stage = stage_of (dict_get row ''current_stage'' (PStr ''LEARNING'')),
       e_paper_start_ts = p_start, e_paper_trades = p_trades, e_paper_win_rate = p_win,
       e_paper_net_pnl_pct = p_pnl, e_paper_max_drawdown_pct = p_dd, e_paper_sharpe = p_sharpe,
       e_demo_start_ts = d_start, e_demo_trades = d_trades, e_demo_win_rate = d_win,
       e_demo_net_pnl_pct = d_pnl, e_demo_max_drawdown_pct = d_dd, e_demo_sharpe = d_sharpe,
       e_demo_avg_slippage_bps = d_slip, e_demo_api_reliability = d_rel,
       e_selection_report = value ''demo_selection_bias_report'',
       e_tail_risk_report = value ''demo_tail_risk_report'',
       e_residual_report = extract_demo_residual_alpha_report (PDict row),
       e_evaluation_report = value ''evaluation_report'', e_operator_decision = decision,
       e_approved_capital_pct = capital, e_approved_max_leverage = leverage,
       e_created_ts = None, e_updated_ts = None\<rparr> })"

fun load_from_db_rows :: "pydict list \<Rightarrow> promotion_gate \<Rightarrow> promotion_gate option" where
  "load_from_db_rows [] g = Some g"
| "load_from_db_rows (row # rows) g =
     Option.bind (entry_of_row row) (\<lambda>e. load_from_db_rows rows
       (if e_strategy_name e = [] then g else put_entry (e_strategy_name e) e g))"

section \<open>What the operations do\<close>

lemma put_entry_get: "map_of (pp_entries (put_entry n e g)) k = (if k = n then Some e else map_of (pp_entries g) k)"
  by (simp add: put_entry_def pd.get_put)

lemma put_entry_audit [simp]: "pp_audit_cb (put_entry n e g) = pp_audit_cb g"
  by (simp add: put_entry_def)

text \<open>An operation that only collects evidence keeps the names, the stages and the decisions.\<close>

definition kept :: "promotion_gate \<Rightarrow> promotion_gate \<Rightarrow> bool" where
  "kept g g' \<longleftrightarrow> g' = g \<or> (\<exists>n e e'. map_of (pp_entries g) n = Some e \<and> g' = put_entry n e' g \<and>
     e_strategy_name e' = e_strategy_name e \<and> e_current_stage e' = e_current_stage e \<and>
     e_operator_decision e' = e_operator_decision e)"

lemma keptI:
  "map_of (pp_entries g) n = Some e \<Longrightarrow> g' = put_entry n e' g \<Longrightarrow> e_strategy_name e' = e_strategy_name e \<Longrightarrow>
   e_current_stage e' = e_current_stage e \<Longrightarrow> e_operator_decision e' = e_operator_decision e \<Longrightarrow> kept g g'"
  unfolding kept_def by blast

lemma kept_refl [simp]: "kept g g"
  by (simp add: kept_def)

lemma evidence_kept:
  "update_paper_metrics n a b c d f g w = (g', w') \<Longrightarrow> kept g g'"
  "update_demo_metrics n a b c d f h i g w = (g', w') \<Longrightarrow> kept g g'"
  "update_demo_selection_bias_evidence n x g w = (r, g', w') \<Longrightarrow> kept g g'"
  "update_demo_tail_risk_evidence n x g w = (r, g', w') \<Longrightarrow> kept g g'"
  "update_demo_residual_alpha_evidence other n v g w = (q, g', w') \<Longrightarrow> kept g g'"
  by (cases "map_of (pp_entries g) n";
      auto simp: update_paper_metrics_def update_demo_metrics_def update_demo_selection_bias_evidence_def
        update_demo_tail_risk_evidence_def update_demo_residual_alpha_evidence_def Let_def
        split: prod.splits option.splits intro: keptI)+

lemma select_report_spec:
  "select_report other rs first = Some (ok, why, r) \<Longrightarrow>
     (ok \<longrightarrow> r \<in> set rs \<and> valid_report other r) \<and> (\<not> ok \<longrightarrow> (\<forall>x \<in> set rs. \<not> valid_report other x))"
proof (induction other rs first rule: select_report.induct)
  case (2 other x rs first)
  show ?case
  proof (cases "x = PNone")
    case True
    then show ?thesis using 2 by (auto simp: valid_report_other as_dict_def)
  next
    case False
    with 2(3) obtain ok1 reason where v: "validate_demo_residual_alpha_report other x = Some (ok1, reason)"
      by (auto split: option.splits)
    show ?thesis
    proof (cases "ok1 \<and> as_dict x \<noteq> None")
      case True
      have "valid_report other x"
        using v True by (auto simp: valid_report_def validate_demo_residual_alpha_report_def split: pyval.splits option.splits)
      with 2(3) False v True show ?thesis by auto
    next
      case no: False
      then have "\<not> valid_report other x"
        using v valid_report_other[of x other] by (auto simp: valid_report_def)
      with 2(2)[OF False v refl no] 2(3) False v no show ?thesis by auto
    qed
  qed
qed simp

definition evidence_reports :: "pyval \<Rightarrow> PipelineEntry \<Rightarrow> pyval set" where
  "evidence_reports override e = {extract_demo_residual_alpha_report override,
     extract_demo_residual_alpha_report (e_evaluation_report e), e_residual_report e}"

lemma select_valid_spec:
  assumes "select_valid_residual_alpha_report other override e = Some (ok, why, r)"
  shows "ok \<longleftrightarrow> (\<exists>x \<in> evidence_reports override e. valid_report other x)"
    and "ok \<Longrightarrow> r \<in> evidence_reports override e \<and> valid_report other r"
  using select_report_spec[OF assms[unfolded select_valid_residual_alpha_report_def]]
  by (cases ok; auto simp: evidence_reports_def)+

lemma select_valid_dest:
  "select_valid_residual_alpha_report other override e = Some (True, why, r) \<Longrightarrow>
     \<exists>x \<in> evidence_reports override e. valid_report other x"
  "select_valid_residual_alpha_report other override e = Some (False, why, r) \<Longrightarrow>
     x \<in> evidence_reports override e \<Longrightarrow> \<not> valid_report other x"
  using select_valid_spec by blast+

text \<open>What the guard of a step lets through.\<close>

definition may_enter :: "(pyval \<Rightarrow> string) \<Rightarrow> PromotionStage \<Rightarrow> PipelineEntry \<Rightarrow> world \<Rightarrow> bool" where
  "may_enter other target e w =
     (case target of
        DEMO_ACTIVE \<Rightarrow> False
      | LIVE_PENDING \<Rightarrow> fst (demo_gate_failures other e w) = Some []
      | LIVE_ACTIVE \<Rightarrow> e_operator_decision e = Some ''APPROVED'' \<and>
          (\<exists>x \<in> evidence_reports PNone e. valid_report other x)
      | _ \<Rightarrow> True)"

lemma promotion_guard_spec:
  assumes "promotion_guard other target e w = (Some failure, w')"
  shows "failure = None \<longleftrightarrow> may_enter other target e w"
  using assms
  by (cases target)
    (auto simp: promotion_guard_def may_enter_def split: prod.splits if_splits dest: select_valid_dest)

lemma promote_spec:
  assumes "promote other n target initiator reason g w = (Some (ok, msg), g', w')"
  shows "(ok \<longleftrightarrow> (\<exists>e. map_of (pp_entries g) n = Some e \<and> stage_value target = stage_value (e_current_stage e) + 1 \<and>
      may_enter other target e w)) \<and>
    (if ok then \<exists>e t. map_of (pp_entries g) n = Some e \<and>
        g' = put_entry n (e\<lparr>e_current_stage := target, e_updated_ts := Some t\<rparr>) g
     else g' = g)"
proof (cases "map_of (pp_entries g) n")
  case None
  then show ?thesis using assms by (simp add: promote_def)
next
  case (Some e)
  show ?thesis
  proof (cases "stage_value target = stage_value (e_current_stage e) + 1")
    case False
    then show ?thesis using assms Some by (simp add: promote_def Let_def)
  next
    case True
    obtain v w1 where v: "promotion_guard other target e w = (v, w1)" by fastforce
    have "v \<noteq> None" using assms Some True v by (cases v) (simp_all add: promote_def Let_def)
    then obtain failure where f: "v = Some failure" by blast
    note guard = promotion_guard_spec[OF v[unfolded f]]
    show ?thesis
    proof (cases failure)
      case None
      then show ?thesis using assms Some True v f guard by (auto simp: promote_def Let_def split: prod.splits)
    next
      case (Some msg1)
      then show ?thesis using assms \<open>map_of (pp_entries g) n = Some e\<close> True v f guard
        by (auto simp: promote_def Let_def)
    qed
  qed
qed

lemma promote_raised: "promote other n target initiator reason g w = (None, g', w') \<Longrightarrow> g' = g"
  by (auto simp: promote_def Let_def split: option.splits prod.splits if_splits)

lemma decide_spec:
  assumes "set_operator_decision other n decision capital leverage evaluation g w = (res, g', w')"
  shows "g' = g \<or> (\<exists>e e' msg. res = Some (True, msg) \<and> map_of (pp_entries g) n = Some e \<and> e_current_stage e = LIVE_PENDING \<and>
      g' = put_entry n e' g \<and> e_strategy_name e' = e_strategy_name e \<and> e_current_stage e' = LIVE_PENDING \<and>
      e_operator_decision e' = Some decision \<and>
      (decision = ''APPROVED'' \<longrightarrow> valid_report other (e_residual_report e')))"
proof (cases "map_of (pp_entries g) n")
  case None
  then show ?thesis using assms by (auto simp: set_operator_decision_def split: if_splits)
next
  case (Some e)
  let ?pick = "if decision = ''APPROVED'' then select_valid_residual_alpha_report other evaluation e
    else Some (True, ''ok'', e_residual_report e)"
  show ?thesis
  proof (cases "decision \<in> operator_decisions \<and> e_current_stage e = LIVE_PENDING")
    case False
    then have "g' = g"
      using assms Some by (cases "decision \<in> operator_decisions"; simp add: set_operator_decision_def)
    then show ?thesis ..
  next
    case True
    show ?thesis
    proof (cases ?pick)
      case None
      then have "g' = g" using assms Some True by (simp add: set_operator_decision_def)
      then show ?thesis ..
    next
      case pick: (Some p)
      obtain ok why r where p: "p = (ok, why, r)" by (rule prod_cases3)
      have r: "valid_report other r" if ok "decision = ''APPROVED''"
        using select_valid_spec(2)[of other evaluation e ok why r] pick p that by simp
      show ?thesis
      proof (cases ok)
        case False
        then show ?thesis using assms Some True pick p by (simp add: set_operator_decision_def)
      next
        case okT: True
        obtain t w1 where t: "now_secs w = (t, w1)" by fastforce
        let ?e = "e\<lparr>e_residual_report := r, e_operator_decision := Some decision,
          e_approved_capital_pct := capital, e_approved_max_leverage := leverage,
          e_evaluation_report := (if truthy evaluation then evaluation else e_evaluation_report e), e_updated_ts := Some t\<rparr>"
        have "g' = put_entry n ?e g \<and> res = Some (True, ''decision_recorded:'' @ decision)"
          using assms Some True pick p okT t by (simp add: set_operator_decision_def Let_def)
        then show ?thesis using Some True okT r by (intro disjI2 exI[of _ e] exI[of _ ?e]) simp
      qed
    qed
  qed
qed

section \<open>Histories\<close>

text \<open>One operation, by any caller and at any time. A strategy comes in by being registered, at any stage and
  with no decision yet, or in a row of the database, with whatever stage and decision the row names;
  \<open>enters n s d\<close> says that strategy \<open>n\<close> may come in at stage \<open>s\<close> with decision \<open>d\<close>. A load that
  raises on a row has loaded the rows before it, which is a load too.\<close>

type_synonym entrances = "string \<Rightarrow> PromotionStage \<Rightarrow> string option \<Rightarrow> bool"

inductive promotion_step ::
  "(pyval \<Rightarrow> string) \<Rightarrow> entrances \<Rightarrow> promotion_gate \<Rightarrow> promotion_gate \<Rightarrow> bool"
  for other enters where
  step_register: "register_strategy n m v s g w = (e, g', w') \<Longrightarrow> enters n s None \<Longrightarrow>
     promotion_step other enters g g'"
| step_load: "load_from_db_rows rows g = Some g' \<Longrightarrow>
     (\<And>row e. row \<in> set rows \<Longrightarrow> entry_of_row row = Some e \<Longrightarrow>
        enters (e_strategy_name e) (e_current_stage e) (e_operator_decision e)) \<Longrightarrow>
     promotion_step other enters g g'"
| step_paper: "update_paper_metrics n a b c d f g w = (g', w') \<Longrightarrow> promotion_step other enters g g'"
| step_demo: "update_demo_metrics n a b c d f h i g w = (g', w') \<Longrightarrow> promotion_step other enters g g'"
| step_bias: "update_demo_selection_bias_evidence n x g w = (r, g', w') \<Longrightarrow> promotion_step other enters g g'"
| step_tail: "update_demo_tail_risk_evidence n x g w = (r, g', w') \<Longrightarrow> promotion_step other enters g g'"
| step_residual: "update_demo_residual_alpha_evidence other n y g w = (q, g', w') \<Longrightarrow> promotion_step other enters g g'"
| step_promote: "promote other n target initiator reason g w = (res, g', w') \<Longrightarrow> promotion_step other enters g g'"
| step_decide: "set_operator_decision other n decision capital leverage evaluation g w = (res, g', w') \<Longrightarrow>
     promotion_step other enters g g'"

inductive promotion_reachable :: "(pyval \<Rightarrow> string) \<Rightarrow> entrances \<Rightarrow> promotion_gate \<Rightarrow> bool"
  for other enters where
  reach_new: "promotion_reachable other enters (promotion_gate_new cb)"
| reach_step: "promotion_reachable other enters g \<Longrightarrow> promotion_step other enters g g' \<Longrightarrow> promotion_reachable other enters g'"

text \<open>What a load puts into the gate.\<close>

lemma load_entries:
  assumes "load_from_db_rows rows g = Some g'"
  shows "(distinct (map fst (pp_entries g)) \<longrightarrow> distinct (map fst (pp_entries g'))) \<and>
    (map_of (pp_entries g') n = Some e \<longrightarrow> map_of (pp_entries g) n = Some e \<or>
       (\<exists>row \<in> set rows. entry_of_row row = Some e \<and> e_strategy_name e = n))"
  using assms
proof (induction rows arbitrary: g)
  case (Cons row rows)
  obtain x where x: "entry_of_row row = Some x" using Cons.prems by (cases "entry_of_row row") simp_all
  let ?g = "if e_strategy_name x = [] then g else put_entry (e_strategy_name x) x g"
  have l: "load_from_db_rows rows ?g = Some g'" using Cons.prems x by simp
  have "distinct (map fst (pp_entries g)) \<longrightarrow> distinct (map fst (pp_entries ?g))"
    by (simp add: put_entry_def distinct_keys_update)
  moreover have "map_of (pp_entries ?g) n = Some e \<longrightarrow> map_of (pp_entries g) n = Some e \<or> (x = e \<and> e_strategy_name e = n)"
    by (auto simp: put_entry_get)
  ultimately show ?case using Cons.IH[OF l] x by auto
qed simp

text \<open>Every step is one of five changes.\<close>

lemma promotion_step_cases:
  assumes "promotion_step other enters g g'"
  obtains (kept) "kept g g'"
  | (registered) n e s where "map_of (pp_entries g) n = None" "g' = put_entry n e g" "e_strategy_name e = n"
      "e_current_stage e = s" "enters n s None" "e_operator_decision e = None"
  | (loaded) rows where "load_from_db_rows rows g = Some g'"
      "\<And>row e. row \<in> set rows \<Longrightarrow> entry_of_row row = Some e \<Longrightarrow>
         enters (e_strategy_name e) (e_current_stage e) (e_operator_decision e)"
  | (promoted) n e t target w where "map_of (pp_entries g) n = Some e" "may_enter other target e w"
      "stage_value target = stage_value (e_current_stage e) + 1"
      "g' = put_entry n (e\<lparr>e_current_stage := target, e_updated_ts := Some t\<rparr>) g"
  | (decided) n e e' where "map_of (pp_entries g) n = Some e" "e_current_stage e = LIVE_PENDING" "g' = put_entry n e' g"
      "e_strategy_name e' = e_strategy_name e" "e_current_stage e' = LIVE_PENDING"
  using assms
proof cases
  case (step_register n m v s w e w')
  show ?thesis
  proof (cases "map_of (pp_entries g) n")
    case (Some x)
    then show ?thesis using step_register that(1) by (simp add: register_strategy_def)
  next
    case None
    then show ?thesis using step_register that(2)
      by (auto simp: register_strategy_def new_entry_def Let_def split: prod.splits)
  qed
next
  case (step_load rows)
  then show ?thesis using that(3) by blast
next
  case (step_promote n target initiator reason w res w')
  show ?thesis
  proof (cases res)
    case None
    then show ?thesis using promote_raised that(1) step_promote by fastforce
  next
    case (Some r)
    obtain ok msg where r: "r = (ok, msg)" by fastforce
    note spec = promote_spec[OF step_promote[unfolded Some r]]
    show ?thesis
    proof (cases ok)
      case False
      then show ?thesis using spec that(1) by simp
    next
      case True
      then show ?thesis using spec that(4) by fastforce
    qed
  qed
next
  case (step_decide n decision capital leverage evaluation w res w')
  then show ?thesis using decide_spec[OF step_decide] that(1,5) by (metis kept_refl)
next
  case step_paper
  then show ?thesis using evidence_kept(1) that(1) by blast
next
  case step_demo
  then show ?thesis using evidence_kept(2) that(1) by blast
next
  case step_bias
  then show ?thesis using evidence_kept(3) that(1) by blast
next
  case step_tail
  then show ?thesis using evidence_kept(4) that(1) by blast
next
  case step_residual
  then show ?thesis using evidence_kept(5) that(1) by blast
qed

lemma stage_value_inj: "stage_value a = stage_value b \<longleftrightarrow> a = b"
  by (cases a; cases b) simp_all

text \<open>An invariant of the entries holds in every history when each of the changes keeps it for
  the entry that it changes.\<close>

lemma entries_invariant:
  assumes reach: "promotion_reachable other enters g"
    and keep: "\<And>n e e'. P n e \<Longrightarrow> e_strategy_name e' = e_strategy_name e \<Longrightarrow> e_current_stage e' = e_current_stage e \<Longrightarrow>
        e_operator_decision e' = e_operator_decision e \<Longrightarrow> P n e'"
    and new: "\<And>n e. e_strategy_name e = n \<Longrightarrow> enters n (e_current_stage e) (e_operator_decision e) \<Longrightarrow> P n e"
    and up: "\<And>n e t target w. P n e \<Longrightarrow> may_enter other target e w \<Longrightarrow>
        stage_value target = stage_value (e_current_stage e) + 1 \<Longrightarrow>
        P n (e\<lparr>e_current_stage := target, e_updated_ts := Some t\<rparr>)"
    and decide: "\<And>n e e'. P n e \<Longrightarrow> e_strategy_name e' = e_strategy_name e \<Longrightarrow> e_current_stage e = LIVE_PENDING \<Longrightarrow>
        e_current_stage e' = LIVE_PENDING \<Longrightarrow> P n e'"
  shows "map_of (pp_entries g) n = Some e \<Longrightarrow> P n e"
  using reach
proof (induction arbitrary: n e rule: promotion_reachable.induct)
  case (reach_new cb)
  then show ?case by (simp add: promotion_gate_new_def)
next
  case (reach_step g g')
  note old = reach_step.IH
  from reach_step.hyps(2) reach_step.prems show ?case
  proof (cases rule: promotion_step_cases)
    case kept
    then show ?thesis using reach_step.prems unfolding kept_def
      by (auto simp: put_entry_get split: if_splits intro: keep[OF old] old)
  next
    case registered
    then show ?thesis using reach_step.prems by (auto simp: put_entry_get split: if_splits intro: new old)
  next
    case (loaded rows)
    then show ?thesis using load_entries[of rows g g' n e] reach_step.prems new old by blast
  next
    case promoted
    then show ?thesis using reach_step.prems by (auto simp: put_entry_get split: if_splits intro: up[OF old] old)
  next
    case decided
    then show ?thesis using reach_step.prems by (auto simp: put_entry_get split: if_splits intro: decide[OF old] old)
  qed
qed

lemma reachable_names:
  "promotion_reachable other enters g \<Longrightarrow> map_of (pp_entries g) n = Some e \<Longrightarrow> e_strategy_name e = n"
  by (rule entries_invariant[where P = "\<lambda>n e. e_strategy_name e = n"]) simp_all

lemma reachable_distinct: "promotion_reachable other enters g \<Longrightarrow> distinct (map fst (pp_entries g))"
proof (induction rule: promotion_reachable.induct)
  case (reach_new cb)
  then show ?case by (simp add: promotion_gate_new_def)
next
  case (reach_step g g')
  have put: "distinct (map fst (pp_entries (put_entry n e g)))" for n e
    using reach_step.IH by (simp add: put_entry_def distinct_keys_update)
  from reach_step.hyps(2) show ?case
    by (cases rule: promotion_step_cases) (use put reach_step.IH load_entries in \<open>auto simp: kept_def\<close>)
qed

lemma reachable_frozen:
  assumes "promotion_reachable other enters g" "\<And>s d. enters n s d \<Longrightarrow> s \<in> {LEARNING, PAPER_SHADOW}"
    and "map_of (pp_entries g) n = Some e"
  shows "e_current_stage e \<in> {LEARNING, PAPER_SHADOW}"
proof -
  have low: "s \<in> {LEARNING, PAPER_SHADOW} \<longleftrightarrow> stage_value s \<le> 1" for s by (cases s) simp_all
  have "n = n \<longrightarrow> stage_value (e_current_stage e) \<le> 1"
  proof (rule entries_invariant[where P = "\<lambda>k e. k = n \<longrightarrow> stage_value (e_current_stage e) \<le> 1", OF assms(1) _ _ _ _ assms(3)])
    fix k :: string and e :: PipelineEntry and t target w
    assume "k = n \<longrightarrow> stage_value (e_current_stage e) \<le> 1" "may_enter other target e w"
      "stage_value target = stage_value (e_current_stage e) + 1"
    then show "k = n \<longrightarrow> stage_value (e_current_stage (e\<lparr>e_current_stage := target, e_updated_ts := Some t\<rparr>)) \<le> 1"
      by (cases target) (simp_all add: may_enter_def)
  next
    fix k :: string and e :: PipelineEntry
    assume "enters k (e_current_stage e) (e_operator_decision e)"
    then show "k = n \<longrightarrow> stage_value (e_current_stage e) \<le> 1" using assms(2) low by blast
  qed auto
  then show ?thesis unfolding low by simp
qed

lemma reachable_live:
  assumes "promotion_reachable other enters g" "\<And>d. enters n LIVE_ACTIVE d \<Longrightarrow> d = Some ''APPROVED''"
    and "map_of (pp_entries g) n = Some e" "e_current_stage e = LIVE_ACTIVE"
  shows "e_operator_decision e = Some ''APPROVED''"
proof -
  have "n = n \<longrightarrow> e_current_stage e = LIVE_ACTIVE \<longrightarrow> e_operator_decision e = Some ''APPROVED''"
  proof (rule entries_invariant[where P = "\<lambda>k e. k = n \<longrightarrow> e_current_stage e = LIVE_ACTIVE \<longrightarrow>
      e_operator_decision e = Some ''APPROVED''", OF assms(1) _ _ _ _ assms(3)])
    fix k :: string and e :: PipelineEntry and t target w
    assume "may_enter other target e w"
    then show "k = n \<longrightarrow> e_current_stage (e\<lparr>e_current_stage := target, e_updated_ts := Some t\<rparr>) = LIVE_ACTIVE \<longrightarrow>
        e_operator_decision (e\<lparr>e_current_stage := target, e_updated_ts := Some t\<rparr>) = Some ''APPROVED''"
      by (cases target) (simp_all add: may_enter_def)
  next
    fix k :: string and e :: PipelineEntry
    assume "enters k (e_current_stage e) (e_operator_decision e)"
    then show "k = n \<longrightarrow> e_current_stage e = LIVE_ACTIVE \<longrightarrow> e_operator_decision e = Some ''APPROVED''"
      using assms(2) by auto
  qed auto
  with assms(4) show ?thesis by simp
qed

text \<open>What an empty list of demo failures says.\<close>

lemma needed_nil: "needed x missing bad reason = [] \<longleftrightarrow> (\<exists>a. x = Some a \<and> \<not> bad a)"
  by (auto simp: needed_def fail_if_def split: option.splits)

lemma if_known_nil: "if_known x bad reason = [] \<longleftrightarrow> x = None \<or> (\<exists>a. x = Some a \<and> \<not> bad a)"
  by (auto simp: if_known_def fail_if_def split: option.splits)

lemma report_failures_nil:
  "report_failures other label r = [] \<longleftrightarrow> (\<exists>d. r = PDict d \<and> truthy (dict_get d ''passes'' PNone))"
  by (auto simp: report_failures_def Let_def split: pyval.splits)

lemma residual_failures_nil: "residual_failures other r = Some [] \<longleftrightarrow> valid_report other r"
proof (cases "as_dict r")
  case None
  then show ?thesis using valid_report_other[of r other] by (auto simp: residual_failures_def)
next
  case (Some d)
  then show ?thesis
    by (auto simp: residual_failures_def valid_report_def fail_if_def validate_demo_residual_alpha_report_def
        split: option.splits pyval.splits)
qed

lemma duration_failures_nil:
  "fst (duration_failures start m missing w) = [] \<longleftrightarrow>
     (\<exists>t. start = Some t \<and> \<not> flt (lane_days (fst (now_secs w)) t) (Fin (of_int m)))"
  by (auto simp: duration_failures_def fail_if_def Let_def split: option.splits prod.splits)

lemma demo_gate_nil:
  "fst (demo_gate_failures other e w) = Some [] \<longleftrightarrow>
     (\<exists>t. e_demo_start_ts e = Some t \<and> \<not> flt (lane_days (fst (now_secs w)) t) (Fin 21)) \<and> 200 \<le> e_demo_trades e \<and>
     (\<exists>a. e_demo_max_drawdown_pct e = Some a \<and> \<not> flt (Fin 8) a) \<and>
     (\<exists>a. e_demo_sharpe e = Some a \<and> \<not> flt a (flit (8/10))) \<and>
     (e_demo_avg_slippage_bps e = None \<or> (\<exists>a. e_demo_avg_slippage_bps e = Some a \<and> \<not> flt (Fin 15) a)) \<and>
     (e_demo_api_reliability e = None \<or> (\<exists>a. e_demo_api_reliability e = Some a \<and> \<not> flt a (flit (95/100)))) \<and>
     (\<exists>d. e_selection_report e = PDict d \<and> truthy (dict_get d ''passes'' PNone)) \<and>
     (\<exists>d. e_tail_risk_report e = PDict d \<and> truthy (dict_get d ''passes'' PNone)) \<and>
     valid_report other (e_residual_report e)"
proof -
  have "fst (demo_gate_failures other e w) = Some [] \<longleftrightarrow>
      fst (duration_failures (e_demo_start_ts e) 21 ''no_demo_start_ts'' w) = [] \<and> 200 \<le> e_demo_trades e \<and>
      needed (e_demo_max_drawdown_pct e) ''no_drawdown_data'' (\<lambda>x. flt (Fin 8) x)
        (\<lambda>x. ''drawdown:'' @ fmt_fixed 1 x @ ''%>8.0%'') = [] \<and>
      needed (e_demo_sharpe e) ''no_sharpe_data'' (\<lambda>x. flt x (flit (8/10)))
        (\<lambda>x. ''sharpe:'' @ fmt_fixed 2 x @ ''<0.8'') = [] \<and>
      if_known (e_demo_avg_slippage_bps e) (\<lambda>x. flt (Fin 15) x)
        (\<lambda>x. ''slippage:'' @ fmt_fixed 1 x @ ''bps>15.0bps'') = [] \<and>
      if_known (e_demo_api_reliability e) (\<lambda>x. flt x (flit (95/100)))
        (\<lambda>x. ''reliability:'' @ fmt_fixed 2 x @ ''<0.95'') = [] \<and>
      report_failures other ''selection_bias'' (e_selection_report e) = [] \<and>
      report_failures other ''tail_risk'' (e_tail_risk_report e) = [] \<and>
      residual_failures other (e_residual_report e) = Some []"
    by (auto simp: demo_gate_failures_def fail_if_def Let_def split: prod.splits if_splits)
  then show ?thesis
    by (simp only: duration_failures_nil needed_nil if_known_nil report_failures_nil residual_failures_nil
        of_int_numeral)
qed

section \<open>Rows\<close>

lemma stage_of_name [simp]: "stage_of (PStr (stage_name s)) = s"
  by (cases s) (simp_all add: stage_of_def stages_def)

definition unstamped :: "PipelineEntry \<Rightarrow> PipelineEntry" where
  "unstamped e = e\<lparr>e_created_ts := None, e_updated_ts := None\<rparr>"

lemma entry_row_roundtrip: "entry_of_row (entry_to_row e) = Some (unstamped e)"
  by (simp add: entry_of_row_def entry_to_row_def dict_get_def extract_demo_residual_alpha_report_def unstamped_def)

lemma entry_rows_load:
  assumes "\<forall>(n, e) \<in> set es. e_strategy_name e = n \<and> n \<noteq> []" "distinct (map fst (ds @ es))"
  shows "load_from_db_rows (map (entry_to_row \<circ> snd) es) (g\<lparr>pp_entries := ds\<rparr>) =
    Some (g\<lparr>pp_entries := ds @ map (\<lambda>(n, e). (n, unstamped e)) es\<rparr>)"
  using assms
proof (induction es arbitrary: ds)
  case Nil
  then show ?case by simp
next
  case (Cons x es)
  obtain n e where x: "x = (n, e)" by fastforce
  have n: "e_strategy_name (unstamped e) = n" "n \<noteq> []" using Cons.prems x by (auto simp: unstamped_def)
  have "map_of ds n = None" using Cons.prems x by (auto simp: map_of_eq_None_iff)
  then have "put_entry n (unstamped e) (g\<lparr>pp_entries := ds\<rparr>) = g\<lparr>pp_entries := ds @ [(n, unstamped e)]\<rparr>"
    by (simp add: put_entry_def update_absent)
  with Cons.IH[of "ds @ [(n, unstamped e)]"] Cons.prems n x show ?case
    by (simp add: entry_row_roundtrip)
qed

section \<open>Concrete gates, for the witnesses\<close>

definition demo_pending :: promotion_gate where
  "demo_pending = fst (snd (register_strategy ''s'' None None LIVE_PENDING (promotion_gate_new False) (sample_world 0)))"

definition demo_approved :: promotion_gate where
  "demo_approved = fst (snd (set_operator_decision (\<lambda>v. []) ''s'' ''APPROVED'' None None
     (PDict [(''demo_residual_alpha_report'', demo_report)]) demo_pending (sample_world 0)))"

definition demo_live :: promotion_gate where
  "demo_live = fst (snd (promote (\<lambda>v. []) ''s'' LIVE_ACTIVE ''operator'' [] demo_approved (sample_world 0)))"

lemma demo_validated: "validate_demo_residual_alpha_report other demo_report = Some (True, ''ok'')"
  using demo_report_valid[of other] by (simp add: valid_report_def)

lemma demo_report_is: "demo_report \<noteq> PNone" "as_dict demo_report \<noteq> None"
  by (simp_all add: demo_report_def)

lemma demo_pending_entry:
  "map_of (pp_entries demo_pending) n = (if n = ''s'' then
     Some ((new_entry ''s'' None None LIVE_PENDING)\<lparr>e_created_ts := Some (Fin 0), e_updated_ts := Some (Fin 1)\<rparr>) else None)"
  by (simp add: demo_pending_def register_strategy_def promotion_gate_new_def put_entry_def now_secs_def
      read_clock_def sample_world_def sample_env_def sample_clock_def env.defs Let_def)

lemma demo_approved_entry:
  "\<exists>e. map_of (pp_entries demo_approved) ''s'' = Some e \<and> e_current_stage e = LIVE_PENDING \<and>
     e_operator_decision e = Some ''APPROVED'' \<and> e_residual_report e = demo_report \<and>
     e_evaluation_report e = PDict [(''demo_residual_alpha_report'', demo_report)]"
proof -
  have "select_valid_residual_alpha_report (\<lambda>v. []) (PDict [(''demo_residual_alpha_report'', demo_report)]) e =
      Some (True, ''ok'', demo_report)" for e
    using demo_report_is
    by (simp add: select_valid_residual_alpha_report_def extract_demo_residual_alpha_report_def dict_get_def demo_validated)
  then show ?thesis
    by (simp add: demo_approved_def set_operator_decision_def operator_decisions_def demo_pending_entry new_entry_def
        Let_def put_entry_get split: prod.splits)
qed

lemma demo_live_entry:
  "fst (promote (\<lambda>v. []) ''s'' LIVE_ACTIVE ''operator'' [] demo_approved (sample_world 0)) =
     Some (True, ''promoted:LIVE_PENDING->LIVE_ACTIVE'')"
  "get_stage ''s'' demo_live = LIVE_ACTIVE"
proof -
  obtain e where e: "map_of (pp_entries demo_approved) ''s'' = Some e" "e_current_stage e = LIVE_PENDING"
    "e_operator_decision e = Some ''APPROVED''"
    "e_evaluation_report e = PDict [(''demo_residual_alpha_report'', demo_report)]"
    using demo_approved_entry by blast
  have "\<exists>why r. select_valid_residual_alpha_report (\<lambda>v. []) PNone e = Some (True, why, r)"
    using e(4) demo_report_is
    by (simp add: select_valid_residual_alpha_report_def extract_demo_residual_alpha_report_def dict_get_def demo_validated)
  then have "promotion_guard (\<lambda>v. []) LIVE_ACTIVE e (sample_world 0) = (Some None, sample_world 0)"
    using e(3) by (auto simp: promotion_guard_def)
  then show "fst (promote (\<lambda>v. []) ''s'' LIVE_ACTIVE ''operator'' [] demo_approved (sample_world 0)) =
      Some (True, ''promoted:LIVE_PENDING->LIVE_ACTIVE'')" "get_stage ''s'' demo_live = LIVE_ACTIVE"
    using e(1,2) by (simp_all add: promote_def demo_live_def get_stage_def put_entry_get Let_def split: prod.splits)
qed

text \<open>Histories in which no strategy comes in as LIVE_ACTIVE without an approval.\<close>

definition none_live :: entrances where
  "none_live n s d \<longleftrightarrow> s = LIVE_ACTIVE \<longrightarrow> d = Some ''APPROVED''"

lemma demo_reachable:
  "promotion_reachable (\<lambda>v. []) none_live demo_pending" "promotion_reachable (\<lambda>v. []) none_live demo_live"
proof -
  have step: "f = (fst f, fst (snd f), snd (snd f))" for f :: "'a \<times> 'b \<times> 'c" by simp
  show 1: "promotion_reachable (\<lambda>v. []) none_live demo_pending"
    unfolding demo_pending_def by (rule reach_step[OF reach_new step_register[OF step]]) (simp add: none_live_def)
  have "promotion_reachable (\<lambda>v. []) none_live demo_approved"
    unfolding demo_approved_def by (rule reach_step[OF 1 step_decide[OF step]])
  then show "promotion_reachable (\<lambda>v. []) none_live demo_live"
    unfolding demo_live_def by (rule reach_step[OF _ step_promote[OF step]])
qed

definition low_row :: pydict where
  "low_row = entry_to_row (new_entry ''t'' None None PAPER_SHADOW)"

definition low_loaded :: promotion_gate where
  "low_loaded = put_entry ''t'' (unstamped (new_entry ''t'' None None PAPER_SHADOW)) (promotion_gate_new False)"

definition low_only :: entrances where
  "low_only n s d \<longleftrightarrow> s \<in> {LEARNING, PAPER_SHADOW}"

lemma low_loaded_reachable: "promotion_reachable (\<lambda>v. []) low_only low_loaded"
proof (rule reach_step[OF reach_new step_load])
  show "load_from_db_rows [low_row] (promotion_gate_new False) = Some low_loaded"
    by (simp add: low_row_def entry_row_roundtrip low_loaded_def unstamped_def new_entry_def)
next
  fix row e assume "row \<in> set [low_row]" "entry_of_row row = Some e"
  then have "e = unstamped (new_entry ''t'' None None PAPER_SHADOW)" by (simp add: low_row_def entry_row_roundtrip)
  then show "low_only (e_strategy_name e) (e_current_stage e) (e_operator_decision e)"
    by (simp add: low_only_def unstamped_def new_entry_def)
qed

definition demo_lane_entry :: PipelineEntry where
  "demo_lane_entry = (new_entry ''s'' None None DEMO_ACTIVE)\<lparr>e_demo_start_ts := Some (Fin 0), e_demo_trades := 200,
     e_demo_max_drawdown_pct := Some (Fin 8), e_demo_sharpe := Some NaN,
     e_selection_report := PDict [(''passes'', PBool True)], e_tail_risk_report := PDict [(''passes'', PBool True)],
     e_residual_report := demo_report\<rparr>"

definition demo_lane :: promotion_gate where
  "demo_lane = \<lparr>pp_entries = [(''s'', demo_lane_entry)], pp_audit_cb = False\<rparr>"

lemma demo_lane_days: "\<not> flt (lane_days (fst (now_secs (sample_world 1814400))) (Fin 0)) (Fin 21)"
proof -
  have "fl_round 1814400 = Fin 1814400" "fl_round 21 = Fin 21"
    using fl_round_of_int[of 1814400] fl_round_of_int[of 21] by simp_all
  then show ?thesis
    by (simp add: lane_days_def now_secs_def read_clock_def sample_world_def sample_env_def sample_clock_def env.defs
        fsub_def)
qed

lemma demo_lane_reasons: "\<exists>ok reasons w'. check_demo_graduation (\<lambda>v. []) ''s'' demo_lane (sample_world 1814400) = (Some (ok, reasons), w')"
  by (simp add: check_demo_graduation_def demo_lane_def demo_lane_entry_def new_entry_def demo_gate_failures_def
      residual_failures_def demo_validated demo_report_is(2) Let_def split: prod.splits)

section \<open>Properties\<close>

text \<open>C20: A step of the pipeline is taken exactly when its gate is open. A promotion that returns
  succeeds if and only if the strategy is registered, the target is the next stage, and the stage
  lets it in: PAPER_SHADOW always, DEMO_ACTIVE never (the lane is frozen), LIVE_PENDING when no
  demo condition fails, LIVE_ACTIVE when the operator's decision is APPROVED and a valid residual
  report is among the evidence. Then the stage (and the time of the update) of this one entry is
  all that changes; a refused promotion changes nothing.\<close>

theorem promotion_step_exact:
  assumes "promote other n target initiator reason g w = (Some (ok, msg), g', w')"
  shows "(ok \<longleftrightarrow> (\<exists>e. map_of (pp_entries g) n = Some e \<and>
      stage_value target = stage_value (e_current_stage e) + 1 \<and>
      (case target of LEARNING \<Rightarrow> False | PAPER_SHADOW \<Rightarrow> True | DEMO_ACTIVE \<Rightarrow> False
        | LIVE_PENDING \<Rightarrow> fst (demo_gate_failures other e w) = Some []
        | LIVE_ACTIVE \<Rightarrow> e_operator_decision e = Some ''APPROVED'' \<and>
            (valid_report other (extract_demo_residual_alpha_report (e_evaluation_report e)) \<or>
             valid_report other (e_residual_report e))))) \<and>
    (if ok then \<exists>e t. map_of (pp_entries g) n = Some e \<and>
        g' = put_entry n (e\<lparr>e_current_stage := target, e_updated_ts := Some t\<rparr>) g
     else g' = g)"
proof -
  have none: "extract_demo_residual_alpha_report PNone = PNone" "\<not> valid_report other PNone"
    by (simp_all add: extract_demo_residual_alpha_report_def valid_report_other as_dict_def)
  have low: "stage_value e + 1 \<noteq> 0" for e by (cases e) simp_all
  show ?thesis
    using promote_spec[OF assms]
    by (cases target) (auto simp: may_enter_def evidence_reports_def none low)
qed

lemma promotion_step_exact_witness:
  "\<exists>e t. map_of (pp_entries demo_approved) ''s'' = Some e \<and> e_operator_decision e = Some ''APPROVED'' \<and>
     demo_live = put_entry ''s'' (e\<lparr>e_current_stage := LIVE_ACTIVE, e_updated_ts := Some t\<rparr>) demo_approved"
proof -
  have "promote (\<lambda>v. []) ''s'' LIVE_ACTIVE ''operator'' [] demo_approved (sample_world 0) =
      (Some (True, ''promoted:LIVE_PENDING->LIVE_ACTIVE''), demo_live,
       snd (snd (promote (\<lambda>v. []) ''s'' LIVE_ACTIVE ''operator'' [] demo_approved (sample_world 0))))"
    using demo_live_entry(1) by (simp add: demo_live_def prod_eq_iff)
  from promotion_step_exact[OF this] show ?thesis by auto
qed

text \<open>C14: Paper trading leads nowhere. In every history of the gate, loads of database rows included, a strategy that is
  never registered and never loaded from a row at a stage above PAPER_SHADOW never leaves LEARNING and
  PAPER_SHADOW, whatever evidence is given, whatever is promoted and whatever the operator decides. (A row that
  names a higher stage is taken over as it is.)\<close>

theorem promotion_lane_frozen:
  assumes "promotion_reachable other enters g"
    and "\<forall>s d. enters n s d \<longrightarrow> s \<in> {LEARNING, PAPER_SHADOW}"
  shows "get_stage n g \<in> {LEARNING, PAPER_SHADOW}"
  using reachable_frozen[OF assms(1)] assms(2) by (auto simp: get_stage_def split: option.splits)

lemma promotion_lane_frozen_witness:
  "get_stage ''t'' low_loaded = PAPER_SHADOW \<and>
   get_stage ''t'' (fst (snd (promote (\<lambda>v. []) ''t'' DEMO_ACTIVE ''operator'' [] low_loaded (sample_world 0)))) \<in>
     {LEARNING, PAPER_SHADOW}"
proof -
  have step: "f = (fst f, fst (snd f), snd (snd f))" for f :: "'a \<times> 'b \<times> 'c" by simp
  have low: "\<forall>s d. low_only ''t'' s d \<longrightarrow> s \<in> {LEARNING, PAPER_SHADOW}" by (simp add: low_only_def)
  have "get_stage ''t'' low_loaded = PAPER_SHADOW"
    by (simp add: low_loaded_def get_stage_def put_entry_get unstamped_def new_entry_def)
  with promotion_lane_frozen[OF reach_step[OF low_loaded_reachable step_promote[OF step]] low] show ?thesis by blast
qed

text \<open>C13: Live trading has been approved. In every history of the gate, loads of database rows included, a strategy
  that is LIVE_ACTIVE carries the operator's decision APPROVED, unless it was registered as LIVE_ACTIVE or came in a
  row that says LIVE_ACTIVE without that decision, which the gate takes over unchecked. So do the rows that
  the gate writes for it, so that reading them back after a restart brings in nothing unapproved; and every
  entry is kept under its own name, once.\<close>

theorem promotion_live_approved:
  assumes "promotion_reachable other enters g" "get_stage n g = LIVE_ACTIVE"
    and "\<forall>d. enters n LIVE_ACTIVE d \<longrightarrow> d = Some ''APPROVED''"
  shows "(\<exists>e. get_entry n g = Some e \<and> e_strategy_name e = n \<and> e_operator_decision e = Some ''APPROVED'') \<and>
    distinct (map fst (pp_entries g)) \<and>
    (\<forall>row \<in> set (to_db_rows g). \<forall>e. entry_of_row row = Some e \<and> e_strategy_name e = n \<longrightarrow>
       e_current_stage e = LIVE_ACTIVE \<and> e_operator_decision e = Some ''APPROVED'')"
proof -
  obtain e where e: "map_of (pp_entries g) n = Some e" "e_current_stage e = LIVE_ACTIVE"
    using assms(2) by (auto simp: get_stage_def split: option.splits)
  have ok: "e_operator_decision e = Some ''APPROVED''"
    by (rule reachable_live[OF assms(1) _ e]) (use assms(3) in blast)
  note names = reachable_names[OF assms(1)] and d = reachable_distinct[OF assms(1)]
  have "x = unstamped e" if row: "row \<in> set (to_db_rows g)" and x: "entry_of_row row = Some x" "e_strategy_name x = n" for row x
  proof -
    obtain k y where y: "(k, y) \<in> set (pp_entries g)" "row = entry_to_row y" 
      using row unfolding to_db_rows_def by fastforce
    then have u: "x = unstamped y" using x(1) by (simp add: entry_row_roundtrip)
    have "map_of (pp_entries g) k = Some y" using y(1) d by simp
    moreover from this have "k = n" using names x(2) u by (simp add: unstamped_def)
    ultimately show ?thesis using e(1) u by simp
  qed
  then show ?thesis using e ok names[OF e(1)] d by (fastforce simp: get_entry_def unstamped_def)
qed

lemma promotion_live_approved_witness:
  "(\<exists>e. get_entry ''s'' demo_live = Some e \<and> e_strategy_name e = ''s'' \<and> e_operator_decision e = Some ''APPROVED'') \<and>
    distinct (map fst (pp_entries demo_live))"
proof -
  have "\<forall>d. none_live ''s'' LIVE_ACTIVE d \<longrightarrow> d = Some ''APPROVED''" by (simp add: none_live_def)
  from promotion_live_approved[OF demo_reachable(2) demo_live_entry(2) this] show ?thesis by blast
qed

text \<open>Graduation from the demo lane, exactly. The check of a strategy in DEMO_ACTIVE that
  returns is passed if and only if the first demo metrics are 21 days old by the clock, there are
  200 trades, drawdown and Sharpe ratio are there and not beyond their limits, slippage and
  reliability are not beyond theirs where they are there, both estimator reports say that they
  passed and the residual report is valid. The comparisons are the negated ones of the code: a NaN
  among the numbers is beyond no limit.\<close>

theorem promotion_demo_exact:
  assumes "get_entry n g = Some e" "e_current_stage e = DEMO_ACTIVE"
    and "check_demo_graduation other n g w = (Some (ok, reasons), w')"
  shows "(ok \<longleftrightarrow> reasons = []) \<and> (ok \<longleftrightarrow>
     (\<exists>t. e_demo_start_ts e = Some t \<and> \<not> flt (lane_days (fst (now_secs w)) t) (Fin 21)) \<and>
     200 \<le> e_demo_trades e \<and>
     (\<exists>a. e_demo_max_drawdown_pct e = Some a \<and> \<not> flt (Fin 8) a) \<and>
     (\<exists>a. e_demo_sharpe e = Some a \<and> \<not> flt a (flit (8/10))) \<and>
     (e_demo_avg_slippage_bps e = None \<or> (\<exists>a. e_demo_avg_slippage_bps e = Some a \<and> \<not> flt (Fin 15) a)) \<and>
     (e_demo_api_reliability e = None \<or> (\<exists>a. e_demo_api_reliability e = Some a \<and> \<not> flt a (flit (95/100)))) \<and>
     (\<exists>d. e_selection_report e = PDict d \<and> truthy (dict_get d ''passes'' PNone)) \<and>
     (\<exists>d. e_tail_risk_report e = PDict d \<and> truthy (dict_get d ''passes'' PNone)) \<and>
     valid_report other (e_residual_report e))"
proof -
  have "(ok \<longleftrightarrow> reasons = []) \<and> fst (demo_gate_failures other e w) = Some reasons"
    using assms by (auto simp: check_demo_graduation_def get_entry_def split: prod.splits)
  then show ?thesis using demo_gate_nil[of other e w] by (simp only: option.inject)
qed

lemma promotion_demo_exact_witness:
  "\<exists>w'. check_demo_graduation (\<lambda>v. []) ''s'' demo_lane (sample_world 1814400) = (Some (True, []), w')"
proof -
  obtain ok reasons w' where c:
      "check_demo_graduation (\<lambda>v. []) ''s'' demo_lane (sample_world 1814400) = (Some (ok, reasons), w')"
    using demo_lane_reasons by blast
  have e: "get_entry ''s'' demo_lane = Some demo_lane_entry" "e_current_stage demo_lane_entry = DEMO_ACTIVE"
    by (simp_all add: get_entry_def demo_lane_def demo_lane_entry_def new_entry_def)
  show ?thesis
    using promotion_demo_exact[OF e c] c demo_lane_days
    by (auto simp: demo_lane_entry_def new_entry_def dict_get_def demo_report_valid)
qed

text \<open>The database gives back what it was given. For a gate reached by any operations whose
  strategies all have a name, loading its rows into an empty gate restores every entry under its
  name and in its place, but for the times of creation and of the last update.\<close>

theorem promotion_rows_roundtrip:
  assumes "promotion_reachable other enters g" "get_entry [] g = None"
  shows "load_from_db_rows (to_db_rows g) (promotion_gate_new cb) =
    Some ((promotion_gate_new cb)\<lparr>pp_entries := map (\<lambda>(n, e). (n, e\<lparr>e_created_ts := None, e_updated_ts := None\<rparr>))
      (pp_entries g)\<rparr>)"
proof -
  have d: "distinct (map fst (pp_entries g))" by (rule reachable_distinct[OF assms(1)])
  have "e_strategy_name e = n \<and> n \<noteq> []" if "(n, e) \<in> set (pp_entries g)" for n e
  proof -
    have "map_of (pp_entries g) n = Some e" using d that by simp
    then show ?thesis using reachable_names[OF assms(1)] assms(2) by (auto simp: get_entry_def)
  qed
  then have "\<forall>(n, e) \<in> set (pp_entries g). e_strategy_name e = n \<and> n \<noteq> []" by blast
  from entry_rows_load[OF this, of "[]" "promotion_gate_new cb"] d show ?thesis
    by (simp add: to_db_rows_def promotion_gate_new_def unstamped_def)
qed

lemma promotion_rows_roundtrip_witness:
  "load_from_db_rows (to_db_rows demo_pending) (promotion_gate_new True) =
    Some ((promotion_gate_new True)\<lparr>pp_entries := map (\<lambda>(n, e). (n, e\<lparr>e_created_ts := None, e_updated_ts := None\<rparr>))
      (pp_entries demo_pending)\<rparr>)"
  by (rule promotion_rows_roundtrip[OF demo_reachable(1)]) (simp add: get_entry_def demo_pending_entry)

end
