(* ===== verification/H0_Gate.thy ===== *)
theory H0_Gate
  imports SM_Base Py_Float
begin

text \<open>
  The deterministic gate in front of the reasoning layers (\<open>app/h0_gate.py\<close>): its configuration, the
  snapshots injected from outside, the five checks of one call in blocking and in shadow mode, the
  statistics, and one sample of the health worker. The readings of \<open>time.time()\<close> and of
  \<open>time.perf_counter()\<close> come from the stream of the world, in the order the code makes them. A
  frozenset of categories is the sorted list of its elements.
\<close>

section \<open>Configuration and snapshots\<close>

record H0GateConfig =
  hc_max_data_age_ms :: int
  hc_max_cpu_pct :: pyfloat
  hc_min_memory_mb :: int
  hc_max_db_latency_ms :: pyfloat
  hc_max_network_loss_pct :: pyfloat
  hc_allowed_categories :: "string list"
  hc_max_open_positions :: int
  hc_max_total_exposure_pct :: pyfloat
  hc_health_snapshot_max_age_ms :: int
  hc_shadow_mode :: bool

definition default_h0_config :: H0GateConfig where
  "default_h0_config =
     \<lparr>hc_max_data_age_ms = 1000, hc_max_cpu_pct = Fin 90, hc_min_memory_mb = 1024, hc_max_db_latency_ms = Fin 100,
      hc_max_network_loss_pct = Fin 5, hc_allowed_categories = [''inverse'', ''linear'', ''spot''],
      hc_max_open_positions = 10, hc_max_total_exposure_pct = Fin 90, hc_health_snapshot_max_age_ms = 30000,
      hc_shadow_mode = False\<rparr>"

record H0GateHealthSnapshot =
  hs_cpu_pct :: pyfloat
  hs_memory_available_mb :: int
  hs_db_latency_ms :: pyfloat
  hs_network_loss_pct :: pyfloat
  hs_snapshot_ts_ms :: int

definition default_health :: H0GateHealthSnapshot where
  "default_health = \<lparr>hs_cpu_pct = Fin 0, hs_memory_available_mb = 9999, hs_db_latency_ms = Fin 0,
     hs_network_loss_pct = Fin 0, hs_snapshot_ts_ms = 0\<rparr>"

record H0GateRiskSnapshot =
  rs_open_position_count :: int
  rs_total_exposure_pct :: pyfloat
  rs_cooldown_until_ts_ms :: int
  rs_kill_switch_active :: bool
  rs_snapshot_ts_ms :: int

definition default_risk_snapshot :: H0GateRiskSnapshot where
  "default_risk_snapshot = \<lparr>rs_open_position_count = 0, rs_total_exposure_pct = Fin 0, rs_cooldown_until_ts_ms = 0,
     rs_kill_switch_active = False, rs_snapshot_ts_ms = 0\<rparr>"

record H0GateCheckResult =
  hr_allowed :: bool
  hr_reason :: string
  hr_check_name :: string
  hr_latency_us :: int

type_synonym counters = "(string \<times> int) list"

record h0_gate =
  h0_config :: H0GateConfig
  h0_health :: H0GateHealthSnapshot
  h0_risk :: H0GateRiskSnapshot
  h0_price_ts :: "(string \<times> int) list"
  h0_system_mode :: string
  h0_execution_state :: string
  h0_symbol_eligibility :: "(string \<times> bool) list"
  h0_stats :: counters
  h0_shadow_stats :: counters
  h0_shadow_log :: "pydict list"

definition h0_gate_new :: "H0GateConfig option \<Rightarrow> h0_gate" where
  "h0_gate_new config =
     \<lparr>h0_config = (case config of None \<Rightarrow> default_h0_config | Some c \<Rightarrow> c), h0_health = default_health,
      h0_risk = default_risk_snapshot, h0_price_ts = [], h0_system_mode = ''read_only'',
      h0_execution_state = ''disabled'', h0_symbol_eligibility = [],
      h0_stats = [(''total_checks'', 0), (''allowed'', 0), (''blocked_freshness'', 0), (''blocked_health'', 0),
        (''blocked_eligibility'', 0), (''blocked_risk'', 0), (''blocked_cooldown'', 0), (''max_latency_us'', 0),
        (''total_latency_us'', 0)],
      h0_shadow_stats = [(''shadow_would_block_freshness'', 0), (''shadow_would_block_health'', 0),
        (''shadow_would_block_eligibility'', 0), (''shadow_would_block_risk'', 0),
        (''shadow_would_block_cooldown'', 0), (''shadow_total_would_block'', 0)],
      h0_shadow_log = []\<rparr>"

section \<open>Updates from outside\<close>

definition update_health :: "H0GateHealthSnapshot \<Rightarrow> h0_gate \<Rightarrow> h0_gate" where
  "update_health s g = g\<lparr>h0_health := s\<rparr>"

definition update_risk :: "H0GateRiskSnapshot \<Rightarrow> h0_gate \<Rightarrow> h0_gate" where
  "update_risk s g = g\<lparr>h0_risk := s\<rparr>"

definition update_price_ts :: "string \<Rightarrow> int \<Rightarrow> h0_gate \<Rightarrow> h0_gate" where
  "update_price_ts symbol ts g = g\<lparr>h0_price_ts := AList.update symbol ts (h0_price_ts g)\<rparr>"

definition set_system_mode :: "string \<Rightarrow> h0_gate \<Rightarrow> h0_gate" where
  "set_system_mode mode g = g\<lparr>h0_system_mode := mode\<rparr>"

definition set_execution_state :: "string \<Rightarrow> h0_gate \<Rightarrow> h0_gate" where
  "set_execution_state s g = g\<lparr>h0_execution_state := s\<rparr>"

definition set_symbol_eligibility :: "string \<Rightarrow> bool \<Rightarrow> h0_gate \<Rightarrow> h0_gate" where
  "set_symbol_eligibility symbol ok g =
     g\<lparr>h0_symbol_eligibility := AList.update symbol ok (h0_symbol_eligibility g)\<rparr>"

definition set_shadow_mode :: "bool \<Rightarrow> h0_gate \<Rightarrow> h0_gate" where
  "set_shadow_mode b g = g\<lparr>h0_config := (h0_config g)\<lparr>hc_shadow_mode := b\<rparr>\<rparr>"

section \<open>The five checks\<close>

text \<open>None where a check passes, otherwise the reason.\<close>

definition check_freshness :: "string \<Rightarrow> int \<Rightarrow> h0_gate \<Rightarrow> string option" where
  "check_freshness symbol now g =
     (case map_of (h0_price_ts g) symbol of
        None \<Rightarrow> Some (''no_data_'' @ symbol)
      | Some last_ts \<Rightarrow>
          (let age = now - last_ts in
           if hc_max_data_age_ms (h0_config g) \<le> age
           then Some (''data_stale_'' @ symbol @ ''_'' @ int_str age @ ''ms'') else None))"

definition check_health :: "int \<Rightarrow> h0_gate \<Rightarrow> string option" where
  "check_health now g =
     (let s = h0_health g; c = h0_config g in
      if 0 < hs_snapshot_ts_ms s \<and> hc_health_snapshot_max_age_ms c < now - hs_snapshot_ts_ms s
      then Some (''health_snapshot_stale_'' @ int_str (now - hs_snapshot_ts_ms s) @ ''ms'')
      else if flt (hc_max_cpu_pct c) (hs_cpu_pct s)
      then Some (''cpu_too_high_'' @ fmt_fixed 1 (hs_cpu_pct s) @ ''pct'')
      else if hs_memory_available_mb s < hc_min_memory_mb c
      then Some (''memory_low_'' @ int_str (hs_memory_available_mb s) @ ''mb'')
      else if flt (hc_max_db_latency_ms c) (hs_db_latency_ms s)
      then Some (''db_latency_high_'' @ fmt_fixed 1 (hs_db_latency_ms s) @ ''ms'')
      else if flt (hc_max_network_loss_pct c) (hs_network_loss_pct s)
      then Some (''network_loss_high_'' @ fmt_fixed 1 (hs_network_loss_pct s) @ ''pct'')
      else None)"

definition check_symbol_eligibility :: "string \<Rightarrow> string \<Rightarrow> h0_gate \<Rightarrow> string option" where
  "check_symbol_eligibility symbol category g =
     (if category \<notin> set (hc_allowed_categories (h0_config g))
      then Some (''category_not_allowed_'' @ category)
      else if map_of (h0_symbol_eligibility g) symbol = Some False
      then Some (''symbol_not_eligible_'' @ symbol)
      else if h0_system_mode g = ''disabled'' then Some ''system_disabled'' else None)"

definition check_risk_envelope :: "h0_gate \<Rightarrow> string option" where
  "check_risk_envelope g =
     (let s = h0_risk g; c = h0_config g in
      if rs_kill_switch_active s then Some ''kill_switch_active''
      else if hc_max_open_positions c \<le> rs_open_position_count s
      then Some (''max_positions_reached_'' @ int_str (rs_open_position_count s) @ ''_of_'' @
        int_str (hc_max_open_positions c))
      else if fle (hc_max_total_exposure_pct c) (rs_total_exposure_pct s)
      then Some (''exposure_limit_reached_'' @ fmt_fixed 1 (rs_total_exposure_pct s) @ ''pct_of_'' @
        fmt_fixed 1 (hc_max_total_exposure_pct c) @ ''pct'')
      else None)"

definition check_cooldown :: "int \<Rightarrow> h0_gate \<Rightarrow> string option" where
  "check_cooldown now g =
     (let until = rs_cooldown_until_ts_ms (h0_risk g) in
      if 0 < until \<and> now < until then Some (''cooldown_active_'' @ int_str (until - now) @ ''ms_remaining'') else None)"

text \<open>The names and verdicts of the checks in their order, and those that fail.\<close>

definition h0_verdicts :: "string \<Rightarrow> string \<Rightarrow> int \<Rightarrow> h0_gate \<Rightarrow> (string \<times> string option) list" where
  "h0_verdicts symbol category now g =
     [(''freshness'', check_freshness symbol now g), (''health'', check_health now g),
      (''eligibility'', check_symbol_eligibility symbol category g), (''risk'', check_risk_envelope g),
      (''cooldown'', check_cooldown now g)]"

fun failures :: "(string \<times> string option) list \<Rightarrow> (string \<times> string) list" where
  "failures [] = []"
| "failures ((n, v) # vs) = (case v of None \<Rightarrow> failures vs | Some r \<Rightarrow> (n, r) # failures vs)"

section \<open>One call\<close>

definition count :: "string \<Rightarrow> int \<Rightarrow> counters \<Rightarrow> counters" where
  "count key n cs = AList.update key ((case map_of cs key of None \<Rightarrow> 0 | Some x \<Rightarrow> x) + n) cs"

definition raise_to :: "string \<Rightarrow> int \<Rightarrow> counters \<Rightarrow> counters" where
  "raise_to key n cs = (if (case map_of cs key of None \<Rightarrow> 0 | Some x \<Rightarrow> x) < n then AList.update key n cs else cs)"

text \<open>Two readings of the performance counter are so close that their difference does not overflow.\<close>

definition latency_us :: "reading \<Rightarrow> reading \<Rightarrow> int" where
  "latency_us t0 t1 = (case int_of_float (fmul (fsub (Fin (secs t1)) (Fin (secs t0))) (Fin 1000000)) of
      Some i \<Rightarrow> i | None \<Rightarrow> 0)"

definition record_outcome :: "string \<Rightarrow> int \<Rightarrow> h0_gate \<Rightarrow> h0_gate" where
  "record_outcome key latency g =
     g\<lparr>h0_stats := raise_to ''max_latency_us'' latency (count ''total_latency_us'' latency (count key 1 (h0_stats g)))\<rparr>"

definition shadow_entry :: "string \<Rightarrow> (string \<times> string) list \<Rightarrow> int \<Rightarrow> pydict" where
  "shadow_entry symbol blocks now =
     [(''ts_ms'', PInt now), (''symbol'', PStr symbol),
      (''blocks'', PList (map (\<lambda>(c, r). PDict [(''check'', PStr c), (''reason'', PStr r)]) blocks))]"

definition shadow_log_max :: nat where
  "shadow_log_max = 100"

definition record_shadow_blocks :: "string \<Rightarrow> (string \<times> string) list \<Rightarrow> int \<Rightarrow> h0_gate \<Rightarrow> h0_gate" where
  "record_shadow_blocks symbol blocks now g =
     g\<lparr>h0_shadow_stats := count ''shadow_total_would_block'' 1
         (fold (\<lambda>(c, r). count (''shadow_would_block_'' @ c) 1) blocks (h0_shadow_stats g)),
       h0_shadow_log := keep_last shadow_log_max (h0_shadow_log g @ [shadow_entry symbol blocks now])\<rparr>"

definition check_shadow ::
  "string \<Rightarrow> string \<Rightarrow> int \<Rightarrow> reading \<Rightarrow> h0_gate \<Rightarrow> world \<Rightarrow> H0GateCheckResult \<times> h0_gate \<times> world" where
  "check_shadow symbol category now t0 g w =
     (let blocks = failures (h0_verdicts symbol category now g);
          (t1, w1) = read_clock w;
          latency = latency_us t0 t1;
          g1 = (if blocks = [] then g else record_shadow_blocks symbol blocks now g)
      in (\<lparr>hr_allowed = True,
           hr_reason = (if blocks = [] then [] else ''shadow_would_block:['' @ join '','' (map fst blocks) @ '']''),
           hr_check_name = (if blocks = [] then ''shadow_all_passed'' else ''shadow_would_block''),
           hr_latency_us = latency\<rparr>,
          record_outcome ''allowed'' latency g1, w1))"

definition h0_check ::
  "string \<Rightarrow> string \<Rightarrow> h0_gate \<Rightarrow> world \<Rightarrow> H0GateCheckResult \<times> h0_gate \<times> world" where
  "h0_check symbol category g w =
     (let (t0, w1) = read_clock w; (now, w2) = now_ms w1;
          g1 = g\<lparr>h0_stats := count ''total_checks'' 1 (h0_stats g)\<rparr>
      in if hc_shadow_mode (h0_config g) then check_shadow symbol category now t0 g1 w2
         else
           (let (t1, w3) = read_clock w2; latency = latency_us t0 t1 in
            case failures (h0_verdicts symbol category now g1) of
              (n, r) # _ \<Rightarrow>
                (\<lparr>hr_allowed = False, hr_reason = r, hr_check_name = n, hr_latency_us = latency\<rparr>,
                 record_outcome (''blocked_'' @ n) latency g1, w3)
            | [] \<Rightarrow>
                (\<lparr>hr_allowed = True, hr_reason = [], hr_check_name = ''all_passed'', hr_latency_us = latency\<rparr>,
                 record_outcome ''allowed'' latency g1, w3)))"

section \<open>Statistics and state\<close>

definition counter :: "counters \<Rightarrow> string \<Rightarrow> int" where
  "counter cs key = (case map_of cs key of None \<Rightarrow> 0 | Some x \<Rightarrow> x)"

text \<open>None: an integer beyond the range of the doubles is divided.\<close>

definition h0_rates :: "counters \<Rightarrow> (pyfloat \<times> pyfloat) option" where
  "h0_rates cs =
     (if 0 < counter cs ''total_checks''
      then do { a \<leftarrow> int_div (counter cs ''allowed'') (counter cs ''total_checks'');
                l \<leftarrow> int_div (counter cs ''total_latency_us'') (counter cs ''total_checks'');
                Some (py_round 2 (fmul a (Fin 100)), py_round 1 l) }
      else Some (Fin 0, Fin 0))"

definition int_entries :: "counters \<Rightarrow> pydict" where
  "int_entries cs = map (\<lambda>(k, n). (k, PInt n)) cs"

definition get_h0_stats :: "h0_gate \<Rightarrow> pydict option" where
  "get_h0_stats g =
     (let cs = h0_stats g in
      map_option (\<lambda>(rate, avg). int_entries cs @
        [(''allow_rate_pct'', PFloat rate), (''avg_latency_us'', PFloat avg),
         (''passed'', PInt (counter cs ''allowed'')),
         (''blocked'', PInt (counter cs ''blocked_freshness'' + counter cs ''blocked_health'' +
            counter cs ''blocked_eligibility'' + counter cs ''blocked_risk'' + counter cs ''blocked_cooldown''))] @
        (if hc_shadow_mode (h0_config g) then [(''shadow'', PDict (int_entries (h0_shadow_stats g)))] else []))
        (h0_rates cs))"

definition get_current_state :: "h0_gate \<Rightarrow> world \<Rightarrow> pydict option \<times> world" where
  "get_current_state g w =
     (let (now, w1) = now_ms w; c = h0_config g; s = h0_health g; r = h0_risk g in
      (map_option (\<lambda>stats.
        [(''system_mode'', PStr (h0_system_mode g)), (''execution_state'', PStr (h0_execution_state g)),
         (''config'', PDict
            [(''max_data_age_ms'', PInt (hc_max_data_age_ms c)), (''max_cpu_pct'', PFloat (hc_max_cpu_pct c)),
             (''min_memory_mb'', PInt (hc_min_memory_mb c)), (''max_db_latency_ms'', PFloat (hc_max_db_latency_ms c)),
             (''max_network_loss_pct'', PFloat (hc_max_network_loss_pct c)),
             (''allowed_categories'', PList (map PStr (hc_allowed_categories c))),
             (''max_open_positions'', PInt (hc_max_open_positions c)),
             (''max_total_exposure_pct'', PFloat (hc_max_total_exposure_pct c)),
             (''health_snapshot_max_age_ms'', PInt (hc_health_snapshot_max_age_ms c))]),
         (''health'', PDict
            [(''cpu_pct'', PFloat (hs_cpu_pct s)), (''memory_available_mb'', PInt (hs_memory_available_mb s)),
             (''db_latency_ms'', PFloat (hs_db_latency_ms s)), (''network_loss_pct'', PFloat (hs_network_loss_pct s)),
             (''snapshot_ts_ms'', PInt (hs_snapshot_ts_ms s)),
             (''snapshot_age_ms'', if 0 < hs_snapshot_ts_ms s then PInt (now - hs_snapshot_ts_ms s) else PNone)]),
         (''risk'', PDict
            [(''open_position_count'', PInt (rs_open_position_count r)),
             (''total_exposure_pct'', PFloat (rs_total_exposure_pct r)),
             (''cooldown_until_ts_ms'', PInt (rs_cooldown_until_ts_ms r)),
             (''cooldown_remaining_ms'', PInt (if 0 < rs_cooldown_until_ts_ms r
                then max 0 (rs_cooldown_until_ts_ms r - now) else 0)),
             (''kill_switch_active'', PBool (rs_kill_switch_active r)),
             (''snapshot_ts_ms'', PInt (rs_snapshot_ts_ms r))]),
         (''tracked_symbols'', PInt (int (length (h0_price_ts g)))),
         (''symbol_overrides'', PDict (map (\<lambda>(k, b). (k, PBool b)) (h0_symbol_eligibility g))),
         (''stats'', PDict stats), (''shadow_mode'', PBool (hc_shadow_mode c)),
         (''shadow_log_count'', PInt (int (length (h0_shadow_log g)))),
         (''shadow_recent'', PList (map PDict (keep_last 5 (h0_shadow_log g))))]) (get_h0_stats g), w1))"

section \<open>The health worker\<close>

text \<open>What the sampling library and the database probe do is given: the CPU percentage and the
  bytes of free memory, or None from where the library is missing or raises (an unreadable
  memory keeps the CPU reading); whether there is a probe and whether it returns. A number of
  bytes beyond the range of the doubles raises, and the default stays.\<close>

definition memory_mb :: "int \<Rightarrow> int option" where
  "memory_mb bytes = Option.bind (int_div bytes 1048576) int_of_float"

definition sample_once ::
  "(pyfloat \<times> int option) option \<Rightarrow> bool option \<Rightarrow> world \<Rightarrow> H0GateHealthSnapshot \<times> world" where
  "sample_once psutil probe w =
     (let cpu = (case psutil of None \<Rightarrow> Fin 0 | Some (c, m) \<Rightarrow> c);
          memory = (case psutil of Some (c, Some b) \<Rightarrow> (case memory_mb b of Some m \<Rightarrow> m | None \<Rightarrow> 9999) | _ \<Rightarrow> 9999);
          (latency, w1) = (case probe of
             None \<Rightarrow> (Fin 0, w)
           | Some False \<Rightarrow> (Fin 0, snd (read_clock w))
           | Some True \<Rightarrow> (let (t0, wa) = read_clock w; (t1, wb) = read_clock wa in
               (fmul (fsub (Fin (secs t1)) (Fin (secs t0))) (Fin 1000), wb)));
          (now, w2) = now_ms w1
      in (\<lparr>hs_cpu_pct = cpu, hs_memory_available_mb = memory, hs_db_latency_ms = latency,
           hs_network_loss_pct = Fin 0, hs_snapshot_ts_ms = now\<rparr>, w2))"

definition worker_round ::
  "(pyfloat \<times> int option) option \<Rightarrow> bool option \<Rightarrow> h0_gate \<Rightarrow> world \<Rightarrow> h0_gate \<times> world" where
  "worker_round psutil probe g w = (let (s, w1) = sample_once psutil probe w in (update_health s g, w1))"

section \<open>Counting\<close>

lemma counter_count: "counter (count k n cs) j = counter cs j + (if j = k then n else 0)"
  by (simp add: counter_def count_def pd.get_put)

lemma counter_raise: "counter (raise_to k n cs) j = (if j = k then max n (counter cs k) else counter cs j)"
  by (simp add: counter_def raise_to_def pd.get_put max_def)

lemma counter_fold_count:
  "distinct (map fst bs) \<Longrightarrow>
   counter (fold (\<lambda>(c, r). count (pre @ c) 1) bs cs) (pre @ n) = counter cs (pre @ n) + (if n \<in> fst ` set bs then 1 else 0)"
proof (induction bs arbitrary: cs)
  case (Cons b bs)
  then show ?case by (cases b) (simp add: counter_count)
qed simp

lemma counter_fold_other:
  "(\<And>c. j \<noteq> pre @ c) \<Longrightarrow> counter (fold (\<lambda>(c, r). count (pre @ c) 1) bs cs) j = counter cs j"
proof (induction bs arbitrary: cs)
  case (Cons b bs)
  then show ?case by (cases b) (simp add: counter_count)
qed simp

lemma failures_names: "fst ` set (failures vs) \<subseteq> fst ` set vs"
  by (induction vs rule: failures.induct) (auto split: option.splits)

lemma failures_distinct: "distinct (map fst vs) \<Longrightarrow> distinct (map fst (failures vs))"
proof (induction vs rule: failures.induct)
  case (2 n v vs)
  then show ?case using failures_names[of vs] by (auto split: option.splits)
qed simp

lemma failures_nil: "failures vs = [] \<longleftrightarrow> (\<forall>v \<in> snd ` set vs. v = None)"
  by (induction vs rule: failures.induct) (auto split: option.splits)

definition h0_names :: "string list" where
  "h0_names = [''freshness'', ''health'', ''eligibility'', ''risk'', ''cooldown'']"

lemma verdict_names: "map fst (h0_verdicts symbol category now g) = h0_names"
  by (simp add: h0_verdicts_def h0_names_def)

lemma blocks_names:
  "fst ` set (failures (h0_verdicts symbol category now g)) \<subseteq> set h0_names"
  "distinct (map fst (failures (h0_verdicts symbol category now g)))"
proof -
  show "fst ` set (failures (h0_verdicts symbol category now g)) \<subseteq> set h0_names"
    using failures_names[of "h0_verdicts symbol category now g"] verdict_names[of symbol category now g]
    by (metis list.set_map)
  show "distinct (map fst (failures (h0_verdicts symbol category now g)))"
    by (rule failures_distinct) (simp add: verdict_names, simp add: h0_names_def)
qed

text \<open>The verdicts read the configuration, the snapshots and the tables, never the counters.\<close>

lemma verdicts_stats [simp]:
  "h0_verdicts symbol category now (g\<lparr>h0_stats := x\<rparr>) = h0_verdicts symbol category now g"
  by (simp add: h0_verdicts_def check_freshness_def check_health_def check_symbol_eligibility_def
      check_risk_envelope_def check_cooldown_def split: option.split)

lemma verdicts_shadow [simp]:
  "h0_verdicts symbol category now (set_shadow_mode b g) = h0_verdicts symbol category now g"
  by (simp add: h0_verdicts_def check_freshness_def check_health_def check_symbol_eligibility_def
      check_risk_envelope_def check_cooldown_def set_shadow_mode_def Let_def split: option.split)

text \<open>What every check of the gate asks, as one condition.\<close>

definition h0_open :: "string \<Rightarrow> string \<Rightarrow> int \<Rightarrow> h0_gate \<Rightarrow> bool" where
  "h0_open symbol category now g \<longleftrightarrow>
     (let c = h0_config g; s = h0_health g; r = h0_risk g in
      (\<exists>t. map_of (h0_price_ts g) symbol = Some t \<and> now - t < hc_max_data_age_ms c) \<and>
      (hs_snapshot_ts_ms s \<le> 0 \<or> now - hs_snapshot_ts_ms s \<le> hc_health_snapshot_max_age_ms c) \<and>
      \<not> flt (hc_max_cpu_pct c) (hs_cpu_pct s) \<and> hc_min_memory_mb c \<le> hs_memory_available_mb s \<and>
      \<not> flt (hc_max_db_latency_ms c) (hs_db_latency_ms s) \<and> \<not> flt (hc_max_network_loss_pct c) (hs_network_loss_pct s) \<and>
      category \<in> set (hc_allowed_categories c) \<and> map_of (h0_symbol_eligibility g) symbol \<noteq> Some False \<and>
      h0_system_mode g \<noteq> ''disabled'' \<and>
      \<not> rs_kill_switch_active r \<and> rs_open_position_count r < hc_max_open_positions c \<and>
      \<not> fle (hc_max_total_exposure_pct c) (rs_total_exposure_pct r) \<and>
      (rs_cooldown_until_ts_ms r \<le> 0 \<or> rs_cooldown_until_ts_ms r \<le> now))"

lemma check_freshness_none:
  "check_freshness symbol now g = None \<longleftrightarrow>
     (\<exists>t. map_of (h0_price_ts g) symbol = Some t \<and> now - t < hc_max_data_age_ms (h0_config g))"
  by (auto simp: check_freshness_def Let_def split: option.splits)

lemma check_health_none:
  "check_health now g = None \<longleftrightarrow>
     (hs_snapshot_ts_ms (h0_health g) \<le> 0 \<or>
        now - hs_snapshot_ts_ms (h0_health g) \<le> hc_health_snapshot_max_age_ms (h0_config g)) \<and>
     \<not> flt (hc_max_cpu_pct (h0_config g)) (hs_cpu_pct (h0_health g)) \<and>
     hc_min_memory_mb (h0_config g) \<le> hs_memory_available_mb (h0_health g) \<and>
     \<not> flt (hc_max_db_latency_ms (h0_config g)) (hs_db_latency_ms (h0_health g)) \<and>
     \<not> flt (hc_max_network_loss_pct (h0_config g)) (hs_network_loss_pct (h0_health g))"
  by (auto simp: check_health_def Let_def split: if_splits)

lemma check_eligibility_none:
  "check_symbol_eligibility symbol category g = None \<longleftrightarrow>
     category \<in> set (hc_allowed_categories (h0_config g)) \<and> map_of (h0_symbol_eligibility g) symbol \<noteq> Some False \<and>
     h0_system_mode g \<noteq> ''disabled''"
  by (simp add: check_symbol_eligibility_def)

lemma check_risk_none:
  "check_risk_envelope g = None \<longleftrightarrow>
     \<not> rs_kill_switch_active (h0_risk g) \<and> rs_open_position_count (h0_risk g) < hc_max_open_positions (h0_config g) \<and>
     \<not> fle (hc_max_total_exposure_pct (h0_config g)) (rs_total_exposure_pct (h0_risk g))"
  by (auto simp: check_risk_envelope_def Let_def split: if_splits)

lemma check_cooldown_none:
  "check_cooldown now g = None \<longleftrightarrow>
     rs_cooldown_until_ts_ms (h0_risk g) \<le> 0 \<or> rs_cooldown_until_ts_ms (h0_risk g) \<le> now"
  by (auto simp: check_cooldown_def Let_def)

lemma h0_open_iff: "failures (h0_verdicts symbol category now g) = [] \<longleftrightarrow> h0_open symbol category now g"
proof -
  have "failures (h0_verdicts symbol category now g) = [] \<longleftrightarrow>
      check_freshness symbol now g = None \<and> check_health now g = None \<and>
      check_symbol_eligibility symbol category g = None \<and> check_risk_envelope g = None \<and> check_cooldown now g = None"
    unfolding failures_nil h0_verdicts_def by simp
  then show ?thesis
    by (simp only: check_freshness_none check_health_none check_eligibility_none
        check_risk_none check_cooldown_none h0_open_def Let_def conj_assoc)
qed

section \<open>What one call does\<close>

text \<open>The instant the call judges by: the second reading of the clock.\<close>

definition h0_now :: "world \<Rightarrow> int" where
  "h0_now w = millis (clock w (Suc (ticks w)))"

lemma h0_check_blocking:
  assumes "\<not> hc_shadow_mode (h0_config g)" "h0_check symbol category g w = (r, g', w')"
  shows "hr_allowed r \<longleftrightarrow> failures (h0_verdicts symbol category (h0_now w) g) = []"
    and "if hr_allowed r then hr_check_name r = ''all_passed''
         else (hr_check_name r, hr_reason r) = hd (failures (h0_verdicts symbol category (h0_now w) g))"
    and "g' = record_outcome (if hr_allowed r then ''allowed'' else ''blocked_'' @ hr_check_name r) (hr_latency_us r)
           (g\<lparr>h0_stats := count ''total_checks'' 1 (h0_stats g)\<rparr>)"
  using assms
  by (auto simp: h0_check_def h0_now_def read_clock_def now_ms_def Let_def split: list.splits)

lemma h0_check_shadow:
  assumes "hc_shadow_mode (h0_config g)" "h0_check symbol category g w = (r, g', w')"
    and "bs = failures (h0_verdicts symbol category (h0_now w) g)"
  shows "hr_allowed r"
    and "hr_check_name r = (if bs = [] then ''shadow_all_passed'' else ''shadow_would_block'')"
    and "g' = record_outcome ''allowed'' (hr_latency_us r)
           ((\<lambda>g. if bs = [] then g else record_shadow_blocks symbol bs (h0_now w) g)
             (g\<lparr>h0_stats := count ''total_checks'' 1 (h0_stats g)\<rparr>))"
  using assms
  by (auto simp: h0_check_def check_shadow_def h0_now_def read_clock_def now_ms_def Let_def)

section \<open>Histories\<close>

inductive h0_step :: "h0_gate \<Rightarrow> h0_gate \<Rightarrow> bool" where
  h0_health: "h0_step g (update_health s g)"
| h0_risk: "h0_step g (update_risk r g)"
| h0_price: "h0_step g (update_price_ts symbol ts g)"
| h0_mode: "h0_step g (set_system_mode m g)"
| h0_execution: "h0_step g (set_execution_state m g)"
| h0_symbol: "h0_step g (set_symbol_eligibility symbol b g)"
| h0_shadow: "h0_step g (set_shadow_mode b g)"
| h0_worker: "worker_round ps pr g w = (g', w') \<Longrightarrow> h0_step g g'"
| h0_call: "h0_check symbol category g w = (r, g', w') \<Longrightarrow> h0_step g g'"

inductive h0_reachable :: "h0_gate \<Rightarrow> bool" where
  h0_start: "h0_reachable (h0_gate_new c)"
| h0_next: "h0_reachable g \<Longrightarrow> h0_step g g' \<Longrightarrow> h0_reachable g'"

definition blocked_total :: "counters \<Rightarrow> int" where
  "blocked_total cs = (\<Sum>n \<leftarrow> h0_names. counter cs (''blocked_'' @ n))"

definition shadow_books :: "int \<Rightarrow> counters \<Rightarrow> pydict list \<Rightarrow> bool" where
  "shadow_books allowed cs entries \<longleftrightarrow>
     (let total = counter cs ''shadow_total_would_block'' in
      0 \<le> total \<and> total \<le> allowed \<and> int (length entries) = min 100 total \<and>
      (\<forall>n \<in> set h0_names. counter cs (''shadow_would_block_'' @ n) \<le> total))"

definition h0_books :: "h0_gate \<Rightarrow> bool" where
  "h0_books g \<longleftrightarrow>
     counter (h0_stats g) ''total_checks'' = counter (h0_stats g) ''allowed'' + blocked_total (h0_stats g) \<and>
     shadow_books (counter (h0_stats g) ''allowed'') (h0_shadow_stats g) (h0_shadow_log g)"

lemma shadow_books_mono: "shadow_books a cs es \<Longrightarrow> a \<le> b \<Longrightarrow> shadow_books b cs es"
  by (auto simp: shadow_books_def Let_def)

lemma outcome_counters:
  "counter (h0_stats (record_outcome k l g)) j =
     (if j = ''max_latency_us'' then max l (counter (h0_stats g) j + (if j = k then 1 else 0))
      else counter (h0_stats g) j + (if j = k then 1 else 0) + (if j = ''total_latency_us'' then l else 0))"
  by (simp add: record_outcome_def counter_count counter_raise)

lemma outcome_other [simp]:
  "h0_shadow_stats (record_outcome k l g) = h0_shadow_stats g"
  "h0_shadow_log (record_outcome k l g) = h0_shadow_log g"
  by (simp_all add: record_outcome_def)

text \<open>One call adds one to \<open>total_checks\<close>, and one either to \<open>allowed\<close> or to one blocked counter.\<close>

lemma outcome_books:
  assumes "counter cs ''total_checks'' = counter cs ''allowed'' + blocked_total cs"
    and "k = ''allowed'' \<or> (\<exists>n \<in> set h0_names. k = ''blocked_'' @ n)"
    and "h0_stats g = count ''total_checks'' 1 cs"
    and "g' = record_outcome k l g"
  shows "counter (h0_stats g') ''total_checks'' = counter (h0_stats g') ''allowed'' + blocked_total (h0_stats g')"
    and "counter (h0_stats g') ''allowed'' = counter cs ''allowed'' + (if k = ''allowed'' then 1 else 0)"
  using assms(1,2)
  by (auto simp: assms(4) outcome_counters counter_count assms(3) blocked_total_def h0_names_def)

lemma shadow_counters:
  assumes "distinct (map fst bs)" "cs = h0_shadow_stats (record_shadow_blocks symbol bs now g)"
  shows "counter cs ''shadow_total_would_block'' = counter (h0_shadow_stats g) ''shadow_total_would_block'' + 1"
    and "counter cs (''shadow_would_block_'' @ n) =
      counter (h0_shadow_stats g) (''shadow_would_block_'' @ n) + (if n \<in> fst ` set bs then 1 else 0)"
proof -
  let ?f = "fold (\<lambda>(c, r). count (''shadow_would_block_'' @ c) 1) bs (h0_shadow_stats g)"
  have cs: "cs = count ''shadow_total_would_block'' 1 ?f"
    by (simp add: assms(2) record_shadow_blocks_def)
  have "counter ?f ''shadow_total_would_block'' = counter (h0_shadow_stats g) ''shadow_total_would_block''"
    by (rule counter_fold_other) simp
  then show "counter cs ''shadow_total_would_block'' = counter (h0_shadow_stats g) ''shadow_total_would_block'' + 1"
    by (simp only: cs counter_count refl if_True)
  have "''shadow_would_block_'' @ n \<noteq> ''shadow_total_would_block''" by simp
  then show "counter cs (''shadow_would_block_'' @ n) =
      counter (h0_shadow_stats g) (''shadow_would_block_'' @ n) + (if n \<in> fst ` set bs then 1 else 0)"
    by (simp only: cs counter_count if_False counter_fold_count[OF assms(1)] add_0_right)
qed

lemma shadow_log_length:
  "length (h0_shadow_log (record_shadow_blocks symbol bs now g)) = min 100 (Suc (length (h0_shadow_log g)))"
  by (simp add: record_shadow_blocks_def keep_last_def shadow_log_max_def min_def)

lemma shadow_blocks_stats [simp]: "h0_stats (record_shadow_blocks symbol bs now g) = h0_stats g"
  by (simp add: record_shadow_blocks_def)

lemma shadow_books_record:
  assumes "shadow_books a (h0_shadow_stats g) (h0_shadow_log g)" "distinct (map fst bs)"
    and "g' = record_shadow_blocks symbol bs now g"
  shows "shadow_books (a + 1) (h0_shadow_stats g') (h0_shadow_log g')"
proof -
  note new = shadow_counters[OF assms(2) refl, of symbol now g, folded assms(3)]
    shadow_log_length[of symbol bs now g, folded assms(3)]
  have "counter (h0_shadow_stats g') (''shadow_would_block_'' @ n) \<le> counter (h0_shadow_stats g') ''shadow_total_would_block''"
    if "n \<in> set h0_names" for n
  proof -
    have "counter (h0_shadow_stats g) (''shadow_would_block_'' @ n) \<le> counter (h0_shadow_stats g) ''shadow_total_would_block''"
      using assms(1) that unfolding shadow_books_def Let_def by blast
    then show ?thesis unfolding new by (simp split del: if_split split: if_split)
  qed
  then show ?thesis
    using assms(1) unfolding shadow_books_def Let_def
    by (simp add: new(1,3) min_def split: if_splits)
qed

lemma books_check_blocking:
  assumes "h0_books g" "\<not> hc_shadow_mode (h0_config g)" "h0_check symbol category g w = (r, g', w')"
  shows "h0_books g'"
proof -
  note spec = h0_check_blocking[OF assms(2,3)]
  define k where "k = (if hr_allowed r then ''allowed'' else ''blocked_'' @ hr_check_name r)"
  have "\<not> hr_allowed r \<Longrightarrow> hr_check_name r \<in> set h0_names"
    using spec(1,2) blocks_names(1)[of symbol category "h0_now w" g]
    by (metis fst_conv image_eqI list.set_sel(1) subsetD)
  then have k: "k = ''allowed'' \<or> (\<exists>n \<in> set h0_names. k = ''blocked_'' @ n)" by (auto simp: k_def)
  have shadow: "h0_shadow_stats g' = h0_shadow_stats g" "h0_shadow_log g' = h0_shadow_log g"
    by (simp_all add: spec(3))
  show ?thesis
    using assms(1) outcome_books[OF _ k _ spec(3)[folded k_def], of "h0_stats g", simplified]
    by (auto simp: h0_books_def shadow intro: shadow_books_mono)
qed

lemma books_check_shadow:
  assumes "h0_books g" "hc_shadow_mode (h0_config g)" "h0_check symbol category g w = (r, g', w')"
  shows "h0_books g'"
proof -
  define bs where "bs = failures (h0_verdicts symbol category (h0_now w) g)"
  note spec = h0_check_shadow[OF assms(2,3) bs_def]
  define g1 where "g1 = g\<lparr>h0_stats := count ''total_checks'' 1 (h0_stats g)\<rparr>"
  define g2 where "g2 = (if bs = [] then g1 else record_shadow_blocks symbol bs (h0_now w) g1)"
  have g': "g' = record_outcome ''allowed'' (hr_latency_us r) g2"
    using spec(3) by (simp add: g1_def g2_def)
  have "h0_stats g2 = count ''total_checks'' 1 (h0_stats g)" by (simp add: g1_def g2_def)
  note stats = outcome_books[OF _ _ this g', simplified]
  have old: "shadow_books (counter (h0_stats g) ''allowed'') (h0_shadow_stats g1) (h0_shadow_log g1)"
    using assms(1) by (simp add: h0_books_def g1_def)
  have "distinct (map fst bs)" unfolding bs_def by (rule blocks_names)
  then have "shadow_books (counter (h0_stats g) ''allowed'' + 1) (h0_shadow_stats g2) (h0_shadow_log g2)"
    using shadow_books_record[OF old] shadow_books_mono[OF old] by (simp add: g2_def)
  then show ?thesis
    using assms(1) stats by (simp add: h0_books_def g')
qed

lemma books_check:
  "h0_books g \<Longrightarrow> h0_check symbol category g w = (r, g', w') \<Longrightarrow> h0_books g'"
  using books_check_blocking books_check_shadow by blast

lemma books_step: "h0_step g g' \<Longrightarrow> h0_books g \<Longrightarrow> h0_books g'"
proof (induction rule: h0_step.induct)
  case (h0_call symbol category g w r g' w')
  then show ?case by (blast intro: books_check)
next
  case (h0_worker ps pr g w g' w')
  then show ?case by (auto simp: worker_round_def update_health_def h0_books_def split: prod.splits)
qed (simp_all add: h0_books_def update_health_def update_risk_def update_price_ts_def set_system_mode_def
    set_execution_state_def set_symbol_eligibility_def set_shadow_mode_def)

lemma books_new: "h0_books (h0_gate_new c)"
  by (simp add: h0_books_def h0_gate_new_def counter_def blocked_total_def shadow_books_def h0_names_def)

lemma books_reachable: "h0_reachable g \<Longrightarrow> h0_books g"
  by (induction rule: h0_reachable.induct) (auto intro: books_new books_step)

section \<open>The properties\<close>

text \<open>C17: In blocking mode \<open>H0Gate.check\<close> allows a symbol and category exactly when the gate is open at the
  instant of the call: there is a tick for the symbol younger than the limit, the health snapshot (when one was
  ever taken) is not stale and no metric is beyond its limit, category, symbol and system mode are eligible, the
  risk snapshot is inside the envelope (no kill switch, positions and exposure below the limits) and no cooldown
  runs. Otherwise it reports the first check that fails, in the order freshness, health, eligibility, risk,
  cooldown. It writes nothing but its statistics.\<close>

theorem h0_blocking_exact:
  assumes "\<not> hc_shadow_mode (h0_config g)" and "h0_check symbol category g w = (r, g', w')"
  shows "(hr_allowed r \<longleftrightarrow> h0_open symbol category (h0_now w) g) \<and>
    (if hr_allowed r then hr_check_name r = ''all_passed''
     else (hr_check_name r, hr_reason r) = hd (failures (h0_verdicts symbol category (h0_now w) g))) \<and>
    g' = g\<lparr>h0_stats := h0_stats g'\<rparr>"
  using h0_check_blocking[OF assms] by (simp add: h0_open_iff record_outcome_def)

definition h0_demo_gate :: h0_gate where
  "h0_demo_gate = update_price_ts ''BTCUSDT'' (h0_now (sample_world 0))
     (update_health (default_health\<lparr>hs_cpu_pct := NaN\<rparr>) (h0_gate_new None))"

text \<open>A CPU reading that is not a number is beyond no limit: the gate is open.\<close>

theorem h0_blocking_exact_witness:
  "(\<exists>r g' w'. h0_check ''BTCUSDT'' ''linear'' h0_demo_gate (sample_world 0) = (r, g', w') \<and> hr_allowed r) \<and>
   (\<exists>r g' w'. h0_check ''ETHUSDT'' ''linear'' h0_demo_gate (sample_world 0) = (r, g', w') \<and> \<not> hr_allowed r)"
proof -
  have b: "\<not> hc_shadow_mode (h0_config h0_demo_gate)"
    by (simp add: h0_demo_gate_def update_price_ts_def update_health_def h0_gate_new_def default_h0_config_def)
  obtain r1 g1 and w1 :: world where c1: "h0_check ''BTCUSDT'' ''linear'' h0_demo_gate (sample_world 0) = (r1, g1, w1)"
    by (rule prod_cases3)
  obtain r2 g2 and w2 :: world where c2: "h0_check ''ETHUSDT'' ''linear'' h0_demo_gate (sample_world 0) = (r2, g2, w2)"
    by (rule prod_cases3)
  have "h0_open ''BTCUSDT'' ''linear'' (h0_now (sample_world 0)) h0_demo_gate"
    "\<not> h0_open ''ETHUSDT'' ''linear'' (h0_now (sample_world 0)) h0_demo_gate"
    by (simp_all add: h0_open_def h0_demo_gate_def update_price_ts_def update_health_def h0_gate_new_def
        default_h0_config_def default_health_def default_risk_snapshot_def)
  then show ?thesis
    using h0_blocking_exact[OF b c1] h0_blocking_exact[OF b c2] c1 c2 by blast
qed

text \<open>C18: Shadow mode predicts blocking mode. Of two calls on the same gate at the same readings of the clocks,
  one in shadow and one in blocking mode, the shadow call always allows, takes the same time, and says that it
  would block exactly when the blocking call blocks; then one entry is put at the end of the shadow log (of which
  the last hundred are kept) and the first block of that entry is the check and the reason the blocking call
  reports. Otherwise the shadow log is left alone.\<close>

theorem h0_shadow_predicts:
  assumes "h0_check symbol category (set_shadow_mode True g) w = (rs, gs, ws)"
    and "h0_check symbol category (set_shadow_mode False g) w = (rb, gb, wb)"
  shows "hr_allowed rs \<and> ws = wb \<and> hr_latency_us rs = hr_latency_us rb \<and>
    hr_check_name rs = (if hr_allowed rb then ''shadow_all_passed'' else ''shadow_would_block'') \<and>
    (if hr_allowed rb then h0_shadow_log gs = h0_shadow_log g
     else \<exists>rest. h0_shadow_log gs =
       keep_last 100 (h0_shadow_log g @ [shadow_entry symbol ((hr_check_name rb, hr_reason rb) # rest) (h0_now w)]))"
proof -
  let ?fs = "failures (h0_verdicts symbol category (h0_now w) g)"
  have modes: "hc_shadow_mode (h0_config (set_shadow_mode True g))" "\<not> hc_shadow_mode (h0_config (set_shadow_mode False g))"
    by (simp_all add: set_shadow_mode_def)
  note shadow = h0_check_shadow[OF modes(1) assms(1) refl, unfolded verdicts_shadow]
  note blocking = h0_check_blocking[OF modes(2) assms(2), unfolded verdicts_shadow]
  have "ws = wb \<and> hr_latency_us rs = hr_latency_us rb"
    using assms modes by (auto simp: h0_check_def check_shadow_def read_clock_def now_ms_def Let_def split: list.splits)
  moreover have "h0_shadow_log gs = (if ?fs = [] then h0_shadow_log g
      else keep_last 100 (h0_shadow_log g @ [shadow_entry symbol ?fs (h0_now w)]))"
    unfolding shadow(3) by (simp add: record_shadow_blocks_def shadow_log_max_def set_shadow_mode_def)
  moreover have "\<exists>rest. ?fs = (hr_check_name rb, hr_reason rb) # rest" if "\<not> hr_allowed rb"
    using blocking(1,2) that by (metis list.collapse)
  then have "hr_allowed rb \<or> (\<exists>rest. ?fs = (hr_check_name rb, hr_reason rb) # rest)" by blast
  ultimately show ?thesis
    using shadow(1,2) blocking(1) by (elim disjE exE) (simp, simp, blast)
qed

theorem h0_shadow_predicts_witness:
  "\<exists>rs gs ws. h0_check ''ETHUSDT'' ''linear'' (set_shadow_mode True h0_demo_gate) (sample_world 0) = (rs, gs, ws) \<and>
     hr_allowed rs"
proof -
  obtain rs gs and ws :: world where s: "h0_check ''ETHUSDT'' ''linear'' (set_shadow_mode True h0_demo_gate) (sample_world 0) = (rs, gs, ws)"
    by (rule prod_cases3)
  obtain rb gb and wb :: world where b: "h0_check ''ETHUSDT'' ''linear'' (set_shadow_mode False h0_demo_gate) (sample_world 0) = (rb, gb, wb)"
    by (rule prod_cases3)
  show ?thesis using h0_shadow_predicts[OF s b] s by blast
qed

text \<open>The books of the gate balance in every state it can reach, through injected snapshots, mode changes,
  rounds of the health worker and calls in either mode: the calls are the allowed ones and the blocked ones,
  each blocked call counted under exactly one check, and the calls that shadow mode would have blocked are at most
  the allowed ones, no check having more of them than there were, and are logged up to the last hundred.\<close>

theorem h0_accounting:
  assumes "h0_reachable g"
  shows "counter (h0_stats g) ''total_checks'' =
      counter (h0_stats g) ''allowed'' + (\<Sum>n \<leftarrow> h0_names. counter (h0_stats g) (''blocked_'' @ n)) \<and>
    shadow_books (counter (h0_stats g) ''allowed'') (h0_shadow_stats g) (h0_shadow_log g)"
  using books_reachable[OF assms] by (simp only: h0_books_def blocked_total_def)

theorem h0_accounting_witness:
  "\<exists>r g' w'. h0_check ''ETHUSDT'' ''linear'' (set_shadow_mode True h0_demo_gate) (sample_world 0) = (r, g', w') \<and>
     shadow_books (counter (h0_stats g') ''allowed'') (h0_shadow_stats g') (h0_shadow_log g')"
proof -
  obtain r g and w :: world where c: "h0_check ''ETHUSDT'' ''linear'' (set_shadow_mode True h0_demo_gate) (sample_world 0) = (r, g, w)"
    by (rule prod_cases3)
  have "h0_reachable g"
    unfolding h0_demo_gate_def
    by (rule h0_next[OF _ h0_call[OF c]], unfold h0_demo_gate_def)
      (intro h0_next[OF _ h0_shadow] h0_next[OF _ h0_price] h0_next[OF _ h0_health] h0_start)
  then show ?thesis using h0_accounting[of g] c by blast
qed

end
