(* ===== verification/Closed_PnL.thy ===== *)
theory Closed_PnL
  imports Py_Coerce "HOL-Library.Countable"
begin

text \<open>
  Reading the exchange's closed positions page by page (\<open>app/closed_pnl_pagination.py\<close>): the opaque
  cursor, the windows of at most seven days into which a range of time is cut, and the loop that asks the
  exchange for one page after another. The exchange client is an argument: the answer to the n-th request
  of a loop, None when it raises. \<open>json.dumps\<close> (compact, keys sorted) and \<open>json.loads\<close> are a record of two functions;
  base64 is written out.
\<close>

section \<open>Bytes and numbers of the standard library\<close>

definition byte :: "char \<Rightarrow> nat" where
  "byte c = of_char c"

text \<open>\<open>int(s)\<close> on a string, and on a value of unknown type; None where it raises.\<close>

definition parse_int :: "string \<Rightarrow> int option" where
  "parse_int s =
     (let t = str_strip s in
      if \<not> underscores_ok False t then None
      else (let (sg, ds) = parse_sign (filter (\<lambda>c. c \<noteq> CHR ''_'') t) in
            if ds \<noteq> [] \<and> list_all is_digit ds then Some (\<lfloor>sg\<rfloor> * int (str_nat ds)) else None))"

definition to_int :: "pyval \<Rightarrow> int option" where
  "to_int v = (case v of PInt i \<Rightarrow> Some i | PBool b \<Rightarrow> Some (if b then 1 else 0) | PFloat x \<Rightarrow> int_of_float x
     | PStr s \<Rightarrow> parse_int s | _ \<Rightarrow> None)"

text \<open>\<open>a or b\<close>.\<close>

definition py_or :: "pyval \<Rightarrow> pyval \<Rightarrow> pyval" where
  "py_or a b = (if truthy a then a else b)"

text \<open>\<open>base64.urlsafe_b64encode\<close> without its padding: three bytes are four characters.\<close>

definition b64_char :: "nat \<Rightarrow> char" where
  "b64_char n = char_of (if n < 26 then 65 + n else if n < 52 then 71 + n else if n < 62 then n - 4
     else if n = 62 then 45 else 95)"

fun b64_sextets :: "nat list \<Rightarrow> nat list" where
  "b64_sextets [] = []"
| "b64_sextets [a] = [a div 4, a mod 4 * 16]"
| "b64_sextets [a, b] = [a div 4, a mod 4 * 16 + b div 16, b mod 16 * 4]"
| "b64_sextets (a # b # c # bs) =
     a div 4 # (a mod 4 * 16 + b div 16) # (b mod 16 * 4 + c div 64) # c mod 64 # b64_sextets bs"

definition b64_encode :: "string \<Rightarrow> string" where
  "b64_encode s = map b64_char (b64_sextets (map byte s))"

text \<open>
  \<open>base64.urlsafe_b64decode\<close> takes both alphabets and skips every other character. Padding ends
  the text where it completes a group of four; an incomplete group raises (None).
\<close>

definition b64_value :: "char \<Rightarrow> nat option" where
  "b64_value c =
     (let n = byte c in
      if 65 \<le> n \<and> n \<le> 90 then Some (n - 65)
      else if 97 \<le> n \<and> n \<le> 122 then Some (n - 71)
      else if 48 \<le> n \<and> n \<le> 57 then Some (n + 4)
      else if n = 45 \<or> n = 43 then Some 62
      else if n = 95 \<or> n = 47 then Some 63 else None)"

fun b64_scan :: "nat \<Rightarrow> nat \<Rightarrow> nat \<Rightarrow> string \<Rightarrow> nat list option" where
  "b64_scan q left pads [] = (if q = 0 then Some [] else None)"
| "b64_scan q left pads (c # cs) =
     (if c = CHR ''='' then
        (if 2 \<le> q \<and> 4 \<le> q + Suc pads then Some []
         else b64_scan q left (if 2 \<le> q then Suc pads else pads) cs)
      else
        (case b64_value c of
           None \<Rightarrow> b64_scan q left pads cs
         | Some v \<Rightarrow>
             if q = 0 then b64_scan 1 v 0 cs
             else if q = 1 then map_option ((#) (left * 4 + v div 16)) (b64_scan 2 (v mod 16) 0 cs)
             else if q = 2 then map_option ((#) (left * 16 + v div 4)) (b64_scan 3 (v mod 4) 0 cs)
             else map_option ((#) (left * 64 + v)) (b64_scan 0 0 0 cs)))"

definition b64_decode :: "string \<Rightarrow> string option" where
  "b64_decode s = map_option (map char_of) (b64_scan 0 0 0 s)"

text \<open>\<open>bytes.decode("utf-8")\<close> raises on bytes that are not well-formed; text is kept as its bytes.\<close>

definition continuation :: "nat \<Rightarrow> nat \<Rightarrow> nat \<Rightarrow> bool" where
  "continuation lo hi b \<longleftrightarrow> lo \<le> b \<and> b \<le> hi"

fun utf8_valid :: "nat list \<Rightarrow> bool" where
  "utf8_valid [] = True"
| "utf8_valid (a # bs) =
     (if a < 128 then utf8_valid bs
      else if 194 \<le> a \<and> a \<le> 223 then
        (case bs of b # r \<Rightarrow> continuation 128 191 b \<and> utf8_valid r | [] \<Rightarrow> False)
      else if 224 \<le> a \<and> a \<le> 239 then
        (case bs of b # c # r \<Rightarrow>
           continuation (if a = 224 then 160 else 128) (if a = 237 then 159 else 191) b \<and> continuation 128 191 c \<and> utf8_valid r
         | _ \<Rightarrow> False)
      else if 240 \<le> a \<and> a \<le> 244 then
        (case bs of b # c # d # r \<Rightarrow>
           continuation (if a = 240 then 144 else 128) (if a = 244 then 143 else 191) b \<and>
           continuation 128 191 c \<and> continuation 128 191 d \<and> utf8_valid r
         | _ \<Rightarrow> False)
      else False)"

definition is_ascii :: "string \<Rightarrow> bool" where
  "is_ascii s \<longleftrightarrow> list_all (\<lambda>c. byte c < 128) s"

text \<open>\<open>json.dumps(d, separators=(",", ":"), sort_keys=True)\<close> of a dictionary whose keys stand in order, and
  \<open>json.loads\<close>, which raises (None) on text that is not JSON.\<close>

record json_codec =
  dumps :: "pydict \<Rightarrow> string"
  loads :: "string \<Rightarrow> pyval option"

fun insert_key :: "string \<times> pyval \<Rightarrow> pydict \<Rightarrow> pydict" where
  "insert_key kv [] = [kv]"
| "insert_key kv (e # d) = (if str_less (fst e) (fst kv) then e # insert_key kv d else kv # e # d)"

definition sort_keys :: "pydict \<Rightarrow> pydict" where
  "sort_keys d = foldr insert_key d []"

section \<open>The cursor\<close>

datatype pnl_error = HTTPException int pyval | RaisedOther

definition DAY_MS :: int where "DAY_MS = 86400000"
definition MAX_WINDOW_MS :: int where "MAX_WINDOW_MS = 604800000"
definition ALL_HISTORY_DAYS :: int where "ALL_HISTORY_DAYS = 730"
definition MAX_WINDOWS_PER_PRELOAD :: nat where "MAX_WINDOWS_PER_PRELOAD = 8"
definition CURSOR_VERSION :: int where "CURSOR_VERSION = 1"

definition closed_pnl_encode_cursor :: "json_codec \<Rightarrow> pydict \<Rightarrow> string" where
  "closed_pnl_encode_cursor j payload =
     b64_encode (dumps j (sort_keys (AList.update ''v'' (PInt CURSOR_VERSION) payload)))"

definition invalid_cursor :: pnl_error where
  "invalid_cursor = HTTPException 400 (PStr ''invalid closed-pnl cursor'')"

text \<open>The version is compared as a number: \<open>1.0\<close> and \<open>True\<close> equal 1.\<close>

definition closed_pnl_decode_cursor :: "json_codec \<Rightarrow> string option \<Rightarrow> pnl_error + pydict" where
  "closed_pnl_decode_cursor j cursor =
     (case cursor of
        None \<Rightarrow> Inr []
      | Some c \<Rightarrow>
          if c = [] then Inr []
          else
            (let padded = c @ replicate (nat (- int (length c) mod 4)) (CHR ''='') in
             case (if is_ascii padded then b64_decode padded else None) of
               None \<Rightarrow> Inl invalid_cursor
             | Some raw \<Rightarrow>
                 (case (if utf8_valid (map byte raw) then loads j raw else None) of
                    Some (PDict d) \<Rightarrow>
                      if as_num (dict_get d ''v'' PNone) = Some (Fin (of_int CURSOR_VERSION)) then Inr d else Inl invalid_cursor
                  | _ \<Rightarrow> Inl invalid_cursor)))"

definition closed_pnl_optional_ms :: "pyval \<Rightarrow> int option" where
  "closed_pnl_optional_ms v = (case v of PInt _ \<Rightarrow> to_int v | PBool _ \<Rightarrow> to_int v | PFloat _ \<Rightarrow> to_int v
     | PStr _ \<Rightarrow> to_int v | _ \<Rightarrow> None)"

definition closed_pnl_history_bounds ::
  "pyval \<Rightarrow> pyval \<Rightarrow> pyval \<Rightarrow> world \<Rightarrow> (pnl_error + int \<times> int) \<times> world" where
  "closed_pnl_history_bounds start_time end_time lookback_days w =
     (let (now, w1) = now_ms w;
          end_ms = (case closed_pnl_optional_ms end_time of Some e \<Rightarrow> e | None \<Rightarrow> now div 5000 * 5000);
          start_ms = (case closed_pnl_optional_ms start_time of
             Some s \<Rightarrow> s
           | None \<Rightarrow>
               (let requested = (case to_int lookback_days of Some n \<Rightarrow> n | None \<Rightarrow> ALL_HISTORY_DAYS)
                in end_ms - min (max requested 1) ALL_HISTORY_DAYS * DAY_MS))
      in (if end_ms < start_ms then Inl (HTTPException 400 (PStr ''end_time must be >= start_time'')) else Inr (start_ms, end_ms), w1))"

section \<open>Windows\<close>

text \<open>The state dictionary of the exchange source; its cursor and symbol come from outside.\<close>

record pnl_state =
  ps_start_ms :: int
  ps_end_ms :: int
  ps_window_start_ms :: int
  ps_window_end_ms :: int
  ps_cursor :: pyval
  ps_symbol :: pyval

definition state_dict :: "pnl_state \<Rightarrow> pydict" where
  "state_dict s =
     [(''source'', PStr ''bybit''), (''start_ms'', PInt (ps_start_ms s)), (''end_ms'', PInt (ps_end_ms s)),
      (''window_start_ms'', PInt (ps_window_start_ms s)), (''window_end_ms'', PInt (ps_window_end_ms s)),
      (''cursor'', ps_cursor s), (''symbol'', ps_symbol s)]"

definition closed_pnl_initial_bybit_state :: "int \<Rightarrow> int \<Rightarrow> pyval \<Rightarrow> pnl_state" where
  "closed_pnl_initial_bybit_state start_ms end_ms symbol =
     \<lparr>ps_start_ms = start_ms, ps_end_ms = end_ms, ps_window_start_ms = max start_ms (end_ms - MAX_WINDOW_MS),
      ps_window_end_ms = end_ms, ps_cursor = PNone, ps_symbol = symbol\<rparr>"

definition closed_pnl_previous_window_state :: "pnl_state \<Rightarrow> pnl_state option" where
  "closed_pnl_previous_window_state s =
     (let prev_end = ps_window_start_ms s - 1 in
      if prev_end < ps_start_ms s then None
      else Some (s\<lparr>ps_end_ms := (if ps_end_ms s = 0 then prev_end else ps_end_ms s),
             ps_window_start_ms := max (ps_start_ms s) (prev_end - MAX_WINDOW_MS),
             ps_window_end_ms := prev_end, ps_cursor := PNone\<rparr>))"

definition closed_pnl_bybit_state_with_cursor ::
  "json_codec \<Rightarrow> string option \<Rightarrow> int \<Rightarrow> int \<Rightarrow> pyval \<Rightarrow> pnl_error + pnl_state" where
  "closed_pnl_bybit_state_with_cursor j cursor start_ms end_ms symbol =
     (case closed_pnl_decode_cursor j cursor of
        Inl e \<Rightarrow> Inl e
      | Inr d \<Rightarrow>
          if dict_get d ''source'' PNone \<noteq> PStr ''bybit''
          then Inr (closed_pnl_initial_bybit_state start_ms end_ms symbol)
          else
            (let field = (\<lambda>k dflt. to_int (py_or (dict_get d k PNone) (PInt dflt))) in
             case do { s \<leftarrow> field ''start_ms'' start_ms; e \<leftarrow> field ''end_ms'' end_ms;
                       ws \<leftarrow> field ''window_start_ms'' start_ms; we \<leftarrow> field ''window_end_ms'' end_ms;
                       Some \<lparr>ps_start_ms = s, ps_end_ms = e, ps_window_start_ms = ws, ps_window_end_ms = we,
                         ps_cursor = py_or (dict_get d ''cursor'' PNone) PNone,
                         ps_symbol = py_or (dict_get d ''symbol'' PNone) symbol\<rparr> } of
               None \<Rightarrow> Inl RaisedOther
             | Some st \<Rightarrow> Inr st))"

section \<open>The loop over pages\<close>

record page_request =
  rq_symbol :: pyval
  rq_start_time :: int
  rq_end_time :: int
  rq_limit :: int
  rq_cursor :: pyval

type_synonym exchange = "nat \<Rightarrow> page_request \<Rightarrow> pyval option"

text \<open>What a loop has done: its requests, the rows, the current and the next state, the cursors seen.\<close>

record paging =
  pg_requests :: "page_request list"
  pg_rows :: "pydict list"
  pg_state :: "pnl_state option"
  pg_next :: "pnl_state option"
  pg_seen :: "string list"

definition page_items :: "pyval \<Rightarrow> pydict list" where
  "page_items result =
     (case (case result of PDict d \<Rightarrow> dict_get d ''list'' PNone | _ \<Rightarrow> result) of
        PList vs \<Rightarrow> List.map_filter as_dict vs | _ \<Rightarrow> [])"

definition next_page_cursor :: "pyval \<Rightarrow> pyval" where
  "next_page_cursor result = (case result of PDict d \<Rightarrow> dict_get d ''nextPageCursor'' PNone | _ \<Rightarrow> PNone)"

definition page_request_of :: "int \<Rightarrow> pyval \<Rightarrow> paging \<Rightarrow> pnl_state \<Rightarrow> page_request" where
  "page_request_of limit symbol p s =
     \<lparr>rq_symbol = symbol, rq_start_time = ps_window_start_ms s, rq_end_time = ps_window_end_ms s,
      rq_limit = min 100 (max 1 (limit - int (length (pg_rows p)))), rq_cursor = py_or (ps_cursor s) PNone\<rparr>"

text \<open>One round. None: the client raises, or gives a cursor that has no hash. The flag: the round breaks the loop.\<close>

definition page_round ::
  "(pyval \<Rightarrow> string) \<Rightarrow> exchange \<Rightarrow> int \<Rightarrow> pyval \<Rightarrow> pnl_state \<Rightarrow> paging \<Rightarrow> (bool \<times> paging) option" where
  "page_round rep rc limit symbol s p =
     (let rq = page_request_of limit symbol p s in
      case rc (length (pg_requests p)) rq of
        None \<Rightarrow> None
      | Some result \<Rightarrow>
          (let p1 = p\<lparr>pg_requests := pg_requests p @ [rq], pg_rows := pg_rows p @ page_items result\<rparr>;
               c = next_page_cursor result; full = (limit \<le> int (length (pg_rows p1)))
           in if truthy c then
                (if \<not> hashable c then None
                 else if c \<in> PStr ` set (pg_seen p) then Some (True, p1\<lparr>pg_next := None\<rparr>)
                 else
                   (let nxt = s\<lparr>ps_cursor := PStr (py_str rep c)\<rparr>;
                        p2 = p1\<lparr>pg_seen := py_str rep c # pg_seen p, pg_next := Some nxt\<rparr>
                    in if full then Some (True, p2) else Some (False, p2\<lparr>pg_state := Some nxt\<rparr>)))
              else
                (let prev = closed_pnl_previous_window_state s in
                 if full then Some (True, p1\<lparr>pg_next := prev\<rparr>)
                 else Some (False, p1\<lparr>pg_state := prev, pg_next := prev\<rparr>))))"

lemma page_round_requests:
  "page_round rep rc limit symbol s p = Some (b, q) \<Longrightarrow> pg_requests q = pg_requests p @ [page_request_of limit symbol p s]"
  by (auto simp: page_round_def Let_def split: option.splits if_splits)

function page_loop ::
  "(pyval \<Rightarrow> string) \<Rightarrow> exchange \<Rightarrow> int \<Rightarrow> pyval \<Rightarrow> paging \<Rightarrow> paging option" where
  "page_loop rep rc limit symbol p =
     (case pg_state p of
        None \<Rightarrow> Some p
      | Some s \<Rightarrow>
          if int (length (pg_rows p)) < limit \<and> length (pg_requests p) < MAX_WINDOWS_PER_PRELOAD then
            (case page_round rep rc limit symbol s p of
               None \<Rightarrow> None
             | Some (stop, q) \<Rightarrow> if stop then Some q else page_loop rep rc limit symbol q)
          else Some p)"
  by pat_completeness auto
termination
  by (relation "measure (\<lambda>(rep, rc, limit, symbol, p). MAX_WINDOWS_PER_PRELOAD - length (pg_requests p))")
    (auto dest!: page_round_requests)

declare page_loop.simps [simp del]

definition start_paging :: "(pyval \<Rightarrow> string) \<Rightarrow> pnl_state \<Rightarrow> paging" where
  "start_paging rep s =
     \<lparr>pg_requests = [], pg_rows = [], pg_state = Some s, pg_next = None,
      pg_seen = (if truthy (ps_cursor s) then [py_str rep (ps_cursor s)] else [])\<rparr>"

definition resume_state :: "int \<Rightarrow> paging \<Rightarrow> pnl_state option" where
  "resume_state limit p =
     (if int (length (pg_rows p)) < limit \<and> pg_state p \<noteq> None \<and> MAX_WINDOWS_PER_PRELOAD \<le> length (pg_requests p)
      then pg_state p else pg_next p)"

definition page_result :: "json_codec \<Rightarrow> int \<Rightarrow> paging \<Rightarrow> pydict list \<times> string option" where
  "page_result j limit p =
     (take (nat limit) (pg_rows p),
      map_option (\<lambda>s. closed_pnl_encode_cursor j (state_dict s)) (resume_state limit p))"

definition fetch_closed_pnl_bybit_history_page ::
  "json_codec \<Rightarrow> (pyval \<Rightarrow> string) \<Rightarrow> exchange \<Rightarrow> int \<Rightarrow> string option \<Rightarrow> pyval \<Rightarrow> int \<Rightarrow> int \<Rightarrow>
   pnl_error + pydict list \<times> string option" where
  "fetch_closed_pnl_bybit_history_page j rep rc limit cursor symbol start_ms end_ms =
     (case closed_pnl_bybit_state_with_cursor j cursor start_ms end_ms symbol of
        Inl e \<Rightarrow> Inl e
      | Inr s \<Rightarrow>
          (case page_loop rep rc limit symbol (start_paging rep s) of
             None \<Rightarrow> Inl RaisedOther
           | Some p \<Rightarrow> Inr (page_result j limit p)))"

section \<open>Base64 gives the bytes back\<close>

lemma byte_char [simp]: "byte (char_of n) = n mod 256"
  by (simp add: byte_def)

lemma char_byte [simp]: "char_of (byte c) = c"
  by (simp add: byte_def)

lemma byte_less [simp]: "byte c < 256"
  unfolding byte_def by (metis mod_less_divisor of_char_mod_256 zero_less_numeral)

lemma b64_value_char [simp]: "n < 64 \<Longrightarrow> b64_value (b64_char n) = Some n"
  by (simp add: b64_value_def b64_char_def Let_def) arith

lemma b64_char_byte: "n < 64 \<Longrightarrow> byte (b64_char n) \<noteq> 61 \<and> byte (b64_char n) < 128"
  by (simp add: b64_char_def) arith

lemma b64_char_pad [simp]: "n < 64 \<Longrightarrow> b64_char n \<noteq> CHR ''=''"
proof
  assume "n < 64" "b64_char n = CHR ''=''"
  moreover have "byte (CHR ''='') = 61" by (simp add: byte_def)
  ultimately show False using b64_char_byte[of n] by simp
qed

lemma sextets_less: "\<forall>b \<in> set bs. b < 256 \<Longrightarrow> x \<in> set (b64_sextets bs) \<Longrightarrow> x < 64"
  by (induction bs rule: b64_sextets.induct) auto

lemma sextet_bounds:
  fixes a b c :: nat
  shows "a < 256 \<Longrightarrow> a div 4 < 64" "a mod 4 * 16 < 64" "b < 256 \<Longrightarrow> a mod 4 * 16 + b div 16 < 64" "b mod 16 * 4 < 64"
    "a < 256 \<Longrightarrow> b mod 16 * 4 + a div 64 < 64" "c mod 64 < 64"
proof -
  have m: "a mod 4 < 4" "b mod 16 < 16" by simp_all
  then show "a mod 4 * 16 < 64" "b mod 16 * 4 < 64" "c mod 64 < 64" by simp_all
  show "a < 256 \<Longrightarrow> a div 4 < 64" by (simp add: div_less_iff_less_mult)
  have "b < 256 \<Longrightarrow> b div 16 < 16" "a < 256 \<Longrightarrow> a div 64 < 4" by (simp_all add: div_less_iff_less_mult)
  with m show "b < 256 \<Longrightarrow> a mod 4 * 16 + b div 16 < 64" "a < 256 \<Longrightarrow> b mod 16 * 4 + a div 64 < 64" by linarith+
qed

lemma sextet_joins:
  fixes a b :: nat
  assumes "b < 256"
  shows "(a mod 4 * 16 + b div 16) div 16 = a mod 4" "(a mod 4 * 16 + b div 16) mod 16 = b div 16"
    "(a mod 16 * 4 + b div 64) div 4 = a mod 16" "(a mod 16 * 4 + b div 64) mod 4 = b div 64"
    "b div 16 div 16 = 0" "b div 16 mod 16 = b div 16" "b div 64 div 4 = 0" "b div 64 mod 4 = b div 64"
  using assms by (simp_all add: div_less_iff_less_mult)

lemma scan_sextet:
  "v < 64 \<Longrightarrow> b64_scan q l p (b64_char v # cs) =
     (if q = 0 then b64_scan 1 v 0 cs
      else if q = 1 then map_option ((#) (l * 4 + v div 16)) (b64_scan 2 (v mod 16) 0 cs)
      else if q = 2 then map_option ((#) (l * 16 + v div 4)) (b64_scan 3 (v mod 4) 0 cs)
      else map_option ((#) (l * 64 + v)) (b64_scan 0 0 0 cs))"
  by simp

lemma scan_pad:
  "b64_scan q l p (CHR ''='' # cs) =
     (if 2 \<le> q \<and> 4 \<le> q + Suc p then Some [] else b64_scan q l (if 2 \<le> q then Suc p else p) cs)"
  by simp

lemma scan_sextets:
  "\<forall>b \<in> set bs. b < 256 \<Longrightarrow>
   b64_scan 0 0 0 (map b64_char (b64_sextets bs) @ replicate (nat (- int (length (b64_sextets bs)) mod 4)) (CHR ''='')) = Some bs"
proof (induction bs rule: b64_sextets.induct)
  case (2 a)
  then show ?case
    by (simp add: scan_sextet scan_pad sextet_bounds numeral_2_eq_2 del: b64_scan.simps(2))
next
  case (3 a b)
  then show ?case
    by (simp add: scan_sextet scan_pad sextet_bounds sextet_joins del: b64_scan.simps(2))
next
  case (4 a b c bs)
  have "(- int (length (b64_sextets (a # b # c # bs))) mod 4) = - int (length (b64_sextets bs)) mod 4"
    by simp presburger
  with 4 show ?case
    by (simp add: scan_sextet sextet_bounds sextet_joins del: b64_scan.simps(2))
qed simp

lemma encode_ascii: "is_ascii (b64_encode s)"
  using sextets_less[of "map byte s"] b64_char_byte by (auto simp: is_ascii_def b64_encode_def list_all_iff)

lemma encode_nil: "b64_encode s = [] \<longleftrightarrow> s = []"
  by (cases "map byte s" rule: b64_sextets.cases) (auto simp: b64_encode_def)

lemma b64_roundtrip:
  "b64_decode (b64_encode s @ replicate (nat (- int (length (b64_encode s)) mod 4)) (CHR ''='')) = Some s"
  using scan_sextets[of "map byte s"] by (simp add: b64_encode_def b64_decode_def comp_def)

lemma ascii_utf8: "is_ascii s \<Longrightarrow> utf8_valid (map byte s)"
  by (induction s) (simp_all add: is_ascii_def)

section \<open>A cursor gives its payload back\<close>

text \<open>The values the code puts into a cursor, and what JSON promises of them.\<close>

fun plain :: "pyval \<Rightarrow> bool" where
  "plain PNone = True"
| "plain (PInt i) = True"
| "plain (PStr s) = True"
| "plain (PList vs) = list_all (\<lambda>v. \<exists>s. v = PStr s) vs"
| "plain _ = False"

definition plain_dict :: "pydict \<Rightarrow> bool" where
  "plain_dict d \<longleftrightarrow> distinct (map fst d) \<and> (\<forall>v \<in> snd ` set d. plain v)"

definition json_law :: "json_codec \<Rightarrow> bool" where
  "json_law j \<longleftrightarrow>
     (\<forall>d. plain_dict d \<longrightarrow> loads j (dumps j d) = Some (PDict d) \<and> is_ascii (dumps j d) \<and> dumps j d \<noteq> [])"

lemma insert_key_set: "set (insert_key kv d) = insert kv (set d)"
  by (induction d) auto

lemma insert_key_map: "map_of d (fst kv) = None \<Longrightarrow> map_of (insert_key kv d) = (map_of d)(fst kv \<mapsto> snd kv)"
  by (induction d) (auto split: if_splits)

lemma insert_key_keys: "distinct (map fst (insert_key kv d)) \<longleftrightarrow> fst kv \<notin> fst ` set d \<and> distinct (map fst d)"
  by (induction d) (auto simp: insert_key_set)

lemma sort_keys_set: "set (sort_keys d) = set d"
  by (induction d) (simp_all add: sort_keys_def insert_key_set)

lemma sort_keys_distinct: "distinct (map fst (sort_keys d)) \<longleftrightarrow> distinct (map fst d)"
proof (induction d)
  case (Cons e d)
  then show ?case using sort_keys_set[of d] by (simp add: sort_keys_def insert_key_keys)
qed (simp add: sort_keys_def)

lemma sort_keys_get: "distinct (map fst d) \<Longrightarrow> map_of (sort_keys d) = map_of d"
proof (induction d)
  case (Cons e d)
  then have "map_of (sort_keys d) (fst e) = None" by (simp add: map_of_eq_None_iff)
  then show ?case using Cons insert_key_map[of "sort_keys d" e] by (cases e) (simp add: sort_keys_def)
qed (simp add: sort_keys_def)

lemma update_set: "set (AList.update k v d) \<subseteq> insert (k, v) (set d)"
  by (induction d) auto

lemma plain_update: "plain_dict d \<Longrightarrow> plain v \<Longrightarrow> plain_dict (AList.update k v d)"
  using update_set[of k v d] by (auto simp: plain_dict_def distinct_update)

lemma cursor_roundtrip:
  assumes "json_law j" "plain_dict d"
  shows "closed_pnl_decode_cursor j (Some (closed_pnl_encode_cursor j d)) =
    Inr (sort_keys (AList.update ''v'' (PInt CURSOR_VERSION) d))"
proof -
  let ?d = "sort_keys (AList.update ''v'' (PInt CURSOR_VERSION) d)"
  have "plain_dict ?d"
    using plain_update[OF assms(2), of "PInt CURSOR_VERSION" "''v''"]
    by (simp add: plain_dict_def sort_keys_set sort_keys_distinct)
  then have j: "loads j (dumps j ?d) = Some (PDict ?d)" "is_ascii (dumps j ?d)" "dumps j ?d \<noteq> []"
    using assms(1) by (simp_all add: json_law_def)
  have "dict_get ?d ''v'' PNone = PInt CURSOR_VERSION"
    using assms(2) by (simp add: dict_get_def plain_dict_def sort_keys_get distinct_update pd.get_put)
  moreover have "is_ascii (b64_encode (dumps j ?d) @ replicate n (CHR ''=''))" for n
    using encode_ascii[of "dumps j ?d"] by (auto simp: is_ascii_def list_all_iff byte_def)
  ultimately show ?thesis
    using j by (simp add: closed_pnl_decode_cursor_def closed_pnl_encode_cursor_def encode_nil b64_roundtrip ascii_utf8 Let_def)
qed

section \<open>The windows tile the range\<close>

function windows :: "int \<Rightarrow> int \<Rightarrow> int \<Rightarrow> (int \<times> int) list" where
  "windows start ws we =
     (ws, we) # (if ws - 1 < start then [] else windows start (max start (ws - 1 - MAX_WINDOW_MS)) (ws - 1))"
  by pat_completeness auto
termination
  by (relation "measure (\<lambda>(start, ws, we). nat (ws - start))") (auto simp: MAX_WINDOW_MS_def)

declare windows.simps [simp del]

text \<open>The records of a ledger, the newest first, that lie in a span of time.\<close>

definition rows_in :: "(pydict \<Rightarrow> int) \<Rightarrow> pydict list \<Rightarrow> int \<Rightarrow> int \<Rightarrow> pydict list" where
  "rows_in tm ledger a b = filter (\<lambda>r. a \<le> tm r \<and> tm r \<le> b) ledger"

definition newest_first :: "(pydict \<Rightarrow> int) \<Rightarrow> pydict list \<Rightarrow> bool" where
  "newest_first tm ledger \<longleftrightarrow> sorted_wrt (\<lambda>x y. tm y \<le> tm x) ledger"

lemma rows_in_split:
  assumes "newest_first tm ledger" "a \<le> m" "m \<le> b + 1"
  shows "rows_in tm ledger m b @ rows_in tm ledger a (m - 1) = rows_in tm ledger a b"
  using assms(1) unfolding newest_first_def
proof (induction ledger)
  case (Cons x xs)
  then show ?case using assms(2,3)
  proof (cases "tm x < m")
    case True
    then have "rows_in tm (x # xs) m b = []"
      using Cons.prems by (auto simp: rows_in_def filter_empty_conv)
    moreover have "rows_in tm xs m b = []"
      using True Cons.prems by (auto simp: rows_in_def filter_empty_conv)
    ultimately show ?thesis using Cons True assms(2,3) by (auto simp: rows_in_def)
  next
    case False
    then show ?thesis using Cons assms(2,3) by (auto simp: rows_in_def)
  qed
qed (simp add: rows_in_def)

lemma windows_tile:
  assumes "newest_first tm ledger"
  shows "start \<le> ws \<Longrightarrow> ws \<le> we \<Longrightarrow>
    concat (map (\<lambda>(a, b). rows_in tm ledger a b) (windows start ws we)) = rows_in tm ledger start we"
proof (induction start ws we rule: windows.induct)
  case (1 start ws we)
  show ?case
  proof (cases "ws - 1 < start")
    case True
    with 1(2) have "ws = start" by simp
    then show ?thesis by (simp add: windows.simps[of start start we])
  next
    case False
    then have "concat (map (\<lambda>(a, b). rows_in tm ledger a b) (windows start (max start (ws - 1 - MAX_WINDOW_MS)) (ws - 1))) =
        rows_in tm ledger start (ws - 1)"
      using 1 by (simp add: MAX_WINDOW_MS_def)
    with False show ?thesis
      using rows_in_split[OF assms, of start ws we] 1(2,3) by (simp add: windows.simps[of start ws we])
  qed
qed

lemma windows_bounds:
  "start \<le> ws \<Longrightarrow> ws \<le> we \<Longrightarrow> we - ws \<le> MAX_WINDOW_MS \<Longrightarrow> (a, b) \<in> set (windows start ws we) \<Longrightarrow>
   start \<le> a \<and> a \<le> b \<and> b \<le> we \<and> b - a \<le> MAX_WINDOW_MS"
proof (induction start ws we rule: windows.induct)
  case (1 start ws we)
  show ?case
  proof (cases "ws - 1 < start")
    case True
    then show ?thesis using 1 by (simp add: windows.simps[of start ws we])
  next
    case False
    then have "(a, b) = (ws, we) \<or> (a, b) \<in> set (windows start (max start (ws - 1 - MAX_WINDOW_MS)) (ws - 1))"
      using 1(5) by (simp add: windows.simps[of start ws we])
    moreover have "ws - 1 - max start (ws - 1 - MAX_WINDOW_MS) \<le> MAX_WINDOW_MS" by (simp add: max_def)
    ultimately show ?thesis
      using 1(1)[OF False] 1(2-4) False by (auto simp: MAX_WINDOW_MS_def)
  qed
qed

section \<open>An exchange that serves a ledger\<close>

text \<open>
  What the exchange documents: the records of the window, the newest first, one page of at most the given
  limit at a time, with a cursor for the rest that belongs to this page alone. A page is known by its window and
  the records before it.
\<close>

type_synonym page_tokens = "int \<Rightarrow> int \<Rightarrow> nat \<Rightarrow> string"

definition served_page :: "(pydict \<Rightarrow> int) \<Rightarrow> pydict list \<Rightarrow> page_tokens \<Rightarrow> int \<Rightarrow> int \<Rightarrow> nat \<Rightarrow> nat \<Rightarrow> pyval" where
  "served_page tm ledger tok a b off cap =
     (let rows = rows_in tm ledger a b in
      PDict [(''list'', PList (map PDict (take cap (drop off rows)))),
             (''nextPageCursor'', PStr (if off + cap < length rows then tok a b (off + cap) else []))])"

definition page_cursor :: "page_tokens \<Rightarrow> int \<Rightarrow> int \<Rightarrow> nat \<Rightarrow> pyval" where
  "page_cursor tok a b off = (if off = 0 then PNone else PStr (tok a b off))"

definition tokens_unique :: "page_tokens \<Rightarrow> bool" where
  "tokens_unique tok \<longleftrightarrow> (\<forall>a b o1. tok a b o1 \<noteq> [] \<and> (\<forall>c d o2. tok a b o1 = tok c d o2 \<longrightarrow> a = c \<and> b = d \<and> o1 = o2))"

definition serves :: "(pydict \<Rightarrow> int) \<Rightarrow> pydict list \<Rightarrow> page_tokens \<Rightarrow> pyval \<Rightarrow> exchange \<Rightarrow> bool" where
  "serves tm ledger tok symbol rc \<longleftrightarrow>
     (\<forall>k a b off cap. 1 \<le> cap \<and> cap \<le> 100 \<and> (off = 0 \<or> off < length (rows_in tm ledger a b)) \<longrightarrow>
        rc k \<lparr>rq_symbol = symbol, rq_start_time = a, rq_end_time = b, rq_limit = int cap,
              rq_cursor = page_cursor tok a b off\<rparr> = Some (served_page tm ledger tok a b off cap))"

text \<open>Where a state stands in the ledger: its window, the records of the window read before, those to come.\<close>

definition plain_symbol :: "pyval \<Rightarrow> bool" where
  "plain_symbol v \<longleftrightarrow> v = PNone \<or> (\<exists>s. v = PStr s)"

definition stands :: "(pydict \<Rightarrow> int) \<Rightarrow> pydict list \<Rightarrow> page_tokens \<Rightarrow> pyval \<Rightarrow> int \<Rightarrow> int \<Rightarrow> pnl_state \<Rightarrow> nat \<Rightarrow> bool" where
  "stands tm ledger tok symbol start stop s off \<longleftrightarrow>
     0 < start \<and> ps_start_ms s = start \<and> ps_end_ms s = stop \<and> 0 < stop \<and>
     start \<le> ps_window_start_ms s \<and> ps_window_start_ms s \<le> ps_window_end_ms s \<and> ps_symbol s = symbol \<and> plain_symbol symbol \<and>
     ps_cursor s = page_cursor tok (ps_window_start_ms s) (ps_window_end_ms s) off \<and>
     (off = 0 \<or> off < length (rows_in tm ledger (ps_window_start_ms s) (ps_window_end_ms s)))"

definition to_come :: "(pydict \<Rightarrow> int) \<Rightarrow> pydict list \<Rightarrow> pnl_state \<Rightarrow> nat \<Rightarrow> pydict list" where
  "to_come tm ledger s off =
     drop off (rows_in tm ledger (ps_window_start_ms s) (ps_window_end_ms s)) @
     rows_in tm ledger (ps_start_ms s) (ps_window_start_ms s - 1)"

definition windows_left :: "pnl_state \<Rightarrow> nat" where
  "windows_left s = length (windows (ps_start_ms s) (ps_window_start_ms s) (ps_window_end_ms s))"

text \<open>No cursor seen so far is of a page to come.\<close>

definition fresh :: "page_tokens \<Rightarrow> string list \<Rightarrow> pnl_state \<Rightarrow> nat \<Rightarrow> bool" where
  "fresh tok seen s off \<longleftrightarrow>
     (\<forall>a b o1. tok a b o1 \<in> set seen \<longrightarrow>
        a = ps_window_start_ms s \<and> b = ps_window_end_ms s \<and> o1 \<le> off \<or> ps_window_end_ms s < b)"

lemma items_served: "page_items (served_page tm ledger tok a b off cap) = take cap (drop off (rows_in tm ledger a b))"
proof -
  have "List.map_filter as_dict (map PDict rows) = rows" for rows
    by (induction rows) (simp_all add: List.map_filter_simps)
  then show ?thesis by (simp add: page_items_def served_page_def Let_def dict_get_def)
qed

lemma cursor_served:
  "next_page_cursor (served_page tm ledger tok a b off cap) =
     PStr (if off + cap < length (rows_in tm ledger a b) then tok a b (off + cap) else [])"
  by (simp add: next_page_cursor_def served_page_def Let_def dict_get_def)

lemma page_cursor_or: "tokens_unique tok \<Longrightarrow> py_or (page_cursor tok a b off) PNone = page_cursor tok a b off"
  by (simp add: py_or_def page_cursor_def tokens_unique_def)

text \<open>The step to the window before, and what is to come from there.\<close>

lemma previous_stands:
  assumes "newest_first tm ledger" "stands tm ledger tok symbol start stop s off"
  shows "closed_pnl_previous_window_state s = None \<Longrightarrow> rows_in tm ledger start (ps_window_start_ms s - 1) = []"
    and "closed_pnl_previous_window_state s = Some s' \<Longrightarrow>
      stands tm ledger tok symbol start stop s' 0 \<and> to_come tm ledger s' 0 = rows_in tm ledger start (ps_window_start_ms s - 1) \<and>
      windows_left s = Suc (windows_left s') \<and> ps_window_end_ms s' < ps_window_end_ms s"
proof -
  show "closed_pnl_previous_window_state s = None \<Longrightarrow> rows_in tm ledger start (ps_window_start_ms s - 1) = []"
    using assms(2) by (auto simp: closed_pnl_previous_window_state_def Let_def stands_def rows_in_def filter_empty_conv split: if_splits)
  assume "closed_pnl_previous_window_state s = Some s'"
  then have p: "\<not> ps_window_start_ms s - 1 < start"
    and s': "s' = s\<lparr>ps_end_ms := stop, ps_window_start_ms := max start (ps_window_start_ms s - 1 - MAX_WINDOW_MS),
        ps_window_end_ms := ps_window_start_ms s - 1, ps_cursor := PNone\<rparr>"
    using assms(2) by (auto simp: closed_pnl_previous_window_state_def Let_def stands_def split: if_splits)
  let ?ws = "max start (ps_window_start_ms s - 1 - MAX_WINDOW_MS)"
  have "rows_in tm ledger ?ws (ps_window_start_ms s - 1) @ rows_in tm ledger start (?ws - 1) =
      rows_in tm ledger start (ps_window_start_ms s - 1)"
    by (rule rows_in_split[OF assms(1)]) (use p in \<open>simp_all add: MAX_WINDOW_MS_def\<close>)
  then show "stands tm ledger tok symbol start stop s' 0 \<and> to_come tm ledger s' 0 = rows_in tm ledger start (ps_window_start_ms s - 1) \<and>
      windows_left s = Suc (windows_left s') \<and> ps_window_end_ms s' < ps_window_end_ms s"
    using p assms(2)
    by (simp add: s' stands_def to_come_def windows_left_def page_cursor_def MAX_WINDOW_MS_def
        windows.simps[of start "ps_window_start_ms s" "ps_window_end_ms s"])
qed

section \<open>One preload\<close>

text \<open>
  What a state promises of the rest: nothing is left after None; otherwise the state stands
  somewhere, with so many windows and such rows to come.
\<close>

definition promises ::
  "(pydict \<Rightarrow> int) \<Rightarrow> pydict list \<Rightarrow> page_tokens \<Rightarrow> pyval \<Rightarrow> int \<Rightarrow> int \<Rightarrow> string list \<Rightarrow>
   pnl_state option \<Rightarrow> nat \<Rightarrow> pydict list \<Rightarrow> bool" where
  "promises tm ledger tok symbol start stop seen so n r \<longleftrightarrow>
     (case so of
        None \<Rightarrow> n = 0 \<and> r = []
      | Some s \<Rightarrow> (\<exists>off. stands tm ledger tok symbol start stop s off \<and> fresh tok seen s off \<and>
          n = windows_left s \<and> r = to_come tm ledger s off))"

lemma fresh_next:
  assumes "tokens_unique tok" "fresh tok seen s off" "off \<le> off'"
    and "s' = s\<lparr>ps_cursor := c\<rparr>"
  shows "fresh tok (tok (ps_window_start_ms s) (ps_window_end_ms s) off' # seen) s' off'"
  unfolding fresh_def
proof (intro allI impI)
  fix a b o1
  assume "tok a b o1 \<in> set (tok (ps_window_start_ms s) (ps_window_end_ms s) off' # seen)"
  then consider "tok a b o1 = tok (ps_window_start_ms s) (ps_window_end_ms s) off'" | "tok a b o1 \<in> set seen" by auto
  then show "a = ps_window_start_ms s' \<and> b = ps_window_end_ms s' \<and> o1 \<le> off' \<or> ps_window_end_ms s' < b"
  proof cases
    case 1
    then have "a = ps_window_start_ms s \<and> b = ps_window_end_ms s \<and> o1 = off'"
      using assms(1) unfolding tokens_unique_def by blast
    then show ?thesis by (simp add: assms(4))
  next
    case 2
    then have "a = ps_window_start_ms s \<and> b = ps_window_end_ms s \<and> o1 \<le> off \<or> ps_window_end_ms s < b"
      using assms(2) unfolding fresh_def by blast
    then show ?thesis using assms(3,4) by auto
  qed
qed

lemma fresh_previous:
  assumes "fresh tok seen s off" "ps_window_end_ms s' < ps_window_end_ms s"
  shows "fresh tok seen s' 0"
  unfolding fresh_def
proof (intro allI impI)
  fix a b o1
  assume "tok a b o1 \<in> set seen"
  then have "b = ps_window_end_ms s \<or> ps_window_end_ms s < b" using assms(1) unfolding fresh_def by blast
  then show "a = ps_window_start_ms s' \<and> b = ps_window_end_ms s' \<and> o1 \<le> 0 \<or> ps_window_end_ms s' < b"
    using assms(2) by auto
qed

lemma drop_rest: "off + k < length xs \<Longrightarrow> take k (drop off xs) @ drop (off + k) xs = drop off xs"
  by (metis append_take_drop_id drop_drop add.commute)

lemma windows_left_pos: "0 < windows_left s"
  by (simp add: windows_left_def windows.simps[of "ps_start_ms s"])

lemma round_promises:
  assumes "serves tm ledger tok symbol rc" "newest_first tm ledger" "tokens_unique tok"
    and "stands tm ledger tok symbol start stop s off" "fresh tok (pg_seen p) s off"
    and "int (length (pg_rows p)) < limit"
  shows "\<exists>b q n r. page_round rep rc limit symbol s p = Some (b, q) \<and> int (length (pg_rows q)) \<le> limit \<and>
    (b \<longleftrightarrow> limit \<le> int (length (pg_rows q))) \<and> (\<not> b \<longrightarrow> pg_state q = pg_next q) \<and>
    promises tm ledger tok symbol start stop (pg_seen q) (pg_next q) n r \<and>
    pg_rows q @ r = pg_rows p @ to_come tm ledger s off \<and> n + length r < windows_left s + length (to_come tm ledger s off)"
proof -
  let ?a = "ps_window_start_ms s" and ?b = "ps_window_end_ms s"
  let ?h = "rows_in tm ledger ?a ?b" and ?older = "rows_in tm ledger start (?a - 1)"
  define cap where "cap = nat (min 100 (max 1 (limit - int (length (pg_rows p)))))"
  have cap: "1 \<le> cap" "cap \<le> 100" "int cap \<le> limit - int (length (pg_rows p))"
    using assms(6) by (simp_all add: cap_def)
  have rq: "page_request_of limit symbol p s = \<lparr>rq_symbol = symbol, rq_start_time = ?a, rq_end_time = ?b,
      rq_limit = int cap, rq_cursor = page_cursor tok ?a ?b off\<rparr>"
    using assms(4) by (simp add: page_request_of_def cap_def stands_def page_cursor_or[OF assms(3)])
  have answer: "rc (length (pg_requests p)) (page_request_of limit symbol p s) = Some (served_page tm ledger tok ?a ?b off cap)"
    using assms(1,4) cap(1,2) unfolding rq serves_def stands_def by blast
  let ?items = "take cap (drop off ?h)"
  have small: "int (length (pg_rows p @ ?items)) \<le> limit" using cap(3) by simp
  have all: "to_come tm ledger s off = drop off ?h @ ?older"
    using assms(4) by (simp add: to_come_def stands_def)
  show ?thesis
  proof (cases "off + cap < length ?h")
    case True
    let ?t = "tok ?a ?b (off + cap)"
    define s' where "s' = s\<lparr>ps_cursor := PStr ?t\<rparr>"
    have t: "?t \<noteq> []" using assms(3) unfolding tokens_unique_def by blast
    have "?t \<notin> set (pg_seen p)"
    proof
      assume "?t \<in> set (pg_seen p)"
      then have "off + cap \<le> off \<or> ?b < ?b" using assms(5) unfolding fresh_def by blast
      then show False using cap(1) by simp
    qed
    then have new: "PStr ?t \<notin> PStr ` set (pg_seen p)" by auto
    have stands': "stands tm ledger tok symbol start stop s' (off + cap)"
      using assms(4) True cap(1) by (simp add: s'_def stands_def page_cursor_def)
    have fresh': "fresh tok (?t # pg_seen p) s' (off + cap)"
      by (rule fresh_next[OF assms(3,5) _ s'_def]) simp
    have come: "to_come tm ledger s' (off + cap) = drop (off + cap) ?h @ ?older" "windows_left s' = windows_left s"
      using assms(4) by (simp_all add: s'_def to_come_def windows_left_def stands_def)
    have p': "promises tm ledger tok symbol start stop (?t # pg_seen p) (Some s') (windows_left s) (to_come tm ledger s' (off + cap))"
      using stands' fresh' come(2) by (auto simp: promises_def)
    have len: "length (to_come tm ledger s' (off + cap)) < length (to_come tm ledger s off)"
      using True cap(1) by (simp add: come all)
    have rows: "(pg_rows p @ ?items) @ to_come tm ledger s' (off + cap) = pg_rows p @ to_come tm ledger s off"
      using drop_rest[OF True] by (simp add: come all)
    show ?thesis
      using t new p' len rows small
      by (auto simp: page_round_def answer items_served cursor_served True py_str_def hashable_def s'_def[symmetric] Let_def
          intro!: exI[of _ "windows_left s"] exI[of _ "to_come tm ledger s' (off + cap)"])
  next
    case False
    have items: "?items = drop off ?h" using False by simp
    let ?prev = "closed_pnl_previous_window_state s"
    obtain n r where p': "promises tm ledger tok symbol start stop (pg_seen p) ?prev n r" "r = ?older" "n < windows_left s"
    proof (cases ?prev)
      case None
      then show ?thesis
        using that[of 0 "[]"] previous_stands(1)[OF assms(2,4)] windows_left_pos[of s] by (simp add: promises_def)
    next
      case (Some s')
      note prev = previous_stands(2)[OF assms(2,4) Some]
      then have "promises tm ledger tok symbol start stop (pg_seen p) ?prev (windows_left s') (to_come tm ledger s' 0)"
        unfolding promises_def Some option.case
        by (intro exI[of _ "0::nat"]) (simp add: fresh_previous[OF assms(5), of s'])
      then show ?thesis by (rule that) (simp_all add: prev)
    qed
    show ?thesis
      using p' small items
      by (auto simp: page_round_def answer items_served cursor_served False all Let_def intro!: exI[of _ n] exI[of _ r])
  qed
qed

lemma loop_promises:
  assumes "serves tm ledger tok symbol rc" "newest_first tm ledger" "tokens_unique tok"
  shows "promises tm ledger tok symbol start stop (pg_seen p) (pg_state p) n r \<Longrightarrow>
    pg_state p \<noteq> None \<longrightarrow> int (length (pg_rows p)) < limit \<Longrightarrow> int (length (pg_rows p)) \<le> limit \<Longrightarrow>
    pg_state p = None \<longrightarrow> pg_next p = None \<Longrightarrow>
    \<exists>q n' r'. page_loop rep rc limit symbol p = Some q \<and> int (length (pg_rows q)) \<le> limit \<and>
      promises tm ledger tok symbol start stop (pg_seen q) (resume_state limit q) n' r' \<and>
      pg_rows q @ r' = pg_rows p @ r \<and> n' + length r' \<le> n + length r \<and>
      (pg_state p \<noteq> None \<and> length (pg_requests p) < MAX_WINDOWS_PER_PRELOAD \<longrightarrow> n' + length r' < n + length r)"
  using assms(1)
proof (induction rep rc limit symbol p arbitrary: n r rule: page_loop.induct)
  case (1 rep rc limit symbol p)
  show ?case
  proof (cases "pg_state p")
    case None
    then show ?thesis using "1.prems" by (auto simp: page_loop.simps[of rep rc limit symbol p] resume_state_def intro!: exI[of _ n])
  next
    case (Some s)
    then have rows: "int (length (pg_rows p)) < limit" using "1.prems" by simp
    obtain off where off: "stands tm ledger tok symbol start stop s off" "fresh tok (pg_seen p) s off"
        "n = windows_left s" "r = to_come tm ledger s off"
      using "1.prems"(1) by (auto simp: promises_def Some)
    show ?thesis
    proof (cases "length (pg_requests p) < MAX_WINDOWS_PER_PRELOAD")
      case False
      then show ?thesis
        using "1.prems"(1) rows Some by (auto simp: page_loop.simps[of rep rc limit symbol p] resume_state_def)
    next
      case True
      obtain b q n1 r1 where q: "page_round rep rc limit symbol s p = Some (b, q)" "int (length (pg_rows q)) \<le> limit"
          "b \<longleftrightarrow> limit \<le> int (length (pg_rows q))" "\<not> b \<longrightarrow> pg_state q = pg_next q"
          "promises tm ledger tok symbol start stop (pg_seen q) (pg_next q) n1 r1"
          "pg_rows q @ r1 = pg_rows p @ r" "n1 + length r1 < n + length r"
        using round_promises[OF "1.prems"(5) assms(2,3) off(1,2) rows] unfolding off(3,4) by blast
      show ?thesis
      proof (cases b)
        case True
        then have "page_loop rep rc limit symbol p = Some q" "resume_state limit q = pg_next q"
          using q(1,3) Some rows \<open>length (pg_requests p) < MAX_WINDOWS_PER_PRELOAD\<close>
          by (simp_all add: page_loop.simps[of rep rc limit symbol p] resume_state_def)
        then show ?thesis
          using q(2,5-7) by (intro exI[of _ q] exI[of _ n1] exI[of _ r1]) simp
      next
        case False
        with q have same: "pg_state q = pg_next q" and room: "int (length (pg_rows q)) < limit" by simp_all
        obtain q' n' r' where "page_loop rep rc limit symbol q = Some q'" "int (length (pg_rows q')) \<le> limit"
            "promises tm ledger tok symbol start stop (pg_seen q') (resume_state limit q') n' r'"
            "pg_rows q' @ r' = pg_rows q @ r1" "n' + length r' \<le> n1 + length r1"
          using "1.IH"[OF Some _ q(1) refl _ , of n1 r1] "1.prems"(5) q(2,5) same room rows True False by auto
        moreover from this have "page_loop rep rc limit symbol p = Some q'"
          using q(1) Some rows True False by (simp add: page_loop.simps[of rep rc limit symbol p])
        ultimately show ?thesis
          using q(6,7) by (intro exI[of _ q'] exI[of _ n'] exI[of _ r']) simp
      qed
    qed
  qed
qed

section \<open>The preloads of a client\<close>

text \<open>A client asks for page after page with the cursor of the last answer, until there is none; None: out of fuel.\<close>

fun drain ::
  "nat \<Rightarrow> json_codec \<Rightarrow> (pyval \<Rightarrow> string) \<Rightarrow> exchange \<Rightarrow> int \<Rightarrow> pyval \<Rightarrow> int \<Rightarrow> int \<Rightarrow> string option \<Rightarrow>
   pydict list option" where
  "drain 0 j rep rc limit symbol start stop cursor = None"
| "drain (Suc fuel) j rep rc limit symbol start stop cursor =
     (case fetch_closed_pnl_bybit_history_page j rep rc limit cursor symbol start stop of
        Inl e \<Rightarrow> None
      | Inr (rows, None) \<Rightarrow> Some rows
      | Inr (rows, Some c) \<Rightarrow> map_option ((@) rows) (drain fuel j rep rc limit symbol start stop (Some c)))"

lemma cursor_state:
  assumes "json_law j" "stands tm ledger tok symbol start stop s off" "tokens_unique tok"
  shows "closed_pnl_bybit_state_with_cursor j (Some (closed_pnl_encode_cursor j (state_dict s))) start' stop' symbol = Inr s"
proof -
  have plain: "plain_dict (state_dict s)"
    using assms(2) by (simp add: plain_dict_def state_dict_def stands_def page_cursor_def) (auto simp: plain_symbol_def)
  let ?d = "sort_keys (AList.update ''v'' (PInt CURSOR_VERSION) (state_dict s))"
  have get: "dict_get ?d k PNone = (if k = ''v'' then PInt CURSOR_VERSION else dict_get (state_dict s) k PNone)" for k
    using plain by (simp add: dict_get_def sort_keys_get distinct_update plain_dict_def pd.get_put)
  have pos: "ps_start_ms s \<noteq> 0" "ps_end_ms s \<noteq> 0" "ps_window_start_ms s \<noteq> 0" "ps_window_end_ms s \<noteq> 0"
    using assms(2) by (simp_all add: stands_def)
  have c: "py_or (ps_cursor s) PNone = ps_cursor s" "py_or (ps_symbol s) symbol = ps_symbol s"
    using assms(2) page_cursor_or[OF assms(3)] by (simp_all add: stands_def py_or_def)
  show ?thesis
    by (simp add: closed_pnl_bybit_state_with_cursor_def cursor_roundtrip[OF assms(1) plain] get)
      (simp add: state_dict_def dict_get_def to_int_def py_or_def pos c[unfolded py_or_def])
qed

lemma initial_cursor:
  "closed_pnl_bybit_state_with_cursor j None start stop symbol = Inr (closed_pnl_initial_bybit_state start stop symbol)"
  by (simp add: closed_pnl_bybit_state_with_cursor_def closed_pnl_decode_cursor_def dict_get_def)

lemma initial_stands:
  assumes "0 < start" "start \<le> stop" "plain_symbol symbol"
  shows "stands tm ledger tok symbol start stop (closed_pnl_initial_bybit_state start stop symbol) 0"
  using assms by (simp add: stands_def closed_pnl_initial_bybit_state_def page_cursor_def MAX_WINDOW_MS_def)

lemma start_fresh:
  assumes "tokens_unique tok" "stands tm ledger tok symbol start stop s off"
  shows "fresh tok (pg_seen (start_paging rep s)) s off"
proof (cases "off = 0")
  case True
  then show ?thesis using assms(2) by (simp add: fresh_def start_paging_def stands_def page_cursor_def)
next
  case False
  have "fresh tok [] s off" by (simp add: fresh_def)
  from fresh_next[OF assms(1) this order_refl, of s "ps_cursor s"]
  have "fresh tok [tok (ps_window_start_ms s) (ps_window_end_ms s) off] s off" by simp
  moreover have "tok (ps_window_start_ms s) (ps_window_end_ms s) off \<noteq> []"
    using assms(1) unfolding tokens_unique_def by blast
  ultimately show ?thesis
    using False assms(2) by (simp add: start_paging_def stands_def page_cursor_def py_str_def)
qed

lemma fetch_promises:
  assumes "serves tm ledger tok symbol rc" "newest_first tm ledger" "tokens_unique tok" "1 \<le> limit"
    and "closed_pnl_bybit_state_with_cursor j cursor start stop symbol = Inr s"
    and "stands tm ledger tok symbol start stop s off"
  shows "\<exists>rows so r. fetch_closed_pnl_bybit_history_page j rep rc limit cursor symbol start stop =
       Inr (rows, map_option (\<lambda>s. closed_pnl_encode_cursor j (state_dict s)) so) \<and>
     rows @ r = to_come tm ledger s off \<and> (so = None \<longrightarrow> r = []) \<and>
     (\<forall>s'. so = Some s' \<longrightarrow> (\<exists>off'. stands tm ledger tok symbol start stop s' off' \<and> r = to_come tm ledger s' off' \<and>
       windows_left s' + length r < windows_left s + length (to_come tm ledger s off)))"
proof -
  let ?p = "start_paging rep s"
  have "promises tm ledger tok symbol start stop (pg_seen ?p) (pg_state ?p) (windows_left s) (to_come tm ledger s off)"
    using assms(6) start_fresh[OF assms(3,6)] by (auto simp: promises_def start_paging_def)
  then obtain q n r where q: "page_loop rep rc limit symbol ?p = Some q" "int (length (pg_rows q)) \<le> limit"
      "promises tm ledger tok symbol start stop (pg_seen q) (resume_state limit q) n r"
      "pg_rows q @ r = to_come tm ledger s off" "n + length r < windows_left s + length (to_come tm ledger s off)"
    using loop_promises[OF assms(1-3), of start stop ?p "windows_left s" "to_come tm ledger s off" limit rep] assms(4)
    by (auto simp: start_paging_def MAX_WINDOWS_PER_PRELOAD_def)
  have fetch: "fetch_closed_pnl_bybit_history_page j rep rc limit cursor symbol start stop =
      Inr (pg_rows q, map_option (\<lambda>s. closed_pnl_encode_cursor j (state_dict s)) (resume_state limit q))"
    using q(1,2) by (simp add: fetch_closed_pnl_bybit_history_page_def assms(5) page_result_def)
  show ?thesis
    using q(3,5) by (intro exI[of _ "pg_rows q"] exI[of _ "resume_state limit q"] exI[of _ r] conjI fetch q(4))
      (auto simp: promises_def split: option.splits)
qed

lemma drain_complete:
  assumes "serves tm ledger tok symbol rc" "newest_first tm ledger" "tokens_unique tok" "1 \<le> limit" "json_law j"
  shows "closed_pnl_bybit_state_with_cursor j cursor start stop symbol = Inr s \<Longrightarrow>
    stands tm ledger tok symbol start stop s off \<Longrightarrow> windows_left s + length (to_come tm ledger s off) \<le> fuel \<Longrightarrow>
    drain fuel j rep rc limit symbol start stop cursor = Some (to_come tm ledger s off)"
proof (induction fuel arbitrary: cursor s off)
  case 0
  then show ?case using windows_left_pos[of s] by simp
next
  case (Suc fuel)
  obtain rows so r where f:
      "fetch_closed_pnl_bybit_history_page j rep rc limit cursor symbol start stop =
         Inr (rows, map_option (\<lambda>s. closed_pnl_encode_cursor j (state_dict s)) so)"
      "rows @ r = to_come tm ledger s off" "so = None \<longrightarrow> r = []"
      "\<forall>s'. so = Some s' \<longrightarrow> (\<exists>off'. stands tm ledger tok symbol start stop s' off' \<and> r = to_come tm ledger s' off' \<and>
         windows_left s' + length r < windows_left s + length (to_come tm ledger s off))"
    using fetch_promises[OF assms(1-4) Suc.prems(1,2), of rep] by blast
  show ?case
  proof (cases so)
    case None
    then show ?thesis using f by simp
  next
    case (Some s')
    then obtain off' where next': "stands tm ledger tok symbol start stop s' off'" "r = to_come tm ledger s' off'"
        "windows_left s' + length r < windows_left s + length (to_come tm ledger s off)"
      using f(4) by blast
    have "drain fuel j rep rc limit symbol start stop (Some (closed_pnl_encode_cursor j (state_dict s'))) = Some r"
      unfolding next'(2)
      by (rule Suc.IH[OF cursor_state[OF assms(5) next'(1) assms(3)] next'(1)]) (use next' Suc.prems(3) in simp)
    then show ?thesis using f(1,2) Some by simp
  qed
qed

section \<open>What the loop asks of the exchange\<close>

definition window_ok :: "int \<Rightarrow> int \<Rightarrow> pnl_state \<Rightarrow> bool" where
  "window_ok start stop s \<longleftrightarrow> ps_start_ms s = start \<and> start \<le> ps_window_start_ms s \<and>
     ps_window_start_ms s \<le> ps_window_end_ms s \<and> ps_window_end_ms s \<le> stop \<and>
     ps_window_end_ms s - ps_window_start_ms s \<le> MAX_WINDOW_MS"

definition request_ok :: "int \<Rightarrow> int \<Rightarrow> page_request \<Rightarrow> bool" where
  "request_ok start stop rq \<longleftrightarrow> 1 \<le> rq_limit rq \<and> rq_limit rq \<le> 100 \<and> start \<le> rq_start_time rq \<and>
     rq_start_time rq \<le> rq_end_time rq \<and> rq_end_time rq \<le> stop \<and> rq_end_time rq - rq_start_time rq \<le> MAX_WINDOW_MS"

lemma request_of_ok: "window_ok start stop s \<Longrightarrow> request_ok start stop (page_request_of limit symbol p s)"
  by (simp add: request_ok_def window_ok_def page_request_of_def)

lemma previous_ok: "window_ok start stop s \<Longrightarrow> closed_pnl_previous_window_state s = Some s' \<Longrightarrow> window_ok start stop s'"
  by (auto simp: window_ok_def closed_pnl_previous_window_state_def Let_def MAX_WINDOW_MS_def max_def split: if_splits)

text \<open>What one round keeps, the loop keeps.\<close>

lemma loop_keeps:
  assumes "\<And>p s b q. Q p \<Longrightarrow> pg_state p = Some s \<Longrightarrow> length (pg_requests p) < MAX_WINDOWS_PER_PRELOAD \<Longrightarrow>
    page_round rep rc limit symbol s p = Some (b, q) \<Longrightarrow> Q q"
  shows "page_loop rep rc limit symbol p = Some q \<Longrightarrow> Q p \<Longrightarrow> Q q"
  using assms
proof (induction rep rc limit symbol p rule: page_loop.induct)
  case (1 rep rc limit symbol p)
  show ?case
  proof (cases "\<exists>s. pg_state p = Some s \<and> int (length (pg_rows p)) < limit \<and> length (pg_requests p) < MAX_WINDOWS_PER_PRELOAD")
    case False
    then have "q = p" using "1.prems"(1) by (auto simp: page_loop.simps[of rep rc limit symbol p] split: option.splits if_splits)
    then show ?thesis using "1.prems"(2) by simp
  next
    case True
    then obtain s where s: "pg_state p = Some s" "int (length (pg_rows p)) < limit \<and> length (pg_requests p) < MAX_WINDOWS_PER_PRELOAD"
      by blast
    then obtain b q1 where r: "page_round rep rc limit symbol s p = Some (b, q1)"
        "if b then q = q1 else page_loop rep rc limit symbol q1 = Some q"
      using "1.prems"(1) by (auto simp: page_loop.simps[of rep rc limit symbol p] split: option.splits if_splits)
    have new: "Q q1" using "1.prems"(3)[OF "1.prems"(2) s(1) _ r(1)] s(2) by blast
    show ?thesis
    proof (cases b)
      case True
      then show ?thesis using r(2) new by simp
    next
      case False
      then show ?thesis
        using "1.IH"[OF s(1,2) r(1) refl False _ new "1.prems"(3)] r(2) by simp
    qed
  qed
qed

lemma loop_counts:
  assumes "page_loop rep rc limit symbol (start_paging rep s) = Some q"
  shows "length (pg_requests q) \<le> MAX_WINDOWS_PER_PRELOAD \<and> (\<forall>rq \<in> set (pg_requests q). 1 \<le> rq_limit rq \<and> rq_limit rq \<le> 100)"
  by (rule loop_keeps[OF _ assms, where Q = "\<lambda>p. length (pg_requests p) \<le> MAX_WINDOWS_PER_PRELOAD \<and>
      (\<forall>rq \<in> set (pg_requests p). 1 \<le> rq_limit rq \<and> rq_limit rq \<le> 100)"])
    (auto simp: start_paging_def page_round_requests page_request_of_def)

text \<open>A state that a cursor can carry, and its cursor: what is read is the same window again.\<close>

definition carried :: "int \<Rightarrow> int \<Rightarrow> pnl_state \<Rightarrow> bool" where
  "carried start stop s \<longleftrightarrow> window_ok start stop s \<and> ps_end_ms s = stop \<and> plain_symbol (ps_cursor s) \<and> plain_symbol (ps_symbol s)"

lemma initial_carried:
  "start \<le> stop \<Longrightarrow> plain_symbol symbol \<Longrightarrow> carried start stop (closed_pnl_initial_bybit_state start stop symbol)"
  by (simp add: carried_def window_ok_def closed_pnl_initial_bybit_state_def MAX_WINDOW_MS_def plain_symbol_def)

lemma previous_carried:
  assumes "0 < start" "carried start stop s" "closed_pnl_previous_window_state s = Some s'"
  shows "carried start stop s'"
proof -
  have "ps_end_ms s \<noteq> 0" using assms(1,2) by (simp add: carried_def window_ok_def)
  then have "s' = s\<lparr>ps_window_start_ms := max (ps_start_ms s) (ps_window_start_ms s - 1 - MAX_WINDOW_MS),
      ps_window_end_ms := ps_window_start_ms s - 1, ps_cursor := PNone\<rparr>"
    using assms(3) by (auto simp: closed_pnl_previous_window_state_def Let_def split: if_splits)
  moreover have "window_ok start stop s'" using previous_ok[OF _ assms(3)] assms(2) by (simp add: carried_def)
  ultimately show ?thesis using assms(2) by (simp add: carried_def plain_symbol_def)
qed

lemma loop_carried:
  assumes "0 < start" "carried start stop s" "page_loop rep rc limit symbol (start_paging rep s) = Some q"
  shows "(\<forall>s'. pg_state q = Some s' \<or> pg_next q = Some s' \<longrightarrow> carried start stop s') \<and> list_all (request_ok start stop) (pg_requests q)"
proof (rule loop_keeps[OF _ assms(3), where Q = "\<lambda>p. (\<forall>s'. pg_state p = Some s' \<or> pg_next p = Some s' \<longrightarrow> carried start stop s') \<and>
    list_all (request_ok start stop) (pg_requests p)"])
  fix p s b q
  assume p: "(\<forall>s'. pg_state p = Some s' \<or> pg_next p = Some s' \<longrightarrow> carried start stop s') \<and> list_all (request_ok start stop) (pg_requests p)"
    and s: "pg_state p = Some s" and r: "page_round rep rc limit symbol s p = Some (b, q)"
  have ok: "carried start stop s" using p s by blast
  have "carried start stop s'" if of_q: "pg_state q = Some s' \<or> pg_next q = Some s'" for s'
  proof -
    consider "s' = s" | c where "s' = s\<lparr>ps_cursor := PStr c\<rparr>" | "closed_pnl_previous_window_state s = Some s'" | "pg_next p = Some s'"
      using r s of_q by (auto simp: page_round_def Let_def split: option.splits if_splits)
    then show ?thesis
    proof cases
      case 3
      then show ?thesis by (rule previous_carried[OF assms(1) ok])
    qed (use ok p in \<open>auto simp: carried_def window_ok_def plain_symbol_def\<close>)
  qed
  moreover have "list_all (request_ok start stop) (pg_requests q)"
    using p ok request_of_ok[of start stop s limit symbol p] by (simp add: page_round_requests[OF r] carried_def)
  ultimately show "(\<forall>s'. pg_state q = Some s' \<or> pg_next q = Some s' \<longrightarrow> carried start stop s') \<and> list_all (request_ok start stop) (pg_requests q)"
    by blast
qed (use assms(2) in \<open>simp add: start_paging_def\<close>)

lemma carried_cursor:
  assumes "json_law j" "0 < start" "start \<le> stop" "carried start stop s" "plain_symbol symbol"
    and "closed_pnl_bybit_state_with_cursor j (Some (closed_pnl_encode_cursor j (state_dict s))) start' stop' symbol = Inr s'"
  shows "carried start stop s'"
proof -
  have plain: "plain_dict (state_dict s)"
    using assms(4) by (auto simp: plain_dict_def state_dict_def carried_def plain_symbol_def)
  let ?d = "sort_keys (AList.update ''v'' (PInt CURSOR_VERSION) (state_dict s))"
  have get: "dict_get ?d k PNone = (if k = ''v'' then PInt CURSOR_VERSION else dict_get (state_dict s) k PNone)" for k
    using plain by (simp add: dict_get_def sort_keys_get distinct_update plain_dict_def pd.get_put)
  have pos: "ps_start_ms s \<noteq> 0" "ps_end_ms s \<noteq> 0" "ps_window_start_ms s \<noteq> 0" "ps_window_end_ms s \<noteq> 0"
    using assms(2,3,4) by (auto simp: carried_def window_ok_def)
  have "closed_pnl_bybit_state_with_cursor j (Some (closed_pnl_encode_cursor j (state_dict s))) start' stop' symbol =
      Inr (s\<lparr>ps_cursor := py_or (ps_cursor s) PNone, ps_symbol := py_or (ps_symbol s) symbol\<rparr>)"
    by (simp add: closed_pnl_bybit_state_with_cursor_def cursor_roundtrip[OF assms(1) plain] get)
      (simp add: state_dict_def dict_get_def to_int_def py_or_def pos)
  then have "s' = s\<lparr>ps_cursor := py_or (ps_cursor s) PNone, ps_symbol := py_or (ps_symbol s) symbol\<rparr>"
    using assms(6) by simp
  then show ?thesis using assms(4,5) by (auto simp: carried_def window_ok_def plain_symbol_def py_or_def)
qed

text \<open>A cursor that names the exchange and nothing else: one window, the whole range.\<close>

lemma bare_cursor_state:
  assumes "json_law j" "plain_dict d" "dict_get d ''source'' PNone = PStr ''bybit''" "\<And>k. k \<noteq> ''source'' \<Longrightarrow> dict_get d k PNone = PNone"
  shows "closed_pnl_bybit_state_with_cursor j (Some (closed_pnl_encode_cursor j d)) start stop PNone =
    Inr \<lparr>ps_start_ms = start, ps_end_ms = stop, ps_window_start_ms = start, ps_window_end_ms = stop, ps_cursor = PNone, ps_symbol = PNone\<rparr>"
proof -
  have get: "dict_get (sort_keys (AList.update ''v'' (PInt CURSOR_VERSION) d)) k PNone = (if k = ''v'' then PInt CURSOR_VERSION else dict_get d k PNone)" for k
    using assms(2) by (simp add: dict_get_def sort_keys_get distinct_update plain_dict_def pd.get_put)
  show ?thesis
    by (simp add: closed_pnl_bybit_state_with_cursor_def cursor_roundtrip[OF assms(1,2)] get assms(3,4))
      (simp add: to_int_def py_or_def)
qed

text \<open>The cursors a client can hold for a range: none, or one that a preload of the range has given it.\<close>

inductive cursor_given :: "json_codec \<Rightarrow> (pyval \<Rightarrow> string) \<Rightarrow> pyval \<Rightarrow> int \<Rightarrow> int \<Rightarrow> string option \<Rightarrow> bool"
  for j rep symbol start stop where
  no_cursor: "cursor_given j rep symbol start stop None"
| next_cursor: "cursor_given j rep symbol start stop cursor \<Longrightarrow>
    fetch_closed_pnl_bybit_history_page j rep rc limit cursor symbol start stop = Inr (rows, next) \<Longrightarrow>
    cursor_given j rep symbol start stop next"

lemma given_carried:
  assumes "json_law j" "0 < start" "start \<le> stop" "plain_symbol symbol" "cursor_given j rep symbol start stop cursor"
    and "closed_pnl_bybit_state_with_cursor j cursor start stop symbol = Inr s"
  shows "carried start stop s"
  using assms(5,6)
proof (induction arbitrary: s)
  case no_cursor
  then show ?case using initial_carried[OF assms(3,4)] by (simp add: initial_cursor)
next
  case (next_cursor cursor rc limit rows "next")
  obtain s0 where s0: "closed_pnl_bybit_state_with_cursor j cursor start stop symbol = Inr s0"
    using next_cursor.hyps(2) by (auto simp: fetch_closed_pnl_bybit_history_page_def split: sum.splits)
  obtain p where p: "page_loop rep rc limit symbol (start_paging rep s0) = Some p" "page_result j limit p = (rows, next)"
    using next_cursor.hyps(2) by (auto simp: fetch_closed_pnl_bybit_history_page_def s0 split: option.splits)
  note ok = loop_carried[OF assms(2) next_cursor.IH[OF s0] p(1)]
  show ?case
  proof (cases "resume_state limit p")
    case None
    then have "next = None" using p(2) by (simp add: page_result_def)
    then show ?thesis using next_cursor.prems initial_carried[OF assms(3,4)] by (simp add: initial_cursor)
  next
    case (Some s1)
    then have "carried start stop s1" using ok by (auto simp: resume_state_def split: if_splits)
    moreover have "next = Some (closed_pnl_encode_cursor j (state_dict s1))" using p(2) Some by (simp add: page_result_def)
    ultimately show ?thesis using carried_cursor[OF assms(1-3) _ assms(4)] next_cursor.prems by blast
  qed
qed

section \<open>A codec, an exchange and a ledger\<close>

instance pyfloat :: countable by countable_datatype
instance pyval :: countable by countable_datatype

definition demo_json :: json_codec where
  "demo_json = \<lparr>dumps = \<lambda>d. nat_str (to_nat d), loads = \<lambda>s. Some (PDict (from_nat (str_nat s)))\<rparr>"

lemma nat_str_ascii: "is_ascii (nat_str n)"
proof (induction n rule: nat_str.induct)
  case (1 n)
  have "byte (digit n) < 128" by (simp add: digit_def)
  with 1 show ?case by (simp add: nat_str.simps[of n] is_ascii_def)
qed

lemma demo_json_law: "json_law demo_json"
  by (simp add: json_law_def demo_json_def str_nat_nat_str nat_str_ascii nat_str_nonempty)

definition demo_tokens :: page_tokens where
  "demo_tokens a b n = nat_str (to_nat (a, b, n))"

lemma demo_tokens_read: "from_nat (str_nat (demo_tokens a b n)) = (a, b, n)"
  by (simp add: demo_tokens_def str_nat_nat_str)

lemma demo_tokens_unique: "tokens_unique demo_tokens"
  unfolding tokens_unique_def
  by (metis demo_tokens_read demo_tokens_def nat_str_nonempty prod.inject)

definition demo_exchange :: "(pydict \<Rightarrow> int) \<Rightarrow> pydict list \<Rightarrow> exchange" where
  "demo_exchange tm ledger k rq =
     Some (served_page tm ledger demo_tokens (rq_start_time rq) (rq_end_time rq)
       (case rq_cursor rq of PStr t \<Rightarrow> (case from_nat (str_nat t) :: int \<times> int \<times> nat of (_, _, n) \<Rightarrow> n) | _ \<Rightarrow> 0)
       (nat (rq_limit rq)))"

lemma demo_serves: "serves tm ledger demo_tokens symbol (demo_exchange tm ledger)"
  by (simp add: serves_def demo_exchange_def page_cursor_def demo_tokens_read)

definition updated_time :: "pydict \<Rightarrow> int" where
  "updated_time r = (case dict_get r ''updatedTime'' PNone of PInt t \<Rightarrow> t | _ \<Rightarrow> 0)"

definition demo_ledger :: "pydict list" where
  "demo_ledger = map (\<lambda>t. [(''updatedTime'', PInt t)]) [2000000000, 1900000000, 1000000000, 500000000]"

section \<open>The properties of the paging\<close>

text \<open>C15: Paging through the closed positions ends and loses nothing. Against an exchange that serves a ledger page by
  page under cursors that are never the same for two places of the ledger, a client that keeps asking with the cursor of the last answer gets, after at most as many preloads as
  there are windows and records, an answer without a cursor, and the answers together are the records of the whole
  range, the newest first, each once: across pages, across windows of seven days, and across the cursors.\<close>

theorem closed_pnl_paging_complete:
  assumes "serves tm ledger tok symbol rc" "newest_first tm ledger" "tokens_unique tok" "json_law j"
    and "1 \<le> limit" "0 < start" "start \<le> stop" "plain_symbol symbol"
    and "windows_left (closed_pnl_initial_bybit_state start stop symbol) + length (rows_in tm ledger start stop) \<le> fuel"
  shows "drain fuel j rep rc limit symbol start stop None = Some (rows_in tm ledger start stop)"
proof -
  let ?s = "closed_pnl_initial_bybit_state start stop symbol"
  have "to_come tm ledger ?s 0 = rows_in tm ledger start stop"
    using rows_in_split[OF assms(2), of start "max start (stop - MAX_WINDOW_MS)" stop] assms(7)
    by (simp add: to_come_def closed_pnl_initial_bybit_state_def MAX_WINDOW_MS_def)
  then show ?thesis
    using drain_complete[OF assms(1-3,5,4) initial_cursor initial_stands[OF assms(6-8)]] assms(9) by simp
qed

theorem closed_pnl_paging_complete_witness:
  "drain 8 demo_json (\<lambda>v. []) (demo_exchange updated_time demo_ledger) 1 PNone 600000000 2000000000 None =
     Some (take 3 demo_ledger)"
proof -
  have "newest_first updated_time demo_ledger"
    by (simp add: newest_first_def demo_ledger_def updated_time_def dict_get_def)
  moreover have rows: "rows_in updated_time demo_ledger 600000000 2000000000 = take 3 demo_ledger"
    by (simp add: rows_in_def demo_ledger_def updated_time_def dict_get_def numeral_3_eq_3)
  moreover have "windows_left (closed_pnl_initial_bybit_state 600000000 2000000000 PNone) + length (take 3 demo_ledger) \<le> 8"
    by (simp add: windows_left_def closed_pnl_initial_bybit_state_def MAX_WINDOW_MS_def windows.simps demo_ledger_def)
  ultimately show ?thesis
    using closed_pnl_paging_complete[OF demo_serves _ demo_tokens_unique demo_json_law, of updated_time demo_ledger 1 600000000 2000000000 PNone 8 "\<lambda>v. []"]
    by (simp add: plain_symbol_def)
qed

text \<open>C24: Whatever the exchange answers and whatever cursor the preload starts from, one preload asks the exchange at most
  eight times, and every request is for one to a hundred rows. Without a cursor, and with any cursor that
  a preload of the same range has given, every window asked for is at most seven days long and inside the range. A cursor
  made up by the caller has no such bound: its window fields are taken as they are, and where they are missing the whole
  range is asked for at once.\<close>

theorem closed_pnl_requests_bounded:
  assumes "closed_pnl_bybit_state_with_cursor j cursor start stop symbol = Inr s"
    and "page_loop rep rc limit symbol (start_paging rep s) = Some p"
  shows "length (pg_requests p) \<le> 8 \<and> (\<forall>rq \<in> set (pg_requests p). 1 \<le> rq_limit rq \<and> rq_limit rq \<le> 100) \<and>
    (json_law j \<and> 0 < start \<and> start \<le> stop \<and> plain_symbol symbol \<and> cursor_given j rep symbol start stop cursor \<longrightarrow>
      (\<forall>rq \<in> set (pg_requests p). start \<le> rq_start_time rq \<and> rq_start_time rq \<le> rq_end_time rq \<and>
         rq_end_time rq \<le> stop \<and> rq_end_time rq - rq_start_time rq \<le> 604800000))"
proof -
  have "list_all (request_ok start stop) (pg_requests p)"
    if "json_law j \<and> 0 < start \<and> start \<le> stop \<and> plain_symbol symbol \<and> cursor_given j rep symbol start stop cursor"
    using loop_carried[OF _ given_carried[OF _ _ _ _ _ assms(1)] assms(2)] that by blast
  then show ?thesis
    using loop_counts[OF assms(2)] by (simp add: MAX_WINDOWS_PER_PRELOAD_def list_all_iff request_ok_def MAX_WINDOW_MS_def)
qed

theorem closed_pnl_requests_bounded_witness:
  "\<exists>p. page_loop (\<lambda>v. []) (\<lambda>k rq. Some (PDict [])) 50 PNone (start_paging (\<lambda>v. []) (closed_pnl_initial_bybit_state 1 9000000000 PNone)) = Some p \<and>
     length (pg_requests p) = 8 \<and> (\<forall>rq \<in> set (pg_requests p). rq_end_time rq - rq_start_time rq \<le> 604800000)"
proof -
  obtain p where p: "page_loop (\<lambda>v. []) (\<lambda>k rq. Some (PDict [])) 50 PNone (start_paging (\<lambda>v. []) (closed_pnl_initial_bybit_state 1 9000000000 PNone)) = Some p"
      "length (pg_requests p) = 8"
    by (simp add: page_loop.simps page_round_def page_items_def next_page_cursor_def closed_pnl_previous_window_state_def
        closed_pnl_initial_bybit_state_def start_paging_def page_request_of_def dict_get_def Let_def
        MAX_WINDOW_MS_def MAX_WINDOWS_PER_PRELOAD_def)
  have "cursor_given demo_json (\<lambda>v. []) PNone 1 9000000000 None" by (rule no_cursor)
  then show ?thesis
    using closed_pnl_requests_bounded[OF initial_cursor p(1), of demo_json] demo_json_law p by (simp add: plain_symbol_def)
qed

text \<open>C23: A cursor gives its payload back: what \<open>_closed_pnl_decode_cursor\<close> reads from the text of
  \<open>_closed_pnl_encode_cursor\<close> (base64 without padding, of JSON with sorted keys) has the same entry under every key, and
  the version under \<open>v\<close>.\<close>

theorem closed_pnl_cursor_roundtrip:
  assumes "json_law j" "plain_dict d"
  shows "\<exists>d'. closed_pnl_decode_cursor j (Some (closed_pnl_encode_cursor j d)) = Inr d' \<and>
    (\<forall>k. map_of d' k = (if k = ''v'' then Some (PInt 1) else map_of d k))"
  using cursor_roundtrip[OF assms] assms(2)
  by (simp add: sort_keys_get distinct_update plain_dict_def pd.get_put CURSOR_VERSION_def)

theorem closed_pnl_cursor_roundtrip_witness:
  "\<exists>d'. closed_pnl_decode_cursor demo_json (Some (closed_pnl_encode_cursor demo_json [(''source'', PStr ''pg''), (''offset'', PInt 50)])) = Inr d' \<and>
     map_of d' ''offset'' = Some (PInt 50)"
  using closed_pnl_cursor_roundtrip[OF demo_json_law, of "[(''source'', PStr ''pg''), (''offset'', PInt 50)]"]
  by (auto simp: plain_dict_def)

end
