(* ===== verification/Closed_PnL_Rows.thy ===== *)
theory Closed_PnL_Rows
  imports Closed_PnL
begin

text \<open>
  The rows of the closed positions (\<open>app/closed_pnl_pagination.py\<close>): normalisation, attribution to a strategy, the
  read from the local table of fills where the exchange is out of reach, and the payload of one preload, with the
  record of failures of \<open>app/strategy_ai_routes.py\<close>. The exchange client, the map from symbols to
  strategies and the answers of the database to the three queries are a record of functions; a database
  answer is None where there is no connection or the query raises. None elsewhere: an exception.
\<close>

section \<open>Numbers of a row\<close>

text \<open>Only an integer beyond the doubles raises.\<close>

definition safe_float :: "pyval \<Rightarrow> pyfloat option option" where
  "safe_float v =
     (case py_float v of
        Inl ConvInvalid \<Rightarrow> Some None
      | Inl ConvOverflow \<Rightarrow> None
      | Inr x \<Rightarrow> Some (if is_nan x then None else Some x))"

definition or_zero :: "pyfloat option \<Rightarrow> pyfloat" where
  "or_zero x = (case x of None \<Rightarrow> Fin 0 | Some y \<Rightarrow> y)"

definition bybit_fee_total :: "pydict \<Rightarrow> pyfloat option" where
  "bybit_fee_total row =
     do { a \<leftarrow> safe_float (dict_get row ''openFee'' (dict_get row ''open_fee'' PNone));
          b \<leftarrow> safe_float (dict_get row ''closeFee'' (dict_get row ''close_fee'' PNone));
          Some (fadd (or_zero a) (or_zero b)) }"

definition bybit_gross_pnl :: "pydict \<Rightarrow> pyfloat option option" where
  "bybit_gross_pnl row =
     do { c \<leftarrow> safe_float (dict_get row ''closedPnl'' (dict_get row ''closed_pnl'' PNone));
          case c of None \<Rightarrow> Some None
          | Some x \<Rightarrow> do { t \<leftarrow> bybit_fee_total row; Some (Some (fadd x t)) } }"

fun first_time :: "pydict \<Rightarrow> string list \<Rightarrow> int option" where
  "first_time row [] = Some 0"
| "first_time row (k # ks) =
     do { v \<leftarrow> safe_float (dict_get row k PNone);
          case v of None \<Rightarrow> first_time row ks
          | Some x \<Rightarrow> if flt (Fin 0) x then int_of_float x else first_time row ks }"

definition closed_pnl_time_ms :: "pydict \<Rightarrow> int option" where
  "closed_pnl_time_ms row = first_time row [''updatedTime'', ''updated_time_ms'', ''createdTime'', ''created_time_ms'']"

definition closed_pnl_float :: "pydict \<Rightarrow> string \<Rightarrow> pyfloat option option" where
  "closed_pnl_float row key = safe_float (dict_get row key PNone)"

definition bybit_source :: "pyfloat option \<Rightarrow> pyval" where
  "bybit_source x = PStr (if x = None then ''bybit_pnl_missing_fail_closed'' else ''bybit_closed_pnl'')"

text \<open>\<open>int(fillCount)\<close>, 0 where it is missing, empty or not a number.\<close>

definition fill_count :: "pydict \<Rightarrow> int" where
  "fill_count row = (let v = dict_get row ''fillCount'' PNone in
     if v = PNone \<or> v = PStr [] then 0 else (case to_int v of Some n \<Rightarrow> n | None \<Rightarrow> 0))"

definition closed_pnl_snake_row :: "pydict \<Rightarrow> pydict option" where
  "closed_pnl_snake_row row =
     do { closed \<leftarrow> closed_pnl_float row ''closedPnl''; open_fee \<leftarrow> closed_pnl_float row ''openFee'';
          close_fee \<leftarrow> closed_pnl_float row ''closeFee''; qty \<leftarrow> closed_pnl_float row ''qty'';
          entry \<leftarrow> closed_pnl_float row ''avgEntryPrice''; exit \<leftarrow> closed_pnl_float row ''avgExitPrice'';
          sz \<leftarrow> closed_pnl_float row ''closedSize'';
          updated \<leftarrow> Option.bind (closed_pnl_float row ''updatedTime'') (\<lambda>x. int_of_float (or_zero x));
          created \<leftarrow> Option.bind (closed_pnl_float row ''createdTime'') (\<lambda>x. int_of_float (or_zero x));
          let fee_total = fadd (or_zero open_fee) (or_zero close_fee) in
          Some (dict_update row
            [(''symbol'', py_or (dict_get row ''symbol'' PNone) (PStr [])), (''side'', py_or (dict_get row ''side'' PNone) (PStr [])),
             (''qty'', PFloat (or_zero qty)), (''avg_entry_price'', opt_float entry), (''avg_exit_price'', opt_float exit),
             (''closed_pnl'', PFloat (or_zero closed)), (''bybit_closed_pnl'', PFloat (or_zero closed)),
             (''bybit_gross_pnl'', opt_float (map_option (\<lambda>c. fadd c fee_total) closed)),
             (''open_fee'', opt_float open_fee), (''close_fee'', opt_float close_fee), (''bybit_fee_total'', PFloat fee_total),
             (''closed_size'', opt_float sz), (''fill_count'', PInt (fill_count row)),
             (''updated_time_ms'', PInt updated), (''created_time_ms'', PInt created),
             (''order_id'', py_or (dict_get row ''orderId'' PNone) (PStr [])),
             (''order_link_id'', py_or (dict_get row ''orderLinkId'' PNone) (PStr [])),
             (''leverage'', py_or (dict_get row ''leverage'' PNone) (PStr [])),
             (''exec_type'', py_or (dict_get row ''execType'' PNone) (PStr [])),
             (''authoritative_pnl'', opt_float closed), (''authoritative_pnl_source'', bybit_source closed),
             (''learning_pnl'', opt_float closed), (''learning_pnl_source'', bybit_source closed)]) }"

section \<open>The engine named by a link id\<close>

text \<open>
  The pattern \<open>^oc_(?:risk_|ipc_close_|close_mf_fb_|close_[a-z0-9_]+_)?(dm|ld|lv)(?:_|$)\<close>, letters of either case:
  the first alternative that leads to a match, the run of the last one shortened from its full length.
\<close>

definition tail_tag :: "string \<Rightarrow> string option" where
  "tail_tag s = (if take 2 s \<in> {''dm'', ''ld'', ''lv''} \<and> (drop 2 s = [] \<or> hd (drop 2 s) = CHR ''_'') then Some (take 2 s) else None)"

definition after_prefix :: "string \<Rightarrow> string \<Rightarrow> string option" where
  "after_prefix p s = (if prefix p s then tail_tag (drop (length p) s) else None)"

definition word_char :: "char \<Rightarrow> bool" where
  "word_char c \<longleftrightarrow> is_digit c \<or> c = CHR ''_'' \<or> 97 \<le> byte c \<and> byte c \<le> 122"

definition close_tags :: "string \<Rightarrow> string option list" where
  "close_tags s =
     (if prefix ''close_'' s then
        (let r = drop 6 s in
         map (\<lambda>k. if k < length r \<and> r ! k = CHR ''_'' then tail_tag (drop (Suc k) r) else None)
           (rev [1..<Suc (length (takeWhile word_char r))]))
      else [])"

fun first_some :: "'a option list \<Rightarrow> 'a option" where
  "first_some [] = None"
| "first_some (None # xs) = first_some xs"
| "first_some (Some x # xs) = Some x"

definition link_tag :: "string \<Rightarrow> string option" where
  "link_tag link =
     (let l = str_lower link in
      if prefix ''oc_'' l then
        (let s = drop 3 l in
         first_some ([after_prefix ''risk_'' s, after_prefix ''ipc_close_'' s, after_prefix ''close_mf_fb_'' s] @
           close_tags s @ [tail_tag s]))
      else None)"

definition ENGINE_BY_TAG :: "(string \<times> string) list" where
  "ENGINE_BY_TAG = [(''dm'', ''demo''), (''ld'', ''live_demo''), (''lv'', ''live'')]"

definition link_text :: "(pyval \<Rightarrow> string) \<Rightarrow> pyval \<Rightarrow> string" where
  "link_text rep v = text_strip (py_str rep (py_or v (PStr [])))"

definition strategy_from_order_link_id ::
  "(pyval \<Rightarrow> string) \<Rightarrow> (string \<Rightarrow> (string \<times> string) list) \<Rightarrow> pyval \<Rightarrow> string \<Rightarrow> string \<times> string" where
  "strategy_from_order_link_id rep owners order_link_id symbol =
     (case link_tag (link_text rep order_link_id) of
        None \<Rightarrow> (''external_manual'', ''bybit_unknown'')
      | Some tag \<Rightarrow>
          (let engine = (case map_of ENGINE_BY_TAG tag of Some e \<Rightarrow> e | None \<Rightarrow> ''demo'') in
           case map_of (owners engine) symbol of
             Some owner \<Rightarrow> if owner \<noteq> [] then (owner, ''pg_link_id'') else (''unknown_pending'', ''pg_missing_unknown_external'')
           | None \<Rightarrow> (''unknown_pending'', ''pg_missing_unknown_external'')))"

definition time_fallback_allowed :: "(pyval \<Rightarrow> string) \<Rightarrow> pyval \<Rightarrow> bool" where
  "time_fallback_allowed rep order_link_id =
     (let link = link_text rep order_link_id in link = [] \<or> link_tag link \<noteq> None)"

section \<open>Fills of the local table\<close>

text \<open>A row of each query; a time is its POSIX timestamp.\<close>

record order_row =
  or_order_id :: pyval
  or_strategy :: pyval
  or_pnl :: pyval
  or_fee :: pyval

record nearby_row =
  nr_ts :: "pyfloat option"
  nr_order_id :: pyval
  nr_symbol :: pyval
  nr_side :: pyval
  nr_qty :: pyval
  nr_pnl :: pyval
  nr_fee :: pyval
  nr_strategy :: pyval

record fill_row =
  fr_ts :: "pyfloat option"
  fr_order_id :: pyval
  fr_symbol :: pyval
  fr_side :: pyval
  fr_qty :: pyval
  fr_price :: pyval
  fr_fee :: pyval
  fr_pnl :: pyval
  fr_strategy :: pyval

record nearby_query =
  nq_modes :: "pyval list"
  nq_symbols :: "string list"
  nq_min_ms :: int
  nq_max_ms :: int
  nq_limit :: int

record fills_query =
  fq_modes :: "pyval list"
  fq_start_ms :: int
  fq_end_ms :: int
  fq_symbol :: pyval
  fq_limit :: int
  fq_offset :: int

record pnl_services =
  sv_rc :: "exchange option"
  sv_owners :: "string \<Rightarrow> (string \<times> string) list"
  sv_orders :: "pyval list \<Rightarrow> string list \<Rightarrow> order_row list option"
  sv_nearby :: "nearby_query \<Rightarrow> nearby_row list option"
  sv_fills :: "fills_query \<Rightarrow> fill_row list option"
  sv_match_ms :: int
  sv_rep :: "pyval \<Rightarrow> string"
  sv_json :: json_codec

record order_match =
  om_strategy :: string
  om_pnl :: "pyfloat option"
  om_fee :: "pyfloat option"

record candidate =
  cd_ts_ms :: int
  cd_order_id :: string
  cd_pnl :: "pyfloat option"
  cd_fee :: "pyfloat option"
  cd_strategy :: string

record time_match =
  tm_strategy :: string
  tm_pnl :: "pyfloat option"
  tm_fee :: "pyfloat option"
  tm_delta_ms :: int

definition default_modes :: "pyval list \<Rightarrow> pyval list" where
  "default_modes modes = (if modes = [] then [PStr ''demo'', PStr ''live_demo''] else modes)"

fun insert_str :: "string \<Rightarrow> string list \<Rightarrow> string list" where
  "insert_str x [] = [x]"
| "insert_str x (y # ys) = (if x = y then y # ys else if str_less x y then x # y # ys else y # insert_str x ys)"

definition sorted_set :: "string list \<Rightarrow> string list" where
  "sorted_set xs = foldr insert_str xs []"

fun map_opt :: "('a \<Rightarrow> 'b option) \<Rightarrow> 'a list \<Rightarrow> 'b list option" where
  "map_opt f [] = Some []"
| "map_opt f (x # xs) = do { y \<leftarrow> f x; ys \<leftarrow> map_opt f xs; Some (y # ys) }"

text \<open>Attribution by order or link id. Whatever goes wrong gives no attribution.\<close>

definition order_entry :: "(pyval \<Rightarrow> string) \<Rightarrow> order_row \<Rightarrow> (string \<times> order_match) option" where
  "order_entry rep r =
     do { pnl \<leftarrow> safe_float (or_pnl r); fee \<leftarrow> safe_float (or_fee r);
          Some (py_str rep (or_order_id r),
            \<lparr>om_strategy = (if truthy (or_strategy r) then py_str rep (or_strategy r) else []), om_pnl = pnl, om_fee = fee\<rparr>) }"

definition fetch_strategy_by_order_id :: "pnl_services \<Rightarrow> string list \<Rightarrow> pyval list \<Rightarrow> (string \<times> order_match) list" where
  "fetch_strategy_by_order_id sv order_ids modes =
     (let ids = sorted_set (filter (\<lambda>i. i \<noteq> []) order_ids) in
      if ids = [] then []
      else (case sv_orders sv (default_modes modes) ids of
          None \<Rightarrow> []
        | Some rows \<Rightarrow>
            (case map_opt (order_entry (sv_rep sv)) (filter (\<lambda>r. truthy (or_order_id r)) rows) of
               None \<Rightarrow> []
             | Some es \<Rightarrow> fold (\<lambda>(k, m). AList.update k m) es [])))"

text \<open>Attribution by symbol and time: the targets, the candidates, and the best candidate not used before.\<close>

type_synonym target = "nat \<times> string \<times> int \<times> pyfloat option"

fun time_targets :: "(pyval \<Rightarrow> string) \<Rightarrow> (nat \<times> pydict) list \<Rightarrow> target list option" where
  "time_targets rep [] = Some []"
| "time_targets rep ((i, row) # rows) =
     (if \<not> time_fallback_allowed rep (dict_get row ''orderLinkId'' PNone) then time_targets rep rows
      else
        (let sb = text_strip (py_str rep (py_or (dict_get row ''symbol'' PNone) (PStr []))) in
         do { ts \<leftarrow> closed_pnl_time_ms row;
              if sb = [] \<or> ts \<le> 0 then time_targets rep rows
              else do { g \<leftarrow> bybit_gross_pnl row; ts' \<leftarrow> time_targets rep rows; Some ((i, sb, ts, g) # ts') } }))"

definition row_ms :: "pyfloat option \<Rightarrow> int option" where
  "row_ms ts = (case ts of None \<Rightarrow> Some 0 | Some t \<Rightarrow> int_of_float (fmul t (Fin 1000)))"

fun candidates :: "(pyval \<Rightarrow> string) \<Rightarrow> nearby_row list \<Rightarrow> (string \<times> candidate) list option" where
  "candidates rep [] = Some []"
| "candidates rep (r # rs) =
     (if \<not> truthy (nr_symbol r) \<or> \<not> truthy (nr_strategy r) then candidates rep rs
      else
        (let ms = (case row_ms (nr_ts r) of Some m \<Rightarrow> m | None \<Rightarrow> 0) in
         if ms \<le> 0 then candidates rep rs
         else
           do { q \<leftarrow> safe_float (nr_qty r); p \<leftarrow> safe_float (nr_pnl r); f \<leftarrow> safe_float (nr_fee r);
                cs \<leftarrow> candidates rep rs;
                Some ((py_str rep (nr_symbol r),
                  \<lparr>cd_ts_ms = ms, cd_order_id = py_str rep (py_or (nr_order_id r) (PStr [])), cd_pnl = p, cd_fee = f,
                   cd_strategy = py_str rep (nr_strategy r)\<rparr>) # cs) }))"

type_synonym fill_key = "string \<times> int \<times> string"

definition fill_key :: "candidate \<Rightarrow> fill_key" where
  "fill_key c = (cd_order_id c, cd_ts_ms c, cd_strategy c)"

definition match_score :: "pyfloat option \<Rightarrow> int \<Rightarrow> candidate \<Rightarrow> pyfloat option" where
  "match_score gross delta c =
     do { d \<leftarrow> to_float (PInt delta);
          pen \<leftarrow> (case (gross, cd_pnl c) of
             (Some g, Some p) \<Rightarrow>
               do { x \<leftarrow> fdiv (fabs (fsub p g)) (fmax (fabs g) (Fin 1)); Some (fmin x (Fin 10)) }
           | _ \<Rightarrow> Some (Fin 0));
          Some (fadd d (fmul pen (Fin 10000))) }"

fun best_match ::
  "int \<Rightarrow> fill_key list \<Rightarrow> int \<Rightarrow> pyfloat option \<Rightarrow> (pyfloat \<times> int \<times> candidate) option \<Rightarrow> candidate list \<Rightarrow>
   (pyfloat \<times> int \<times> candidate) option option" where
  "best_match window used ts gross best [] = Some best"
| "best_match window used ts gross best (c # cs) =
     (let delta = \<bar>cd_ts_ms c - ts\<bar> in
      if window < delta \<or> fill_key c \<in> set used then best_match window used ts gross best cs
      else
        do { score \<leftarrow> match_score gross delta c;
             best_match window used ts gross
               (case best of None \<Rightarrow> Some (score, delta, c)
                | Some b \<Rightarrow> if flt score (fst b) then Some (score, delta, c) else best) cs })"

fun match_targets ::
  "int \<Rightarrow> (string \<times> candidate) list \<Rightarrow> fill_key list \<Rightarrow> target list \<Rightarrow> (nat \<times> candidate \<times> int) list option" where
  "match_targets window cs used [] = Some []"
| "match_targets window cs used ((i, sb, ts, gross) # targets) =
     do { best \<leftarrow> best_match window used ts gross None (map snd (filter (\<lambda>(s, c). s = sb) cs));
          case best of
            None \<Rightarrow> match_targets window cs used targets
          | Some (score, delta, c) \<Rightarrow>
              do { ms \<leftarrow> match_targets window cs (fill_key c # used) targets; Some ((i, c, delta) # ms) } }"

definition time_match_of :: "candidate \<Rightarrow> int \<Rightarrow> time_match" where
  "time_match_of c delta = \<lparr>tm_strategy = cd_strategy c, tm_pnl = cd_pnl c, tm_fee = cd_fee c, tm_delta_ms = delta\<rparr>"

definition nearby_query_of :: "int \<Rightarrow> pyval list \<Rightarrow> target list \<Rightarrow> nearby_query" where
  "nearby_query_of window modes targets =
     (let times = map (\<lambda>(i, sb, ts, g). ts) targets in
      \<lparr>nq_modes = default_modes modes, nq_symbols = sorted_set (map (\<lambda>(i, sb, ts, g). sb) targets),
       nq_min_ms = foldr min times (hd times) - window, nq_max_ms = foldr max times (hd times) + window,
       nq_limit = min (max (int (length targets) * 12) 100) 1000\<rparr>)"

definition fetch_strategy_by_symbol_time ::
  "pnl_services \<Rightarrow> (nat \<times> pydict) list \<Rightarrow> pyval list \<Rightarrow> (nat \<times> time_match) list option" where
  "fetch_strategy_by_symbol_time sv indexed_rows modes =
     do { targets \<leftarrow> time_targets (sv_rep sv) indexed_rows;
          if targets = [] then Some []
          else (case sv_nearby sv (nearby_query_of (sv_match_ms sv) modes targets) of
              None \<Rightarrow> Some []
            | Some rows \<Rightarrow>
                do { cs \<leftarrow> candidates (sv_rep sv) rows;
                     ms \<leftarrow> match_targets (sv_match_ms sv) cs [] targets;
                     Some (map (\<lambda>(i, c, delta). (i, time_match_of c delta)) ms) }) }"

section \<open>Attribution of a page\<close>

definition row_ids :: "(pyval \<Rightarrow> string) \<Rightarrow> pydict \<Rightarrow> string list" where
  "row_ids rep row = map (\<lambda>k. text_strip (py_str rep (py_or (dict_get row k PNone) (PStr [])))) [''orderId'', ''orderLinkId'']"

definition order_match_of :: "(pyval \<Rightarrow> string) \<Rightarrow> (string \<times> order_match) list \<Rightarrow> pydict \<Rightarrow> order_match option" where
  "order_match_of rep by_order row =
     (let ids = row_ids rep row in
      case map_of by_order (hd ids) of Some m \<Rightarrow> Some m | None \<Rightarrow> map_of by_order (last ids))"

definition named_match :: "order_match option \<Rightarrow> order_match option" where
  "named_match m = (case m of Some x \<Rightarrow> if om_strategy x \<noteq> [] then Some x else None | None \<Rightarrow> None)"

definition drift_fields :: "pyfloat option \<Rightarrow> pyfloat option \<Rightarrow> pydict option" where
  "drift_fields pg gross =
     (case (pg, gross) of
        (Some p, Some g) \<Rightarrow>
          (let diff = fabs (fsub p g) in
           do { pct \<leftarrow> (if flt (Fin 0) (fabs g) then map_option PFloat (fdiv diff (fabs g)) else Some PNone);
                Some [(''pnl_source_drift_usd'', PFloat diff), (''pnl_source_drift_pct'', pct)] })
      | _ \<Rightarrow> Some [(''pnl_source_drift_usd'', PNone), (''pnl_source_drift_pct'', PNone)])"

definition strategy_fields ::
  "pnl_services \<Rightarrow> order_match option \<Rightarrow> time_match option \<Rightarrow> pydict \<Rightarrow> pydict \<Rightarrow> pydict \<times> pyfloat option \<times> pyfloat option" where
  "strategy_fields sv om tm row enriched =
     (let pg_pnl = Option.bind om om_pnl; pg_fee = Option.bind om om_fee in
      case named_match om of
        Some m \<Rightarrow> ([(''strategy_name'', PStr (om_strategy m)), (''strategy_source'', PStr ''pg_fill'')], pg_pnl, pg_fee)
      | None \<Rightarrow>
          (case tm of
             Some t \<Rightarrow> ([(''strategy_name'', PStr (tm_strategy t)), (''strategy_source'', PStr ''pg_time_window''),
                 (''strategy_match_delta_ms'', PInt (tm_delta_ms t))], tm_pnl t, tm_fee t)
           | None \<Rightarrow>
               (let (name, source) = strategy_from_order_link_id (sv_rep sv) (sv_owners sv) (dict_get row ''orderLinkId'' PNone)
                    (py_str (sv_rep sv) (py_or (dict_get enriched ''symbol'' PNone) (PStr [])))
                in ([(''strategy_name'', PStr name), (''strategy_source'', PStr source)], pg_pnl, pg_fee))))"

definition enrich_row :: "pnl_services \<Rightarrow> (string \<times> order_match) list \<Rightarrow> (nat \<times> time_match) list \<Rightarrow> nat \<times> pydict \<Rightarrow> pydict option" where
  "enrich_row sv by_order by_time = (\<lambda>(i, row).
     do { enriched \<leftarrow> closed_pnl_snake_row row;
          let (named, pg_pnl, pg_fee) =
            strategy_fields sv (order_match_of (sv_rep sv) by_order row) (map_of by_time i) row enriched in
          do { net \<leftarrow> closed_pnl_float row ''closedPnl'';
               gross \<leftarrow> safe_float (dict_get enriched ''bybit_gross_pnl'' PNone);
               drift \<leftarrow> drift_fields pg_pnl gross;
               Some (dict_update enriched (named @
                 [(''pg_engine_pnl'', opt_float pg_pnl), (''pg_engine_gross_pnl'', opt_float pg_pnl),
                  (''pg_engine_close_fee'', opt_float pg_fee),
                  (''pnl_source_drift_basis'', PStr ''pg_gross_vs_bybit_gross_before_fees'')] @ drift @
                 (case net of None \<Rightarrow> []
                  | Some x \<Rightarrow> [(''authoritative_pnl'', PFloat x), (''authoritative_pnl_source'', PStr ''bybit_closed_pnl''),
                      (''learning_pnl'', PFloat x), (''learning_pnl_source'', PStr ''bybit_closed_pnl'')]))) } })"

definition attach_closed_pnl_strategy :: "pnl_services \<Rightarrow> pyval list \<Rightarrow> pydict list \<Rightarrow> pydict list option" where
  "attach_closed_pnl_strategy sv modes rows =
     (let rep = sv_rep sv; indexed = enumerate 0 rows;
          by_order = fetch_strategy_by_order_id sv (filter (\<lambda>i. i \<noteq> []) (concat (map (row_ids rep) rows))) modes
      in do { by_time \<leftarrow> fetch_strategy_by_symbol_time sv
                (filter (\<lambda>(i, row). named_match (order_match_of rep by_order row) = None) indexed) modes;
              map_opt (enrich_row sv by_order by_time) indexed })"

section \<open>The local table in place of the exchange\<close>

definition or_val :: "pyval \<Rightarrow> pyval \<Rightarrow> pyval" where
  "or_val v dflt = (if v = PNone then dflt else v)"

definition fallback_row :: "(pyval \<Rightarrow> string) \<Rightarrow> fill_row \<Rightarrow> pydict option" where
  "fallback_row rep r =
     do { ms \<leftarrow> row_ms (fr_ts r);
          gross \<leftarrow> (if fr_pnl r = PNone then Some (Fin 0) else to_float (fr_pnl r));
          fee \<leftarrow> (if fr_fee r = PNone then Some (Fin 0) else to_float (fr_fee r));
          let net = fsub gross fee; str = (\<lambda>v. PStr (py_str rep v));
              name = py_or (fr_strategy r) (PStr ''unknown_external'');
              source = PStr (if truthy (fr_strategy r) then ''pg_fill'' else ''pg_missing_unknown_external'') in
          do { n \<leftarrow> closed_pnl_snake_row
                 [(''symbol'', py_or (fr_symbol r) (PStr [])), (''side'', py_or (fr_side r) (PStr [])),
                  (''qty'', str (or_val (fr_qty r) (PInt 0))), (''avgEntryPrice'', str (or_val (fr_price r) (PInt 0))),
                  (''avgExitPrice'', str (or_val (fr_price r) (PInt 0))), (''closedPnl'', str (PFloat net)),
                  (''openFee'', PStr []), (''closeFee'', str (PFloat fee)), (''closedSize'', str (or_val (fr_qty r) (PInt 0))),
                  (''fillCount'', PStr ''1''), (''updatedTime'', PStr (int_str ms)), (''orderId'', py_or (fr_order_id r) (PStr [])),
                  (''orderLinkId'', PStr []), (''leverage'', PStr []), (''execType'', PStr ''pg_fallback''),
                  (''strategy_name'', name), (''strategy_source'', source), (''pg_engine_pnl'', PFloat gross)];
               Some (dict_update n
                 [(''strategy_name'', name), (''strategy_source'', source), (''pg_engine_pnl'', PFloat gross),
                  (''pg_engine_gross_pnl'', PFloat gross), (''pg_engine_close_fee'', PFloat fee),
                  (''authoritative_pnl'', PFloat net), (''authoritative_pnl_source'', PStr ''pg_fallback_estimated_net''),
                  (''learning_pnl'', PNone), (''learning_pnl_source'', PStr ''bybit_unavailable_fail_closed''),
                  (''pnl_source_drift_basis'', PStr ''pg_fallback_no_bybit''),
                  (''pnl_source_drift_usd'', PFloat (Fin 0)), (''pnl_source_drift_pct'', PFloat (Fin 0))]) } }"

definition fallback_reason :: string where
  "fallback_reason = ''pg_fallback_estimated_from_trading_fills; avgEntryPrice/avgExitPrice/closedSize/fillCount are approximate''"

definition closed_pnl_pg_cursor :: "json_codec \<Rightarrow> int \<Rightarrow> pyval \<Rightarrow> int \<Rightarrow> int \<Rightarrow> pyval list \<Rightarrow> string" where
  "closed_pnl_pg_cursor j offset symbol start_ms end_ms modes =
     closed_pnl_encode_cursor j
       [(''source'', PStr ''pg''), (''offset'', PInt offset), (''symbol'', symbol), (''start_ms'', PInt start_ms),
        (''end_ms'', PInt end_ms), (''engine_modes'', PList modes)]"

definition table_payload :: "pydict list \<Rightarrow> int \<Rightarrow> int \<Rightarrow> string option \<Rightarrow> int \<Rightarrow> pydict" where
  "table_payload out limit offset next_cursor now =
     [(''list'', PList (map PDict out)), (''count'', PInt (int (length out))), (''limit'', PInt limit),
      (''offset'', PInt offset), (''has_more'', PBool (next_cursor \<noteq> None)),
      (''next_offset'', if next_cursor \<noteq> None then PInt (offset + int (length out)) else PNone),
      (''next_cursor'', opt_str next_cursor), (''source'', PStr ''pg_fallback''), (''source_ts'', PInt now),
      (''cache_age'', PFloat (Fin 0)), (''cache_age_seconds'', PFloat (Fin 0)),
      (''degraded_reason'', PStr (''bybit_closed_pnl_unavailable; '' @ fallback_reason))]"

text \<open>The limit is at least 1: the route bounds it. None: no connection, or a value that raises.\<close>

definition fetch_pg_closed_pnl_fallback ::
  "pnl_services \<Rightarrow> int \<Rightarrow> int \<Rightarrow> pyval \<Rightarrow> int \<Rightarrow> int \<Rightarrow> pyval list \<Rightarrow> world \<Rightarrow> pydict option \<times> world" where
  "fetch_pg_closed_pnl_fallback sv limit offset symbol start_ms end_ms modes w =
     (let safe = default_modes modes in
      case sv_fills sv \<lparr>fq_modes = safe, fq_start_ms = start_ms, fq_end_ms = end_ms,
          fq_symbol = (if truthy symbol then symbol else PNone), fq_limit = limit + 1, fq_offset = offset\<rparr> of
        None \<Rightarrow> (None, w)
      | Some rows \<Rightarrow>
          (let more = limit < int (length rows) in
           case map_opt (fallback_row (sv_rep sv)) (take (nat limit) rows) of
             None \<Rightarrow> (None, w)
           | Some out \<Rightarrow>
               (let next = offset + int (length out); (now, w1) = now_ms w in
                (Some (table_payload out limit offset
                   (if more then Some (closed_pnl_pg_cursor (sv_json sv) next symbol start_ms end_ms safe) else None) now), w1))))"

section \<open>Failures of the exchange\<close>

definition FAILURE_WINDOW_SEC :: pyfloat where "FAILURE_WINDOW_SEC = Fin 60"
definition DEGRADED_SEC :: pyfloat where "DEGRADED_SEC = Fin 300"

text \<open>The times of the failures of the last minute; the monotonic clock is read first.\<close>

type_synonym failures_log = "rat list"

definition clear_closed_pnl_bybit_failures :: "failures_log \<Rightarrow> failures_log" where
  "clear_closed_pnl_bybit_failures fs = []"

definition record_closed_pnl_bybit_failure :: "failures_log \<Rightarrow> world \<Rightarrow> (int \<times> int option) option \<times> failures_log \<times> world" where
  "record_closed_pnl_bybit_failure fs w =
     (let (t, w1) = read_clock w; cutoff = fsub (Fin (secs t)) FAILURE_WINDOW_SEC;
          fs1 = filter (\<lambda>x. fle cutoff (Fin x)) fs @ [secs t]; n = int (length fs1)
      in if 3 \<le> n then
           (let (t2, w2) = read_clock w1 in
            (map_option (\<lambda>ms. (n, Some ms)) (int_of_float (fmul (fadd (Fin (secs t2)) DEGRADED_SEC) (Fin 1000))), fs1, w2))
         else (Some (n, None), fs1, w1))"

definition failure_fields :: "int \<times> int option \<Rightarrow> pydict" where
  "failure_fields f = [(''bybit_failure_count_60s'', PInt (fst f)), (''degraded_until_ms'', opt_int (snd f))]"

section \<open>One preload of the whole history\<close>

definition range_fields :: "int \<Rightarrow> int \<Rightarrow> int \<Rightarrow> pydict" where
  "range_fields start_ms end_ms limit =
     [(''all_history'', PBool True), (''range_start_ms'', PInt start_ms), (''range_end_ms'', PInt end_ms),
      (''page_size'', PInt 50), (''preload_limit'', PInt limit)]"

definition disabled_payload :: "string \<Rightarrow> int \<Rightarrow> int \<Rightarrow> int \<Rightarrow> int \<Rightarrow> pydict" where
  "disabled_payload reason limit start_ms end_ms now =
     [(''enabled'', PBool False), (''source'', PStr ''pg_fallback''), (''source_ts'', PInt now), (''cache_age'', PNone),
      (''cache_age_seconds'', PNone), (''list'', PList []), (''count'', PInt 0), (''limit'', PInt limit), (''offset'', PInt 0),
      (''has_more'', PBool False), (''next_offset'', PNone), (''next_cursor'', PNone),
      (''degraded_reason'', PStr (reason @ ''_and_pg_fallback_failed''))] @ range_fields start_ms end_ms limit"

definition exchange_payload :: "pydict list \<Rightarrow> string option \<Rightarrow> int \<Rightarrow> int \<Rightarrow> int \<Rightarrow> int \<Rightarrow> pydict" where
  "exchange_payload rows next_cursor limit start_ms end_ms now =
     [(''list'', PList (map PDict rows)), (''count'', PInt (int (length rows))), (''limit'', PInt limit), (''offset'', PInt 0),
      (''has_more'', PBool (str_given next_cursor)), (''next_offset'', PNone), (''next_cursor'', opt_str next_cursor),
      (''source'', PStr ''bybit_api''), (''source_ts'', PInt now), (''cache_age'', PFloat (Fin 0)),
      (''cache_age_seconds'', PFloat (Fin 0)), (''degraded_reason'', PNone)] @ range_fields start_ms end_ms limit"

text \<open>What a cursor says of the range: its symbol has any type.\<close>

definition cursor_range :: "pydict \<Rightarrow> int \<Rightarrow> int \<Rightarrow> pyval \<Rightarrow> (int \<times> int \<times> pyval) option" where
  "cursor_range d start_ms end_ms symbol =
     (if d = [] then Some (start_ms, end_ms, symbol)
      else do { s \<leftarrow> to_int (py_or (dict_get d ''start_ms'' PNone) (PInt start_ms));
                e \<leftarrow> to_int (py_or (dict_get d ''end_ms'' PNone) (PInt end_ms));
                Some (s, e, py_or (dict_get d ''symbol'' PNone) symbol) })"

text \<open>The three ways of a preload: a cursor of the local table, no exchange client, and the exchange with the table behind it.\<close>

type_synonym payload_result = "(pnl_error + pydict) \<times> failures_log \<times> world"

definition pg_payload ::
  "pnl_services \<Rightarrow> int \<Rightarrow> pydict \<Rightarrow> int \<Rightarrow> int \<Rightarrow> pyval \<Rightarrow> pyval list \<Rightarrow> failures_log \<Rightarrow> world \<Rightarrow> payload_result" where
  "pg_payload sv limit d start_ms end_ms symbol modes fs w =
     (case do { ms \<leftarrow> py_iter (py_or (dict_get d ''engine_modes'' PNone) (PList modes));
                offset \<leftarrow> to_int (py_or (dict_get d ''offset'' PNone) (PInt 0)); Some (ms, offset) } of
        None \<Rightarrow> (Inl RaisedOther, fs, w)
      | Some (ms, offset) \<Rightarrow>
          (case fetch_pg_closed_pnl_fallback sv limit offset symbol start_ms end_ms ms w of
             (None, w1) \<Rightarrow> (Inl RaisedOther, fs, w1)
           | (Some p, w1) \<Rightarrow> (Inr (dict_update p (range_fields start_ms end_ms limit)), fs, w1)))"

definition no_client_fields :: "string \<Rightarrow> pydict" where
  "no_client_fields reason = [(''degraded_reason'', PStr (reason @ ''; '' @ fallback_reason)),
     (''bybit_failure_count_60s'', PInt 0), (''degraded_until_ms'', PNone)]"

definition no_client_payload ::
  "pnl_services \<Rightarrow> int \<Rightarrow> int \<Rightarrow> int \<Rightarrow> pyval \<Rightarrow> pyval list \<Rightarrow> string \<Rightarrow> failures_log \<Rightarrow> world \<Rightarrow> payload_result" where
  "no_client_payload sv limit start_ms end_ms symbol modes reason fs w =
     (case fetch_pg_closed_pnl_fallback sv limit 0 symbol start_ms end_ms modes w of
        (None, w1) \<Rightarrow> (let (now, w2) = now_ms w1 in (Inr (disabled_payload reason limit start_ms end_ms now), fs, w2))
      | (Some p, w1) \<Rightarrow>
          (Inr (dict_update p (no_client_fields reason @ range_fields start_ms end_ms limit)), fs, w1))"

definition both_failed :: pnl_error where
  "both_failed = HTTPException 502 (PDict [(''reason_codes'', PList [PStr ''closed_pnl_unavailable'']),
     (''detail'', PStr ''Internal server error'')])"

definition degraded_fields :: "int \<times> int option \<Rightarrow> pydict" where
  "degraded_fields f = (''degraded_reason'', PStr (''bybit_closed_pnl_unavailable; '' @ fallback_reason @
       ''; bybit_failure_count_60s='' @ int_str (fst f) @
       (if snd f = None then [] else ''; bybit_unavailable_5min_contact_operator''))) # failure_fields f"

definition degraded_payload ::
  "pnl_services \<Rightarrow> int \<Rightarrow> int \<Rightarrow> int \<Rightarrow> pyval \<Rightarrow> pyval list \<Rightarrow> failures_log \<Rightarrow> world \<Rightarrow> payload_result" where
  "degraded_payload sv limit start_ms end_ms symbol modes fs w =
     (case record_closed_pnl_bybit_failure fs w of
        (None, fs1, w1) \<Rightarrow> (Inl RaisedOther, fs1, w1)
      | (Some f, fs1, w1) \<Rightarrow>
          (case fetch_pg_closed_pnl_fallback sv limit 0 symbol start_ms end_ms modes w1 of
             (None, w2) \<Rightarrow> (Inl both_failed, fs1, w2)
           | (Some p, w2) \<Rightarrow>
               (Inr (dict_update p (degraded_fields f @ range_fields start_ms end_ms limit)), fs1, w2)))"

definition client_payload ::
  "pnl_services \<Rightarrow> exchange \<Rightarrow> int \<Rightarrow> string option \<Rightarrow> int \<Rightarrow> int \<Rightarrow> pyval \<Rightarrow> pyval list \<Rightarrow> failures_log \<Rightarrow> world \<Rightarrow> payload_result" where
  "client_payload sv rc limit cursor start_ms end_ms symbol modes fs w =
     (case fetch_closed_pnl_bybit_history_page (sv_json sv) (sv_rep sv) rc limit cursor symbol start_ms end_ms of
        Inl e \<Rightarrow> degraded_payload sv limit start_ms end_ms symbol modes fs w
      | Inr (rows, next_cursor) \<Rightarrow>
          (let fs1 = clear_closed_pnl_bybit_failures fs in
           case attach_closed_pnl_strategy sv modes rows of
             None \<Rightarrow> degraded_payload sv limit start_ms end_ms symbol modes fs1 w
           | Some out \<Rightarrow>
               (let (now, w1) = now_ms w in (Inr (exchange_payload out next_cursor limit start_ms end_ms now), fs1, w1))))"

definition closed_pnl_history_cursor_payload ::
  "pnl_services \<Rightarrow> int \<Rightarrow> string option \<Rightarrow> string option \<Rightarrow> pyval \<Rightarrow> pyval \<Rightarrow> pyval \<Rightarrow> pyval list \<Rightarrow> string \<Rightarrow>
   failures_log \<Rightarrow> world \<Rightarrow> payload_result" where
  "closed_pnl_history_cursor_payload sv limit cursor symbol start_time end_time lookback_days engine_modes reason fs w =
     (let modes = default_modes engine_modes in
      case closed_pnl_decode_cursor (sv_json sv) cursor of
        Inl e \<Rightarrow> (Inl e, fs, w)
      | Inr d \<Rightarrow>
          (case closed_pnl_history_bounds start_time end_time lookback_days w of
             (Inl e, w1) \<Rightarrow> (Inl e, fs, w1)
           | (Inr (s, e), w1) \<Rightarrow>
               (case cursor_range d s e (opt_str symbol) of
                  None \<Rightarrow> (Inl RaisedOther, fs, w1)
                | Some (start_ms, end_ms, sb) \<Rightarrow>
                    if dict_get d ''source'' PNone = PStr ''pg'' then pg_payload sv limit d start_ms end_ms sb modes fs w1
                    else (case sv_rc sv of
                        None \<Rightarrow> no_client_payload sv limit start_ms end_ms sb modes reason fs w1
                      | Some rc \<Rightarrow> client_payload sv rc limit cursor start_ms end_ms sb modes fs w1))))"

section \<open>What a row says it is worth\<close>

text \<open>The shapes of link ids the engine mints, and one it does not.\<close>

lemma link_tag_examples:
  "link_tag ''oc_dm_1_2'' = Some ''dm''" "link_tag ''OC_risk_lv_7'' = Some ''lv''" "link_tag ''oc_ipc_close_ld_1'' = Some ''ld''"
  "link_tag ''oc_close_mf_fb_dm_3'' = Some ''dm''" "link_tag ''oc_close_stop_lv'' = Some ''lv''" "link_tag ''oc_xx_1'' = None"
  by (simp_all add: link_tag_def str_lower_def lower_char_def after_prefix_def tail_tag_def close_tags_def word_char_def
      is_digit_def byte_def char_of_def bit_0 Let_def upt_rec)

lemma dict_update_append: "dict_update d (e @ f) = dict_update (dict_update d e) f"
  by (induction d e rule: dict_update.induct) simp_all

lemma dict_update_skip: "k \<notin> fst ` set e \<Longrightarrow> dict_get (dict_update d e) k x = dict_get d k x"
  using dict_update_get[of k e d] by (simp add: dict_get_def)

text \<open>The value a caller learns from, with what it says of its origin.\<close>

definition learns :: "pydict \<Rightarrow> pyval \<times> pyval" where
  "learns d = (dict_get d ''learning_pnl'' PNone, dict_get d ''learning_pnl_source'' PNone)"

definition claims :: "pydict \<Rightarrow> pyval \<times> pyval" where
  "claims d = (dict_get d ''authoritative_pnl'' PNone, dict_get d ''authoritative_pnl_source'' PNone)"

lemma snake_row_worth:
  assumes "closed_pnl_snake_row row = Some d"
  obtains x where "closed_pnl_float row ''closedPnl'' = Some x" "learns d = (opt_float x, bybit_source x)"
    "claims d = (opt_float x, bybit_source x)"
  using assms
  by (auto simp: closed_pnl_snake_row_def learns_def claims_def dict_get_def dict_simps Let_def split: bind_splits)

lemma strategy_fields_keys:
  "strategy_fields sv om tm row enriched = (named, x, y) \<Longrightarrow>
   fst ` set named \<subseteq> {''strategy_name'', ''strategy_source'', ''strategy_match_delta_ms''}"
  by (auto simp: strategy_fields_def Let_def split: option.splits prod.splits)

lemma drift_fields_keys:
  "drift_fields p g = Some named \<Longrightarrow> fst ` set named \<subseteq> {''pnl_source_drift_usd'', ''pnl_source_drift_pct''}"
  by (auto simp: drift_fields_def Let_def split: option.splits if_splits bind_splits)

definition worth_keys :: "string set" where
  "worth_keys = {''learning_pnl'', ''learning_pnl_source'', ''authoritative_pnl'', ''authoritative_pnl_source''}"

lemma worth_skip:
  "fst ` set e \<inter> worth_keys = {} \<Longrightarrow> learns (dict_update d e) = learns d \<and> claims (dict_update d e) = claims d"
  by (simp add: learns_def claims_def worth_keys_def dict_update_skip)

lemma enrich_row_worth:
  assumes "enrich_row sv by_order by_time (i, row) = Some d"
  shows "\<exists>x. closed_pnl_float row ''closedPnl'' = Some x \<and> learns d = (opt_float x, bybit_source x) \<and>
    claims d = (opt_float x, bybit_source x)"
proof -
  obtain enriched where e: "closed_pnl_snake_row row = Some enriched"
    using assms by (auto simp: enrich_row_def split: bind_splits)
  obtain named pg_pnl pg_fee where f: "strategy_fields sv (order_match_of (sv_rep sv) by_order row) (map_of by_time i) row enriched =
      (named, pg_pnl, pg_fee)"
    by (rule prod_cases3)
  let ?mid = "[(''pg_engine_pnl'', opt_float pg_pnl), (''pg_engine_gross_pnl'', opt_float pg_pnl),
          (''pg_engine_close_fee'', opt_float pg_fee),
          (''pnl_source_drift_basis'', PStr ''pg_gross_vs_bybit_gross_before_fees'')]"
  let ?last = "\<lambda>net. case net of None \<Rightarrow> []
          | Some x \<Rightarrow> [(''authoritative_pnl'', PFloat x), (''authoritative_pnl_source'', PStr ''bybit_closed_pnl''),
              (''learning_pnl'', PFloat x), (''learning_pnl_source'', PStr ''bybit_closed_pnl'')]"
  obtain net gross drift where n: "closed_pnl_float row ''closedPnl'' = Some net" "drift_fields pg_pnl gross = Some drift"
      "d = dict_update enriched (named @ ?mid @ drift @ ?last net)"
    using assms e f by (auto simp: enrich_row_def split: bind_splits)
  let ?base = "dict_update enriched (named @ ?mid @ drift)"
  have d: "d = dict_update ?base (?last net)" unfolding n(3) by (simp add: dict_update_append)
  have "fst ` set (named @ ?mid @ drift) \<inter> worth_keys = {}"
    using strategy_fields_keys[OF f] drift_fields_keys[OF n(2)] by (auto simp: worth_keys_def)
  note base = worth_skip[OF this, of enriched]
  show ?thesis
  proof (rule snake_row_worth[OF e])
    fix x
    assume x: "closed_pnl_float row ''closedPnl'' = Some x" "learns enriched = (opt_float x, bybit_source x)"
      "claims enriched = (opt_float x, bybit_source x)"
    then have "learns d = (opt_float x, bybit_source x) \<and> claims d = (opt_float x, bybit_source x)"
      using n(1) base unfolding d
      by (cases x) (simp_all add: learns_def claims_def dict_get_def dict_simps opt_float_def bybit_source_def)
    with x(1) show ?thesis by blast
  qed
qed

lemma fallback_row_worth:
  assumes "fallback_row rep r = Some d"
  shows "learns d = (PNone, PStr ''bybit_unavailable_fail_closed'') \<and> snd (claims d) = PStr ''pg_fallback_estimated_net''"
  using assms
  by (auto simp: fallback_row_def learns_def claims_def dict_get_def dict_simps Let_def split: bind_splits if_splits)

lemma map_opt_all2: "map_opt f xs = Some ys \<Longrightarrow> list_all2 (\<lambda>x y. f x = Some y) xs ys"
  by (induction xs arbitrary: ys) (auto split: bind_splits)

lemma map_opt_all: "map_opt f xs = Some ys \<Longrightarrow> (\<And>x y. f x = Some y \<Longrightarrow> P y) \<Longrightarrow> list_all P ys"
  by (induction xs arbitrary: ys) (auto split: bind_splits)

lemma attach_worth:
  assumes "attach_closed_pnl_strategy sv modes rows = Some out"
  shows "list_all2 (\<lambda>row d. \<exists>x. closed_pnl_float row ''closedPnl'' = Some x \<and> learns d = (opt_float x, bybit_source x) \<and>
    claims d = (opt_float x, bybit_source x)) rows out"
proof -
  obtain by_order by_time where "map_opt (enrich_row sv by_order by_time) (enumerate 0 rows) = Some out"
    using assms by (auto simp: attach_closed_pnl_strategy_def Let_def split: bind_splits)
  then have "list_all2 (\<lambda>p d. enrich_row sv by_order by_time p = Some d) (enumerate 0 rows) out"
    by (rule map_opt_all2)
  then show ?thesis
    by (auto simp: list_all2_conv_all_nth nth_enumerate_eq dest!: enrich_row_worth)
qed

section \<open>A fill explains one row\<close>

lemma best_match_sound:
  assumes "best_match window used ts gross best cs = Some (Some (score, delta, c))"
  shows "best = Some (score, delta, c) \<or>
    c \<in> set cs \<and> fill_key c \<notin> set used \<and> delta = \<bar>cd_ts_ms c - ts\<bar> \<and> delta \<le> window"
  using assms
proof (induction cs arbitrary: best)
  case (Cons d cs)
  show ?case
  proof (cases "window < \<bar>cd_ts_ms d - ts\<bar> \<or> fill_key d \<in> set used")
    case True
    then show ?thesis using Cons by (auto simp: Let_def)
  next
    case False
    then show ?thesis using Cons by (fastforce simp: Let_def split: bind_splits option.splits if_splits)
  qed
qed simp

lemma match_targets_sound:
  "match_targets window cs used targets = Some ms \<Longrightarrow>
   distinct (map (\<lambda>(i, c, delta). fill_key c) ms) \<and>
   (\<forall>(i, c, delta) \<in> set ms. fill_key c \<notin> set used \<and>
      (\<exists>sb ts g. (i, sb, ts, g) \<in> set targets \<and> (sb, c) \<in> set cs \<and> delta = \<bar>cd_ts_ms c - ts\<bar> \<and> delta \<le> window))"
proof (induction targets arbitrary: used ms)
  case (Cons t targets)
  obtain i sb ts g where t: "t = (i, sb, ts, g)" by (cases t)
  obtain best where best: "best_match window used ts g None (map snd (filter (\<lambda>(s, c). s = sb) cs)) = Some best"
    using Cons.prems by (auto simp: t split: bind_splits)
  show ?case
  proof (cases best)
    case None
    then have "match_targets window cs used targets = Some ms" using Cons.prems by (simp add: t best)
    from Cons.IH[OF this] show ?thesis by fastforce
  next
    case (Some b)
    obtain score delta c where b: "b = (score, delta, c)" by (cases b)
    obtain rest where rest: "match_targets window cs (fill_key c # used) targets = Some rest" "ms = (i, c, delta) # rest"
      using Cons.prems by (auto simp: t best Some b split: bind_splits)
    have c: "(sb, c) \<in> set cs" "fill_key c \<notin> set used" "delta = \<bar>cd_ts_ms c - ts\<bar>" "delta \<le> window"
      using best_match_sound[OF best[unfolded Some b]] by auto
    from Cons.IH[OF rest(1)] c show ?thesis
      unfolding rest(2) t by fastforce
  qed
qed simp

lemma time_targets_sound:
  assumes "time_targets rep rows = Some ts" "(i, sb, t, g) \<in> set ts"
  shows "\<exists>row. (i, row) \<in> set rows \<and> sb = text_strip (py_str rep (py_or (dict_get row ''symbol'' PNone) (PStr []))) \<and>
    closed_pnl_time_ms row = Some t"
  using assms
proof (induction rows arbitrary: ts)
  case (Cons p rows)
  obtain j row where p: "p = (j, row)" by (cases p)
  show ?case
    using Cons.prems Cons.IH unfolding p
    by (fastforce simp: Let_def split: if_splits bind_splits)
qed simp

text \<open>The fill a row is attributed to by symbol and time, for the matches of a page.\<close>

lemma timed_matches:
  assumes "fetch_strategy_by_symbol_time sv rows modes = Some by_time"
  obtains ms where "by_time = map (\<lambda>(i, c, delta). (i, time_match_of c delta)) ms"
    "distinct (map (\<lambda>(i, c, delta). fill_key c) ms)"
    "\<And>i c delta. (i, c, delta) \<in> set ms \<Longrightarrow> \<exists>row ts q nearby cs. (i, row) \<in> set rows \<and>
       closed_pnl_time_ms row = Some ts \<and> sv_nearby sv q = Some nearby \<and> candidates (sv_rep sv) nearby = Some cs \<and>
       (text_strip (py_str (sv_rep sv) (py_or (dict_get row ''symbol'' PNone) (PStr []))), c) \<in> set cs \<and>
       delta = \<bar>cd_ts_ms c - ts\<bar> \<and> delta \<le> sv_match_ms sv"
proof -
  obtain targets where t: "time_targets (sv_rep sv) rows = Some targets"
    using assms by (auto simp: fetch_strategy_by_symbol_time_def split: bind_splits)
  let ?q = "nearby_query_of (sv_match_ms sv) modes targets"
  show ?thesis
  proof (cases "targets = [] \<or> sv_nearby sv ?q = None")
    case True
    then have "by_time = []" using assms t by (auto simp: fetch_strategy_by_symbol_time_def split: if_splits)
    then show ?thesis using that[of "[]"] by simp
  next
    case False
    then obtain nearby where n: "targets \<noteq> []" "sv_nearby sv ?q = Some nearby" by blast
    obtain cs ms where m: "candidates (sv_rep sv) nearby = Some cs" "match_targets (sv_match_ms sv) cs [] targets = Some ms"
        "by_time = map (\<lambda>(i, c, delta). (i, time_match_of c delta)) ms"
      using assms t n by (auto simp: fetch_strategy_by_symbol_time_def split: bind_splits)
    note sound = match_targets_sound[OF m(2)]
    show ?thesis
    proof (rule that[OF m(3)])
      show "distinct (map (\<lambda>(i, c, delta). fill_key c) ms)" using sound by blast
      fix i c delta
      assume "(i, c, delta) \<in> set ms"
      then obtain sb ts g where *: "(i, sb, ts, g) \<in> set targets" "(sb, c) \<in> set cs" "delta = \<bar>cd_ts_ms c - ts\<bar>"
          "delta \<le> sv_match_ms sv"
        using sound by fastforce
      from time_targets_sound[OF t *(1)] * n(2) m(1)
      show "\<exists>row ts q nearby cs. (i, row) \<in> set rows \<and>
         closed_pnl_time_ms row = Some ts \<and> sv_nearby sv q = Some nearby \<and> candidates (sv_rep sv) nearby = Some cs \<and>
         (text_strip (py_str (sv_rep sv) (py_or (dict_get row ''symbol'' PNone) (PStr []))), c) \<in> set cs \<and>
         delta = \<bar>cd_ts_ms c - ts\<bar> \<and> delta \<le> sv_match_ms sv"
        by blast
    qed
  qed
qed

text \<open>The entries of a row that tell its attribution.\<close>

definition attribution :: "pydict \<Rightarrow> pyval \<times> pyval \<times> pyval \<times> pyval" where
  "attribution d = (dict_get d ''strategy_source'' PNone, dict_get d ''strategy_name'' PNone,
     dict_get d ''strategy_match_delta_ms'' PNone, dict_get d ''pg_engine_pnl'' PNone)"

lemma attribution_skip:
  "fst ` set e \<inter> {''strategy_source'', ''strategy_name'', ''strategy_match_delta_ms'', ''pg_engine_pnl''} = {} \<Longrightarrow>
   attribution (dict_update d e) = attribution d"
  by (simp add: attribution_def dict_update_skip)

lemma link_source: "snd (strategy_from_order_link_id rep owners link sb) \<noteq> ''pg_time_window''"
  by (simp add: strategy_from_order_link_id_def Let_def split: option.splits)

lemma enrich_row_timed:
  assumes "enrich_row sv by_order by_time (i, row) = Some d" "dict_get d ''strategy_source'' PNone = PStr ''pg_time_window''"
  shows "named_match (order_match_of (sv_rep sv) by_order row) = None \<and> (\<exists>t. map_of by_time i = Some t \<and>
    attribution d = (PStr ''pg_time_window'', PStr (tm_strategy t), PInt (tm_delta_ms t), opt_float (tm_pnl t)))"
proof -
  obtain enriched where e: "closed_pnl_snake_row row = Some enriched"
    using assms(1) by (auto simp: enrich_row_def split: bind_splits)
  obtain named pg_pnl pg_fee where f: "strategy_fields sv (order_match_of (sv_rep sv) by_order row) (map_of by_time i) row enriched =
      (named, pg_pnl, pg_fee)"
    by (rule prod_cases3)
  let ?mid = "[(''pg_engine_pnl'', opt_float pg_pnl)]"
  let ?more = "[(''pg_engine_gross_pnl'', opt_float pg_pnl), (''pg_engine_close_fee'', opt_float pg_fee),
          (''pnl_source_drift_basis'', PStr ''pg_gross_vs_bybit_gross_before_fees'')]"
  let ?last = "\<lambda>net. case net of None \<Rightarrow> []
          | Some x \<Rightarrow> [(''authoritative_pnl'', PFloat x), (''authoritative_pnl_source'', PStr ''bybit_closed_pnl''),
              (''learning_pnl'', PFloat x), (''learning_pnl_source'', PStr ''bybit_closed_pnl'')]"
  obtain net gross drift where n: "drift_fields pg_pnl gross = Some drift"
      "d = dict_update enriched (named @ (?mid @ ?more) @ drift @ ?last net)"
    using assms(1) e f by (auto simp: enrich_row_def split: bind_splits)
  have d: "d = dict_update (dict_update enriched (named @ ?mid)) (?more @ drift @ ?last net)"
    unfolding n(2) by (simp only: dict_update_append append_assoc)
  have same: "attribution d = attribution (dict_update enriched (named @ ?mid))"
    unfolding d by (rule attribution_skip) (use drift_fields_keys[OF n(1)] in \<open>auto split: option.splits\<close>)
  then have source: "dict_get (dict_update enriched (named @ ?mid)) ''strategy_source'' PNone = PStr ''pg_time_window''"
    using assms(2) by (simp add: attribution_def)
  show ?thesis
  proof (cases "named_match (order_match_of (sv_rep sv) by_order row)")
    case (Some m)
    then have "named = [(''strategy_name'', PStr (om_strategy m)), (''strategy_source'', PStr ''pg_fill'')]"
      using f by (auto simp: strategy_fields_def Let_def)
    then show ?thesis using source by (simp add: dict_get_def dict_simps)
  next
    case None
    show ?thesis
    proof (cases "map_of by_time i")
      case (Some t)
      then have "named = [(''strategy_name'', PStr (tm_strategy t)), (''strategy_source'', PStr ''pg_time_window''),
          (''strategy_match_delta_ms'', PInt (tm_delta_ms t))]" "pg_pnl = tm_pnl t"
        using f None by (auto simp: strategy_fields_def Let_def)
      then show ?thesis using same None Some by (simp add: attribution_def dict_get_def dict_simps)
    next
      case no: None
      obtain name link where l: "strategy_from_order_link_id (sv_rep sv) (sv_owners sv) (dict_get row ''orderLinkId'' PNone)
          (py_str (sv_rep sv) (py_or (dict_get enriched ''symbol'' PNone) (PStr []))) = (name, link)"
        by fastforce
      have "named = [(''strategy_name'', PStr name), (''strategy_source'', PStr link)]"
        using f None no l by (auto simp: strategy_fields_def Let_def)
      then have "link = ''pg_time_window''" using source by (simp add: dict_get_def dict_simps)
      then show ?thesis using link_source l by (metis snd_conv)
    qed
  qed
qed

section \<open>The properties\<close>

text \<open>Every payload says where its rows come from, and an update of the other entries keeps that.\<close>

definition from_exchange :: "pydict \<Rightarrow> pydict list \<Rightarrow> bool" where
  "from_exchange p out \<longleftrightarrow> dict_get p ''source'' PNone = PStr ''bybit_api'' \<and> dict_get p ''list'' PNone = PList (map PDict out)"

definition from_table :: "pydict \<Rightarrow> pydict list \<Rightarrow> bool" where
  "from_table p out \<longleftrightarrow> dict_get p ''source'' PNone = PStr ''pg_fallback'' \<and> dict_get p ''list'' PNone = PList (map PDict out) \<and>
     list_all (\<lambda>d. learns d = (PNone, PStr ''bybit_unavailable_fail_closed'')) out"

lemma from_table_update:
  "\<exists>out. from_table p out \<Longrightarrow> {''source'', ''list''} \<inter> fst ` set e = {} \<Longrightarrow> \<exists>out. from_table (dict_update p e) out"
  by (simp add: from_table_def dict_update_skip)

lemma fallback_from_table:
  assumes "fetch_pg_closed_pnl_fallback sv limit offset symbol start_ms end_ms modes w = (Some p, w')"
  shows "\<exists>out. from_table p out"
proof -
  let ?rq = "\<lparr>fq_modes = default_modes modes, fq_start_ms = start_ms, fq_end_ms = end_ms,
      fq_symbol = (if truthy symbol then symbol else PNone), fq_limit = limit + 1, fq_offset = offset\<rparr>"
  obtain all where all: "sv_fills sv ?rq = Some all"
    using assms by (cases "sv_fills sv ?rq") (simp_all add: fetch_pg_closed_pnl_fallback_def)
  define rows where "rows = take (nat limit) all"
  obtain out where out: "map_opt (fallback_row (sv_rep sv)) rows = Some out"
    using assms by (cases "map_opt (fallback_row (sv_rep sv)) rows")
      (simp_all add: fetch_pg_closed_pnl_fallback_def all rows_def Let_def)
  obtain next_cursor now where "p = table_payload out limit offset next_cursor now"
    using assms by (auto simp: fetch_pg_closed_pnl_fallback_def all out[unfolded rows_def] Let_def simp del: map_opt.simps split: prod.splits)
  then have "dict_get p ''source'' PNone = PStr ''pg_fallback''" "dict_get p ''list'' PNone = PList (map PDict out)"
    by (simp_all add: table_payload_def dict_get_def)
  moreover from out have "list_all (\<lambda>d. learns d = (PNone, PStr ''bybit_unavailable_fail_closed'')) out"
    by (rule map_opt_all) (simp add: fallback_row_worth)
  ultimately show ?thesis unfolding from_table_def by blast
qed

lemma added_fields:
  "{''source'', ''list''} \<inter> fst ` set (degraded_fields f @ range_fields s e l) = {}"
  "{''source'', ''list''} \<inter> fst ` set (no_client_fields r @ range_fields s e l) = {}"
  "{''source'', ''list''} \<inter> fst ` set (range_fields s e l) = {}"
  by (simp_all add: degraded_fields_def failure_fields_def no_client_fields_def range_fields_def)

lemma degraded_from_table:
  assumes "degraded_payload sv limit start_ms end_ms symbol modes fs w = (Inr p, fs', w')"
  shows "\<exists>out. from_table p out"
proof -
  obtain fo fs1 and w1 :: world where f: "record_closed_pnl_bybit_failure fs w = (fo, fs1, w1)" by (rule prod_cases3)
  obtain q and w2 :: world where q: "fetch_pg_closed_pnl_fallback sv limit 0 symbol start_ms end_ms modes w1 = (q, w2)"
    by fastforce
  obtain f' d where fd: "fo = Some f'" "q = Some d"
    using assms by (cases fo; cases q) (simp_all add: degraded_payload_def f q)
  have "p = dict_update d (degraded_fields f' @ range_fields start_ms end_ms limit)"
    using assms by (simp add: degraded_payload_def f q fd)
  then show ?thesis
    using from_table_update[OF fallback_from_table[OF q[unfolded fd]] added_fields(1)] by simp
qed

lemma no_client_from_table:
  assumes "no_client_payload sv limit start_ms end_ms symbol modes reason fs w = (Inr p, fs', w')"
  shows "\<exists>out. from_table p out"
proof -
  obtain q and w1 :: world where q: "fetch_pg_closed_pnl_fallback sv limit 0 symbol start_ms end_ms modes w = (q, w1)"
    by fastforce
  show ?thesis
  proof (cases q)
    case None
    then have "p = disabled_payload reason limit start_ms end_ms (fst (now_ms w1))"
      using assms by (simp add: no_client_payload_def q split: prod.splits)
    then have "from_table p []"
      by (simp add: disabled_payload_def from_table_def dict_get_def)
    then show ?thesis by blast
  next
    case (Some d)
    then have "p = dict_update d (no_client_fields reason @ range_fields start_ms end_ms limit)"
      using assms by (simp add: no_client_payload_def q)
    then show ?thesis
      using from_table_update[OF fallback_from_table[OF q[unfolded Some]] added_fields(2)] by simp
  qed
qed

lemma pg_from_table:
  assumes "pg_payload sv limit d start_ms end_ms symbol modes fs w = (Inr p, fs', w')"
  shows "\<exists>out. from_table p out"
proof -
  let ?c = "do { ms \<leftarrow> py_iter (py_or (dict_get d ''engine_modes'' PNone) (PList modes));
                offset \<leftarrow> to_int (py_or (dict_get d ''offset'' PNone) (PInt 0)); Some (ms, offset) }"
  obtain ms offset where c: "?c = Some (ms, offset)"
    using assms by (cases ?c) (auto simp: pg_payload_def)
  obtain q and w1 :: world where q: "fetch_pg_closed_pnl_fallback sv limit offset symbol start_ms end_ms ms w = (q, w1)"
    by fastforce
  obtain r where r: "q = Some r"
    using assms by (cases q) (simp_all add: pg_payload_def c q)
  have "p = dict_update r (range_fields start_ms end_ms limit)"
    using assms by (simp add: pg_payload_def c q r)
  then show ?thesis
    using from_table_update[OF fallback_from_table[OF q[unfolded r]] added_fields(3)] by simp
qed

lemma client_payload_worth:
  assumes "client_payload sv rc limit cursor start_ms end_ms symbol modes fs w = (Inr p, fs', w')"
  shows "(\<exists>out. from_table p out) \<or>
    (\<exists>rows c out. fetch_closed_pnl_bybit_history_page (sv_json sv) (sv_rep sv) rc limit cursor symbol start_ms end_ms = Inr (rows, c) \<and>
       attach_closed_pnl_strategy sv modes rows = Some out \<and> from_exchange p out)"
proof (cases "fetch_closed_pnl_bybit_history_page (sv_json sv) (sv_rep sv) rc limit cursor symbol start_ms end_ms")
  case (Inl e)
  then have "degraded_payload sv limit start_ms end_ms symbol modes fs w = (Inr p, fs', w')"
    using assms by (simp add: client_payload_def)
  then show ?thesis using degraded_from_table by blast
next
  case (Inr a)
  obtain rows c where rows: "a = (rows, c)" by (cases a)
  show ?thesis
  proof (cases "attach_closed_pnl_strategy sv modes rows")
    case None
    then have "degraded_payload sv limit start_ms end_ms symbol modes (clear_closed_pnl_bybit_failures fs) w = (Inr p, fs', w')"
      using assms Inr rows by (simp add: client_payload_def)
    then show ?thesis using degraded_from_table by blast
  next
    case (Some out)
    then have "p = exchange_payload out c limit start_ms end_ms (fst (now_ms w))"
      using assms Inr rows by (simp add: client_payload_def split: prod.splits)
    then have "from_exchange p out"
      by (simp add: from_exchange_def exchange_payload_def dict_get_def)
    then show ?thesis using Inr rows Some by blast
  qed
qed

text \<open>C16: No profit to learn from is invented. Every preload that answers names the source of its rows. Rows from the
  exchange are the rows of the page, each with the exchange's own net profit as the value to learn from and as the
  authoritative one where the exchange gives a number, and otherwise None, marked as missing. Rows of the
  local table, which holds estimates only, have None to learn from, whichever way the table came to answer.\<close>

theorem closed_pnl_learning_honest:
  assumes "closed_pnl_history_cursor_payload sv limit cursor symbol start_time end_time lookback_days modes reason fs w = (Inr p, fs', w')"
  shows "(\<exists>out. from_table p out) \<or>
    (\<exists>rc start_ms end_ms sb rows c out. sv_rc sv = Some rc \<and>
       fetch_closed_pnl_bybit_history_page (sv_json sv) (sv_rep sv) rc limit cursor sb start_ms end_ms = Inr (rows, c) \<and>
       from_exchange p out \<and>
       list_all2 (\<lambda>row d. \<exists>x. safe_float (dict_get row ''closedPnl'' PNone) = Some x \<and>
         learns d = (opt_float x, bybit_source x) \<and> claims d = (opt_float x, bybit_source x)) rows out)"
proof -
  obtain d where d: "closed_pnl_decode_cursor (sv_json sv) cursor = Inr d"
    using assms by (cases "closed_pnl_decode_cursor (sv_json sv) cursor") (simp_all add: closed_pnl_history_cursor_payload_def)
  obtain b and w1 :: world where b: "closed_pnl_history_bounds start_time end_time lookback_days w = (b, w1)" by fastforce
  obtain se where se: "b = Inr se"
    using assms by (cases b) (simp_all add: closed_pnl_history_cursor_payload_def d b)
  obtain s e where se': "se = (s, e)" by (cases se)
  obtain r where r: "cursor_range d s e (opt_str symbol) = Some r"
    using assms by (cases "cursor_range d s e (opt_str symbol)") (simp_all add: closed_pnl_history_cursor_payload_def d b se se')
  obtain start_ms end_ms sb where r': "r = (start_ms, end_ms, sb)" by (cases r)
  note step = assms[unfolded closed_pnl_history_cursor_payload_def, simplified d b se se' r r' Let_def sum.case prod.case option.case]
  consider "pg_payload sv limit d start_ms end_ms sb (default_modes modes) fs w1 = (Inr p, fs', w')"
    | "no_client_payload sv limit start_ms end_ms sb (default_modes modes) reason fs w1 = (Inr p, fs', w')"
    | rc where "sv_rc sv = Some rc" "client_payload sv rc limit cursor start_ms end_ms sb (default_modes modes) fs w1 = (Inr p, fs', w')"
    using step by (cases "sv_rc sv") (simp_all split: if_splits)
  then show ?thesis
  proof cases
    case 1
    then show ?thesis using pg_from_table by blast
  next
    case 2
    then show ?thesis using no_client_from_table by blast
  next
    case 3
    from client_payload_worth[OF 3(2)] show ?thesis
    proof (elim disjE exE conjE)
      fix rows c out
      assume a: "fetch_closed_pnl_bybit_history_page (sv_json sv) (sv_rep sv) rc limit cursor sb start_ms end_ms = Inr (rows, c)"
        "attach_closed_pnl_strategy sv (default_modes modes) rows = Some out" "from_exchange p out"
      show ?thesis
        by (rule disjI2) (use 3(1) a attach_worth[OF a(2), unfolded closed_pnl_float_def] in blast)
    qed blast
  qed
qed

definition demo_services :: pnl_services where
  "demo_services =
     \<lparr>sv_rc = Some (\<lambda>k rq. Some (PDict [(''list'', PList [PDict [(''closedPnl'', PFloat (Fin 5))], PDict []])])),
      sv_owners = (\<lambda>e. []), sv_orders = (\<lambda>ms ids. None), sv_nearby = (\<lambda>q. None), sv_fills = (\<lambda>q. None),
      sv_match_ms = 600000, sv_rep = (\<lambda>v. []), sv_json = demo_json\<rparr>"

lemma snake_row_some:
  assumes "closed_pnl_float row ''updatedTime'' = Some None" "closed_pnl_float row ''createdTime'' = Some None"
    and "\<And>k. closed_pnl_float row k \<noteq> None"
  shows "closed_pnl_snake_row row \<noteq> None"
  using assms(1,2) assms(3)[of "''closedPnl''"] assms(3)[of "''openFee''"] assms(3)[of "''closeFee''"] assms(3)[of "''qty''"]
    assms(3)[of "''avgEntryPrice''"] assms(3)[of "''avgExitPrice''"] assms(3)[of "''closedSize''"]
  by (auto simp: closed_pnl_snake_row_def or_zero_def Let_def simp del: dict_update.simps)

lemma snake_row_gross:
  "closed_pnl_snake_row row = Some d \<Longrightarrow> \<exists>g. dict_get d ''bybit_gross_pnl'' PNone = opt_float g"
  by (auto simp: closed_pnl_snake_row_def dict_get_def dict_simps Let_def split: bind_splits)

lemma safe_float_opt: "safe_float (opt_float g) \<noteq> None"
  by (simp add: safe_float_def opt_float_def py_float_def split: option.split)

definition demo_rows :: "pydict list" where
  "demo_rows = [[(''closedPnl'', PFloat (Fin 5))], []]"

lemma demo_page:
  "fetch_closed_pnl_bybit_history_page demo_json (\<lambda>v. []) (\<lambda>k rq. Some (PDict [(''list'', PList [PDict [(''closedPnl'', PFloat (Fin 5))], PDict []])]))
     2 None PNone 1 2 = Inr (demo_rows, None)"
  by (simp add: demo_rows_def fetch_closed_pnl_bybit_history_page_def initial_cursor page_loop.simps page_round_def page_items_def
      next_page_cursor_def closed_pnl_previous_window_state_def closed_pnl_initial_bybit_state_def start_paging_def
      page_request_of_def dict_get_def Let_def MAX_WINDOW_MS_def MAX_WINDOWS_PER_PRELOAD_def page_result_def
      resume_state_def List.map_filter_simps numeral_2_eq_2)

lemma demo_floats: "row \<in> set demo_rows \<Longrightarrow> closed_pnl_float row k \<noteq> None"
  by (auto simp: demo_rows_def closed_pnl_float_def safe_float_def dict_get_def py_float_def)

lemma demo_snake: "row \<in> set demo_rows \<Longrightarrow> closed_pnl_snake_row row \<noteq> None"
  by (rule snake_row_some[OF _ _ demo_floats])
    (auto simp: demo_rows_def closed_pnl_float_def safe_float_def dict_get_def py_float_def)

lemma demo_enrich:
  assumes "row \<in> set demo_rows"
  shows "enrich_row demo_services [] [] (i, row) \<noteq> None"
proof -
  obtain d where d: "closed_pnl_snake_row row = Some d" using demo_snake[OF assms] by blast
  obtain g where "dict_get d ''bybit_gross_pnl'' PNone = opt_float g" using snake_row_gross[OF d] by blast
  then obtain gross where g: "safe_float (dict_get d ''bybit_gross_pnl'' PNone) = Some gross"
    using safe_float_opt[of g] by auto
  obtain net where n: "closed_pnl_float row ''closedPnl'' = Some net" using demo_floats[OF assms] by blast
  have m: "order_match_of rep [] row = None" for rep by (simp add: order_match_of_def Let_def)
  obtain name source where ns: "strategy_from_order_link_id (sv_rep demo_services) (sv_owners demo_services) (dict_get row ''orderLinkId'' PNone)
      (py_str (sv_rep demo_services) (py_or (dict_get d ''symbol'' PNone) (PStr []))) = (name, source)"
    by fastforce
  show ?thesis
    by (simp add: enrich_row_def d g n m ns strategy_fields_def named_match_def drift_fields_def Let_def del: dict_update.simps)
qed

lemma demo_attach: "attach_closed_pnl_strategy demo_services modes demo_rows \<noteq> None"
proof -
  have ids: "concat (map (row_ids rep) demo_rows) = [[], [], [], []]" for rep
    by (simp add: demo_rows_def row_ids_def dict_get_def py_or_def py_str_def text_strip_def)
  have orders: "fetch_strategy_by_order_id demo_services [] modes = []"
    by (simp add: fetch_strategy_by_order_id_def sorted_set_def)
  have times: "time_targets rep (enumerate 0 demo_rows) = Some []" for rep
    by (simp add: demo_rows_def time_fallback_allowed_def link_text_def dict_get_def py_or_def py_str_def text_strip_def
        closed_pnl_time_ms_def safe_float_def py_float_def Let_def)
  have all: "map_opt (enrich_row demo_services [] []) (enumerate 0 demo_rows) \<noteq> None"
    using demo_enrich[of "demo_rows ! 0" 0] demo_enrich[of "demo_rows ! 1" 1] by (auto simp: demo_rows_def)
  have "(case order_match_of rep [] row of None \<Rightarrow> None | Some x \<Rightarrow> if om_strategy x \<noteq> [] then Some x else None) = None" for rep row
    by (simp add: order_match_of_def Let_def)
  then show ?thesis
    using all
    by (simp add: attach_closed_pnl_strategy_def ids orders named_match_def fetch_strategy_by_symbol_time_def times Let_def
        case_prod_unfold del: enumerate_simps)
qed

theorem closed_pnl_learning_honest_witness:
  "\<exists>p fs' w'. closed_pnl_history_cursor_payload demo_services 2 None None (PInt 1) (PInt 2) (PInt 1) [] ''down'' [] (sample_world 0) = (Inr p, fs', w') \<and>
     ((\<exists>out. from_table p out) \<or> (\<exists>out. from_exchange p out))"
proof -
  let ?r = "closed_pnl_history_cursor_payload demo_services 2 None None (PInt 1) (PInt 2) (PInt 1) [] ''down'' [] (sample_world 0)"
  obtain out where out: "attach_closed_pnl_strategy demo_services (default_modes []) demo_rows = Some out"
    using demo_attach[of "default_modes []"] by blast
  have b: "closed_pnl_history_bounds (PInt 1) (PInt 2) (PInt 1) (sample_world 0) = (Inr (1, 2), snd (now_ms (sample_world 0)))"
    by (simp add: closed_pnl_history_bounds_def closed_pnl_optional_ms_def to_int_def Let_def split: prod.split)
  have d: "closed_pnl_decode_cursor demo_json None = Inr []" by (simp add: closed_pnl_decode_cursor_def)
  have rc: "sv_rc demo_services = Some (\<lambda>k rq. Some (PDict [(''list'', PList [PDict [(''closedPnl'', PFloat (Fin 5))], PDict []])]))"
    "sv_json demo_services = demo_json" "sv_rep demo_services = (\<lambda>v. [])"
    by (simp_all add: demo_services_def)
  obtain now and w' :: world where now: "now_ms (snd (now_ms (sample_world 0))) = (now, w')" by fastforce
  have r: "?r = (Inr (exchange_payload out None 2 1 2 now), [], w')"
    by (simp add: closed_pnl_history_cursor_payload_def d b cursor_range_def dict_get_def rc client_payload_def
        demo_page out opt_str_def clear_closed_pnl_bybit_failures_def now Let_def)
  show ?thesis using closed_pnl_learning_honest[OF r] r by blast
qed

text \<open>What the local table knows by order and link id of the rows of a page, and the rows of the page that are
  attributed by symbol and time.\<close>

definition by_order_of :: "pnl_services \<Rightarrow> pyval list \<Rightarrow> pydict list \<Rightarrow> (string \<times> order_match) list" where
  "by_order_of sv modes rows =
     fetch_strategy_by_order_id sv (filter (\<lambda>i. i \<noteq> []) (concat (map (row_ids (sv_rep sv)) rows))) modes"

definition timed_rows :: "pydict list \<Rightarrow> nat set" where
  "timed_rows out = {i. i < length out \<and> dict_get (out ! i) ''strategy_source'' PNone = PStr ''pg_time_window''}"

text \<open>C22: Two rows of a page that are attributed by symbol and time never rest on the same fill. Every such row
  names no order the local table knows a strategy for, and rests on a fill that a query of the table brought, of the
  row's own symbol and at most the configured distance away in time; strategy and profit of the fill and the distance
  are entered in the row, and the fills of two such rows differ in order id, time or strategy. Nothing is said of the
  rows that are attributed by order id: they do not mark their fill as used.\<close>

theorem closed_pnl_fill_used_once:
  assumes "attach_closed_pnl_strategy sv modes rows = Some out"
  shows "length out = length rows \<and>
    (\<exists>fill. inj_on (\<lambda>i. fill_key (fill i)) (timed_rows out) \<and>
      (\<forall>i \<in> timed_rows out. named_match (order_match_of (sv_rep sv) (by_order_of sv modes rows) (rows ! i)) = None \<and> 
         (\<exists>ts q nearby cs. closed_pnl_time_ms (rows ! i) = Some ts \<and>
         sv_nearby sv q = Some nearby \<and> candidates (sv_rep sv) nearby = Some cs \<and>
         (text_strip (py_str (sv_rep sv) (py_or (dict_get (rows ! i) ''symbol'' PNone) (PStr []))), fill i) \<in> set cs \<and>
         \<bar>cd_ts_ms (fill i) - ts\<bar> \<le> sv_match_ms sv \<and>
         attribution (out ! i) = (PStr ''pg_time_window'', PStr (cd_strategy (fill i)),
           PInt \<bar>cd_ts_ms (fill i) - ts\<bar>, opt_float (cd_pnl (fill i))))))"
proof -
  define by_order where "by_order = by_order_of sv modes rows"
  obtain by_time where found:
      "fetch_strategy_by_symbol_time sv (filter (\<lambda>(i, row). named_match (order_match_of (sv_rep sv) by_order row) = None) (enumerate 0 rows)) modes
        = Some by_time" "map_opt (enrich_row sv by_order by_time) (enumerate 0 rows) = Some out"
    using assms by (auto simp: attach_closed_pnl_strategy_def by_order_def by_order_of_def Let_def split: bind_splits)
  from map_opt_all2[OF found(2)] have len: "length out = length rows"
    and row: "\<And>i. i < length rows \<Longrightarrow> enrich_row sv by_order by_time (i, rows ! i) = Some (out ! i)"
    by (auto simp: list_all2_conv_all_nth nth_enumerate_eq)
  obtain ms where ms: "by_time = map (\<lambda>(i, c, delta). (i, time_match_of c delta)) ms"
      "distinct (map (\<lambda>(i, c, delta). fill_key c) ms)"
    and fills: "\<And>i c delta. (i, c, delta) \<in> set ms \<Longrightarrow> \<exists>row ts q nearby cs.
        (i, row) \<in> set (filter (\<lambda>(i, row). named_match (order_match_of (sv_rep sv) by_order row) = None) (enumerate 0 rows)) \<and>
        closed_pnl_time_ms row = Some ts \<and> sv_nearby sv q = Some nearby \<and> candidates (sv_rep sv) nearby = Some cs \<and>
        (text_strip (py_str (sv_rep sv) (py_or (dict_get row ''symbol'' PNone) (PStr []))), c) \<in> set cs \<and>
        delta = \<bar>cd_ts_ms c - ts\<bar> \<and> delta \<le> sv_match_ms sv"
    by (rule timed_matches[OF found(1)]) blast
  have unnamed: "\<forall>i \<in> timed_rows out. named_match (order_match_of (sv_rep sv) by_order (rows ! i)) = None"
    using enrich_row_timed[OF row] len by (auto simp: timed_rows_def)
  have "\<forall>i \<in> timed_rows out. \<exists>c delta. (i, c, delta) \<in> set ms \<and> attribution (out ! i) =
      (PStr ''pg_time_window'', PStr (cd_strategy c), PInt delta, opt_float (cd_pnl c))"
  proof
    fix i
    assume "i \<in> timed_rows out"
    then obtain t where t: "map_of by_time i = Some t" "attribution (out ! i) =
        (PStr ''pg_time_window'', PStr (tm_strategy t), PInt (tm_delta_ms t), opt_float (tm_pnl t))"
      using enrich_row_timed[OF row] len by (auto simp: timed_rows_def)
    from map_of_SomeD[OF t(1)] obtain c delta where "(i, c, delta) \<in> set ms" "t = time_match_of c delta"
      unfolding ms(1) by auto
    then show "\<exists>c delta. (i, c, delta) \<in> set ms \<and> attribution (out ! i) =
        (PStr ''pg_time_window'', PStr (cd_strategy c), PInt delta, opt_float (cd_pnl c))"
      using t(2) by (auto simp: time_match_of_def)
  qed
  then obtain fill delta where f: "\<forall>i \<in> timed_rows out. (i, fill i, delta i) \<in> set ms \<and> attribution (out ! i) =
      (PStr ''pg_time_window'', PStr (cd_strategy (fill i)), PInt (delta i), opt_float (cd_pnl (fill i)))"
    by metis
  have "inj_on (\<lambda>i. fill_key (fill i)) (timed_rows out)"
  proof (rule inj_onI)
    fix i j
    assume "i \<in> timed_rows out" "j \<in> timed_rows out" "fill_key (fill i) = fill_key (fill j)"
    then have "(i, fill i, delta i) = (j, fill j, delta j)"
      using f by (intro inj_onD[OF ms(2)[unfolded distinct_map, THEN conjunct2]]) auto
    then show "i = j" by simp
  qed
  moreover have "\<exists>ts q nearby cs. closed_pnl_time_ms (rows ! i) = Some ts \<and>
         sv_nearby sv q = Some nearby \<and> candidates (sv_rep sv) nearby = Some cs \<and>
         (text_strip (py_str (sv_rep sv) (py_or (dict_get (rows ! i) ''symbol'' PNone) (PStr []))), fill i) \<in> set cs \<and>
         \<bar>cd_ts_ms (fill i) - ts\<bar> \<le> sv_match_ms sv \<and>
         attribution (out ! i) = (PStr ''pg_time_window'', PStr (cd_strategy (fill i)),
           PInt \<bar>cd_ts_ms (fill i) - ts\<bar>, opt_float (cd_pnl (fill i)))" if "i \<in> timed_rows out" for i
  proof -
    have m: "(i, fill i, delta i) \<in> set ms" using f that by blast
    have "row = rows ! i" if "(i, row) \<in> set (enumerate 0 rows)" for row
      using that by (auto simp: in_set_enumerate_eq)
    then show ?thesis using fills[OF m] f that by fastforce
  qed
  ultimately show ?thesis using len unnamed unfolding by_order_def by blast
qed

text \<open>A page of three rows, the first with the order id of the only fill, all of its symbol and time.\<close>

definition shared_rows :: "pydict list" where
  "shared_rows =
     [[(''orderId'', PStr ''o1''), (''symbol'', PStr ''BTC''), (''updatedTime'', PFloat (Fin 1000))],
      [(''symbol'', PStr ''BTC''), (''updatedTime'', PFloat (Fin 1000))],
      [(''symbol'', PStr ''BTC''), (''updatedTime'', PFloat (Fin 1000))]]"

definition shared_services :: pnl_services where
  "shared_services = demo_services
     \<lparr>sv_orders := \<lambda>ms ids. Some [\<lparr>or_order_id = PStr ''o1'', or_strategy = PStr ''grid'', or_pnl = PNone, or_fee = PNone\<rparr>],
      sv_nearby := \<lambda>q. Some [\<lparr>nr_ts = Some (Fin 1), nr_order_id = PStr ''o1'', nr_symbol = PStr ''BTC'', nr_side = PNone,
        nr_qty = PNone, nr_pnl = PNone, nr_fee = PNone, nr_strategy = PStr ''grid''\<rparr>]\<rparr>"

definition shared_fill :: candidate where
  "shared_fill = \<lparr>cd_ts_ms = 1000, cd_order_id = ''o1'', cd_pnl = None, cd_fee = None, cd_strategy = ''grid''\<rparr>"

lemma fl_round_1000: "fl_round 1000 = Fin 1000" "fl_round 0 = Fin 0"
  using fl_round_of_int[of 1000] fl_round_of_int[of 0] by simp_all

lemma shared_services_sel:
  "sv_rep shared_services = (\<lambda>v. [])" "sv_match_ms shared_services = 600000" "sv_owners shared_services = (\<lambda>e. [])"
  "sv_orders shared_services ms ids = Some [\<lparr>or_order_id = PStr ''o1'', or_strategy = PStr ''grid'', or_pnl = PNone, or_fee = PNone\<rparr>]"
  "sv_nearby shared_services q = Some [\<lparr>nr_ts = Some (Fin 1), nr_order_id = PStr ''o1'', nr_symbol = PStr ''BTC'', nr_side = PNone,
        nr_qty = PNone, nr_pnl = PNone, nr_fee = PNone, nr_strategy = PStr ''grid''\<rparr>]"
  by (simp_all add: shared_services_def demo_services_def)

lemma shared_ids: "map (row_ids rep) shared_rows = [[''o1'', []], [[], []], [[], []]]"
  by (simp add: shared_rows_def row_ids_def dict_get_def py_or_def py_str_def text_strip_def is_strip_space_def is_space_def)

lemma shared_by_order:
  "by_order_of shared_services modes shared_rows = [(''o1'', \<lparr>om_strategy = ''grid'', om_pnl = None, om_fee = None\<rparr>)]"
  by (simp add: by_order_of_def shared_services_sel shared_ids fetch_strategy_by_order_id_def sorted_set_def order_entry_def
      safe_float_def py_float_def py_str_def)

lemma shared_time:
  assumes "row \<in> set shared_rows"
  shows "closed_pnl_time_ms row = Some 1000" "bybit_gross_pnl row = Some None"
    "time_fallback_allowed rep (dict_get row ''orderLinkId'' PNone)"
    "text_strip (py_str rep (py_or (dict_get row ''symbol'' PNone) (PStr []))) = ''BTC''"
  using assms
  by (auto simp: shared_rows_def closed_pnl_time_ms_def bybit_gross_pnl_def safe_float_def dict_get_def py_float_def
      time_fallback_allowed_def link_text_def py_or_def py_str_def text_strip_def is_strip_space_def is_space_def
      is_nan_def Let_def)

lemma shared_nearby:
  assumes "sv_nearby shared_services q = Some nearby"
  shows "candidates (sv_rep shared_services) nearby = Some [(''BTC'', shared_fill)]"
  using assms
  by (auto simp: shared_services_sel shared_fill_def row_ms_def fl_round_1000 safe_float_def py_float_def py_str_def py_or_def
      Let_def)

lemma shared_by_time:
  "fetch_strategy_by_symbol_time shared_services [(1, shared_rows ! 1), (2, shared_rows ! 2)] modes =
     Some [(1, time_match_of shared_fill 0)]"
proof -
  let ?row = "[(''symbol'', PStr ''BTC''), (''updatedTime'', PFloat (Fin 1000))]"
  have rows: "shared_rows ! 1 = ?row" "shared_rows ! 2 = ?row" and "?row \<in> set shared_rows"
    by (simp_all add: shared_rows_def)
  then have t: "time_targets rep [(1, shared_rows ! 1), (2, shared_rows ! 2)] = Some [(1, ''BTC'', 1000, None), (2, ''BTC'', 1000, None)]" for rep
    unfolding rows by (simp add: shared_time Let_def)
  obtain nearby where n: "sv_nearby shared_services q = Some nearby" for q by (simp add: shared_services_sel)
  have m: "match_targets 600000 [(''BTC'', shared_fill)] [] [(1, ''BTC'', 1000, None), (2, ''BTC'', 1000, None)] =
      Some [(1, shared_fill, 0)]"
    by (simp add: shared_fill_def fill_key_def match_score_def to_float_def py_float_def fl_round_1000)
  show ?thesis
    by (simp add: fetch_strategy_by_symbol_time_def t n shared_nearby[OF n] shared_services_sel(2) m
        del: time_targets.simps match_targets.simps One_nat_def)
qed

lemma shared_float:
  assumes "row \<in> set shared_rows"
  shows "closed_pnl_float row ''updatedTime'' = Some (Some (Fin 1000))" "closed_pnl_float row ''createdTime'' = Some None"
    "closed_pnl_float row ''closedPnl'' = Some None" "closed_pnl_float row ''openFee'' = Some None"
    "closed_pnl_float row ''closeFee'' = Some None" "closed_pnl_float row ''qty'' = Some None"
    "closed_pnl_float row ''avgEntryPrice'' = Some None" "closed_pnl_float row ''avgExitPrice'' = Some None"
    "closed_pnl_float row ''closedSize'' = Some None"
  using assms by (auto simp: shared_rows_def closed_pnl_float_def safe_float_def dict_get_def py_float_def is_nan_def)

lemma shared_snake:
  assumes "row \<in> set shared_rows"
  shows "\<exists>d. closed_pnl_snake_row row = Some d \<and> dict_get d ''bybit_gross_pnl'' PNone = PNone \<and>
    attribution d = (PNone, PNone, PNone, PNone)"
proof -
  have n: "map_of row ''strategy_source'' = None \<and> map_of row ''strategy_name'' = None \<and>
      map_of row ''strategy_match_delta_ms'' = None \<and> map_of row ''pg_engine_pnl'' = None"
    using assms by (auto simp: shared_rows_def)
  show ?thesis
    using n by (simp add: closed_pnl_snake_row_def shared_float[OF assms] or_zero_def attribution_def opt_float_def dict_get_def
        dict_simps Let_def)
qed

lemma shared_enrich:
  assumes "row \<in> set shared_rows"
    and "strategy_fields shared_services (order_match_of (\<lambda>v. []) by_order row) (map_of by_time i) row = (\<lambda>d. (named, None, None))"
  shows "\<exists>d e. enrich_row shared_services by_order by_time (i, row) = Some d \<and> attribution e = (PNone, PNone, PNone, PNone) \<and>
    attribution d = attribution (dict_update e (named @ [(''pg_engine_pnl'', PNone)]))"
proof -
  obtain e where e: "closed_pnl_snake_row row = Some e" "dict_get e ''bybit_gross_pnl'' PNone = PNone"
      "attribution e = (PNone, PNone, PNone, PNone)"
    using shared_snake[OF assms(1)] by blast
  let ?more = "[(''pg_engine_gross_pnl'', PNone), (''pg_engine_close_fee'', PNone),
      (''pnl_source_drift_basis'', PStr ''pg_gross_vs_bybit_gross_before_fees''),
      (''pnl_source_drift_usd'', PNone), (''pnl_source_drift_pct'', PNone)]"
  have "enrich_row shared_services by_order by_time (i, row) = Some (dict_update e (named @ [(''pg_engine_pnl'', PNone)] @ ?more))"
    by (simp add: enrich_row_def e shared_services_sel assms(2) shared_float[OF assms(1)] safe_float_def py_float_def drift_fields_def
        opt_float_def Let_def del: dict_update.simps)
  then have "enrich_row shared_services by_order by_time (i, row) = Some (dict_update (dict_update e (named @ [(''pg_engine_pnl'', PNone)])) ?more)"
    by (simp only: dict_update_append append_assoc)
  moreover have "attribution (dict_update (dict_update e (named @ [(''pg_engine_pnl'', PNone)])) ?more) =
      attribution (dict_update e (named @ [(''pg_engine_pnl'', PNone)]))"
    by (rule attribution_skip) simp
  ultimately show ?thesis using e(3) by blast
qed

text \<open>The first row has the fill by its order id, the second has it again by time, the third has none.\<close>

lemma closed_pnl_fill_shared:
  "\<exists>out. attach_closed_pnl_strategy shared_services modes shared_rows = Some out \<and> map attribution out =
     [(PStr ''pg_fill'', PStr ''grid'', PNone, PNone), (PStr ''pg_time_window'', PStr ''grid'', PInt 0, PNone),
      (PStr ''bybit_unknown'', PStr ''external_manual'', PNone, PNone)]"
proof -
  let ?o = "[(''o1'', \<lparr>om_strategy = ''grid'', om_pnl = None, om_fee = None\<rparr>)]"
  let ?t = "[(1::nat, time_match_of shared_fill 0)]"
  let ?r = "\<lambda>i. shared_rows ! i"
  have in_rows: "?r 0 \<in> set shared_rows" "?r 1 \<in> set shared_rows" "?r 2 \<in> set shared_rows" by (simp_all add: shared_rows_def)
  have rows: "enumerate 0 shared_rows = [(0, ?r 0), (1, ?r 1), (2, ?r 2)]" by (simp add: shared_rows_def numeral_2_eq_2)
  have ids: "row_ids rep (?r 0) = [''o1'', []]" "row_ids rep (?r 1) = [[], []]" "row_ids rep (?r 2) = [[], []]" for rep
    using shared_ids[of rep] by (simp_all add: shared_rows_def)
  have om: "order_match_of rep ?o (?r 0) = Some \<lparr>om_strategy = ''grid'', om_pnl = None, om_fee = None\<rparr>"
      "order_match_of rep ?o (?r 1) = None" "order_match_of rep ?o (?r 2) = None" for rep
    by (simp_all add: order_match_of_def ids Let_def del: One_nat_def)
  have link: "dict_get (?r 2) ''orderLinkId'' PNone = PNone" by (simp add: shared_rows_def dict_get_def)
  have f: "strategy_fields shared_services (order_match_of (\<lambda>v. []) ?o (?r 0)) (map_of ?t 0) (?r 0) =
        (\<lambda>d. ([(''strategy_name'', PStr ''grid''), (''strategy_source'', PStr ''pg_fill'')], None, None))"
      "strategy_fields shared_services (order_match_of (\<lambda>v. []) ?o (?r 1)) (map_of ?t 1) (?r 1) =
        (\<lambda>d. ([(''strategy_name'', PStr ''grid''), (''strategy_source'', PStr ''pg_time_window''), (''strategy_match_delta_ms'', PInt 0)], None, None))"
      "strategy_fields shared_services (order_match_of (\<lambda>v. []) ?o (?r 2)) (map_of ?t 2) (?r 2) =
        (\<lambda>d. ([(''strategy_name'', PStr ''external_manual''), (''strategy_source'', PStr ''bybit_unknown'')], None, None))"
    by (simp_all add: strategy_fields_def om named_match_def time_match_of_def shared_fill_def strategy_from_order_link_id_def link
        link_text_def py_or_def py_str_def text_strip_def link_tag_def str_lower_def Let_def fun_eq_iff del: One_nat_def)
  obtain d0 e0 d1 e1 d2 e2 where d: "enrich_row shared_services ?o ?t (0, ?r 0) = Some d0" "enrich_row shared_services ?o ?t (1, ?r 1) = Some d1"
      "enrich_row shared_services ?o ?t (2, ?r 2) = Some d2"
    and e: "attribution e0 = (PNone, PNone, PNone, PNone)" "attribution e1 = (PNone, PNone, PNone, PNone)"
      "attribution e2 = (PNone, PNone, PNone, PNone)"
      "attribution d0 = attribution (dict_update e0 ([(''strategy_name'', PStr ''grid''), (''strategy_source'', PStr ''pg_fill'')] @ [(''pg_engine_pnl'', PNone)]))"
      "attribution d1 = attribution (dict_update e1 ([(''strategy_name'', PStr ''grid''), (''strategy_source'', PStr ''pg_time_window''),
         (''strategy_match_delta_ms'', PInt 0)] @ [(''pg_engine_pnl'', PNone)]))"
      "attribution d2 = attribution (dict_update e2 ([(''strategy_name'', PStr ''external_manual''), (''strategy_source'', PStr ''bybit_unknown'')] @ [(''pg_engine_pnl'', PNone)]))"
    using shared_enrich[OF in_rows(1) f(1)] shared_enrich[OF in_rows(2) f(2)] shared_enrich[OF in_rows(3) f(3)] by blast
  have att: "map attribution [d0, d1, d2] =
     [(PStr ''pg_fill'', PStr ''grid'', PNone, PNone), (PStr ''pg_time_window'', PStr ''grid'', PInt 0, PNone),
      (PStr ''bybit_unknown'', PStr ''external_manual'', PNone, PNone)]"
    using e by (simp add: attribution_def dict_get_def dict_simps)
  have "filter (\<lambda>(i, row). named_match (order_match_of (\<lambda>v. []) ?o row) = None) (enumerate 0 shared_rows) = [(1, ?r 1), (2, ?r 2)]"
    unfolding rows by (simp add: om named_match_def del: One_nat_def)
  then have "attach_closed_pnl_strategy shared_services modes shared_rows = Some [d0, d1, d2]"
    unfolding attach_closed_pnl_strategy_def Let_def unfolding shared_by_order[unfolded by_order_of_def]
    unfolding shared_services_sel(1)
    by (simp only: shared_by_time bind.bind_lunit) (simp only: rows map_opt.simps d bind.bind_lunit)
  then show ?thesis using att by (intro exI conjI)
qed

theorem closed_pnl_fill_used_once_witness:
  "\<exists>out (fill :: nat \<Rightarrow> candidate). attach_closed_pnl_strategy shared_services [] shared_rows = Some out \<and> timed_rows out = {1} \<and>
     dict_get (out ! 1) ''strategy_name'' PNone = PStr (cd_strategy (fill 1))"
proof -
  obtain out where out: "attach_closed_pnl_strategy shared_services [] shared_rows = Some out" "map attribution out =
     [(PStr ''pg_fill'', PStr ''grid'', PNone, PNone), (PStr ''pg_time_window'', PStr ''grid'', PInt 0, PNone),
      (PStr ''bybit_unknown'', PStr ''external_manual'', PNone, PNone)]"
    by (rule exE[OF closed_pnl_fill_shared[of "[]"]]) (elim conjE, rule that)
  have "length out = 3" using arg_cong[OF out(2), of length] by (simp only: length_map list.size)
  then obtain d0 d1 d2 where d: "out = [d0, d1, d2]" by (auto simp: length_Suc_conv numeral_3_eq_3)
  have "attribution d0 = (PStr ''pg_fill'', PStr ''grid'', PNone, PNone)"
      "attribution d1 = (PStr ''pg_time_window'', PStr ''grid'', PInt 0, PNone)"
      "attribution d2 = (PStr ''bybit_unknown'', PStr ''external_manual'', PNone, PNone)"
    using out(2) unfolding d list.map list.inject by (simp_all only: simp_thms)
  then have sources: "dict_get d0 ''strategy_source'' PNone = PStr ''pg_fill''" "dict_get d1 ''strategy_source'' PNone = PStr ''pg_time_window''"
      "dict_get d2 ''strategy_source'' PNone = PStr ''bybit_unknown''"
    unfolding attribution_def prod.inject by (simp_all only: simp_thms)
  have one: "timed_rows out = {1}"
    by (auto simp: d timed_rows_def less_Suc_eq sources)
  obtain fill :: "nat \<Rightarrow> candidate" where "\<forall>i \<in> timed_rows out. \<exists>ts. attribution (out ! i) =
      (PStr ''pg_time_window'', PStr (cd_strategy (fill i)), PInt \<bar>cd_ts_ms (fill i) - ts\<bar>, opt_float (cd_pnl (fill i)))"
    using closed_pnl_fill_used_once[OF out(1)] by blast
  then have "dict_get (out ! 1) ''strategy_name'' PNone = PStr (cd_strategy (fill 1))"
    by (auto simp: one attribution_def)
  with out(1) one show ?thesis by blast
qed

end
