(* ===== verification/Spec2Isabelle.thy ===== *)
theory Spec2Isabelle
  imports Py_Prelude Py_Float Py_Coerce Change_Log SM_Base Auth_SM Lease_SM Risk_SM Recovery_Gate
    Recon_Engine Recon_Laws Lease_IPC Learning_Gate Gov_Events Gov_Hub Gov_Laws Gov_Ops Gov_Invariant Gov_Reach
    Gov_Compose Incident_Policy TTL_Enforcer Gov_Wiring Paper_Live_Gate Earned_Trust
    Residual_Report Promotion_Pipeline H0_Gate Closed_PnL Closed_PnL_Rows
begin

text \<open>
  The governance core of Arcane Equilibrium.

  The repository is an algorithmic trading system: a Rust engine executes, and a Python control
  plane decides what it may do. This development models the Python governance core, the files
  of \<open>control_api_v1/app\<close> named below and one of \<open>program_code/ml_training\<close>, and proves what makes
  it safe: nothing is traded without an approved authorization, every lease has a chain of custody,
  risk is lowered only with approval, reconciliation never shuts trading down by itself, no strategy
  goes live without its gates and the operator, and no profit is learned from that the exchange
  did not report.

  Parts and theories:
  \<^item> \<open>change_audit_log.py\<close> (Change_Log): the list of recorded changes and their approval.
  \<^item> \<open>state_machine_base.py\<close> (SM_Base): the guard chain, the audit record, the object store
    and the expiry sweep that the machines inherit. The locale object_machine there states the
    contract of a machine over a store; it is interpreted on the authorization and lease
    machines, and the loops of Gov_Laws are proved in it once.
  \<^item> \<open>authorization_state_machine.py\<close> (Auth_SM), \<open>decision_lease_state_machine.py\<close>
    (Lease_SM), \<open>risk_governor_state_machine.py\<close> (Risk_SM): the three state machines, with
    their rule tables, object records, operations, export and import.
  \<^item> \<open>recovery_approval_gate.py\<close> (Recovery_Gate): requests, approvals and observation periods.
  \<^item> \<open>reconciliation_engine.py\<close> (Recon_Engine, Recon_Laws): comparing two snapshots.
  \<^item> \<open>governance_events.py\<close> (Gov_Events) and \<open>governance_hub.py\<close> with its cascade and
    event-handler mixins (Gov_Hub): the hub that owns the machines, gates trading on them and
    carries an escalation from one to another.
  \<^item> \<open>governance_lease_bridge.py\<close>, \<open>lease_ipc_schema.py\<close> and
    \<open>governance_divergence.py\<close> (Lease_IPC): the messages to and from the Rust core over an
    arbitrary transport, and the comparator of the two sides; Gov_Compose puts it under the hub.
  \<^item> \<open>learning_tier_gate.py\<close> (Learning_Gate): the tiers of the learning system.
  \<^item> \<open>incident_event_model.py\<close> (Incident_Policy), \<open>ttl_enforcer.py\<close> (TTL_Enforcer) and what
    \<open>paper_trading_wiring.py\<close> makes of them on the hub (Gov_Wiring).
  \<^item> \<open>paper_live_gate.py\<close> (Paper_Live_Gate) and \<open>earned_trust_engine.py\<close>
    (Earned_Trust): when paper trading may go live, and how long a live session may run.
  \<^item> \<open>ml_training/residual_alpha_report_contract.py\<close> (Residual_Report), the validator of the
    evidence that \<open>promotion_pipeline.py\<close> (Promotion_Pipeline) asks for before a strategy goes live.
  \<^item> \<open>h0_gate.py\<close> (H0_Gate): the deterministic checks in front of the reasoning layers, in
    blocking and in shadow mode.
  \<^item> \<open>closed_pnl_pagination.py\<close> and the record of failures of \<open>strategy_ai_routes.py\<close>: reading closed
    positions page by page (Closed_PnL), and what a row says of profit and strategy (Closed_PnL_Rows).
  \<^item> Py_Prelude, Py_Float and Py_Coerce hold what the model uses of Python: values, ordered
    dictionaries, texts, clocks and ids; floats; \<open>float()\<close>, \<open>int()\<close> and truth.

  State and effects. Each class is a record; an operation takes its arguments, the state and a
  world and returns its result, the new state and the new world. The world holds a stream of
  clock readings and of random ids, the functions the code takes from its environment (hash,
  JSON text), the change log, if any, and what was sent to audit and incident sinks. An
  exception is a value of a sum or an option, so every raise and early return is a branch.
  Dictionaries are association lists in insertion order. Python ints are int; floats are exact
  rationals rounded to 53 bits, with infinities and NaN.

  What the lemmas show. SM_Base proves the guard chain sound and complete against the rule
  table. Each machine has an invariant (auth_inv, lease_inv, risk_sound, gate_ok), preserved by
  every operation that changes a machine in use, and so true of every machine so reached; its exports round trip.
  The histories leave out \<open>import_state\<close>, which takes over any saved state and which nothing in the application
  calls. Recon_Laws
  characterizes the findings, grades and actions. Gov_Laws proves the freeze and risk cascades,
  Gov_Ops the exact outcome of each hub operation, Gov_Invariant that reconciliation through
  the hub is advisory, and Gov_Reach the invariant of every history of hub operations. SM_Base
  also refines each object machine to the plain graph of its states. TTL_Enforcer characterizes
  runs of sweeps, and Gov_Wiring refines them, wired to the hub, to steps on the states of the
  objects. Paper_Live_Gate and Earned_Trust give the exact decisions of gate and ladder;
  Earned_Trust also refines workers that share a state file to a single process. Residual_Report
  states the contract of a valid report; Promotion_Pipeline gives the exact step between stages, the frozen
  paper lane and the approval behind every live strategy, over all histories, the loading of rows of the database
  included: a row may bring a strategy in at any stage, and what is proved holds up to the stages so entered.
  Learning_Gate proves that every step of the tiers went one up, on metrics that met the criteria or by an operator. H0_Gate shows which calls
  are allowed, that shadow mode predicts blocking mode, and how the counters are kept. Closed_PnL proves the round
  trip of cursors, the bounds of every request and that paging returns every record once;
  Closed_PnL_Rows that no fill is attributed to two rows by symbol and time (a fill attributed by order id can be, which is
  shown too) and that learning values are the exchange's own.

  Where code and documents differ, the model follows the code: the rule table of the risk governor has edges that SM-04
  forbids, the paper to live gate takes limits met exactly where DOC-08 asks for more, and an approved recovery request may name
  a higher level. The texts of the properties say so where it matters.

  Bounds. The numbers are the code's: 1000 governance events, 1000 reports of
  history, 512 escalated report ids, a gate cache of 100 ms, 100 entries of the shadow log, windows of seven days,
  100 rows a page and 8 requests a preload. Every definition is total; loops are folds over lists, or recursions with a
  termination proof (the loop of a preload ends because its calls are counted). Only the client that
  pages until there is no cursor (\<open>drain\<close>, not a function of the code) has fuel, and its theorem shows that
  as many preloads as there are windows and records are enough.

  Not modelled, and why:
  \<^item> logging, locks (an operation is one atomic step) and Telegram alerts: no effect on state;
  \<^item> the file writer behind the audit callbacks: the events handed to it are in the world;
  \<^item> the IPC transport to the Rust core: an arbitrary function of the request and the world; in
    Gov_Hub the whole bridge is the parameter \<open>lease_ipc\<close>, which Gov_Compose instantiates;
  \<^item> threads that sleep (the scheduled reconciliation, the daemon of the TTL enforcer, the health worker of
    the H0 gate): a round of theirs is an operation that may happen at any time, the readings of \<open>psutil\<close> its argument;
  \<^item> the estimators of selection bias and tail risk, the exchange client and the answers of the database: arguments;
  \<^item> \<open>export_to_json\<close>, \<open>to_json\<close>, \<open>get_learning_tier_status\<close> (output only), the ISO
    form of a time (a parameter) and the JSON text of state files (a file holds the value) and of
    cursors (two functions, with the law that reading undoes writing);
  \<^item> \<open>str()\<close> of containers and the iteration order of sets: parameters (\<open>runtime\<close>);
  \<^item> \<open>time.time()\<close> is an arbitrary stream of rationals; readings made by the sinks are not
    counted; text operations are for ASCII;
  \<^item> the HTTP routes, the Rust core, research and maintenance scripts.
\<close>

end
